(* ===== verification/Prelude.thy ===== *)
theory Prelude
  imports Main "HOL-Library.Char_ord" "HOL-Library.Sublist" "HOL-Library.Multiset"
begin

text \<open>
  What every theory of the development shares: the run-time panics of Go as values, checked
  slicing and indexing, the theorem collections the component proofs draw on, and lemmas on
  lists that no component owns.

  A Go \<open>int\<close> that serves as an index or a length is an \<open>int\<close> (or a \<open>nat\<close> where the code has
  already established that it is not negative); the components that can overflow keep their
  width. A Go \<open>string\<close> is the list of its bytes, that is an Isabelle \<open>string\<close>.
\<close>

named_theorems go_eval \<open>equations that evaluate library calls on concrete arguments\<close>
named_theorems seg_simps \<open>facts about splitting and joining at a separator\<close>
named_theorems wf_intros \<open>introduction rules for the components' invariants\<close>

section \<open>Panics\<close>

text \<open>
  \<open>StackOverflow\<close> is the run-time error of a recursion without end, \<open>Diverges\<close> stands for a loop without end.
\<close>

datatype go_panic = IndexOutOfRange | SliceOutOfRange | StackOverflow | Diverges | Panicked string

type_synonym 'a go = "go_panic + 'a"

definition go_slice :: "'a list \<Rightarrow> int \<Rightarrow> int \<Rightarrow> 'a list go" where
  \<comment> \<open>the Go expression \<open>s[lo:hi]\<close> on a value whose capacity is its length\<close>
  "go_slice s lo hi =
     (if 0 \<le> lo \<and> lo \<le> hi \<and> hi \<le> int (length s)
      then Inr (take (nat hi - nat lo) (drop (nat lo) s)) else Inl SliceOutOfRange)"

definition index_get :: "'a list \<Rightarrow> int \<Rightarrow> 'a go" where
  \<comment> \<open>the Go expression \<open>s[i]\<close>\<close>
  "index_get s i = (if 0 \<le> i \<and> i < int (length s) then Inr (s ! nat i) else Inl IndexOutOfRange)"

definition go_bind :: "'a go \<Rightarrow> ('a \<Rightarrow> 'b go) \<Rightarrow> 'b go" where
  "go_bind m f = (case m of Inl e \<Rightarrow> Inl e | Inr x \<Rightarrow> f x)"

lemma go_bind_simps [simp]:
  "go_bind (Inl e) f = Inl e"
  "go_bind (Inr x) f = f x"
  by (simp_all add: go_bind_def)

lemma go_bind_InrD:
  assumes "go_bind m f = Inr y"
  obtains x where "m = Inr x" and "f x = Inr y"
  using assms by (cases m) auto

lemma go_slice_in_range:
  "0 \<le> lo \<Longrightarrow> lo \<le> hi \<Longrightarrow> hi \<le> int (length s) \<Longrightarrow>
   go_slice s lo hi = Inr (take (nat hi - nat lo) (drop (nat lo) s))"
  by (simp add: go_slice_def)

lemma go_slice_from: "0 \<le> lo \<Longrightarrow> lo \<le> int (length s) \<Longrightarrow> go_slice s lo (int (length s)) = Inr (drop (nat lo) s)"
  by (simp add: go_slice_def)

lemma go_slice_upto: "0 \<le> hi \<Longrightarrow> hi \<le> int (length s) \<Longrightarrow> go_slice s 0 hi = Inr (take (nat hi) s)"
  by (simp add: go_slice_def)

lemma index_get_in_range: "i < length s \<Longrightarrow> index_get s (int i) = Inr (s ! i)"
  by (simp add: index_get_def)

section \<open>Machine integers\<close>

text \<open>
  Arithmetic on Go's \<open>int\<close> (64 bits) and \<open>int32\<close> wraps around in two's complement. The wrapped value
  is written with these two functions where a result can leave the range.
\<close>

definition int64 :: "int \<Rightarrow> int" where
  "int64 x = signed_take_bit 63 x"

definition int32 :: "int \<Rightarrow> int" where
  "int32 x = signed_take_bit 31 x"

lemma int64_in_range [simp]: "- (2 ^ 63) \<le> x \<Longrightarrow> x < 2 ^ 63 \<Longrightarrow> int64 x = x"
  by (simp add: int64_def signed_take_bit_int_eq_self)

lemma int32_in_range [simp]: "- (2 ^ 31) \<le> x \<Longrightarrow> x < 2 ^ 31 \<Longrightarrow> int32 x = x"
  by (simp add: int32_def signed_take_bit_int_eq_self)

section \<open>Lists\<close>

lemma takeWhile_append_stop:
  "\<forall>x \<in> set xs. P x \<Longrightarrow> \<not> P y \<Longrightarrow> takeWhile P (xs @ y # ys) = xs"
  by (induction xs) auto

lemma dropWhile_append_stop:
  "\<forall>x \<in> set xs. P x \<Longrightarrow> \<not> P y \<Longrightarrow> dropWhile P (xs @ y # ys) = y # ys"
  by (induction xs) auto

lemma takeWhile_all [simp]: "\<forall>x \<in> set xs. P x \<Longrightarrow> takeWhile P xs = xs"
  by (induction xs) auto

lemma dropWhile_all [simp]: "\<forall>x \<in> set xs. P x \<Longrightarrow> dropWhile P xs = []"
  by (induction xs) auto

lemma last_take_Suc: "n < length xs \<Longrightarrow> last (take (Suc n) xs) = xs ! n"
  by (simp add: take_Suc_conv_app_nth)

lemma distinct_butlast_snoc: "distinct (xs @ [x]) \<longleftrightarrow> distinct xs \<and> x \<notin> set xs"
  by auto

end
