(* ===== verification/Collections.thy ===== *)
theory Collections
  imports Prelude "HOL-Library.AList"
begin

text \<open>
  The containers of \<open>internal/collections\<close> and the small ones of \<open>internal/core\<close>: the insertion
  ordered map (a slice of keys beside a Go map) and the ordered set built on it, the multi-map,
  the set and the stack. A Go map is a partial function; a method that reads a missing key as the
  zero value takes that value as an argument. Capacity hints and in-place reuse of slice storage
  have no effect on the values; a negative hint is a panic (and so is one that asks for more memory than
  there is, which no length does).
\<close>

section \<open>The insertion ordered map\<close>

record ('k, 'v) OrderedMap =
  om_keys :: "'k list"
  om_mp :: "'k \<rightharpoonup> 'v"

definition OrderedMap_empty :: "('k, 'v) OrderedMap" where
  "OrderedMap_empty = \<lparr>om_keys = [], om_mp = Map.empty\<rparr>"

definition NewOrderedMapWithSizeHint :: "int \<Rightarrow> ('k, 'v) OrderedMap go" where
  "NewOrderedMapWithSizeHint hint =
     (if hint < 0 then Inl (Panicked ''makeslice: cap out of range'') else Inr OrderedMap_empty)"

lemma NewOrderedMap_length [simp]: "NewOrderedMapWithSizeHint (int n) = Inr OrderedMap_empty"
  by (simp add: NewOrderedMapWithSizeHint_def)

definition OrderedMap_Set :: "('k, 'v) OrderedMap \<Rightarrow> 'k \<Rightarrow> 'v \<Rightarrow> ('k, 'v) OrderedMap" where
  "OrderedMap_Set m key value =
     (let m' = (if om_mp m key = None then m\<lparr>om_keys := om_keys m @ [key]\<rparr> else m)
      in m'\<lparr>om_mp := (om_mp m')(key \<mapsto> value)\<rparr>)"

fun set_items :: "('k, 'v) OrderedMap \<Rightarrow> ('k \<times> 'v) list \<Rightarrow> ('k, 'v) OrderedMap" where
  "set_items mp [] = mp"
| "set_items mp ((k, v) # items) = set_items (OrderedMap_Set mp k v) items"

definition NewOrderedMapFromList :: "('k \<times> 'v) list \<Rightarrow> ('k, 'v) OrderedMap go" where
  "NewOrderedMapFromList items =
     go_bind (NewOrderedMapWithSizeHint (int (length items))) (\<lambda>mp. Inr (set_items mp items))"

definition OrderedMap_Get :: "('k, 'v) OrderedMap \<Rightarrow> 'k \<Rightarrow> 'v option" where
  "OrderedMap_Get m key = om_mp m key"

definition OrderedMap_GetOrZero :: "'v \<Rightarrow> ('k, 'v) OrderedMap \<Rightarrow> 'k \<Rightarrow> 'v" where
  "OrderedMap_GetOrZero zero m key = (case om_mp m key of Some v \<Rightarrow> v | None \<Rightarrow> zero)"

definition OrderedMap_Has :: "('k, 'v) OrderedMap \<Rightarrow> 'k \<Rightarrow> bool" where
  "OrderedMap_Has m key = (om_mp m key \<noteq> None)"

fun slices_Index :: "'a list \<Rightarrow> 'a \<Rightarrow> int" where
  "slices_Index [] x = -1"
| "slices_Index (y # ys) x = (if y = x then 0 else (let i = slices_Index ys x in if i < 0 then -1 else i + 1))"

text \<open>
  \<open>Delete\<close> has three ways of dropping the key, by its position. A position of \<open>-1\<close> (the key in the
  map but not in the slice) would panic in \<open>slices.Delete\<close>, or in \<open>m.keys[end]\<close> when the slice is
  empty.
\<close>

definition OrderedMap_Delete ::
    "('k, 'v) OrderedMap \<Rightarrow> 'k \<Rightarrow> ('v option \<times> ('k, 'v) OrderedMap) go" where
  "OrderedMap_Delete m key =
     (case om_mp m key of
        None \<Rightarrow> Inr (None, m)
      | Some v \<Rightarrow>
          (let m1 = m\<lparr>om_mp := (om_mp m)(key := None)\<rparr>;
               i = slices_Index (om_keys m) key;
               end = int (length (om_keys m)) - 1
           in if i = 0 then Inr (Some v, m1\<lparr>om_keys := tl (om_keys m)\<rparr>)
              else if i = end then
                (if end < 0 then Inl IndexOutOfRange
                 else Inr (Some v, m1\<lparr>om_keys := take (nat end) (om_keys m)\<rparr>))
              else if i < 0 then Inl SliceOutOfRange
              else Inr (Some v, m1\<lparr>om_keys := take (nat i) (om_keys m) @ drop (nat i + 1) (om_keys m)\<rparr>)))"

text \<open>
  The iterators re-read the slice at every step, since the consumer may change the map. The
  consumer \<open>yield\<close> runs on a state that holds the map (\<open>get\<close> reads it) and answers whether to go on.
  A consumer that keeps adding keys never stops, so the loop is partial.
\<close>

partial_function (option) Keys_loop ::
    "('s \<Rightarrow> ('k, 'v) OrderedMap) \<Rightarrow> ('k \<Rightarrow> 's \<Rightarrow> bool \<times> 's) \<Rightarrow> nat \<Rightarrow> 's \<Rightarrow> 's option" where
  "Keys_loop get yield i s =
     (if i < length (om_keys (get s)) then
        (case yield (om_keys (get s) ! i) s of
           (again, s') \<Rightarrow> if again then Keys_loop get yield (i + 1) s' else Some s')
      else Some s)"

definition OrderedMap_Keys ::
    "('s \<Rightarrow> ('k, 'v) OrderedMap) \<Rightarrow> ('k \<Rightarrow> 's \<Rightarrow> bool \<times> 's) \<Rightarrow> 's \<Rightarrow> 's option" where
  "OrderedMap_Keys get yield s = Keys_loop get yield 0 s"

partial_function (option) Entries_loop ::
    "'v \<Rightarrow> ('s \<Rightarrow> ('k, 'v) OrderedMap) \<Rightarrow> ('k \<Rightarrow> 'v \<Rightarrow> 's \<Rightarrow> bool \<times> 's) \<Rightarrow> nat \<Rightarrow> 's \<Rightarrow> 's option" where
  "Entries_loop zero get yield i s =
     (if i < length (om_keys (get s)) then
        (case yield (om_keys (get s) ! i) (OrderedMap_GetOrZero zero (get s) (om_keys (get s) ! i)) s of
           (again, s') \<Rightarrow> if again then Entries_loop zero get yield (i + 1) s' else Some s')
      else Some s)"

definition OrderedMap_Entries ::
    "'v \<Rightarrow> ('s \<Rightarrow> ('k, 'v) OrderedMap) \<Rightarrow> ('k \<Rightarrow> 'v \<Rightarrow> 's \<Rightarrow> bool \<times> 's) \<Rightarrow> 's \<Rightarrow> 's option" where
  "OrderedMap_Entries zero get yield s = Entries_loop zero get yield 0 s"

definition OrderedMap_Values ::
    "'v \<Rightarrow> ('s \<Rightarrow> ('k, 'v) OrderedMap) \<Rightarrow> ('v \<Rightarrow> 's \<Rightarrow> bool \<times> 's) \<Rightarrow> 's \<Rightarrow> 's option" where
  "OrderedMap_Values zero get yield s = Entries_loop zero get (\<lambda>k v. yield v) 0 s"

definition OrderedMap_Clear :: "('k, 'v) OrderedMap \<Rightarrow> ('k, 'v) OrderedMap" where
  "OrderedMap_Clear m = m\<lparr>om_keys := [], om_mp := Map.empty\<rparr>"

definition OrderedMap_Size :: "('k, 'v) OrderedMap option \<Rightarrow> nat" where
  "OrderedMap_Size m = (case m of None \<Rightarrow> 0 | Some m \<Rightarrow> length (om_keys m))"

definition OrderedMap_Clone :: "('k, 'v) OrderedMap option \<Rightarrow> ('k, 'v) OrderedMap option" where
  "OrderedMap_Clone m = (case m of None \<Rightarrow> None | Some m \<Rightarrow> Some \<lparr>om_keys = om_keys m, om_mp = om_mp m\<rparr>)"

subsection \<open>The invariant\<close>

definition OrderedMap_wf :: "('k, 'v) OrderedMap \<Rightarrow> bool" where
  "OrderedMap_wf m = (distinct (om_keys m) \<and> set (om_keys m) = dom (om_mp m))"

lemma wf_new [wf_intros]: "OrderedMap_wf OrderedMap_empty"
  by (simp add: OrderedMap_wf_def OrderedMap_empty_def)

lemma wf_set [wf_intros]: "OrderedMap_wf m \<Longrightarrow> OrderedMap_wf (OrderedMap_Set m k v)"
  by (auto simp: OrderedMap_wf_def OrderedMap_Set_def Let_def)

lemma wf_clear [wf_intros]: "OrderedMap_wf (OrderedMap_Clear m)"
  by (simp add: OrderedMap_wf_def OrderedMap_Clear_def)

lemma set_keys: "OrderedMap_wf m \<Longrightarrow> om_keys (OrderedMap_Set m k v) = (if k \<in> set (om_keys m) then om_keys m else om_keys m @ [k])"
  by (auto simp: OrderedMap_wf_def OrderedMap_Set_def Let_def)

lemma set_mp: "om_mp (OrderedMap_Set m k v) = (om_mp m)(k \<mapsto> v)"
  by (simp add: OrderedMap_Set_def Let_def)

lemma slices_Index_absent: "x \<notin> set xs \<Longrightarrow> slices_Index xs x = -1"
  by (induction xs) auto

lemma slices_Index_append: "x \<notin> set xs \<Longrightarrow> slices_Index (xs @ x # ys) x = int (length xs)"
  by (induction xs) (auto simp: Let_def)

text \<open>All three branches of \<open>Delete\<close> do the same to the slice: they drop the key.\<close>

lemma delete_wf:
  assumes wf: "OrderedMap_wf m" and v: "om_mp m k = Some v"
  shows "OrderedMap_Delete m k =
    Inr (Some v, m\<lparr>om_keys := filter (\<lambda>x. x \<noteq> k) (om_keys m), om_mp := (om_mp m)(k := None)\<rparr>)"
proof -
  have "k \<in> set (om_keys m)" and d: "distinct (om_keys m)"
    using wf v by (auto simp: OrderedMap_wf_def)
  then obtain as bs where split: "om_keys m = as @ k # bs" and "k \<notin> set as" and "k \<notin> set bs"
    by (metis distinct.simps(2) distinct_append split_list_first)
  then have i: "slices_Index (om_keys m) k = int (length as)"
    by (simp_all add: slices_Index_append)
  have "filter (\<lambda>x. x \<noteq> k) as = as" "filter (\<lambda>x. x \<noteq> k) bs = bs"
    using \<open>k \<notin> set as\<close> \<open>k \<notin> set bs\<close> by (auto intro!: filter_True)
  then have f: "filter (\<lambda>x. x \<noteq> k) (om_keys m) = as @ bs" by (simp add: split)
  consider "as = []" | "as \<noteq> []" "bs = []" | "as \<noteq> []" "bs \<noteq> []" by blast
  then show ?thesis
    by cases (simp_all add: OrderedMap_Delete_def v i f Let_def, simp_all add: split)
qed

lemma delete_absent: "om_mp m k = None \<Longrightarrow> OrderedMap_Delete m k = Inr (None, m)"
  by (simp add: OrderedMap_Delete_def)

lemma delete_InrE:
  assumes wf: "OrderedMap_wf m"
  obtains r m' where "OrderedMap_Delete m k = Inr (r, m')" and "r = om_mp m k" and "OrderedMap_wf m'"
    and "om_keys m' = filter (\<lambda>x. x \<noteq> k) (om_keys m)" and "om_mp m' = (om_mp m)(k := None)"
proof (cases "om_mp m k")
  case None
  then have "k \<notin> set (om_keys m)" using wf by (auto simp: OrderedMap_wf_def)
  then have "filter (\<lambda>x. x \<noteq> k) (om_keys m) = om_keys m" by (auto intro: filter_True)
  moreover have "(om_mp m)(k := None) = om_mp m" using None by auto
  ultimately show ?thesis using that [of None m] wf None by (simp add: delete_absent)
next
  case (Some v)
  then show ?thesis
    using that [OF delete_wf [OF wf Some]] wf by (auto simp: OrderedMap_wf_def)
qed

subsection \<open>The contract of an insertion ordered map\<close>

text \<open>
  What the rest of the program relies on: a finite map whose keys are enumerated in the order of
  their first insertion. \<open>entries\<close> is the abstract value, an association list.
\<close>

locale insertion_ordered =
  fixes empty :: "'m"
    and put :: "'m \<Rightarrow> 'k \<Rightarrow> 'v \<Rightarrow> 'm"
    and remove :: "'m \<Rightarrow> 'k \<Rightarrow> ('v option \<times> 'm) go"
    and look :: "'m \<Rightarrow> 'k \<Rightarrow> 'v option"
    and order :: "'m \<Rightarrow> 'k list"
    and wf :: "'m \<Rightarrow> bool"
  assumes wf_empty: "wf empty" and order_empty: "order empty = []"
    and wf_put: "wf m \<Longrightarrow> wf (put m k v)"
    and order_put: "wf m \<Longrightarrow> order (put m k v) = (if k \<in> set (order m) then order m else order m @ [k])"
    and look_put: "wf m \<Longrightarrow> look (put m k v) = (look m)(k \<mapsto> v)"
    and remove_spec: "wf m \<Longrightarrow> \<exists>m'. remove m k = Inr (look m k, m') \<and> wf m' \<and>
          order m' = filter (\<lambda>x. x \<noteq> k) (order m) \<and> look m' = (look m)(k := None)"
    and order_distinct: "wf m \<Longrightarrow> distinct (order m)"
    and order_dom: "wf m \<Longrightarrow> set (order m) = dom (look m)"
begin

lemma wf_puts: "wf m \<Longrightarrow> wf (fold (\<lambda>(k, v) m. put m k v) items m)"
  by (induction items arbitrary: m) (auto simp: wf_put)

lemma look_puts: "wf m \<Longrightarrow> look (fold (\<lambda>(k, v) m. put m k v) items m) = look m ++ map_of (rev items)"
proof (induction items arbitrary: m)
  case (Cons p items)
  obtain k v where p: "p = (k, v)" by force
  have "look (fold (\<lambda>(k, v) m. put m k v) items (put m k v)) = look (put m k v) ++ map_of (rev items)"
    by (rule Cons.IH [OF wf_put [OF Cons.prems]])
  also have "\<dots> = look m ++ map_of (rev (p # items))" by (auto simp: p look_put [OF Cons.prems] map_add_def fun_eq_iff split: option.splits)
  finally show ?case by (simp only: p fold_simps prod.case)
qed simp

lemma order_puts:
  "wf m \<Longrightarrow> order (fold (\<lambda>(k, v) m. put m k v) items m) =
     fold (\<lambda>k ks. if k \<in> set ks then ks else ks @ [k]) (map fst items) (order m)"
  by (induction items arbitrary: m) (auto simp: wf_put order_put)

lemma look_order_SomeD: "wf m \<Longrightarrow> k \<in> set (order m) \<Longrightarrow> \<exists>v. look m k = Some v"
  using order_dom [of m] by auto

lemma entries_put:
  assumes "wf m"
  shows "map (\<lambda>x. (x, the (look (put m k v) x))) (order (put m k v)) =
    AList.update k v (map (\<lambda>x. (x, the (look m x))) (order m))"
proof -
  have upd: "distinct ks \<Longrightarrow> AList.update k v (map (\<lambda>x. (x, the (look m x))) ks) =
      (if k \<in> set ks then map (\<lambda>x. (x, the (((look m)(k \<mapsto> v)) x))) ks
       else map (\<lambda>x. (x, the (look m x))) ks @ [(k, v)])" for ks
    by (induction ks) auto
  have "k \<notin> set (order m) \<Longrightarrow> map (\<lambda>x. (x, the (((look m)(k \<mapsto> v)) x))) (order m) = map (\<lambda>x. (x, the (look m x))) (order m)"
    by auto
  then show ?thesis
    using assms order_distinct [OF assms] by (simp add: upd look_put order_put)
qed

lemma entries_filter:
  "map (\<lambda>x. (x, the (((look m)(k := None)) x))) (filter (\<lambda>x. x \<noteq> k) ks) =
   AList.delete k (map (\<lambda>x. (x, the (look m x))) ks)"
  by (induction ks) auto

end

lemma Get_eq [simp]: "OrderedMap_Get m = om_mp m"
  by (simp add: OrderedMap_Get_def fun_eq_iff)

interpretation om: insertion_ordered
  OrderedMap_empty OrderedMap_Set OrderedMap_Delete OrderedMap_Get om_keys OrderedMap_wf
proof (unfold_locales, goal_cases)
  case (6 m k)
  then show ?case by (rule delete_InrE [of m k]) (auto simp: OrderedMap_Get_def fun_eq_iff)
qed (auto simp: wf_intros OrderedMap_empty_def set_keys set_mp OrderedMap_Get_def fun_eq_iff,
     auto simp: OrderedMap_wf_def OrderedMap_Get_def)

section \<open>Runs of operations and their abstract counterpart\<close>

datatype ('k, 'v) map_op = OpSet 'k 'v | OpDelete 'k | OpClear

fun OrderedMap_run :: "('k, 'v) map_op list \<Rightarrow> ('k, 'v) OrderedMap \<Rightarrow> ('k, 'v) OrderedMap go" where
  "OrderedMap_run [] m = Inr m"
| "OrderedMap_run (OpSet k v # ops) m = OrderedMap_run ops (OrderedMap_Set m k v)"
| "OrderedMap_run (OpDelete k # ops) m = go_bind (OrderedMap_Delete m k) (\<lambda>(_, m'). OrderedMap_run ops m')"
| "OrderedMap_run (OpClear # ops) m = OrderedMap_run ops (OrderedMap_Clear m)"

fun assoc_run :: "('k, 'v) map_op list \<Rightarrow> ('k \<times> 'v) list \<Rightarrow> ('k \<times> 'v) list" where
  "assoc_run [] al = al"
| "assoc_run (OpSet k v # ops) al = assoc_run ops (AList.update k v al)"
| "assoc_run (OpDelete k # ops) al = assoc_run ops (AList.delete k al)"
| "assoc_run (OpClear # ops) al = assoc_run ops []"

definition OrderedMap_entries :: "('k, 'v) OrderedMap \<Rightarrow> ('k \<times> 'v) list" where
  "OrderedMap_entries m = map (\<lambda>k. (k, the (om_mp m k))) (om_keys m)"

lemma entries_set: "OrderedMap_wf m \<Longrightarrow> OrderedMap_entries (OrderedMap_Set m k v) = AList.update k v (OrderedMap_entries m)"
  using om.entries_put [of m k v] by (simp add: OrderedMap_entries_def OrderedMap_Get_def)

lemma entries_delete:
  "om_mp m' = (om_mp m)(k := None) \<Longrightarrow> om_keys m' = filter (\<lambda>x. x \<noteq> k) (om_keys m) \<Longrightarrow>
   OrderedMap_entries m' = AList.delete k (OrderedMap_entries m)"
  using om.entries_filter [of m k "om_keys m"] by (simp add: OrderedMap_entries_def)

lemma entries_lookup:
  assumes "OrderedMap_wf m"
  shows "map_of (OrderedMap_entries m) = om_mp m"
proof
  fix k
  show "map_of (OrderedMap_entries m) k = om_mp m k"
    using assms by (cases "om_mp m k") (auto simp: OrderedMap_entries_def OrderedMap_wf_def map_of_map_keys
        intro: map_of_map_restrict [THEN fun_cong, THEN trans] simp: map_of_eq_None_iff)
qed

lemma run_refines:
  "OrderedMap_wf m \<Longrightarrow>
   \<exists>m'. OrderedMap_run ops m = Inr m' \<and> OrderedMap_wf m' \<and>
        OrderedMap_entries m' = assoc_run ops (OrderedMap_entries m)"
proof (induction ops m rule: OrderedMap_run.induct)
  case (2 k v ops m)
  then show ?case by (simp add: wf_set entries_set)
next
  case (3 k ops m)
  from "3.prems" obtain r m' where d: "OrderedMap_Delete m k = Inr (r, m')" "OrderedMap_wf m'"
    "om_keys m' = filter (\<lambda>x. x \<noteq> k) (om_keys m)" "om_mp m' = (om_mp m)(k := None)"
    by (metis delete_InrE)
  with "3.IH" [OF d(2)] entries_delete [of m' m k] show ?case by (simp only: OrderedMap_run.simps assoc_run.simps go_bind_simps prod.case)
next
  case (4 ops m)
  have "OrderedMap_entries (OrderedMap_Clear m) = []"
    by (simp add: OrderedMap_Clear_def OrderedMap_entries_def)
  with "4.IH" [OF wf_clear] show ?case by simp
qed simp

section \<open>The insertion ordered set\<close>

text \<open>An ordered set is an ordered map to \<open>struct{}\<close>; every operation forwards to the map.\<close>

record 'a OrderedSet =
  os_m :: "('a, unit) OrderedMap"

definition NewOrderedSetWithSizeHint :: "int \<Rightarrow> 'a OrderedSet go" where
  "NewOrderedSetWithSizeHint hint = go_bind (NewOrderedMapWithSizeHint hint) (\<lambda>m. Inr \<lparr>os_m = m\<rparr>)"

definition OrderedSet_Add :: "'a OrderedSet \<Rightarrow> 'a \<Rightarrow> 'a OrderedSet" where
  "OrderedSet_Add s value = s\<lparr>os_m := OrderedMap_Set (os_m s) value ()\<rparr>"

definition OrderedSet_Has :: "'a OrderedSet \<Rightarrow> 'a \<Rightarrow> bool" where
  "OrderedSet_Has s value = OrderedMap_Has (os_m s) value"

definition OrderedSet_Delete :: "'a OrderedSet \<Rightarrow> 'a \<Rightarrow> (bool \<times> 'a OrderedSet) go" where
  "OrderedSet_Delete s value =
     go_bind (OrderedMap_Delete (os_m s) value) (\<lambda>(r, m'). Inr (r \<noteq> None, s\<lparr>os_m := m'\<rparr>))"

definition OrderedSet_Values :: "('s \<Rightarrow> 'a OrderedSet) \<Rightarrow> ('a \<Rightarrow> 's \<Rightarrow> bool \<times> 's) \<Rightarrow> 's \<Rightarrow> 's option" where
  "OrderedSet_Values get yield s = OrderedMap_Keys (\<lambda>s. os_m (get s)) yield s"

definition OrderedSet_Clear :: "'a OrderedSet \<Rightarrow> 'a OrderedSet" where
  "OrderedSet_Clear s = s\<lparr>os_m := OrderedMap_Clear (os_m s)\<rparr>"

definition OrderedSet_Size :: "'a OrderedSet \<Rightarrow> nat" where
  "OrderedSet_Size s = OrderedMap_Size (Some (os_m s))"

definition OrderedSet_Clone :: "'a OrderedSet \<Rightarrow> 'a OrderedSet" where
  "OrderedSet_Clone s = \<lparr>os_m = \<lparr>om_keys = om_keys (os_m s), om_mp = om_mp (os_m s)\<rparr>\<rparr>"

fun OrderedSet_AddAll :: "'a OrderedSet \<Rightarrow> 'a list \<Rightarrow> 'a OrderedSet" where
  "OrderedSet_AddAll s [] = s"
| "OrderedSet_AddAll s (x # xs) = OrderedSet_AddAll (OrderedSet_Add s x) xs"

fun first_occurrences :: "'a list \<Rightarrow> 'a list" where
  "first_occurrences [] = []"
| "first_occurrences (x # xs) = x # filter (\<lambda>y. y \<noteq> x) (first_occurrences xs)"

lemma OrderedSet_AddAll_keys:
  "OrderedMap_wf (os_m s) \<Longrightarrow> OrderedMap_wf (os_m (OrderedSet_AddAll s xs)) \<and>
   om_keys (os_m (OrderedSet_AddAll s xs)) =
     om_keys (os_m s) @ filter (\<lambda>x. x \<notin> set (om_keys (os_m s))) (first_occurrences xs)"
proof (induction xs arbitrary: s)
  case (Cons x xs)
  have wf: "OrderedMap_wf (os_m (OrderedSet_Add s x))"
    using Cons.prems by (simp add: OrderedSet_Add_def wf_set)
  have keys: "om_keys (os_m (OrderedSet_Add s x)) =
      (if x \<in> set (om_keys (os_m s)) then om_keys (os_m s) else om_keys (os_m s) @ [x])"
    using Cons.prems by (simp add: OrderedSet_Add_def set_keys)
  show ?case
    using Cons.IH [OF wf] by (auto simp: keys intro!: filter_cong)
qed simp

text \<open>Iterating without changing the map visits the keys in order until the consumer stops.\<close>

fun visit :: "('a \<Rightarrow> 's \<Rightarrow> bool \<times> 's) \<Rightarrow> 'a list \<Rightarrow> 's \<Rightarrow> 's" where
  "visit yield [] s = s"
| "visit yield (x # xs) s = (case yield x s of (again, s') \<Rightarrow> if again then visit yield xs s' else s')"

lemma Keys_loop_visit:
  assumes stable: "\<And>k s. om_keys (get (snd (yield k s))) = om_keys (get s)"
  shows "Keys_loop get yield i s = Some (visit yield (drop i (om_keys (get s))) s)"
proof (induction "length (om_keys (get s)) - i" arbitrary: i s)
  case 0
  then show ?case by (simp add: Keys_loop.simps)
next
  case (Suc n)
  then have i: "i < length (om_keys (get s))" by simp
  let ?k = "om_keys (get s) ! i"
  obtain again s' where y: "yield ?k s = (again, s')" by force
  then have "om_keys (get s') = om_keys (get s)" using stable [of ?k s] by simp
  with Suc i y show ?case
    by (subst Keys_loop.simps) (simp add: Cons_nth_drop_Suc [symmetric])
qed

section \<open>The multi-map\<close>

record ('k, 'v) MultiMap =
  mm_M :: "'k \<rightharpoonup> 'v list"

definition MultiMap_Has :: "('k, 'v) MultiMap \<Rightarrow> 'k \<Rightarrow> bool" where
  "MultiMap_Has s key = (mm_M s key \<noteq> None)"

definition MultiMap_Get :: "('k, 'v) MultiMap \<Rightarrow> 'k \<Rightarrow> 'v list" where
  "MultiMap_Get s key = (case mm_M s key of Some vs \<Rightarrow> vs | None \<Rightarrow> [])"

definition MultiMap_Add :: "('k, 'v) MultiMap \<Rightarrow> 'k \<Rightarrow> 'v \<Rightarrow> ('k, 'v) MultiMap" where
  "MultiMap_Add s key value = s\<lparr>mm_M := (mm_M s)(key \<mapsto> MultiMap_Get s key @ [value])\<rparr>"

definition MultiMap_Remove :: "('k, 'v) MultiMap \<Rightarrow> 'k \<Rightarrow> 'v \<Rightarrow> ('k, 'v) MultiMap" where
  "MultiMap_Remove s key value =
     (case mm_M s key of
        None \<Rightarrow> s
      | Some values \<Rightarrow>
          (let i = slices_Index values value in
           if 0 \<le> i then
             (if length values = 1 then s\<lparr>mm_M := (mm_M s)(key := None)\<rparr>
              else s\<lparr>mm_M := (mm_M s)(key \<mapsto> take (nat i) values @ drop (nat i + 1) values)\<rparr>)
           else s))"

definition MultiMap_RemoveAll :: "('k, 'v) MultiMap \<Rightarrow> 'k \<Rightarrow> ('k, 'v) MultiMap" where
  "MultiMap_RemoveAll s key = s\<lparr>mm_M := (mm_M s)(key := None)\<rparr>"

definition MultiMap_Len :: "('k, 'v) MultiMap \<Rightarrow> nat" where
  "MultiMap_Len s = card (dom (mm_M s))"

definition MultiMap_Clear :: "('k, 'v) MultiMap \<Rightarrow> ('k, 'v) MultiMap" where
  "MultiMap_Clear s = s\<lparr>mm_M := Map.empty\<rparr>"

definition MultiMap_wf :: "('k, 'v) MultiMap \<Rightarrow> bool" where
  "MultiMap_wf s = (\<forall>k. mm_M s k \<noteq> Some [])"

datatype ('k, 'v) multi_op = MAdd 'k 'v | MRemove 'k 'v | MRemoveAll 'k | MClear

fun MultiMap_step :: "('k, 'v) MultiMap \<Rightarrow> ('k, 'v) multi_op \<Rightarrow> ('k, 'v) MultiMap" where
  "MultiMap_step s (MAdd k v) = MultiMap_Add s k v"
| "MultiMap_step s (MRemove k v) = MultiMap_Remove s k v"
| "MultiMap_step s (MRemoveAll k) = MultiMap_RemoveAll s k"
| "MultiMap_step s MClear = MultiMap_Clear s"

text \<open>The abstract value: a bag of values per key.\<close>

fun bag_step :: "('k \<Rightarrow> 'v multiset) \<Rightarrow> ('k, 'v) multi_op \<Rightarrow> ('k \<Rightarrow> 'v multiset)" where
  "bag_step b (MAdd k v) = b(k := add_mset v (b k))"
| "bag_step b (MRemove k v) = b(k := b k - {#v#})"
| "bag_step b (MRemoveAll k) = b(k := {#})"
| "bag_step b MClear = (\<lambda>_. {#})"

definition MultiMap_bag :: "('k, 'v) MultiMap \<Rightarrow> 'k \<Rightarrow> 'v multiset" where
  "MultiMap_bag s k = mset (MultiMap_Get s k)"

lemma remove_at_mset:
  assumes "v \<in> set vs"
  shows "0 \<le> slices_Index vs v"
    and "mset (take (nat (slices_Index vs v)) vs @ drop (nat (slices_Index vs v) + 1) vs) = mset vs - {#v#}"
proof -
  obtain as bs where vs: "vs = as @ v # bs" and "v \<notin> set as"
    using assms by (metis split_list_first)
  then have i: "slices_Index vs v = int (length as)" by (simp add: slices_Index_append)
  show "0 \<le> slices_Index vs v" by (simp add: i)
  show "mset (take (nat (slices_Index vs v)) vs @ drop (nat (slices_Index vs v) + 1) vs) = mset vs - {#v#}"
    by (simp add: i) (simp add: vs)
qed

lemma slices_Index_present: "0 \<le> slices_Index xs x \<longleftrightarrow> x \<in> set xs"
  by (induction xs) (auto simp: Let_def split: if_splits)

lemma remove_at_nonempty:
  assumes "v \<in> set vs" and "length vs \<noteq> 1"
  shows "take (nat (slices_Index vs v)) vs @ drop (nat (slices_Index vs v) + 1) vs \<noteq> []"
proof
  assume "take (nat (slices_Index vs v)) vs @ drop (nat (slices_Index vs v) + 1) vs = []"
  with remove_at_mset(2) [OF assms(1)] have "mset vs - {#v#} = mset []" by metis
  then have "mset vs - {#v#} = {#}" by simp
  then have "mset vs = {#v#}" using assms(1) by (metis insert_DiffM set_mset_mset)
  then have "length vs = 1" by (metis size_mset size_single)
  with assms(2) show False ..
qed

lemma MultiMap_step_wf: "MultiMap_wf s \<Longrightarrow> MultiMap_wf (MultiMap_step s op)"
proof (cases op)
  case (MRemove k v)
  assume wf: "MultiMap_wf s"
  show ?thesis
  proof (cases "mm_M s k")
    case None
    with wf MRemove show ?thesis by (simp add: MultiMap_Remove_def)
  next
    case (Some vs)
    with wf MRemove show ?thesis
      using remove_at_nonempty [of v vs]
      by (simp add: MultiMap_wf_def MultiMap_Remove_def Let_def slices_Index_present)
  qed
qed (auto simp: MultiMap_wf_def MultiMap_Add_def MultiMap_RemoveAll_def MultiMap_Clear_def)

lemma MultiMap_step_bag: "MultiMap_bag (MultiMap_step s op) = bag_step (MultiMap_bag s) op"
proof (cases op)
  case (MRemove k v)
  show ?thesis
  proof (cases "mm_M s k")
    case None
    then show ?thesis
      by (auto simp: MRemove MultiMap_bag_def MultiMap_Get_def MultiMap_Remove_def fun_eq_iff)
  next
    case (Some vs)
    show ?thesis
    proof (cases "v \<in> set vs")
      case True
      then show ?thesis
        using remove_at_mset [OF True] Some
        by (auto simp: MRemove MultiMap_bag_def MultiMap_Get_def MultiMap_Remove_def fun_eq_iff Let_def
            length_Suc_conv)
    next
      case False
      then have "mset vs - {#v#} = mset vs" by (simp add: diff_single_trivial)
      with False Some show ?thesis
        by (auto simp: MRemove MultiMap_bag_def MultiMap_Get_def MultiMap_Remove_def fun_eq_iff
            slices_Index_absent)
    qed
  qed
qed (auto simp: MultiMap_bag_def MultiMap_Get_def MultiMap_Add_def MultiMap_RemoveAll_def
      MultiMap_Clear_def fun_eq_iff)

section \<open>The set\<close>

record 'a GoSet =
  gs_M :: "'a \<rightharpoonup> unit"

definition Set_Has :: "'a GoSet \<Rightarrow> 'a \<Rightarrow> bool" where
  "Set_Has s key = (gs_M s key \<noteq> None)"

definition Set_Add :: "'a GoSet \<Rightarrow> 'a \<Rightarrow> 'a GoSet" where
  "Set_Add s key = s\<lparr>gs_M := (gs_M s)(key \<mapsto> ())\<rparr>"

definition Set_Delete :: "'a GoSet \<Rightarrow> 'a \<Rightarrow> 'a GoSet" where
  "Set_Delete s key = s\<lparr>gs_M := (gs_M s)(key := None)\<rparr>"

definition Set_Len :: "'a GoSet \<Rightarrow> nat" where
  "Set_Len s = card (dom (gs_M s))"

definition Set_Clear :: "'a GoSet \<Rightarrow> 'a GoSet" where
  "Set_Clear s = s\<lparr>gs_M := Map.empty\<rparr>"

definition Set_AddIfAbsent :: "'a GoSet \<Rightarrow> 'a \<Rightarrow> bool \<times> 'a GoSet" where
  "Set_AddIfAbsent s key = (if Set_Has s key then (False, s) else (True, Set_Add s key))"

fun Set_AddAll :: "'a GoSet \<Rightarrow> 'a list \<Rightarrow> 'a GoSet" where
  "Set_AddAll s [] = s"
| "Set_AddAll s (item # items) = Set_AddAll (Set_Add s item) items"

definition NewSetFromItems :: "'a list \<Rightarrow> 'a GoSet" where
  "NewSetFromItems items = Set_AddAll \<lparr>gs_M = Map.empty\<rparr> items"

lemma dom_Set_AddAll: "dom (gs_M (Set_AddAll s items)) = dom (gs_M s) \<union> set items"
  by (induction items arbitrary: s) (auto simp: Set_Add_def)

lemma NewSetFromItems_Has: "Set_Has (NewSetFromItems items) x \<longleftrightarrow> x \<in> set items"
  using dom_Set_AddAll [of "\<lparr>gs_M = Map.empty\<rparr>" items] by (auto simp: Set_Has_def NewSetFromItems_def)

section \<open>The stack\<close>

record 'a Stack =
  st_data :: "'a list"

definition Stack_Push :: "'a Stack \<Rightarrow> 'a \<Rightarrow> 'a Stack" where
  "Stack_Push s item = s\<lparr>st_data := st_data s @ [item]\<rparr>"

definition Stack_Pop :: "'a Stack \<Rightarrow> ('a \<times> 'a Stack) go" where
  "Stack_Pop s =
     (let l = length (st_data s) in
      if l = 0 then Inl (Panicked ''stack is empty'')
      else Inr (st_data s ! (l - 1), s\<lparr>st_data := take (l - 1) (st_data s)\<rparr>))"

definition Stack_Peek :: "'a Stack \<Rightarrow> 'a go" where
  "Stack_Peek s =
     (let l = length (st_data s) in
      if l = 0 then Inl (Panicked ''stack is empty'') else Inr (st_data s ! (l - 1)))"

definition Stack_Len :: "'a Stack \<Rightarrow> nat" where
  "Stack_Len s = length (st_data s)"

lemma Pop_Push [simp]: "Stack_Pop (Stack_Push s x) = Inr (x, s)"
  by (simp add: Stack_Pop_def Stack_Push_def Let_def nth_append)

lemma Peek_Push [simp]: "Stack_Peek (Stack_Push s x) = Inr x"
  by (simp add: Stack_Peek_def Stack_Push_def Let_def nth_append)

section \<open>Properties\<close>

text \<open>C21. A negative size hint is a panic. From any other new map, every sequence of insertions, deletions and
  clears behaves as on the association list with updates in place: no operation panics, the enumerated
  entries are those of the list in its order, and lookup is lookup in the list.\<close>

theorem OrderedMap_refines_assoc_list:
  fixes ops :: "('k, 'v) map_op list"
  shows "if n < 0
    then go_bind (NewOrderedMapWithSizeHint n) (OrderedMap_run ops) = Inl (Panicked ''makeslice: cap out of range'')
    else \<exists>m. go_bind (NewOrderedMapWithSizeHint n) (OrderedMap_run ops) = Inr m \<and>
     OrderedMap_entries m = assoc_run ops [] \<and> OrderedMap_Get m = map_of (assoc_run ops [])"
proof -
  have "OrderedMap_entries (OrderedMap_empty :: ('k, 'v) OrderedMap) = []"
    by (simp add: OrderedMap_entries_def om.order_empty)
  with run_refines [OF om.wf_empty, of ops] obtain m where
    m: "OrderedMap_run ops OrderedMap_empty = Inr m" "OrderedMap_wf m" "OrderedMap_entries m = assoc_run ops []"
    by auto
  with entries_lookup [OF m(2)] show ?thesis by (auto simp: NewOrderedMapWithSizeHint_def)
qed

text \<open>Adding a list of values to a new ordered set enumerates the distinct values in the order of their
  first occurrence.\<close>

theorem OrderedSet_first_occurrences:
  fixes xs :: "'a list"
  assumes "NewOrderedSetWithSizeHint n = Inr s"
  shows "om_keys (os_m (OrderedSet_AddAll s xs)) = first_occurrences xs"
proof -
  have s: "os_m s = OrderedMap_empty"
    using assms by (auto simp: NewOrderedSetWithSizeHint_def NewOrderedMapWithSizeHint_def split: if_splits)
  then have "OrderedMap_wf (os_m s)" by (simp add: om.wf_empty)
  moreover have "om_keys (os_m s) = []" by (simp add: s om.order_empty)
  ultimately show ?thesis using OrderedSet_AddAll_keys [of s xs] by (simp add: filter_True)
qed

text \<open>C37. A multi-map is a bag of values per key under every sequence of operations, and keeps its
  invariant that a present key has at least one value.\<close>

theorem MultiMap_refines_bags:
  "MultiMap_wf (foldl MultiMap_step \<lparr>mm_M = Map.empty\<rparr> ops) \<and>
   MultiMap_bag (foldl MultiMap_step \<lparr>mm_M = Map.empty\<rparr> ops) = foldl bag_step (\<lambda>_. {#}) ops"
proof (induction ops rule: rev_induct)
  case Nil
  show ?case by (simp add: MultiMap_wf_def MultiMap_bag_def MultiMap_Get_def fun_eq_iff)
next
  case (snoc op ops)
  then show ?case by (simp add: MultiMap_step_wf MultiMap_step_bag)
qed

end
