(* ===== verification/Go_Strings.thy ===== *)
theory Go_Strings
  imports Prelude
begin

text \<open>
  The functions of Go's package \<open>strings\<close> (and \<open>slices\<close>) that the modelled code calls, on byte
  strings. They are the standard library, so they carry no entry in the map: each follows the
  documented behaviour of the function it is named after. The lemmas relate splitting, joining,
  searching and slicing; they are what the path and version components are proved with.
\<close>

section \<open>Prefixes, suffixes and searching\<close>

definition HasPrefix :: "string \<Rightarrow> string \<Rightarrow> bool" where
  "HasPrefix s p = (take (length p) s = p)"

definition HasSuffix :: "string \<Rightarrow> string \<Rightarrow> bool" where
  "HasSuffix s p = (length p \<le> length s \<and> drop (length s - length p) s = p)"

definition TrimPrefix :: "string \<Rightarrow> string \<Rightarrow> string" where
  "TrimPrefix s p = (if HasPrefix s p then drop (length p) s else s)"

fun find_sub :: "string \<Rightarrow> string \<Rightarrow> nat option" where
  "find_sub [] p = (if p = [] then Some 0 else None)"
| "find_sub (c # s) p = (if HasPrefix (c # s) p then Some 0 else map_option Suc (find_sub s p))"

definition Index :: "string \<Rightarrow> string \<Rightarrow> int" where
  "Index s p = (case find_sub s p of None \<Rightarrow> -1 | Some i \<Rightarrow> int i)"

definition Contains :: "string \<Rightarrow> string \<Rightarrow> bool" where
  "Contains s p = (find_sub s p \<noteq> None)"

fun find_byte :: "char \<Rightarrow> string \<Rightarrow> nat option" where
  "find_byte c [] = None"
| "find_byte c (x # s) = (if x = c then Some 0 else map_option Suc (find_byte c s))"

definition IndexByte :: "string \<Rightarrow> char \<Rightarrow> int" where
  "IndexByte s c = (case find_byte c s of None \<Rightarrow> -1 | Some i \<Rightarrow> int i)"

fun find_last_byte :: "char \<Rightarrow> string \<Rightarrow> nat option" where
  "find_last_byte c [] = None"
| "find_last_byte c (x # s) =
     (case find_last_byte c s of Some i \<Rightarrow> Some (Suc i) | None \<Rightarrow> if x = c then Some 0 else None)"

definition LastIndexByte :: "string \<Rightarrow> char \<Rightarrow> int" where
  "LastIndexByte s c = (case find_last_byte c s of None \<Rightarrow> -1 | Some i \<Rightarrow> int i)"

fun find_last_sub :: "string \<Rightarrow> string \<Rightarrow> nat option" where
  "find_last_sub [] p = (if p = [] then Some 0 else None)"
| "find_last_sub (c # s) p =
     (case find_last_sub s p of
        Some i \<Rightarrow> Some (Suc i)
      | None \<Rightarrow> if HasPrefix (c # s) p then Some 0 else None)"

definition LastIndex :: "string \<Rightarrow> string \<Rightarrow> int" where
  "LastIndex s p = (case find_last_sub s p of None \<Rightarrow> -1 | Some i \<Rightarrow> int i)"

definition CountByte :: "string \<Rightarrow> char \<Rightarrow> nat" where
  \<comment> \<open>\<open>strings.Count\<close> of a pattern that is one byte\<close>
  "CountByte s c = length (filter (\<lambda>x. x = c) s)"

section \<open>Splitting, joining and replacing\<close>

fun Split :: "char \<Rightarrow> string \<Rightarrow> string list" where
  "Split c [] = [[]]"
| "Split c (x # s) =
     (if x = c then [] # Split c s
      else (case Split c s of [] \<Rightarrow> [[x]] | w # ws \<Rightarrow> (x # w) # ws))"

fun Join :: "string \<Rightarrow> string list \<Rightarrow> string" where
  "Join sep [] = []"
| "Join sep [w] = w"
| "Join sep (w # v # ws) = w @ sep @ Join sep (v # ws)"

text \<open>\<open>ReplaceAll\<close> for a non-empty pattern: non-overlapping matches from the left.\<close>

function ReplaceAll :: "string \<Rightarrow> string \<Rightarrow> string \<Rightarrow> string" where
  "ReplaceAll s old new =
     (if s = [] \<or> old = [] then s
      else if HasPrefix s old then new @ ReplaceAll (drop (length old) s) old new
      else hd s # ReplaceAll (tl s) old new)"
  by pat_completeness auto
termination
  by (relation "measure (\<lambda>(s, old, new). length s)") auto

declare ReplaceAll.simps [simp del]

definition ReplaceFirst :: "string \<Rightarrow> string \<Rightarrow> string \<Rightarrow> string" where
  \<comment> \<open>\<open>strings.Replace\<close> with the count 1\<close>
  "ReplaceFirst s old new =
     (case find_sub s old of None \<Rightarrow> s | Some i \<Rightarrow> take i s @ new @ drop (i + length old) s)"

section \<open>Comparing\<close>

fun strings_Compare :: "string \<Rightarrow> string \<Rightarrow> int" where
  "strings_Compare [] [] = 0"
| "strings_Compare [] (_ # _) = -1"
| "strings_Compare (_ # _) [] = 1"
| "strings_Compare (x # xs) (y # ys) =
     (if x < y then -1 else if y < x then 1 else strings_Compare xs ys)"

definition cmp_Compare :: "'a::linorder \<Rightarrow> 'a \<Rightarrow> int" where
  "cmp_Compare x y = (if x < y then -1 else if y < x then 1 else 0)"

fun CompareFunc :: "('a \<Rightarrow> 'b \<Rightarrow> int) \<Rightarrow> 'a list \<Rightarrow> 'b list \<Rightarrow> int" where
  "CompareFunc cmp [] [] = 0"
| "CompareFunc cmp [] (_ # _) = -1"
| "CompareFunc cmp (_ # _) [] = 1"
| "CompareFunc cmp (x # xs) (y # ys) =
     (let r = cmp x y in if r \<noteq> 0 then r else CompareFunc cmp xs ys)"

section \<open>Facts about searching\<close>

lemma HasPrefix_iff: "HasPrefix s p \<longleftrightarrow> (\<exists>t. s = p @ t)"
  unfolding HasPrefix_def by (metis append_eq_conv_conj append_take_drop_id)

lemma HasPrefix_Nil [simp]: "HasPrefix s []"
  by (simp add: HasPrefix_def)

lemma HasPrefix_Cons [simp]: "HasPrefix (x # s) (y # p) \<longleftrightarrow> x = y \<and> HasPrefix s p"
  by (simp add: HasPrefix_def)

lemma HasPrefix_empty [simp]: "HasPrefix [] (y # p) \<longleftrightarrow> False"
  by (simp add: HasPrefix_def)

lemma HasPrefix_append [simp]: "HasPrefix (p @ t) p"
  by (simp add: HasPrefix_def)

lemma HasSuffix_iff: "HasSuffix s p \<longleftrightarrow> (\<exists>t. s = t @ p)"
proof
  assume "HasSuffix s p"
  then show "\<exists>t. s = t @ p"
    unfolding HasSuffix_def by (metis append_take_drop_id)
qed (auto simp: HasSuffix_def)

lemma find_sub_Some:
  "find_sub s p = Some i \<Longrightarrow> i \<le> length s \<and> HasPrefix (drop i s) p \<and> (\<forall>j<i. \<not> HasPrefix (drop j s) p)"
proof (induction s arbitrary: i)
  case (Cons c s)
  show ?case
  proof (cases "HasPrefix (c # s) p")
    case False
    with Cons.prems obtain k where k: "find_sub s p = Some k" "i = Suc k" by auto
    from Cons.IH [OF k(1)] k(2) False show ?thesis by (auto simp: less_Suc_eq_0_disj)
  qed (use Cons.prems in auto)
qed (auto split: if_splits)

lemma find_sub_None: "find_sub s p = None \<Longrightarrow> \<not> HasPrefix (drop j s) p"
proof (induction s arbitrary: j)
  case Nil
  then show ?case by (auto split: if_splits simp: HasPrefix_def)
next
  case (Cons c s)
  then show ?case by (cases j) (auto split: if_splits)
qed

lemma Contains_iff: "Contains s p \<longleftrightarrow> (\<exists>a b. s = a @ p @ b)"
proof
  assume "Contains s p"
  then obtain i where "find_sub s p = Some i" by (auto simp: Contains_def)
  then have "HasPrefix (drop i s) p" by (simp add: find_sub_Some)
  then obtain b where "drop i s = p @ b" by (auto simp: HasPrefix_iff)
  then have "s = take i s @ p @ b" by (metis append_take_drop_id)
  then show "\<exists>a b. s = a @ p @ b" by blast
next
  assume "\<exists>a b. s = a @ p @ b"
  then obtain a b where s: "s = a @ p @ b" by blast
  have "HasPrefix (drop (length a) s) p" by (simp add: s)
  then show "Contains s p" using find_sub_None by (auto simp: Contains_def)
qed

lemma find_byte_Some:
  "find_byte c s = Some i \<longleftrightarrow> i < length s \<and> s ! i = c \<and> c \<notin> set (take i s)"
  by (induction s arbitrary: i) (auto simp: less_Suc_eq_0_disj nth_Cons split: nat.splits)

lemma find_byte_None: "find_byte c s = None \<longleftrightarrow> c \<notin> set s"
  by (induction s) auto

lemma find_byte_append:
  "c \<notin> set a \<Longrightarrow> find_byte c (a @ c # b) = Some (length a)"
  by (induction a) auto

lemma find_last_byte_None: "find_last_byte c s = None \<longleftrightarrow> c \<notin> set s"
  by (induction s) (auto split: option.splits)

lemma find_last_byte_append:
  "c \<notin> set b \<Longrightarrow> find_last_byte c (a @ c # b) = Some (length a)"
proof (induction a)
  case Nil
  then have "find_last_byte c b = None" by (simp add: find_last_byte_None)
  then show ?case by simp
next
  case (Cons x a)
  then show ?case by simp
qed

lemma find_last_byte_SomeE:
  assumes "find_last_byte c s = Some i"
  obtains a b where "s = a @ c # b" and "c \<notin> set b" and "i = length a"
proof -
  have "c \<in> set s" using assms find_last_byte_None [of c s] by auto
  then obtain a b where s: "s = a @ c # b" and b: "c \<notin> set b" by (meson split_list_last)
  with assms have "i = length a" by (simp add: find_last_byte_append)
  with s b that show ?thesis by blast
qed

lemma LastIndexByte_absent: "c \<notin> set s \<Longrightarrow> LastIndexByte s c = -1"
  by (simp add: LastIndexByte_def find_last_byte_None [THEN iffD2])

lemma LastIndexByte_append: "c \<notin> set b \<Longrightarrow> LastIndexByte (a @ c # b) c = int (length a)"
  by (simp add: LastIndexByte_def find_last_byte_append)

lemma LastIndexByte_bounds: "-1 \<le> LastIndexByte s c \<and> LastIndexByte s c < int (length s)"
proof (cases "find_last_byte c s")
  case (Some i)
  then show ?thesis by (auto simp: LastIndexByte_def elim: find_last_byte_SomeE)
qed (simp add: LastIndexByte_def)

section \<open>Facts about splitting and joining\<close>

lemma Split_nonempty [simp]: "Split c s \<noteq> []"
  by (induction s) (auto split: list.splits)

lemma Split_no_sep: "w \<in> set (Split c s) \<Longrightarrow> c \<notin> set w"
proof (induction s arbitrary: w)
  case (Cons x s)
  then show ?case by (cases "Split c s") (auto split: if_splits)
qed simp

lemma Split_absent [simp]: "c \<notin> set s \<Longrightarrow> Split c s = [s]"
  by (induction s) auto

lemma Split_append_sep [seg_simps]: "Split c (a @ c # b) = Split c a @ Split c b"
proof (induction a)
  case (Cons x a)
  then show ?case by (cases "Split c a") auto
qed simp

lemma Join_Cons: "ws \<noteq> [] \<Longrightarrow> Join sep (w # ws) = w @ sep @ Join sep ws"
  by (cases ws) auto

lemma Join_append [seg_simps]:
  "us \<noteq> [] \<Longrightarrow> vs \<noteq> [] \<Longrightarrow> Join sep (us @ vs) = Join sep us @ sep @ Join sep vs"
proof (induction us)
  case (Cons u us)
  show ?case
  proof (cases us)
    case Nil
    with Cons.prems show ?thesis by (simp add: Join_Cons)
  next
    case (Cons u' us')
    with Cons.IH Cons.prems show ?thesis by (simp add: Join_Cons)
  qed
qed simp

lemma Join_snoc [seg_simps]: "us \<noteq> [] \<Longrightarrow> Join sep (us @ [v]) = Join sep us @ sep @ v"
  by (simp add: Join_append)

lemma Join_Split [simp]: "Join [c] (Split c s) = s"
proof (induction s)
  case (Cons x s)
  show ?case
  proof (cases "Split c s")
    case (Cons w ws)
    with Cons.IH show ?thesis by (cases ws) auto
  qed simp
qed simp

lemma Split_Join [simp]:
  "ws \<noteq> [] \<Longrightarrow> \<forall>w \<in> set ws. c \<notin> set w \<Longrightarrow> Split c (Join [c] ws) = ws"
proof (induction ws)
  case (Cons w ws)
  show ?case
  proof (cases ws)
    case Nil
    with Cons.prems show ?thesis by simp
  next
    case (Cons v vs)
    with Cons.IH Cons.prems have "Split c (Join [c] ws) = ws" by simp
    with Cons Cons.prems show ?thesis by (simp add: Join_Cons Split_append_sep)
  qed
qed simp

section \<open>Facts about comparing\<close>

lemma strings_Compare_range: "strings_Compare s t \<in> {-1, 0, 1}"
  by (induction s t rule: strings_Compare.induct) auto

lemma strings_Compare_eq0 [simp]: "strings_Compare s t = 0 \<longleftrightarrow> s = t"
  by (induction s t rule: strings_Compare.induct) auto

end
