(* ===== verification/Compare.thy ===== *)
theory Compare
  imports Go_Strings
begin

text \<open>
  Three-way comparisons. Sorting, searching and ordering in the code go through functions
  \<open>func(a, b T) int\<close> whose sign is the answer. The locale \<open>comparison\<close> states the contract such a
  function promises; its clients (the lexicographic lift of \<open>slices.CompareFunc\<close>, the binary
  search of \<open>slices.BinarySearchFunc\<close>, \<open>core.InsertSorted\<close>) are proved once inside it. The
  comparisons of the program are interpreted where they are defined.
\<close>

section \<open>Binary search and sorted insertion\<close>

text \<open>\<open>slices.BinarySearchFunc\<close>: the least index whose element is not below the target.\<close>

function bsearch_loop :: "('a \<Rightarrow> 'b \<Rightarrow> int) \<Rightarrow> 'a list \<Rightarrow> 'b \<Rightarrow> nat \<Rightarrow> nat \<Rightarrow> nat" where
  "bsearch_loop cmp xs t i j =
     (if i < j then
        (let h = (i + j) div 2 in
         if cmp (xs ! h) t < 0 then bsearch_loop cmp xs t (h + 1) j
         else bsearch_loop cmp xs t i h)
      else i)"
  by pat_completeness auto
termination
  by (relation "measure (\<lambda>(cmp, xs, t, i, j). j - i)") (auto simp: Let_def)

declare bsearch_loop.simps [simp del]

definition BinarySearchFunc :: "'a list \<Rightarrow> 'b \<Rightarrow> ('a \<Rightarrow> 'b \<Rightarrow> int) \<Rightarrow> nat \<times> bool" where
  "BinarySearchFunc xs t cmp =
     (let i = bsearch_loop cmp xs t 0 (length xs)
      in (i, i < length xs \<and> cmp (xs ! i) t = 0))"

definition slices_Insert :: "'a list \<Rightarrow> nat \<Rightarrow> 'a \<Rightarrow> 'a list" where
  "slices_Insert xs i x = take i xs @ x # drop i xs"

definition InsertSorted :: "'a list \<Rightarrow> 'a \<Rightarrow> ('a \<Rightarrow> 'a \<Rightarrow> int) \<Rightarrow> 'a list" where
  "InsertSorted xs x cmp = slices_Insert xs (fst (BinarySearchFunc xs x cmp)) x"

lemma bsearch_loop_stop: "\<not> i < j \<Longrightarrow> bsearch_loop cmp xs t i j = i"
  by (subst bsearch_loop.simps) simp

lemma bsearch_loop_below:
  "i < j \<Longrightarrow> cmp (xs ! ((i + j) div 2)) t < 0 \<Longrightarrow>
   bsearch_loop cmp xs t i j = bsearch_loop cmp xs t ((i + j) div 2 + 1) j"
  by (subst bsearch_loop.simps) (simp add: Let_def)

lemma bsearch_loop_above:
  "i < j \<Longrightarrow> \<not> cmp (xs ! ((i + j) div 2)) t < 0 \<Longrightarrow>
   bsearch_loop cmp xs t i j = bsearch_loop cmp xs t i ((i + j) div 2)"
  by (subst bsearch_loop.simps) (simp add: Let_def)

lemmas bsearch_loop_eqs = bsearch_loop_stop bsearch_loop_below bsearch_loop_above

lemma bsearch_loop_bounds: "i \<le> j \<Longrightarrow> i \<le> bsearch_loop cmp xs t i j \<and> bsearch_loop cmp xs t i j \<le> j"
proof (induction "j - i" arbitrary: i j rule: less_induct)
  case less
  let ?h = "(i + j) div 2"
  show ?case
  proof (cases "i < j")
    case True
    then have h: "i \<le> ?h" "?h < j" by auto
    have "?h + 1 \<le> bsearch_loop cmp xs t (?h + 1) j \<and> bsearch_loop cmp xs t (?h + 1) j \<le> j"
      using less.hyps [of j "?h + 1"] h by simp
    moreover have "i \<le> bsearch_loop cmp xs t i ?h \<and> bsearch_loop cmp xs t i ?h \<le> ?h"
      using less.hyps [of ?h i] h by simp
    ultimately show ?thesis
      using True h by (cases "cmp (xs ! ?h) t < 0") (simp_all add: bsearch_loop_eqs)
  next
    case False
    with less.prems show ?thesis by (simp add: bsearch_loop_stop)
  qed
qed

text \<open>
  The loop's answer separates what is below the target from what is not, whenever the elements
  below the target form a prefix of the slice.
\<close>

lemma bsearch_loop_separates:
  assumes mono: "\<And>a b. a \<le> b \<Longrightarrow> b < length xs \<Longrightarrow> cmp (xs ! b) t < 0 \<Longrightarrow> cmp (xs ! a) t < 0"
    and "j \<le> length xs" and "i \<le> j"
    and "\<forall>k < i. cmp (xs ! k) t < 0"
    and "\<forall>k. j \<le> k \<and> k < length xs \<longrightarrow> \<not> cmp (xs ! k) t < 0"
  shows "(\<forall>k < bsearch_loop cmp xs t i j. cmp (xs ! k) t < 0) \<and>
         (\<forall>k. bsearch_loop cmp xs t i j \<le> k \<and> k < length xs \<longrightarrow> \<not> cmp (xs ! k) t < 0)"
  using assms(2-)
proof (induction "j - i" arbitrary: i j rule: less_induct)
  case less
  let ?h = "(i + j) div 2"
  show ?case
  proof (cases "i < j")
    case True
    then have h: "i \<le> ?h" "?h < j" "?h < length xs" using less.prems(1) by auto
    show ?thesis
    proof (cases "cmp (xs ! ?h) t < 0")
      case below: True
      have lo: "\<forall>k < ?h + 1. cmp (xs ! k) t < 0"
      proof (intro allI impI)
        fix k assume "k < ?h + 1"
        then show "cmp (xs ! k) t < 0" by (intro mono [OF _ h(3) below]) simp
      qed
      have "?h + 1 \<le> j" "j - (?h + 1) < j - i" using h by auto
      then show ?thesis
        unfolding bsearch_loop_below [of i j cmp xs t, OF True below]
        by (intro less.hyps less.prems(1) lo less.prems(4)) assumption+
    next
      case above: False
      have hi: "\<forall>k. ?h \<le> k \<and> k < length xs \<longrightarrow> \<not> cmp (xs ! k) t < 0"
        using mono [of ?h] above by blast
      have "?h - i < j - i" "?h \<le> length xs" using h by auto
      then show ?thesis
        unfolding bsearch_loop_above [of i j cmp xs t, OF True above]
        by (intro less.hyps h(1) less.prems(3) hi) assumption+
    qed
  next
    case False
    with less.prems show ?thesis by (simp add: bsearch_loop_stop)
  qed
qed

definition sorted_by :: "('a \<Rightarrow> 'a \<Rightarrow> int) \<Rightarrow> 'a list \<Rightarrow> bool" where
  "sorted_by cmp xs = sorted_wrt (\<lambda>x y. cmp x y \<le> 0) xs"

section \<open>The contract of a comparison\<close>

locale comparison =
  fixes cmp :: "'a \<Rightarrow> 'a \<Rightarrow> int"
  assumes cmp_self: "cmp x x = 0"
    and cmp_swap: "cmp y x = - cmp x y"
    and cmp_le_trans: "cmp x y \<le> 0 \<Longrightarrow> cmp y z \<le> 0 \<Longrightarrow> cmp x z \<le> 0"
begin

lemma lt_swap: "cmp x y < 0 \<longleftrightarrow> cmp y x > 0"
  using cmp_swap [of x y] by auto

lemma eq_swap: "cmp x y = 0 \<longleftrightarrow> cmp y x = 0"
  using cmp_swap [of x y] by auto

lemma eq_trans: "cmp x y = 0 \<Longrightarrow> cmp y z = 0 \<Longrightarrow> cmp x z = 0"
  using cmp_le_trans [of x y z] cmp_le_trans [of z y x] cmp_swap [of x y] cmp_swap [of y z] cmp_swap [of x z]
  by auto

lemma lt_le_trans: "cmp x y < 0 \<Longrightarrow> cmp y z \<le> 0 \<Longrightarrow> cmp x z < 0"
  using cmp_le_trans [of x y z] cmp_le_trans [of y z x] cmp_swap [of x y] cmp_swap [of x z] by force

lemma le_lt_trans: "cmp x y \<le> 0 \<Longrightarrow> cmp y z < 0 \<Longrightarrow> cmp x z < 0"
  using cmp_le_trans [of x y z] cmp_le_trans [of z x y] cmp_swap [of y z] cmp_swap [of x z] by force

lemma lt_trans: "cmp x y < 0 \<Longrightarrow> cmp y z < 0 \<Longrightarrow> cmp x z < 0"
  using lt_le_trans [of x y z] by simp

lemma eq_cong_left: "cmp x y = 0 \<Longrightarrow> cmp x z < 0 \<longleftrightarrow> cmp y z < 0"
  using le_lt_trans [of x y z] le_lt_trans [of y x z] cmp_swap [of x y] by auto

text \<open>The lexicographic lift of a comparison is a comparison: a client of the contract.\<close>

lemma CompareFunc_self: "CompareFunc cmp xs xs = 0"
  by (induction xs) (simp_all add: cmp_self)

lemma CompareFunc_swap: "CompareFunc cmp ys xs = - CompareFunc cmp xs ys"
proof (induction xs arbitrary: ys)
  case Nil
  show ?case by (cases ys) simp_all
next
  case (Cons x xs)
  show ?case
  proof (cases ys)
    case ys: (Cons y ys')
    have "cmp y x = - cmp x y" by (rule cmp_swap)
    with Cons.IH [of ys'] ys show ?thesis by (simp add: Let_def)
  qed simp
qed

lemma CompareFunc_le_trans:
  "CompareFunc cmp xs ys \<le> 0 \<Longrightarrow> CompareFunc cmp ys zs \<le> 0 \<Longrightarrow> CompareFunc cmp xs zs \<le> 0"
proof (induction xs arbitrary: ys zs)
  case Nil
  show ?case by (cases zs) simp_all
next
  case (Cons x xs)
  obtain y ys' where ys: "ys = y # ys'" using Cons.prems(1) by (cases ys) auto
  obtain z zs' where zs: "zs = z # zs'" using Cons.prems(2) ys by (cases zs) auto
  have le: "cmp x y \<le> 0" "cmp y z \<le> 0"
    using Cons.prems ys zs by (auto simp: Let_def split: if_splits)
  show ?case
  proof (cases "cmp x z = 0")
    case True
    then have "cmp x y = 0" "cmp y z = 0"
      using le lt_le_trans [of x y z] le_lt_trans [of x y z] by force+
    with True Cons.IH [of ys' zs'] Cons.prems ys zs show ?thesis by (simp add: Let_def)
  next
    case False
    with cmp_le_trans [OF le] zs show ?thesis by (simp add: Let_def)
  qed
qed

text \<open>Sorted insertion keeps a sorted slice sorted and adds exactly the new element.\<close>

lemma sorted_by_prefix:
  assumes "sorted_by cmp xs" and "a \<le> b" and "b < length xs" and "cmp (xs ! b) t < 0"
  shows "cmp (xs ! a) t < 0"
proof (cases "a = b")
  case False
  with assms have "cmp (xs ! a) (xs ! b) \<le> 0" by (auto simp: sorted_by_def sorted_wrt_iff_nth_less)
  then show ?thesis using assms(4) by (rule le_lt_trans)
qed (use assms in simp)

lemma bsearch_sorted:
  fixes t :: 'a
  assumes "sorted_by cmp xs"
  defines "n \<equiv> bsearch_loop cmp xs t 0 (length xs)"
  shows "n \<le> length xs" and "\<forall>x \<in> set (take n xs). cmp x t < 0"
    and "\<forall>x \<in> set (drop n xs). \<not> cmp x t < 0"
proof -
  have sep: "(\<forall>k < n. cmp (xs ! k) t < 0) \<and> (\<forall>k. n \<le> k \<and> k < length xs \<longrightarrow> \<not> cmp (xs ! k) t < 0)"
    unfolding n_def using sorted_by_prefix [OF assms(1)]
    by (intro bsearch_loop_separates) auto
  show "n \<le> length xs" using bsearch_loop_bounds [of 0 "length xs" cmp xs t] by (simp add: n_def)
  then show "\<forall>x \<in> set (take n xs). cmp x t < 0" using sep by (auto simp: in_set_conv_nth)
  show "\<forall>x \<in> set (drop n xs). \<not> cmp x t < 0" using sep by (auto simp: in_set_conv_nth)
qed

lemma InsertSorted_sorted:
  assumes "sorted_by cmp xs"
  shows "sorted_by cmp (InsertSorted xs x cmp)"
proof -
  let ?n = "bsearch_loop cmp xs x 0 (length xs)"
  have "sorted_by cmp (take ?n xs)" "sorted_by cmp (drop ?n xs)"
    using assms by (simp_all add: sorted_by_def sorted_wrt_take sorted_wrt_drop)
  moreover have "\<forall>y \<in> set (take ?n xs). cmp y x \<le> 0" using bsearch_sorted(2) [OF assms, of x] by force
  moreover have "\<forall>y \<in> set (drop ?n xs). cmp x y \<le> 0"
  proof
    fix y assume "y \<in> set (drop ?n xs)"
    then have "\<not> cmp y x < 0" using bsearch_sorted(3) [OF assms, of x] by blast
    then show "cmp x y \<le> 0" using cmp_swap [of x y] by simp
  qed
  ultimately show ?thesis
    by (auto simp: InsertSorted_def BinarySearchFunc_def Let_def slices_Insert_def sorted_by_def
        sorted_wrt_append intro: cmp_le_trans)
qed

lemma BinarySearchFunc_found:
  assumes "sorted_by cmp xs"
  shows "snd (BinarySearchFunc xs t cmp) \<longleftrightarrow> (\<exists>x \<in> set xs. cmp x t = 0)"
proof
  assume "snd (BinarySearchFunc xs t cmp)"
  then show "\<exists>x \<in> set xs. cmp x t = 0" by (auto simp: BinarySearchFunc_def Let_def)
next
  let ?n = "bsearch_loop cmp xs t 0 (length xs)"
  assume "\<exists>x \<in> set xs. cmp x t = 0"
  then obtain k where k: "k < length xs" "cmp (xs ! k) t = 0" by (auto simp: in_set_conv_nth)
  have nk: "?n \<le> k"
  proof (rule ccontr)
    assume "\<not> ?n \<le> k"
    with k(1) have "xs ! k \<in> set (take ?n xs)" by (auto simp: in_set_conv_nth)
    with k(2) bsearch_sorted(2) [OF assms, of t] show False by force
  qed
  with k(1) have "?n < length xs" by simp
  then have "\<not> cmp (xs ! ?n) t < 0"
    using bsearch_sorted(3) [OF assms, of t] by (metis Cons_nth_drop_Suc list.set_intros(1))
  moreover have "cmp (xs ! ?n) (xs ! k) \<le> 0"
    using assms nk k(1) by (cases "?n = k") (auto simp: sorted_by_def sorted_wrt_iff_nth_less cmp_self)
  then have "cmp (xs ! ?n) t \<le> 0" using k(2) by (auto intro: cmp_le_trans)
  ultimately show "snd (BinarySearchFunc xs t cmp)"
    using \<open>?n < length xs\<close> by (simp add: BinarySearchFunc_def Let_def)
qed

end

lemma mset_InsertSorted [simp]: "mset (InsertSorted xs x cmp) = add_mset x (mset xs)"
proof -
  have "mset (take n xs @ x # drop n xs) = add_mset x (mset xs)" for n
  proof -
    have "mset (take n xs @ x # drop n xs) = add_mset x (mset (take n xs @ drop n xs))"
      by (simp del: append_take_drop_id)
    then show ?thesis by (simp only: append_take_drop_id)
  qed
  then show ?thesis by (simp add: InsertSorted_def slices_Insert_def)
qed

text \<open>
  A comparison of elements that the code lifts to slices: the extension of the contract whose
  sublocale says that the lifted function keeps the same contract.
\<close>

locale element_comparison = comparison

sublocale element_comparison \<subseteq> lexicographic: comparison "CompareFunc cmp"
  by unfold_locales (rule CompareFunc_self, rule CompareFunc_swap, rule CompareFunc_le_trans)

section \<open>The library's comparisons keep the contract\<close>

lemma strings_Compare_swap: "strings_Compare t s = - strings_Compare s t"
  by (induction s t rule: strings_Compare.induct) auto

lemma strings_Compare_le_trans:
  "strings_Compare s t \<le> 0 \<Longrightarrow> strings_Compare t u \<le> 0 \<Longrightarrow> strings_Compare s u \<le> 0"
proof (induction s t arbitrary: u rule: strings_Compare.induct)
  case (2 y ys)
  then show ?case by (cases u) auto
next
  case (4 x xs y ys)
  then show ?case by (cases u) (auto split: if_splits)
qed auto

interpretation bytes: comparison strings_Compare
  by unfold_locales
    (simp, rule strings_Compare_swap, rule strings_Compare_le_trans)

interpretation ordinal: comparison "cmp_Compare :: 'a::linorder \<Rightarrow> 'a \<Rightarrow> int"
  by unfold_locales (auto simp: cmp_Compare_def split: if_splits)

lemma cmp_Compare_simps [simp]:
  "cmp_Compare x y = 0 \<longleftrightarrow> x = y"
  "cmp_Compare x y < 0 \<longleftrightarrow> x < y"
  "cmp_Compare x y > 0 \<longleftrightarrow> y < x"
  "cmp_Compare x y \<le> 0 \<longleftrightarrow> x \<le> y"
  "cmp_Compare x y \<ge> 0 \<longleftrightarrow> y \<le> x"
  by (auto simp: cmp_Compare_def)

end
