(* ===== verification/Core_Slices.thy ===== *)
theory Core_Slices
  imports Compare
begin

text \<open>
  The slice helpers of \<open>internal/core/core.go\<close> and \<open>binarysearch.go\<close>. A \<open>range\<close> loop is recursion over
  the elements still to come, with the part of the slice already passed and the result under
  construction as arguments. Slices are lists (\<open>nil\<close> and the empty slice coincide); a helper that
  returns the zero value of its element type takes that value as an argument.
\<close>

section \<open>Filtering and mapping\<close>

text \<open>
  The copy-on-write helpers return their argument itself until the first element that is dropped
  or changed, then clone the prefix and finish in a second loop.
\<close>

fun Filter_rest :: "('a \<Rightarrow> bool) \<Rightarrow> 'a list \<Rightarrow> 'a list \<Rightarrow> 'a list" where
  "Filter_rest f [] result = result"
| "Filter_rest f (value # rest) result =
     Filter_rest f rest (if f value then result @ [value] else result)"

fun Filter_scan :: "('a \<Rightarrow> bool) \<Rightarrow> 'a list \<Rightarrow> nat \<Rightarrow> 'a list \<Rightarrow> 'a list" where
  "Filter_scan f slice i [] = slice"
| "Filter_scan f slice i (value # rest) =
     (if \<not> f value then Filter_rest f rest (take i slice) else Filter_scan f slice (Suc i) rest)"

definition Filter :: "'a list \<Rightarrow> ('a \<Rightarrow> bool) \<Rightarrow> 'a list" where
  "Filter slice f = Filter_scan f slice 0 slice"

fun FilterIndex_rest :: "('a \<Rightarrow> nat \<Rightarrow> 'a list \<Rightarrow> bool) \<Rightarrow> 'a list \<Rightarrow> nat \<Rightarrow> 'a list \<Rightarrow> 'a list \<Rightarrow> 'a list" where
  "FilterIndex_rest f slice i [] result = result"
| "FilterIndex_rest f slice i (value # rest) result =
     FilterIndex_rest f slice (Suc i) rest (if f value i slice then result @ [value] else result)"

fun FilterIndex_scan :: "('a \<Rightarrow> nat \<Rightarrow> 'a list \<Rightarrow> bool) \<Rightarrow> 'a list \<Rightarrow> nat \<Rightarrow> 'a list \<Rightarrow> 'a list" where
  "FilterIndex_scan f slice i [] = slice"
| "FilterIndex_scan f slice i (value # rest) =
     (if \<not> f value i slice then FilterIndex_rest f slice (Suc i) rest (take i slice)
      else FilterIndex_scan f slice (Suc i) rest)"

definition FilterIndex :: "'a list \<Rightarrow> ('a \<Rightarrow> nat \<Rightarrow> 'a list \<Rightarrow> bool) \<Rightarrow> 'a list" where
  "FilterIndex slice f = FilterIndex_scan f slice 0 slice"

fun Map_slice :: "'a list \<Rightarrow> ('a \<Rightarrow> 'b) \<Rightarrow> 'b list" where
  "Map_slice [] f = []"
| "Map_slice (value # rest) f = f value # Map_slice rest f"

fun TryMap :: "'a list \<Rightarrow> ('a \<Rightarrow> 'e + 'b) \<Rightarrow> 'e + 'b list" where
  "TryMap [] f = Inr []"
| "TryMap (value # rest) f =
     (case f value of Inl err \<Rightarrow> Inl err
      | Inr mapped \<Rightarrow> (case TryMap rest f of Inl err \<Rightarrow> Inl err | Inr result \<Rightarrow> Inr (mapped # result)))"

fun MapIndex_from :: "nat \<Rightarrow> 'a list \<Rightarrow> ('a \<Rightarrow> nat \<Rightarrow> 'b) \<Rightarrow> 'b list" where
  "MapIndex_from i [] f = []"
| "MapIndex_from i (value # rest) f = f value i # MapIndex_from (Suc i) rest f"

definition MapIndex :: "'a list \<Rightarrow> ('a \<Rightarrow> nat \<Rightarrow> 'b) \<Rightarrow> 'b list" where
  "MapIndex slice f = MapIndex_from 0 slice f"

fun MapNonNil :: "'b \<Rightarrow> 'a list \<Rightarrow> ('a \<Rightarrow> 'b) \<Rightarrow> 'b list" where
  "MapNonNil zero [] f = []"
| "MapNonNil zero (value # rest) f =
     (if f value \<noteq> zero then f value # MapNonNil zero rest f else MapNonNil zero rest f)"

fun SameMap_scan :: "('a \<Rightarrow> 'a) \<Rightarrow> 'a list \<Rightarrow> nat \<Rightarrow> 'a list \<Rightarrow> 'a list" where
  "SameMap_scan f slice i [] = slice"
| "SameMap_scan f slice i (value # rest) =
     (let mapped = f value in
      if mapped \<noteq> value then take i slice @ mapped # Map_slice rest f
      else SameMap_scan f slice (Suc i) rest)"

definition SameMap :: "'a list \<Rightarrow> ('a \<Rightarrow> 'a) \<Rightarrow> 'a list" where
  "SameMap slice f = SameMap_scan f slice 0 slice"

fun SameMapIndex_scan :: "('a \<Rightarrow> nat \<Rightarrow> 'a) \<Rightarrow> 'a list \<Rightarrow> nat \<Rightarrow> 'a list \<Rightarrow> 'a list" where
  "SameMapIndex_scan f slice i [] = slice"
| "SameMapIndex_scan f slice i (value # rest) =
     (let mapped = f value i in
      if mapped \<noteq> value then take i slice @ mapped # MapIndex_from (Suc i) rest f
      else SameMapIndex_scan f slice (Suc i) rest)"

definition SameMapIndex :: "'a list \<Rightarrow> ('a \<Rightarrow> nat \<Rightarrow> 'a) \<Rightarrow> 'a list" where
  "SameMapIndex slice f = SameMapIndex_scan f slice 0 slice"

section \<open>Searching\<close>

fun Some_slice :: "'a list \<Rightarrow> ('a \<Rightarrow> bool) \<Rightarrow> bool" where
  "Some_slice [] f = False"
| "Some_slice (value # rest) f = (if f value then True else Some_slice rest f)"

fun Every :: "'a list \<Rightarrow> ('a \<Rightarrow> bool) \<Rightarrow> bool" where
  "Every [] f = True"
| "Every (value # rest) f = (if \<not> f value then False else Every rest f)"

fun Find :: "'a \<Rightarrow> 'a list \<Rightarrow> ('a \<Rightarrow> bool) \<Rightarrow> 'a" where
  "Find zero [] f = zero"
| "Find zero (value # rest) f = (if f value then value else Find zero rest f)"

fun FindIndex_from :: "nat \<Rightarrow> 'a list \<Rightarrow> ('a \<Rightarrow> bool) \<Rightarrow> int" where
  "FindIndex_from i [] f = -1"
| "FindIndex_from i (value # rest) f = (if f value then int i else FindIndex_from (Suc i) rest f)"

definition FindIndex :: "'a list \<Rightarrow> ('a \<Rightarrow> bool) \<Rightarrow> int" where
  "FindIndex slice f = FindIndex_from 0 slice f"

text \<open>The loops from the end count the index down; \<open>n\<close> is one more than the index.\<close>

fun FindLast_down :: "'a \<Rightarrow> 'a list \<Rightarrow> nat \<Rightarrow> ('a \<Rightarrow> bool) \<Rightarrow> 'a" where
  "FindLast_down zero slice 0 f = zero"
| "FindLast_down zero slice (Suc i) f =
     (if f (slice ! i) then slice ! i else FindLast_down zero slice i f)"

definition FindLast :: "'a \<Rightarrow> 'a list \<Rightarrow> ('a \<Rightarrow> bool) \<Rightarrow> 'a" where
  "FindLast zero slice f = FindLast_down zero slice (length slice) f"

fun FindLastIndex_down :: "'a list \<Rightarrow> nat \<Rightarrow> ('a \<Rightarrow> bool) \<Rightarrow> int" where
  "FindLastIndex_down slice 0 f = -1"
| "FindLastIndex_down slice (Suc i) f = (if f (slice ! i) then int i else FindLastIndex_down slice i f)"

definition FindLastIndex :: "'a list \<Rightarrow> ('a \<Rightarrow> bool) \<Rightarrow> int" where
  "FindLastIndex slice f = FindLastIndex_down slice (length slice) f"

fun FirstOrNil :: "'a \<Rightarrow> 'a list \<Rightarrow> 'a" where
  "FirstOrNil zero [] = zero"
| "FirstOrNil zero (x # xs) = x"

definition LastOrNil :: "'a \<Rightarrow> 'a list \<Rightarrow> 'a" where
  "LastOrNil zero slice = (if length slice \<noteq> 0 then slice ! (length slice - 1) else zero)"

definition ElementOrNil :: "'a \<Rightarrow> 'a list \<Rightarrow> int \<Rightarrow> 'a go" where
  "ElementOrNil zero slice index = (if index < int (length slice) then index_get slice index else Inr zero)"

fun FirstNonNil :: "'b \<Rightarrow> 'a list \<Rightarrow> ('a \<Rightarrow> 'b) \<Rightarrow> 'b" where
  "FirstNonNil zero [] f = zero"
| "FirstNonNil zero (value # rest) f = (if f value \<noteq> zero then f value else FirstNonNil zero rest f)"

fun CountWhere_from :: "nat \<Rightarrow> 'a list \<Rightarrow> ('a \<Rightarrow> bool) \<Rightarrow> nat" where
  "CountWhere_from n [] f = n"
| "CountWhere_from n (value # rest) f = CountWhere_from (if f value then n + 1 else n) rest f"

definition CountWhere :: "'a list \<Rightarrow> ('a \<Rightarrow> bool) \<Rightarrow> nat" where
  "CountWhere slice f = CountWhere_from 0 slice f"

section \<open>Building\<close>

definition Concatenate :: "'a list \<Rightarrow> 'a list \<Rightarrow> 'a list" where
  "Concatenate s1 s2 = (if s2 = [] then s1 else if s1 = [] then s2 else s1 @ s2)"

text \<open>
  \<open>Splice\<close> follows JavaScript's conventions for its bounds. The sum \<open>start + deleteCount\<close> is on 64-bit
  integers; where it wraps, \<open>end\<close> is negative and the last slice expression panics.
\<close>

definition splice_start :: "int \<Rightarrow> int \<Rightarrow> int" where
  "splice_start n start0 =
     (let start1 = (if start0 < 0 then n + start0 else start0);
          start2 = (if start1 < 0 then 0 else start1)
      in if n < start2 then n else start2)"

definition Splice :: "'a list \<Rightarrow> int \<Rightarrow> int \<Rightarrow> 'a list \<Rightarrow> 'a list go" where
  "Splice s1 start0 deleteCount0 items =
     (let n = int (length s1);
          start = splice_start n start0;
          deleteCount = (if deleteCount0 < 0 then 0 else deleteCount0);
          end = min (int64 (start + max deleteCount 0)) n
      in if start = end \<and> items = [] then Inr s1
         else go_bind (go_slice s1 0 start) (\<lambda>a.
              go_bind (go_slice s1 end n) (\<lambda>b. Inr (a @ items @ b))))"

definition ReplaceElement :: "'a list \<Rightarrow> int \<Rightarrow> 'a \<Rightarrow> 'a list go" where
  "ReplaceElement slice i t =
     (if 0 \<le> i \<and> i < int (length slice) then Inr (slice[nat i := t]) else Inl IndexOutOfRange)"

definition AppendIfUnique :: "'a list \<Rightarrow> 'a \<Rightarrow> 'a list" where
  "AppendIfUnique slice element = (if element \<in> set slice then slice else slice @ [element])"

fun Flatten_onto :: "'a list \<Rightarrow> 'a list list \<Rightarrow> 'a list" where
  "Flatten_onto result [] = result"
| "Flatten_onto result (sub # rest) = Flatten_onto (result @ sub) rest"

definition Flatten :: "'a list list \<Rightarrow> 'a list" where
  "Flatten xss = Flatten_onto [] xss"

definition IfElse :: "bool \<Rightarrow> 'a \<Rightarrow> 'a \<Rightarrow> 'a" where
  "IfElse b whenTrue whenFalse = (if b then whenTrue else whenFalse)"

definition OrElse :: "'a \<Rightarrow> 'a \<Rightarrow> 'a \<Rightarrow> 'a" where
  "OrElse zero value defaultValue = (if value \<noteq> zero then value else defaultValue)"

definition Coalesce :: "'a option \<Rightarrow> 'a option \<Rightarrow> 'a option" where
  "Coalesce a b = (if a = None then b else a)"

definition IndexAfter :: "string \<Rightarrow> string \<Rightarrow> int \<Rightarrow> int go" where
  "IndexAfter s pattern startIndex =
     go_bind (go_slice s startIndex (int (length s))) (\<lambda>t.
       let matched = Index t pattern in Inr (if matched = -1 then -1 else matched + startIndex))"

section \<open>Binary search for a unique element\<close>

text \<open>
  \<open>BinarySearchUniqueFunc\<close> hands the comparison the index and the element. The loop runs while
  \<open>low \<le> high\<close>, where \<open>high\<close> may become \<open>-1\<close>.
\<close>

function bsearch_unique :: "(int \<Rightarrow> 'a \<Rightarrow> int) \<Rightarrow> 'a list \<Rightarrow> int \<Rightarrow> int \<Rightarrow> int \<times> bool" where
  "bsearch_unique cmp x low high =
     (if low \<le> high then
        (let middle = low + (high - low) div 2;
             value = cmp middle (x ! nat middle)
         in if value < 0 then bsearch_unique cmp x (middle + 1) high
            else if 0 < value then bsearch_unique cmp x low (middle - 1)
            else (middle, True))
      else (low, False))"
  by pat_completeness auto
termination
  by (relation "measure (\<lambda>(cmp, x, low, high). nat (high - low + 1))") (auto simp: Let_def)

declare bsearch_unique.simps [simp del]

definition BinarySearchUniqueFunc :: "'a list \<Rightarrow> (int \<Rightarrow> 'a \<Rightarrow> int) \<Rightarrow> int \<times> bool" where
  "BinarySearchUniqueFunc x cmp =
     (let n = int (length x) in if n = 0 then (0, False) else bsearch_unique cmp x 0 (n - 1))"

section \<open>Equivalence with the library's list functions\<close>

lemma Filter_rest_eq: "Filter_rest f rest result = result @ filter f rest"
  by (induction rest arbitrary: result) auto

lemma Filter_scan_eq:
  "\<forall>x \<in> set pre. f x \<Longrightarrow> Filter_scan f (pre @ rest) (length pre) rest = filter f (pre @ rest)"
proof (induction rest arbitrary: pre)
  case (Cons x rest)
  show ?case
  proof (cases "f x")
    case True
    then have "Filter_scan f ((pre @ [x]) @ rest) (length (pre @ [x])) rest = filter f ((pre @ [x]) @ rest)"
      by (intro Cons.IH) (use Cons.prems in auto)
    with True show ?thesis by simp
  next
    case False
    with Cons.prems show ?thesis by (simp add: Filter_rest_eq)
  qed
qed simp

lemma Filter_eq: "Filter slice f = filter f slice"
  using Filter_scan_eq [of "[]" f slice] by (simp add: Filter_def)

lemma Map_slice_eq: "Map_slice xs f = map f xs"
  by (induction xs) auto

lemma MapIndex_from_nth: "k < length xs \<Longrightarrow> MapIndex_from i xs f ! k = f (xs ! k) (i + k)"
  by (induction xs arbitrary: i k) (auto simp: nth_Cons split: nat.splits)

lemma length_MapIndex_from [simp]: "length (MapIndex_from i xs f) = length xs"
  by (induction xs arbitrary: i) simp_all

lemma MapIndex_from_append:
  "MapIndex_from i (xs @ ys) f = MapIndex_from i xs f @ MapIndex_from (i + length xs) ys f"
  by (induction xs arbitrary: i) simp_all

lemma SameMapIndex_scan_eq:
  "MapIndex_from 0 pre f = pre \<Longrightarrow>
   SameMapIndex_scan f (pre @ rest) (length pre) rest = MapIndex_from 0 (pre @ rest) f"
proof (induction rest arbitrary: pre)
  case (Cons x rest)
  show ?case
  proof (cases "f x (length pre) = x")
    case True
    with Cons.prems have "MapIndex_from 0 (pre @ [x]) f = pre @ [x]"
      by (simp add: MapIndex_from_append)
    from Cons.IH [OF this] True show ?thesis by simp
  next
    case False
    with Cons.prems show ?thesis by (simp add: MapIndex_from_append Let_def)
  qed
qed simp

lemma SameMapIndex_eq: "SameMapIndex slice f = MapIndex slice f"
  using SameMapIndex_scan_eq [of "[]" f slice] by (simp add: SameMapIndex_def MapIndex_def)

lemma MapIndex_from_const: "MapIndex_from i xs (\<lambda>x _. f x) = map f xs"
  by (induction xs arbitrary: i) simp_all

lemma SameMap_scan_index: "SameMap_scan f slice i rest = SameMapIndex_scan (\<lambda>x _. f x) slice i rest"
  by (induction rest arbitrary: i) (simp_all add: Let_def Map_slice_eq MapIndex_from_const)

lemma SameMap_eq: "SameMap slice f = map f slice"
  using SameMapIndex_eq [of slice "\<lambda>x _. f x"]
  by (simp add: SameMap_def SameMapIndex_def SameMap_scan_index MapIndex_def MapIndex_from_const)

lemma Some_slice_eq: "Some_slice xs f \<longleftrightarrow> (\<exists>x \<in> set xs. f x)"
  by (induction xs) auto

lemma Every_eq: "Every xs f \<longleftrightarrow> (\<forall>x \<in> set xs. f x)"
  by (induction xs) auto

lemma Find_eq: "Find zero xs f = (case List.find f xs of None \<Rightarrow> zero | Some x \<Rightarrow> x)"
  by (induction xs) auto

lemma CountWhere_from_eq: "CountWhere_from n xs f = n + length (filter f xs)"
  by (induction xs arbitrary: n) auto

lemma CountWhere_eq: "CountWhere xs f = length (filter f xs)"
  by (simp add: CountWhere_def CountWhere_from_eq)

lemma Flatten_eq: "Flatten xss = concat xss"
proof -
  have "Flatten_onto r xss = r @ concat xss" for r :: "'a list"
    by (induction xss arbitrary: r) auto
  then show ?thesis by (simp add: Flatten_def)
qed

lemma FindIndex_from_spec:
  "FindIndex_from i xs f =
     (if \<exists>x \<in> set xs. f x then int (i + length (takeWhile (\<lambda>x. \<not> f x) xs)) else -1)"
  by (induction xs arbitrary: i) auto

lemma FindLastIndex_down_spec:
  "FindLastIndex_down xs n f = int k \<longleftrightarrow> k < n \<and> f (xs ! k) \<and> (\<forall>j. k < j \<and> j < n \<longrightarrow> \<not> f (xs ! j))"
  by (induction n) (auto simp: less_Suc_eq)

lemma FindLast_down_index:
  "FindLast_down zero xs n f =
     (let i = FindLastIndex_down xs n f in if i < 0 then zero else xs ! nat i)"
  by (induction n) (auto simp: Let_def)

lemma Concatenate_eq: "Concatenate s1 s2 = s1 @ s2"
  by (simp add: Concatenate_def)

text \<open>Where no sum wraps, \<open>Splice\<close> replaces the clamped range and never panics.\<close>

definition clamp_start :: "'a list \<Rightarrow> int \<Rightarrow> nat" where
  "clamp_start s start = nat (if start < 0 then max 0 (int (length s) + start) else min start (int (length s)))"

lemma Splice_spec:
  assumes "int (length s) + max d 0 < 2 ^ 63"
  shows "Splice s start d items =
    Inr (take (clamp_start s start) s @ items @ drop (clamp_start s start + nat d) s)"
proof -
  define n where "n = int (length s)"
  define p where "p = int (clamp_start s start)"
  have p: "0 \<le> p" "p \<le> n" by (auto simp: p_def n_def clamp_start_def)
  have st: "splice_start n start = p"
    by (auto simp: p_def n_def clamp_start_def splice_start_def Let_def)
  have mx: "max (if d < 0 then 0 else d) 0 = max d 0" by simp
  have w: "int64 (p + max d 0) = p + max d 0"
    using assms p by (intro int64_in_range) (auto simp: n_def)
  define e where "e = min (p + max d 0) n"
  have e: "p \<le> e" "e \<le> n" using p by (auto simp: e_def)
  have dr: "drop (nat e) s = drop (clamp_start s start + nat d) s"
  proof (cases "p + max d 0 \<le> n")
    case True
    then have "nat e = clamp_start s start + nat d" by (simp add: e_def p_def)
    then show ?thesis by simp
  next
    case False
    then have "e = n" "length s \<le> clamp_start s start + nat d" by (auto simp: e_def p_def n_def)
    then show ?thesis by (simp add: n_def)
  qed
  have tk: "take (nat p) s = take (clamp_start s start) s" by (simp add: p_def)
  have "Splice s start d items =
      (if p = e \<and> items = [] then Inr s
       else go_bind (go_slice s 0 p) (\<lambda>a. go_bind (go_slice s e n) (\<lambda>b. Inr (a @ items @ b))))"
    by (simp only: Splice_def n_def [symmetric] Let_def e_def st mx w)
  also have "\<dots> = Inr (take (clamp_start s start) s @ items @ drop (clamp_start s start + nat d) s)"
  proof (cases "p = e \<and> items = []")
    case True
    then have "drop (clamp_start s start + nat d) s = drop (clamp_start s start) s"
      using dr by (metis nat_int p_def)
    with True show ?thesis by simp
  next
    case False
    have "go_slice s 0 p = Inr (take (clamp_start s start) s)"
      using p tk by (simp add: go_slice_upto n_def)
    moreover have "go_slice s e n = Inr (drop (clamp_start s start + nat d) s)"
      using e p dr by (simp add: go_slice_from n_def)
    ultimately show ?thesis unfolding if_not_P [OF False] by simp
  qed
  finally show ?thesis .
qed

section \<open>Correctness of the unique binary search\<close>

text \<open>
  The comparison must be negative on a prefix, positive on a suffix, and zero on at most one
  element between them.
\<close>

definition unique_cmp :: "(int \<Rightarrow> 'a \<Rightarrow> int) \<Rightarrow> 'a list \<Rightarrow> bool" where
  "unique_cmp cmp x =
     (\<forall>i j. i < j \<and> j < length x \<longrightarrow>
        (cmp (int j) (x ! j) \<le> 0 \<longrightarrow> cmp (int i) (x ! i) < 0) \<and>
        (0 \<le> cmp (int i) (x ! i) \<longrightarrow> 0 < cmp (int j) (x ! j)))"

fun unique_found :: "(int \<Rightarrow> 'a \<Rightarrow> int) \<Rightarrow> 'a list \<Rightarrow> int \<times> bool \<Rightarrow> bool" where
  "unique_found cmp x (i, found) =
     (0 \<le> i \<and> i \<le> int (length x) \<and>
      (if found then i < int (length x) \<and> cmp i (x ! nat i) = 0
       else (\<forall>k < length x. (if int k < i then cmp (int k) (x ! k) < 0 else 0 < cmp (int k) (x ! k)))))"

lemma bsearch_unique_correct:
  assumes u: "unique_cmp cmp x" and "0 \<le> low" and "high < int (length x)" and "low \<le> high + 1"
    and below: "\<forall>k. int k < low \<longrightarrow> cmp (int k) (x ! k) < 0"
    and above: "\<forall>k < length x. high < int k \<longrightarrow> 0 < cmp (int k) (x ! k)"
  shows "unique_found cmp x (bsearch_unique cmp x low high)"
  using assms(2-)
proof (induction "nat (high - low + 1)" arbitrary: low high rule: less_induct)
  case less
  show ?case
  proof (cases "low \<le> high")
    case False
    then have "low = high + 1" using less.prems by simp
    then show ?thesis using less.prems by (subst bsearch_unique.simps) auto
  next
    case True
    define m where "m = low + (high - low) div 2"
    have m: "low \<le> m" "m \<le> high" "0 \<le> m" "m < int (length x)" using True less.prems by (auto simp: m_def)
    then obtain mi where mi: "m = int mi" "mi < length x" by (metis nat_0_le nat_less_iff)
    consider (lt) "cmp m (x ! nat m) < 0" | (gt) "0 < cmp m (x ! nat m)" | (eq) "cmp m (x ! nat m) = 0" by linarith
    then show ?thesis
    proof cases
      case lt
      have "\<forall>k. int k < m + 1 \<longrightarrow> cmp (int k) (x ! k) < 0"
      proof (intro allI impI)
        fix k assume "int k < m + 1"
        then have "k < mi \<or> k = mi" using mi by auto
        then show "cmp (int k) (x ! k) < 0" using lt mi u by (auto simp: unique_cmp_def)
      qed
      then have "unique_found cmp x (bsearch_unique cmp x (m + 1) high)"
        using m less.prems by (intro less.hyps) auto
      moreover have "bsearch_unique cmp x low high = bsearch_unique cmp x (m + 1) high"
        using True lt by (subst bsearch_unique.simps) (simp add: Let_def m_def)
      ultimately show ?thesis by simp
    next
      case gt
      have "\<forall>k < length x. m - 1 < int k \<longrightarrow> 0 < cmp (int k) (x ! k)"
      proof (intro allI impI)
        fix k assume k: "k < length x" "m - 1 < int k"
        then have "mi < k \<or> k = mi" using mi by auto
        then show "0 < cmp (int k) (x ! k)" using gt mi u k(1) by (auto simp: unique_cmp_def)
      qed
      then have "unique_found cmp x (bsearch_unique cmp x low (m - 1))"
        using m less.prems by (intro less.hyps) auto
      moreover have "bsearch_unique cmp x low high = bsearch_unique cmp x low (m - 1)"
        using True gt by (subst bsearch_unique.simps) (simp add: Let_def m_def)
      ultimately show ?thesis by simp
    next
      case eq
      then have "bsearch_unique cmp x low high = (m, True)"
        using True by (subst bsearch_unique.simps) (simp add: Let_def m_def)
      then show ?thesis using eq m by simp
    qed
  qed
qed

section \<open>Properties\<close>

text \<open>C40. \<open>BinarySearchUniqueFunc\<close> on a list where at most one element compares equal and the others are
  ordered around it: it finds the element when there is one, and otherwise returns the position where
  it belongs, with everything below it smaller and everything from it on greater.\<close>

theorem BinarySearchUniqueFunc_correct:
  assumes "unique_cmp cmp x"
  shows "unique_found cmp x (BinarySearchUniqueFunc x cmp)"
  unfolding BinarySearchUniqueFunc_def Let_def
  using bsearch_unique_correct [OF assms, of 0 "int (length x) - 1"] by simp

lemma BinarySearchUniqueFunc_correct_witness:
  "unique_found (\<lambda>_ y. y - 7) [1, 4, 7, 9] (BinarySearchUniqueFunc [1, 4, 7, 9] (\<lambda>_ y. y - (7::int)))"
proof (rule BinarySearchUniqueFunc_correct)
  show "unique_cmp (\<lambda>_ y. y - 7) [1, 4, 7, 9 :: int]"
    by (auto simp: unique_cmp_def less_Suc_eq numeral_2_eq_2 numeral_3_eq_3 nth_Cons split: nat.splits)
qed

text \<open>\<open>Splice\<close>, where the end position does not overflow, never panics: it clamps a start counted from
  either end, replaces the range by the items, and keeps everything before and after.\<close>

theorem Splice_replaces_range:
  assumes "int (length s) + max d 0 < 2 ^ 63"
  shows "Splice s start d items =
    Inr (take (clamp_start s start) s @ items @ drop (clamp_start s start + nat d) s)"
  using assms by (rule Splice_spec)

lemma Splice_replaces_range_witness:
  "Splice [1, 2, 3, 4 :: int] (-3) 2 [8] = Inr [1, 8, 4]"
  using Splice_replaces_range [of "[1, 2, 3, 4 :: int]" 2 "-3" "[8]"] by (simp add: clamp_start_def)

end
