(* ===== verification/Utf8.thy ===== *)
theory Utf8
  imports Go_Strings "HOL-Library.Word"
begin

text \<open>
  Go's package \<open>unicode/utf8\<close> on byte strings (and \<open>strings.Map\<close>, \<open>strings.TrimLeftFunc\<close> and
  \<open>strings.TrimRightFunc\<close>, which work rune by rune). A rune is a natural number. The Unicode
  tables of package \<open>unicode\<close> above ASCII are data, not code: a function that consults them takes
  the table as an argument and keeps Go's own ASCII cases in front of it.
\<close>

section \<open>Decoding and encoding\<close>

abbreviation RuneError :: nat where "RuneError \<equiv> 65533"

definition cont :: "nat \<Rightarrow> bool" where
  "cont b = (128 \<le> b \<and> b \<le> 191)"

text \<open>
  \<open>DecodeRuneInString\<close>: the rune and its width. Width 0 is the empty string, \<open>(RuneError, 1)\<close> an
  invalid sequence. The second byte's range depends on the first, as in the \<open>acceptRanges\<close> table.
\<close>

definition second_ok :: "nat \<Rightarrow> nat \<Rightarrow> bool" where
  "second_ok b0 b1 =
     (if b0 = 224 then 160 \<le> b1 \<and> b1 \<le> 191
      else if b0 = 237 then 128 \<le> b1 \<and> b1 \<le> 159
      else if b0 = 240 then 144 \<le> b1 \<and> b1 \<le> 191
      else if b0 = 244 then 128 \<le> b1 \<and> b1 \<le> 143
      else cont b1)"

fun decode_bytes :: "nat list \<Rightarrow> nat \<times> nat" where
  "decode_bytes [] = (RuneError, 0)"
| "decode_bytes (b0 # bs) =
     (if b0 < 128 then (b0, 1)
      else if b0 < 194 \<or> 244 < b0 then (RuneError, 1)
      else (case bs of
        [] \<Rightarrow> (RuneError, 1)
      | b1 # bs1 \<Rightarrow>
          if \<not> second_ok b0 b1 then (RuneError, 1)
          else if b0 < 224 then ((b0 - 192) * 64 + (b1 - 128), 2)
          else (case bs1 of
            [] \<Rightarrow> (RuneError, 1)
          | b2 # bs2 \<Rightarrow>
              if \<not> cont b2 then (RuneError, 1)
              else if b0 < 240 then ((b0 - 224) * 4096 + (b1 - 128) * 64 + (b2 - 128), 3)
              else (case bs2 of
                [] \<Rightarrow> (RuneError, 1)
              | b3 # bs3 \<Rightarrow>
                  if \<not> cont b3 then (RuneError, 1)
                  else ((b0 - 240) * 262144 + (b1 - 128) * 4096 + (b2 - 128) * 64 + (b3 - 128), 4)))))"

definition byte_values :: "string \<Rightarrow> nat list" where
  "byte_values s = map of_char s"

definition DecodeRuneInString :: "string \<Rightarrow> nat \<times> nat" where
  "DecodeRuneInString s = decode_bytes (byte_values (take 4 s))"

definition valid_rune :: "nat \<Rightarrow> bool" where
  "valid_rune r = (r \<le> 1114111 \<and> \<not> (55296 \<le> r \<and> r \<le> 57343))"

definition encode_bytes :: "nat \<Rightarrow> nat list" where
  "encode_bytes r0 =
     (let r = (if valid_rune r0 then r0 else RuneError) in
      if r < 128 then [r]
      else if r < 2048 then [192 + r div 64, 128 + r mod 64]
      else if r < 65536 then [224 + r div 4096, 128 + (r div 64) mod 64, 128 + r mod 64]
      else [240 + r div 262144, 128 + (r div 4096) mod 64, 128 + (r div 64) mod 64, 128 + r mod 64])"

definition EncodeRune :: "nat \<Rightarrow> string" where
  "EncodeRune r = map char_of (encode_bytes r)"

lemma decode_bytes_width: "bs \<noteq> [] \<Longrightarrow> 1 \<le> snd (decode_bytes bs) \<and> snd (decode_bytes bs) \<le> length bs"
  by (cases bs rule: decode_bytes.cases) (auto split: list.splits)

lemma decode_width:
  assumes "s \<noteq> []"
  shows "1 \<le> snd (DecodeRuneInString s)" and "snd (DecodeRuneInString s) \<le> length s"
proof -
  have "byte_values (take 4 s) \<noteq> []" using assms by (simp add: byte_values_def)
  from decode_bytes_width [OF this] show "1 \<le> snd (DecodeRuneInString s)" "snd (DecodeRuneInString s) \<le> length s"
    by (simp_all add: DecodeRuneInString_def byte_values_def min_def split: if_splits)
qed

lemma second_ok_high: "second_ok b0 b1 \<Longrightarrow> 128 \<le> b1"
  by (auto simp: second_ok_def cont_def split: if_splits)

lemma decode_bytes_cont: "0 < k \<Longrightarrow> k < snd (decode_bytes bs) \<Longrightarrow> 128 \<le> bs ! k"
  by (cases bs rule: decode_bytes.cases)
    (auto simp: nth_Cons cont_def less_Suc_eq dest: second_ok_high split: list.splits if_splits nat.splits)

lemma decode_cont:
  assumes "0 < k" and "k < snd (DecodeRuneInString s)"
  shows "(128::nat) \<le> of_char (s ! k)"
proof -
  have s: "s \<noteq> []" using assms(2) by (auto simp: DecodeRuneInString_def byte_values_def)
  have "byte_values (take 4 s) \<noteq> []" using s by (simp add: byte_values_def)
  from decode_bytes_width [OF this] assms(2) have "k < 4" "k < length s"
    by (simp_all add: DecodeRuneInString_def byte_values_def)
  then show ?thesis
    using decode_bytes_cont [of k "byte_values (take 4 s)"] assms
    by (simp add: DecodeRuneInString_def byte_values_def)
qed

lemma decode_Nil [simp]: "DecodeRuneInString [] = (RuneError, 0)"
  by (simp add: DecodeRuneInString_def byte_values_def)

lemma decode_ascii: "of_char c < (128::nat) \<Longrightarrow> DecodeRuneInString (c # s) = (of_char c, 1)"
  by (simp add: DecodeRuneInString_def byte_values_def)

text \<open>A rune that is not an encoding error does not depend on the bytes behind it.\<close>

lemma decode_bytes_take: "decode_bytes (take 4 bs) = decode_bytes bs"
proof -
  have "decode_bytes (take (Suc (Suc (Suc (Suc 0)))) bs) = decode_bytes bs"
    by (cases bs rule: decode_bytes.cases) (simp_all split: list.splits)
  moreover have "Suc (Suc (Suc (Suc 0))) = 4" by simp
  ultimately show ?thesis by metis
qed

lemma decode_bytes_append:
  assumes "bs \<noteq> []" and "decode_bytes bs \<noteq> (RuneError, 1)"
  shows "decode_bytes (bs @ cs) = decode_bytes bs"
proof -
  consider b0 where "bs = [b0]" | b0 b1 where "bs = [b0, b1]"
    | b0 b1 b2 where "bs = [b0, b1, b2]" | b0 b1 b2 b3 l where "bs = b0 # b1 # b2 # b3 # l"
    using assms(1) by (metis list.exhaust)
  then show ?thesis using assms(2) by cases (simp_all split: if_splits)
qed

lemma decode_append:
  assumes "s \<noteq> []" and "DecodeRuneInString s \<noteq> (RuneError, 1)"
  shows "DecodeRuneInString (s @ t) = DecodeRuneInString s"
  using assms decode_bytes_append [of "byte_values s" "byte_values t"]
  by (simp add: DecodeRuneInString_def byte_values_def take_map [symmetric] decode_bytes_take del: take_append)

lemma encode_bytes_decode:
  assumes "valid_rune r"
  shows "decode_bytes (encode_bytes r @ rest) = (r, length (encode_bytes r))"
proof -
  have r: "r \<le> 1114111" "r < 55296 \<or> 57343 < r" using assms by (auto simp: valid_rune_def)
  define a b c d where "a = r mod 64" and "b = (r div 64) mod 64" and "c = (r div 4096) mod 64"
    and "d = r div 262144"
  have dm: "r div 4096 = r div 64 div 64" "r div 262144 = r div 64 div 64 div 64"
    by (simp_all add: div_mult2_eq [symmetric])
  have small: "a < 64" "b < 64" "c < 64" by (simp_all add: a_def b_def c_def)
  have r1: "r = 64 * (r div 64) + a" by (simp add: a_def)
  have r2: "r div 64 = 64 * (r div 4096) + b" unfolding b_def dm by simp
  have r3: "r div 4096 = 64 * d + c" unfolding c_def d_def dm by simp
  note parts = a_def [symmetric] b_def [symmetric] c_def [symmetric] d_def [symmetric]
  consider "r < 128" | "128 \<le> r" "r < 2048" | "2048 \<le> r" "r < 65536" | "65536 \<le> r" by linarith
  then show ?thesis
  proof cases
    case 1
    then show ?thesis using assms by (simp add: encode_bytes_def Let_def)
  next
    case 2
    then have "2 \<le> r div 64" "r div 64 < 32" by auto
    with 2 show ?thesis using assms by (simp add: encode_bytes_def Let_def second_ok_def cont_def)
  next
    case 3
    have hi: "r div 4096 < 16" using 3 by auto
    have lead0: "r div 4096 = 0 \<Longrightarrow> 32 \<le> b" using 3 r1 r2 small by linarith
    have lead13: "r div 4096 = 13 \<Longrightarrow> b < 32" using r1 r2 small r(2) by linarith
    have e: "encode_bytes r = [224 + r div 4096, 128 + b, 128 + a]"
      using assms 3 by (simp add: encode_bytes_def Let_def parts)
    have s2: "second_ok (224 + r div 4096) (128 + b)"
      using lead0 lead13 small hi by (auto simp: second_ok_def cont_def)
    have val: "(r div 4096) * 4096 + b * 64 + a = r" using r1 r2 by linarith
    show ?thesis
      unfolding e using hi small s2 val by (simp add: cont_def)
  next
    case 4
    have hi: "d < 5" using r by (auto simp: d_def)
    have lead0: "d = 0 \<Longrightarrow> 16 \<le> c" using 4 r1 r2 r3 small by linarith
    have lead4: "d = 4 \<Longrightarrow> c < 16" using r1 r2 r3 small r(1) by linarith
    have e: "encode_bytes r = [240 + d, 128 + c, 128 + b, 128 + a]"
      using assms 4 by (simp add: encode_bytes_def Let_def parts)
    have s2: "second_ok (240 + d) (128 + c)"
      using lead0 lead4 small hi by (auto simp: second_ok_def cont_def)
    have val: "d * 262144 + c * 4096 + b * 64 + a = r" using r1 r2 r3 by linarith
    show ?thesis
      unfolding e using hi small s2 val by (simp add: cont_def)
  qed
qed

lemma encode_bytes_small: "b \<in> set (encode_bytes r) \<Longrightarrow> b < 256"
  by (auto simp: encode_bytes_def Let_def valid_rune_def split: if_splits)

lemma length_encode_bytes: "length (encode_bytes r) \<le> 4" "encode_bytes r \<noteq> []"
  by (simp_all add: encode_bytes_def Let_def)

lemma decode_encode:
  assumes "valid_rune r"
  shows "DecodeRuneInString (EncodeRune r @ rest) = (r, length (EncodeRune r))"
proof -
  have "map of_char (map char_of (encode_bytes r) :: string) = encode_bytes r"
    using encode_bytes_small [of _ r] by (auto simp: comp_def of_char_of intro!: map_idI)
  then have "byte_values (take 4 (EncodeRune r @ rest)) = encode_bytes r @ byte_values (take (4 - length (encode_bytes r)) rest)"
    using length_encode_bytes [of r] by (simp add: byte_values_def EncodeRune_def take_map)
  then show ?thesis
    using encode_bytes_decode [OF assms] by (simp add: DecodeRuneInString_def EncodeRune_def)
qed

text \<open>
  \<open>DecodeLastRuneInString\<close>: back up over at most three continuation bytes, decode there, and accept
  the rune when it reaches exactly to the end.
\<close>

definition rune_start :: "char \<Rightarrow> bool" where
  "rune_start c = (\<not> cont (of_char c))"

fun back_up :: "string \<Rightarrow> nat \<Rightarrow> nat \<Rightarrow> nat" where
  "back_up s lim 0 = 0"
| "back_up s lim (Suc k) = (if lim \<le> k then (if rune_start (s ! k) then k else back_up s lim k) else k)"

definition DecodeLastRuneInString :: "string \<Rightarrow> nat \<times> nat" where
  "DecodeLastRuneInString s =
     (if s = [] then (RuneError, 0)
      else (let end = length s in
        if of_char (s ! (end - 1)) < (128::nat) then (of_char (s ! (end - 1)), 1)
        else (let start = back_up s (end - 4) (end - 1);
                  (r, size) = DecodeRuneInString (drop start s)
              in if start + size \<noteq> end then (RuneError, 1) else (r, size))))"

lemma decode_last_width:
  assumes "s \<noteq> []"
  shows "1 \<le> snd (DecodeLastRuneInString s) \<and> snd (DecodeLastRuneInString s) \<le> length s"
proof -
  let ?st = "back_up s (length s - 4) (length s - 1)"
  have le: "back_up s lim k \<le> k" for lim k by (induction k) auto
  have "?st < length s" using le [of "length s - 4" "length s - 1"] assms by (cases s) auto
  then have "drop ?st s \<noteq> []" by simp
  from decode_width [OF this] assms show ?thesis
    by (auto simp: DecodeLastRuneInString_def Let_def Suc_le_eq split: prod.splits)
qed

section \<open>Functions that work rune by rune\<close>

lemma snd_eq_iff: "(r, n) = p \<longleftrightarrow> r = fst p \<and> n = snd p"
  by (cases p) auto

lemma decode_drop_shorter:
  "s \<noteq> [] \<Longrightarrow> n = snd (DecodeRuneInString s) \<Longrightarrow> length (drop n s) < length s"
  using decode_width(1) [of s] by (cases s) auto

lemma decode_last_take_shorter:
  "s \<noteq> [] \<Longrightarrow> n = snd (DecodeLastRuneInString s) \<Longrightarrow> length (take (length s - n) s) < length s"
  using decode_last_width [of s] by (cases s) auto

function runes :: "string \<Rightarrow> nat list" where
  "runes s = (if s = [] then [] else (case DecodeRuneInString s of (r, n) \<Rightarrow> r # runes (drop n s)))"
  by pat_completeness auto
termination
proof (relation "measure length", goal_cases)
  case (2 s r n)
  then show ?case using decode_drop_shorter [of s n] by (simp add: snd_eq_iff)
qed simp

declare runes.simps [simp del]

function TrimLeftFunc :: "string \<Rightarrow> (nat \<Rightarrow> bool) \<Rightarrow> string" where
  "TrimLeftFunc s f =
     (if s = [] then [] else (case DecodeRuneInString s of (r, n) \<Rightarrow> if f r then TrimLeftFunc (drop n s) f else s))"
  by pat_completeness auto
termination
proof (relation "measure (\<lambda>(s, f). length s)", goal_cases)
  case (2 s f r n)
  then show ?case using decode_drop_shorter [of s n] by (simp add: snd_eq_iff)
qed simp

function TrimRightFunc :: "string \<Rightarrow> (nat \<Rightarrow> bool) \<Rightarrow> string" where
  "TrimRightFunc s f =
     (if s = [] then []
      else (case DecodeLastRuneInString s of (r, n) \<Rightarrow>
        if f r then TrimRightFunc (take (length s - n) s) f else s))"
  by pat_completeness auto
termination
proof (relation "measure (\<lambda>(s, f). length s)", goal_cases)
  case (2 s f r n)
  then show ?case using decode_last_take_shorter [of s n] by (simp add: snd_eq_iff)
qed simp

declare TrimLeftFunc.simps [simp del] TrimRightFunc.simps [simp del]

lemma TrimLeftFunc_ascii:
  "of_char c < (128::nat) \<Longrightarrow>
   TrimLeftFunc (c # s) f = (if f (of_char c) then TrimLeftFunc s f else c # s)"
  by (subst TrimLeftFunc.simps) (simp add: decode_ascii)

lemma TrimRightFunc_ascii:
  "of_char c < (128::nat) \<Longrightarrow>
   TrimRightFunc (s @ [c]) f = (if f (of_char c) then TrimRightFunc s f else s @ [c])"
  by (subst TrimRightFunc.simps) (simp add: DecodeLastRuneInString_def Let_def)

definition unicode_IsSpace :: "nat \<Rightarrow> bool" where
  "unicode_IsSpace r =
     (r \<in> {9, 10, 11, 12, 13, 32, 133, 160, 5760, 8232, 8233, 8239, 8287, 12288} \<or> (8192 \<le> r \<and> r \<le> 8202))"

lemma unicode_IsSpace_code [code]:
  \<comment> \<open>evaluated on binary numbers\<close>
  "unicode_IsSpace r =
     (let n = int r in
      n \<in> {9, 10, 11, 12, 13, 32, 133, 160, 5760, 8232, 8233, 8239, 8287, 12288} \<or> (8192 \<le> n \<and> n \<le> 8202))"
  by (auto simp: unicode_IsSpace_def Let_def)

definition TrimSpace :: "string \<Rightarrow> string" where
  "TrimSpace s = TrimRightFunc (TrimLeftFunc s unicode_IsSpace) unicode_IsSpace"

text \<open>\<open>unicode.ToLower\<close>: ASCII first, then the table of simple lower-case mappings.\<close>

definition unicode_ToLower :: "(nat \<Rightarrow> nat) \<Rightarrow> nat \<Rightarrow> nat" where
  "unicode_ToLower table r = (if r < 128 then (if 65 \<le> r \<and> r \<le> 90 then r + 32 else r) else table r)"

definition strings_Map :: "(nat \<Rightarrow> nat) \<Rightarrow> string \<Rightarrow> string" where
  "strings_Map f s = concat (map (\<lambda>r. EncodeRune (f r)) (runes s))"

lemma runes_ascii:
  assumes "\<forall>c \<in> set s. of_char c < (128::nat)"
  shows "runes s = map of_char s"
  using assms
proof (induction s)
  case Nil
  then show ?case by (simp add: runes.simps)
next
  case (Cons c s)
  then show ?case by (subst runes.simps) (simp add: decode_ascii)
qed

lemma EncodeRune_ascii: "r < 128 \<Longrightarrow> EncodeRune r = [char_of r]"
  by (simp add: EncodeRune_def encode_bytes_def Let_def valid_rune_def)

text \<open>A rune that is not an encoding error was read from its encoding.\<close>

lemma two_bytes: "encode_bytes (x * 64 + y) = [192 + x, 128 + y]" if "2 \<le> x" "x < 32" "y < 64"
proof -
  have "128 \<le> x * 64 + y" "x * 64 + y < 2048" using that by linarith+
  moreover have "(x * 64 + y) div 64 = x" "(x * 64 + y) mod 64 = y" using that by simp_all
  ultimately show ?thesis by (simp add: encode_bytes_def valid_rune_def)
qed

lemma base_64: "(q * 64 + z) div 64 = q" "(q * 64 + z) mod 64 = z" if "z < 64" for q z :: nat
  using that by simp_all

lemma three_bytes: "encode_bytes (x * 4096 + y * 64 + z) = [224 + x, 128 + y, 128 + z]"
  if "x < 16" "y < 64" "z < 64" "x = 0 \<Longrightarrow> 32 \<le> y" "x = 13 \<Longrightarrow> y < 32"
proof -
  let ?r = "x * 4096 + y * 64 + z"
  have r: "2048 \<le> ?r" "?r < 65536" "?r < 55296 \<or> 57343 < ?r"
    using that(1-3) that(4,5) by (cases "x = 0"; cases "x < 13"; cases "x = 13"; simp; linarith)+
  have e: "?r = (x * 64 + y) * 64 + z" by (simp add: algebra_simps)
  have a: "?r div 64 = x * 64 + y" "?r mod 64 = z" unfolding e using that(3) by (rule base_64)+
  have b: "?r div 64 div 64 = x" "?r div 64 mod 64 = y" unfolding a using that(2) by (rule base_64)+
  have b': "?r div 4096 = ?r div 64 div 64" by (simp add: div_mult2_eq [symmetric])
  have "encode_bytes ?r = [224 + ?r div 4096, 128 + ?r div 64 mod 64, 128 + ?r mod 64]"
    using r by (auto simp: encode_bytes_def Let_def valid_rune_def)
  then show ?thesis by (simp only: b' a(2) b)
qed

lemma four_bytes: "encode_bytes (w * 262144 + x * 4096 + y * 64 + z) = [240 + w, 128 + x, 128 + y, 128 + z]"
  if "w < 5" "x < 64" "y < 64" "z < 64" "w = 0 \<Longrightarrow> 16 \<le> x" "w = 4 \<Longrightarrow> x < 16"
proof -
  let ?r = "w * 262144 + x * 4096 + y * 64 + z"
  have r: "65536 \<le> ?r" using that(5) by (cases "w = 0") auto
  have r': "?r \<le> 1114111" using that(1-4,6) by (cases "w = 4") auto
  have e: "?r = ((w * 64 + x) * 64 + y) * 64 + z" by (simp add: algebra_simps)
  have a: "?r div 64 = (w * 64 + x) * 64 + y" "?r mod 64 = z" unfolding e using that(4) by (rule base_64)+
  have b: "?r div 64 div 64 = w * 64 + x" "?r div 64 mod 64 = y" unfolding a using that(3) by (rule base_64)+
  have b': "?r div 4096 = ?r div 64 div 64" "?r div 262144 = ?r div 64 div 64 div 64" by (simp_all add: div_mult2_eq [symmetric])
  have c: "?r div 64 div 64 div 64 = w" "?r div 64 div 64 mod 64 = x" unfolding b using that(2) by (rule base_64)+
  have "encode_bytes ?r = [240 + ?r div 262144, 128 + ?r div 4096 mod 64, 128 + ?r div 64 mod 64, 128 + ?r mod 64]"
    using r r' by (simp add: encode_bytes_def Let_def valid_rune_def del: div_mult2_eq)
  then show ?thesis by (simp only: b' a(2) b(2) c)
qed

lemma encode_decoded_bytes:
  assumes "decode_bytes bs = (r, n)" and "bs \<noteq> []" and "(r, n) \<noteq> (RuneError, 1)"
  shows "take n bs = encode_bytes r"
proof -
  obtain b0 bs0 where bs: "bs = b0 # bs0" using assms(2) by (cases bs) auto
  show ?thesis
  proof (cases "b0 < 128")
    case True
    with assms bs show ?thesis by (auto simp: encode_bytes_def valid_rune_def)
  next
    case False
    with assms bs obtain b1 bs1 where bs1: "bs0 = b1 # bs1" and ok: "second_ok b0 b1" "194 \<le> b0" "b0 \<le> 244"
      by (auto split: if_splits list.splits)
    consider "b0 < 224" | "224 \<le> b0" "b0 < 240" | "240 \<le> b0" by linarith
    then show ?thesis
    proof cases
      case 1
      with assms False bs bs1 ok two_bytes [of "b0 - 192" "b1 - 128"] show ?thesis
        by (auto simp: second_ok_def cont_def)
    next
      case 2
      with assms False bs bs1 ok obtain b2 bs2 where bs2: "bs1 = b2 # bs2" "cont b2"
        by (auto split: if_splits list.splits)
      have "encode_bytes ((b0 - 224) * 4096 + (b1 - 128) * 64 + (b2 - 128)) = [224 + (b0 - 224), 128 + (b1 - 128), 128 + (b2 - 128)]"
        using 2 ok(1) bs2(2) by (intro three_bytes) (auto simp: second_ok_def cont_def split: if_splits)
      with 2 assms False bs bs1 bs2 ok show ?thesis
        by (auto simp: second_ok_def cont_def split: if_splits)
    next
      case 3
      with assms False bs bs1 ok obtain b2 b3 bs3 where bs2: "bs1 = b2 # b3 # bs3" "cont b2" "cont b3"
        by (auto split: if_splits list.splits)
      have "encode_bytes ((b0 - 240) * 262144 + (b1 - 128) * 4096 + (b2 - 128) * 64 + (b3 - 128)) =
          [240 + (b0 - 240), 128 + (b1 - 128), 128 + (b2 - 128), 128 + (b3 - 128)]"
        using 3 ok bs2(2,3) by (intro four_bytes) (auto simp: second_ok_def cont_def split: if_splits)
      with 3 assms False bs bs1 bs2 ok show ?thesis
        by (auto simp: second_ok_def cont_def split: if_splits)
    qed
  qed
qed

lemma encode_decoded:
  assumes "DecodeRuneInString s = (r, n)" and "s \<noteq> []" and "(r, n) \<noteq> (RuneError, 1)"
  shows "take n s = EncodeRune r"
proof -
  have "decode_bytes (byte_values (take 4 s)) = (r, n)" using assms(1) by (simp add: DecodeRuneInString_def)
  from encode_decoded_bytes [OF this _ assms(3)] assms(2)
  have e: "take n (byte_values (take 4 s)) = encode_bytes r" by (simp add: byte_values_def)
  have "n \<le> 4" using decode_bytes_width [of "byte_values (take 4 s)"] assms by (auto simp: DecodeRuneInString_def byte_values_def)
  with e have "encode_bytes r = byte_values (take n s)" by (simp add: byte_values_def take_map min_def)
  then show ?thesis by (simp add: EncodeRune_def byte_values_def comp_def)
qed

end
