(* ===== verification/Stringutil.thy ===== *)
theory Stringutil
  imports Utf8 Compare
begin

text \<open>
  \<open>internal/stringutil\<close>: character classes, line splitting, indentation, URI encoding, byte order
  marks, quotes, and the string comparisons with and without case. A rune is a \<open>nat\<close>, a string a
  list of bytes. The Unicode tables (simple folding, upper case) are arguments, with the ASCII part
  written out as in Go's own fast paths.
\<close>

section \<open>Character classes\<close>

definition IsLineBreak :: "nat \<Rightarrow> bool" where
  "IsLineBreak ch = (ch \<in> {10, 13, 0x2028, 0x2029})"

definition IsWhiteSpaceSingleLine :: "nat \<Rightarrow> bool" where
  "IsWhiteSpaceSingleLine ch =
     (ch \<in> {32, 9, 11, 12, 0x0085, 0x00A0, 0x1680,
            0x2000, 0x2001, 0x2002, 0x2003, 0x2004, 0x2005, 0x2006, 0x2007, 0x2008, 0x2009, 0x200A,
            0x200B, 0x202F, 0x205F, 0x3000, 0xFEFF})"

definition IsWhiteSpaceLike :: "nat \<Rightarrow> bool" where
  "IsWhiteSpaceLike ch = (IsWhiteSpaceSingleLine ch \<or> IsLineBreak ch)"

definition IsDigit :: "nat \<Rightarrow> bool" where
  "IsDigit ch = (48 \<le> ch \<and> ch \<le> 57)"

definition IsOctalDigit :: "nat \<Rightarrow> bool" where
  "IsOctalDigit ch = (48 \<le> ch \<and> ch \<le> 55)"

definition IsHexDigit :: "nat \<Rightarrow> bool" where
  "IsHexDigit ch = (48 \<le> ch \<and> ch \<le> 57 \<or> 65 \<le> ch \<and> ch \<le> 70 \<or> 97 \<le> ch \<and> ch \<le> 102)"

definition IsASCIILetter :: "nat \<Rightarrow> bool" where
  "IsASCIILetter ch = (65 \<le> ch \<and> ch \<le> 90 \<or> 97 \<le> ch \<and> ch \<le> 122)"

lemma white_space_not_line_break: "IsWhiteSpaceSingleLine ch \<Longrightarrow> \<not> IsLineBreak ch"
  by (auto simp: IsWhiteSpaceSingleLine_def IsLineBreak_def)

lemma digit_classes: "IsOctalDigit ch \<Longrightarrow> IsDigit ch" "IsDigit ch \<Longrightarrow> IsHexDigit ch"
  by (auto simp: IsOctalDigit_def IsDigit_def IsHexDigit_def)

section \<open>Splitting into lines\<close>

abbreviation CR :: char where "CR \<equiv> CHR 0x0D"
abbreviation LF :: char where "LF \<equiv> CHR 0x0A"

function SplitLines_loop :: "string \<Rightarrow> nat \<Rightarrow> nat \<Rightarrow> string list \<Rightarrow> string list" where
  "SplitLines_loop text start pos lines =
     (if pos < length text then
        (if text ! pos = CR \<and> pos + 1 < length text \<and> text ! (pos + 1) = LF then
           SplitLines_loop text (pos + 2) (pos + 2) (lines @ [take (pos - start) (drop start text)])
         else if text ! pos = CR \<or> text ! pos = LF then
           SplitLines_loop text (pos + 1) (pos + 1) (lines @ [take (pos - start) (drop start text)])
         else SplitLines_loop text start (pos + 1) lines)
      else if start < length text then lines @ [drop start text] else lines)"
  by pat_completeness auto
termination
  by (relation "measure (\<lambda>(text, start, pos, lines). length text - pos)") auto

declare SplitLines_loop.simps [simp del]

definition SplitLines :: "string \<Rightarrow> string list" where
  "SplitLines text = SplitLines_loop text 0 0 []"

text \<open>A reference definition by recursion on the text, with the current line as accumulator.\<close>

fun lines_of :: "string \<Rightarrow> string \<Rightarrow> string list" where
  "lines_of cur [] = (if cur = [] then [] else [cur])"
| "lines_of cur [c] = (if c = CR \<or> c = LF then [cur] else lines_of (cur @ [c]) [])"
| "lines_of cur (c # d # s) =
     (if c = CR \<and> d = LF then cur # lines_of [] s
      else if c = CR \<or> c = LF then cur # lines_of [] (d # s)
      else lines_of (cur @ [c]) (d # s))"

lemma lines_of_break_crlf: "lines_of cur (CR # LF # s) = cur # lines_of [] s"
  by simp

lemma lines_of_break:
  "c = CR \<or> c = LF \<Longrightarrow> \<not> (c = CR \<and> s \<noteq> [] \<and> hd s = LF) \<Longrightarrow> lines_of cur (c # s) = cur # lines_of [] s"
  by (cases s) auto

lemma lines_of_char: "c \<noteq> CR \<Longrightarrow> c \<noteq> LF \<Longrightarrow> lines_of cur (c # s) = lines_of (cur @ [c]) s"
  by (cases s) auto

lemma SplitLines_loop_lines_of:
  assumes "start \<le> pos" and "pos \<le> length text"
  shows "SplitLines_loop text start pos lines =
    lines @ lines_of (take (pos - start) (drop start text)) (drop pos text)"
  using assms
proof (induction "length text - pos" arbitrary: start pos lines rule: less_induct)
  case less
  let ?cur = "take (pos - start) (drop start text)"
  show ?case
  proof (cases "pos < length text")
    case False
    with less.prems have "pos = length text" by simp
    then show ?thesis using less.prems
      by (subst SplitLines_loop.simps) auto
  next
    case True
    then have d: "drop pos text = text ! pos # drop (pos + 1) text" by (simp add: Cons_nth_drop_Suc)
    consider "text ! pos = CR" "pos + 1 < length text" "text ! (pos + 1) = LF"
      | "text ! pos = CR \<or> text ! pos = LF" "\<not> (text ! pos = CR \<and> pos + 1 < length text \<and> text ! (pos + 1) = LF)"
      | "text ! pos \<noteq> CR" "text ! pos \<noteq> LF" by blast
    then show ?thesis
    proof cases
      case 1
      then have "drop (pos + 1) text = LF # drop (pos + 2) text"
        using Cons_nth_drop_Suc [of "pos + 1" "text"] by simp
      moreover have "SplitLines_loop text (pos + 2) (pos + 2) (lines @ [?cur]) =
          (lines @ [?cur]) @ lines_of [] (drop (pos + 2) text)"
        using less.hyps [of "pos + 2" "pos + 2" "lines @ [?cur]"] 1 by simp
      ultimately show ?thesis
        using 1 True d by (subst SplitLines_loop.simps) simp
    next
      case 2
      have "lines_of ?cur (drop pos text) = ?cur # lines_of [] (drop (pos + 1) text)"
        using 2 d by (simp only: d) (intro lines_of_break, auto simp: hd_drop_conv_nth)
      moreover have "SplitLines_loop text (pos + 1) (pos + 1) (lines @ [?cur]) =
          (lines @ [?cur]) @ lines_of [] (drop (pos + 1) text)"
        using less.hyps [of "pos + 1" "pos + 1"] True by simp
      ultimately show ?thesis
        using 2 True by (subst SplitLines_loop.simps) auto
    next
      case 3
      have "take (pos + 1 - start) (drop start text) = ?cur @ [text ! pos]"
        using less.prems True by (simp add: Suc_diff_le take_Suc_conv_app_nth)
      moreover have "SplitLines_loop text start (pos + 1) lines =
          lines @ lines_of (take (pos + 1 - start) (drop start text)) (drop (pos + 1) text)"
        using less.hyps [of "pos + 1" start] less.prems True by simp
      ultimately show ?thesis
        using 3 True d lines_of_char [OF 3] by (subst SplitLines_loop.simps) simp
    qed
  qed
qed

lemma SplitLines_lines_of: "SplitLines text = lines_of [] text"
  by (simp add: SplitLines_def SplitLines_loop_lines_of)

lemma lines_of_prefix:
  "CR \<notin> set l \<Longrightarrow> LF \<notin> set l \<Longrightarrow> lines_of cur (l @ s) = lines_of (cur @ l) s"
  by (induction l arbitrary: cur) (auto simp: lines_of_char)

lemma lines_of_line:
  assumes "CR \<notin> set l" and "LF \<notin> set l" and "nl = [LF] \<or> nl = [CR, LF]"
  shows "lines_of [] (l @ nl @ s) = l # lines_of [] s"
  using assms lines_of_prefix [of l "[]" "nl @ s"] lines_of_break [of LF s l] by auto

lemma lines_of_no_breaks:
  "CR \<notin> set cur \<Longrightarrow> LF \<notin> set cur \<Longrightarrow> l \<in> set (lines_of cur s) \<Longrightarrow> CR \<notin> set l \<and> LF \<notin> set l"
  by (induction cur s rule: lines_of.induct) (auto split: if_splits)

section \<open>Guessing the indentation\<close>

text \<open>
  The inner loop advances over white space while the index is below the current minimum; the
  outer loop keeps the minimum and stops early at 0. \<open>MAX_SMI_X86\<close> stands for "no line seen".
\<close>

definition MAX_SMI_X86 :: nat where "MAX_SMI_X86 = 0x3fffffff"

function indent_loop :: "string \<Rightarrow> nat \<Rightarrow> nat \<Rightarrow> nat" where
  "indent_loop line indentation i =
     (if i < length line \<and> i < indentation then
        (case DecodeRuneInString (drop i line) of (ch, sz) \<Rightarrow>
           if \<not> IsWhiteSpaceLike ch then i else indent_loop line indentation (i + sz))
      else i)"
  by pat_completeness auto
termination
proof (relation "measure (\<lambda>(line, ind, i). length line - i)", goal_cases)
  case (2 line ind i ch sz)
  then have "drop i line \<noteq> []" by simp
  from decode_width(1) [OF this] 2 show ?case by (auto simp: snd_eq_iff)
qed simp

declare indent_loop.simps [simp del]

fun GuessIndentation_loop :: "string list \<Rightarrow> nat \<Rightarrow> nat" where
  "GuessIndentation_loop [] indentation = (if indentation = MAX_SMI_X86 then 0 else indentation)"
| "GuessIndentation_loop (line # lines) indentation =
     (if length line = 0 then GuessIndentation_loop lines indentation
      else (let i = indent_loop line indentation 0;
                ind = (if i < indentation then i else indentation)
            in if ind = 0 then 0 else GuessIndentation_loop lines ind))"

definition GuessIndentation :: "string list \<Rightarrow> nat" where
  "GuessIndentation lines = GuessIndentation_loop lines MAX_SMI_X86"

section \<open>URI encoding\<close>

text \<open>\<open>url.QueryEscape\<close> of the standard library, byte by byte.\<close>

definition hex_digit :: "nat \<Rightarrow> char" where
  "hex_digit n = ''0123456789ABCDEF'' ! n"

definition query_escape_byte :: "char \<Rightarrow> string" where
  "query_escape_byte c =
     (let b = of_char c :: nat in
      if IsASCIILetter b \<or> IsDigit b \<or> c \<in> set ''-_.~'' then [c]
      else if c = CHR '' '' then ''+''
      else [CHR ''%'', hex_digit (b div 16), hex_digit (b mod 16)])"

definition QueryEscape :: "string \<Rightarrow> string" where
  "QueryEscape s = concat (map query_escape_byte s)"

definition uri_reserved :: string where
  "uri_reserved = '';/?:@&=+$,#''"

fun find_any :: "string \<Rightarrow> string \<Rightarrow> nat option" where
  "find_any [] chars = None"
| "find_any (c # s) chars = (if c \<in> set chars then Some 0 else map_option Suc (find_any s chars))"

definition IndexAny :: "string \<Rightarrow> string \<Rightarrow> int" where
  "IndexAny s chars = (case find_any s chars of None \<Rightarrow> -1 | Some i \<Rightarrow> int i)"

definition indexAny :: "string \<Rightarrow> string \<Rightarrow> int \<Rightarrow> int" where
  "indexAny s chars start =
     (if start < 0 \<or> int (length s) \<le> start then -1
      else (let index = IndexAny (drop (nat start) s) chars in if index < 0 then -1 else start + index))"

lemma find_any_Some: "find_any s chars = Some i \<longleftrightarrow>
    i < length s \<and> s ! i \<in> set chars \<and> (\<forall>c \<in> set (take i s). c \<notin> set chars)"
  by (induction s arbitrary: i) (auto simp: less_Suc_eq_0_disj nth_Cons split: nat.splits)

lemma find_any_None: "find_any s chars = None \<longleftrightarrow> (\<forall>c \<in> set s. c \<notin> set chars)"
  by (induction s) auto

lemma indexAny_cases:
  assumes "start \<le> length s"
  obtains (none) "indexAny s chars (int start) = -1" and "\<forall>c \<in> set (drop start s). c \<notin> set chars"
  | (found) i where "indexAny s chars (int start) = int i" and "start \<le> i" and "i < length s"
      and "s ! i \<in> set chars" and "\<forall>c \<in> set (take (i - start) (drop start s)). c \<notin> set chars"
proof (cases "find_any (drop start s) chars")
  case None
  then have "indexAny s chars (int start) = -1" by (simp add: indexAny_def IndexAny_def)
  with None none show ?thesis by (simp add: find_any_None)
next
  case (Some k)
  then have k: "k < length s - start" "s ! (start + k) \<in> set chars"
    "\<forall>c \<in> set (take k (drop start s)). c \<notin> set chars"
    by (auto simp: find_any_Some)
  with Some show ?thesis
    using found [of "start + k"] by (simp add: indexAny_def IndexAny_def)
qed

text \<open>\<open>EncodeURI\<close>: what lies between reserved bytes is escaped, the reserved bytes are kept.\<close>

function EncodeURI_loop :: "string \<Rightarrow> nat \<Rightarrow> string \<Rightarrow> string" where
  "EncodeURI_loop s start out =
     (let pos = indexAny s uri_reserved (int start) in
      if 0 \<le> pos then
        EncodeURI_loop s (nat pos + 1)
          (out @ QueryEscape (take (nat pos - start) (drop start s)) @ take 1 (drop (nat pos) s))
      else if start < length s then out @ QueryEscape (drop start s) else out)"
  by pat_completeness auto
termination
proof (relation "measure (\<lambda>(s, start, out). Suc (length s) - start)", goal_cases)
  case (2 s start out pos)
  then have "start < length s" and "int start \<le> pos"
    by (auto simp: indexAny_def Let_def split: if_splits)
  then show ?case by auto
qed simp

declare EncodeURI_loop.simps [simp del]

definition EncodeURI :: "string \<Rightarrow> string" where
  "EncodeURI s = EncodeURI_loop s 0 []"

lemma EncodeURI_loop_eq:
  assumes "start \<le> length s"
  shows "EncodeURI_loop s start out =
    out @ concat (map (\<lambda>c. if c \<in> set uri_reserved then [c] else query_escape_byte c) (drop start s))"
  using assms
proof (induction "length s - start" arbitrary: start out rule: less_induct)
  case less
  let ?e = "\<lambda>c. if c \<in> set uri_reserved then [c] else query_escape_byte c"
  have esc: "concat (map ?e w) = QueryEscape w" if "\<forall>c \<in> set w. c \<notin> set uri_reserved" for w
    using that by (induction w) (auto simp: QueryEscape_def)
  from less.prems show ?case
  proof (cases rule: indexAny_cases [of start s uri_reserved])
    case none
    with esc [OF none(2)] show ?thesis
      by (subst EncodeURI_loop.simps) (auto simp: QueryEscape_def)
  next
    case (found i)
    have d: "drop start s = take (i - start) (drop start s) @ s ! i # drop (i + 1) s"
      using found(2,3) by (metis (no_types, lifting) Cons_nth_drop_Suc Suc_eq_plus1 append_take_drop_id
          drop_drop le_add_diff_inverse2)
    have t: "take 1 (drop i s) = [s ! i]" using found(3) by (simp add: take_Suc_conv_app_nth take_Suc hd_drop_conv_nth)
    have "EncodeURI_loop s start out =
        EncodeURI_loop s (i + 1) (out @ QueryEscape (take (i - start) (drop start s)) @ [s ! i])"
      using found(1) t by (subst EncodeURI_loop.simps) (simp add: Let_def)
    also have "\<dots> = (out @ QueryEscape (take (i - start) (drop start s)) @ [s ! i]) @ concat (map ?e (drop (i + 1) s))"
      using found(2,3) by (intro less.hyps) auto
    also have "\<dots> = out @ concat (map ?e (drop start s))"
      using esc [OF found(5)] found(4) by (subst d) (simp del: take_drop)
    finally show ?thesis .
  qed
qed

lemma EncodeURI_bytewise:
  "EncodeURI s = concat (map (\<lambda>c. if c \<in> set uri_reserved then [c] else query_escape_byte c) s)"
  by (simp add: EncodeURI_def EncodeURI_loop_eq)

section \<open>Byte order marks and quotes\<close>

definition getByteOrderMarkLength :: "string \<Rightarrow> nat" where
  "getByteOrderMarkLength text =
     (if 1 \<le> length text then
        (let ch0 = text ! 0 in
         if ch0 = CHR 0xFE then (if 2 \<le> length text \<and> text ! 1 = CHR 0xFF then 2 else 0)
         else if ch0 = CHR 0xFF then (if 2 \<le> length text \<and> text ! 1 = CHR 0xFE then 2 else 0)
         else if ch0 = CHR 0xEF then
           (if 3 \<le> length text \<and> text ! 1 = CHR 0xBB \<and> text ! 2 = CHR 0xBF then 3 else 0)
         else 0)
      else 0)"

definition RemoveByteOrderMark :: "string \<Rightarrow> string" where
  "RemoveByteOrderMark text =
     (let n = getByteOrderMarkLength text in if 0 < n then drop n text else text)"

definition AddUTF8ByteOrderMark :: "string \<Rightarrow> string" where
  "AddUTF8ByteOrderMark text =
     (if getByteOrderMarkLength text = 0 then [CHR 0xEF, CHR 0xBB, CHR 0xBF] @ text else text)"

lemma bom_length_added: "getByteOrderMarkLength (CHR 0xEF # CHR 0xBB # CHR 0xBF # text) = 3"
  by (simp add: getByteOrderMarkLength_def)

lemma bom_length_le: "getByteOrderMarkLength text \<le> length text"
  by (simp add: getByteOrderMarkLength_def Let_def)

text \<open>
  \<open>StripQuotes\<close> compares the first and the last rune and slices both off. On a string that is one
  quote character the two runes are the same byte, and the slice \<open>name[1:0]\<close> panics.
\<close>

definition StripQuotes :: "string \<Rightarrow> string go" where
  "StripQuotes name =
     (let firstChar = fst (DecodeRuneInString name);
          lastChar = fst (DecodeLastRuneInString name)
      in if firstChar = lastChar \<and> (firstChar = 39 \<or> firstChar = 34 \<or> firstChar = 96)
         then go_slice name 1 (int (length name) - 1) else Inr name)"

text \<open>
  \<open>matchSlashSomething\<close> is the regular expression \<open>\.\<close> in a raw string: it matches a full stop, and
  the replacer drops the first byte of the match.
\<close>

fun replace_dots :: "string \<Rightarrow> string" where
  "replace_dots [] = []"
| "replace_dots (c # s) = (if c = CHR ''.'' then tl [c] @ replace_dots s else c # replace_dots s)"

definition UnquoteString :: "string \<Rightarrow> string go" where
  "UnquoteString str = go_bind (StripQuotes str) (\<lambda>inner. Inr (replace_dots inner))"

lemma replace_dots_filter: "replace_dots s = filter (\<lambda>c. c \<noteq> CHR ''.'') s"
  by (induction s) auto

lemma decode_last_ascii:
  "of_char c < (128::nat) \<Longrightarrow> DecodeLastRuneInString (s @ [c]) = (of_char c, 1)"
  by (simp add: DecodeLastRuneInString_def Let_def nth_append)

lemma StripQuotes_quoted:
  assumes "q = CHR 0x27 \<or> q = CHR 0x22 \<or> q = CHR 0x60"
  shows "StripQuotes (q # s @ [q]) = Inr s"
proof -
  have a: "of_char q < (128::nat)" "(of_char q :: nat) = 39 \<or> (of_char q :: nat) = 34 \<or> (of_char q :: nat) = 96"
    using assms by auto
  have "DecodeLastRuneInString (q # s @ [q]) = (of_char q, 1)"
    using decode_last_ascii [OF a(1), of "q # s"] by simp
  then show ?thesis
    using a by (simp add: StripQuotes_def decode_ascii go_slice_def)
qed

section \<open>Comparing strings\<close>

text \<open>
  \<open>strings.EqualFold\<close> compares rune by rune under simple folding: the ASCII letters by case, other
  runes by their folding orbit, whose representative the table gives.
\<close>

definition fold_key :: "(nat \<Rightarrow> nat) \<Rightarrow> nat \<Rightarrow> nat" where
  "fold_key orbit r = (if r < 128 then (if 65 \<le> r \<and> r \<le> 90 then r + 32 else r) else orbit r)"

definition EqualFold :: "(nat \<Rightarrow> nat) \<Rightarrow> string \<Rightarrow> string \<Rightarrow> bool" where
  "EqualFold orbit s t = (map (fold_key orbit) (runes s) = map (fold_key orbit) (runes t))"

definition unicode_ToUpper :: "(nat \<Rightarrow> nat) \<Rightarrow> nat \<Rightarrow> nat" where
  "unicode_ToUpper table r = (if r < 128 then (if 97 \<le> r \<and> r \<le> 122 then r - 32 else r) else table r)"

definition strings_ToUpper :: "(nat \<Rightarrow> nat) \<Rightarrow> string \<Rightarrow> string" where
  "strings_ToUpper table s = strings_Map (unicode_ToUpper table) s"

definition EquateStringCaseInsensitive :: "(nat \<Rightarrow> nat) \<Rightarrow> string \<Rightarrow> string \<Rightarrow> bool" where
  "EquateStringCaseInsensitive orbit a b = EqualFold orbit a b"

definition EquateStringCaseSensitive :: "string \<Rightarrow> string \<Rightarrow> bool" where
  "EquateStringCaseSensitive a b = (a = b)"

definition GetStringEqualityComparer :: "(nat \<Rightarrow> nat) \<Rightarrow> bool \<Rightarrow> string \<Rightarrow> string \<Rightarrow> bool" where
  "GetStringEqualityComparer orbit ignoreCase =
     (if ignoreCase then EquateStringCaseInsensitive orbit else EquateStringCaseSensitive)"

definition CompareStringsCaseInsensitive :: "(nat \<Rightarrow> nat) \<Rightarrow> string \<Rightarrow> string \<Rightarrow> int" where
  "CompareStringsCaseInsensitive upper a b =
     (if a = b then 0 else strings_Compare (strings_ToUpper upper a) (strings_ToUpper upper b))"

definition CompareStringsCaseSensitive :: "string \<Rightarrow> string \<Rightarrow> int" where
  "CompareStringsCaseSensitive a b = strings_Compare a b"

definition GetStringComparer :: "(nat \<Rightarrow> nat) \<Rightarrow> bool \<Rightarrow> string \<Rightarrow> string \<Rightarrow> int" where
  "GetStringComparer upper ignoreCase =
     (if ignoreCase then CompareStringsCaseInsensitive upper else CompareStringsCaseSensitive)"

definition stringutil_HasPrefix :: "(nat \<Rightarrow> nat) \<Rightarrow> string \<Rightarrow> string \<Rightarrow> bool \<Rightarrow> bool" where
  "stringutil_HasPrefix orbit s pfx caseSensitive =
     (if caseSensitive then HasPrefix s pfx
      else if length s < length pfx then False
      else EqualFold orbit (take (length pfx) s) pfx)"

definition stringutil_HasSuffix :: "(nat \<Rightarrow> nat) \<Rightarrow> string \<Rightarrow> string \<Rightarrow> bool \<Rightarrow> bool" where
  "stringutil_HasSuffix orbit s sfx caseSensitive =
     (if caseSensitive then HasSuffix s sfx
      else if length s < length sfx then False
      else EqualFold orbit (drop (length s - length sfx) s) sfx)"

lemma case_insensitive_key:
  "CompareStringsCaseInsensitive upper a b = strings_Compare (strings_ToUpper upper a) (strings_ToUpper upper b)"
  by (simp add: CompareStringsCaseInsensitive_def)

lemma GetStringComparer_key:
  "GetStringComparer upper ic a b =
     strings_Compare (if ic then strings_ToUpper upper a else a) (if ic then strings_ToUpper upper b else b)"
  by (simp add: GetStringComparer_def case_insensitive_key CompareStringsCaseSensitive_def)

interpretation names: comparison "GetStringComparer upper ignoreCase" for upper ignoreCase
  by unfold_locales
    (simp add: GetStringComparer_key,
     simp only: GetStringComparer_key, rule strings_Compare_swap,
     simp only: GetStringComparer_key, rule strings_Compare_le_trans, assumption+)

lemma EqualFold_refl [simp]: "EqualFold orbit s s"
  by (simp add: EqualFold_def)

lemma EqualFold_sym: "EqualFold orbit s t \<Longrightarrow> EqualFold orbit t s"
  by (simp add: EqualFold_def)

lemma EqualFold_trans: "EqualFold orbit s t \<Longrightarrow> EqualFold orbit t u \<Longrightarrow> EqualFold orbit s u"
  by (simp add: EqualFold_def)

lemma equality_comparer_refl [simp]: "GetStringEqualityComparer orbit ic s s"
  by (simp add: GetStringEqualityComparer_def EquateStringCaseInsensitive_def EquateStringCaseSensitive_def)

section \<open>Properties\<close>

text \<open>C36. \<open>SplitLines\<close>, which works on offsets into the text, is the structural recursion that ends a line at
  a line feed, a carriage return or the pair of them, and no line it returns contains a line break.\<close>

theorem SplitLines_correct:
  "SplitLines text = lines_of [] text \<and> (\<forall>l. l \<in> set (SplitLines text) \<longrightarrow> CR \<notin> set l \<and> LF \<notin> set l)"
proof -
  have "CR \<notin> set l \<and> LF \<notin> set l" if "l \<in> set (lines_of [] text)" for l
    by (rule lines_of_no_breaks [OF _ _ that]) simp_all
  then show ?thesis by (simp add: SplitLines_lines_of)
qed

lemma SplitLines_correct_witness:
  "SplitLines [CHR ''a'', CR, LF, CHR ''b''] = [''a'', ''b''] \<and> LF \<notin> set ''a''"
  using SplitLines_correct [of "[CHR ''a'', CR, LF, CHR ''b'']"] by simp

text \<open>\<open>EncodeURI\<close>, which encodes the stretches between reserved characters, encodes byte by byte:
  reserved characters stay, every other byte is escaped as in a query.\<close>

theorem EncodeURI_is_bytewise:
  "EncodeURI s = concat (map (\<lambda>c. if c \<in> set uri_reserved then [c] else query_escape_byte c) s)"
  by (rule EncodeURI_bytewise)

text \<open>\<open>StripQuotes\<close> inverts quoting with any of the three quote characters; on a string that is a single
  quote character it panics.\<close>

theorem StripQuotes_inverts_quoting:
  assumes "q = CHR 0x27 \<or> q = CHR 0x22 \<or> q = CHR 0x60"
  shows "StripQuotes (q # s @ [q]) = Inr s \<and> StripQuotes [q] = Inl SliceOutOfRange"
proof -
  have a: "of_char q < (128::nat)" "(of_char q :: nat) = 39 \<or> (of_char q :: nat) = 34 \<or> (of_char q :: nat) = 96"
    using assms by auto
  have "DecodeLastRuneInString [q] = (of_char q, 1)" using decode_last_ascii [OF a(1), of "[]"] by simp
  then have "StripQuotes [q] = Inl SliceOutOfRange"
    using a by (simp add: StripQuotes_def decode_ascii go_slice_def)
  with StripQuotes_quoted [OF assms] show ?thesis by simp
qed

lemma StripQuotes_inverts_quoting_witness:
  "StripQuotes [CHR 0x22, CHR ''x'', CHR 0x22] = Inr ''x'' \<and> StripQuotes [CHR 0x22] = Inl SliceOutOfRange"
  using StripQuotes_inverts_quoting [of "CHR 0x22" "''x''"] by simp

text \<open>Inserting a string into a list sorted by a string comparer, with or without case, keeps the list
  sorted and adds exactly that string.\<close>

theorem InsertSorted_names:
  assumes "sorted_by (GetStringComparer upper ignoreCase) xs"
  shows "sorted_by (GetStringComparer upper ignoreCase) (InsertSorted xs x (GetStringComparer upper ignoreCase)) \<and>
    mset (InsertSorted xs x (GetStringComparer upper ignoreCase)) = add_mset x (mset xs)"
  using names.InsertSorted_sorted [OF assms] by simp

lemma InsertSorted_names_witness:
  "sorted_by (GetStringComparer id False) (InsertSorted [''a'', ''c''] ''b'' (GetStringComparer id False))"
proof -
  have "sorted_by (GetStringComparer id False) [''a'', ''c'']"
    by (simp add: sorted_by_def GetStringComparer_def CompareStringsCaseSensitive_def)
  from InsertSorted_names [OF this, of "''b''"] show ?thesis by blast
qed

text \<open>
  \<open>UnquoteString\<close> is meant to undo escapes, but its pattern matches full stops: it deletes them and
  leaves backslashes alone.
\<close>

lemma UnquoteString_deletes_dots:
  "UnquoteString [CHR 0x22, CHR ''a'', CHR ''.'', CHR 0x5C, CHR ''b'', CHR 0x22] = Inr [CHR ''a'', CHR 0x5C, CHR ''b'']"
  by code_simp

lemma EncodeURI_not_injective: "EncodeURI ''a b'' = EncodeURI ''a+b''"
  by code_simp

end
