(* ===== verification/Core_Text.thy ===== *)
theory Core_Text
  imports Stringutil
begin

text \<open>
  Positions in a source text: \<open>internal/core/text.go\<close> and the line functions of \<open>core.go\<close>. Offsets are
  UTF-8 byte offsets. The code counts them in an \<open>int32\<close> (\<open>TextPos\<close>), so texts are shorter than
  $2^{31}$ bytes; below that bound no offset of the scan wraps, and it is a \<open>nat\<close> here. The range
  operations, which take arbitrary integers, keep the truncation.
\<close>

section \<open>Ranges\<close>

record TextRange =
  tr_pos :: int
  tr_end :: int

definition NewTextRange :: "int \<Rightarrow> int \<Rightarrow> TextRange" where
  "NewTextRange pos end = \<lparr>tr_pos = int32 pos, tr_end = int32 end\<rparr>"

definition UndefinedTextRange :: TextRange where
  "UndefinedTextRange = \<lparr>tr_pos = -1, tr_end = -1\<rparr>"

definition TextRange_Len :: "TextRange \<Rightarrow> int" where
  "TextRange_Len t = int32 (tr_end t - tr_pos t)"

definition TextRange_IsValid :: "TextRange \<Rightarrow> bool" where
  "TextRange_IsValid t = (0 \<le> tr_pos t \<or> 0 \<le> tr_end t)"

definition TextRange_Contains :: "TextRange \<Rightarrow> int \<Rightarrow> bool" where
  "TextRange_Contains t pos = (tr_pos t \<le> pos \<and> pos < tr_end t)"

definition TextRange_ContainsInclusive :: "TextRange \<Rightarrow> int \<Rightarrow> bool" where
  "TextRange_ContainsInclusive t pos = (tr_pos t \<le> pos \<and> pos \<le> tr_end t)"

definition TextRange_WithPos :: "TextRange \<Rightarrow> int \<Rightarrow> TextRange" where
  "TextRange_WithPos t pos = \<lparr>tr_pos = int32 pos, tr_end = tr_end t\<rparr>"

definition TextRange_WithEnd :: "TextRange \<Rightarrow> int \<Rightarrow> TextRange" where
  "TextRange_WithEnd t end = \<lparr>tr_pos = tr_pos t, tr_end = int32 end\<rparr>"

section \<open>Line starts\<close>

text \<open>
  \<open>ComputeLineStartsSeq\<close> yields the start of a line each time it passes a line break, and the start
  of the last line at the end. The elements it yields are collected in order.
\<close>

function line_starts_loop :: "string \<Rightarrow> nat \<Rightarrow> nat \<Rightarrow> nat list" where
  "line_starts_loop text pos lineStart =
     (if pos < length text then
        (let b = text ! pos in
         if of_char b < (128::nat) then
           (let pos1 = pos + 1 in
            if b = CR then
              (let pos2 = (if pos1 < length text \<and> text ! pos1 = LF then pos1 + 1 else pos1)
               in lineStart # line_starts_loop text pos2 pos2)
            else if b = LF then lineStart # line_starts_loop text pos1 pos1
            else line_starts_loop text pos1 lineStart)
         else
           (case DecodeRuneInString (drop pos text) of (ch, sz) \<Rightarrow>
              if IsLineBreak ch then lineStart # line_starts_loop text (pos + sz) (pos + sz)
              else line_starts_loop text (pos + sz) lineStart))
      else [lineStart])"
  by pat_completeness auto
termination
proof (relation "measure (\<lambda>(text, pos, lineStart). length text - pos)", goal_cases)
  case (5 t pos ls b ch sz)
  then have "drop pos t \<noteq> []" by simp
  from decode_width(1) [OF this] 5 show ?case by (auto simp: snd_eq_iff)
next
  case (6 t pos lineStart b ch sz)
  then have "drop pos t \<noteq> []" by simp
  from decode_width(1) [OF this] 6 show ?case by (auto simp: snd_eq_iff)
qed auto

declare line_starts_loop.simps [simp del]

definition ComputeLineStarts :: "string \<Rightarrow> nat list" where
  "ComputeLineStarts text = line_starts_loop text 0 0"

text \<open>\<open>sort.Search\<close>: the least index in \<open>[0, n)\<close> at which a monotone predicate holds.\<close>

function sort_Search_loop :: "(nat \<Rightarrow> bool) \<Rightarrow> nat \<Rightarrow> nat \<Rightarrow> nat" where
  "sort_Search_loop f i j =
     (if i < j then
        (let h = (i + j) div 2 in if \<not> f h then sort_Search_loop f (h + 1) j else sort_Search_loop f i h)
      else i)"
  by pat_completeness auto
termination
  by (relation "measure (\<lambda>(f, i, j). j - i)") (auto simp: Let_def)

declare sort_Search_loop.simps [simp del]

definition PositionToLineAndCharacter :: "int \<Rightarrow> nat list \<Rightarrow> (int \<times> int) go" where
  "PositionToLineAndCharacter position lineStarts =
     (let line0 = int (sort_Search_loop (\<lambda>i. position < int (lineStarts ! i)) 0 (length lineStarts)) - 1;
          line = (if line0 < 0 then 0 else line0)
      in go_bind (index_get lineStarts line) (\<lambda>start. Inr (line, position - int start)))"

subsection \<open>The starts are strictly increasing and mark line breaks\<close>

text \<open>
  A step of the scan: what the loop does at a position, as the width it advances and whether a
  line ends there.
\<close>

definition scan_step :: "string \<Rightarrow> nat \<Rightarrow> nat \<times> bool" where
  "scan_step text pos =
     (let b = text ! pos in
      if of_char b < (128::nat) then
        (if b = CR then (if pos + 1 < length text \<and> text ! (pos + 1) = LF then (2, True) else (1, True))
         else (1, b = LF))
      else (snd (DecodeRuneInString (drop pos text)), IsLineBreak (fst (DecodeRuneInString (drop pos text)))))"

lemma line_starts_loop_step:
  assumes "pos < length text"
  shows "line_starts_loop text pos lineStart =
    (case scan_step text pos of (w, brk) \<Rightarrow>
       if brk then lineStart # line_starts_loop text (pos + w) (pos + w)
       else line_starts_loop text (pos + w) lineStart)"
  using assms by (subst line_starts_loop.simps) (auto simp: scan_step_def Let_def split: prod.splits)

lemma line_starts_loop_end: "\<not> pos < length text \<Longrightarrow> line_starts_loop text pos lineStart = [lineStart]"
  by (subst line_starts_loop.simps) simp

lemma scan_step_width:
  assumes "pos < length text"
  shows "1 \<le> fst (scan_step text pos) \<and> pos + fst (scan_step text pos) \<le> length text"
proof -
  have "drop pos text \<noteq> []" using assms by simp
  from decode_width [OF this] assms show ?thesis by (auto simp: scan_step_def Let_def)
qed

lemma line_starts_induct [consumes 1, case_names finish step]:
  assumes "pos \<le> length text"
    and "\<And>pos. pos = length text \<Longrightarrow> P pos"
    and "\<And>pos. pos < length text \<Longrightarrow> P (pos + fst (scan_step text pos)) \<Longrightarrow> P pos"
  shows "P pos"
  using assms(1)
proof (induction "length text - pos" arbitrary: pos rule: less_induct)
  case less
  show ?case
  proof (cases "pos < length text")
    case True
    have "P (pos + fst (scan_step text pos))"
      using scan_step_width [OF True] True by (intro less.hyps) auto
    with True show ?thesis by (rule assms(3))
  next
    case False
    with less.prems show ?thesis by (intro assms(2)) simp
  qed
qed

lemma line_starts_loop_sorted:
  assumes "pos \<le> length text" and "lineStart \<le> pos"
  shows "sorted_wrt (<) (line_starts_loop text pos lineStart) \<and>
    hd (line_starts_loop text pos lineStart) = lineStart \<and>
    line_starts_loop text pos lineStart \<noteq> [] \<and>
    (\<forall>s \<in> set (tl (line_starts_loop text pos lineStart)). pos < s \<and> s \<le> length text)"
  using assms
proof (induction arbitrary: lineStart rule: line_starts_induct)
  case (finish pos)
  then show ?case by (simp add: line_starts_loop_end)
next
  case (step pos)
  obtain w brk where sc: "scan_step text pos = (w, brk)" by force
  then have w: "1 \<le> w" "pos + w \<le> length text" using scan_step_width [OF step.hyps] by auto
  show ?case
  proof (cases brk)
    case True
    let ?rest = "line_starts_loop text (pos + w) (pos + w)"
    have ih: "sorted_wrt (<) ?rest" "hd ?rest = pos + w" "?rest \<noteq> []"
      "\<forall>s \<in> set (tl ?rest). pos + w < s \<and> s \<le> length text"
      using step.IH [of "pos + w"] sc by auto
    have mem: "s \<in> set ?rest \<Longrightarrow> pos + w \<le> s \<and> s \<le> length text" for s
      using ih(2-4) w by (cases ?rest) auto
    have "line_starts_loop text pos lineStart = lineStart # ?rest"
      using step.hyps sc True by (simp add: line_starts_loop_step)
    moreover have "\<forall>s \<in> set ?rest. lineStart < s" using mem step.prems w by force
    moreover have "\<forall>s \<in> set ?rest. pos < s \<and> s \<le> length text" using mem w by force
    ultimately show ?thesis using ih(1) by simp
  next
    case False
    then show ?thesis
      using step.IH [of lineStart] step.prems sc w step.hyps by (force simp: line_starts_loop_step)
  qed
qed

lemma ComputeLineStarts_sorted:
  "sorted_wrt (<) (ComputeLineStarts text) \<and> hd (ComputeLineStarts text) = 0 \<and> ComputeLineStarts text \<noteq> [] \<and>
   (\<forall>s \<in> set (ComputeLineStarts text). s \<le> length text)"
proof -
  note l = line_starts_loop_sorted [of 0 "text" 0, folded ComputeLineStarts_def]
  then show ?thesis by (cases "ComputeLineStarts text") auto
qed

text \<open>A line feed always ends a line: the offset after it is a start.\<close>

lemma line_starts_after_LF:
  assumes "pos \<le> length text" and "pos \<le> q" and "q < length text" and "text ! q = LF"
  shows "q + 1 \<in> set (line_starts_loop text pos lineStart)"
  using assms
proof (induction arbitrary: lineStart rule: line_starts_induct)
  case (finish pos)
  then show ?case by simp
next
  case (step pos)
  obtain w brk where sc: "scan_step text pos = (w, brk)" by force
  have hd_in: "pos + w \<in> set (line_starts_loop text (pos + w) (pos + w))"
    using line_starts_loop_sorted [of "pos + w" "text" "pos + w"] scan_step_width [OF step.hyps] sc
    by (metis fst_conv hd_in_set order_refl)
  show ?case
  proof (cases "pos + w \<le> q")
    case True
    then have "q + 1 \<in> set (line_starts_loop text (pos + w) (if brk then pos + w else lineStart))"
      using step.IH step.prems sc by simp
    then show ?thesis
      unfolding line_starts_loop_step [OF step.hyps] sc by (cases brk) simp_all
  next
    case False
    have "q + 1 = pos + w \<and> brk"
    proof (cases "of_char (text ! pos) < (128::nat)")
      case True
      consider "q = pos" | "pos < q" using step.prems by linarith
      then show ?thesis
        using True sc step.prems False by cases (auto simp: scan_step_def Let_def split: if_splits)
    next
      case high: False
      then have w: "w = snd (DecodeRuneInString (drop pos text))" using sc by (simp add: scan_step_def)
      have "q \<noteq> pos" using high step.prems by auto
      then have "(128::nat) \<le> of_char (drop pos text ! (q - pos))"
        using w False step.prems by (intro decode_cont) auto
      then show ?thesis using step.prems step.hyps by simp
    qed
    with hd_in show ?thesis unfolding line_starts_loop_step [OF step.hyps] sc by simp
  qed
qed

text \<open>Searching a sorted list of starts finds the last start at or before the position.\<close>

lemma sort_Search_loop_stop: "\<not> i < j \<Longrightarrow> sort_Search_loop f i j = i"
  by (subst sort_Search_loop.simps) simp

lemma sort_Search_loop_up:
  "i < j \<Longrightarrow> \<not> f ((i + j) div 2) \<Longrightarrow> sort_Search_loop f i j = sort_Search_loop f ((i + j) div 2 + 1) j"
  by (subst sort_Search_loop.simps) (simp add: Let_def)

lemma sort_Search_loop_down:
  "i < j \<Longrightarrow> f ((i + j) div 2) \<Longrightarrow> sort_Search_loop f i j = sort_Search_loop f i ((i + j) div 2)"
  by (subst sort_Search_loop.simps) (simp add: Let_def)

lemma sort_Search_spec:
  assumes mono: "\<And>a b. a \<le> b \<Longrightarrow> b < n \<Longrightarrow> f a \<Longrightarrow> f b"
    and "i \<le> j" and "j \<le> n" and "\<forall>k < i. \<not> f k" and "\<forall>k. j \<le> k \<and> k < n \<longrightarrow> f k"
  shows "sort_Search_loop f i j \<le> n \<and> (\<forall>k < sort_Search_loop f i j. \<not> f k) \<and>
    (\<forall>k. sort_Search_loop f i j \<le> k \<and> k < n \<longrightarrow> f k)"
  using assms(2-)
proof (induction "j - i" arbitrary: i j rule: less_induct)
  case less
  let ?h = "(i + j) div 2"
  show ?case
  proof (cases "i < j")
    case True
    then have h: "i \<le> ?h" "?h < j" "?h < n" using less.prems by auto
    show ?thesis
    proof (cases "f ?h")
      case up: True
      have hi: "\<forall>k. ?h \<le> k \<and> k < n \<longrightarrow> f k" using mono [OF _ _ up] by blast
      have "?h - i < j - i" "?h \<le> n" using h by auto
      then show ?thesis
        unfolding sort_Search_loop_down [OF True, of f, OF up]
        by (intro less.hyps h(1) less.prems(3) hi) assumption+
    next
      case down: False
      have lo: "\<forall>k < ?h + 1. \<not> f k"
      proof (intro allI impI)
        fix k assume "k < ?h + 1"
        then show "\<not> f k" using mono [of k ?h] h(3) down by auto
      qed
      have "j - (?h + 1) < j - i" "?h + 1 \<le> j" using h by auto
      then show ?thesis
        unfolding sort_Search_loop_up [OF True, of f, OF down]
        by (intro less.hyps less.prems(2) lo less.prems(4)) assumption+
    qed
  next
    case False
    with less.prems show ?thesis by (simp add: sort_Search_loop_stop)
  qed
qed

lemma PositionToLineAndCharacter_spec:
  assumes sorted: "sorted_wrt (<) starts" and "starts \<noteq> []" and "hd starts = 0" and "0 \<le> position"
  obtains line where "PositionToLineAndCharacter position starts = Inr (int line, position - int (starts ! line))"
    and "line < length starts" and "int (starts ! line) \<le> position"
    and "\<forall>k < length starts. line < k \<longrightarrow> position < int (starts ! k)"
proof -
  let ?f = "\<lambda>i. position < int (starts ! i)"
  let ?n = "sort_Search_loop ?f 0 (length starts)"
  have mono: "?f a \<Longrightarrow> ?f b" if "a \<le> b" "b < length starts" for a b
    using sorted_wrt_nth_less [OF sorted, of a b] that by (cases "a = b") auto
  have "?n \<le> length starts \<and> (\<forall>k < ?n. \<not> ?f k) \<and> (\<forall>k. ?n \<le> k \<and> k < length starts \<longrightarrow> ?f k)"
    by (rule sort_Search_spec) (use mono in auto)
  then have sp: "?n \<le> length starts" "\<forall>k < ?n. \<not> ?f k" "\<forall>k. ?n \<le> k \<and> k < length starts \<longrightarrow> ?f k"
    by blast+
  have "\<not> ?f 0" using assms by (simp add: hd_conv_nth)
  then have "0 < ?n" using sp(3) assms(2) by (metis gr0I le0 length_greater_0_conv)
  then obtain line where n: "?n = Suc line" using gr0_implies_Suc by blast
  have "PositionToLineAndCharacter position starts = Inr (int line, position - int (starts ! line))"
    using n sp(1) by (simp add: PositionToLineAndCharacter_def index_get_in_range)
  moreover have "line < length starts" using n sp(1) by simp
  moreover have "int (starts ! line) \<le> position" using n sp(2) by (metis lessI not_less)
  moreover have "\<forall>k < length starts. line < k \<longrightarrow> position < int (starts ! k)"
    using n sp(3) by (metis Suc_leI)
  ultimately show ?thesis by (rule that)
qed

section \<open>Three-valued options\<close>

datatype Tristate = TSUnknown | TSFalse | TSTrue

definition IsTrue :: "Tristate \<Rightarrow> bool" where
  "IsTrue t = (t = TSTrue)"

definition IsTrueOrUnknown :: "Tristate \<Rightarrow> bool" where
  "IsTrueOrUnknown t = (t = TSTrue \<or> t = TSUnknown)"

definition IsFalse :: "Tristate \<Rightarrow> bool" where
  "IsFalse t = (t = TSFalse)"

definition IsFalseOrUnknown :: "Tristate \<Rightarrow> bool" where
  "IsFalseOrUnknown t = (t = TSFalse \<or> t = TSUnknown)"

definition DefaultIfUnknown :: "Tristate \<Rightarrow> Tristate \<Rightarrow> Tristate" where
  "DefaultIfUnknown t value = (if t = TSUnknown then value else t)"

definition Tristate_UnmarshalJSON :: "string \<Rightarrow> Tristate" where
  "Tristate_UnmarshalJSON data =
     (if data = ''true'' then TSTrue else if data = ''false'' then TSFalse else TSUnknown)"

fun Tristate_MarshalJSON :: "Tristate \<Rightarrow> string" where
  "Tristate_MarshalJSON TSTrue = ''true''"
| "Tristate_MarshalJSON TSFalse = ''false''"
| "Tristate_MarshalJSON TSUnknown = ''null''"

lemma Tristate_roundtrip: "Tristate_UnmarshalJSON (Tristate_MarshalJSON t) = t"
  by (cases t) (simp_all add: Tristate_UnmarshalJSON_def)

section \<open>Properties\<close>

text \<open>Positions round trip through lines: for every text and every non-negative position the line found
  in the text's line starts begins at or before the position, the next one after it, and line start plus
  character is the position; the lookup does not panic.\<close>

theorem position_line_character:
  assumes "0 \<le> position"
  shows "\<exists>line c. PositionToLineAndCharacter position (ComputeLineStarts text) = Inr (int line, c) \<and> 0 \<le> c \<and>
    line < length (ComputeLineStarts text) \<and> int (ComputeLineStarts text ! line) + c = position \<and>
    (\<forall>k < length (ComputeLineStarts text). line < k \<longrightarrow> position < int (ComputeLineStarts text ! k))"
proof -
  have s: "sorted_wrt (<) (ComputeLineStarts text)" "ComputeLineStarts text \<noteq> []" "hd (ComputeLineStarts text) = 0"
    using ComputeLineStarts_sorted by blast+
  obtain line where "PositionToLineAndCharacter position (ComputeLineStarts text) =
      Inr (int line, position - int (ComputeLineStarts text ! line))"
    "line < length (ComputeLineStarts text)" "int (ComputeLineStarts text ! line) \<le> position"
    "\<forall>k < length (ComputeLineStarts text). line < k \<longrightarrow> position < int (ComputeLineStarts text ! k)"
    by (rule PositionToLineAndCharacter_spec [OF s assms])
  then show ?thesis by (intro exI [of _ line] exI [of _ "position - int (ComputeLineStarts text ! line)"]) simp
qed

lemma position_line_character_witness:
  "\<exists>line c. PositionToLineAndCharacter 5 (ComputeLineStarts ''ab cdef'') = Inr (int line, c) \<and> 0 \<le> c"
proof -
  have "0 \<le> (5::int)" by simp
  from position_line_character [OF this, of "''ab cdef''"] show ?thesis by blast
qed

end
