(* ===== verification/Core_Pattern.thy ===== *)
theory Core_Pattern
  imports Go_Strings
begin

text \<open>
  Patterns with at most one \<open>*\<close> (\<open>internal/core/pattern.go\<close>), used for ambient module patterns and for
  the \<open>paths\<close> of a configuration. The slice expressions of the code are kept as such, so a panic
  is a value.
\<close>

record Pattern =
  pat_Text :: string
  pat_StarIndex :: int

definition TryParsePattern :: "string \<Rightarrow> Pattern" where
  "TryParsePattern pattern =
     (let starIndex = Index pattern ''*'' in
      if starIndex = -1 \<or> \<not> Contains (drop (nat (starIndex + 1)) pattern) ''*''
      then \<lparr>pat_Text = pattern, pat_StarIndex = starIndex\<rparr>
      else \<lparr>pat_Text = [], pat_StarIndex = 0\<rparr>)"

definition Pattern_IsValid :: "Pattern \<Rightarrow> bool" where
  "Pattern_IsValid p = (pat_StarIndex p = -1 \<or> pat_StarIndex p < int (length (pat_Text p)))"

definition Pattern_Matches :: "Pattern \<Rightarrow> string \<Rightarrow> bool go" where
  "Pattern_Matches p candidate =
     (if pat_StarIndex p = -1 then Inr (pat_Text p = candidate)
      else if \<not> pat_StarIndex p \<le> int (length candidate) then Inr False
      else go_bind (go_slice (pat_Text p) 0 (pat_StarIndex p)) (\<lambda>pre.
           if \<not> HasPrefix candidate pre then Inr False
           else go_bind (go_slice (pat_Text p) (pat_StarIndex p + 1) (int (length (pat_Text p)))) (\<lambda>suf.
                Inr (HasSuffix candidate suf))))"

definition Pattern_MatchedText :: "Pattern \<Rightarrow> string \<Rightarrow> string go" where
  "Pattern_MatchedText p candidate =
     go_bind (Pattern_Matches p candidate) (\<lambda>m.
       if \<not> m then Inl (Panicked ''candidate does not match pattern'')
       else if pat_StarIndex p = -1 then Inr []
       else go_slice candidate (pat_StarIndex p)
              (int (length candidate) - int (length (pat_Text p)) + pat_StarIndex p + 1))"

fun FindBest_loop :: "('a \<Rightarrow> Pattern) \<Rightarrow> string \<Rightarrow> 'a \<Rightarrow> int \<Rightarrow> 'a list \<Rightarrow> 'a go" where
  "FindBest_loop getPattern candidate best longest [] = Inr best"
| "FindBest_loop getPattern candidate best longest (value # vs) =
     (let pattern = getPattern value in
      if pat_StarIndex pattern = -1 \<or> longest < pat_StarIndex pattern then
        go_bind (Pattern_Matches pattern candidate) (\<lambda>m.
          if m then FindBest_loop getPattern candidate value (pat_StarIndex pattern) vs
          else FindBest_loop getPattern candidate best longest vs)
      else FindBest_loop getPattern candidate best longest vs)"

definition FindBestPatternMatch :: "'a \<Rightarrow> 'a list \<Rightarrow> ('a \<Rightarrow> Pattern) \<Rightarrow> string \<Rightarrow> 'a go" where
  "FindBestPatternMatch zero vs getPattern candidate = FindBest_loop getPattern candidate zero (-1) vs"

section \<open>Parsing\<close>

abbreviation star :: char where "star \<equiv> CHR ''*''"

lemma find_sub_single: "find_sub s [c] = find_byte c s"
  by (induction s) (auto simp: HasPrefix_def)

lemma parse_exact: "star \<notin> set s \<Longrightarrow> TryParsePattern s = \<lparr>pat_Text = s, pat_StarIndex = -1\<rparr>"
  by (simp add: TryParsePattern_def Index_def find_sub_single find_byte_None [THEN iffD2])

lemma parse_star:
  "star \<notin> set pre \<Longrightarrow> star \<notin> set suf \<Longrightarrow>
   TryParsePattern (pre @ star # suf) = \<lparr>pat_Text = pre @ star # suf, pat_StarIndex = int (length pre)\<rparr>"
  by (simp add: TryParsePattern_def Index_def find_sub_single find_byte_append Contains_def
      find_byte_None [THEN iffD2] nat_add_distrib)

lemma parse_two_stars:
  "star \<notin> set pre \<Longrightarrow> star \<in> set suf \<Longrightarrow>
   TryParsePattern (pre @ star # suf) = \<lparr>pat_Text = [], pat_StarIndex = 0\<rparr>"
  using find_byte_None [of star suf]
  by (simp add: TryParsePattern_def Index_def find_sub_single find_byte_append Contains_def nat_add_distrib)

section \<open>Matching\<close>

lemma matches_star:
  assumes "star \<notin> set pre" and "star \<notin> set suf"
  shows "Pattern_Matches (TryParsePattern (pre @ star # suf)) c = Inr (HasPrefix c pre \<and> HasSuffix c suf)"
proof -
  have "HasPrefix c pre \<Longrightarrow> length pre \<le> length c" by (auto simp: HasPrefix_iff)
  then show ?thesis
    by (auto simp: parse_star [OF assms] Pattern_Matches_def go_slice_def nat_add_distrib)
qed

lemma matched_text_star:
  assumes "star \<notin> set pre" and "star \<notin> set suf" and "HasPrefix c pre" and "HasSuffix c suf"
  shows "Pattern_MatchedText (TryParsePattern (pre @ star # suf)) c =
    (if length pre + length suf \<le> length c
     then Inr (take (length c - length suf - length pre) (drop (length pre) c))
     else Inl SliceOutOfRange)"
proof -
  have n: "nat (int (length c) - int (length suf)) - length pre = length c - length suf - length pre" by arith
  show ?thesis
    using assms matches_star [OF assms(1,2), of c]
    by (auto simp: Pattern_MatchedText_def parse_star [OF assms(1,2)] go_slice_def n)
qed

lemma star_decomposition:
  "length pre + length suf \<le> length c \<Longrightarrow> HasPrefix c pre \<Longrightarrow> HasSuffix c suf \<Longrightarrow>
   c = pre @ take (length c - length suf - length pre) (drop (length pre) c) @ suf"
proof -
  assume len: "length pre + length suf \<le> length c" and p: "HasPrefix c pre" and s: "HasSuffix c suf"
  from p obtain t where t: "c = pre @ t" by (auto simp: HasPrefix_iff)
  with len have "length suf \<le> length t" by simp
  moreover from s t len have "drop (length t - length suf) t = suf"
    by (simp add: HasSuffix_def)
  ultimately have "t = take (length t - length suf) t @ suf" by (metis append_take_drop_id)
  then show ?thesis using t by simp
qed

section \<open>The best match\<close>

text \<open>
  Among wildcard patterns the loop keeps the first value with the longest prefix before the star.
\<close>

definition wildcard :: "Pattern \<Rightarrow> bool" where
  "wildcard p = (0 \<le> pat_StarIndex p \<and> pat_StarIndex p < int (length (pat_Text p)))"

lemma wildcard_Matches: "wildcard p \<Longrightarrow> \<exists>b. Pattern_Matches p c = Inr b"
  by (auto simp: wildcard_def Pattern_Matches_def go_slice_def)

lemma FindBest_loop_spec:
  assumes "\<forall>v \<in> set vs. wildcard (getPattern v)" and "-1 \<le> longest"
  shows "\<exists>r. FindBest_loop getPattern c best longest vs = Inr r \<and>
    (if \<forall>v \<in> set vs. Pattern_Matches (getPattern v) c = Inr True \<longrightarrow> pat_StarIndex (getPattern v) \<le> longest
     then r = best
     else r \<in> set vs \<and> Pattern_Matches (getPattern r) c = Inr True \<and>
       longest < pat_StarIndex (getPattern r) \<and>
       (\<forall>v \<in> set vs. Pattern_Matches (getPattern v) c = Inr True \<longrightarrow>
          pat_StarIndex (getPattern v) \<le> pat_StarIndex (getPattern r)))"
  using assms
proof (induction vs arbitrary: best longest)
  case (Cons v vs)
  have w: "wildcard (getPattern v)" "\<forall>v \<in> set vs. wildcard (getPattern v)" using Cons.prems by auto
  obtain b where b: "Pattern_Matches (getPattern v) c = Inr b" using wildcard_Matches [OF w(1)] by blast
  have ne: "pat_StarIndex (getPattern v) \<noteq> -1" using w(1) by (simp add: wildcard_def)
  show ?case
  proof (cases "longest < pat_StarIndex (getPattern v) \<and> b")
    case True
    have "-1 \<le> pat_StarIndex (getPattern v)" using w(1) by (simp add: wildcard_def)
    from Cons.IH [OF w(2) this, of v] True b show ?thesis
      by (auto simp: Let_def split: if_splits)
  next
    case False
    from Cons.IH [OF w(2) Cons.prems(2), of best] False b ne show ?thesis
      by (auto simp: Let_def split: if_splits)
  qed
qed simp

section \<open>Properties\<close>

text \<open>C24. What \<open>MatchedText\<close> does on every string its pattern \<open>pre*suf\<close> matches: the text between, where
  prefix and suffix fit side by side, and a slice panic where they overlap, because \<open>Matches\<close> does not
  ask that they fit.\<close>

theorem MatchedText_characterized:
  assumes "star \<notin> set pre" and "star \<notin> set suf" and "Pattern_Matches (TryParsePattern (pre @ star # suf)) c = Inr True"
  shows "if length pre + length suf \<le> length c
    then (\<exists>t. c = pre @ t @ suf \<and> Pattern_MatchedText (TryParsePattern (pre @ star # suf)) c = Inr t)
    else Pattern_MatchedText (TryParsePattern (pre @ star # suf)) c = Inl SliceOutOfRange"
proof -
  have p: "HasPrefix c pre" "HasSuffix c suf" using assms(3) matches_star [OF assms(1,2)] by auto
  show ?thesis
    using matched_text_star [OF assms(1,2) p] star_decomposition [OF _ p] by auto
qed

lemma MatchedText_characterized_witness:
  "Pattern_MatchedText (TryParsePattern ''ab*ba'') ''aba'' = Inl SliceOutOfRange"
proof -
  have m: "star \<notin> set ''ab''" "star \<notin> set ''ba''" "Pattern_Matches (TryParsePattern (''ab'' @ star # ''ba'')) ''aba'' = Inr True"
    by code_simp+
  from MatchedText_characterized [OF m] show ?thesis by simp
qed

text \<open>C38. Among wildcard patterns \<open>FindBestPatternMatch\<close> never panics and returns a matching value whose
  prefix before the star is longest, or the default when none matches.\<close>

theorem FindBestPatternMatch_longest:
  assumes "\<forall>v \<in> set vs. wildcard (getPattern v)"
  shows "\<exists>r. FindBestPatternMatch zero vs getPattern c = Inr r \<and>
    (if \<exists>v \<in> set vs. Pattern_Matches (getPattern v) c = Inr True
     then r \<in> set vs \<and> Pattern_Matches (getPattern r) c = Inr True \<and>
       (\<forall>v \<in> set vs. Pattern_Matches (getPattern v) c = Inr True \<longrightarrow>
          pat_StarIndex (getPattern v) \<le> pat_StarIndex (getPattern r))
     else r = zero)"
proof -
  have none: "(\<forall>v \<in> set vs. Pattern_Matches (getPattern v) c = Inr True \<longrightarrow> pat_StarIndex (getPattern v) \<le> -1) \<longleftrightarrow>
      \<not> (\<exists>v \<in> set vs. Pattern_Matches (getPattern v) c = Inr True)"
    using assms by (fastforce simp: wildcard_def)
  obtain r where r: "FindBestPatternMatch zero vs getPattern c = Inr r"
    "if \<not> (\<exists>v \<in> set vs. Pattern_Matches (getPattern v) c = Inr True) then r = zero
     else r \<in> set vs \<and> Pattern_Matches (getPattern r) c = Inr True \<and> -1 < pat_StarIndex (getPattern r) \<and>
       (\<forall>v \<in> set vs. Pattern_Matches (getPattern v) c = Inr True \<longrightarrow>
          pat_StarIndex (getPattern v) \<le> pat_StarIndex (getPattern r))"
    using FindBest_loop_spec [OF assms, of "-1" c zero] unfolding FindBestPatternMatch_def none by auto
  then show ?thesis by (intro exI [of _ r]) (simp split: if_splits)
qed

lemma FindBestPatternMatch_longest_witness:
  "\<exists>r. FindBestPatternMatch \<lparr>pat_Text = [], pat_StarIndex = -1\<rparr>
     [TryParsePattern ''*'', TryParsePattern ''ab/*''] id ''ab/c'' = Inr r"
proof -
  have "\<forall>v \<in> set [TryParsePattern ''*'', TryParsePattern ''ab/*'']. wildcard (id v)" by code_simp
  from FindBestPatternMatch_longest [OF this] show ?thesis by blast
qed

end
