(* ===== verification/Tspath.thy ===== *)
theory Tspath
  imports Stringutil
begin

text \<open>
  Paths (\<open>internal/tspath/path.go\<close>), first part: roots, combination, components and their reduction,
  directory and base names, ancestors. A path is a byte string with \<open>/\<close> as separator; a root is the
  prefix \<open>/\<close>, \<open>//server/\<close>, \<open>c:/\<close> or a URL's scheme and authority. Byte reads and slices are written
  with \<open>!\<close>, \<open>take\<close> and \<open>drop\<close>; the guards in front of them keep every offset inside the string, which
  the bounds lemmas on root lengths state.
\<close>

abbreviation slash :: char where "slash \<equiv> CHR ''/''"
abbreviation backslash :: char where "backslash \<equiv> CHR 0x5C"
abbreviation colon :: char where "colon \<equiv> CHR '':''"

section \<open>Roots\<close>

definition isAnyDirectorySeparator :: "char \<Rightarrow> bool" where
  "isAnyDirectorySeparator c = (c = slash \<or> c = backslash)"

definition IsVolumeCharacter :: "char \<Rightarrow> bool" where
  "IsVolumeCharacter c = (c \<ge> CHR ''a'' \<and> c \<le> CHR ''z'' \<or> c \<ge> CHR ''A'' \<and> c \<le> CHR ''Z'')"

definition getFileUrlVolumeSeparatorEnd :: "string \<Rightarrow> nat \<Rightarrow> int" where
  "getFileUrlVolumeSeparatorEnd url start =
     (if length url \<le> start then -1
      else if url ! start = colon then int start + 1
      else if url ! start = CHR ''%'' \<and> start + 2 < length url \<and> url ! (start + 1) = CHR ''3'' \<and>
              (url ! (start + 2) = CHR ''a'' \<or> url ! (start + 2) = CHR ''A'')
      then int start + 3 else -1)"

text \<open>
  A URL's root is returned complemented (\<open>^n\<close>, that is \<open>-n - 1\<close>), so that its sign tells it apart
  from a disk root. \<open>url_root\<close> is the last part of \<open>GetEncodedRootLength\<close>.
\<close>

definition url_root :: "string \<Rightarrow> int" where
  "url_root path =
     (let ln = int (length path);
          schemeEnd = Index path ''://''
      in if schemeEnd \<noteq> -1 then
           (let authorityStart = schemeEnd + 3;
                authorityLength = Index (drop (nat authorityStart) path) ''/''
            in if authorityLength \<noteq> -1 then
                 (let authorityEnd = authorityStart + authorityLength;
                      scheme = take (nat schemeEnd) path;
                      authority = take (nat authorityLength) (drop (nat authorityStart) path);
                      volumeSeparatorEnd = getFileUrlVolumeSeparatorEnd path (nat (authorityEnd + 2))
                  in if scheme = ''file'' \<and> (authority = [] \<or> authority = ''localhost'') \<and>
                        authorityEnd + 2 < ln \<and> IsVolumeCharacter (path ! nat (authorityEnd + 1)) \<and>
                        volumeSeparatorEnd \<noteq> -1 \<and>
                        (volumeSeparatorEnd = ln \<or> path ! nat volumeSeparatorEnd = slash)
                     then (if volumeSeparatorEnd = ln then - volumeSeparatorEnd - 1
                           else - (volumeSeparatorEnd + 1) - 1)
                     else - (authorityEnd + 1) - 1)
               else - ln - 1)
         else 0)"

definition GetEncodedRootLength :: "string \<Rightarrow> int" where
  "GetEncodedRootLength path =
     (let ln = int (length path) in
      if ln = 0 then 0
      else (let ch0 = path ! 0 in
        if ch0 = slash \<or> ch0 = backslash then
          (if ln = 1 \<or> path ! 1 \<noteq> ch0 then 1
           else (let p1 = IndexByte (drop 2 path) ch0 in if p1 < 0 then ln else p1 + 2 + 1))
        else if IsVolumeCharacter ch0 \<and> 1 < ln \<and> path ! 1 = colon \<and> ln = 2 then 2
        else if IsVolumeCharacter ch0 \<and> 1 < ln \<and> path ! 1 = colon \<and> (path ! 2 = slash \<or> path ! 2 = backslash)
        then 3
        else url_root path))"

definition GetRootLength :: "string \<Rightarrow> nat" where
  "GetRootLength path =
     (let rootLength = GetEncodedRootLength path in
      nat (if rootLength < 0 then - rootLength - 1 else rootLength))"

definition IsUrl :: "string \<Rightarrow> bool" where
  "IsUrl path = (GetEncodedRootLength path < 0)"

definition IsRootedDiskPath :: "string \<Rightarrow> bool" where
  "IsRootedDiskPath path = (0 < GetEncodedRootLength path)"

definition IsDiskPathRoot :: "string \<Rightarrow> bool" where
  "IsDiskPathRoot path =
     (let rootLength = GetEncodedRootLength path in 0 < rootLength \<and> rootLength = int (length path))"

definition PathIsAbsolute :: "string \<Rightarrow> bool" where
  "PathIsAbsolute path = (GetEncodedRootLength path \<noteq> 0)"

section \<open>Separators\<close>

definition HasTrailingDirectorySeparator :: "string \<Rightarrow> bool" where
  "HasTrailingDirectorySeparator path =
     (0 < length path \<and> isAnyDirectorySeparator (path ! (length path - 1)))"

definition RemoveTrailingDirectorySeparator :: "string \<Rightarrow> string" where
  "RemoveTrailingDirectorySeparator path =
     (if HasTrailingDirectorySeparator path then take (length path - 1) path else path)"

function RemoveTrailingDirectorySeparators :: "string \<Rightarrow> string" where
  "RemoveTrailingDirectorySeparators path =
     (if HasTrailingDirectorySeparator path
      then RemoveTrailingDirectorySeparators (RemoveTrailingDirectorySeparator path) else path)"
  by pat_completeness auto
termination
  by (relation "measure length")
    (auto simp: RemoveTrailingDirectorySeparator_def HasTrailingDirectorySeparator_def)

declare RemoveTrailingDirectorySeparators.simps [simp del]

definition EnsureTrailingDirectorySeparator :: "string \<Rightarrow> string" where
  "EnsureTrailingDirectorySeparator path =
     (if \<not> HasTrailingDirectorySeparator path then path @ [slash] else path)"

definition NormalizeSlashes :: "string \<Rightarrow> string" where
  "NormalizeSlashes path = ReplaceAll path [backslash] [slash]"

section \<open>Combining paths and taking them apart\<close>

text \<open>
  \<open>CombinePaths\<close> writes to a builder and remembers where the current result starts; the result is
  what the builder holds from there on.
\<close>

fun combine_loop :: "string \<Rightarrow> string list \<Rightarrow> string" where
  "combine_loop result [] = result"
| "combine_loop result (trailing # paths) =
     (if trailing = [] then combine_loop result paths
      else (let trailingPath = NormalizeSlashes trailing in
        if result = [] \<or> GetRootLength trailingPath \<noteq> 0 then combine_loop trailingPath paths
        else combine_loop
          ((if \<not> HasTrailingDirectorySeparator result then result @ [slash] else result) @ trailingPath) paths))"

definition CombinePaths :: "string \<Rightarrow> string list \<Rightarrow> string" where
  "CombinePaths firstPath paths = combine_loop (NormalizeSlashes firstPath) paths"

definition pathComponents :: "string \<Rightarrow> nat \<Rightarrow> string list" where
  "pathComponents path rootLength =
     (let root = take rootLength path;
          rest = Split slash (drop rootLength path);
          rest' = (if 0 < length rest \<and> last rest = [] then butlast rest else rest)
      in root # rest')"

definition GetPathComponents :: "string \<Rightarrow> string \<Rightarrow> string list" where
  "GetPathComponents path currentDirectory =
     (let path' = CombinePaths currentDirectory [path] in pathComponents path' (GetRootLength path'))"

definition GetPathFromPathComponents :: "string list \<Rightarrow> string" where
  "GetPathFromPathComponents components =
     (case components of
        [] \<Rightarrow> []
      | root # rest \<Rightarrow>
          (if root \<noteq> [] then EnsureTrailingDirectorySeparator root else root) @ Join [slash] rest)"

fun reduce_loop :: "string list \<Rightarrow> string list \<Rightarrow> string list" where
  "reduce_loop reduced [] = reduced"
| "reduce_loop reduced (component # rest) =
     (if component = [] then reduce_loop reduced rest
      else if component = ''.'' then reduce_loop reduced rest
      else if component = ''..'' \<and> 1 < length reduced \<and> last reduced \<noteq> ''..''
      then reduce_loop (butlast reduced) rest
      else if component = ''..'' \<and> \<not> 1 < length reduced \<and> hd reduced \<noteq> []
      then reduce_loop reduced rest
      else reduce_loop (reduced @ [component]) rest)"

definition reducePathComponents :: "string list \<Rightarrow> string list" where
  "reducePathComponents components =
     (case components of [] \<Rightarrow> [] | c # rest \<Rightarrow> reduce_loop [c] rest)"

definition GetNormalizedPathComponents :: "string \<Rightarrow> string \<Rightarrow> string list" where
  "GetNormalizedPathComponents path currentDirectory =
     reducePathComponents (GetPathComponents path currentDirectory)"

section \<open>Directory and base names, ancestors\<close>

definition GetDirectoryPath :: "string \<Rightarrow> string" where
  "GetDirectoryPath path0 =
     (let path = NormalizeSlashes path0;
          rootLength = GetRootLength path
      in if rootLength = length path then path
         else (let path' = RemoveTrailingDirectorySeparator path
               in take (nat (max (int rootLength) (LastIndexByte path' slash))) path'))"

definition GetBaseFileName :: "string \<Rightarrow> string" where
  "GetBaseFileName path0 =
     (let path = NormalizeSlashes path0;
          rootLength = GetRootLength path
      in if rootLength = length path then []
         else (let path' = RemoveTrailingDirectorySeparator path
               in drop (nat (max (int (GetRootLength path')) (LastIndexByte path' slash + 1))) path'))"

definition PathIsRelative :: "string \<Rightarrow> bool" where
  "PathIsRelative path =
     (path = ''.'' \<or> path = ''..'' \<or>
      (2 \<le> length path \<and> path ! 0 = CHR ''.'' \<and> (path ! 1 = slash \<or> path ! 1 = backslash)) \<or>
      (3 \<le> length path \<and> path ! 0 = CHR ''.'' \<and> path ! 1 = CHR ''.'' \<and>
       (path ! 2 = slash \<or> path ! 2 = backslash)))"

definition IsExternalModuleNameRelative :: "string \<Rightarrow> bool" where
  "IsExternalModuleNameRelative moduleName = (PathIsRelative moduleName \<or> IsRootedDiskPath moduleName)"

text \<open>Case: \<open>lower\<close> is the Unicode lower-case table above ASCII.\<close>

definition ToFileNameLowerCase :: "(nat \<Rightarrow> nat) \<Rightarrow> string \<Rightarrow> string" where
  "ToFileNameLowerCase lower fileName =
     strings_Map (\<lambda>r. if r = 0x130 then r else unicode_ToLower lower r) fileName"

definition GetCanonicalFileName :: "(nat \<Rightarrow> nat) \<Rightarrow> string \<Rightarrow> bool \<Rightarrow> string" where
  "GetCanonicalFileName lower fileName useCaseSensitiveFileNames =
     (if useCaseSensitiveFileNames then fileName else ToFileNameLowerCase lower fileName)"

section \<open>Facts about separators\<close>

lemma HasTrailing_snoc [simp]: "HasTrailingDirectorySeparator (s @ [c]) = isAnyDirectorySeparator c"
  by (simp add: HasTrailingDirectorySeparator_def)

lemma HasTrailing_Nil [simp]: "\<not> HasTrailingDirectorySeparator []"
  by (simp add: HasTrailingDirectorySeparator_def)

lemma HasTrailing_iff: "HasTrailingDirectorySeparator s \<longleftrightarrow> s \<noteq> [] \<and> isAnyDirectorySeparator (last s)"
  by (auto simp: HasTrailingDirectorySeparator_def last_conv_nth)

lemma HasTrailing_append [simp]:
  "t \<noteq> [] \<Longrightarrow> HasTrailingDirectorySeparator (s @ t) = HasTrailingDirectorySeparator t"
  by (simp add: HasTrailing_iff)

lemma RemoveTrailing_snoc: "isAnyDirectorySeparator c \<Longrightarrow> RemoveTrailingDirectorySeparator (s @ [c]) = s"
  by (simp add: RemoveTrailingDirectorySeparator_def)

lemma RemoveTrailing_butlast:
  "RemoveTrailingDirectorySeparator s = (if HasTrailingDirectorySeparator s then butlast s else s)"
  by (simp add: RemoveTrailingDirectorySeparator_def butlast_conv_take)

lemma NormalizeSlashes_map: "NormalizeSlashes s = map (\<lambda>c. if c = backslash then slash else c) s"
proof (induction s)
  case (Cons c s)
  then show ?case
    unfolding NormalizeSlashes_def by (subst ReplaceAll.simps) (auto simp: HasPrefix_def)
qed (simp add: NormalizeSlashes_def ReplaceAll.simps)

lemma NormalizeSlashes_no_backslash [simp]: "backslash \<notin> set (NormalizeSlashes s)"
  by (auto simp: NormalizeSlashes_map)

lemma NormalizeSlashes_id [simp]: "backslash \<notin> set s \<Longrightarrow> NormalizeSlashes s = s"
  by (auto simp: NormalizeSlashes_map intro: map_idI)

lemma NormalizeSlashes_idem [simp]: "NormalizeSlashes (NormalizeSlashes s) = NormalizeSlashes s"
  by simp

lemma length_NormalizeSlashes [simp]: "length (NormalizeSlashes s) = length s"
  by (simp add: NormalizeSlashes_map)

lemma NormalizeSlashes_Nil [simp]: "NormalizeSlashes [] = []" "NormalizeSlashes s = [] \<longleftrightarrow> s = []"
  by (simp_all add: NormalizeSlashes_map)

section \<open>Facts about roots\<close>

lemma Index_Some:
  assumes "Index s p \<noteq> -1"
  obtains i where "Index s p = int i" and "i + length p \<le> length s" and "HasPrefix (drop i s) p"
proof -
  from assms obtain i where i: "find_sub s p = Some i" by (auto simp: Index_def split: option.splits)
  then have h: "i \<le> length s" "HasPrefix (drop i s) p" using find_sub_Some by blast+
  from h(2) obtain t where "drop i s = p @ t" by (auto simp: HasPrefix_iff)
  then have "length p \<le> length (drop i s)" by simp
  with h i that show ?thesis by (simp add: Index_def)
qed

lemma HasPrefix_nth: "HasPrefix (drop i s) p \<Longrightarrow> k < length p \<Longrightarrow> i + k < length s \<Longrightarrow> s ! (i + k) = p ! k"
  by (auto simp: HasPrefix_def) (metis nth_drop nth_take less_imp_le_nat add_leD1)

lemma getFileUrlVolumeSeparatorEnd_le:
  "getFileUrlVolumeSeparatorEnd url start = -1 \<or>
   0 < getFileUrlVolumeSeparatorEnd url start \<and> getFileUrlVolumeSeparatorEnd url start \<le> int (length url)"
  by (auto simp: getFileUrlVolumeSeparatorEnd_def)

lemma IndexByte_cases:
  "IndexByte s c = -1 \<or> (\<exists>i. IndexByte s c = int i \<and> i < length s \<and> s ! i = c)"
  by (auto simp: IndexByte_def find_byte_Some split: option.splits)

definition root_ok :: "string \<Rightarrow> int \<Rightarrow> bool" where
  "root_ok p r = (0 \<le> r \<and> r \<le> int (length p) \<and> (0 < r \<longrightarrow> r = int (length p) \<or> isAnyDirectorySeparator (p ! nat (r - 1))))"

lemma url_root_cases:
  "Index p ''://'' = -1 \<and> url_root p = 0 \<or>
   Index p ''://'' \<noteq> -1 \<and> url_root p < -1 \<and> root_ok p (- url_root p - 1)"
proof (cases "Index p ''://'' = -1")
  case False
  then obtain e where e: "Index p ''://'' = int e" "e + 3 \<le> length p"
    by (rule Index_Some) simp
  show ?thesis
  proof (cases "Index (drop (e + 3) p) ''/'' = -1")
    case True
    have *: "nat (int e + 3) = e + 3" by simp
    have "p \<noteq> []" using e(2) by auto
    with True show ?thesis by (simp add: url_root_def e(1) Let_def root_ok_def *)
  next
    case False
    then obtain k where k: "Index (drop (e + 3) p) ''/'' = int k" "k + 1 \<le> length (drop (e + 3) p)"
      "HasPrefix (drop k (drop (e + 3) p)) ''/''"
      by (rule Index_Some) simp
    have lt: "e + 3 + k < length p" using e k(2) by simp
    have sl: "p ! (e + 3 + k) = slash"
      using HasPrefix_nth [of "e + 3 + k" p "''/''" 0] k(3) lt by (simp add: add.commute)
    define v where "v = getFileUrlVolumeSeparatorEnd p (e + 3 + k + 2)"
    have v: "v = -1 \<or> 0 < v \<and> v \<le> int (length p)"
      unfolding v_def by (rule getFileUrlVolumeSeparatorEnd_le)
    have *: "nat (int e + 3) = e + 3" "nat (int e + 3 + int k + 2) = e + 3 + k + 2"
      "nat (int e + 3 + int k) = e + 3 + k" by simp_all
    have eq: "url_root p =
        (if take e p = ''file'' \<and> (take k (drop (e + 3) p) = [] \<or> take k (drop (e + 3) p) = ''localhost'') \<and>
            int e + 3 + int k + 2 < int (length p) \<and> IsVolumeCharacter (p ! nat (int e + 3 + int k + 1)) \<and>
            v \<noteq> -1 \<and> (v = int (length p) \<or> p ! nat v = slash)
         then (if v = int (length p) then - v - 1 else - (v + 1) - 1)
         else - (int e + 3 + int k + 1) - 1)"
      unfolding url_root_def Let_def e(1) * k(1) v_def nat_int by simp
    have "url_root p = - (int (e + 3 + k) + 1) - 1 \<or>
          v = int (length p) \<and> url_root p = - v - 1 \<or>
          v \<noteq> -1 \<and> v \<noteq> int (length p) \<and> p ! nat v = slash \<and> url_root p = - (v + 1) - 1"
      unfolding eq by (simp split: if_splits)
    moreover have "root_ok p (int (e + 3 + k) + 1)"
      using lt sl by (simp add: root_ok_def isAnyDirectorySeparator_def nat_add_distrib ac_simps)
    ultimately show ?thesis
      using v e(1) by (auto simp: root_ok_def isAnyDirectorySeparator_def)
  qed
qed (simp add: url_root_def)

lemma url_root_ok: "url_root p \<le> 0 \<and> (url_root p \<noteq> 0 \<longrightarrow> root_ok p (- url_root p - 1))"
  using url_root_cases [of p] by auto

lemma encoded_root_ok:
  "GetEncodedRootLength p < 0 \<Longrightarrow> root_ok p (- GetEncodedRootLength p - 1)"
  "0 \<le> GetEncodedRootLength p \<Longrightarrow> root_ok p (GetEncodedRootLength p)"
proof -
  have len2: "t \<noteq> [] \<Longrightarrow> length t \<noteq> Suc 0 \<Longrightarrow> Suc (Suc 0) \<le> length t" for t :: string
    by (cases t) (auto simp: Suc_le_eq)
  have nat2: "nat (2 + int i) = Suc (Suc i)" for i by simp
  show "GetEncodedRootLength p < 0 \<Longrightarrow> root_ok p (- GetEncodedRootLength p - 1)"
    using url_root_ok [of p] by (auto simp: GetEncodedRootLength_def Let_def split: if_splits)
  assume pos: "0 \<le> GetEncodedRootLength p"
  show "root_ok p (GetEncodedRootLength p)"
  proof (cases p)
    case (Cons c t)
    show ?thesis
    proof (cases "c = slash \<or> c = backslash")
      case True
      then show ?thesis
        using IndexByte_cases [of "drop 2 p" c] Cons nat2
        by (auto simp: GetEncodedRootLength_def root_ok_def isAnyDirectorySeparator_def Let_def)
    next
      case False
      then show ?thesis
        using url_root_ok [of p] pos Cons
        by (auto simp: GetEncodedRootLength_def root_ok_def isAnyDirectorySeparator_def Let_def
              numeral_2_eq_2 split: if_splits dest: len2)
    qed
  qed (simp add: GetEncodedRootLength_def root_ok_def)
qed

lemma GetRootLength_le [simp]: "GetRootLength p \<le> length p"
  using encoded_root_ok [of p] by (cases "GetEncodedRootLength p < 0") (auto simp: GetRootLength_def root_ok_def Let_def)

lemma GetRootLength_sep:
  "0 < GetRootLength p \<Longrightarrow> GetRootLength p < length p \<Longrightarrow> isAnyDirectorySeparator (p ! (GetRootLength p - 1))"
proof (cases "GetEncodedRootLength p < 0")
  case True
  assume "0 < GetRootLength p" "GetRootLength p < length p"
  moreover have "nat (- GetEncodedRootLength p - 1) - 1 = nat (- GetEncodedRootLength p - 1 - 1)" by simp
  ultimately show ?thesis
    using encoded_root_ok(1) [OF True] True by (auto simp: GetRootLength_def root_ok_def Let_def)
next
  case False
  assume "0 < GetRootLength p" "GetRootLength p < length p"
  moreover have "nat (GetEncodedRootLength p) - 1 = nat (GetEncodedRootLength p - 1)" by simp
  ultimately show ?thesis
    using encoded_root_ok(2) [of p] False by (auto simp: GetRootLength_def root_ok_def Let_def)
qed

lemma url_root_zero: "url_root p = 0 \<longleftrightarrow> \<not> Contains p ''://''"
  using url_root_cases [of p] by (auto simp: Contains_def Index_def split: option.splits)

lemma GetRootLength_zero_iff: "GetRootLength p = 0 \<longleftrightarrow> GetEncodedRootLength p = 0"
proof -
  have "url_root p = 0 \<or> url_root p < -1" using url_root_cases [of p] by blast
  then have "GetEncodedRootLength p < -1 \<or> 0 \<le> GetEncodedRootLength p"
    unfolding GetEncodedRootLength_def Let_def by auto
  then show ?thesis by (auto simp: GetRootLength_def)
qed

lemma Contains_NormalizeSlashes: "Contains p ''://'' \<Longrightarrow> Contains (NormalizeSlashes p) ''://''"
  unfolding Contains_iff NormalizeSlashes_map
  by (elim exE) (simp, metis (no_types, lifting) append_Cons append_Nil)

lemma encoded_root_zero_iff:
  "GetEncodedRootLength (c # t) = 0 \<longleftrightarrow>
     \<not> isAnyDirectorySeparator c \<and>
     \<not> (IsVolumeCharacter c \<and> t \<noteq> [] \<and> t ! 0 = colon \<and> (length t = 1 \<or> isAnyDirectorySeparator (t ! 1))) \<and>
     \<not> Contains (c # t) ''://''"
proof (cases "c = slash \<or> c = backslash")
  case True
  then show ?thesis
    using IndexByte_cases [of "drop 2 (c # t)" c]
    by (auto simp: GetEncodedRootLength_def isAnyDirectorySeparator_def Let_def)
next
  case False
  then show ?thesis
    by (auto simp: GetEncodedRootLength_def isAnyDirectorySeparator_def Let_def url_root_zero numeral_2_eq_2)
qed

lemma GetRootLength_NormalizeSlashes:
  assumes "GetRootLength (NormalizeSlashes p) = 0"
  shows "GetRootLength p = 0"
proof (cases p)
  case (Cons c t)
  define n where "n = (\<lambda>c. if c = backslash then slash else c)"
  have nsl: "NormalizeSlashes p = n c # map n t" by (simp add: Cons NormalizeSlashes_map n_def)
  have n: "isAnyDirectorySeparator (n x) = isAnyDirectorySeparator x" for x
    by (simp add: n_def isAnyDirectorySeparator_def)
  have n': "x \<noteq> backslash \<Longrightarrow> n x = x" for x by (simp add: n_def)
  have "\<not> Contains p ''://''"
    using assms Contains_NormalizeSlashes [of p] unfolding nsl GetRootLength_zero_iff encoded_root_zero_iff by blast
  moreover have "\<not> (IsVolumeCharacter c \<and> t \<noteq> [] \<and> t ! 0 = colon \<and> (length t = 1 \<or> isAnyDirectorySeparator (t ! 1)))"
  proof
    assume v: "IsVolumeCharacter c \<and> t \<noteq> [] \<and> t ! 0 = colon \<and> (length t = 1 \<or> isAnyDirectorySeparator (t ! 1))"
    then have "c \<noteq> backslash" by (auto simp: IsVolumeCharacter_def)
    with v n' have "n c = c" "map n t ! 0 = colon" by auto
    moreover have "length t = 1 \<or> 1 < length t" using v by (cases t) auto
    ultimately show False
      using assms v n unfolding nsl GetRootLength_zero_iff encoded_root_zero_iff by auto
  qed
  moreover have "\<not> isAnyDirectorySeparator c"
    using assms n unfolding nsl GetRootLength_zero_iff encoded_root_zero_iff by blast
  ultimately show ?thesis
    unfolding GetRootLength_zero_iff Cons encoded_root_zero_iff by blast
qed (use assms in simp)

lemma root_zero_head:
  assumes "GetRootLength p = 0"
  shows "\<not> HasPrefix p ''/''"
  using assms unfolding GetRootLength_zero_iff
  by (cases p) (auto simp: encoded_root_zero_iff isAnyDirectorySeparator_def)

text \<open>Without an empty segment a path has no URL and no UNC root.\<close>

lemma root_without_double_slash:
  assumes "\<not> Contains p ''//''" "backslash \<notin> set p" "0 < GetRootLength p" "GetRootLength p < length p"
  shows "GetRootLength p = 1 \<and> p ! 0 = slash \<or>
         GetRootLength p = 3 \<and> IsVolumeCharacter (p ! 0) \<and> p ! 1 = colon \<and> p ! 2 = slash"
proof -
  have "\<not> Contains p ''://''"
    using assms(1) unfolding Contains_iff by (metis append.assoc append_Cons append_Nil)
  then have u: "url_root p = 0" by (simp add: url_root_zero)
  obtain c t where p: "p = c # t" using assms(3,4) by (cases p) auto
  have "\<not> (c = slash \<and> t \<noteq> [] \<and> t ! 0 = slash)"
    using assms(1) unfolding Contains_iff p by (metis append_Cons append_Nil neq_Nil_conv nth_Cons_0)
  moreover have "c \<noteq> backslash" using assms(2) p by auto
  moreover have "t ! 1 \<noteq> backslash" if "1 < length t" using assms(2) p that nth_mem by fastforce
  ultimately show ?thesis
    using u assms(3,4) unfolding p
    by (auto simp: GetRootLength_def GetEncodedRootLength_def Let_def numeral_2_eq_2 split: if_splits)
qed

end
