(* ===== verification/Tspath_Scan.thy ===== *)
theory Tspath_Scan
  imports Tspath_Normalize
begin

text \<open>
  The scan of \<open>GetNormalizedAbsolutePath\<close> keeps the following invariant: what it has produced so far
  (the rewritten prefix once \<open>changed\<close> is set, the prefix of the input up to \<open>normalizedUpTo\<close> before)
  is the root followed by the reduction of the components seen so far. The section on the loop
  carries the invariant through slashes, \<open>.\<close>, \<open>..\<close> and ordinary segments.
\<close>

section \<open>Reduction as a fold\<close>

definition reduce_one :: "string \<Rightarrow> string list \<Rightarrow> string \<Rightarrow> string list" where
  "reduce_one root R s =
     (if s = [] \<or> s = ''.'' then R
      else if s = ''..'' \<and> R \<noteq> [] \<and> last R \<noteq> ''..'' then butlast R
      else if s = ''..'' \<and> R = [] \<and> root \<noteq> [] then R
      else R @ [s])"

lemma reduce_loop_fold: "reduce_loop (root # R) ss = root # foldl (reduce_one root) R ss"
  by (induction ss arbitrary: R) (auto simp: reduce_one_def)

text \<open>What the components of a reduced path (without the root) look like.\<close>

definition reduced_parts :: "string \<Rightarrow> string list \<Rightarrow> bool" where
  "reduced_parts root R =
     ((\<forall>x \<in> set R. x \<noteq> [] \<and> x \<noteq> ''.'' \<and> slash \<notin> set x \<and> backslash \<notin> set x) \<and>
      (root \<noteq> [] \<longrightarrow> ''..'' \<notin> set R))"

lemma reduced_parts_Nil [simp]: "reduced_parts root []"
  by (simp add: reduced_parts_def)

lemma reduced_parts_one:
  "reduced_parts root R \<Longrightarrow> slash \<notin> set s \<Longrightarrow> backslash \<notin> set s \<Longrightarrow> reduced_parts root (reduce_one root R s)"
proof -
  assume R: "reduced_parts root R" and s: "slash \<notin> set s" "backslash \<notin> set s"
  have b: "reduced_parts root (butlast R)" using R unfolding reduced_parts_def by (meson in_set_butlastD)
  have l: "last R = ''..'' \<Longrightarrow> R \<noteq> [] \<Longrightarrow> root = []"
    using R last_in_set [of R] unfolding reduced_parts_def by metis
  have a: "reduced_parts root (R @ [s])" if "s \<noteq> []" "s \<noteq> ''.''" "s = ''..'' \<longrightarrow> root = []"
    using R s that by (simp add: reduced_parts_def) blast
  have "reduce_one root R s = R \<or> reduce_one root R s = butlast R \<or>
        reduce_one root R s = R @ [s] \<and> s \<noteq> [] \<and> s \<noteq> ''.'' \<and> (s = ''..'' \<longrightarrow> root = [])"
  proof (cases "s = ''..''")
    case True
    then show ?thesis
      using l by (cases "R = []"; cases "last R = ''..''"; cases "root = []") (simp_all add: reduce_one_def)
  qed (simp add: reduce_one_def)
  then show ?thesis using R b a by auto
qed

lemma reduced_parts_last:
  "reduced_parts root R \<Longrightarrow> R \<noteq> [] \<Longrightarrow> last R \<noteq> [] \<and> slash \<notin> set (last R) \<and> (root \<noteq> [] \<longrightarrow> last R \<noteq> ''..'')"
  unfolding reduced_parts_def by (metis last_in_set)

section \<open>The last separator\<close>

lemma HasSuffix_sep:
  assumes "slash \<notin> set x"
  shows "HasSuffix (a @ slash # x) ''/..'' \<longleftrightarrow> x = ''..''"
proof
  assume "HasSuffix (a @ slash # x) ''/..''"
  then obtain t where t: "a @ slash # x = t @ slash # ''..''" by (auto simp: HasSuffix_iff)
  have "LastIndexByte (a @ slash # x) slash = LastIndexByte (t @ slash # ''..'') slash" unfolding t ..
  then have "length a = length t" by (subst (asm) (1 2) LastIndexByte_append) (use assms in auto)
  with t show "x = ''..''" by simp
qed (auto simp: HasSuffix_iff)

lemma max_LastIndexByte:
  assumes "root = [] \<or> last root = slash" and "slash \<notin> set y"
  shows "nat (max (int (length root)) (LastIndexByte (root @ y) slash)) = length root"
proof (cases "root = []")
  case False
  then obtain a where "root = a @ [slash]" using assms(1) by (metis append_butlast_last_id)
  then show ?thesis using LastIndexByte_append [OF assms(2), of a] by simp
qed (use assms(2) in \<open>simp add: LastIndexByte_absent\<close>)

lemma pop_position:
  assumes "root = [] \<or> last root = slash" and "slash \<notin> set y"
  shows "nat (max (int (length root)) (LastIndexByte (root @ (if Q = [] then y else Join [slash] Q @ slash # y)) slash))
         = length (root @ Join [slash] Q)"
proof (cases "Q = []")
  case False
  have "LastIndexByte ((root @ Join [slash] Q) @ slash # y) slash = int (length (root @ Join [slash] Q))"
    by (rule LastIndexByte_append) (rule assms(2))
  with False show ?thesis by simp
qed (use assms in \<open>simp add: max_LastIndexByte\<close>)

lemma Join_snoc_if: "Join [slash] (Q @ [x]) = (if Q = [] then x else Join [slash] Q @ slash # x)"
  by (simp add: Join_snoc)

lemma reduced_snocE:
  assumes "reduced_parts root R" "R \<noteq> []"
  obtains Q x where "R = Q @ [x]" "x \<noteq> []" "slash \<notin> set x" "backslash \<notin> set x" "root \<noteq> [] \<longrightarrow> x \<noteq> ''..''"
    "reduced_parts root Q"
proof -
  obtain Q x where "R = Q @ [x]" using assms(2) by (metis append_butlast_last_id)
  with assms(1) that show ?thesis by (auto simp: reduced_parts_def)
qed

lemma seen_in_root:
  assumes "root = [] \<or> last root = slash" "reduced_parts root R"
  shows "seen_in (length root) (root @ Join [slash] R) = (root \<noteq> [] \<or> R \<noteq> [] \<and> last R \<noteq> ''..'')"
proof (cases "R = []")
  case True
  show ?thesis
  proof (cases "root = []")
    case False
    then obtain a where a: "root = a @ slash # []" using assms(1) by (metis append_butlast_last_id)
    have "\<not> HasSuffix (a @ slash # []) ''/..''" by (subst HasSuffix_sep) auto
    moreover have "root \<noteq> ''..''" unfolding a by (cases a rule: rev_cases) auto
    ultimately show ?thesis using True False by (simp add: seen_in_def a)
  qed (simp add: seen_in_def True)
next
  case False
  then obtain Q x where R: "R = Q @ [x]" and x: "x \<noteq> []" "slash \<notin> set x" "root \<noteq> [] \<longrightarrow> x \<noteq> ''..''"
    using assms(2) by (auto elim: reduced_snocE)
  show ?thesis
  proof (cases "root = [] \<and> Q = []")
    case True
    have "\<not> HasSuffix x ''/..''" using x(2) by (auto simp: HasSuffix_iff)
    with True x(1) R show ?thesis by (simp add: seen_in_def)
  next
    case False
    obtain a where a: "root @ Join [slash] R = a @ slash # x"
    proof (cases "Q = []")
      case True
      with False assms(1) obtain b where "root = b @ [slash]" by (metis append_butlast_last_id)
      with True R that [of b] show ?thesis by simp
    qed (use R that in \<open>simp add: Join_snoc\<close>)
    have "slash \<in> set (a @ slash # x)" by simp
    moreover have "slash \<notin> set ''..''" by simp
    ultimately have "a @ slash # x \<noteq> ''..''" by metis
    moreover have "root \<noteq> [] \<or> length (a @ slash # x) \<noteq> length root"
      using False by auto
    ultimately show ?thesis
      unfolding seen_in_def a HasSuffix_sep [OF x(2)] using R x(3) by auto
  qed
qed

section \<open>The invariant of the scan\<close>

definition scan_inv :: "string \<Rightarrow> nat \<Rightarrow> nat \<Rightarrow> norm_state \<Rightarrow> string list \<Rightarrow> bool" where
  "scan_inv f r i st R =
     (r \<le> i \<and> reduced_parts (take r f) R \<and>
      seenNonDotDotSegment st = (r \<noteq> 0 \<or> R \<noteq> [] \<and> last R \<noteq> ''..'') \<and>
      (if changed st then normalized st = take r f @ Join [slash] R
       else take (normalizedUpTo st) f = take r f @ Join [slash] R \<and> normalizedUpTo st \<le> length f \<and>
            (R = [] \<and> i = r \<and> normalizedUpTo st = r \<or>
             R \<noteq> [] \<and> i = normalizedUpTo st + 1 \<and>
             (normalizedUpTo st < length f \<longrightarrow> f ! normalizedUpTo st = slash))))"

definition rooted_at :: "string \<Rightarrow> nat \<Rightarrow> bool" where
  "rooted_at f r = (r < length f \<and> (r = 0 \<or> f ! (r - 1) = slash) \<and> backslash \<notin> set f)"

lemma rooted_at_root: "rooted_at f r \<Longrightarrow> take r f = [] \<or> last (take r f) = slash"
  by (cases r) (auto simp: rooted_at_def last_take_Suc)

lemma scan_inv_index [simp]: "scan_inv f r i (st\<lparr>index := k\<rparr>) R = scan_inv f r i st R"
  by (simp add: scan_inv_def)

lemma scan_inv_changed: "scan_inv f r i st R \<Longrightarrow> changed st \<Longrightarrow> r \<le> j \<Longrightarrow> scan_inv f r j st R"
  by (simp add: scan_inv_def)

lemma scan_inv_taken:
  assumes "scan_inv f r i st R" "\<not> changed st" "i < length f"
  shows "take i f = (take r f @ Join [slash] R) @ (if R = [] then [] else [slash])"
proof (cases "R = []")
  case False
  then have "i = Suc (normalizedUpTo st)" "f ! normalizedUpTo st = slash"
    using assms by (auto simp: scan_inv_def)
  then show ?thesis
    using assms False by (simp add: scan_inv_def take_Suc_conv_app_nth)
qed (use assms in \<open>simp add: scan_inv_def\<close>)

lemma superfluous_inv:
  assumes "scan_inv f r i st R" "i < length f" "r \<le> j"
  shows "changed (superfluous_separator f r i st) \<and> scan_inv f r j (superfluous_separator f r i st) R"
proof (cases "changed st")
  case False
  have "take (max r (i - 1)) f = take r f @ Join [slash] R"
  proof (cases "R = []")
    case False
    then have i: "i - 1 = normalizedUpTo st" and u: "take (normalizedUpTo st) f = take r f @ Join [slash] R"
      using assms(1) \<open>\<not> changed st\<close> by (auto simp: scan_inv_def)
    have "length (take (normalizedUpTo st) f) = r + length (Join [slash] R)"
      unfolding u using assms by (simp add: scan_inv_def)
    then have "r \<le> normalizedUpTo st" by simp
    then show ?thesis unfolding i u [symmetric] by (simp add: max_def)
  qed (use assms(1) False in \<open>simp add: scan_inv_def\<close>)
  then show ?thesis using assms False by (simp add: superfluous_separator_def scan_inv_def)
qed (use assms in \<open>simp add: superfluous_separator_def scan_inv_def\<close>)

lemma dot_inv:
  assumes "scan_inv f r i st R" "r \<le> j"
  shows "changed (dot_segment f st) \<and> scan_inv f r j (dot_segment f st) R"
  using assms by (simp add: dot_segment_def scan_inv_def)

lemma take_append_drop:
  "drop i f = s @ rest \<Longrightarrow> take (i + length s) f = take i f @ s"
  by (simp add: take_add)

lemma segment_boundary:
  assumes "drop i f = s @ rest" "rest = [] \<or> hd rest = slash" "i + length s < length f"
  shows "f ! (i + length s) = slash"
proof -
  have "length (drop i f) = length f - i" by simp
  with assms(1,3) have "rest \<noteq> []" by auto
  then have "drop i f ! length s = slash" using assms(1,2) by (simp add: nth_append hd_conv_nth)
  then show ?thesis using assms(3) by simp
qed

lemma other_inv:
  assumes inv: "scan_inv f r i st R" and i: "i < length f"
    and seg: "drop i f = s @ rest" "rest = [] \<or> hd rest = slash"
    and s: "s \<noteq> []" "s \<noteq> ''.''" "s \<noteq> ''..''" "slash \<notin> set s" "backslash \<notin> set s"
  shows "scan_inv f r (i + length s + 1) (other_segment f r i (i + length s) st) (R @ [s])"
proof -
  have p: "reduced_parts (take r f) (R @ [s])"
    using inv s by (auto simp: scan_inv_def reduced_parts_def)
  have ri: "r \<le> i" using inv by (simp add: scan_inv_def)
  have t: "take (length s) (drop i f) = s" using seg(1) by simp
  have ln: "length s \<le> length f - i" using seg(1) length_drop [of i f] by (metis le_add1 length_append)
  show ?thesis
  proof (cases "changed st")
    case True
    have "length (take r f @ Join [slash] R) \<noteq> r \<longleftrightarrow> R \<noteq> []"
    proof
      assume "R \<noteq> []"
      then obtain Q x where "R = Q @ [x]" "x \<noteq> []" using inv by (auto simp: scan_inv_def elim: reduced_snocE)
      then show "length (take r f @ Join [slash] R) \<noteq> r" using i ri by (simp add: Join_snoc_if)
    qed (use i ri in auto)
    then show ?thesis
      using inv True p t s by (simp add: scan_inv_def other_segment_def Join_snoc_if)
  next
    case False
    have "take (i + length s) f = take r f @ Join [slash] (R @ [s])"
      unfolding take_append_drop [OF seg(1)] scan_inv_taken [OF inv False i] by (simp add: Join_snoc_if)
    moreover have "i + length s < length f \<longrightarrow> f ! (i + length s) = slash"
      using segment_boundary [OF seg] by blast
    ultimately show ?thesis
      using False p s ri ln i by (simp add: scan_inv_def other_segment_def)
  qed
qed

lemma dotdot_unseen:
  assumes "rooted_at f r" "scan_inv f r i st R" "\<not> seenNonDotDotSegment st"
  shows "r = 0" "reduce_one (take r f) R ''..'' = R @ [''..'']"
    "reduced_parts (take r f) (R @ [''..''])"
  using assms by (auto simp: scan_inv_def reduce_one_def reduced_parts_def)

text \<open>Cutting the result so far at its last separator drops its last component.\<close>

lemma pop_prefix:
  assumes rt: "rooted_at f r" and R: "reduced_parts (take r f) R" "r \<noteq> 0 \<or> R \<noteq> []"
    and p: "p = take r f @ Join [slash] R \<or> p = butlast (take r f @ Join [slash] R)"
  shows "nat (max (int r) (LastIndexByte p slash)) = length (take r f @ Join [slash] (butlast R))"
proof (cases "R = []")
  case True
  then have "LastIndexByte p slash < int r"
    using p rt LastIndexByte_bounds [of p slash] by (auto simp: rooted_at_def)
  with True rt show ?thesis by (simp add: rooted_at_def)
next
  case False
  then obtain Q x where Q: "R = Q @ [x]" "x \<noteq> []" "slash \<notin> set x" using R(1) by (auto elim: reduced_snocE)
  have r: "length (take r f) = r" using rt by (simp add: rooted_at_def)
  obtain y where y: "slash \<notin> set y" "p = take r f @ (if Q = [] then y else Join [slash] Q @ slash # y)"
  proof (cases "p = take r f @ Join [slash] R")
    case True
    with that [of x] Q show ?thesis by (simp add: Join_snoc_if)
  next
    case False
    with p have "p = butlast (take r f @ Join [slash] R)" by blast
    then have "p = take r f @ (if Q = [] then butlast x else Join [slash] Q @ slash # butlast x)"
      using Q by (simp add: Join_snoc_if butlast_append)
    with that [of "butlast x"] Q(3) show ?thesis by (auto dest: in_set_butlastD)
  qed
  show ?thesis
    using pop_position [OF rooted_at_root [OF rt] y(1), of Q] by (simp only: r y(2) Q(1) butlast_snoc)
qed

lemma take_length_append: "take (length a) (a @ b) = a"
  by simp

lemma Join_butlast_prefix: "\<exists>t. Join [slash] R = Join [slash] (butlast R) @ t"
  by (cases R rule: rev_cases) (auto simp: Join_snoc_if)

lemma dotdot_seen_result:
  assumes "rooted_at f r" "reduced_parts (take r f) R" "r \<noteq> 0 \<or> R \<noteq> [] \<and> last R \<noteq> ''..''"
  shows "reduce_one (take r f) R ''..'' = butlast R" "reduced_parts (take r f) (butlast R)"
    "seen_in r (take r f @ Join [slash] (butlast R)) = (r \<noteq> 0 \<or> butlast R \<noteq> [] \<and> last (butlast R) \<noteq> ''..'')"
proof -
  have r: "length (take r f) = r" "take r f = [] \<longleftrightarrow> r = 0" using assms(1) by (auto simp: rooted_at_def)
  have l: "R \<noteq> [] \<Longrightarrow> last R \<noteq> ''..''" using reduced_parts_last [OF assms(2)] assms(3) r by blast
  show "reduce_one (take r f) R ''..'' = butlast R" using l assms(3) r by (auto simp: reduce_one_def)
  show b: "reduced_parts (take r f) (butlast R)" using assms(2) unfolding reduced_parts_def by (meson in_set_butlastD)
  show "seen_in r (take r f @ Join [slash] (butlast R)) = (r \<noteq> 0 \<or> butlast R \<noteq> [] \<and> last (butlast R) \<noteq> ''..'')"
    using seen_in_root [OF rooted_at_root [OF assms(1)] b] unfolding r by simp
qed

lemma dotdot_inv:
  assumes rt: "rooted_at f r" and inv: "scan_inv f r i st R" and i: "i < length f"
    and seg: "drop i f = ''..'' @ rest" "rest = [] \<or> hd rest = slash"
  shows "scan_inv f r (i + 3) (dotdot_segment f r i st) (reduce_one (take r f) R ''..'')"
proof -
  have ri: "r \<le> i" and rp: "reduced_parts (take r f) R" using inv by (simp_all add: scan_inv_def)
  have lr: "length (take r f) = r" using rt by (simp add: rooted_at_def)
  show ?thesis
  proof (cases "seenNonDotDotSegment st")
    case False
    note u = dotdot_unseen [OF rt inv False]
    have rzero: "take r f = []" using u(1) by simp
    show ?thesis
    proof (cases "changed st")
      case True
      have "R = [] \<longleftrightarrow> Join [slash] R = []" using rp by (cases R rule: rev_cases) (auto simp: Join_snoc_if reduced_parts_def)
      then show ?thesis
        using inv True False u by (auto simp: scan_inv_def dotdot_segment_def Join_snoc_if)
    next
      case ch: False
      have "take (i + 2) f = Join [slash] (R @ [''..''])"
        using take_append_drop [OF seg(1)] scan_inv_taken [OF inv ch i] rzero by (simp add: Join_snoc_if)
      moreover have "i + 2 < length f \<longrightarrow> f ! (i + 2) = slash"
        using segment_boundary [OF seg] by (simp add: numeral_2_eq_2)
      moreover have "i + 2 \<le> length f" using arg_cong [OF seg(1), of length] i by simp
      ultimately show ?thesis
        using inv ch False u by (simp add: scan_inv_def dotdot_segment_def numeral_3_eq_3 numeral_2_eq_2)
    qed
  next
    case True
    then have seen: "r \<noteq> 0 \<or> R \<noteq> [] \<and> last R \<noteq> ''..''" using inv by (simp add: scan_inv_def)
    note d = dotdot_seen_result [OF rt rp seen]
    have ne: "r \<noteq> 0 \<or> R \<noteq> []" using seen by blast
    obtain t where t: "Join [slash] R = Join [slash] (butlast R) @ t" using Join_butlast_prefix by blast
    show ?thesis
    proof (cases "changed st")
      case ch: True
      have n: "normalized st = take r f @ Join [slash] R" using inv ch by (simp add: scan_inv_def)
      have "(if LastIndexByte (normalized st) slash \<noteq> -1
             then take (nat (max (int r) (LastIndexByte (normalized st) slash))) (normalized st) else take r f)
            = take r f @ Join [slash] (butlast R)"
      proof (cases "LastIndexByte (normalized st) slash = -1")
        case True
        then have "length (take r f @ Join [slash] (butlast R)) = r"
          using pop_prefix [OF rt rp ne, of "normalized st"] n by simp
        then have "Join [slash] (butlast R) = []" using lr by simp
        with True show ?thesis by simp
      next
        case False
        have "take (length (take r f @ Join [slash] (butlast R))) (normalized st) = take r f @ Join [slash] (butlast R)"
          unfolding n t append.assoc [symmetric] by (rule take_length_append)
        with False show ?thesis using pop_prefix [OF rt rp ne, of "normalized st"] n by simp
      qed
      then show ?thesis
        using True ch d ri by (simp add: scan_inv_def dotdot_segment_def Let_def)
    next
      case ch: False
      have u: "take (normalizedUpTo st) f = take r f @ Join [slash] R" "normalizedUpTo st \<le> length f"
        using inv ch by (auto simp: scan_inv_def)
      have "take r f @ Join [slash] R \<noteq> []"
        using ne lr rp by (cases R rule: rev_cases) (auto simp: Join_snoc_if reduced_parts_def)
      then have pos: "1 \<le> normalizedUpTo st" using u(1) by (cases "normalizedUpTo st") auto
      have "take (normalizedUpTo st - 1) f = butlast (take r f @ Join [slash] R)"
        using u by (metis butlast_take)
      then have k: "nat (max (int r) (LastIndexByte (take (normalizedUpTo st - 1) f) slash))
          = length (take r f @ Join [slash] (butlast R))"
        using pop_prefix [OF rt rp ne] by blast
      have "length (take r f @ Join [slash] (butlast R)) \<le> normalizedUpTo st"
        using arg_cong [OF u(1), of length] u(2) t by simp
      then have "take (length (take r f @ Join [slash] (butlast R))) f =
          take (length (take r f @ Join [slash] (butlast R))) (take (normalizedUpTo st) f)"
        by (simp add: min_def)
      also have "\<dots> = take r f @ Join [slash] (butlast R)"
        unfolding u(1) t append.assoc [symmetric] by (rule take_length_append)
      finally have "take (nat (max (int r) (LastIndexByte (take (normalizedUpTo st - 1) f) slash))) f
          = take r f @ Join [slash] (butlast R)" unfolding k .
      then show ?thesis
        using True ch d ri pos by (simp add: scan_inv_def dotdot_segment_def Let_def)
    qed
  qed
qed

section \<open>The loop computes the reduction\<close>

lemma segment_at:
  assumes "i < length f" "f ! i \<noteq> slash"
  obtains s rest where "drop i f = s @ rest" "s \<noteq> []" "slash \<notin> set s" "rest = [] \<or> hd rest = slash"
    "segment_end f i = i + length s"
proof -
  define s where "s = takeWhile (\<lambda>c. c \<noteq> slash) (drop i f)"
  define rest where "rest = dropWhile (\<lambda>c. c \<noteq> slash) (drop i f)"
  have d: "drop i f = s @ rest" by (simp add: s_def rest_def)
  have ns: "slash \<notin> set s" by (auto simp: s_def dest: set_takeWhileD)
  have ne: "s \<noteq> []" using assms by (simp add: s_def Cons_nth_drop_Suc [symmetric])
  have h: "rest = [] \<or> hd rest = slash" unfolding rest_def using hd_dropWhile by blast
  obtain c s' where s': "s = c # s'" using ne by (cases s) auto
  have d': "drop (i + 1) f = s' @ rest" using d s' by (metis drop_drop drop_Suc_Cons drop0 append_Cons One_nat_def add.commute)
  have ln: "length s + length rest = length f - i" using arg_cong [OF d, of length] by simp
  have "segment_end f i = i + length s"
  proof (cases "rest = []")
    case True
    then have "find_byte slash (drop (i + 1) f) = None" using d' ns s' by (simp add: find_byte_None)
    with True ln assms(1) show ?thesis by (simp add: segment_end_def)
  next
    case False
    then obtain t where "rest = slash # t" using h by (cases rest) auto
    then have "find_byte slash (drop (i + 1) f) = Some (length s')" using d' ns s' by (simp add: find_byte_append)
    with s' show ?thesis by (simp add: segment_end_def)
  qed
  with d ne ns h that show ?thesis by blast
qed

lemma fold_segment:
  assumes "drop i f = s @ rest" "slash \<notin> set s" "rest = [] \<or> hd rest = slash"
  shows "foldl (reduce_one root) R (Split slash (drop i f)) =
         foldl (reduce_one root) (reduce_one root R s) (Split slash (drop (i + length s + 1) f))"
proof (cases rest)
  case Nil
  then have "drop (i + length s + 1) f = []" using arg_cong [OF assms(1), of length] by simp
  with Nil assms show ?thesis by (simp add: reduce_one_def)
next
  case (Cons c t)
  then have "drop i f = s @ slash # t" using assms by simp
  moreover from this have "drop (i + length s + 1) f = t"
    by (metis add.commute append.assoc append_Cons append_Nil append_eq_conv_conj drop_drop length_append_singleton Suc_eq_plus1)
  ultimately show ?thesis using assms(2) by (simp add: Split_append_sep)
qed

lemma fold_skip:
  "foldl (reduce_one root) R (Split slash s) =
   foldl (reduce_one root) R (Split slash (drop (length (takeWhile (\<lambda>c. c = slash) s)) s))"
  by (induction s) (auto simp: reduce_one_def)

lemma fold_skip_slashes:
  "foldl (reduce_one root) R (Split slash (drop i f)) =
   foldl (reduce_one root) R (Split slash (drop (skip_slashes f i) f))"
  using fold_skip [of root R "drop i f"] by (simp add: skip_slashes_def add.commute)

lemma skip_slashes_stop: "skip_slashes f i < length f \<Longrightarrow> f ! skip_slashes f i \<noteq> slash"
  unfolding skip_slashes_def
  using nth_length_takeWhile [of "\<lambda>c. c = slash" "drop i f"] by (auto simp: add.commute)

lemma scan_segment_inv:
  assumes rt: "rooted_at f r" and inv: "scan_inv f r i st R" and i: "i < length f" "f ! i \<noteq> slash"
  obtains s where "scan_inv f r (index (scan_segment f r i st)) (scan_segment f r i st) (reduce_one (take r f) R s)"
    "foldl (reduce_one (take r f)) R (Split slash (drop i f)) =
     foldl (reduce_one (take r f)) (reduce_one (take r f) R s)
       (Split slash (drop (index (scan_segment f r i st)) f))"
proof -
  obtain s rest where s: "drop i f = s @ rest" "s \<noteq> []" "slash \<notin> set s" "rest = [] \<or> hd rest = slash"
    and e: "segment_end f i = i + length s" using i by (rule segment_at)
  have ix: "index (scan_segment f r i st) = i + length s + 1" by (simp add: scan_segment_index e)
  have "set s \<subseteq> set f" using s(1) by (metis set_append set_drop_subset subset_trans sup_ge1)
  then have nb: "backslash \<notin> set s" using rt by (auto simp: rooted_at_def)
  have n0: "f ! i = s ! 0" using s i(1) by (metis add.right_neutral hd_append2 hd_conv_nth hd_drop_conv_nth)
  have n1: "1 < length s \<Longrightarrow> f ! (i + 1) = s ! 1"
    using s(1) i(1) by (metis less_imp_le nth_append nth_drop)
  have ri: "r \<le> i" using inv by (simp add: scan_inv_def)
  have "scan_inv f r (i + length s + 1) (scan_segment f r i st) (reduce_one (take r f) R s)"
  proof -
    consider "s = ''.''" | "s = ''..''" | "s \<noteq> ''.''" "s \<noteq> ''..''" by blast
    then show ?thesis
    proof cases
      case 1
      then show ?thesis
        using dot_inv [OF inv, of "i + length s + 1"] n0 ri
        by (simp add: scan_segment_def e reduce_one_def)
    next
      case 2
      then show ?thesis
        using dotdot_inv [OF rt inv i(1), of rest] s n0 n1
        by (simp add: scan_segment_def e numeral_2_eq_2 numeral_3_eq_3)
    next
      case 3
      then have "\<not> (length s = 1 \<and> f ! i = CHR ''.'')" "\<not> (length s = 2 \<and> f ! i = CHR ''.'' \<and> f ! (i + 1) = CHR ''.'')"
        using n0 n1 by (auto simp: length_Suc_conv numeral_2_eq_2)
      moreover have "reduce_one (take r f) R s = R @ [s]" using s(2) 3 by (simp add: reduce_one_def)
      ultimately show ?thesis
        using other_inv [OF inv i(1) s(1,4,2) 3 s(3) nb]
        by (auto simp: scan_segment_def e Let_def)
    qed
  qed
  with that [of s] fold_segment [OF s(1,3,4)] show ?thesis by (simp add: ix)
qed

lemma normalize_loop_stop: "\<not> index st < length f \<Longrightarrow> normalize_loop f r st = st"
  by (subst normalize_loop.simps) simp

lemma normalize_loop_inv:
  assumes "rooted_at f r" "scan_inv f r (index st) st R"
  shows "length f \<le> index (normalize_loop f r st) \<and>
         scan_inv f r (index (normalize_loop f r st)) (normalize_loop f r st)
           (foldl (reduce_one (take r f)) R (Split slash (drop (index st) f)))"
  using assms(2)
proof (induction "length f - index st" arbitrary: st R rule: less_induct)
  case less
  show ?case
  proof (cases "index st < length f")
    case False
    then show ?thesis using less.prems by (simp add: normalize_loop_stop reduce_one_def)
  next
    case True
    define i where "i = skip_slashes f (index st)"
    define st1 where "st1 = (if index st < i then superfluous_separator f r (index st) st else st)"
    have r: "r \<le> index st" using less.prems by (simp add: scan_inv_def)
    have le: "index st \<le> i" "i \<le> length f" using True skip_slashes_ge skip_slashes_le by (auto simp: i_def)
    have inv1: "scan_inv f r i st1 R" and ch: "index st < i \<Longrightarrow> changed st1"
      using superfluous_inv [OF less.prems True, of i] less.prems le r by (auto simp: st1_def)
    have fs: "foldl (reduce_one (take r f)) R (Split slash (drop (index st) f)) =
        foldl (reduce_one (take r f)) R (Split slash (drop i f))"
      unfolding i_def by (rule fold_skip_slashes)
    show ?thesis
    proof (cases "i = length f")
      case end_: True
      have eq: "normalize_loop f r st = st1\<lparr>index := i\<rparr>"
        using True end_ by (subst normalize_loop.simps) (simp add: i_def [symmetric] st1_def Let_def)
      show ?thesis unfolding eq fs using inv1 end_ by (simp add: reduce_one_def)
    next
      case False
      then have lt: "i < length f" using le by simp
      have eq: "normalize_loop f r st = normalize_loop f r (scan_segment f r i st1)"
        using True False by (subst normalize_loop.simps) (simp add: i_def [symmetric] st1_def Let_def)
      obtain s where s: "scan_inv f r (index (scan_segment f r i st1)) (scan_segment f r i st1) (reduce_one (take r f) R s)"
        "foldl (reduce_one (take r f)) R (Split slash (drop i f)) =
          foldl (reduce_one (take r f)) (reduce_one (take r f) R s) (Split slash (drop (index (scan_segment f r i st1)) f))"
        using scan_segment_inv [OF assms(1) inv1 lt] skip_slashes_stop lt i_def by metis
      have "length f - index (scan_segment f r i st1) < length f - index st"
        using scan_progress [OF True, of r st1] by (simp add: i_def)
      from less.hyps [OF this s(1)] show ?thesis unfolding eq fs s(2) .
    qed
  qed
qed

end
