(* ===== verification/Tspath_Agree.thy ===== *)
theory Tspath_Agree
  imports Tspath_Scan
begin

text \<open>
  The quick test \<open>simpleNormalizePath\<close> and the scan give the reduced path: the agreement of
  \<open>GetNormalizedAbsolutePath\<close> with the component-wise reduction, and what follows from it.
\<close>

section \<open>The quick test agrees with the reduction\<close>

lemma Contains_Cons: "Contains (c # s) p \<longleftrightarrow> HasPrefix (c # s) p \<or> Contains s p"
  by (simp add: Contains_def)

lemma Contains_Nil [simp]: "Contains [] (c # p) \<longleftrightarrow> False"
  by (simp add: Contains_def)

lemma ReplaceAll_dot_match: "ReplaceAll (slash # CHR ''.'' # slash # t) ''/./'' ''/'' = slash # ReplaceAll t ''/./'' ''/''"
  by (subst ReplaceAll.simps) simp

lemma ReplaceAll_dot_other:
  "\<not> HasPrefix (c # t) ''/./'' \<Longrightarrow> ReplaceAll (c # t) ''/./'' ''/'' = c # ReplaceAll t ''/./'' ''/''"
  by (subst ReplaceAll.simps) auto

lemma ReplaceAll_Nil [simp]: "ReplaceAll [] p q = []"
  by (subst ReplaceAll.simps) simp

definition same_walk :: "string \<Rightarrow> string \<Rightarrow> bool" where
  "same_walk s t =
     (hd (Split slash t) = hd (Split slash s) \<and>
      filter (\<lambda>x. x \<noteq> ''.'') (tl (Split slash t)) = filter (\<lambda>x. x \<noteq> ''.'') (tl (Split slash s)) \<and>
      (tl (Split slash t) = [] \<longleftrightarrow> tl (Split slash s) = []) \<and>
      set t \<subseteq> set s \<and>
      (HasPrefix s ''/'' \<longrightarrow> HasPrefix t ''/'') \<and>
      (Contains s ''//'' \<longrightarrow> Contains t ''//''))"

lemma filter_split_hd:
  "hd a = hd b \<Longrightarrow> a \<noteq> [] \<Longrightarrow> b \<noteq> [] \<Longrightarrow> filter P (tl a) = filter P (tl b) \<Longrightarrow> filter P a = filter P b"
  by (metis filter.simps(2) list.collapse)

lemma same_walk_filter:
  "same_walk s t \<Longrightarrow> filter (\<lambda>x. x \<noteq> ''.'') (Split slash t) = filter (\<lambda>x. x \<noteq> ''.'') (Split slash s)"
  unfolding same_walk_def by (elim conjE) (rule filter_split_hd, assumption, simp, simp, assumption)

lemma same_walk_dot:
  assumes "same_walk t u"
  shows "same_walk (slash # CHR ''.'' # slash # t) (slash # u)"
proof -
  have "filter (\<lambda>x. x \<noteq> ''.'') (Split slash u) = filter (\<lambda>x. x \<noteq> ''.'') (Split slash t)"
    using same_walk_filter [OF assms] .
  then show ?thesis using assms by (auto simp: same_walk_def Contains_Cons)
qed

lemma same_walk_other:
  assumes "same_walk t u"
  shows "same_walk (c # t) (c # u)"
proof (cases "c = slash")
  case True
  have "filter (\<lambda>x. x \<noteq> ''.'') (Split slash u) = filter (\<lambda>x. x \<noteq> ''.'') (Split slash t)"
    using same_walk_filter [OF assms] .
  with True show ?thesis using assms by (auto simp: same_walk_def Contains_Cons)
next
  case False
  obtain w ws where w: "Split slash t = w # ws" by (meson Split_nonempty neq_Nil_conv)
  obtain v vs where v: "Split slash u = v # vs" by (meson Split_nonempty neq_Nil_conv)
  show ?thesis using False w v assms by (auto simp: same_walk_def Contains_Cons)
qed

lemma ReplaceAll_same_walk: "same_walk s (ReplaceAll s ''/./'' ''/'')"
proof (induction "length s" arbitrary: s rule: less_induct)
  case less
  show ?case
  proof (cases s)
    case Nil
    then show ?thesis by (simp add: same_walk_def)
  next
    case (Cons c t)
    show ?thesis
    proof (cases "HasPrefix s ''/./''")
      case True
      then obtain v where v: "s = slash # CHR ''.'' # slash # v" by (auto simp: HasPrefix_iff)
      have "same_walk v (ReplaceAll v ''/./'' ''/'')" using less.hyps [of v] v by simp
      then show ?thesis unfolding v ReplaceAll_dot_match by (rule same_walk_dot)
    next
      case False
      have "same_walk t (ReplaceAll t ''/./'' ''/'')" using less.hyps [of t] Cons by simp
      then show ?thesis unfolding Cons ReplaceAll_dot_other [OF False [unfolded Cons]] by (rule same_walk_other)
    qed
  qed
qed

lemma Split_wordE:
  assumes "x \<in> set (Split slash t)"
  obtains us vs where "Split slash t = us @ x # vs"
    "t = (if us = [] then [] else Join [slash] us @ [slash]) @ x @ (if vs = [] then [] else slash # Join [slash] vs)"
proof -
  obtain us vs where s: "Split slash t = us @ x # vs" using assms by (meson split_list)
  have "t = Join [slash] (us @ x # vs)" using Join_Split [of slash t] unfolding s by simp
  also have "\<dots> = (if us = [] then [] else Join [slash] us @ [slash]) @ x @ (if vs = [] then [] else slash # Join [slash] vs)"
    by (auto simp: Join_append Join_Cons)
  finally show ?thesis using that s by blast
qed

lemma plain_words:
  assumes "\<not> hasRelativePathSegment t" "x \<in> set (Split slash t)"
  shows "x \<noteq> ''.'' \<and> x \<noteq> ''..''"
proof -
  have rel: "t \<noteq> x \<and> \<not> HasPrefix t (x @ [slash]) \<and> \<not> HasSuffix t (slash # x) \<and> \<not> Contains t (slash # x @ [slash])"
    if "x = ''.'' \<or> x = ''..''"
    using assms(1) that unfolding hasRelativePathSegment_def by (auto split: if_splits)
  obtain us vs where
    t: "t = (if us = [] then [] else Join [slash] us @ [slash]) @ x @ (if vs = [] then [] else slash # Join [slash] vs)"
    using assms(2) by (rule Split_wordE)
  have "t = x \<or> HasPrefix t (x @ [slash]) \<or> HasSuffix t (slash # x) \<or> Contains t (slash # x @ [slash])"
  proof (cases "us = []"; cases "vs = []")
    assume "us \<noteq> []" "vs \<noteq> []"
    then have "t = Join [slash] us @ (slash # x @ [slash]) @ Join [slash] vs" unfolding t by simp
    then show ?thesis unfolding Contains_iff by blast
  qed (auto simp: t HasPrefix_iff HasSuffix_iff)
  with rel show ?thesis by blast
qed

lemma empty_word:
  assumes "\<not> Contains t ''//''" "\<not> HasPrefix t ''/''" "Split slash t = us @ [] # vs"
  shows "vs = [] \<and> (us \<noteq> [] \<or> t = [])"
proof -
  have t: "t = (if us = [] then [] else Join [slash] us @ [slash]) @ (if vs = [] then [] else slash # Join [slash] vs)"
    using Join_Split [of slash t] unfolding assms(3) by (auto simp: Join_append Join_Cons)
  show ?thesis
  proof (cases "us = []"; cases "vs = []")
    assume "us \<noteq> []" "vs \<noteq> []"
    then have "t = Join [slash] us @ ''//'' @ Join [slash] vs" unfolding t by simp
    with assms(1) show ?thesis unfolding Contains_iff by blast
  qed (use assms(2) in \<open>auto simp: t\<close>)
qed

lemma Join_nonempty_words:
  assumes "\<not> Contains t ''//''" "\<not> HasPrefix t ''/''" "backslash \<notin> set t"
  shows "Join [slash] (filter (\<lambda>x. x \<noteq> []) (Split slash t)) = RemoveTrailingDirectorySeparator t"
proof (cases "[] \<in> set (Split slash t)")
  case True
  then obtain us vs where s: "Split slash t = us @ [] # vs" "[] \<notin> set us" by (meson split_list_first)
  have v: "vs = []" "us \<noteq> [] \<or> t = []" using empty_word [OF assms(1,2) s(1)] by auto
  have f: "filter (\<lambda>x. x \<noteq> []) (Split slash t) = us" using s v(1) by (auto simp: filter_id_conv)
  show ?thesis
  proof (cases "us = []")
    case True
    with v f show ?thesis by (simp add: RemoveTrailing_butlast)
  next
    case False
    have "t = Join [slash] us @ [slash]" using Join_Split [of slash t] False unfolding s v(1) by (simp add: Join_snoc)
    then show ?thesis unfolding f by (simp add: RemoveTrailing_snoc isAnyDirectorySeparator_def)
  qed
next
  case False
  then have f: "filter (\<lambda>x. x \<noteq> []) (Split slash t) = Split slash t" by (simp add: filter_id_conv) metis
  have "\<not> HasTrailingDirectorySeparator t"
  proof
    assume h: "HasTrailingDirectorySeparator t"
    then have ne: "t \<noteq> []" and "last t = slash \<or> last t = backslash"
      by (simp_all add: HasTrailing_iff isAnyDirectorySeparator_def)
    then have "last t = slash" using assms(3) last_in_set by metis
    then obtain a where "t = a @ slash # []" using ne by (metis append_butlast_last_id)
    then have "Split slash t = Split slash a @ [[]]" by (simp only: Split_append_sep) simp
    with False show False by simp
  qed
  then show ?thesis unfolding f by (simp add: RemoveTrailing_butlast)
qed

lemma fold_plain:
  "\<forall>x \<in> set ss. x \<noteq> ''.'' \<and> x \<noteq> ''..'' \<Longrightarrow> foldl (reduce_one root) R ss = R @ filter (\<lambda>x. x \<noteq> []) ss"
  by (induction ss arbitrary: R) (auto simp: reduce_one_def)

lemma fold_filter_dots: "foldl (reduce_one root) R ss = foldl (reduce_one root) R (filter (\<lambda>x. x \<noteq> ''.'') ss)"
  by (induction ss arbitrary: R) (auto simp: reduce_one_def)


text \<open>What a successful quick test establishes, for a path without backslashes.\<close>

lemma simple_cases:
  assumes "simpleNormalizePath p = Some t"
  shows "\<not> hasRelativePathSegment t" and "\<not> Contains p ''//''" and "set t \<subseteq> set p"
    and "filter (\<lambda>x. x \<noteq> ''.'') (Split slash t) = filter (\<lambda>x. x \<noteq> ''.'') (Split slash p)"
    and "hd (Split slash t) = hd (Split slash p) \<and> (tl (Split slash t) = [] \<longleftrightarrow> tl (Split slash p) = []) \<or>
         \<not> HasPrefix t ''/'' \<and> HasPrefix p ''./''"
proof -
  define u where "u = ReplaceAll p ''/./'' ''/''"
  have w: "same_walk p u" unfolding u_def by (rule ReplaceAll_same_walk)
  have dd: "\<not> hasRelativePathSegment s \<Longrightarrow> \<not> Contains s ''//''" for s
    by (auto simp: hasRelativePathSegment_def split: if_splits)
  consider (same) "t = p" "\<not> hasRelativePathSegment p" | (replaced) "t = u" "\<not> hasRelativePathSegment u"
    | (trimmed) "u = ''./'' @ t" "\<not> hasRelativePathSegment t" "\<not> HasPrefix t ''/''"
  proof (cases "hasRelativePathSegment p")
    case True
    with assms have *: "t = TrimPrefix u ''./''" "\<not> hasRelativePathSegment t" "t = u \<or> \<not> HasPrefix t ''/''"
      by (auto simp: simpleNormalizePath_def u_def Let_def split: if_splits)
    show thesis
    proof (cases "HasPrefix u ''./''")
      case True
      then have "u = ''./'' @ t" using *(1) by (auto simp: TrimPrefix_def HasPrefix_iff)
      moreover from this have "t \<noteq> u" by simp
      ultimately show thesis using * trimmed by blast
    next
      case False
      then show thesis using * replaced by (simp add: TrimPrefix_def)
    qed
  qed (use assms same in \<open>simp add: simpleNormalizePath_def\<close>)
  note cs = this
  show "\<not> hasRelativePathSegment t" by (cases rule: cs) auto
  show "set t \<subseteq> set p" using w by (cases rule: cs) (auto simp: same_walk_def)
  show "\<not> Contains p ''//''"
  proof (cases rule: cs)
    case trimmed
    then have "\<not> Contains u ''//''" using dd [OF trimmed(2)] by (auto simp: Contains_Cons)
    then show ?thesis using w by (auto simp: same_walk_def)
  qed (use dd w in \<open>auto simp: same_walk_def\<close>)
  show "filter (\<lambda>x. x \<noteq> ''.'') (Split slash t) = filter (\<lambda>x. x \<noteq> ''.'') (Split slash p)"
    using same_walk_filter [OF w] by (cases rule: cs) auto
  show "hd (Split slash t) = hd (Split slash p) \<and> (tl (Split slash t) = [] \<longleftrightarrow> tl (Split slash p) = []) \<or>
        \<not> HasPrefix t ''/'' \<and> HasPrefix p ''./''"
  proof (cases rule: cs)
    case trimmed
    then have "Split slash u = ''.'' # Split slash t" by simp
    then have h: "hd (Split slash p) = ''.''" "tl (Split slash p) \<noteq> []" using w by (auto simp: same_walk_def)
    then obtain v vs where "Split slash p = ''.'' # v # vs" by (metis list.collapse Split_nonempty)
    then have "p = ''./'' @ Join [slash] (v # vs)" using Join_Split [of slash p] by simp
    then show ?thesis using trimmed by auto
  qed (use w in \<open>auto simp: same_walk_def\<close>)
qed

section \<open>Agreement\<close>

lemma reduce_components:
  "reducePathComponents (pathComponents p r) =
     take r p # foldl (reduce_one (take r p)) [] (Split slash (drop r p))"
proof -
  define rest where "rest = Split slash (drop r p)"
  have "foldl (reduce_one (take r p)) [] (if 0 < length rest \<and> last rest = [] then butlast rest else rest)
        = foldl (reduce_one (take r p)) [] rest"
    by (cases rest rule: rev_cases) (auto simp: reduce_one_def)
  then show ?thesis
    by (simp add: reducePathComponents_def pathComponents_def reduce_loop_fold rest_def [symmetric] Let_def)
qed

definition reduced_path :: "string \<Rightarrow> string" where
  "reduced_path p = GetPathFromPathComponents (reducePathComponents (pathComponents p (GetRootLength p)))"

lemma reduced_path_rooted:
  assumes "rooted_at p (GetRootLength p)"
  shows "reduced_path p = take (GetRootLength p) p @
    Join [slash] (foldl (reduce_one (take (GetRootLength p) p)) [] (Split slash (drop (GetRootLength p) p)))"
  using rooted_at_root [OF assms]
  by (auto simp: reduced_path_def reduce_components GetPathFromPathComponents_def
      EnsureTrailingDirectorySeparator_def HasTrailing_iff isAnyDirectorySeparator_def)

lemma reduced_path_root_only:
  "GetRootLength p = length p \<Longrightarrow> reduced_path p = (if p = [] then [] else EnsureTrailingDirectorySeparator p)"
  by (simp add: reduced_path_def reduce_components GetPathFromPathComponents_def reduce_one_def)

lemma rooted_path: "backslash \<notin> set p \<Longrightarrow> GetRootLength p < length p \<Longrightarrow> rooted_at p (GetRootLength p)"
  using GetRootLength_sep [of p] nth_mem [of "GetRootLength p - 1" p]
  unfolding rooted_at_def isAnyDirectorySeparator_def by (metis gr0I less_imp_diff_less)

lemma RemoveTrailings_none: "\<not> HasTrailingDirectorySeparator s \<Longrightarrow> RemoveTrailingDirectorySeparators s = s"
  by (subst RemoveTrailingDirectorySeparators.simps) simp

lemma RemoveTrailings_one:
  "\<not> HasTrailingDirectorySeparator s \<Longrightarrow> RemoveTrailingDirectorySeparators (s @ [slash]) = s"
  by (subst RemoveTrailingDirectorySeparators.simps)
    (simp add: RemoveTrailing_snoc isAnyDirectorySeparator_def RemoveTrailings_none)

lemma parts_not_trailing:
  assumes "reduced_parts root R" "R \<noteq> []"
  shows "\<not> HasTrailingDirectorySeparator (root @ Join [slash] R)"
proof -
  obtain Q x where x: "R = Q @ [x]" "x \<noteq> []" "slash \<notin> set x" "backslash \<notin> set x"
    using assms by (auto elim: reduced_snocE)
  have "last x \<noteq> slash" "last x \<noteq> backslash" using x last_in_set by metis+
  then show ?thesis using x by (auto simp: Join_snoc_if HasTrailing_iff isAnyDirectorySeparator_def)
qed

lemma scan_agrees:
  fixes p :: string
  defines "r \<equiv> GetRootLength p"
  defines "st \<equiv> normalize_loop p r \<lparr>changed = False, normalized = [], index = r, normalizedUpTo = r,
                  seenNonDotDotSegment = r \<noteq> 0\<rparr>"
  assumes p: "backslash \<notin> set p" "p \<noteq> []"
  shows "(if changed st then normalized st
          else if r < length p then RemoveTrailingDirectorySeparators p
          else if length p = r then EnsureTrailingDirectorySeparator p else p) = reduced_path p"
proof (cases "r < length p")
  case False
  then have "r = length p" using GetRootLength_le [of p] by (simp add: r_def)
  then show ?thesis using p reduced_path_root_only [of p] by (simp add: st_def normalize_loop_stop r_def)
next
  case True
  have rt: "rooted_at p r" using rooted_path p True by (simp add: r_def)
  define st0 where "st0 = \<lparr>changed = False, normalized = [], index = r, normalizedUpTo = r,
        seenNonDotDotSegment = r \<noteq> 0\<rparr>"
  define R where "R = foldl (reduce_one (take r p)) [] (Split slash (drop r p))"
  have "length p \<le> index st \<and> scan_inv p r (index st) st R"
  proof -
    have "scan_inv p r (index st0) st0 []" using True by (simp add: scan_inv_def st0_def)
    from normalize_loop_inv [OF rt this] show ?thesis
      unfolding st_def R_def st0_def by simp
  qed
  then have e: "length p \<le> index st" and inv: "scan_inv p r (index st) st R" by simp_all
  have res: "reduced_path p = take r p @ Join [slash] R"
    using reduced_path_rooted [of p] rt by (simp add: r_def R_def)
  show ?thesis
  proof (cases "changed st")
    case ch: True
    then show ?thesis using inv res by (simp add: scan_inv_def)
  next
    case ch: False
    then have u: "take (normalizedUpTo st) p = take r p @ Join [slash] R" "normalizedUpTo st \<le> length p"
      and R: "R \<noteq> []" "index st = normalizedUpTo st + 1"
        "normalizedUpTo st < length p \<longrightarrow> p ! normalizedUpTo st = slash"
      using inv e True by (auto simp: scan_inv_def)
    have nt: "\<not> HasTrailingDirectorySeparator (take r p @ Join [slash] R)"
      using inv R(1) by (intro parts_not_trailing) (simp_all add: scan_inv_def)
    have "p = take r p @ Join [slash] R \<or> p = (take r p @ Join [slash] R) @ [slash]"
    proof (cases "normalizedUpTo st = length p")
      case False
      then have "length p = Suc (normalizedUpTo st)" "normalizedUpTo st < length p" using e R(2) u(2) by auto
      then have "p = take (normalizedUpTo st) p @ [slash]"
        using R(3) by (metis take_Suc_conv_app_nth take_all order_refl)
      then show ?thesis unfolding u(1) by blast
    qed (use u in simp)
    then have "RemoveTrailingDirectorySeparators p = take r p @ Join [slash] R"
      using RemoveTrailings_none [OF nt] RemoveTrailings_one [OF nt] by metis
    then show ?thesis using ch True res by simp
  qed
qed

lemma root_only_simple:
  assumes "GetRootLength p = length p" "backslash \<notin> set p" "\<not> Contains p ''//''"
  shows "\<not> hasRelativePathSegment p"
proof (cases p)
  case (Cons c t)
  have "\<not> Contains p ''://''"
    using assms(3) unfolding Contains_iff by (metis append.assoc append_Cons append_Nil)
  then have u: "url_root p = 0" by (simp add: url_root_zero)
  have "\<not> (c = slash \<and> t \<noteq> [] \<and> t ! 0 = slash)"
    using assms(3) unfolding Contains_iff Cons by (metis append_Cons append_Nil neq_Nil_conv nth_Cons_0)
  moreover have "c \<noteq> backslash" using assms(2) Cons by auto
  ultimately have "p = [slash] \<or> IsVolumeCharacter c \<and> (length t = 1 \<or> length t = 2)  \<and> t ! 0 = colon"
    using u assms(1) unfolding Cons
    by (auto simp: GetRootLength_def GetEncodedRootLength_def Let_def numeral_2_eq_2 split: if_splits)
  then show ?thesis
  proof
    assume v: "IsVolumeCharacter c \<and> (length t = 1 \<or> length t = 2) \<and> t ! 0 = colon"
    then obtain d where "t = [colon] \<or> t = [colon, d]" by (auto simp: length_Suc_conv numeral_2_eq_2)
    moreover have "c \<noteq> slash" "c \<noteq> CHR ''.''" using v by (auto simp: IsVolumeCharacter_def)
    ultimately show ?thesis
      by (auto simp: Cons hasRelativePathSegment_def HasSuffix_def Contains_Cons numeral_2_eq_2 numeral_3_eq_3)
  qed (simp add: hasRelativePathSegment_def HasSuffix_def Contains_Cons)
qed (simp add: hasRelativePathSegment_def HasSuffix_def)

definition simple_result :: "nat \<Rightarrow> string \<Rightarrow> string" where
  "simple_result r t =
     (if r < length t then RemoveTrailingDirectorySeparator t
      else if length t = r \<and> r \<noteq> 0 then EnsureTrailingDirectorySeparator t else t)"

lemma simple_relative:
  assumes s: "simpleNormalizePath p = Some t" and p: "backslash \<notin> set p" "GetRootLength p = 0" "p \<noteq> []"
  shows "RemoveTrailingDirectorySeparator t = reduced_path p"
proof -
  note c = simple_cases [OF s]
  have np: "\<not> HasPrefix p ''/''" using p(2) by (rule root_zero_head)
  have rt: "rooted_at p 0" using rooted_path [of p] p by simp
  have nt: "\<not> HasPrefix t ''/''"
  proof
    assume "HasPrefix t ''/''"
    then obtain v where t: "t = slash # v" by (auto simp: HasPrefix_iff)
    then have "hd (Split slash p) = []" "tl (Split slash p) \<noteq> []" using c(5) by auto
    then obtain v vs where "Split slash p = [] # v # vs" by (metis list.collapse Split_nonempty)
    then have "p = slash # Join [slash] (v # vs)" using Join_Split [of slash p] by simp
    with np show False by simp
  qed
  have dd: "\<not> Contains t ''//''" using c(1) by (auto simp: hasRelativePathSegment_def split: if_splits)
  have nb: "backslash \<notin> set t" using c(3) p(1) by blast
  have "reduced_path p = Join [slash] (foldl (reduce_one []) [] (Split slash p))"
    using reduced_path_rooted [of p] rt p(2) by simp
  also have "foldl (reduce_one []) [] (Split slash p) = foldl (reduce_one []) [] (Split slash t)"
    unfolding fold_filter_dots [of _ _ "Split slash p"] fold_filter_dots [of _ _ "Split slash t"] c(4) ..
  also have "\<dots> = filter (\<lambda>x. x \<noteq> []) (Split slash t)"
    using plain_words [OF c(1)] by (subst fold_plain) auto
  finally show ?thesis using Join_nonempty_words [OF dd nt nb] by simp
qed

lemma simple_absolute:
  assumes s: "simpleNormalizePath p = Some t" and p: "backslash \<notin> set p" "0 < GetRootLength p" "GetRootLength p < length p"
  shows "simple_result (GetRootLength p) t = reduced_path p"
proof -
  note c = simple_cases [OF s]
  define r where "r = GetRootLength p"
  define root where "root = take r p"
  define rest where "rest = drop r p"
  have rt: "rooted_at p r" unfolding r_def using p by (intro rooted_path)
  have sh: "r = 1 \<and> p ! 0 = slash \<or> r = 3 \<and> IsVolumeCharacter (p ! 0) \<and> p ! 1 = colon \<and> p ! 2 = slash"
    unfolding r_def by (rule root_without_double_slash [OF c(2) p])
  obtain w where w: "root = w @ [slash]" "slash \<notin> set w" "w \<noteq> ''.''"
  proof (cases "r = 1")
    case True
    then have "root = [slash]" using sh p by (cases p) (auto simp: root_def)
    with that [of "[]"] show ?thesis by simp
  next
    case False
    with sh have r3: "r = 3" and v: "IsVolumeCharacter (p ! 0)" "p ! 1 = colon" "p ! 2 = slash" by auto
    have "3 < length p" using p(3) r3 by (simp add: r_def)
    then obtain a b c q where "p = a # b # c # q"
      by (cases p; cases "tl p"; cases "tl (tl p)") auto
    then have "root = [p ! 0, colon, slash]"
      unfolding root_def r3 using v by (simp add: numeral_3_eq_3 numeral_2_eq_2)
    moreover have "p ! 0 \<noteq> slash" using v(1) by (auto simp: IsVolumeCharacter_def)
    ultimately show ?thesis using that [of "[p ! 0, colon]"] by auto
  qed
  have pr: "p = w @ slash # rest"
    using append_take_drop_id [of r p] by (simp add: root_def [symmetric] rest_def [symmetric] w(1))
  have sp: "Split slash p = w # Split slash rest" unfolding pr using w(2) by (simp add: Split_append_sep)
  have nd: "\<not> HasPrefix p ''./''"
  proof
    assume "HasPrefix p ''./''"
    then have "Split slash p = ''.'' # tl (Split slash p)" by (auto simp: HasPrefix_iff)
    with sp w(3) show False by simp
  qed
  then have "hd (Split slash t) = w" "tl (Split slash t) \<noteq> []" using c(5) sp by auto
  then obtain ts where ts: "Split slash t = w # ts" "ts \<noteq> []" by (metis list.collapse Split_nonempty)
  define v where "v = Join [slash] ts"
  have t: "t = w @ slash # v" using Join_Split [of slash t] ts by (simp add: Join_Cons v_def)
  have "Split slash t = w # Split slash v" unfolding t using w(2) by (simp add: Split_append_sep)
  then have tsv: "ts = Split slash v" using ts by simp
  have lr: "length t = r + length v"
  proof -
    have "length root = r" using p(3) by (simp add: root_def r_def)
    then show ?thesis unfolding t w(1) by simp
  qed
  have dd: "\<not> Contains t ''//''" using c(1) by (auto simp: hasRelativePathSegment_def split: if_splits)
  have dv: "\<not> Contains v ''//''" "\<not> HasPrefix v ''/''"
  proof -
    show "\<not> Contains v ''//''"
      using dd unfolding t Contains_iff by (metis append.assoc append_Cons)
    show "\<not> HasPrefix v ''/''"
    proof
      assume "HasPrefix v ''/''"
      then obtain x where "v = slash # x" by (auto simp: HasPrefix_iff)
      then have "t = w @ ''//'' @ x" unfolding t by simp
      with dd show False unfolding Contains_iff by blast
    qed
  qed
  have nb: "backslash \<notin> set v" using c(3) p(1) t by auto
  have "reduced_path p = root @ Join [slash] (foldl (reduce_one root) [] (Split slash rest))"
    using reduced_path_rooted [of p] rt by (simp add: r_def root_def rest_def)
  also have "foldl (reduce_one root) [] (Split slash rest) = foldl (reduce_one root) [] ts"
  proof -
    have "filter (\<lambda>x. x \<noteq> ''.'') (Split slash rest) = filter (\<lambda>x. x \<noteq> ''.'') ts"
      using c(4) sp ts w(3) by simp
    then show ?thesis
      unfolding fold_filter_dots [of _ _ "Split slash rest"] fold_filter_dots [of _ _ ts] by simp
  qed
  also have "\<dots> = filter (\<lambda>x. x \<noteq> []) ts"
    using plain_words [OF c(1)] ts by (subst fold_plain) auto
  finally have red: "reduced_path p = root @ RemoveTrailingDirectorySeparator v"
    using Join_nonempty_words [OF dv nb] tsv by simp
  show ?thesis
  proof (cases "v = []")
    case True
    then have "t = root" using t w(1) by simp
    then show ?thesis using True red lr w(1) p(2) unfolding r_def [symmetric]
      by (simp add: simple_result_def RemoveTrailing_butlast EnsureTrailingDirectorySeparator_def isAnyDirectorySeparator_def)
  next
    case False
    have "t = root @ v" using t w(1) by simp
    then show ?thesis
      using False red lr unfolding r_def [symmetric]
      by (simp add: simple_result_def RemoveTrailing_butlast butlast_append)
  qed
qed

lemma simple_agrees:
  assumes s: "simpleNormalizePath p = Some t" and p: "backslash \<notin> set p"
  shows "simple_result (GetRootLength p) t = reduced_path p"
proof (cases "GetRootLength p = length p")
  case True
  have "\<not> hasRelativePathSegment p" using root_only_simple [OF True p simple_cases(2) [OF s]] .
  then have "t = p" using s by (simp add: simpleNormalizePath_def)
  then show ?thesis using True by (simp add: simple_result_def reduced_path_root_only)
next
  case False
  then have lt: "GetRootLength p < length p" using GetRootLength_le [of p] by linarith
  show ?thesis
  proof (cases "GetRootLength p = 0")
    case True
    have "RemoveTrailingDirectorySeparator [] = []" by (simp add: RemoveTrailing_butlast)
    with simple_relative [OF s p True] lt True show ?thesis by (auto simp: simple_result_def)
  next
    case False
    with simple_absolute [OF s p _ lt] show ?thesis by simp
  qed
qed

lemma combined_no_backslash:
  "backslash \<notin> set r \<Longrightarrow> backslash \<notin> set (combine_loop r ps)"
proof (induction ps arbitrary: r)
  case (Cons p ps)
  have *: "backslash \<notin> set ((if \<not> HasTrailingDirectorySeparator r then r @ [slash] else r) @ NormalizeSlashes p)"
    using Cons.prems by simp
  show ?case using Cons.IH [OF Cons.prems] Cons.IH [OF *] Cons.IH [of "NormalizeSlashes p"] by (simp add: Let_def)
qed simp

lemma CombinePaths_no_backslash [simp]: "backslash \<notin> set (CombinePaths p ps)"
  by (simp add: CombinePaths_def combined_no_backslash)

lemma CombinePaths_empty: "CombinePaths [] [p] = NormalizeSlashes p"
  by (simp add: CombinePaths_def)

lemma CombinePaths_absolute: "GetRootLength p \<noteq> 0 \<Longrightarrow> CombinePaths cd [p] = NormalizeSlashes p"
  using GetRootLength_NormalizeSlashes [of p] GetRootLength_le [of "[]"]
  by (cases p) (auto simp: CombinePaths_def Let_def)

lemma absolute_input:
  "(if GetRootLength f = 0 \<and> cd \<noteq> [] then CombinePaths cd [f] else NormalizeSlashes f) = CombinePaths cd [f]"
  by (auto simp: CombinePaths_empty CombinePaths_absolute)

text \<open>C6. The one-pass normalization, with its quick test, its string rewriting and its offsets into the
  input, computes for every file name and every current directory exactly the path of the reduced
  components of the combined path.\<close>

theorem GetNormalizedAbsolutePath_reduces:
  "GetNormalizedAbsolutePath fileName currentDirectory =
   GetPathFromPathComponents (GetNormalizedPathComponents fileName currentDirectory)"
proof -
  define p where "p = CombinePaths currentDirectory [fileName]"
  have nb: "backslash \<notin> set p" by (simp add: p_def)
  have "GetPathFromPathComponents (GetNormalizedPathComponents fileName currentDirectory) = reduced_path p"
    by (simp add: GetNormalizedPathComponents_def GetPathComponents_def reduced_path_def p_def Let_def)
  moreover have "GetNormalizedAbsolutePath fileName currentDirectory = reduced_path p"
  proof (cases "simpleNormalizePath p")
    case (Some t)
    show ?thesis
      using simple_agrees [OF Some nb] Some
      unfolding GetNormalizedAbsolutePath_def absolute_input
      unfolding p_def [symmetric] simple_result_def by (simp add: Let_def)
  next
    case None
    then have "p \<noteq> []" by (auto simp: simpleNormalizePath_def hasRelativePathSegment_def HasSuffix_def)
    then show ?thesis
      unfolding GetNormalizedAbsolutePath_def absolute_input
      unfolding p_def [symmetric] Let_def None option.case by (intro scan_agrees [OF nb])
  qed
  ultimately show ?thesis by simp
qed

end
