(* ===== verification/Tspath_Compare.thy ===== *)
theory Tspath_Compare
  imports Tspath_Agree
begin

text \<open>
  Paths (\<open>internal/tspath/path.go\<close>), third part: relative paths, comparison, containment, extensions
  of a path and the walk up the ancestors. The Unicode tables (\<open>upper\<close> for \<open>strings.ToUpper\<close> and
  \<open>orbit\<close> for \<open>strings.EqualFold\<close>) are arguments, as in the string utilities.
\<close>

record ComparePathsOptions =
  UseCaseSensitiveFileNames :: bool
  CurrentDirectory :: string

definition GetComparer :: "(nat \<Rightarrow> nat) \<Rightarrow> ComparePathsOptions \<Rightarrow> string \<Rightarrow> string \<Rightarrow> int" where
  "GetComparer upper o' = GetStringComparer upper (\<not> UseCaseSensitiveFileNames o')"

definition getEqualityComparer :: "(nat \<Rightarrow> nat) \<Rightarrow> ComparePathsOptions \<Rightarrow> string \<Rightarrow> string \<Rightarrow> bool" where
  "getEqualityComparer orbit o' = GetStringEqualityComparer orbit (\<not> UseCaseSensitiveFileNames o')"

section \<open>Relative paths\<close>

fun common_start :: "(nat \<Rightarrow> string \<Rightarrow> string \<Rightarrow> bool) \<Rightarrow> nat \<Rightarrow> string list \<Rightarrow> string list \<Rightarrow> nat" where
  "common_start eq start (f # fs) (t # ts) =
     (if \<not> eq start f t then start else common_start eq (start + 1) fs ts)"
| "common_start eq start _ _ = start"

definition GetPathComponentsRelativeTo ::
    "(nat \<Rightarrow> nat) \<Rightarrow> string \<Rightarrow> string \<Rightarrow> ComparePathsOptions \<Rightarrow> string list" where
  "GetPathComponentsRelativeTo orbit fromPath to options =
     (let fromComponents = reducePathComponents (GetPathComponents fromPath (CurrentDirectory options));
          toComponents = reducePathComponents (GetPathComponents to (CurrentDirectory options));
          stringEqualer = getEqualityComparer orbit options;
          start = common_start (\<lambda>i. if i = 0 then EquateStringCaseInsensitive orbit else stringEqualer)
                    0 fromComponents toComponents
      in if start = 0 then toComponents
         else [] # replicate (length fromComponents - start) ''..'' @ drop start toComponents)"

definition GetRelativePathFromDirectory ::
    "(nat \<Rightarrow> nat) \<Rightarrow> string \<Rightarrow> string \<Rightarrow> ComparePathsOptions \<Rightarrow> string go" where
  "GetRelativePathFromDirectory orbit fromDirectory to options =
     (if (0 < GetRootLength fromDirectory) \<noteq> (0 < GetRootLength to)
      then Inl (Panicked ''paths must either both be absolute or both be relative'')
      else Inr (GetPathFromPathComponents (GetPathComponentsRelativeTo orbit fromDirectory to options)))"

definition GetRelativePathToDirectoryOrUrl ::
    "(nat \<Rightarrow> nat) \<Rightarrow> string \<Rightarrow> string \<Rightarrow> bool \<Rightarrow> ComparePathsOptions \<Rightarrow> string" where
  "GetRelativePathToDirectoryOrUrl orbit directoryPathOrUrl relativeOrAbsolutePath isAbsolutePathAnUrl options =
     (let components = GetPathComponentsRelativeTo orbit directoryPathOrUrl relativeOrAbsolutePath options;
          firstComponent = hd components
      in if isAbsolutePathAnUrl \<and> IsRootedDiskPath firstComponent
         then GetPathFromPathComponents
                (((if firstComponent ! 0 = slash then ''file://'' else ''file:///'') @ firstComponent) # tl components)
         else GetPathFromPathComponents components)"

definition ConvertToRelativePath :: "(nat \<Rightarrow> nat) \<Rightarrow> string \<Rightarrow> ComparePathsOptions \<Rightarrow> string" where
  "ConvertToRelativePath orbit absoluteOrRelativePath options =
     (if \<not> IsRootedDiskPath absoluteOrRelativePath then absoluteOrRelativePath
      else GetRelativePathToDirectoryOrUrl orbit (CurrentDirectory options) absoluteOrRelativePath False options)"

section \<open>Comparison and containment\<close>

text \<open>The loop compares the components from index 1; equal prefixes are ordered by length.\<close>

fun compare_components :: "(string \<Rightarrow> string \<Rightarrow> int) \<Rightarrow> string list \<Rightarrow> string list \<Rightarrow> int option" where
  "compare_components cmp (a # as) (b # bs) =
     (let result = cmp a b in if result \<noteq> 0 then Some result else compare_components cmp as bs)"
| "compare_components cmp _ _ = None"

definition ComparePaths ::
    "(nat \<Rightarrow> nat) \<Rightarrow> string \<Rightarrow> string \<Rightarrow> ComparePathsOptions \<Rightarrow> int" where
  "ComparePaths upper a0 b0 options =
     (let a = CombinePaths (CurrentDirectory options) [a0];
          b = CombinePaths (CurrentDirectory options) [b0]
      in if a = b then 0
         else if a = [] then -1
         else if b = [] then 1
         else
           (let aRoot = take (GetRootLength a) a;
                bRoot = take (GetRootLength b) b;
                result = CompareStringsCaseInsensitive upper aRoot bRoot
            in if result \<noteq> 0 then result
               else
                 (let aRest = drop (length aRoot) a;
                      bRest = drop (length bRoot) b
                  in if \<not> hasRelativePathSegment aRest \<and> \<not> hasRelativePathSegment bRest
                     then GetComparer upper options aRest bRest
                     else
                       (let aComponents = reducePathComponents (GetPathComponents a []);
                            bComponents = reducePathComponents (GetPathComponents b [])
                        in case compare_components (GetComparer upper options) (tl aComponents) (tl bComponents) of
                             Some r \<Rightarrow> r
                           | None \<Rightarrow> cmp_Compare (length aComponents) (length bComponents)))))"

definition ComparePathsCaseSensitive :: "(nat \<Rightarrow> nat) \<Rightarrow> string \<Rightarrow> string \<Rightarrow> string \<Rightarrow> int" where
  "ComparePathsCaseSensitive upper a b currentDirectory =
     ComparePaths upper a b \<lparr>UseCaseSensitiveFileNames = True, CurrentDirectory = currentDirectory\<rparr>"

definition ComparePathsCaseInsensitive :: "(nat \<Rightarrow> nat) \<Rightarrow> string \<Rightarrow> string \<Rightarrow> string \<Rightarrow> int" where
  "ComparePathsCaseInsensitive upper a b currentDirectory =
     ComparePaths upper a b \<lparr>UseCaseSensitiveFileNames = False, CurrentDirectory = currentDirectory\<rparr>"

fun contains_loop :: "(nat \<Rightarrow> string \<Rightarrow> string \<Rightarrow> bool) \<Rightarrow> nat \<Rightarrow> string list \<Rightarrow> string list \<Rightarrow> bool" where
  "contains_loop comparer i [] childComponents = True"
| "contains_loop comparer i (parentComponent # parents) childComponents =
     (if \<not> comparer i parentComponent (childComponents ! i) then False
      else contains_loop comparer (i + 1) parents childComponents)"

definition ContainsPath :: "(nat \<Rightarrow> nat) \<Rightarrow> string \<Rightarrow> string \<Rightarrow> ComparePathsOptions \<Rightarrow> bool" where
  "ContainsPath orbit parent0 child0 options =
     (let parent = CombinePaths (CurrentDirectory options) [parent0];
          child = CombinePaths (CurrentDirectory options) [child0]
      in if parent = [] \<or> child = [] then False
         else if parent = child then True
         else
           (let parentComponents = reducePathComponents (GetPathComponents parent []);
                childComponents = reducePathComponents (GetPathComponents child [])
            in if length childComponents < length parentComponents then False
               else contains_loop
                      (\<lambda>i. if i = 0 then EquateStringCaseInsensitive orbit else getEqualityComparer orbit options)
                      0 parentComponents childComponents))"

section \<open>Extensions of a path\<close>

definition tryGetExtensionFromPath :: "string \<Rightarrow> string \<Rightarrow> (string \<Rightarrow> string \<Rightarrow> bool) \<Rightarrow> string" where
  "tryGetExtensionFromPath path extension0 stringEqualityComparer =
     (let extension = (if \<not> HasPrefix extension0 ''.'' then ''.'' @ extension0 else extension0)
      in if length extension \<le> length path \<and> path ! (length path - length extension) = CHR ''.''
         then (let pathExtension = drop (length path - length extension) path
               in if stringEqualityComparer pathExtension extension then pathExtension else [])
         else [])"

fun getAnyExtensionFromPathWorker :: "string \<Rightarrow> string list \<Rightarrow> (string \<Rightarrow> string \<Rightarrow> bool) \<Rightarrow> string" where
  "getAnyExtensionFromPathWorker path [] stringEqualityComparer = []"
| "getAnyExtensionFromPathWorker path (extension # extensions) stringEqualityComparer =
     (let result = tryGetExtensionFromPath path extension stringEqualityComparer
      in if result \<noteq> [] then result
         else getAnyExtensionFromPathWorker path extensions stringEqualityComparer)"

definition GetAnyExtensionFromPath :: "(nat \<Rightarrow> nat) \<Rightarrow> string \<Rightarrow> string list \<Rightarrow> bool \<Rightarrow> string" where
  "GetAnyExtensionFromPath orbit path extensions ignoreCase =
     (if 0 < length extensions
      then getAnyExtensionFromPathWorker (RemoveTrailingDirectorySeparator path) extensions
             (GetStringEqualityComparer orbit ignoreCase)
      else (let baseFileName = GetBaseFileName path;
                extensionIndex = LastIndexByte baseFileName (CHR ''.'')
            in if 0 \<le> extensionIndex then drop (nat extensionIndex) baseFileName else []))"

definition FileExtensionIs :: "string \<Rightarrow> string \<Rightarrow> bool" where
  "FileExtensionIs path extension = (length extension < length path \<and> HasSuffix path extension)"

definition HasExtension :: "string \<Rightarrow> bool" where
  "HasExtension fileName = Contains (GetBaseFileName fileName) ''.''"

section \<open>The walk up the ancestors\<close>

text \<open>
  The callback may keep state of its own; it returns a result and whether to stop. The directory
  gets shorter in each round, or loses its backslashes in the first one.
\<close>

lemma RemoveTrailing_take: "\<exists>k. RemoveTrailingDirectorySeparator p = take k p"
  unfolding RemoveTrailingDirectorySeparator_def by (metis order_refl take_all)

lemma GetDirectoryPath_take: "\<exists>k. GetDirectoryPath d = take k (NormalizeSlashes d)"
proof (cases "GetRootLength (NormalizeSlashes d) = length (NormalizeSlashes d)")
  case True
  then have "GetDirectoryPath d = take (length (NormalizeSlashes d)) (NormalizeSlashes d)"
    by (simp add: GetDirectoryPath_def)
  then show ?thesis by blast
next
  case False
  obtain k where "RemoveTrailingDirectorySeparator (NormalizeSlashes d) = take k (NormalizeSlashes d)"
    using RemoveTrailing_take by blast
  then show ?thesis using False unfolding GetDirectoryPath_def Let_def by (metis take_take)
qed

lemma GetDirectoryPath_no_backslash: "backslash \<notin> set (GetDirectoryPath d)"
  using GetDirectoryPath_take [of d] by (metis in_set_takeD NormalizeSlashes_no_backslash)

lemma GetDirectoryPath_length: "length (GetDirectoryPath d) \<le> length d"
  using GetDirectoryPath_take [of d] by auto

lemma GetDirectoryPath_same:
  assumes "backslash \<notin> set d" "length (GetDirectoryPath d) = length d"
  shows "GetDirectoryPath d = d"
  using GetDirectoryPath_take [of d] assms by auto

definition ancestor_measure :: "string \<Rightarrow> nat" where
  "ancestor_measure d = 2 * length d + (if backslash \<in> set d then 1 else 0)"

lemma ancestor_decreases:
  assumes "GetDirectoryPath d \<noteq> d"
  shows "ancestor_measure (GetDirectoryPath d) < ancestor_measure d"
proof (cases "backslash \<in> set d")
  case True
  then show ?thesis
    using GetDirectoryPath_no_backslash [of d] GetDirectoryPath_length [of d] by (simp add: ancestor_measure_def)
next
  case False
  then have "length (GetDirectoryPath d) < length d"
    using GetDirectoryPath_same [of d] GetDirectoryPath_length [of d] assms by fastforce
  then show ?thesis using False GetDirectoryPath_no_backslash [of d] by (simp add: ancestor_measure_def)
qed

function ForEachAncestorDirectory ::
    "(string \<Rightarrow> 's \<Rightarrow> ('r \<times> bool) \<times> 's) \<Rightarrow> string \<Rightarrow> 's \<Rightarrow> 'r option \<times> 's" where
  "ForEachAncestorDirectory callback directory s =
     (let ((result, stop), s') = callback directory s
      in if stop then (Some result, s')
         else (let parentPath = GetDirectoryPath directory
               in if parentPath = directory then (None, s')
                  else ForEachAncestorDirectory callback parentPath s'))"
  by pat_completeness auto
termination
  by (relation "measure (\<lambda>(callback, directory, s). ancestor_measure directory)") (auto simp: ancestor_decreases)

declare ForEachAncestorDirectory.simps [simp del]

end
