(* ===== verification/Tspath_Props.thy ===== *)
theory Tspath_Props
  imports Tspath_Compare
begin

text \<open>
  What the path operations promise: reduced component lists are a normal form, a relative path leads
  back to its target, containment is a prefix relation on components and the ancestor walk visits
  every ancestor once.
\<close>

section \<open>The normal form of components\<close>

definition climbs :: "string list \<Rightarrow> bool" where
  \<comment> \<open>the \<open>..\<close> components all stand in front\<close>
  "climbs R = (\<exists>k R'. R = replicate k ''..'' @ R' \<and> ''..'' \<notin> set R')"

lemma climbs_snoc_name: "climbs R \<Longrightarrow> s \<noteq> ''..'' \<Longrightarrow> climbs (R @ [s])"
  unfolding climbs_def by (elim exE conjE) (rule_tac x = k in exI, rule_tac x = "R' @ [s]" in exI, simp)

lemma climbs_all: "climbs R \<Longrightarrow> R = [] \<or> last R = ''..'' \<Longrightarrow> climbs (R @ [''..''])"
proof -
  assume "climbs R" and l: "R = [] \<or> last R = ''..''"
  then obtain k R' where R: "R = replicate k ''..'' @ R'" "''..'' \<notin> set R'" by (auto simp: climbs_def)
  have "R' = []"
  proof (rule ccontr)
    assume "R' \<noteq> []"
    then have "last R = last R'" "last R' \<in> set R'" using R(1) by auto
    with l R show False by auto
  qed
  then have "R @ [''..''] = replicate (Suc k) ''..'' @ []" using R(1) by (simp add: replicate_append_same)
  then show ?thesis unfolding climbs_def by (metis empty_iff empty_set)
qed

lemma climbs_butlast: "climbs R \<Longrightarrow> climbs (butlast R)"
proof -
  assume "climbs R"
  then obtain k R' where R: "R = replicate k ''..'' @ R'" "''..'' \<notin> set R'" by (auto simp: climbs_def)
  show ?thesis
  proof (cases "R' = []")
    case True
    then have "butlast R = replicate (k - 1) ''..'' @ []" using R(1) by (simp add: butlast_conv_take)
    then show ?thesis unfolding climbs_def by (metis empty_iff empty_set)
  next
    case False
    then have "butlast R = replicate k ''..'' @ butlast R'" using R(1) by (simp add: butlast_append)
    moreover have "''..'' \<notin> set (butlast R')" using R(2) by (auto dest: in_set_butlastD)
    ultimately show ?thesis unfolding climbs_def by blast
  qed
qed

lemma climbs_one:
  assumes "climbs R" shows "climbs (reduce_one root R s)"
proof (cases "s = ''..''")
  case True
  then show ?thesis
    using climbs_all [OF assms] climbs_butlast [OF assms] assms
    by (cases "R = []"; cases "last R = ''..''"; cases "root = []") (simp_all add: reduce_one_def)
qed (use assms climbs_snoc_name [OF assms] in \<open>simp add: reduce_one_def\<close>)

definition reduced_components :: "string list \<Rightarrow> bool" where
  "reduced_components cs =
     (case cs of [] \<Rightarrow> True
      | root # R \<Rightarrow> (\<forall>x \<in> set R. x \<noteq> [] \<and> x \<noteq> ''.'') \<and> (root \<noteq> [] \<longrightarrow> ''..'' \<notin> set R) \<and> climbs R)"

lemma reduce_one_cases:
  "reduce_one root R s = R \<or> reduce_one root R s = butlast R \<or>
   reduce_one root R s = R @ [s] \<and> s \<noteq> [] \<and> s \<noteq> ''.'' \<and> (s = ''..'' \<longrightarrow> root = [] \<or> ''..'' \<in> set R)"
proof (cases "s = ''..''")
  case True
  then show ?thesis
    using last_in_set [of R] by (cases "R = []"; cases "last R = ''..''"; cases "root = []") (simp_all add: reduce_one_def)
qed (simp add: reduce_one_def)

lemma reduced_one: "reduced_components (root # R) \<Longrightarrow> reduced_components (root # reduce_one root R s)"
  using reduce_one_cases [of root R s] climbs_one [of R root s]
  unfolding reduced_components_def list.case by (metis in_set_butlastD in_set_conv_decomp rotate1.simps(2) set_ConsD set_rotate1)

lemma reduced_fold: "reduced_components (root # R) \<Longrightarrow> reduced_components (root # foldl (reduce_one root) R ss)"
  by (induction ss arbitrary: R) (auto simp: reduced_one)

lemma reducePathComponents_Cons: "reducePathComponents (root # ss) = root # foldl (reduce_one root) [] ss"
  by (simp add: reducePathComponents_def reduce_loop_fold)

lemma reducePathComponents_reduced: "reduced_components (reducePathComponents cs)"
proof (cases cs)
  case (Cons root ss)
  have "reduced_components (root # [])" by (simp add: reduced_components_def climbs_def)
  then show ?thesis unfolding Cons reducePathComponents_Cons by (rule reduced_fold)
qed (simp add: reducePathComponents_def reduced_components_def)

lemma fold_dotdots:
  "root = [] \<Longrightarrow> foldl (reduce_one root) (replicate j ''..'') (replicate k ''..'') = replicate (j + k) ''..''"
proof (induction k arbitrary: j)
  case (Suc k)
  have "reduce_one root (replicate j ''..'') ''..'' = replicate (Suc j) ''..''"
    using Suc.prems by (cases j) (simp_all add: reduce_one_def replicate_append_same)
  then show ?case using Suc.IH [of "Suc j"] Suc.prems by simp
qed simp

lemma fold_names:
  "\<forall>x \<in> set ss. x \<noteq> [] \<and> x \<noteq> ''.'' \<and> x \<noteq> ''..'' \<Longrightarrow> foldl (reduce_one root) R ss = R @ ss"
  by (induction ss arbitrary: R) (auto simp: reduce_one_def)

lemma reduced_components_fixed:
  assumes "reduced_components cs" shows "reducePathComponents cs = cs"
proof (cases cs)
  case (Cons root R)
  then have "climbs R" and el: "\<forall>x \<in> set R. x \<noteq> [] \<and> x \<noteq> ''.''" "root \<noteq> [] \<longrightarrow> ''..'' \<notin> set R"
    using assms by (simp_all add: reduced_components_def)
  then obtain k R' where R: "R = replicate k ''..'' @ R'" "''..'' \<notin> set R'"
    unfolding climbs_def by blast
  have "foldl (reduce_one root) [] (replicate k ''..'') = replicate k ''..''"
  proof (cases "root = []")
    case True
    then show ?thesis using fold_dotdots [of root 0 k] by simp
  next
    case False
    then have "k = 0" using el(2) R(1) by (cases k) auto
    then show ?thesis by simp
  qed
  moreover have "\<forall>x \<in> set R'. x \<noteq> [] \<and> x \<noteq> ''.'' \<and> x \<noteq> ''..''" using el(1) R by (metis Un_iff set_append)
  then have "foldl (reduce_one root) (replicate k ''..'') R' = replicate k ''..'' @ R'" by (rule fold_names)
  ultimately show ?thesis unfolding Cons reducePathComponents_Cons R(1) foldl_append by simp
qed (simp add: reducePathComponents_def)

text \<open>C22. Reduction brings components into a normal form: no empty or \<open>.\<close> component is left, \<open>..\<close> only
  in front and only when the path has no root, and reducing again changes nothing.\<close>

theorem reducePathComponents_normal:
  "reduced_components (reducePathComponents cs) \<and>
   reducePathComponents (reducePathComponents cs) = reducePathComponents cs"
  using reducePathComponents_reduced reduced_components_fixed by blast

section \<open>Relative paths lead back\<close>

lemma fold_pops:
  "''..'' \<notin> set R \<Longrightarrow> k \<le> length R \<Longrightarrow>
   foldl (reduce_one root) R (replicate k ''..'') = take (length R - k) R"
proof (induction k arbitrary: R)
  case (Suc k)
  then have "R \<noteq> []" by auto
  then have l: "last R \<noteq> ''..''" using Suc.prems by (metis last_in_set)
  then have "reduce_one root R ''..'' = butlast R" using \<open>R \<noteq> []\<close> by (simp add: reduce_one_def)
  moreover have "''..'' \<notin> set (butlast R)" using Suc.prems by (auto dest: in_set_butlastD)
  moreover have "take (length R - Suc k) R = take (length (butlast R) - k) (butlast R)"
    by (simp add: butlast_conv_take)
  ultimately show ?case using Suc.IH [of "butlast R"] Suc.prems by simp
qed simp

lemma GetPathComponents_nonempty: "reducePathComponents (GetPathComponents p cd) \<noteq> []"
  by (simp add: GetPathComponents_def pathComponents_def reducePathComponents_Cons Let_def)

lemma common_start_shift: "start \<le> common_start eq start fs ts"
  by (induction eq start fs ts rule: common_start.induct) (force, simp, simp)

lemma common_start_spec:
  "common_start eq start fs ts = start + n \<Longrightarrow>
   n \<le> length fs \<and> n \<le> length ts \<and> (\<forall>i<n. eq (start + i) (fs ! i) (ts ! i)) \<and>
   (n < length fs \<and> n < length ts \<longrightarrow> \<not> eq (start + n) (fs ! n) (ts ! n))"
proof (induction eq start fs ts arbitrary: n rule: common_start.induct)
  case (1 eq start f fs t ts)
  show ?case
  proof (cases "eq start f t")
    case True
    with "1.prems" have c: "common_start eq (start + 1) fs ts = start + n" by simp
    then obtain m where m: "n = Suc m" using common_start_shift [of "start + 1" eq fs ts] by (cases n) auto
    from "1.IH" [of m] True c m show ?thesis by (auto simp: nth_Cons split: nat.splits)
  qed (use "1.prems" in simp)
qed auto

text \<open>C20. For two absolute paths and case-sensitive names, when \<open>GetPathComponentsRelativeTo\<close> returns a
  relative component list, appending it to the components of the start and reducing gives the target:
  the start's root followed by the target's components.\<close>

theorem relative_components_resolve:
  assumes cs: "UseCaseSensitiveFileNames options"
    and abs: "hd (GetNormalizedPathComponents fromPath (CurrentDirectory options)) \<noteq> []"
      "hd (GetNormalizedPathComponents to (CurrentDirectory options)) \<noteq> []"
    and rel: "hd (GetPathComponentsRelativeTo orbit fromPath to options) = []"
  shows "reducePathComponents (GetNormalizedPathComponents fromPath (CurrentDirectory options) @
             tl (GetPathComponentsRelativeTo orbit fromPath to options)) =
         hd (GetNormalizedPathComponents fromPath (CurrentDirectory options)) #
           tl (GetNormalizedPathComponents to (CurrentDirectory options))"
proof -
  define eq where "eq = (\<lambda>i::nat. if i = 0 then EquateStringCaseInsensitive orbit else getEqualityComparer orbit options)"
  obtain root R where F: "GetNormalizedPathComponents fromPath (CurrentDirectory options) = root # R"
    using GetPathComponents_nonempty unfolding GetNormalizedPathComponents_def by (meson neq_Nil_conv)
  obtain root' T where T: "GetNormalizedPathComponents to (CurrentDirectory options) = root' # T"
    using GetPathComponents_nonempty unfolding GetNormalizedPathComponents_def by (meson neq_Nil_conv)
  have rR: "root \<noteq> []" "\<forall>x \<in> set R. x \<noteq> [] \<and> x \<noteq> ''.'' \<and> x \<noteq> ''..''"
    using abs(1) reducePathComponents_reduced [of "GetPathComponents fromPath (CurrentDirectory options)"] F
    unfolding GetNormalizedPathComponents_def by (auto simp: reduced_components_def)
  have rT: "\<forall>x \<in> set T. x \<noteq> [] \<and> x \<noteq> ''.'' \<and> x \<noteq> ''..''"
    using abs(2) reducePathComponents_reduced [of "GetPathComponents to (CurrentDirectory options)"] T
    unfolding GetNormalizedPathComponents_def by (auto simp: reduced_components_def)
  define n where "n = common_start eq 0 (root # R) (root' # T)"
  have res: "GetPathComponentsRelativeTo orbit fromPath to options =
      (if n = 0 then root' # T else [] # replicate (length (root # R) - n) ''..'' @ drop n (root' # T))"
    using F T unfolding GetPathComponentsRelativeTo_def GetNormalizedPathComponents_def n_def eq_def by (simp add: Let_def)
  have n0: "n \<noteq> 0"
  proof
    assume "n = 0"
    then have "hd (GetPathComponentsRelativeTo orbit fromPath to options) = root'" using res by simp
    with rel abs(2) T show False by simp
  qed
  then obtain m where m: "n = Suc m" by (cases n) auto
  have sp: "n \<le> length (root # R)" "n \<le> length (root' # T)"
    "\<And>i. i < n \<Longrightarrow> eq i ((root # R) ! i) ((root' # T) ! i)"
    using common_start_spec [of eq 0 "root # R" "root' # T" n] by (simp_all add: n_def)
  have "R ! i = T ! i" if "i < m" for i
    using sp(3) [of "Suc i"] that cs m
    by (simp add: eq_def getEqualityComparer_def GetStringEqualityComparer_def EquateStringCaseSensitive_def)
  then have tk: "take m R = take m T" using sp(1,2) m by (intro nth_equalityI) auto
  have "foldl (reduce_one root) [] (R @ replicate (length R - m) ''..'' @ drop m T) = take m R @ drop m T"
  proof -
    have "foldl (reduce_one root) [] R = R" using fold_names [OF rR(2), of root "[]"] by simp
    moreover have "foldl (reduce_one root) R (replicate (length R - m) ''..'') = take m R"
      using fold_pops [of R "length R - m" root] rR(2) sp(1) m by (auto simp: Suc_le_mono)
    moreover have "foldl (reduce_one root) (take m R) (drop m T) = take m R @ drop m T"
      using rT by (intro fold_names) (auto dest: in_set_dropD)
    ultimately show ?thesis by simp
  qed
  then show ?thesis
    unfolding F T res using n0 m by (simp add: reducePathComponents_Cons tk)
qed

lemma relative_components_resolve_witness:
  "reducePathComponents (GetNormalizedPathComponents ''/a/b'' ''/'' @
     tl (GetPathComponentsRelativeTo id ''/a/b'' ''/a/c/../d'' \<lparr>UseCaseSensitiveFileNames = True, CurrentDirectory = ''/''\<rparr>))
   = [''/'', ''a'', ''d'']"
proof -
  let ?o = "\<lparr>UseCaseSensitiveFileNames = True, CurrentDirectory = ''/''\<rparr>"
  have h: "UseCaseSensitiveFileNames ?o"
    "hd (GetNormalizedPathComponents ''/a/b'' (CurrentDirectory ?o)) \<noteq> []"
    "hd (GetNormalizedPathComponents ''/a/c/../d'' (CurrentDirectory ?o)) \<noteq> []"
    "hd (GetPathComponentsRelativeTo id ''/a/b'' ''/a/c/../d'' ?o) = []"
    by code_simp+
  have "hd (GetNormalizedPathComponents ''/a/b'' (CurrentDirectory ?o)) #
      tl (GetNormalizedPathComponents ''/a/c/../d'' (CurrentDirectory ?o)) = [''/'', ''a'', ''d'']"
    by code_simp
  with relative_components_resolve [OF h] show ?thesis by simp
qed

section \<open>Containment\<close>

lemma contains_loop_iff:
  "i + length ps \<le> length cs \<Longrightarrow>
   contains_loop eq i ps cs \<longleftrightarrow> (\<forall>k < length ps. eq (i + k) (ps ! k) (cs ! (i + k)))"
proof (induction eq i ps cs rule: contains_loop.induct)
  case (2 comparer i p ps cs)
  have "contains_loop comparer (i + 1) ps cs \<longleftrightarrow> (\<forall>k<length ps. comparer (i + 1 + k) (ps ! k) (cs ! (i + 1 + k)))"
    if "comparer i p (cs ! i)" using "2.IH" "2.prems" that by simp
  then show ?case
    by (auto simp: nth_Cons All_less_Suc2 split: nat.splits)
qed simp

definition component_equal :: "(nat \<Rightarrow> nat) \<Rightarrow> ComparePathsOptions \<Rightarrow> nat \<Rightarrow> string \<Rightarrow> string \<Rightarrow> bool" where
  "component_equal orbit options i =
     (if i = 0 then EquateStringCaseInsensitive orbit else getEqualityComparer orbit options)"

lemma component_equal_refl: "component_equal orbit options i s s"
  by (simp add: component_equal_def getEqualityComparer_def EquateStringCaseInsensitive_def)

text \<open>The components \<open>ContainsPath\<close> looks at.\<close>

definition comps :: "ComparePathsOptions \<Rightarrow> string \<Rightarrow> string list" where
  "comps options p = reducePathComponents (GetPathComponents (CombinePaths (CurrentDirectory options) [p]) [])"

lemma ContainsPath_iff:
  "ContainsPath orbit parent child options \<longleftrightarrow>
     CombinePaths (CurrentDirectory options) [parent] \<noteq> [] \<and> CombinePaths (CurrentDirectory options) [child] \<noteq> [] \<and>
     length (comps options parent) \<le> length (comps options child) \<and>
     list_all2 (\<lambda>i p. component_equal orbit options i p (comps options child ! i))
       [0..<length (comps options parent)] (comps options parent)"
proof -
  let ?P = "comps options parent" and ?C = "comps options child"
  have "length ?P \<le> length ?C \<Longrightarrow>
    contains_loop (component_equal orbit options) 0 ?P ?C \<longleftrightarrow>
    list_all2 (\<lambda>i p. component_equal orbit options i p (?C ! i)) [0..<length ?P] ?P"
    by (subst contains_loop_iff) (auto simp: list_all2_conv_all_nth)
  moreover have "CombinePaths (CurrentDirectory options) [parent] = CombinePaths (CurrentDirectory options) [child] \<Longrightarrow>
     list_all2 (\<lambda>i p. component_equal orbit options i p (?C ! i)) [0..<length ?P] ?P"
    by (auto simp: list_all2_conv_all_nth comps_def component_equal_refl)
  moreover have "(\<lambda>i. if i = 0 then EquateStringCaseInsensitive orbit else getEqualityComparer orbit options)
      = component_equal orbit options"
    by (auto simp: component_equal_def fun_eq_iff)
  ultimately show ?thesis
    unfolding ContainsPath_def Let_def comps_def [symmetric] by (auto simp: comps_def)
qed

lemma components_equal_iff:
  "length P \<le> length C \<Longrightarrow>
   list_all2 (\<lambda>i p. component_equal orbit options i p ((root' # C) ! i)) [0..<length (root # P)] (root # P) \<longleftrightarrow>
   EquateStringCaseInsensitive orbit root root' \<and>
   list_all2 (getEqualityComparer orbit options) P (take (length P) C)"
  by (simp add: list_all2_conv_all_nth component_equal_def All_less_Suc2 del: upt_Suc)

lemma list_all2_front:
  "list_all2 R xs (take (length xs) ys) \<and> length xs \<le> length ys \<longleftrightarrow>
   (\<exists>same below. ys = same @ below \<and> list_all2 R xs same)"
proof
  assume "list_all2 R xs (take (length xs) ys) \<and> length xs \<le> length ys"
  then have "ys = take (length xs) ys @ drop (length xs) ys \<and> list_all2 R xs (take (length xs) ys)" by simp
  then show "\<exists>same below. ys = same @ below \<and> list_all2 R xs same" by blast
next
  assume "\<exists>same below. ys = same @ below \<and> list_all2 R xs same"
  then obtain same below where "ys = same @ below" "list_all2 R xs same" by blast
  then show "list_all2 R xs (take (length xs) ys) \<and> length xs \<le> length ys" by (simp add: list_all2_lengthD)
qed

text \<open>C35. \<open>ContainsPath\<close> holds exactly when both paths, combined with the current directory, are not empty and
  the reduced components of the parent are a prefix of the child's: the roots are equal up to case, and the
  names below them are the first names of the child, equal up to case only where names are not case-sensitive.
  (A path therefore contains itself.)\<close>

theorem ContainsPath_prefix:
  assumes "parent' = CombinePaths (CurrentDirectory options) [parent]"
    and "child' = CombinePaths (CurrentDirectory options) [child]"
    and "root # names = reducePathComponents (GetPathComponents parent' [])"
    and "root' # names' = reducePathComponents (GetPathComponents child' [])"
  shows "ContainsPath orbit parent child options \<longleftrightarrow>
    parent' \<noteq> [] \<and> child' \<noteq> [] \<and> EqualFold orbit root root' \<and>
    (if UseCaseSensitiveFileNames options then prefix names names'
     else \<exists>same below. names' = same @ below \<and> list_all2 (EqualFold orbit) names same)"
proof -
  have P: "comps options parent = root # names" and C: "comps options child = root' # names'"
    using assms by (simp_all add: comps_def)
  have fold: "EquateStringCaseInsensitive orbit a b = EqualFold orbit a b" for a b
    by (auto simp: EquateStringCaseInsensitive_def EqualFold_def)
  have names: "list_all2 (getEqualityComparer orbit options) names (take (length names) names') \<and> length names \<le> length names' \<longleftrightarrow>
    (if UseCaseSensitiveFileNames options then prefix names names'
     else \<exists>same below. names' = same @ below \<and> list_all2 (EqualFold orbit) names same)"
  proof (cases "UseCaseSensitiveFileNames options")
    case True
    then have "getEqualityComparer orbit options = (=)"
      by (simp add: fun_eq_iff getEqualityComparer_def GetStringEqualityComparer_def EquateStringCaseSensitive_def)
    then have "list_all2 (getEqualityComparer orbit options) names (take (length names) names') \<longleftrightarrow>
        names = take (length names) names'"
      by (simp only: list.rel_eq)
    with True show ?thesis by (auto simp: prefix_def) (metis append_take_drop_id)
  next
    case False
    then have "getEqualityComparer orbit options = EqualFold orbit"
      by (simp add: fun_eq_iff getEqualityComparer_def GetStringEqualityComparer_def fold)
    with False show ?thesis by (simp add: list_all2_front)
  qed
  have len: "length (root # names) \<le> length (root' # names') \<longleftrightarrow> length names \<le> length names'" by simp
  have "ContainsPath orbit parent child options \<longleftrightarrow>
      parent' \<noteq> [] \<and> child' \<noteq> [] \<and> EqualFold orbit root root' \<and>
      (list_all2 (getEqualityComparer orbit options) names (take (length names) names') \<and> length names \<le> length names')"
    using components_equal_iff [of names names' orbit options root' root]
    unfolding ContainsPath_iff P C assms(1,2) [symmetric] fold len by blast
  then show ?thesis unfolding names .
qed

lemma ContainsPath_prefix_witness:
  "\<not> ContainsPath id ''/a/b'' ''/a/./c/../bc/d'' \<lparr>UseCaseSensitiveFileNames = True, CurrentDirectory = ''/''\<rparr> \<and>
   ContainsPath id ''/a/b'' ''/a/./c/../b/d'' \<lparr>UseCaseSensitiveFileNames = True, CurrentDirectory = ''/''\<rparr>"
proof -
  let ?o = "\<lparr>UseCaseSensitiveFileNames = True, CurrentDirectory = ''/''\<rparr>"
  have p: "''/a/b'' = CombinePaths (CurrentDirectory ?o) [''/a/b'']"
    "[''/'', ''a'', ''b''] = reducePathComponents (GetPathComponents ''/a/b'' [])" by code_simp+
  have c: "''/a/./c/../bc/d'' = CombinePaths (CurrentDirectory ?o) [''/a/./c/../bc/d'']"
    "[''/'', ''a'', ''bc'', ''d''] = reducePathComponents (GetPathComponents ''/a/./c/../bc/d'' [])" by code_simp+
  have c': "''/a/./c/../b/d'' = CombinePaths (CurrentDirectory ?o) [''/a/./c/../b/d'']"
    "[''/'', ''a'', ''b'', ''d''] = reducePathComponents (GetPathComponents ''/a/./c/../b/d'' [])" by code_simp+
  have "EqualFold id ''/'' ''/''" by code_simp
  then show ?thesis
    using ContainsPath_prefix [OF p(1) c(1) p(2) c(2), of id] ContainsPath_prefix [OF p(1) c'(1) p(2) c'(2), of id]
    by simp
qed

section \<open>Comparison is not an ordering\<close>

text \<open>
  \<open>ComparePaths\<close> compares the rest of the paths byte by byte when neither has a relative segment, and
  component by component otherwise. \<open>/\<close> sorts after \<open>.\<close>, so the two disagree on \<open>a/b\<close> and \<open>a.b\<close>.
\<close>

abbreviation cs_root :: ComparePathsOptions where
  "cs_root \<equiv> \<lparr>UseCaseSensitiveFileNames = True, CurrentDirectory = ''/''\<rparr>"

lemma ComparePaths_not_transitive:
  "ComparePaths upper ''/x/a/b'' ''/x/./a/b'' cs_root = 0 \<and>
   ComparePaths upper ''/x/./a/b'' ''/x/a.b'' cs_root < 0 \<and>
   0 < ComparePaths upper ''/x/a/b'' ''/x/a.b'' cs_root"
  by (intro conjI) code_simp+

section \<open>The ancestor walk\<close>

lemma ancestor_walk_aux:
  assumes "ForEachAncestorDirectory (\<lambda>d ds. (((), P d), ds @ [d])) d ds0 = (r, ds)"
  shows "\<exists>new. ds = ds0 @ d # new \<and>
     (\<forall>i < length new. \<not> P ((d # new) ! i) \<and> GetDirectoryPath ((d # new) ! i) = new ! i \<and> new ! i \<noteq> (d # new) ! i) \<and>
     (if r = None then \<not> P (last (d # new)) \<and> GetDirectoryPath (last (d # new)) = last (d # new)
      else P (last (d # new)))"
  using assms
proof (induction "ancestor_measure d" arbitrary: d ds0 rule: less_induct)
  case less
  show ?case
  proof (cases "P d \<or> GetDirectoryPath d = d")
    case True
    then have "ds = ds0 @ [d]" "if r = None then \<not> P d \<and> GetDirectoryPath d = d else P d"
      using less.prems by (subst (asm) ForEachAncestorDirectory.simps, auto split: if_splits)+
    then show ?thesis by (intro exI [of _ "[]"]) simp
  next
    case False
    then have eq: "ForEachAncestorDirectory (\<lambda>d ds. (((), P d), ds @ [d])) (GetDirectoryPath d) (ds0 @ [d]) = (r, ds)"
      using less.prems by (subst (asm) ForEachAncestorDirectory.simps) simp
    from False ancestor_decreases have m: "ancestor_measure (GetDirectoryPath d) < ancestor_measure d" by blast
    from less.hyps [OF m eq] obtain new where
      n: "ds = (ds0 @ [d]) @ GetDirectoryPath d # new"
        "\<forall>i < length new. \<not> P ((GetDirectoryPath d # new) ! i) \<and>
           GetDirectoryPath ((GetDirectoryPath d # new) ! i) = new ! i \<and> new ! i \<noteq> (GetDirectoryPath d # new) ! i"
        "if r = None then \<not> P (last (GetDirectoryPath d # new)) \<and>
            GetDirectoryPath (last (GetDirectoryPath d # new)) = last (GetDirectoryPath d # new)
         else P (last (GetDirectoryPath d # new))"
      by blast
    show ?thesis
      using n False by (intro exI [of _ "GetDirectoryPath d # new"]) (auto simp: All_less_Suc2 split: if_splits)
  qed
qed

text \<open>C34. The ancestor walk ends for every callback: it visits the directory and then each parent in
  turn, stops at the first directory the callback accepts, and gives up only at a directory that is
  its own parent.\<close>

theorem ancestor_walk:
  assumes "ForEachAncestorDirectory (\<lambda>d ds. (((), P d), ds @ [d])) directory [] = (r, ds)"
  shows "ds \<noteq> [] \<and> hd ds = directory \<and>
     (\<forall>i < length ds - 1. \<not> P (ds ! i) \<and> ds ! Suc i = GetDirectoryPath (ds ! i) \<and> ds ! Suc i \<noteq> ds ! i) \<and>
     (if r = None then \<not> P (last ds) \<and> GetDirectoryPath (last ds) = last ds else P (last ds))"
proof -
  obtain new where "ds = [] @ directory # new" and
    n: "\<forall>i < length new. \<not> P ((directory # new) ! i) \<and> GetDirectoryPath ((directory # new) ! i) = new ! i \<and> new ! i \<noteq> (directory # new) ! i"
      "if r = None then \<not> P (last (directory # new)) \<and> GetDirectoryPath (last (directory # new)) = last (directory # new)
       else P (last (directory # new))"
    using ancestor_walk_aux [OF assms] by blast
  then show ?thesis by auto
qed

lemma ancestor_walk_witness:
  "ForEachAncestorDirectory (\<lambda>d ds. (((), d = ''/a''), ds @ [d])) ''/a/b/c'' [] = (Some (), [''/a/b/c'', ''/a/b'', ''/a'']) \<and>
   ''/a'' = GetDirectoryPath ''/a/b''"
proof -
  have run: "ForEachAncestorDirectory (\<lambda>d ds. (((), d = ''/a''), ds @ [d])) ''/a/b/c'' [] =
      (Some (), [''/a/b/c'', ''/a/b'', ''/a''])"
    by code_simp
  with ancestor_walk [OF run] show ?thesis by (auto dest: spec [of _ 1])
qed

end
