(* ===== verification/Tspath_Ext.thy ===== *)
theory Tspath_Ext
  imports Tspath_Compare
begin

text \<open>
  File extensions (\<open>internal/tspath/extension.go\<close>). \<open>filepath.Ext\<close> is the standard library's; which
  bytes separate path elements depends on the operating system and is the argument \<open>isPathSeparator\<close>.
\<close>

definition supportedDeclarationExtensions :: "string list" where
  "supportedDeclarationExtensions = [''.d.ts'', ''.d.cts'', ''.d.mts'']"

definition supportedTSImplementationExtensions :: "string list" where
  "supportedTSImplementationExtensions = [''.ts'', ''.tsx'', ''.mts'', ''.cts'']"

definition supportedTSExtensionsForExtractExtension :: "string list" where
  "supportedTSExtensionsForExtractExtension =
     [''.d.ts'', ''.d.cts'', ''.d.mts'', ''.ts'', ''.tsx'', ''.mts'', ''.cts'']"

definition SupportedTSExtensionsFlat :: "string list" where
  "SupportedTSExtensionsFlat = [''.ts'', ''.tsx'', ''.d.ts'', ''.cts'', ''.d.cts'', ''.mts'', ''.d.mts'']"

definition SupportedTSExtensionsWithJsonFlat :: "string list" where
  "SupportedTSExtensionsWithJsonFlat = SupportedTSExtensionsFlat @ [''.json'']"

definition SupportedJSExtensionsFlat :: "string list" where
  "SupportedJSExtensionsFlat = [''.js'', ''.jsx'', ''.mjs'', ''.cjs'']"

definition ExtensionIsTs :: "string \<Rightarrow> bool" where
  "ExtensionIsTs ext =
     (ext = ''.ts'' \<or> ext = ''.tsx'' \<or> ext = ''.d.ts'' \<or> ext = ''.mts'' \<or> ext = ''.d.mts'' \<or> ext = ''.cts'' \<or>
      ext = ''.d.cts'' \<or>
      7 \<le> length ext \<and> take 3 ext = ''.d.'' \<and> drop (length ext - 3) ext = ''.ts'')"

definition extensionsToRemove :: "string list" where
  "extensionsToRemove =
     [''.d.ts'', ''.d.mts'', ''.d.cts'', ''.mjs'', ''.mts'', ''.cjs'', ''.cts'', ''.ts'', ''.js'', ''.tsx'', ''.jsx'', ''.json'']"

definition filepath_Ext :: "(char \<Rightarrow> bool) \<Rightarrow> string \<Rightarrow> string" where
  \<comment> \<open>the suffix from the last dot of the last element on, or the empty string\<close>
  "filepath_Ext isPathSeparator path =
     (let element = rev (takeWhile (\<lambda>c. \<not> isPathSeparator c) (rev path))
      in case find_last_byte (CHR ''.'') element of None \<Rightarrow> [] | Some i \<Rightarrow> drop i element)"

fun remove_known :: "string \<Rightarrow> string list \<Rightarrow> string option" where
  "remove_known path [] = None"
| "remove_known path (ext # exts) =
     (if HasSuffix path ext then Some (take (length path - length ext) path) else remove_known path exts)"

definition RemoveFileExtension :: "(char \<Rightarrow> bool) \<Rightarrow> string \<Rightarrow> string" where
  "RemoveFileExtension isPathSeparator path =
     (case remove_known path extensionsToRemove of
        Some p \<Rightarrow> p
      | None \<Rightarrow> take (length path - length (filepath_Ext isPathSeparator path)) path)"

fun first_extension :: "string \<Rightarrow> string list \<Rightarrow> string" where
  "first_extension p [] = []"
| "first_extension p (ext # exts) = (if FileExtensionIs p ext then ext else first_extension p exts)"

definition TryGetExtensionFromPath :: "string \<Rightarrow> string" where
  "TryGetExtensionFromPath p = first_extension p extensionsToRemove"

definition RemoveExtension :: "string \<Rightarrow> string \<Rightarrow> string go" where
  "RemoveExtension path extension = go_slice path 0 (int (length path) - int (length extension))"

fun FileExtensionIsOneOf :: "string \<Rightarrow> string list \<Rightarrow> bool" where
  "FileExtensionIsOneOf path [] = False"
| "FileExtensionIsOneOf path (ext # exts) =
     (if FileExtensionIs path ext then True else FileExtensionIsOneOf path exts)"

definition TryExtractTSExtension :: "string \<Rightarrow> string" where
  "TryExtractTSExtension fileName = first_extension fileName supportedTSExtensionsForExtractExtension"

definition HasTSFileExtension :: "string \<Rightarrow> bool" where
  "HasTSFileExtension path = FileExtensionIsOneOf path SupportedTSExtensionsFlat"

fun suffix_extension :: "string \<Rightarrow> string list \<Rightarrow> string option" where
  "suffix_extension base [] = None"
| "suffix_extension base (ext # exts) = (if HasSuffix base ext then Some ext else suffix_extension base exts)"

definition GetDeclarationFileExtension :: "string \<Rightarrow> string" where
  "GetDeclarationFileExtension fileName =
     (let base = GetBaseFileName fileName
      in case suffix_extension base supportedDeclarationExtensions of
           Some ext \<Rightarrow> ext
         | None \<Rightarrow>
             (if HasSuffix base ''.ts'' then
                (let i = Index base ''.d.'' in if 0 \<le> i then drop (nat i) base else [])
              else []))"

definition IsDeclarationFileName :: "string \<Rightarrow> bool" where
  "IsDeclarationFileName fileName = (GetDeclarationFileExtension fileName \<noteq> [])"

definition HasImplementationTSFileExtension :: "string \<Rightarrow> bool" where
  "HasImplementationTSFileExtension path =
     (FileExtensionIsOneOf path supportedTSImplementationExtensions \<and> \<not> IsDeclarationFileName path)"

definition HasJSFileExtension :: "string \<Rightarrow> bool" where
  "HasJSFileExtension path = FileExtensionIsOneOf path SupportedJSExtensionsFlat"

definition HasJSONFileExtension :: "string \<Rightarrow> bool" where
  "HasJSONFileExtension path = FileExtensionIs path ''.json''"

definition ExtensionIsOneOf :: "string \<Rightarrow> string list \<Rightarrow> bool" where
  "ExtensionIsOneOf ext extensions = List.member extensions ext"

definition GetDeclarationEmitExtensionForPath :: "string \<Rightarrow> string" where
  "GetDeclarationEmitExtensionForPath path =
     (if FileExtensionIsOneOf path [''.mjs'', ''.mts''] then ''.d.mts''
      else if FileExtensionIsOneOf path [''.cjs'', ''.cts''] then ''.d.cts''
      else if FileExtensionIsOneOf path [''.json''] then ''.d.json.ts''
      else ''.d.ts'')"

definition changeAnyExtension :: "(nat \<Rightarrow> nat) \<Rightarrow> string \<Rightarrow> string \<Rightarrow> string list \<Rightarrow> bool \<Rightarrow> string" where
  "changeAnyExtension orbit path ext extensions ignoreCase =
     (let pathext = GetAnyExtensionFromPath orbit path extensions ignoreCase
      in if pathext \<noteq> [] then
           (let result = take (length path - length pathext) path
            in if HasPrefix ext ''.'' then result @ ext else result @ ''.'' @ ext)
         else path)"

definition ChangeExtension :: "(nat \<Rightarrow> nat) \<Rightarrow> string \<Rightarrow> string \<Rightarrow> string" where
  "ChangeExtension orbit path newExtension = changeAnyExtension orbit path newExtension extensionsToRemove False"

section \<open>Removing an extension\<close>

lemma HasSuffix_both:
  "HasSuffix p a \<Longrightarrow> HasSuffix p b \<Longrightarrow> length a \<le> length b \<Longrightarrow> HasSuffix b a"
  unfolding HasSuffix_iff suffix_def [symmetric] by (rule suffix_length_suffix)

text \<open>No extension of the list is a proper suffix of a later one, so the first match is the longest.\<close>

fun longest_first :: "string list \<Rightarrow> bool" where
  "longest_first [] = True"
| "longest_first (e # es) = (list_all (\<lambda>x. \<not> (length e < length x \<and> HasSuffix x e)) es \<and> longest_first es)"

lemma extensions_longest_first: "longest_first extensionsToRemove"
  by code_simp

lemma remove_known_longest:
  assumes "longest_first exts" "e \<in> set exts" "HasSuffix path e"
  shows "\<exists>ext. ext \<in> set exts \<and> HasSuffix path ext \<and> length e \<le> length ext \<and>
    remove_known path exts = Some (take (length path - length ext) path)"
  using assms
proof (induction exts)
  case (Cons x xs)
  show ?case
  proof (cases "HasSuffix path x")
    case True
    have "length e \<le> length x"
    proof (rule ccontr)
      assume l: "\<not> length e \<le> length x"
      then have "e \<in> set xs" using Cons.prems(2) by auto
      moreover have "HasSuffix e x" using HasSuffix_both [OF True Cons.prems(3)] l by simp
      ultimately show False using Cons.prems(1) l by (auto simp: list_all_iff)
    qed
    with True show ?thesis by auto
  qed (use Cons in auto)
qed simp

text \<open>\<open>RemoveFileExtension\<close> removes the longest known extension the path ends in (\<open>.d.ts\<close> and not just
  \<open>.ts\<close>), and removes nothing else.\<close>

theorem RemoveFileExtension_longest:
  assumes "e \<in> set extensionsToRemove" and "HasSuffix path e"
  shows "\<exists>ext. ext \<in> set extensionsToRemove \<and> length e \<le> length ext \<and>
    path = RemoveFileExtension isPathSeparator path @ ext"
proof -
  obtain ext where x: "ext \<in> set extensionsToRemove" "HasSuffix path ext" "length e \<le> length ext"
    "remove_known path extensionsToRemove = Some (take (length path - length ext) path)"
    using remove_known_longest [OF extensions_longest_first assms] by blast
  have "path = take (length path - length ext) path @ ext"
    using x(2) unfolding HasSuffix_def by (metis append_take_drop_id)
  with x show ?thesis by (auto simp: RemoveFileExtension_def)
qed

lemma RemoveFileExtension_longest_witness:
  "\<exists>ext. ext \<in> set extensionsToRemove \<and> 3 \<le> length ext \<and>
     ''a.d.ts'' = RemoveFileExtension (\<lambda>c. c = slash) ''a.d.ts'' @ ext"
proof -
  have "''.ts'' \<in> set extensionsToRemove" "HasSuffix ''a.d.ts'' ''.ts''" by code_simp+
  from RemoveFileExtension_longest [OF this, of "\<lambda>c. c = slash"] show ?thesis by (simp add: numeral_3_eq_3)
qed

end
