(* ===== verification/Sourcemap_Vlq.thy ===== *)
theory Sourcemap_Vlq
  imports Go_Strings
begin

text \<open>
  The base 64 VLQ numbers of source maps: \<open>appendBase64VLQ\<close> and \<open>base64FormatEncode\<close> of
  \<open>internal/sourcemap/generator.go\<close>, \<open>base64VLQFormatDecode\<close> and \<open>base64FormatDecode\<close> of
  \<open>internal/sourcemap/decoder.go\<close>. Values are Go's 64-bit \<open>int\<close>: shifts and negation wrap, which
  \<open>int64\<close> writes out.
\<close>

unbundle bit_operations_syntax

section \<open>Digits\<close>

definition base64FormatEncode :: "int \<Rightarrow> char go" where
  "base64FormatEncode value =
     (if 0 \<le> value \<and> value < 26 then Inr (char_of (65 + nat value))
      else if 26 \<le> value \<and> value < 52 then Inr (char_of (97 + nat value - 26))
      else if 52 \<le> value \<and> value < 62 then Inr (char_of (48 + nat value - 52))
      else if value = 62 then Inr (CHR ''+'')
      else if value = 63 then Inr (CHR ''/'')
      else Inl (Panicked ''not a base64 value''))"

definition base64FormatDecode :: "char \<Rightarrow> int" where
  "base64FormatDecode ch =
     (if CHR ''A'' \<le> ch \<and> ch \<le> CHR ''Z'' then of_char ch - 65
      else if CHR ''a'' \<le> ch \<and> ch \<le> CHR ''z'' then of_char ch - 97 + 26
      else if CHR ''0'' \<le> ch \<and> ch \<le> CHR ''9'' then of_char ch - 48 + 52
      else if ch = CHR ''+'' then 62
      else if ch = CHR ''/'' then 63
      else -1)"

section \<open>Encoding\<close>

definition vlq_signed :: "int \<Rightarrow> int" where
  \<comment> \<open>the sign becomes the least significant bit\<close>
  "vlq_signed inValue =
     (if inValue < 0 then int64 (int64 (push_bit 1 (int64 (- inValue))) + 1) else int64 (push_bit 1 inValue))"

function vlq_emit :: "int \<Rightarrow> string \<Rightarrow> string go" where
  "vlq_emit inValue mappings =
     (let currentDigit = inValue AND 31;
          inValue' = drop_bit 5 inValue;
          currentDigit' = (if 0 < inValue' then currentDigit OR 32 else currentDigit)
      in go_bind (base64FormatEncode currentDigit') (\<lambda>c.
           if inValue' \<le> 0 then Inr (mappings @ [c]) else vlq_emit inValue' (mappings @ [c])))"
  by pat_completeness auto
termination
  by (relation "measure (\<lambda>(v, m). nat v)") (auto simp: drop_bit_eq_div)

declare vlq_emit.simps [simp del]

definition appendBase64VLQ :: "int \<Rightarrow> string \<Rightarrow> string go" where
  "appendBase64VLQ inValue mappings = vlq_emit (vlq_signed inValue) mappings"

section \<open>Decoding\<close>

text \<open>
  The loop of \<open>base64VLQFormatDecode\<close> on the position \<open>pos\<close> of the decoder. An error leaves the position
  where it is and gives the message to report.
\<close>

function vlq_read :: "string \<Rightarrow> nat \<Rightarrow> nat \<Rightarrow> int \<Rightarrow> nat \<times> (string + int)" where
  "vlq_read mappings pos shiftCount value =
     (if length mappings \<le> pos
      then (pos, Inl ''Error in decoding base64VLQFormatDecode, past the mapping string'')
      else
        (let currentByte = base64FormatDecode (mappings ! pos) in
         if currentByte = -1 then (pos, Inl ''Invalid character in VLQ'')
         else
           (let moreDigits = (currentByte AND 32 \<noteq> 0);
                value' = value OR int64 (push_bit shiftCount (currentByte AND 31))
            in if moreDigits then vlq_read mappings (pos + 1) (shiftCount + 5) value'
               else (pos + 1, Inr value'))))"
  by pat_completeness auto
termination
  by (relation "measure (\<lambda>(m, pos, shiftCount, value). length m - pos)") auto

declare vlq_read.simps [simp del]

definition vlq_unsigned :: "int \<Rightarrow> int" where
  "vlq_unsigned value = (if value AND 1 = 0 then drop_bit 1 value else int64 (- drop_bit 1 value))"

definition base64VLQFormatDecode :: "string \<Rightarrow> nat \<Rightarrow> nat \<times> (string + int)" where
  "base64VLQFormatDecode mappings pos =
     (case vlq_read mappings pos 0 0 of
        (pos', Inl e) \<Rightarrow> (pos', Inl e)
      | (pos', Inr v) \<Rightarrow> (pos', Inr (vlq_unsigned v)))"

section \<open>Digits round trip\<close>

lemma base64_digit:
  assumes "0 \<le> d" "d < 64"
  obtains c where "base64FormatEncode d = Inr c" "base64FormatDecode c = d"
    "c \<noteq> CHR '';''" "c \<noteq> CHR '',''"
proof -
  have "d \<in> set (map int [0..<64])" using assms by (auto intro!: image_eqI [of _ _ "nat d"])
  moreover have "\<forall>d \<in> set (map int [0..<64]). case base64FormatEncode d of
      Inl e \<Rightarrow> False | Inr c \<Rightarrow> base64FormatDecode c = d \<and> c \<noteq> CHR '';'' \<and> c \<noteq> CHR '',''"
    by code_simp
  ultimately show ?thesis using that by (cases "base64FormatEncode d") fastforce+
qed

section \<open>Numbers round trip\<close>

text \<open>The code a number leaves behind; \<open>vlq_emit\<close> never panics, so it always exists.\<close>

definition vlq_code :: "int \<Rightarrow> string" where
  "vlq_code v = (case vlq_emit v [] of Inl e \<Rightarrow> [] | Inr s \<Rightarrow> s)"

lemma and_31: "(v::int) AND 31 = v mod 32"
  using take_bit_eq_mask [of 5 v] by (simp add: take_bit_eq_mod mask_eq_exp_minus_1)

lemma or_32:
  assumes "0 \<le> d" "d < (32::int)"
  shows "d OR 32 = d + 32" "(d OR 32) AND 31 = d" "(d OR 32) AND 32 = 32" "d AND 32 = 0" "d AND 31 = d"
proof -
  have "d \<in> set (map int [0..<32])" using assms by (auto intro!: image_eqI [of _ _ "nat d"])
  moreover have "\<forall>d \<in> set (map int [0..<32]). d OR 32 = d + 32 \<and> (d OR 32) AND 31 = d \<and>
      (d OR 32) AND 32 = 32 \<and> d AND 32 = 0 \<and> d AND 31 = d"
    by code_simp
  ultimately show "d OR 32 = d + 32" "(d OR 32) AND 31 = d" "(d OR 32) AND 32 = 32" "d AND 32 = 0" "d AND 31 = d"
    by blast+
qed

text \<open>One step of the encoder, and the character it writes.\<close>

lemma vlq_emit_step:
  obtains c where
    "base64FormatDecode c AND 31 = v mod 32" "(base64FormatDecode c AND 32 \<noteq> 0) = (0 < v div 32)"
    "base64FormatDecode c \<noteq> -1" "c \<noteq> CHR '';''" "c \<noteq> CHR '',''"
    "\<And>m. vlq_emit v m = (if v div 32 \<le> 0 then Inr (m @ [c]) else vlq_emit (v div 32) (m @ [c]))"
proof -
  define d where "d = (if 0 < v div 32 then (v mod 32) OR 32 else v mod 32)"
  have r: "0 \<le> v mod 32" "v mod 32 < 32" by simp_all
  have "0 \<le> d" "d < 64" using or_32(1) [OF r] r by (auto simp: d_def)
  then obtain c where c: "base64FormatEncode d = Inr c" "base64FormatDecode c = d" "c \<noteq> CHR '';''" "c \<noteq> CHR '',''"
    by (rule base64_digit)
  have "vlq_emit v m = (if v div 32 \<le> 0 then Inr (m @ [c]) else vlq_emit (v div 32) (m @ [c]))" for m
  proof -
    have "drop_bit 5 v = v div 32" by (simp add: drop_bit_eq_div)
    then show ?thesis
      using c(1) by (subst vlq_emit.simps) (simp only: Let_def and_31 d_def [symmetric] go_bind_simps)
  qed
  moreover have "base64FormatDecode c AND 31 = v mod 32" "(base64FormatDecode c AND 32 \<noteq> 0) = (0 < v div 32)"
    using or_32 [OF r] by (auto simp: c(2) d_def)
  moreover have "base64FormatDecode c \<noteq> -1" using c(2) \<open>0 \<le> d\<close> by simp
  ultimately show ?thesis using that c(3,4) by blast
qed

lemma div32_less: "0 < v div 32 \<Longrightarrow> nat (v div 32) < nat (v::int)"
  by (simp add: pos_imp_zdiv_pos_iff int_div_less_self)

lemma vlq_emit_code: "vlq_emit v m = Inr (m @ vlq_code v)"
proof -
  have "\<exists>s. \<forall>m. vlq_emit v m = Inr (m @ s)"
  proof (induction "nat v" arbitrary: v rule: less_induct)
    case less
    obtain c where c: "\<And>m. vlq_emit v m = (if v div 32 \<le> 0 then Inr (m @ [c]) else vlq_emit (v div 32) (m @ [c]))"
      using vlq_emit_step by metis
    show ?case
    proof (cases "v div 32 \<le> 0")
      case False
      then have "nat (v div 32) < nat v" by (simp only: not_le div32_less)
      then obtain s where "\<forall>m. vlq_emit (v div 32) m = Inr (m @ s)" using less by blast
      with c False show ?thesis by (intro exI [of _ "c # s"]) simp
    qed (use c in auto)
  qed
  then obtain s where "\<forall>m. vlq_emit v m = Inr (m @ s)" by blast
  then show ?thesis by (simp add: vlq_code_def)
qed

lemma appendBase64VLQ_code: "appendBase64VLQ v m = Inr (m @ vlq_code (vlq_signed v))"
  by (simp add: appendBase64VLQ_def vlq_emit_code)

lemma vlq_code_step:
  obtains c where
    "base64FormatDecode c AND 31 = v mod 32" "(base64FormatDecode c AND 32 \<noteq> 0) = (0 < v div 32)"
    "base64FormatDecode c \<noteq> -1" "c \<noteq> CHR '';''" "c \<noteq> CHR '',''"
    "vlq_code v = c # (if v div 32 \<le> 0 then [] else vlq_code (v div 32))"
proof -
  obtain c where c: "base64FormatDecode c AND 31 = v mod 32" "(base64FormatDecode c AND 32 \<noteq> 0) = (0 < v div 32)"
    "base64FormatDecode c \<noteq> -1" "c \<noteq> CHR '';''" "c \<noteq> CHR '',''"
    "\<And>m. vlq_emit v m = (if v div 32 \<le> 0 then Inr (m @ [c]) else vlq_emit (v div 32) (m @ [c]))"
    using vlq_emit_step by metis
  have "vlq_code v = c # (if v div 32 \<le> 0 then [] else vlq_code (v div 32))"
    using vlq_emit_code [of v "[]"] c(6) [of "[]"] by (simp add: vlq_emit_code split: if_splits)
  with c that show ?thesis by blast
qed

lemma vlq_code_nonempty [simp]: "vlq_code v \<noteq> []"
  by (rule vlq_code_step [of v]) simp

lemma vlq_code_no_delimiter: "c \<in> set (vlq_code v) \<Longrightarrow> c \<noteq> CHR '';'' \<and> c \<noteq> CHR '',''"
proof (induction "nat v" arbitrary: v c rule: less_induct)
  case less
  obtain d where d: "d \<noteq> CHR '';''" "d \<noteq> CHR '',''" "vlq_code v = d # (if v div 32 \<le> 0 then [] else vlq_code (v div 32))"
    by (rule vlq_code_step)
  show ?case
  proof (cases "c = d")
    case False
    then have c: "0 < v div 32" "c \<in> set (vlq_code (v div 32))" using less.prems d(3) by (auto split: if_splits)
    then have "nat (v div 32) < nat v" by (simp only: div32_less)
    then show ?thesis using less.hyps c(2) by blast
  qed (use d in simp)
qed

lemma or_digits:
  "acc OR push_bit s (v mod 32) OR push_bit (s + 5) (v div 32) = acc OR push_bit s (v::int)"
proof -
  have "v = v mod 32 OR push_bit 5 (v div 32)"
  proof -
    have "v mod 32 = take_bit 5 v" "v div 32 = drop_bit 5 v" by (simp_all add: take_bit_eq_mod drop_bit_eq_div)
    then show ?thesis by (auto intro!: bit_eqI simp: bit_simps)
  qed
  then have "push_bit s v = push_bit s (v mod 32) OR push_bit s (push_bit 5 (v div 32))"
    by (metis push_bit_or)
  then show ?thesis by (simp add: or.assoc)
qed

lemma vlq_read_code:
  assumes "0 \<le> v" and "push_bit s v < 2 ^ 63"
  shows "vlq_read (a @ vlq_code v @ b) (length a) s acc = (length a + length (vlq_code v), Inr (acc OR push_bit s v))"
  using assms
proof (induction "nat v" arbitrary: v a s acc rule: less_induct)
  case less
  obtain c where c: "base64FormatDecode c AND 31 = v mod 32" "(base64FormatDecode c AND 32 \<noteq> 0) = (0 < v div 32)"
    "base64FormatDecode c \<noteq> -1" "vlq_code v = c # (if v div 32 \<le> 0 then [] else vlq_code (v div 32))"
    by (rule vlq_code_step)
  have le: "push_bit s (v mod 32) \<le> push_bit s v" "0 \<le> push_bit s (v mod 32)"
    using less.prems(1) by (simp_all add: push_bit_eq_mult zmod_le_nonneg_dividend)
  have i64: "int64 (push_bit s (v mod 32)) = push_bit s (v mod 32)"
    using le less.prems(2) by (intro int64_in_range) linarith+
  have step: "vlq_read (a @ c # t) (length a) s acc =
      (if 0 < v div 32 then vlq_read (a @ c # t) (length a + 1) (s + 5) (acc OR push_bit s (v mod 32))
       else (length a + 1, Inr (acc OR push_bit s (v mod 32))))" for t
    using c(1-3) i64 by (subst vlq_read.simps) (simp add: Let_def)
  show ?case
  proof (cases "0 < v div 32")
    case True
    have e: "a @ vlq_code v @ b = (a @ [c]) @ vlq_code (v div 32) @ b" using c(4) True by simp
    have "push_bit (s + 5) (v div 32) \<le> push_bit s v"
    proof -
      have "push_bit (s + 5) (v div 32) = push_bit s (32 * (v div 32))"
        by (simp add: push_bit_eq_mult power_add)
      also have "\<dots> \<le> push_bit s v" by (simp add: push_bit_eq_mult)
      finally show ?thesis .
    qed
    then have "push_bit (s + 5) (v div 32) < 2 ^ 63" using less.prems(2) by simp
    moreover have "nat (v div 32) < nat v" "0 \<le> v div 32" using True by (simp_all only: div32_less less_imp_le)
    ultimately have "vlq_read ((a @ [c]) @ vlq_code (v div 32) @ b) (length (a @ [c])) (s + 5) (acc OR push_bit s (v mod 32)) =
        (length (a @ [c]) + length (vlq_code (v div 32)),
         Inr ((acc OR push_bit s (v mod 32)) OR push_bit (s + 5) (v div 32)))"
      by (intro less.hyps)
    then show ?thesis
      using step [of "vlq_code (v div 32) @ b"] True c(4) by (simp add: or_digits or.assoc)
  next
    case False
    then have "v mod 32 = v" using less.prems(1) by (simp add: pos_imp_zdiv_pos_iff)
    then show ?thesis using step [of b] False c(4) by simp
  qed
qed

section \<open>The interface the source maps use\<close>

text \<open>
  What the generator and the decoder need of a number format: a code that a reader takes back at any
  position, that is not empty and that contains no delimiter.
\<close>

locale number_code =
  fixes code :: "int \<Rightarrow> string"
    and read :: "string \<Rightarrow> nat \<Rightarrow> nat \<times> (string + int)"
    and ok :: "int \<Rightarrow> bool"
  assumes read_code: "ok v \<Longrightarrow> read (a @ code v @ b) (length a) = (length a + length (code v), Inr v)"
    and code_nonempty: "code v \<noteq> []"
    and code_plain: "c \<in> set (code v) \<Longrightarrow> c \<noteq> CHR '';'' \<and> c \<noteq> CHR '',''"
begin

definition codes :: "int list \<Rightarrow> string" where
  "codes vs = concat (map code vs)"

lemma codes_simps: "codes [] = []" "codes (v # vs) = code v @ codes vs"
  by (simp_all add: codes_def)

lemma codes_plain: "c \<in> set (codes vs) \<Longrightarrow> c \<noteq> CHR '';'' \<and> c \<noteq> CHR '',''"
  using code_plain by (auto simp: codes_def)

lemma codes_head:
  assumes "vs \<noteq> []"
  obtains c t where "codes vs = c # t" "c \<noteq> CHR '';''" "c \<noteq> CHR '',''"
proof -
  have "codes vs \<noteq> []" using assms code_nonempty by (cases vs) (simp_all add: codes_simps)
  then obtain c t where ct: "codes vs = c # t" by (cases "codes vs") auto
  with codes_plain [of c vs] that show ?thesis by auto
qed

lemma read_at:
  assumes "s = a @ code v @ b" "ok v" "pos = length a"
  shows "read s pos = (length (a @ code v), Inr v)"
  using read_code [OF assms(2), of a b] assms(1,3) by simp

end

definition vlq_range :: "int \<Rightarrow> bool" where
  "vlq_range v = (- (2 ^ 62) < v \<and> v < 2 ^ 62)"

lemma vlq_signed_bounds:
  assumes "vlq_range v" shows "0 \<le> vlq_signed v" "vlq_signed v < 2 ^ 63" "vlq_unsigned (vlq_signed v) = v"
proof -
  have e: "vlq_signed v = (if v < 0 then 2 * (- v) + 1 else 2 * v)"
    using assms by (auto simp: vlq_signed_def vlq_range_def push_bit_eq_mult)
  show "0 \<le> vlq_signed v" "vlq_signed v < 2 ^ 63" using assms unfolding e by (auto simp: vlq_range_def)
  have half: "(1 - 2 * v) div 2 = - v" "(1 - 2 * v) mod 2 = 1" by presburger+
  have "int64 v = v" using assms by (simp add: vlq_range_def)
  then show "vlq_unsigned (vlq_signed v) = v"
    unfolding e vlq_unsigned_def using half by (auto simp: and_one_eq drop_bit_eq_div)
qed

text \<open>C9. Numbers below two to the 62nd in absolute value round trip: the encoder never panics, what it
  appends is not empty and has no delimiter in it, and the decoder reads the number back at that
  position, whatever stands before and after.\<close>

theorem vlq_round_trip:
  assumes "vlq_range v"
  shows "\<exists>code. appendBase64VLQ v m = Inr (m @ code) \<and> code \<noteq> [] \<and>
    CHR '';'' \<notin> set code \<and> CHR '','' \<notin> set code \<and>
    base64VLQFormatDecode (m @ code @ rest) (length m) = (length m + length code, Inr v)"
proof (intro exI conjI)
  show "appendBase64VLQ v m = Inr (m @ vlq_code (vlq_signed v))" by (rule appendBase64VLQ_code)
  show "base64VLQFormatDecode (m @ vlq_code (vlq_signed v) @ rest) (length m) =
      (length m + length (vlq_code (vlq_signed v)), Inr v)"
    using vlq_signed_bounds [OF assms]
    by (simp add: base64VLQFormatDecode_def vlq_read_code)
qed (use vlq_code_no_delimiter in auto)

lemma vlq_round_trip_witness:
  "\<exists>code. appendBase64VLQ (-1000000) ''AAAA,'' = Inr (''AAAA,'' @ code) \<and>
     base64VLQFormatDecode (''AAAA,'' @ code @ '';'') 5 = (5 + length code, Inr (-1000000))"
proof -
  have "vlq_range (-1000000)" by (simp add: vlq_range_def)
  from vlq_round_trip [OF this, of "''AAAA,''" "'';''"] show ?thesis by (auto simp: eval_nat_numeral)
qed

interpretation vlq: number_code "\<lambda>v. vlq_code (vlq_signed v)" base64VLQFormatDecode vlq_range
proof
  show "base64VLQFormatDecode (a @ vlq_code (vlq_signed v) @ b) (length a) =
      (length a + length (vlq_code (vlq_signed v)), Inr v)" if "vlq_range v" for v a b
    using vlq_signed_bounds [OF that] by (simp add: base64VLQFormatDecode_def vlq_read_code)
qed (use vlq_code_no_delimiter in auto)

end
