(* ===== verification/Sourcemap_Decoder.thy ===== *)
theory Sourcemap_Decoder
  imports Sourcemap_Vlq
begin

text \<open>
  The decoder of source map mappings (\<open>internal/sourcemap/decoder.go\<close>): a cursor over the mappings
  string with the running totals of the five fields. \<open>Next\<close> returns the decoder after the call and
  the mapping found, \<open>None\<close> when iteration is over. The pool mappings are allocated from has no
  observable effect and is left out.
\<close>

record Mapping =
  GeneratedLine :: int
  GeneratedCharacter :: int
  SourceIndex :: int
  SourceLine :: int
  SourceCharacter :: int
  NameIndex :: int

definition IsSourceMapping :: "Mapping \<Rightarrow> bool" where
  "IsSourceMapping m = (SourceIndex m \<noteq> -1 \<and> SourceLine m \<noteq> -1 \<and> SourceCharacter m \<noteq> -1)"

definition Mapping_Equals :: "Mapping \<Rightarrow> Mapping \<Rightarrow> bool" where
  "Mapping_Equals m other =
     (m = other \<or> GeneratedLine m = GeneratedLine other \<and> GeneratedCharacter m = GeneratedCharacter other \<and>
      SourceIndex m = SourceIndex other \<and> SourceLine m = SourceLine other \<and>
      SourceCharacter m = SourceCharacter other \<and> NameIndex m = NameIndex other)"

record MappingsDecoder =
  d_mappings :: string
  d_done :: bool
  d_pos :: nat
  d_generatedLine :: int
  d_generatedCharacter :: int
  d_sourceIndex :: int
  d_sourceLine :: int
  d_sourceCharacter :: int
  d_nameIndex :: int
  d_error :: "string option"

definition DecodeMappings :: "string \<Rightarrow> MappingsDecoder" where
  "DecodeMappings mappings =
     \<lparr>d_mappings = mappings, d_done = False, d_pos = 0, d_generatedLine = 0, d_generatedCharacter = 0,
      d_sourceIndex = 0, d_sourceLine = 0, d_sourceCharacter = 0, d_nameIndex = 0, d_error = None\<rparr>"

definition captureMapping :: "bool \<Rightarrow> bool \<Rightarrow> MappingsDecoder \<Rightarrow> Mapping" where
  "captureMapping hasSource hasName d =
     \<lparr>GeneratedLine = d_generatedLine d,
      GeneratedCharacter = d_generatedCharacter d,
      SourceIndex = (if hasSource then d_sourceIndex d else -1),
      SourceLine = (if hasSource then d_sourceLine d else -1),
      SourceCharacter = (if hasSource then d_sourceCharacter d else -1),
      NameIndex = (if hasName then d_nameIndex d else -1)\<rparr>"

definition State :: "MappingsDecoder \<Rightarrow> Mapping" where
  "State d = captureMapping True True d"

definition stopIterating :: "MappingsDecoder \<Rightarrow> MappingsDecoder \<times> Mapping option" where
  "stopIterating d = (d\<lparr>d_done := True\<rparr>, None)"

definition setErrorAndStopIterating :: "string \<Rightarrow> MappingsDecoder \<Rightarrow> MappingsDecoder \<times> Mapping option" where
  "setErrorAndStopIterating err d = stopIterating (d\<lparr>d_error := Some err\<rparr>)"

definition hasReportedError :: "MappingsDecoder \<Rightarrow> bool" where
  "hasReportedError d = (d_error d \<noteq> None)"

definition isSourceMappingSegmentEnd :: "MappingsDecoder \<Rightarrow> bool" where
  "isSourceMappingSegmentEnd d =
     (d_pos d = length (d_mappings d) \<or> d_mappings d ! d_pos d = CHR '','' \<or> d_mappings d ! d_pos d = CHR '';'')"

text \<open>
  The method \<open>base64VLQFormatDecode\<close>: it advances the decoder, and on a malformed number records the
  error and returns \<open>-1\<close>.
\<close>

definition read_vlq :: "MappingsDecoder \<Rightarrow> MappingsDecoder \<times> int" where
  "read_vlq d =
     (case base64VLQFormatDecode (d_mappings d) (d_pos d) of
        (p, Inl e) \<Rightarrow> (d\<lparr>d_pos := p, d_error := Some e\<rparr>, -1)
      | (p, Inr v) \<Rightarrow> (d\<lparr>d_pos := p\<rparr>, v))"

text \<open>The four fields after the generated character, each with its own error message.\<close>

definition next_name :: "MappingsDecoder \<Rightarrow> MappingsDecoder \<times> Mapping option" where
  "next_name d =
     (if isSourceMappingSegmentEnd d then (d, Some (captureMapping True False d))
      else
        (let (d, v) = read_vlq d;
             d = d\<lparr>d_nameIndex := int64 (d_nameIndex d + v)\<rparr>
         in if hasReportedError d then stopIterating d
            else if d_nameIndex d < 0 then setErrorAndStopIterating ''Invalid nameIndex found'' d
            else if \<not> isSourceMappingSegmentEnd d
            then setErrorAndStopIterating ''Unsupported Error Format: Entries after nameIndex'' d
            else (d, Some (captureMapping True True d))))"

definition next_sourceCharacter :: "MappingsDecoder \<Rightarrow> MappingsDecoder \<times> Mapping option" where
  "next_sourceCharacter d =
     (let (d, v) = read_vlq d;
          d = d\<lparr>d_sourceCharacter := int64 (d_sourceCharacter d + v)\<rparr>
      in if hasReportedError d then stopIterating d
         else if d_sourceCharacter d < 0 then setErrorAndStopIterating ''Invalid sourceCharacter found'' d
         else next_name d)"

definition next_sourceLine :: "MappingsDecoder \<Rightarrow> MappingsDecoder \<times> Mapping option" where
  "next_sourceLine d =
     (let (d, v) = read_vlq d;
          d = d\<lparr>d_sourceLine := int64 (d_sourceLine d + v)\<rparr>
      in if hasReportedError d then stopIterating d
         else if d_sourceLine d < 0 then setErrorAndStopIterating ''Invalid sourceLine found'' d
         else if isSourceMappingSegmentEnd d
         then setErrorAndStopIterating ''Unsupported Format: No entries after sourceLine'' d
         else next_sourceCharacter d)"

definition next_source :: "MappingsDecoder \<Rightarrow> MappingsDecoder \<times> Mapping option" where
  "next_source d =
     (let (d, v) = read_vlq d;
          d = d\<lparr>d_sourceIndex := int64 (d_sourceIndex d + v)\<rparr>
      in if hasReportedError d then stopIterating d
         else if d_sourceIndex d < 0 then setErrorAndStopIterating ''Invalid sourceIndex found'' d
         else if isSourceMappingSegmentEnd d
         then setErrorAndStopIterating ''Unsupported Format: No entries after sourceIndex'' d
         else next_sourceLine d)"

definition next_segment :: "MappingsDecoder \<Rightarrow> MappingsDecoder \<times> Mapping option" where
  "next_segment d =
     (let (d, v) = read_vlq d;
          d = d\<lparr>d_generatedCharacter := int64 (d_generatedCharacter d + v)\<rparr>
      in if hasReportedError d then stopIterating d
         else if d_generatedCharacter d < 0 then setErrorAndStopIterating ''Invalid generatedCharacter found'' d
         else if \<not> isSourceMappingSegmentEnd d then next_source d
         else (d, Some (captureMapping False False d)))"

function Next :: "MappingsDecoder \<Rightarrow> MappingsDecoder \<times> Mapping option" where
  "Next d =
     (if \<not> d_done d \<and> d_pos d < length (d_mappings d) then
        (let ch = d_mappings d ! d_pos d in
         if ch = CHR '';'' then
           Next (d\<lparr>d_generatedLine := int64 (d_generatedLine d + 1), d_generatedCharacter := 0, d_pos := d_pos d + 1\<rparr>)
         else if ch = CHR '','' then Next (d\<lparr>d_pos := d_pos d + 1\<rparr>)
         else next_segment d)
      else stopIterating d)"
  by pat_completeness auto
termination
  by (relation "measure (\<lambda>d. length (d_mappings d) - d_pos d)") auto

declare Next.simps [simp del]

section \<open>Progress\<close>

lemma vlq_read_pos:
  "vlq_read m pos s v = (p, r) \<Longrightarrow> pos \<le> p \<and> (pos \<le> length m \<longrightarrow> p \<le> length m) \<and> (\<forall>x. r = Inr x \<longrightarrow> pos < p)"
proof (induction m pos s v arbitrary: p r rule: vlq_read.induct)
  case (1 m pos s v)
  show ?case
  proof (cases "length m \<le> pos \<or> base64FormatDecode (m ! pos) = -1")
    case True
    then show ?thesis using "1.prems" by (subst (asm) vlq_read.simps) (auto simp: Let_def split: if_splits)
  next
    case False
    show ?thesis
    proof (cases "base64FormatDecode (m ! pos) AND 32 = 0")
      case True
      then show ?thesis using "1.prems" False by (subst (asm) vlq_read.simps) (auto simp: Let_def)
    next
      case more: False
      then have "vlq_read m (pos + 1) (s + 5) (v OR int64 (push_bit s (base64FormatDecode (m ! pos) AND 31))) = (p, r)"
        using "1.prems" False by (subst (asm) vlq_read.simps) (simp add: Let_def)
      with "1.IH" [OF _ refl _ refl refl, of p r] more False show ?thesis by auto
    qed
  qed
qed

lemma read_vlq_pos:
  assumes "read_vlq d = (d', v)"
  shows "d_mappings d' = d_mappings d" "d_pos d \<le> d_pos d'"
    "d_pos d \<le> length (d_mappings d) \<Longrightarrow> d_pos d' \<le> length (d_mappings d)"
    "d_error d' = None \<Longrightarrow> d_pos d < d_pos d'"
  using assms vlq_read_pos [of "d_mappings d" "d_pos d" 0 0]
  by (auto simp: read_vlq_def base64VLQFormatDecode_def split: prod.splits sum.splits)

text \<open>Every successful step moves the cursor forward inside the string; no step moves it past the end.\<close>

definition forward :: "MappingsDecoder \<Rightarrow> MappingsDecoder \<Rightarrow> bool" where
  "forward d d' = (d_mappings d' = d_mappings d \<and> d_pos d \<le> d_pos d' \<and>
     (d_pos d \<le> length (d_mappings d) \<longrightarrow> d_pos d' \<le> length (d_mappings d)))"

lemma forward_trans: "forward a b \<Longrightarrow> forward b c \<Longrightarrow> forward a c"
  by (auto simp: forward_def)

lemma forward_read: "read_vlq d = (d', v) \<Longrightarrow> forward d d'"
  using read_vlq_pos by (auto simp: forward_def)

lemma forward_stop: "forward d (fst (stopIterating d))" "snd (stopIterating d) = None"
  by (simp_all add: stopIterating_def forward_def)

lemma forward_error: "forward d (fst (setErrorAndStopIterating e d))" "snd (setErrorAndStopIterating e d) = None"
  by (simp_all add: setErrorAndStopIterating_def stopIterating_def forward_def)

lemma forward_upd [simp]:
  "forward d (d'\<lparr>d_nameIndex := x\<rparr>) = forward d d'" "forward d (d'\<lparr>d_sourceCharacter := x\<rparr>) = forward d d'"
  "forward d (d'\<lparr>d_sourceLine := x\<rparr>) = forward d d'" "forward d (d'\<lparr>d_sourceIndex := x\<rparr>) = forward d d'"
  "forward d (d'\<lparr>d_generatedCharacter := x\<rparr>) = forward d d'"
  by (simp_all add: forward_def)

lemmas forward_rules = forward_stop forward_error forward_trans forward_read

lemma forward_next_name: "forward d (fst (next_name d))"
proof (cases "isSourceMappingSegmentEnd d")
  case False
  obtain d' v where r: "read_vlq d = (d', v)" by fastforce
  define e where "e = d'\<lparr>d_nameIndex := int64 (d_nameIndex d' + v)\<rparr>"
  have "forward d e" using forward_read [OF r] by (simp add: e_def)
  then have "forward d (fst (stopIterating e))" "\<And>m. forward d (fst (setErrorAndStopIterating m e))"
    using forward_stop(1) forward_error(1) forward_trans by blast+
  with \<open>forward d e\<close> False show ?thesis by (simp add: next_name_def r Let_def e_def)
qed (simp add: next_name_def forward_def)

lemma forward_field:
  assumes r: "read_vlq d = (d', v)" and e: "forward d' e"
    and k: "\<And>x. forward x (fst (k x))"
  shows "forward d (fst (stopIterating e))" "forward d (fst (setErrorAndStopIterating m e))" "forward d (fst (k e))"
  using forward_read [OF r] e forward_stop(1) [of e] forward_error(1) [of e m] k [of e] forward_trans by blast+

lemma forward_next_sourceCharacter: "forward d (fst (next_sourceCharacter d))"
proof -
  obtain d' v where r: "read_vlq d = (d', v)" by fastforce
  have "forward d' (d'\<lparr>d_sourceCharacter := int64 (d_sourceCharacter d' + v)\<rparr>)" by (simp add: forward_def)
  from forward_field [OF r this forward_next_name] show ?thesis
    by (simp add: next_sourceCharacter_def r Let_def)
qed

lemma forward_next_sourceLine: "forward d (fst (next_sourceLine d))"
proof -
  obtain d' v where r: "read_vlq d = (d', v)" by fastforce
  have "forward d' (d'\<lparr>d_sourceLine := int64 (d_sourceLine d' + v)\<rparr>)" by (simp add: forward_def)
  from forward_field [OF r this forward_next_sourceCharacter] show ?thesis
    by (simp add: next_sourceLine_def r Let_def)
qed

lemma forward_next_source: "forward d (fst (next_source d))"
proof -
  obtain d' v where r: "read_vlq d = (d', v)" by fastforce
  have "forward d' (d'\<lparr>d_sourceIndex := int64 (d_sourceIndex d' + v)\<rparr>)" by (simp add: forward_def)
  from forward_field [OF r this forward_next_sourceLine] show ?thesis
    by (simp add: next_source_def r Let_def)
qed

lemma next_segment_forward:
  "forward d (fst (next_segment d))"
  "snd (next_segment d) \<noteq> None \<Longrightarrow> d_pos d < d_pos (fst (next_segment d))"
proof -
  obtain d' v where r: "read_vlq d = (d', v)" by fastforce
  define e where "e = d'\<lparr>d_generatedCharacter := int64 (d_generatedCharacter d' + v)\<rparr>"
  have fe: "forward d' e" by (simp add: forward_def e_def)
  have eq: "next_segment d = (if hasReportedError e then stopIterating e
      else if d_generatedCharacter e < 0 then setErrorAndStopIterating ''Invalid generatedCharacter found'' e
      else if \<not> isSourceMappingSegmentEnd e then next_source e else (e, Some (captureMapping False False e)))"
    by (simp add: next_segment_def r Let_def e_def)
  show "forward d (fst (next_segment d))"
    unfolding eq using forward_field [OF r fe forward_next_source] forward_trans [OF forward_read [OF r] fe] by simp
  assume s: "snd (next_segment d) \<noteq> None"
  then have "d_error d' = None" unfolding eq by (auto simp: hasReportedError_def e_def stopIterating_def split: if_splits)
  then have "d_pos d < d_pos e" using read_vlq_pos(4) [OF r] by (simp add: e_def)
  moreover have "d_pos e \<le> d_pos (fst (next_segment d))"
    unfolding eq using forward_stop(1) [of e] forward_error(1) [of e] forward_next_source [of e] by (simp add: forward_def)
  ultimately show "d_pos d < d_pos (fst (next_segment d))" by simp
qed

lemma Next_forward:
  "forward d (fst (Next d)) \<and>
   (snd (Next d) \<noteq> None \<longrightarrow> d_pos d < d_pos (fst (Next d)) \<and> d_pos (fst (Next d)) \<le> length (d_mappings d))"
proof (induction d rule: Next.induct)
  case (1 d)
  show ?case
  proof (cases "\<not> d_done d \<and> d_pos d < length (d_mappings d)")
    case False
    then have "Next d = stopIterating d" by (subst Next.simps) (simp only: if_False)
    then show ?thesis by (simp add: stopIterating_def forward_def)
  next
    case True
    define line where "line = d\<lparr>d_generatedLine := int64 (d_generatedLine d + 1), d_generatedCharacter := 0, d_pos := d_pos d + 1\<rparr>"
    define entry where "entry = d\<lparr>d_pos := d_pos d + 1\<rparr>"
    have eq: "Next d = (if d_mappings d ! d_pos d = CHR '';'' then Next line
        else if d_mappings d ! d_pos d = CHR '','' then Next entry else next_segment d)"
      using True by (subst Next.simps) (simp add: line_def entry_def Let_def)
    have f: "forward d line" "forward d entry" "d_pos d < d_pos line" "d_pos d < d_pos entry"
      "length (d_mappings line) = length (d_mappings d)" "length (d_mappings entry) = length (d_mappings d)"
      using True by (simp_all add: forward_def line_def entry_def)
    have le: "d_pos d \<le> length (d_mappings d)" using True by simp
    consider "d_mappings d ! d_pos d = CHR '';''" "Next d = Next line"
      | "d_mappings d ! d_pos d = CHR '',''" "Next d = Next entry" | "Next d = next_segment d"
      using eq by (auto split: if_splits)
    then show ?thesis
    proof cases
      case 1
      with "1.IH"(1) [OF True refl] f show ?thesis by (auto simp: line_def forward_def)
    next
      case 2
      have "CHR '','' \<noteq> CHR '';''" by simp
      with "1.IH"(2) [OF True refl] f 2 show ?thesis by (auto simp: entry_def forward_def)
    next
      case 3
      then show ?thesis using next_segment_forward [of d] le by (auto simp: forward_def)
    qed
  qed
qed

section \<open>Iteration\<close>

text \<open>
  \<open>Values\<close> hands each mapping to the consumer, which keeps a state and says whether to go on.
\<close>

function Values :: "(Mapping \<Rightarrow> 's \<Rightarrow> 's \<times> bool) \<Rightarrow> MappingsDecoder \<Rightarrow> 's \<Rightarrow> MappingsDecoder \<times> 's" where
  "Values yield d s =
     (case Next d of
        (d', None) \<Rightarrow> (d', s)
      | (d', Some value) \<Rightarrow>
          (let (s', continue) = yield value s
           in if \<not> continue then (d', s') else Values yield d' s'))"
  by pat_completeness auto
termination
proof (relation "measure (\<lambda>(yield, d, s). length (d_mappings d) - d_pos d)", goal_cases)
  case (2 yield d s d' r m s' c)
  then have "fst (Next d) = d'" "snd (Next d) \<noteq> None" by (metis fst_conv, metis snd_conv option.distinct(1))
  then show ?case using Next_forward [of d] by (auto simp: forward_def)
qed simp

declare Values.simps [simp del]

definition decode_all :: "MappingsDecoder \<Rightarrow> MappingsDecoder \<times> Mapping list" where
  "decode_all d = Values (\<lambda>m ms. (ms @ [m], True)) d []"

end
