(* ===== verification/Sourcemap_Text.thy ===== *)
theory Sourcemap_Text
  imports Sourcemap_Decoder
begin

text \<open>
  The mappings string as a function of a list of mappings: an abstract description of the format that
  neither the generator nor the decoder has. The decoder takes every such text apart again.
\<close>

section \<open>The text of a list of mappings\<close>

record totals =
  t_started :: bool
  t_line :: int
  t_char :: int
  t_source :: int
  t_sourceLine :: int
  t_sourceChar :: int
  t_name :: int

definition totals0 :: totals where
  "totals0 = \<lparr>t_started = False, t_line = 0, t_char = 0, t_source = 0, t_sourceLine = 0, t_sourceChar = 0, t_name = 0\<rparr>"

definition has_source :: "Mapping \<Rightarrow> bool" where
  "has_source m = (SourceIndex m \<noteq> -1)"

definition has_name :: "Mapping \<Rightarrow> bool" where
  "has_name m = (NameIndex m \<noteq> -1)"

definition advance :: "totals \<Rightarrow> Mapping \<Rightarrow> totals" where
  "advance t m =
     \<lparr>t_started = True, t_line = GeneratedLine m, t_char = GeneratedCharacter m,
      t_source = (if has_source m then SourceIndex m else t_source t),
      t_sourceLine = (if has_source m then SourceLine m else t_sourceLine t),
      t_sourceChar = (if has_source m then SourceCharacter m else t_sourceChar t),
      t_name = (if has_name m then NameIndex m else t_name t)\<rparr>"

definition line_base :: "totals \<Rightarrow> Mapping \<Rightarrow> int" where
  "line_base t m = (if t_line t < GeneratedLine m then 0 else t_char t)"

definition delimiters :: "totals \<Rightarrow> Mapping \<Rightarrow> string" where
  "delimiters t m =
     (if t_line t < GeneratedLine m then replicate (nat (GeneratedLine m - t_line t)) (CHR '';'')
      else if t_started t then '','' else [])"

definition deltas :: "totals \<Rightarrow> Mapping \<Rightarrow> int list" where
  "deltas t m =
     [GeneratedCharacter m - line_base t m] @
     (if has_source m then
        [SourceIndex m - t_source t, SourceLine m - t_sourceLine t, SourceCharacter m - t_sourceChar t] @
        (if has_name m then [NameIndex m - t_name t] else [])
      else [])"

definition piece :: "totals \<Rightarrow> Mapping \<Rightarrow> string" where
  "piece t m = delimiters t m @ vlq.codes (deltas t m)"

fun render :: "totals \<Rightarrow> Mapping list \<Rightarrow> string" where
  "render t [] = []"
| "render t (m # ms) = piece t m @ render (advance t m) ms"

text \<open>Positions and indices are natural numbers below two to the 62nd, and lines do not go back.\<close>

definition small :: "int \<Rightarrow> bool" where
  "small x = (0 \<le> x \<and> x < 2 ^ 62)"

definition mapping_ok :: "Mapping \<Rightarrow> bool" where
  "mapping_ok m =
     (small (GeneratedLine m) \<and> small (GeneratedCharacter m) \<and>
      (if has_source m then small (SourceIndex m) \<and> small (SourceLine m) \<and> small (SourceCharacter m)
       else SourceLine m = -1 \<and> SourceCharacter m = -1 \<and> \<not> has_name m) \<and>
      (has_name m \<longrightarrow> small (NameIndex m)))"

definition totals_ok :: "totals \<Rightarrow> bool" where
  "totals_ok t =
     (small (t_line t) \<and> small (t_char t) \<and> small (t_source t) \<and> small (t_sourceLine t) \<and>
      small (t_sourceChar t) \<and> small (t_name t))"

fun mappings_ok :: "totals \<Rightarrow> Mapping list \<Rightarrow> bool" where
  "mappings_ok t [] = True"
| "mappings_ok t (m # ms) = (mapping_ok m \<and> t_line t \<le> GeneratedLine m \<and> mappings_ok (advance t m) ms)"

lemma totals_ok_advance: "totals_ok t \<Longrightarrow> mapping_ok m \<Longrightarrow> totals_ok (advance t m)"
  by (auto simp: totals_ok_def mapping_ok_def advance_def split: if_splits)

lemma totals0_ok [simp]: "totals_ok totals0"
  by (simp add: totals0_def totals_ok_def small_def)

lemma render_append: "render t (ms @ ns) = render t ms @ render (foldl advance t ms) ns"
  by (induction ms arbitrary: t) auto

lemma mappings_ok_append: "mappings_ok t (ms @ ns) \<longleftrightarrow> mappings_ok t ms \<and> mappings_ok (foldl advance t ms) ns"
  by (induction ms arbitrary: t) auto

lemma small_delta: "small x \<Longrightarrow> small y \<Longrightarrow> vlq_range (x - y)"
  by (simp add: small_def vlq_range_def)

lemma small_int64: "small x \<Longrightarrow> int64 x = x"
  by (simp add: small_def)

section \<open>The decoder at a position\<close>

definition at :: "MappingsDecoder \<Rightarrow> string \<Rightarrow> string \<Rightarrow> bool" where
  "at d a b = (d_mappings d = a @ b \<and> d_pos d = length a)"

definition segment_stop :: "string \<Rightarrow> bool" where
  "segment_stop b = (b = [] \<or> hd b = CHR '','' \<or> hd b = CHR '';'')"

lemma segment_end_at: "at d a b \<Longrightarrow> isSourceMappingSegmentEnd d = segment_stop b"
  by (cases b) (auto simp: at_def isSourceMappingSegmentEnd_def segment_stop_def)

lemma code_not_stop: "\<not> segment_stop (vlq.codes (v # vs) @ b)"
proof -
  obtain c t where "vlq.codes (v # vs) = c # t" "c \<noteq> CHR '';''" "c \<noteq> CHR '',''"
    by (rule vlq.codes_head [of "v # vs"]) auto
  then show ?thesis by (simp add: segment_stop_def)
qed

lemma read_vlq_at:
  assumes "at d a (vlq.codes (v # vs) @ b)" "vlq_range v"
  obtains c where "read_vlq d = (d\<lparr>d_pos := length (a @ c)\<rparr>, v)" "vlq.codes (v # vs) = c @ vlq.codes vs"
proof -
  have "base64VLQFormatDecode (d_mappings d) (d_pos d) = (length (a @ vlq_code (vlq_signed v)), Inr v)"
    using assms by (intro vlq.read_at [of _ a v "vlq.codes vs @ b"]) (simp_all add: at_def vlq.codes_simps)
  with that [of "vlq_code (vlq_signed v)"] show ?thesis by (simp add: read_vlq_def vlq.codes_simps)
qed

text \<open>Reading one field: the cursor moves over its code and the running total takes the difference.\<close>

lemma next_segment_at:
  assumes a: "at d a (vlq.codes (v # vs) @ b)" "vlq_range v" "d_error d = None" "small (d_generatedCharacter d + v)"
  obtains a' where "a @ vlq.codes (v # vs) = a' @ vlq.codes vs"
    "at (d\<lparr>d_pos := length a', d_generatedCharacter := d_generatedCharacter d + v\<rparr>) a' (vlq.codes vs @ b)"
    "next_segment d =
      (if vs = [] \<and> segment_stop b
       then (d\<lparr>d_pos := length a', d_generatedCharacter := d_generatedCharacter d + v\<rparr>,
             Some (captureMapping False False (d\<lparr>d_pos := length a', d_generatedCharacter := d_generatedCharacter d + v\<rparr>)))
       else next_source (d\<lparr>d_pos := length a', d_generatedCharacter := d_generatedCharacter d + v\<rparr>))"
proof -
  obtain c where c: "read_vlq d = (d\<lparr>d_pos := length (a @ c)\<rparr>, v)" "vlq.codes (v # vs) = c @ vlq.codes vs"
    using a(1,2) by (rule read_vlq_at)
  define e where "e = d\<lparr>d_pos := length (a @ c), d_generatedCharacter := d_generatedCharacter d + v\<rparr>"
  have at: "at e (a @ c) (vlq.codes vs @ b)" using a(1) c(2) by (simp add: at_def e_def)
  have "isSourceMappingSegmentEnd e = (vs = [] \<and> segment_stop b)"
    using segment_end_at [OF at] code_not_stop [of "hd vs" "tl vs" b] by (cases vs) (auto simp: vlq.codes_simps)
  then have "next_segment d = (if vs = [] \<and> segment_stop b then (e, Some (captureMapping False False e)) else next_source e)"
    using a(3,4) by (simp add: next_segment_def c(1) hasReportedError_def e_def small_int64 Let_def small_def)
  with that [of "a @ c"] at c(2) show ?thesis by (simp add: e_def)
qed

lemma next_source_at:
  assumes a: "at d a (vlq.codes (v # w # vs) @ b)" "vlq_range v" "d_error d = None" "small (d_sourceIndex d + v)"
  obtains a' where "a @ vlq.codes (v # w # vs) = a' @ vlq.codes (w # vs)"
    "at (d\<lparr>d_pos := length a', d_sourceIndex := d_sourceIndex d + v\<rparr>) a' (vlq.codes (w # vs) @ b)"
    "next_source d = next_sourceLine (d\<lparr>d_pos := length a', d_sourceIndex := d_sourceIndex d + v\<rparr>)"
proof -
  obtain c where c: "read_vlq d = (d\<lparr>d_pos := length (a @ c)\<rparr>, v)" "vlq.codes (v # w # vs) = c @ vlq.codes (w # vs)"
    using a(1,2) by (rule read_vlq_at)
  define e where "e = d\<lparr>d_pos := length (a @ c), d_sourceIndex := d_sourceIndex d + v\<rparr>"
  have at: "at e (a @ c) (vlq.codes (w # vs) @ b)" using a(1) c(2) by (simp add: at_def e_def)
  have "\<not> isSourceMappingSegmentEnd e" using segment_end_at [OF at] code_not_stop by blast
  then have "next_source d = next_sourceLine e"
    using a(3,4) by (simp add: next_source_def c(1) hasReportedError_def e_def small_int64 Let_def small_def)
  with that [of "a @ c"] at c(2) show ?thesis by (simp add: e_def)
qed

lemma next_sourceLine_at:
  assumes a: "at d a (vlq.codes (v # w # vs) @ b)" "vlq_range v" "d_error d = None" "small (d_sourceLine d + v)"
  obtains a' where "a @ vlq.codes (v # w # vs) = a' @ vlq.codes (w # vs)"
    "at (d\<lparr>d_pos := length a', d_sourceLine := d_sourceLine d + v\<rparr>) a' (vlq.codes (w # vs) @ b)"
    "next_sourceLine d = next_sourceCharacter (d\<lparr>d_pos := length a', d_sourceLine := d_sourceLine d + v\<rparr>)"
proof -
  obtain c where c: "read_vlq d = (d\<lparr>d_pos := length (a @ c)\<rparr>, v)" "vlq.codes (v # w # vs) = c @ vlq.codes (w # vs)"
    using a(1,2) by (rule read_vlq_at)
  define e where "e = d\<lparr>d_pos := length (a @ c), d_sourceLine := d_sourceLine d + v\<rparr>"
  have at: "at e (a @ c) (vlq.codes (w # vs) @ b)" using a(1) c(2) by (simp add: at_def e_def)
  have "\<not> isSourceMappingSegmentEnd e" using segment_end_at [OF at] code_not_stop by blast
  then have "next_sourceLine d = next_sourceCharacter e"
    using a(3,4) by (simp add: next_sourceLine_def c(1) hasReportedError_def e_def small_int64 Let_def small_def)
  with that [of "a @ c"] at c(2) show ?thesis by (simp add: e_def)
qed

lemma next_sourceCharacter_at:
  assumes a: "at d a (vlq.codes (v # vs) @ b)" "vlq_range v" "d_error d = None" "small (d_sourceCharacter d + v)"
  obtains a' where "a @ vlq.codes (v # vs) = a' @ vlq.codes vs"
    "at (d\<lparr>d_pos := length a', d_sourceCharacter := d_sourceCharacter d + v\<rparr>) a' (vlq.codes vs @ b)"
    "next_sourceCharacter d = next_name (d\<lparr>d_pos := length a', d_sourceCharacter := d_sourceCharacter d + v\<rparr>)"
proof -
  obtain c where c: "read_vlq d = (d\<lparr>d_pos := length (a @ c)\<rparr>, v)" "vlq.codes (v # vs) = c @ vlq.codes vs"
    using a(1,2) by (rule read_vlq_at)
  define e where "e = d\<lparr>d_pos := length (a @ c), d_sourceCharacter := d_sourceCharacter d + v\<rparr>"
  have at: "at e (a @ c) (vlq.codes vs @ b)" using a(1) c(2) by (simp add: at_def e_def)
  have "next_sourceCharacter d = next_name e"
    using a(3,4) by (simp add: next_sourceCharacter_def c(1) hasReportedError_def e_def small_int64 Let_def small_def)
  with that [of "a @ c"] at c(2) show ?thesis by (simp add: e_def)
qed

lemma next_name_at:
  assumes a: "at d a (vlq.codes [v] @ b)" "vlq_range v" "d_error d = None" "small (d_nameIndex d + v)" "segment_stop b"
  shows "next_name d =
    (d\<lparr>d_pos := length (a @ vlq.codes [v]), d_nameIndex := d_nameIndex d + v\<rparr>,
     Some (captureMapping True True (d\<lparr>d_pos := length (a @ vlq.codes [v]), d_nameIndex := d_nameIndex d + v\<rparr>)))"
proof -
  obtain c where c: "read_vlq d = (d\<lparr>d_pos := length (a @ c)\<rparr>, v)" "vlq.codes [v] = c @ vlq.codes []"
    using a(1,2) by (rule read_vlq_at)
  define e where "e = d\<lparr>d_pos := length (a @ vlq.codes [v]), d_nameIndex := d_nameIndex d + v\<rparr>"
  have at: "at e (a @ vlq.codes [v]) b" using a(1) by (simp add: at_def e_def)
  have "isSourceMappingSegmentEnd e" using segment_end_at [OF at] a(5) by blast
  moreover have "\<not> isSourceMappingSegmentEnd d" using segment_end_at [OF a(1)] code_not_stop by blast
  moreover have "c = vlq.codes [v]" using c(2) by (simp add: vlq.codes_simps)
  ultimately show ?thesis
    using a(3,4) by (simp add: next_name_def c(1) hasReportedError_def e_def small_int64 Let_def small_def)
qed

text \<open>The decoder stands at a segment boundary with its totals those of the mappings before it.\<close>

definition decoder_at :: "MappingsDecoder \<Rightarrow> totals \<Rightarrow> string \<Rightarrow> string \<Rightarrow> bool" where
  "decoder_at d t a b =
     (at d a b \<and> \<not> d_done d \<and> d_error d = None \<and> d_generatedLine d = t_line t \<and>
      d_generatedCharacter d = t_char t \<and> d_sourceIndex d = t_source t \<and> d_sourceLine d = t_sourceLine t \<and>
      d_sourceCharacter d = t_sourceChar t \<and> d_nameIndex d = t_name t)"

lemma read_segment:
  assumes d: "decoder_at d t a (vlq.codes (deltas t m) @ b)" and b: "segment_stop b"
    and t: "totals_ok t" and m: "mapping_ok m" and l: "t_line t = GeneratedLine m"
  obtains d' where "next_segment d = (d', Some m)" "decoder_at d' (advance t m) (a @ vlq.codes (deltas t m)) b"
proof -
  have ln: "line_base t m = t_char t" using l by (simp add: line_base_def)
  note f = d [unfolded decoder_at_def]
  have ok: "small (GeneratedCharacter m)" "vlq_range (GeneratedCharacter m - t_char t)"
    using t m by (simp_all add: totals_ok_def mapping_ok_def small_delta)
  define vs where "vs = tl (deltas t m)"
  have dl: "deltas t m = (GeneratedCharacter m - t_char t) # vs" by (simp add: vs_def deltas_def ln)
  have at0: "at d a (vlq.codes ((GeneratedCharacter m - t_char t) # vs) @ b)" using f dl by simp
  have x: "d_generatedCharacter d + (GeneratedCharacter m - t_char t) = GeneratedCharacter m" using f by simp
  have err: "d_error d = None" using f by blast
  obtain a1 where a1: "a @ vlq.codes ((GeneratedCharacter m - t_char t) # vs) = a1 @ vlq.codes vs"
    "at (d\<lparr>d_pos := length a1, d_generatedCharacter := GeneratedCharacter m\<rparr>) a1 (vlq.codes vs @ b)"
    "next_segment d =
      (if vs = [] \<and> segment_stop b
       then (d\<lparr>d_pos := length a1, d_generatedCharacter := GeneratedCharacter m\<rparr>,
             Some (captureMapping False False (d\<lparr>d_pos := length a1, d_generatedCharacter := GeneratedCharacter m\<rparr>)))
       else next_source (d\<lparr>d_pos := length a1, d_generatedCharacter := GeneratedCharacter m\<rparr>))"
    by (rule next_segment_at [OF at0 ok(2) err, unfolded x, OF ok(1)])
  show ?thesis
  proof (cases "has_source m")
    case False
    then have vs: "vs = []" "SourceIndex m = -1" "SourceLine m = -1" "SourceCharacter m = -1" "NameIndex m = -1"
      using m by (auto simp: vs_def deltas_def mapping_ok_def has_source_def has_name_def)
    show ?thesis
      by (rule that [of "d\<lparr>d_pos := length a1, d_generatedCharacter := GeneratedCharacter m\<rparr>"])
        (use a1 dl f l False vs b in \<open>simp_all add: captureMapping_def decoder_at_def advance_def vlq.codes_simps has_name_def\<close>)
  next
    case True
    define ns where "ns = (if has_name m then [NameIndex m - t_name t] else [])"
    have vs: "vs = (SourceIndex m - t_source t) # (SourceLine m - t_sourceLine t) # (SourceCharacter m - t_sourceChar t) # ns"
      using True by (simp add: vs_def deltas_def ns_def)
    have sm: "small (SourceIndex m)" "small (SourceLine m)" "small (SourceCharacter m)"
      using m True by (simp_all add: mapping_ok_def)
    have rg: "vlq_range (SourceIndex m - t_source t)" "vlq_range (SourceLine m - t_sourceLine t)"
      "vlq_range (SourceCharacter m - t_sourceChar t)"
      using sm t by (simp_all add: totals_ok_def small_delta)
    define d1 where "d1 = d\<lparr>d_pos := length a1, d_generatedCharacter := GeneratedCharacter m\<rparr>"
    have n1: "next_segment d = next_source d1" using a1(3) vs by (simp add: d1_def)
    have x1: "d_sourceIndex d1 + (SourceIndex m - t_source t) = SourceIndex m" "d_error d1 = None"
      using f by (simp_all add: d1_def)
    obtain a2 where a2: "a1 @ vlq.codes vs = a2 @ vlq.codes ((SourceLine m - t_sourceLine t) # (SourceCharacter m - t_sourceChar t) # ns)"
      "at (d1\<lparr>d_pos := length a2, d_sourceIndex := SourceIndex m\<rparr>) a2
        (vlq.codes ((SourceLine m - t_sourceLine t) # (SourceCharacter m - t_sourceChar t) # ns) @ b)"
      "next_source d1 = next_sourceLine (d1\<lparr>d_pos := length a2, d_sourceIndex := SourceIndex m\<rparr>)"
      by (rule next_source_at [OF a1(2) [folded d1_def, unfolded vs] rg(1) x1(2), unfolded x1(1), folded vs, OF sm(1)])
    define d2 where "d2 = d1\<lparr>d_pos := length a2, d_sourceIndex := SourceIndex m\<rparr>"
    have x2: "d_sourceLine d2 + (SourceLine m - t_sourceLine t) = SourceLine m" "d_error d2 = None"
      using f by (simp_all add: d1_def d2_def)
    obtain a3 where a3: "a2 @ vlq.codes ((SourceLine m - t_sourceLine t) # (SourceCharacter m - t_sourceChar t) # ns) =
        a3 @ vlq.codes ((SourceCharacter m - t_sourceChar t) # ns)"
      "at (d2\<lparr>d_pos := length a3, d_sourceLine := SourceLine m\<rparr>) a3 (vlq.codes ((SourceCharacter m - t_sourceChar t) # ns) @ b)"
      "next_sourceLine d2 = next_sourceCharacter (d2\<lparr>d_pos := length a3, d_sourceLine := SourceLine m\<rparr>)"
      by (rule next_sourceLine_at [OF a2(2) [folded d2_def] rg(2) x2(2), unfolded x2(1), OF sm(2)])
    define d3 where "d3 = d2\<lparr>d_pos := length a3, d_sourceLine := SourceLine m\<rparr>"
    have x3: "d_sourceCharacter d3 + (SourceCharacter m - t_sourceChar t) = SourceCharacter m" "d_error d3 = None"
      using f by (simp_all add: d1_def d2_def d3_def)
    obtain a4 where a4: "a3 @ vlq.codes ((SourceCharacter m - t_sourceChar t) # ns) = a4 @ vlq.codes ns"
      "at (d3\<lparr>d_pos := length a4, d_sourceCharacter := SourceCharacter m\<rparr>) a4 (vlq.codes ns @ b)"
      "next_sourceCharacter d3 = next_name (d3\<lparr>d_pos := length a4, d_sourceCharacter := SourceCharacter m\<rparr>)"
      by (rule next_sourceCharacter_at [OF a3(2) [folded d3_def] rg(3) x3(2), unfolded x3(1), OF sm(3)])
    define d4 where "d4 = d3\<lparr>d_pos := length a4, d_sourceCharacter := SourceCharacter m\<rparr>"
    have nx: "next_segment d = next_name d4" using n1 a2(3) a3(3) a4(3) by (simp add: d2_def d3_def d4_def)
    have pos: "a @ vlq.codes (deltas t m) = a4 @ vlq.codes ns" unfolding dl using a1(1) a2(1) a3(1) a4(1) by simp
    show ?thesis
    proof (cases "has_name m")
      case nm: False
      then have e: "ns = []" by (simp add: ns_def)
      have "isSourceMappingSegmentEnd d4" using segment_end_at [OF a4(2)] b e by (simp add: d4_def vlq.codes_simps)
      then have "next_name d4 = (d4, Some (captureMapping True False d4))" by (simp add: next_name_def)
      with nx pos show ?thesis
        by (intro that [of d4])
          (use a4(2) f l nm True e in \<open>simp_all add: captureMapping_def decoder_at_def advance_def vlq.codes_simps
            has_name_def d1_def d2_def d3_def d4_def\<close>)
    next
      case nm: True
      then have e: "ns = [NameIndex m - t_name t]" by (simp add: ns_def)
      have sn: "small (NameIndex m)" using m nm by (simp add: mapping_ok_def)
      have rn: "vlq_range (NameIndex m - t_name t)" using sn t by (simp add: totals_ok_def small_delta)
      define d5 where "d5 = d4\<lparr>d_pos := length (a4 @ vlq.codes ns), d_nameIndex := NameIndex m\<rparr>"
      have "next_name d4 = (d5, Some (captureMapping True True d5))"
        using next_name_at [of d4 a4 "NameIndex m - t_name t" b] a4(2) e rn sn f b
        by (simp add: d1_def d2_def d3_def d4_def d5_def)
      with nx pos show ?thesis
        by (intro that [of d5])
          (use a4(2) f l nm True in \<open>simp_all add: captureMapping_def decoder_at_def advance_def at_def
            d1_def d2_def d3_def d4_def d5_def\<close>)
    qed
  qed
qed

section \<open>Reading the text back\<close>

lemma Next_line:
  assumes "at d a (CHR '';'' # b)" "\<not> d_done d" "small (d_generatedLine d + 1)"
  shows "Next d = Next (d\<lparr>d_generatedLine := d_generatedLine d + 1, d_generatedCharacter := 0, d_pos := d_pos d + 1\<rparr>)"
  using assms by (subst Next.simps) (simp add: at_def Let_def small_int64)

lemma Next_entry:
  "at d a (CHR '','' # b) \<Longrightarrow> \<not> d_done d \<Longrightarrow> Next d = Next (d\<lparr>d_pos := d_pos d + 1\<rparr>)"
  by (subst Next.simps) (simp add: at_def Let_def)

lemma Next_segment:
  "at d a b \<Longrightarrow> \<not> segment_stop b \<Longrightarrow> \<not> d_done d \<Longrightarrow> Next d = next_segment d"
  by (subst Next.simps) (cases b, auto simp: at_def Let_def segment_stop_def)

lemma Next_stop: "at d a [] \<Longrightarrow> Next d = stopIterating d"
  by (subst Next.simps) (simp add: at_def)

lemma Next_lines:
  assumes "decoder_at d t a (replicate k (CHR '';'') @ b)" "0 < k" "small (t_line t)" "small (t_line t + int k)"
  obtains d' where "Next d = Next d'"
    "decoder_at d' (t\<lparr>t_line := t_line t + int k, t_char := 0\<rparr>) (a @ replicate k (CHR '';'')) b"
  using assms
proof (induction k arbitrary: d t a thesis)
  case (Suc k)
  define d1 where "d1 = d\<lparr>d_generatedLine := d_generatedLine d + 1, d_generatedCharacter := 0, d_pos := d_pos d + 1\<rparr>"
  define t1 where "t1 = t\<lparr>t_line := t_line t + 1, t_char := 0\<rparr>"
  have sm: "small (t_line t + 1)" using Suc.prems by (simp add: small_def)
  have n: "Next d = Next d1"
    using Next_line [of d a "replicate k (CHR '';'') @ b"] Suc.prems sm by (simp add: decoder_at_def d1_def)
  have at: "decoder_at d1 t1 (a @ [CHR '';'']) (replicate k (CHR '';'') @ b)"
    using Suc.prems by (simp add: decoder_at_def d1_def t1_def at_def)
  show ?case
  proof (cases "k = 0")
    case True
    then show ?thesis using Suc.prems(1) [OF n] at by (simp add: t1_def)
  next
    case False
    have "small (t_line t1)" "small (t_line t1 + int k)" using sm Suc.prems by (simp_all add: t1_def add.assoc)
    then obtain d' where d': "Next d1 = Next d'"
      "decoder_at d' (t1\<lparr>t_line := t_line t1 + int k, t_char := 0\<rparr>) ((a @ [CHR '';'']) @ replicate k (CHR '';'')) b"
      using Suc.IH [OF _ at] False by blast
    have "t1\<lparr>t_line := t_line t1 + int k, t_char := 0\<rparr> = t\<lparr>t_line := t_line t + int (Suc k), t_char := 0\<rparr>"
      by (simp add: t1_def)
    then show ?thesis using Suc.prems(1) [of d'] n d' by simp
  qed
qed simp

lemma advance_lines [simp]:
  "advance (t\<lparr>t_line := l, t_char := c\<rparr>) m = advance t m"
  by (simp add: advance_def)

lemma deltas_lines:
  "t_line t < GeneratedLine m \<Longrightarrow> deltas (t\<lparr>t_line := GeneratedLine m, t_char := 0\<rparr>) m = deltas t m"
  by (simp add: deltas_def line_base_def)

text \<open>One piece of the text is one mapping.\<close>

lemma Next_piece:
  assumes d: "decoder_at d t a (piece t m @ b)" and b: "segment_stop b"
    and t: "totals_ok t" and m: "mapping_ok m" and l: "t_line t \<le> GeneratedLine m"
  obtains d' where "Next d = (d', Some m)" "decoder_at d' (advance t m) (a @ piece t m) b"
proof (cases "t_line t < GeneratedLine m")
  case True
  define k where "k = nat (GeneratedLine m - t_line t)"
  have p: "piece t m = replicate k (CHR '';'') @ vlq.codes (deltas t m)"
    using True by (simp add: piece_def delimiters_def k_def)
  have k: "0 < k" "t_line t + int k = GeneratedLine m" using True by (simp_all add: k_def)
  have sm: "small (t_line t)" "small (t_line t + int k)" using t m k by (simp_all add: totals_ok_def mapping_ok_def)
  define t1 where "t1 = t\<lparr>t_line := GeneratedLine m, t_char := 0\<rparr>"
  have "decoder_at d t a (replicate k (CHR '';'') @ vlq.codes (deltas t m) @ b)" using d p by simp
  then obtain d1 where d1: "Next d = Next d1"
    "decoder_at d1 t1 (a @ replicate k (CHR '';'')) (vlq.codes (deltas t m) @ b)"
    unfolding t1_def k(2) [symmetric] by (rule Next_lines [OF _ k(1) sm])
  have l1: "t_line t1 = GeneratedLine m" by (simp add: t1_def)
  have dl: "deltas t1 m = deltas t m" unfolding t1_def by (rule deltas_lines [OF True])
  have "totals_ok t1" using t m by (simp add: totals_ok_def mapping_ok_def t1_def small_def)
  then obtain d' where d': "next_segment d1 = (d', Some m)"
    "decoder_at d' (advance t1 m) ((a @ replicate k (CHR '';'')) @ vlq.codes (deltas t m)) b"
    using read_segment [of d1 t1 "a @ replicate k (CHR '';'')" m b] d1(2) b m l1 unfolding dl by blast
  have "Next d1 = next_segment d1"
    using Next_segment [of d1 "a @ replicate k (CHR '';'')" "vlq.codes (deltas t m) @ b"] d1(2) code_not_stop
    by (simp add: decoder_at_def deltas_def)
  with that [of d'] d1(1) d' p show ?thesis by (simp add: t1_def)
next
  case False
  then have eq: "t_line t = GeneratedLine m" using l by simp
  obtain d1 a1 where d1: "Next d = Next d1" "decoder_at d1 t a1 (vlq.codes (deltas t m) @ b)"
    "a1 @ vlq.codes (deltas t m) = a @ piece t m"
  proof (cases "t_started t")
    case True
    then have p: "piece t m = CHR '','' # vlq.codes (deltas t m)" using False by (simp add: piece_def delimiters_def)
    have "Next d = Next (d\<lparr>d_pos := d_pos d + 1\<rparr>)"
      using d p by (intro Next_entry [of d a "vlq.codes (deltas t m) @ b"]) (simp_all add: decoder_at_def)
    moreover have "decoder_at (d\<lparr>d_pos := d_pos d + 1\<rparr>) t (a @ '','') (vlq.codes (deltas t m) @ b)"
      using d p by (simp add: decoder_at_def at_def)
    ultimately show ?thesis using that p by simp
  next
    case ns: False
    then have p: "piece t m = vlq.codes (deltas t m)" using False by (simp add: piece_def delimiters_def)
    then show ?thesis using that d by simp
  qed
  obtain d' where d': "next_segment d1 = (d', Some m)"
    "decoder_at d' (advance t m) (a1 @ vlq.codes (deltas t m)) b"
    using read_segment [OF d1(2) b t m eq] by blast
  have "Next d1 = next_segment d1"
    using Next_segment [of d1 a1 "vlq.codes (deltas t m) @ b"] d1(2) code_not_stop
    by (simp add: decoder_at_def deltas_def)
  with that [of d'] d1 d' show ?thesis by simp
qed

lemma piece_stop:
  assumes "t_started t" shows "segment_stop (piece t m @ b)"
proof (cases "t_line t < GeneratedLine m")
  case True
  then obtain k where "nat (GeneratedLine m - t_line t) = Suc k" by (metis gr0_implies_Suc zero_less_nat_eq diff_gt_0_iff_gt)
  then show ?thesis using True by (simp add: piece_def delimiters_def segment_stop_def)
qed (use assms in \<open>simp add: piece_def delimiters_def segment_stop_def\<close>)

lemma render_stop: "t_started t \<Longrightarrow> segment_stop (render t ms)"
  by (cases ms) (simp_all add: piece_stop segment_stop_def [of "[]"])

lemma advance_started [simp]: "t_started (advance t m)"
  by (simp add: advance_def)

lemma Values_render:
  assumes "decoder_at d t a (render t ms)" "totals_ok t" "mappings_ok t ms"
  shows "\<exists>d'. Values (\<lambda>m ms. (ms @ [m], True)) d acc = (d', acc @ ms) \<and> d_error d' = None"
  using assms
proof (induction ms arbitrary: d t a acc)
  case Nil
  then have "at d a []" by (simp add: decoder_at_def)
  then have "Next d = stopIterating d" by (rule Next_stop)
  then show ?case using Nil by (subst Values.simps) (simp add: stopIterating_def decoder_at_def)
next
  case (Cons m ms)
  have m: "mapping_ok m" "t_line t \<le> GeneratedLine m" "mappings_ok (advance t m) ms" using Cons.prems by simp_all
  have "decoder_at d t a (piece t m @ render (advance t m) ms)" using Cons.prems by simp
  moreover have "segment_stop (render (advance t m) ms)" by (rule render_stop) simp
  ultimately obtain d1 where d1: "Next d = (d1, Some m)" "decoder_at d1 (advance t m) (a @ piece t m) (render (advance t m) ms)"
    using Next_piece [of d t a m] Cons.prems(2) m by metis
  obtain d' where "Values (\<lambda>m ms. (ms @ [m], True)) d1 (acc @ [m]) = (d', (acc @ [m]) @ ms)" "d_error d' = None"
    using Cons.IH [OF d1(2) totals_ok_advance [OF Cons.prems(2) m(1)] m(3)] by blast
  then show ?case by (subst Values.simps) (simp add: d1(1))
qed

lemma decode_render:
  assumes "mappings_ok totals0 ms"
  obtains d where "decode_all (DecodeMappings (render totals0 ms)) = (d, ms)" "d_error d = None"
proof -
  have "decoder_at (DecodeMappings (render totals0 ms)) totals0 [] (render totals0 ms)"
    by (simp add: decoder_at_def at_def DecodeMappings_def totals0_def)
  from Values_render [OF this totals0_ok assms, of "[]"] that show ?thesis
    unfolding decode_all_def by auto
qed

end
