(* ===== verification/Sourcemap_Generator.thy ===== *)
theory Sourcemap_Generator
  imports Sourcemap_Vlq Tspath_Compare
begin

text \<open>
  The source map generator (\<open>internal/sourcemap/generator.go\<close>). Every method is a function on the
  record of the generator's fields; methods that report an error return it in a sum with the
  generator unchanged, and a panic is a \<open>go\<close> value. \<open>orbit\<close> is the folding table of the path
  comparison. Numbers are 64-bit: the differences that are encoded wrap.
\<close>

record Generator =
  pathOptions :: ComparePathsOptions
  g_file :: string
  sourceRoot :: string
  sourcesDirectoryPath :: string
  rawSources :: "string list"
  sources :: "string list"
  sourceToSourceIndexMap :: "string \<rightharpoonup> int"
  sourcesContent :: "string option list"
  names :: "string list"
  nameToNameIndexMap :: "string \<rightharpoonup> int"
  mappings :: string
  lastGeneratedLine :: int
  lastGeneratedCharacter :: int
  lastSourceIndex :: int
  lastSourceLine :: int
  lastSourceCharacter :: int
  lastNameIndex :: int
  hasLast :: bool
  pendingGeneratedLine :: int
  pendingGeneratedCharacter :: int
  pendingSourceIndex :: int
  pendingSourceLine :: int
  pendingSourceCharacter :: int
  pendingNameIndex :: int
  hasPending :: bool
  hasPendingSource :: bool
  hasPendingName :: bool

record RawSourceMap =
  Version :: int
  File :: string
  SourceRoot :: string
  Sources :: "string list"
  Names :: "string list"
  Mappings :: string
  SourcesContent :: "string option list"

definition NewGenerator :: "string \<Rightarrow> string \<Rightarrow> string \<Rightarrow> ComparePathsOptions \<Rightarrow> Generator" where
  "NewGenerator file sourceRoot' sourcesDirectoryPath' options =
     \<lparr>pathOptions = options, g_file = file, sourceRoot = sourceRoot',
      sourcesDirectoryPath = sourcesDirectoryPath', rawSources = [], sources = [],
      sourceToSourceIndexMap = Map.empty, sourcesContent = [], names = [], nameToNameIndexMap = Map.empty,
      mappings = [], lastGeneratedLine = 0, lastGeneratedCharacter = 0, lastSourceIndex = 0, lastSourceLine = 0,
      lastSourceCharacter = 0, lastNameIndex = 0, hasLast = False, pendingGeneratedLine = 0,
      pendingGeneratedCharacter = 0, pendingSourceIndex = 0, pendingSourceLine = 0, pendingSourceCharacter = 0,
      pendingNameIndex = 0, hasPending = False, hasPendingSource = False, hasPendingName = False\<rparr>"

section \<open>Sources and names\<close>

definition AddSource :: "(nat \<Rightarrow> nat) \<Rightarrow> string \<Rightarrow> Generator \<Rightarrow> Generator \<times> int" where
  "AddSource orbit fileName gen =
     (let source = GetRelativePathToDirectoryOrUrl orbit (sourcesDirectoryPath gen) fileName True (pathOptions gen)
      in case sourceToSourceIndexMap gen source of
           Some sourceIndex \<Rightarrow> (gen, sourceIndex)
         | None \<Rightarrow>
             (let sourceIndex = int (length (sources gen))
              in (gen\<lparr>sources := sources gen @ [source], rawSources := rawSources gen @ [fileName],
                      sourceToSourceIndexMap := (sourceToSourceIndexMap gen)(source \<mapsto> sourceIndex)\<rparr>,
                  sourceIndex)))"

definition SetSourceContent :: "int \<Rightarrow> string \<Rightarrow> Generator \<Rightarrow> Generator \<times> string option" where
  "SetSourceContent sourceIndex content gen =
     (if sourceIndex < 0 \<or> int (length (sources gen)) \<le> sourceIndex
      then (gen, Some ''sourceIndex is out of range'')
      else
        (let padded = sourcesContent gen @ replicate (nat sourceIndex + 1 - length (sourcesContent gen)) None
         in (gen\<lparr>sourcesContent := padded[nat sourceIndex := Some content]\<rparr>, None)))"

definition AddName :: "string \<Rightarrow> Generator \<Rightarrow> Generator \<times> int" where
  "AddName name gen =
     (case nameToNameIndexMap gen name of
        Some nameIndex \<Rightarrow> (gen, nameIndex)
      | None \<Rightarrow>
          (let nameIndex = int (length (names gen))
           in (gen\<lparr>names := names gen @ [name],
                   nameToNameIndexMap := (nameToNameIndexMap gen)(name \<mapsto> nameIndex)\<rparr>, nameIndex)))"

section \<open>Committing the pending mapping\<close>

definition isNewGeneratedPosition :: "int \<Rightarrow> int \<Rightarrow> Generator \<Rightarrow> bool" where
  "isNewGeneratedPosition generatedLine generatedCharacter gen =
     (\<not> hasPending gen \<or> pendingGeneratedLine gen \<noteq> generatedLine \<or>
      pendingGeneratedCharacter gen \<noteq> generatedCharacter)"

definition isBacktrackingSourcePosition :: "int \<Rightarrow> int \<Rightarrow> int \<Rightarrow> Generator \<Rightarrow> bool" where
  "isBacktrackingSourcePosition sourceIndex sourceLine sourceCharacter gen =
     (sourceIndex \<noteq> -1 \<and> sourceLine \<noteq> -1 \<and> sourceCharacter \<noteq> -1 \<and>
      pendingSourceIndex gen = sourceIndex \<and>
      (sourceLine < pendingSourceLine gen \<or>
       pendingSourceLine gen = sourceLine \<and> sourceCharacter < pendingSourceCharacter gen))"

definition shouldCommitMapping :: "Generator \<Rightarrow> bool" where
  "shouldCommitMapping gen =
     (hasPending gen \<and>
      (\<not> hasLast gen \<or>
       lastGeneratedLine gen \<noteq> pendingGeneratedLine gen \<or>
       lastGeneratedCharacter gen \<noteq> pendingGeneratedCharacter gen \<or>
       lastSourceIndex gen \<noteq> pendingSourceIndex gen \<or>
       lastSourceLine gen \<noteq> pendingSourceLine gen \<or>
       lastSourceCharacter gen \<noteq> pendingSourceCharacter gen \<or>
       lastNameIndex gen \<noteq> pendingNameIndex gen))"

text \<open>
  The loop that emits line delimiters. It runs only while the last line is below the pending one, so
  the increment cannot overflow.
\<close>

function emit_lines :: "int \<Rightarrow> string \<Rightarrow> int \<Rightarrow> string \<times> int" where
  "emit_lines pendingLine m line =
     (let m' = m @ '';''; line' = line + 1
      in if pendingLine \<le> line' then (m', line') else emit_lines pendingLine m' line')"
  by pat_completeness auto
termination
  by (relation "measure (\<lambda>(p, m, l). nat (p - l))") auto

declare emit_lines.simps [simp del]

definition append_delta :: "int \<Rightarrow> int \<Rightarrow> string \<Rightarrow> string go" where
  "append_delta pending last' m = appendBase64VLQ (int64 (pending - last')) m"

definition commit_delimiters :: "Generator \<Rightarrow> Generator go" where
  "commit_delimiters gen =
     (if lastGeneratedLine gen < pendingGeneratedLine gen then
        (let (m, line) = emit_lines (pendingGeneratedLine gen) (mappings gen) (lastGeneratedLine gen)
         in Inr (gen\<lparr>mappings := m, lastGeneratedLine := line, lastGeneratedCharacter := 0\<rparr>))
      else if lastGeneratedLine gen \<noteq> pendingGeneratedLine gen
      then Inl (Panicked ''generatedLine cannot backtrack'')
      else if hasLast gen then Inr (gen\<lparr>mappings := mappings gen @ '',''\<rparr>)
      else Inr gen)"

definition commit_character :: "Generator \<Rightarrow> Generator go" where
  "commit_character gen =
     go_bind (append_delta (pendingGeneratedCharacter gen) (lastGeneratedCharacter gen) (mappings gen)) (\<lambda>m.
       Inr (gen\<lparr>mappings := m, lastGeneratedCharacter := pendingGeneratedCharacter gen\<rparr>))"

definition commit_name :: "Generator \<Rightarrow> Generator go" where
  "commit_name gen =
     (if hasPendingName gen then
        go_bind (append_delta (pendingNameIndex gen) (lastNameIndex gen) (mappings gen)) (\<lambda>m.
          Inr (gen\<lparr>mappings := m, lastNameIndex := pendingNameIndex gen\<rparr>))
      else Inr gen)"

definition commit_source :: "Generator \<Rightarrow> Generator go" where
  "commit_source gen =
     (if hasPendingSource gen then
        go_bind (append_delta (pendingSourceIndex gen) (lastSourceIndex gen) (mappings gen)) (\<lambda>m.
        go_bind (append_delta (pendingSourceLine gen) (lastSourceLine gen) m) (\<lambda>m.
        go_bind (append_delta (pendingSourceCharacter gen) (lastSourceCharacter gen) m) (\<lambda>m.
          commit_name (gen\<lparr>mappings := m, lastSourceIndex := pendingSourceIndex gen,
                           lastSourceLine := pendingSourceLine gen,
                           lastSourceCharacter := pendingSourceCharacter gen\<rparr>))))
      else Inr gen)"

definition commitPendingMapping :: "Generator \<Rightarrow> Generator go" where
  "commitPendingMapping gen =
     (if \<not> shouldCommitMapping gen then Inr gen
      else
        go_bind (commit_delimiters gen) (\<lambda>gen.
        go_bind (commit_character gen) (\<lambda>gen.
        go_bind (commit_source gen) (\<lambda>gen.
          Inr (gen\<lparr>hasLast := True\<rparr>)))))"

section \<open>Adding mappings\<close>

definition start_mapping :: "int \<Rightarrow> int \<Rightarrow> Generator \<Rightarrow> Generator" where
  "start_mapping generatedLine generatedCharacter gen =
     gen\<lparr>pendingGeneratedLine := generatedLine, pendingGeneratedCharacter := generatedCharacter,
         hasPendingSource := False, hasPendingName := False, hasPending := True\<rparr>"

definition set_pending_source :: "int \<Rightarrow> int \<Rightarrow> int \<Rightarrow> int \<Rightarrow> Generator \<Rightarrow> Generator" where
  "set_pending_source sourceIndex sourceLine sourceCharacter nameIndex gen =
     (if sourceIndex \<noteq> -1 \<and> sourceLine \<noteq> -1 \<and> sourceCharacter \<noteq> -1 then
        (let gen = gen\<lparr>pendingSourceIndex := sourceIndex, pendingSourceLine := sourceLine,
                       pendingSourceCharacter := sourceCharacter, hasPendingSource := True\<rparr>
         in if nameIndex \<noteq> -1 then gen\<lparr>pendingNameIndex := nameIndex, hasPendingName := True\<rparr> else gen)
      else gen)"

definition addMapping :: "int \<Rightarrow> int \<Rightarrow> int \<Rightarrow> int \<Rightarrow> int \<Rightarrow> int \<Rightarrow> Generator \<Rightarrow> Generator go" where
  "addMapping generatedLine generatedCharacter sourceIndex sourceLine sourceCharacter nameIndex gen =
     go_bind
       (if isNewGeneratedPosition generatedLine generatedCharacter gen \<or>
           isBacktrackingSourcePosition sourceIndex sourceLine sourceCharacter gen
        then go_bind (commitPendingMapping gen) (\<lambda>gen. Inr (start_mapping generatedLine generatedCharacter gen))
        else Inr gen)
       (\<lambda>gen. Inr (set_pending_source sourceIndex sourceLine sourceCharacter nameIndex gen))"

text \<open>The exported methods return the generator after the call and the error, if any.\<close>

definition AddGeneratedMapping :: "int \<Rightarrow> int \<Rightarrow> Generator \<Rightarrow> (Generator \<times> string option) go" where
  "AddGeneratedMapping generatedLine generatedCharacter gen =
     (if generatedLine < pendingGeneratedLine gen then Inr (gen, Some ''generatedLine cannot backtrack'')
      else if generatedCharacter < 0 then Inr (gen, Some ''generatedCharacter cannot be negative'')
      else go_bind (addMapping generatedLine generatedCharacter (-1) (-1) (-1) (-1) gen) (\<lambda>gen. Inr (gen, None)))"

definition AddSourceMapping :: "int \<Rightarrow> int \<Rightarrow> int \<Rightarrow> int \<Rightarrow> int \<Rightarrow> Generator \<Rightarrow> (Generator \<times> string option) go" where
  "AddSourceMapping generatedLine generatedCharacter sourceIndex sourceLine sourceCharacter gen =
     (if generatedLine < pendingGeneratedLine gen then Inr (gen, Some ''generatedLine cannot backtrack'')
      else if generatedCharacter < 0 then Inr (gen, Some ''generatedCharacter cannot be negative'')
      else if sourceIndex < 0 \<or> int (length (sources gen)) \<le> sourceIndex
      then Inr (gen, Some ''sourceIndex is out of range'')
      else if sourceLine < 0 then Inr (gen, Some ''sourceLine cannot be negative'')
      else if sourceCharacter < 0 then Inr (gen, Some ''sourceCharacter cannot be negative'')
      else go_bind (addMapping generatedLine generatedCharacter sourceIndex sourceLine sourceCharacter (-1) gen)
             (\<lambda>gen. Inr (gen, None)))"

definition AddNamedSourceMapping ::
    "int \<Rightarrow> int \<Rightarrow> int \<Rightarrow> int \<Rightarrow> int \<Rightarrow> int \<Rightarrow> Generator \<Rightarrow> (Generator \<times> string option) go" where
  "AddNamedSourceMapping generatedLine generatedCharacter sourceIndex sourceLine sourceCharacter nameIndex gen =
     (if generatedLine < pendingGeneratedLine gen then Inr (gen, Some ''generatedLine cannot backtrack'')
      else if generatedCharacter < 0 then Inr (gen, Some ''generatedCharacter cannot be negative'')
      else if sourceIndex < 0 \<or> int (length (sources gen)) \<le> sourceIndex
      then Inr (gen, Some ''sourceIndex is out of range'')
      else if sourceLine < 0 then Inr (gen, Some ''sourceLine cannot be negative'')
      else if sourceCharacter < 0 then Inr (gen, Some ''sourceCharacter cannot be negative'')
      else if nameIndex < 0 \<or> int (length (names gen)) \<le> nameIndex
      then Inr (gen, Some ''nameIndex is out of range'')
      else go_bind (addMapping generatedLine generatedCharacter sourceIndex sourceLine sourceCharacter nameIndex gen)
             (\<lambda>gen. Inr (gen, None)))"

definition Generator_RawSourceMap :: "Generator \<Rightarrow> (Generator \<times> RawSourceMap) go" where
  "Generator_RawSourceMap gen =
     go_bind (commitPendingMapping gen) (\<lambda>gen.
       Inr (gen, \<lparr>Version = 3, File = g_file gen, SourceRoot = sourceRoot gen, Sources = sources gen,
                  Names = names gen, Mappings = mappings gen, SourcesContent = sourcesContent gen\<rparr>))"

end
