(* ===== verification/Sourcemap_Commit.thy ===== *)
theory Sourcemap_Commit
  imports Sourcemap_Text Sourcemap_Generator
begin

text \<open>
  The generator writes the text of the mappings it commits. The invariant ties the fields of a
  generator to the list of committed mappings; committing the pending mapping appends its piece.
\<close>

section \<open>The invariant of a generator\<close>

definition gen_totals :: "Generator \<Rightarrow> totals" where
  "gen_totals g =
     \<lparr>t_started = hasLast g, t_line = lastGeneratedLine g, t_char = lastGeneratedCharacter g,
      t_source = lastSourceIndex g, t_sourceLine = lastSourceLine g, t_sourceChar = lastSourceCharacter g,
      t_name = lastNameIndex g\<rparr>"

definition pending_mapping :: "Generator \<Rightarrow> Mapping" where
  "pending_mapping g =
     \<lparr>GeneratedLine = pendingGeneratedLine g, GeneratedCharacter = pendingGeneratedCharacter g,
      SourceIndex = (if hasPendingSource g then pendingSourceIndex g else -1),
      SourceLine = (if hasPendingSource g then pendingSourceLine g else -1),
      SourceCharacter = (if hasPendingSource g then pendingSourceCharacter g else -1),
      NameIndex = (if hasPendingName g then pendingNameIndex g else -1)\<rparr>"

definition pending_inv :: "Generator \<Rightarrow> bool" where
  "pending_inv g =
     (mapping_ok (pending_mapping g) \<and> lastGeneratedLine g \<le> pendingGeneratedLine g \<and>
      (hasPendingSource g \<longrightarrow> pendingSourceIndex g \<noteq> -1) \<and>
      (hasPendingName g \<longrightarrow> hasPendingSource g \<and> pendingNameIndex g \<noteq> -1) \<and>
      (\<not> hasPending g \<longrightarrow> \<not> hasPendingSource g) \<and>
      (\<not> hasPendingSource g \<longrightarrow> pendingSourceIndex g = lastSourceIndex g \<and>
         pendingSourceLine g = lastSourceLine g \<and> pendingSourceCharacter g = lastSourceCharacter g) \<and>
      (\<not> hasPendingName g \<longrightarrow> pendingNameIndex g = lastNameIndex g))"

definition gen_inv :: "Generator \<Rightarrow> Mapping list \<Rightarrow> bool" where
  "gen_inv g ms =
     (mappings g = render totals0 ms \<and> gen_totals g = foldl advance totals0 ms \<and> mappings_ok totals0 ms \<and>
      pending_inv g)"

lemma totals_ok_fold: "totals_ok t \<Longrightarrow> mappings_ok t ms \<Longrightarrow> totals_ok (foldl advance t ms)"
  by (induction ms arbitrary: t) (auto simp: totals_ok_advance)

lemma gen_inv_totals: "gen_inv g ms \<Longrightarrow> totals_ok (gen_totals g)"
  by (simp add: gen_inv_def totals_ok_fold)

lemma has_source_pending: "pending_inv g \<Longrightarrow> has_source (pending_mapping g) = hasPendingSource g"
  by (auto simp: has_source_def pending_mapping_def pending_inv_def)

lemma has_name_pending: "pending_inv g \<Longrightarrow> has_name (pending_mapping g) = hasPendingName g"
  by (auto simp: has_name_def pending_mapping_def pending_inv_def)

lemma gen_inv_new: "gen_inv (NewGenerator f r d o') []"
  by (simp add: gen_inv_def pending_inv_def NewGenerator_def gen_totals_def totals0_def pending_mapping_def
      mapping_ok_def small_def has_source_def has_name_def)

text \<open>What is still to be written of the source position equals the totals, so the test for a commit is
  whether the pending mapping would change them.\<close>

lemma advance_pending:
  assumes p: "pending_inv g"
  shows "advance (gen_totals g) (pending_mapping g) =
    \<lparr>t_started = True, t_line = pendingGeneratedLine g, t_char = pendingGeneratedCharacter g,
     t_source = pendingSourceIndex g, t_sourceLine = pendingSourceLine g,
     t_sourceChar = pendingSourceCharacter g, t_name = pendingNameIndex g\<rparr>"
  using p unfolding advance_def has_source_pending [OF p] has_name_pending [OF p]
  by (cases "hasPendingSource g"; cases "hasPendingName g")
    (simp_all add: pending_mapping_def gen_totals_def pending_inv_def)

lemma shouldCommit_iff:
  assumes "pending_inv g"
  shows "shouldCommitMapping g \<longleftrightarrow>
    hasPending g \<and> \<not> (hasLast g \<and> advance (gen_totals g) (pending_mapping g) = gen_totals g)"
  unfolding advance_pending [OF assms] by (auto simp: shouldCommitMapping_def gen_totals_def)

section \<open>Writing one piece\<close>

lemma emit_lines_text:
  "line < p \<Longrightarrow> emit_lines p m line = (m @ replicate (nat (p - line)) (CHR '';''), p)"
proof (induction "nat (p - line)" arbitrary: m line rule: less_induct)
  case less
  show ?case
  proof (cases "p \<le> line + 1")
    case True
    then have "p = line + 1" using less.prems by simp
    then show ?thesis by (subst emit_lines.simps) (simp add: Let_def)
  next
    case False
    have "nat (p - line) = Suc (nat (p - (line + 1)))" using less.prems by simp
    moreover have "emit_lines p (m @ '';'') (line + 1) = ((m @ '';'') @ replicate (nat (p - (line + 1))) (CHR '';''), p)"
      using False less.prems by (intro less.hyps) auto
    ultimately show ?thesis using False by (subst emit_lines.simps) (simp add: Let_def)
  qed
qed

lemma append_delta_code:
  assumes "small x" "small y"
  shows "append_delta x y m = Inr (m @ vlq.codes [x - y])"
proof -
  have "int64 (x - y) = x - y" using assms by (simp add: small_def)
  then show ?thesis by (simp add: append_delta_def appendBase64VLQ_code vlq.codes_simps)
qed

lemma commit_delimiters_text:
  assumes "lastGeneratedLine g \<le> pendingGeneratedLine g"
  shows "commit_delimiters g = Inr (g\<lparr>mappings := mappings g @ delimiters (gen_totals g) (pending_mapping g),
      lastGeneratedLine := pendingGeneratedLine g, lastGeneratedCharacter := line_base (gen_totals g) (pending_mapping g)\<rparr>)"
  using assms
  by (auto simp: commit_delimiters_def emit_lines_text delimiters_def line_base_def gen_totals_def pending_mapping_def)

lemma codes_append: "vlq.codes (us @ vs) = vlq.codes us @ vlq.codes vs"
  by (simp add: vlq.codes_def)

lemma commit_piece:
  assumes inv: "gen_inv g ms" and s: "shouldCommitMapping g"
  shows "commitPendingMapping g = Inr (g\<lparr>
      mappings := mappings g @ piece (gen_totals g) (pending_mapping g), hasLast := True,
      lastGeneratedLine := pendingGeneratedLine g, lastGeneratedCharacter := pendingGeneratedCharacter g,
      lastSourceIndex := pendingSourceIndex g, lastSourceLine := pendingSourceLine g,
      lastSourceCharacter := pendingSourceCharacter g, lastNameIndex := pendingNameIndex g\<rparr>)"
proof -
  have p: "pending_inv g" using inv by (simp add: gen_inv_def)
  let ?t = "gen_totals g" and ?m = "pending_mapping g"
  have t: "totals_ok ?t" using inv by (rule gen_inv_totals)
  have m: "mapping_ok ?m" "lastGeneratedLine g \<le> pendingGeneratedLine g" using p by (simp_all add: pending_inv_def)
  define g1 where "g1 = g\<lparr>mappings := mappings g @ delimiters ?t ?m,
      lastGeneratedLine := pendingGeneratedLine g, lastGeneratedCharacter := line_base ?t ?m\<rparr>"
  have c1: "commit_delimiters g = Inr g1" unfolding g1_def by (rule commit_delimiters_text [OF m(2)])
  have sm: "small (pendingGeneratedCharacter g)" "small (line_base ?t ?m)"
    using m t by (auto simp: mapping_ok_def pending_mapping_def line_base_def totals_ok_def small_def)
  define g2 where "g2 = g1\<lparr>mappings := mappings g1 @ vlq.codes [pendingGeneratedCharacter g - line_base ?t ?m],
      lastGeneratedCharacter := pendingGeneratedCharacter g\<rparr>"
  have c2: "commit_character g1 = Inr g2"
    using append_delta_code [OF sm] by (simp add: commit_character_def g1_def g2_def)
  show ?thesis
  proof (cases "hasPendingSource g")
    case False
    then have n: "\<not> hasPendingName g" using p by (auto simp: pending_inv_def)
    have "deltas ?t ?m = [pendingGeneratedCharacter g - line_base ?t ?m]"
      using False has_source_pending [OF p] by (simp add: deltas_def pending_mapping_def)
    moreover have "commit_source g2 = Inr g2" using False by (simp add: commit_source_def g2_def g1_def)
    ultimately show ?thesis
      using s c1 c2 p False n by (simp add: commitPendingMapping_def piece_def g1_def g2_def pending_inv_def)
  next
    case True
    have ss: "small (pendingSourceIndex g)" "small (pendingSourceLine g)" "small (pendingSourceCharacter g)"
      "small (lastSourceIndex g)" "small (lastSourceLine g)" "small (lastSourceCharacter g)"
      using m(1) True has_source_pending [OF p] t
      by (simp_all add: mapping_ok_def totals_ok_def gen_totals_def) (simp_all add: pending_mapping_def)
    define g3 where "g3 = g2\<lparr>mappings := mappings g2 @ vlq.codes [pendingSourceIndex g - lastSourceIndex g,
        pendingSourceLine g - lastSourceLine g, pendingSourceCharacter g - lastSourceCharacter g],
        lastSourceIndex := pendingSourceIndex g, lastSourceLine := pendingSourceLine g,
        lastSourceCharacter := pendingSourceCharacter g\<rparr>"
    have c3: "commit_source g2 = commit_name g3"
      using True ss by (simp add: commit_source_def g3_def g2_def g1_def append_delta_code vlq.codes_simps)
    show ?thesis
    proof (cases "hasPendingName g")
      case False
      have "deltas ?t ?m = [pendingGeneratedCharacter g - line_base ?t ?m, pendingSourceIndex g - lastSourceIndex g,
          pendingSourceLine g - lastSourceLine g, pendingSourceCharacter g - lastSourceCharacter g]"
        using True False has_source_pending [OF p] has_name_pending [OF p]
        by (simp add: deltas_def) (simp add: pending_mapping_def gen_totals_def)
      moreover have "commit_name g3 = Inr g3" using False by (simp add: commit_name_def g3_def g2_def g1_def)
      ultimately show ?thesis
        using s c1 c2 c3 p False
        by (simp add: commitPendingMapping_def piece_def g1_def g2_def g3_def pending_inv_def vlq.codes_simps)
    next
      case nm: True
      have sn: "small (pendingNameIndex g)" "small (lastNameIndex g)"
        using m(1) nm has_name_pending [OF p] t
        by (simp_all add: mapping_ok_def totals_ok_def gen_totals_def) (simp_all add: pending_mapping_def)
      have "deltas ?t ?m = [pendingGeneratedCharacter g - line_base ?t ?m, pendingSourceIndex g - lastSourceIndex g,
          pendingSourceLine g - lastSourceLine g, pendingSourceCharacter g - lastSourceCharacter g,
          pendingNameIndex g - lastNameIndex g]"
        using True nm has_source_pending [OF p] has_name_pending [OF p]
        by (simp add: deltas_def) (simp add: pending_mapping_def gen_totals_def)
      moreover have "commit_name g3 = Inr (g3\<lparr>mappings := mappings g3 @ vlq.codes [pendingNameIndex g - lastNameIndex g],
          lastNameIndex := pendingNameIndex g\<rparr>)"
        using nm sn by (simp add: commit_name_def g3_def g2_def g1_def append_delta_code)
      ultimately show ?thesis
        using s c1 c2 c3
        by (simp add: commitPendingMapping_def piece_def g1_def g2_def g3_def vlq.codes_simps)
    qed
  qed
qed

end
