(* ===== verification/Sourcemap_Roundtrip.thy ===== *)
theory Sourcemap_Roundtrip
  imports Sourcemap_Commit
begin

text \<open>
  The contract of the generator, as an abstract machine on a list of committed mappings and a pending
  one, and the proof that the generator implements it: the mappings it writes decode, without an
  error, to the list the abstract machine holds.
\<close>

section \<open>The abstract machine\<close>

type_synonym abstract = "Mapping list \<times> Mapping option"

definition totals_of :: "Mapping list \<Rightarrow> totals" where
  "totals_of ms = foldl advance totals0 ms"

definition abs_commit :: "abstract \<Rightarrow> Mapping list" where
  \<comment> \<open>the pending mapping is committed unless it changes nothing after the last one\<close>
  "abs_commit a =
     (case a of (ms, None) \<Rightarrow> ms
      | (ms, Some m) \<Rightarrow> if ms \<noteq> [] \<and> advance (totals_of ms) m = totals_of ms then ms else ms @ [m])"

definition bare :: "int \<Rightarrow> int \<Rightarrow> Mapping" where
  "bare line character =
     \<lparr>GeneratedLine = line, GeneratedCharacter = character, SourceIndex = -1, SourceLine = -1,
      SourceCharacter = -1, NameIndex = -1\<rparr>"

text \<open>
  A new mapping starts at a new generated position, or when the source position moves back within the
  same source; otherwise the pending mapping is amended.
\<close>

definition abs_starts_new :: "abstract \<Rightarrow> Mapping \<Rightarrow> bool" where
  "abs_starts_new a x =
     (case a of (ms, None) \<Rightarrow> True
      | (ms, Some m) \<Rightarrow>
          GeneratedLine m \<noteq> GeneratedLine x \<or> GeneratedCharacter m \<noteq> GeneratedCharacter x \<or>
          has_source x \<and>
          (let t = advance (totals_of ms) m
           in t_source t = SourceIndex x \<and>
              (SourceLine x < t_sourceLine t \<or> t_sourceLine t = SourceLine x \<and> SourceCharacter x < t_sourceChar t)))"

definition amend :: "Mapping \<Rightarrow> Mapping \<Rightarrow> Mapping" where
  "amend m x =
     (if has_source x
      then m\<lparr>SourceIndex := SourceIndex x, SourceLine := SourceLine x, SourceCharacter := SourceCharacter x,
             NameIndex := (if has_name x then NameIndex x else NameIndex m)\<rparr>
      else m)"

definition abs_add :: "Mapping \<Rightarrow> abstract \<Rightarrow> abstract" where
  "abs_add x a =
     (if abs_starts_new a x then (abs_commit a, Some x)
      else (case a of (ms, None) \<Rightarrow> (ms, Some x) | (ms, Some m) \<Rightarrow> (ms, Some (amend m x))))"

definition abs_flush :: "abstract \<Rightarrow> abstract" where
  "abs_flush a = (abs_commit a, snd a)"

section \<open>The generator implements it\<close>

definition abs_of :: "Generator \<Rightarrow> Mapping list \<Rightarrow> abstract" where
  "abs_of g ms = (ms, if hasPending g then Some (pending_mapping g) else None)"

lemma fst_abs_of [simp]: "fst (abs_of g ms) = ms"
  by (simp add: abs_of_def)

lemma commit_inv:
  assumes inv: "gen_inv g ms"
  obtains g' where "commitPendingMapping g = Inr g'" "gen_inv g' (abs_commit (abs_of g ms))"
    "pending_mapping g' = pending_mapping g" "hasPending g' = hasPending g"
    "pendingSourceIndex g' = lastSourceIndex g'" "pendingSourceLine g' = lastSourceLine g'"
    "pendingSourceCharacter g' = lastSourceCharacter g'" "pendingNameIndex g' = lastNameIndex g'"
    "sources g' = sources g" "names g' = names g" "sourcesContent g' = sourcesContent g"
    "sourceToSourceIndexMap g' = sourceToSourceIndexMap g" "nameToNameIndexMap g' = nameToNameIndexMap g"
proof -
  have p: "pending_inv g" and T: "gen_totals g = totals_of ms" and t: "t_started (gen_totals g) \<longleftrightarrow> ms \<noteq> []"
    using inv by (simp_all add: gen_inv_def totals_of_def) (cases ms rule: rev_cases, simp_all add: totals0_def)
  note sc = shouldCommit_iff [OF p]
  have st: "hasLast g = (ms \<noteq> [])" using t by (simp add: gen_totals_def)
  show ?thesis
  proof (cases "shouldCommitMapping g")
    case True
    let ?m = "pending_mapping g"
    have ac: "abs_commit (abs_of g ms) = ms @ [?m]"
      using True sc st T by (auto simp: abs_commit_def abs_of_def)
    define g' where "g' = g\<lparr>mappings := mappings g @ piece (gen_totals g) ?m, hasLast := True,
      lastGeneratedLine := pendingGeneratedLine g, lastGeneratedCharacter := pendingGeneratedCharacter g,
      lastSourceIndex := pendingSourceIndex g, lastSourceLine := pendingSourceLine g,
      lastSourceCharacter := pendingSourceCharacter g, lastNameIndex := pendingNameIndex g\<rparr>"
    have c: "commitPendingMapping g = Inr g'" unfolding g'_def by (rule commit_piece [OF inv True])
    have pm: "pending_mapping g' = ?m" by (simp add: g'_def pending_mapping_def)
    have gt: "gen_totals g' = advance (gen_totals g) ?m"
      unfolding advance_pending [OF p] by (simp add: g'_def gen_totals_def)
    have pi: "pending_inv g'" using p unfolding pending_inv_def pm by (simp add: g'_def)
    have "gen_inv g' (ms @ [?m])"
    proof -
      have f: "foldl advance totals0 ms = gen_totals g" "mappings g = render totals0 ms" "mappings_ok totals0 ms"
        using inv by (simp_all add: gen_inv_def)
      have "t_line (gen_totals g) \<le> GeneratedLine ?m" "mapping_ok ?m"
        using p by (simp_all add: pending_inv_def gen_totals_def) (simp add: pending_mapping_def)
      moreover have "mappings g' = mappings g @ piece (gen_totals g) ?m" by (simp add: g'_def)
      ultimately show ?thesis
        using pi gt f unfolding gen_inv_def by (simp add: render_append mappings_ok_append)
    qed
    with that [OF c] pm ac show ?thesis by (simp add: g'_def)
  next
    case False
    then have c: "commitPendingMapping g = Inr g" by (simp add: commitPendingMapping_def)
    have ac: "abs_commit (abs_of g ms) = ms"
      using False sc st T by (auto simp: abs_commit_def abs_of_def)
    have "pendingSourceIndex g = lastSourceIndex g \<and> pendingSourceLine g = lastSourceLine g \<and>
        pendingSourceCharacter g = lastSourceCharacter g \<and> pendingNameIndex g = lastNameIndex g"
      using False p by (auto simp: shouldCommitMapping_def pending_inv_def)
    with that [OF c] inv ac show ?thesis by simp
  qed
qed

text \<open>Setting the pending source only touches pending fields.\<close>

lemma set_pending_source_frame:
  "gen_totals (set_pending_source i l c n g) = gen_totals g"
  "mappings (set_pending_source i l c n g) = mappings g"
  "hasPending (set_pending_source i l c n g) = hasPending g"
  "sources (set_pending_source i l c n g) = sources g"
  "names (set_pending_source i l c n g) = names g"
  "sourcesContent (set_pending_source i l c n g) = sourcesContent g"
  "sourceToSourceIndexMap (set_pending_source i l c n g) = sourceToSourceIndexMap g"
  "nameToNameIndexMap (set_pending_source i l c n g) = nameToNameIndexMap g"
  by (simp_all add: set_pending_source_def gen_totals_def Let_def)

lemma mapping_ok_source: "mapping_ok x \<Longrightarrow> has_source x \<Longrightarrow> SourceIndex x \<noteq> -1 \<and> SourceLine x \<noteq> -1 \<and> SourceCharacter x \<noteq> -1"
  by (auto simp: mapping_ok_def small_def)

lemma mapping_ok_no_source:
  "mapping_ok x \<Longrightarrow> \<not> has_source x \<Longrightarrow> x = bare (GeneratedLine x) (GeneratedCharacter x)"
  by (simp add: mapping_ok_def bare_def has_source_def has_name_def)

lemma set_pending_source_pending:
  assumes p: "pending_inv g" "hasPending g" and x: "mapping_ok x"
  shows "pending_mapping (set_pending_source (SourceIndex x) (SourceLine x) (SourceCharacter x) (NameIndex x) g) =
      amend (pending_mapping g) x"
    "pending_inv (set_pending_source (SourceIndex x) (SourceLine x) (SourceCharacter x) (NameIndex x) g)"
proof -
  let ?g = "set_pending_source (SourceIndex x) (SourceLine x) (SourceCharacter x) (NameIndex x) g"
  have 1: "pending_mapping ?g = amend (pending_mapping g) x \<and> pending_inv ?g"
  proof (cases "has_source x")
    case False
    then have "?g = g" by (simp add: set_pending_source_def has_source_def)
    with False p show ?thesis by (simp add: amend_def)
  next
    case True
    note sx = mapping_ok_source [OF x True]
    have sm: "small (SourceIndex x)" "small (SourceLine x)" "small (SourceCharacter x)"
      using x True by (simp_all add: mapping_ok_def)
    have pm: "mapping_ok (pending_mapping g)" using p by (simp add: pending_inv_def)
    show ?thesis
    proof (cases "has_name x")
      case nm: True
      define h where "h = g\<lparr>pendingSourceIndex := SourceIndex x, pendingSourceLine := SourceLine x,
        pendingSourceCharacter := SourceCharacter x, hasPendingSource := True, pendingNameIndex := NameIndex x,
        hasPendingName := True\<rparr>"
      have g: "?g = h" using sx nm by (simp add: set_pending_source_def has_name_def h_def)
      have a: "pending_mapping h = amend (pending_mapping g) x"
        using True nm by (simp add: pending_mapping_def amend_def h_def)
      have "small (NameIndex x)" using x nm by (simp add: mapping_ok_def)
      then have "mapping_ok (pending_mapping h)"
        using pm sm sx nm by (simp add: pending_mapping_def mapping_ok_def has_source_def has_name_def h_def)
      then have "pending_inv h" using p sx nm unfolding pending_inv_def by (simp add: h_def has_name_def)
      with a g show ?thesis by simp
    next
      case nm: False
      define h where "h = g\<lparr>pendingSourceIndex := SourceIndex x, pendingSourceLine := SourceLine x,
        pendingSourceCharacter := SourceCharacter x, hasPendingSource := True\<rparr>"
      have g: "?g = h" using sx nm by (simp add: set_pending_source_def has_name_def h_def)
      have a: "pending_mapping h = amend (pending_mapping g) x"
        using True nm by (simp add: pending_mapping_def amend_def h_def)
      have "mapping_ok (pending_mapping h)"
        using pm sm sx unfolding mapping_ok_def a amend_def using True nm
        by (auto simp: has_source_def has_name_def split: if_splits)
      then have "pending_inv h" using p sx unfolding pending_inv_def by (simp add: h_def)
      with a g show ?thesis by simp
    qed
  qed
  then show "pending_mapping ?g = amend (pending_mapping g) x" "pending_inv ?g" by simp_all
qed

lemma starts_new_iff:
  assumes p: "gen_inv g ms" and x: "mapping_ok x"
  shows "(isNewGeneratedPosition (GeneratedLine x) (GeneratedCharacter x) g \<or>
          isBacktrackingSourcePosition (SourceIndex x) (SourceLine x) (SourceCharacter x) g) =
         abs_starts_new (abs_of g ms) x"
proof (cases "hasPending g")
  case True
  have T: "totals_of ms = gen_totals g" and pi: "pending_inv g" using p by (simp_all add: gen_inv_def totals_of_def)
  have b: "isBacktrackingSourcePosition (SourceIndex x) (SourceLine x) (SourceCharacter x) g =
      (has_source x \<and> pendingSourceIndex g = SourceIndex x \<and>
       (SourceLine x < pendingSourceLine g \<or> pendingSourceLine g = SourceLine x \<and> SourceCharacter x < pendingSourceCharacter g))"
    using mapping_ok_source [OF x] by (auto simp: isBacktrackingSourcePosition_def has_source_def)
  show ?thesis
    unfolding b using True
    by (simp add: abs_starts_new_def abs_of_def T advance_pending [OF pi] Let_def isNewGeneratedPosition_def)
      (auto simp: pending_mapping_def)
qed (simp add: abs_starts_new_def abs_of_def isNewGeneratedPosition_def)

lemma amend_bare: "mapping_ok x \<Longrightarrow> amend (bare (GeneratedLine x) (GeneratedCharacter x)) x = x"
  using mapping_ok_no_source [of x] by (auto simp: amend_def bare_def has_name_def)

lemma start_mapping_inv:
  assumes inv: "gen_inv g ms" and x: "mapping_ok x" and l: "lastGeneratedLine g \<le> GeneratedLine x"
    and eq: "pendingSourceIndex g = lastSourceIndex g" "pendingSourceLine g = lastSourceLine g"
      "pendingSourceCharacter g = lastSourceCharacter g" "pendingNameIndex g = lastNameIndex g"
  shows "gen_inv (start_mapping (GeneratedLine x) (GeneratedCharacter x) g) ms"
    "pending_mapping (start_mapping (GeneratedLine x) (GeneratedCharacter x) g) =
      bare (GeneratedLine x) (GeneratedCharacter x)"
proof -
  let ?g = "start_mapping (GeneratedLine x) (GeneratedCharacter x) g"
  show pm: "pending_mapping ?g = bare (GeneratedLine x) (GeneratedCharacter x)"
    by (simp add: start_mapping_def pending_mapping_def bare_def)
  have "mapping_ok (bare (GeneratedLine x) (GeneratedCharacter x))"
    using x by (simp add: mapping_ok_def bare_def has_source_def has_name_def)
  then have "pending_inv ?g" unfolding pending_inv_def pm using l eq by (simp add: start_mapping_def)
  then show "gen_inv ?g ms"
    using inv by (simp add: gen_inv_def) (simp add: start_mapping_def gen_totals_def)
qed

theorem addMapping_refines:
  assumes inv: "gen_inv g ms" and x: "mapping_ok x" and l: "pendingGeneratedLine g \<le> GeneratedLine x"
  obtains g' ms' where
    "addMapping (GeneratedLine x) (GeneratedCharacter x) (SourceIndex x) (SourceLine x) (SourceCharacter x)
       (NameIndex x) g = Inr g'"
    "gen_inv g' ms'" "abs_of g' ms' = abs_add x (abs_of g ms)"
    "sources g' = sources g" "names g' = names g" "sourcesContent g' = sourcesContent g"
    "sourceToSourceIndexMap g' = sourceToSourceIndexMap g" "nameToNameIndexMap g' = nameToNameIndexMap g"
proof (cases "abs_starts_new (abs_of g ms) x")
  case True
  obtain g1 where g1: "commitPendingMapping g = Inr g1" "gen_inv g1 (abs_commit (abs_of g ms))"
    "pending_mapping g1 = pending_mapping g" "hasPending g1 = hasPending g"
    "pendingSourceIndex g1 = lastSourceIndex g1" "pendingSourceLine g1 = lastSourceLine g1"
    "pendingSourceCharacter g1 = lastSourceCharacter g1" "pendingNameIndex g1 = lastNameIndex g1"
    "sources g1 = sources g" "names g1 = names g" "sourcesContent g1 = sourcesContent g"
    "sourceToSourceIndexMap g1 = sourceToSourceIndexMap g" "nameToNameIndexMap g1 = nameToNameIndexMap g"
    using commit_inv [OF inv] by blast
  have "pendingGeneratedLine g1 = pendingGeneratedLine g" using arg_cong [OF g1(3), of GeneratedLine] by (simp add: pending_mapping_def)
  then have l1: "lastGeneratedLine g1 \<le> GeneratedLine x" using g1(2) l by (simp add: gen_inv_def pending_inv_def)
  define g2 where "g2 = start_mapping (GeneratedLine x) (GeneratedCharacter x) g1"
  have g2: "gen_inv g2 (abs_commit (abs_of g ms))" "pending_mapping g2 = bare (GeneratedLine x) (GeneratedCharacter x)"
    unfolding g2_def using start_mapping_inv [OF g1(2) x l1 g1(5-8)] by simp_all
  have hp: "hasPending g2" by (simp add: g2_def start_mapping_def)
  define g3 where "g3 = set_pending_source (SourceIndex x) (SourceLine x) (SourceCharacter x) (NameIndex x) g2"
  have p3: "pending_mapping g3 = x" "pending_inv g3"
    using set_pending_source_pending [OF _ hp x] g2 amend_bare [OF x] by (simp_all add: g3_def gen_inv_def)
  have i3: "gen_inv g3 (abs_commit (abs_of g ms))"
    using g2(1) p3(2) by (simp add: gen_inv_def) (simp add: g3_def set_pending_source_frame)
  have a3: "abs_of g3 (abs_commit (abs_of g ms)) = abs_add x (abs_of g ms)"
    using True p3 hp by (simp add: abs_of_def abs_add_def g3_def set_pending_source_frame)
  have run: "addMapping (GeneratedLine x) (GeneratedCharacter x) (SourceIndex x) (SourceLine x) (SourceCharacter x)
       (NameIndex x) g = Inr g3"
    using starts_new_iff [OF inv x] True g1(1) by (simp add: addMapping_def g3_def g2_def)
  show ?thesis
    by (rule that [OF run i3 a3]) (simp_all add: g3_def set_pending_source_frame g2_def start_mapping_def g1)
next
  case False
  then have hp: "hasPending g" by (auto simp: abs_starts_new_def abs_of_def split: if_splits)
  define g3 where "g3 = set_pending_source (SourceIndex x) (SourceLine x) (SourceCharacter x) (NameIndex x) g"
  have p3: "pending_mapping g3 = amend (pending_mapping g) x" "pending_inv g3"
    using set_pending_source_pending [OF _ hp x] inv by (simp_all add: g3_def gen_inv_def)
  have i3: "gen_inv g3 ms"
    using inv p3(2) by (simp add: gen_inv_def) (simp add: g3_def set_pending_source_frame)
  have a3: "abs_of g3 ms = abs_add x (abs_of g ms)"
    using False p3 hp by (simp add: abs_of_def abs_add_def g3_def set_pending_source_frame)
  have run: "addMapping (GeneratedLine x) (GeneratedCharacter x) (SourceIndex x) (SourceLine x) (SourceCharacter x)
       (NameIndex x) g = Inr g3"
    using starts_new_iff [OF inv x] False by (simp add: addMapping_def g3_def)
  show ?thesis
    by (rule that [OF run i3 a3]) (simp_all add: g3_def set_pending_source_frame)
qed

section \<open>Index tables\<close>

text \<open>Sources and names are tables of distinct strings with the map from a string to its index.\<close>

definition table_ok :: "string list \<Rightarrow> (string \<rightharpoonup> int) \<Rightarrow> bool" where
  "table_ok xs m = (\<forall>s i. m s = Some i \<longleftrightarrow> 0 \<le> i \<and> i < int (length xs) \<and> xs ! nat i = s)"

lemma table_ok_empty: "table_ok [] Map.empty"
  by (simp add: table_ok_def)

lemma table_ok_add:
  assumes t: "table_ok xs m" and s: "m s = None"
  shows "table_ok (xs @ [s]) (m(s \<mapsto> int (length xs)))"
  unfolding table_ok_def
proof (intro allI)
  fix u i
  have ns: "\<not> (0 \<le> i \<and> i < int (length xs) \<and> xs ! nat i = s)" using t s unfolding table_ok_def by (metis option.distinct(1))
  have n: "nat i < length xs \<Longrightarrow> (xs @ [s]) ! nat i = xs ! nat i" by (simp add: nth_append)
  show "(m(s \<mapsto> int (length xs))) u = Some i \<longleftrightarrow>
      0 \<le> i \<and> i < int (length (xs @ [s])) \<and> (xs @ [s]) ! nat i = u"
  proof (cases "i = int (length xs)")
    case True
    have "m u = Some i \<Longrightarrow> False" using t True by (simp add: table_ok_def)
    then show ?thesis using True by auto
  next
    case False
    then show ?thesis using t ns n by (cases "u = s") (auto simp: table_ok_def)
  qed
qed

definition tables_ok :: "Generator \<Rightarrow> bool" where
  "tables_ok g = (table_ok (sources g) (sourceToSourceIndexMap g) \<and> table_ok (names g) (nameToNameIndexMap g))"

definition indices_ok :: "Generator \<Rightarrow> abstract \<Rightarrow> bool" where
  "indices_ok g a =
     (\<forall>m \<in> set (fst a) \<union> set_option (snd a).
        (has_source m \<longrightarrow> SourceIndex m < int (length (sources g))) \<and>
        (has_name m \<longrightarrow> NameIndex m < int (length (names g))))"

lemma abs_commit_subset: "set (abs_commit a) \<subseteq> set (fst a) \<union> set_option (snd a)"
  by (cases a; cases "snd a") (auto simp: abs_commit_def)

lemma abs_add_subset:
  "set (fst (abs_add x a)) \<union> set_option (snd (abs_add x a)) \<subseteq>
     set (fst a) \<union> set_option (snd a) \<union> {x} \<union> (\<lambda>m. amend m x) ` set_option (snd a)"
proof (cases "abs_starts_new a x")
  case True
  then show ?thesis using abs_commit_subset [of a] by (simp add: abs_add_def) blast
next
  case False
  then show ?thesis by (cases a; cases "snd a") (auto simp: abs_add_def)
qed

lemma indices_ok_add:
  assumes a: "indices_ok g a" and x: "has_source x \<Longrightarrow> SourceIndex x < int (length (sources g))"
    "has_name x \<Longrightarrow> NameIndex x < int (length (names g))"
    and s: "sources g' = sources g" "names g' = names g"
  shows "indices_ok g' (abs_add x a)"
proof -
  have "(has_source m \<longrightarrow> SourceIndex m < int (length (sources g))) \<and> (has_name m \<longrightarrow> NameIndex m < int (length (names g)))"
    if m: "m \<in> set (fst a) \<union> set_option (snd a) \<union> {x} \<union> (\<lambda>m. amend m x) ` set_option (snd a)" for m
  proof -
    consider (old) "m \<in> set (fst a) \<union> set_option (snd a)" | (new) "m = x"
      | (amended) m' where "m' \<in> set_option (snd a)" "m = amend m' x"
      using m by blast
    then show ?thesis
    proof cases
      case old
      then show ?thesis using a unfolding indices_ok_def by blast
    next
      case new
      then show ?thesis using x by simp
    next
      case (amended m')
      then have "(has_source m' \<longrightarrow> SourceIndex m' < int (length (sources g))) \<and>
          (has_name m' \<longrightarrow> NameIndex m' < int (length (names g)))"
        using a unfolding indices_ok_def by blast
      then show ?thesis using amended(2) x by (simp add: amend_def has_source_def has_name_def)
    qed
  qed
  then show ?thesis using abs_add_subset [of x a] unfolding indices_ok_def s by blast
qed

lemma indices_ok_flush: "indices_ok g a \<Longrightarrow> sources g' = sources g \<Longrightarrow> names g' = names g \<Longrightarrow> indices_ok g' (abs_flush a)"
  using abs_commit_subset [of a] by (auto simp: indices_ok_def abs_flush_def)

section \<open>Generators a client can build\<close>

text \<open>
  The generators that sequences of calls lead to, with the state of the abstract machine after the
  same calls, with arguments of any sign below two to the 62nd. A call that returns an error
  leaves the generator as it is and needs no rule.
\<close>

definition sourced :: "int \<Rightarrow> int \<Rightarrow> int \<Rightarrow> int \<Rightarrow> int \<Rightarrow> int \<Rightarrow> Mapping" where
  "sourced line character i sl sc n =
     \<lparr>GeneratedLine = line, GeneratedCharacter = character, SourceIndex = i, SourceLine = sl,
      SourceCharacter = sc, NameIndex = n\<rparr>"

inductive generated :: "(nat \<Rightarrow> nat) \<Rightarrow> Generator \<Rightarrow> abstract \<Rightarrow> bool" for orbit where
  new: "generated orbit (NewGenerator f r d o') ([], None)"
| add_source: "generated orbit g a \<Longrightarrow> generated orbit (fst (AddSource orbit f g)) a"
| add_name: "generated orbit g a \<Longrightarrow> generated orbit (fst (AddName n g)) a"
| set_content: "generated orbit g a \<Longrightarrow> generated orbit (fst (SetSourceContent i c g)) a"
| add_generated: "generated orbit g a \<Longrightarrow> l < 2 ^ 62 \<Longrightarrow> c < 2 ^ 62 \<Longrightarrow>
    AddGeneratedMapping l c g = Inr (g', None) \<Longrightarrow> generated orbit g' (abs_add (bare l c) a)"
| add_mapping: "generated orbit g a \<Longrightarrow> l < 2 ^ 62 \<Longrightarrow> c < 2 ^ 62 \<Longrightarrow> i < 2 ^ 62 \<Longrightarrow> sl < 2 ^ 62 \<Longrightarrow> sc < 2 ^ 62 \<Longrightarrow>
    AddSourceMapping l c i sl sc g = Inr (g', None) \<Longrightarrow> generated orbit g' (abs_add (sourced l c i sl sc (-1)) a)"
| add_named: "generated orbit g a \<Longrightarrow> l < 2 ^ 62 \<Longrightarrow> c < 2 ^ 62 \<Longrightarrow> i < 2 ^ 62 \<Longrightarrow> sl < 2 ^ 62 \<Longrightarrow> sc < 2 ^ 62 \<Longrightarrow> n < 2 ^ 62 \<Longrightarrow>
    AddNamedSourceMapping l c i sl sc n g = Inr (g', None) \<Longrightarrow> generated orbit g' (abs_add (sourced l c i sl sc n) a)"
| raw: "generated orbit g a \<Longrightarrow> Generator_RawSourceMap g = Inr (g', m) \<Longrightarrow> generated orbit g' (abs_flush a)"

lemma add_checked:
  assumes "go_bind r (\<lambda>gen. Inr (gen, None)) = Inr (g', None)" shows "r = Inr g'"
  using assms by (cases r) auto

lemma AddGeneratedMapping_ok:
  assumes "AddGeneratedMapping l c g = Inr (g', None)"
  shows "addMapping l c (-1) (-1) (-1) (-1) g = Inr g'" "pendingGeneratedLine g \<le> l" "0 \<le> c"
  using assms by (auto simp: AddGeneratedMapping_def split: if_splits intro: add_checked)

lemma AddSourceMapping_ok:
  assumes "AddSourceMapping l c i sl sc g = Inr (g', None)"
  shows "addMapping l c i sl sc (-1) g = Inr g'" "pendingGeneratedLine g \<le> l" "i < int (length (sources g))"
    "0 \<le> c" "0 \<le> i" "0 \<le> sl" "0 \<le> sc"
  using assms by (auto simp: AddSourceMapping_def split: if_splits intro: add_checked)

lemma AddNamedSourceMapping_ok:
  assumes "AddNamedSourceMapping l c i sl sc n g = Inr (g', None)"
  shows "addMapping l c i sl sc n g = Inr g'" "pendingGeneratedLine g \<le> l" "i < int (length (sources g))"
    "n < int (length (names g))" "0 \<le> c" "0 \<le> i" "0 \<le> sl" "0 \<le> sc" "0 \<le> n"
  using assms by (auto simp: AddNamedSourceMapping_def split: if_splits intro: add_checked)

lemma pending_line_nonneg:
  assumes "gen_inv g ms" shows "0 \<le> pendingGeneratedLine g"
proof -
  have "small (pendingGeneratedLine g)"
    using assms by (auto simp: gen_inv_def pending_inv_def mapping_ok_def pending_mapping_def)
  then show ?thesis by (simp add: small_def)
qed

definition simulates :: "Generator \<Rightarrow> abstract \<Rightarrow> bool" where
  "simulates g a = (gen_inv g (fst a) \<and> a = abs_of g (fst a) \<and> tables_ok g \<and> indices_ok g a)"

lemma simulates_add:
  assumes s: "simulates g a" and x: "mapping_ok x" "pendingGeneratedLine g \<le> GeneratedLine x"
    and r: "addMapping (GeneratedLine x) (GeneratedCharacter x) (SourceIndex x) (SourceLine x) (SourceCharacter x)
      (NameIndex x) g = Inr g'"
    and i: "has_source x \<Longrightarrow> SourceIndex x < int (length (sources g))" "has_name x \<Longrightarrow> NameIndex x < int (length (names g))"
  shows "simulates g' (abs_add x a)"
proof -
  have inv: "gen_inv g (fst a)" and a: "a = abs_of g (fst a)" using s by (simp_all add: simulates_def)
  obtain g2 ms' where g2: "addMapping (GeneratedLine x) (GeneratedCharacter x) (SourceIndex x) (SourceLine x)
      (SourceCharacter x) (NameIndex x) g = Inr g2"
    "gen_inv g2 ms'" "abs_of g2 ms' = abs_add x (abs_of g (fst a))"
    "sources g2 = sources g" "names g2 = names g" "sourcesContent g2 = sourcesContent g"
    "sourceToSourceIndexMap g2 = sourceToSourceIndexMap g" "nameToNameIndexMap g2 = nameToNameIndexMap g"
    by (rule addMapping_refines [OF inv x])
  have [simp]: "g2 = g'" using r g2(1) by simp
  have "abs_add x a = abs_of g' ms'" using g2(3) a by simp
  moreover have "fst (abs_of g' ms') = ms'" by (simp add: abs_of_def)
  moreover have "indices_ok g' (abs_add x a)"
    using s i g2 by (intro indices_ok_add [of g]) (simp_all add: simulates_def)
  moreover have "tables_ok g'" using s g2 by (simp add: simulates_def tables_ok_def)
  ultimately show ?thesis using g2(2) by (simp add: simulates_def)
qed

lemma simulates_frame:
  assumes "simulates g a" "mappings g' = mappings g" "gen_totals g' = gen_totals g" "pending_mapping g' = pending_mapping g"
    "pending_inv g' = pending_inv g" "hasPending g' = hasPending g" "tables_ok g'"
    "length (sources g) \<le> length (sources g')" "length (names g) \<le> length (names g')"
  shows "simulates g' a"
proof -
  have "indices_ok g' a" using assms(1,8,9) by (fastforce simp: simulates_def indices_ok_def)
  moreover have "abs_of g' (fst a) = abs_of g (fst a)" using assms by (simp add: abs_of_def)
  moreover have "gen_inv g' (fst a) = gen_inv g (fst a)" using assms by (simp add: gen_inv_def)
  ultimately show ?thesis using assms(1,7) by (simp add: simulates_def)
qed

lemmas generator_frame = gen_totals_def pending_mapping_def pending_inv_def tables_ok_def

lemma simulates_tables:
  "simulates g a \<Longrightarrow> table_ok (sources g) (sourceToSourceIndexMap g) \<and> table_ok (names g) (nameToNameIndexMap g)"
  by (simp add: simulates_def tables_ok_def)

lemma simulates_AddSource:
  assumes "simulates g a" shows "simulates (fst (AddSource orbit f g)) a"
  using simulates_tables [OF assms]
  by (intro simulates_frame [OF assms]) (auto simp: AddSource_def Let_def generator_frame table_ok_add split: option.splits)

lemma simulates_AddName:
  assumes "simulates g a" shows "simulates (fst (AddName n g)) a"
  using simulates_tables [OF assms]
  by (intro simulates_frame [OF assms]) (auto simp: AddName_def Let_def generator_frame table_ok_add split: option.splits)

lemma simulates_SetSourceContent:
  assumes "simulates g a" shows "simulates (fst (SetSourceContent i c g)) a"
  using simulates_tables [OF assms]
  by (intro simulates_frame [OF assms]) (auto simp: SetSourceContent_def Let_def generator_frame)

lemma simulates_raw:
  assumes s: "simulates g a"
  obtains g' m where "Generator_RawSourceMap g = Inr (g', m)" "simulates g' (abs_flush a)"
    "Mappings m = render totals0 (abs_commit a)" "mappings_ok totals0 (abs_commit a)"
    "Sources m = sources g" "Names m = names g"
proof -
  have inv: "gen_inv g (fst a)" and a: "a = abs_of g (fst a)" using s by (simp_all add: simulates_def)
  obtain g' where g': "commitPendingMapping g = Inr g'" "gen_inv g' (abs_commit (abs_of g (fst a)))"
    "pending_mapping g' = pending_mapping g" "hasPending g' = hasPending g"
    "sources g' = sources g" "names g' = names g" "sourceToSourceIndexMap g' = sourceToSourceIndexMap g"
    "nameToNameIndexMap g' = nameToNameIndexMap g"
    using commit_inv [OF inv] by blast
  define m where "m = \<lparr>Version = 3, File = g_file g', SourceRoot = sourceRoot g', Sources = sources g',
                  Names = names g', Mappings = mappings g', SourcesContent = sourcesContent g'\<rparr>"
  have r: "Generator_RawSourceMap g = Inr (g', m)" by (simp add: Generator_RawSourceMap_def g'(1) m_def)
  have gi: "gen_inv g' (abs_commit a)" using g'(2) a by simp
  have sd: "snd a = (if hasPending g then Some (pending_mapping g) else None)" using a by (metis abs_of_def snd_conv)
  have "indices_ok g' (abs_flush a)" using s g' by (intro indices_ok_flush [of g]) (simp_all add: simulates_def)
  moreover have "tables_ok g'" using s g' by (simp add: simulates_def tables_ok_def)
  moreover have "abs_flush a = abs_of g' (abs_commit a)" using g' sd by (simp add: abs_flush_def abs_of_def)
  moreover have "fst (abs_flush a) = abs_commit a" by (simp add: abs_flush_def)
  ultimately have "simulates g' (abs_flush a)" using gi by (simp add: simulates_def)
  with r gi g' show ?thesis by (intro that [of g' m]) (simp_all add: m_def gen_inv_def)
qed

lemma generated_simulates: "generated orbit g a \<Longrightarrow> simulates g a"
proof (induction rule: generated.induct)
  case (new f r d o')
  then show ?case
    using gen_inv_new [of f r d o']
    by (simp add: simulates_def abs_of_def tables_ok_def indices_ok_def NewGenerator_def table_ok_empty)
next
  case (add_generated g a l c g')
  note ok = AddGeneratedMapping_ok [OF add_generated.hyps(4)]
  have "0 \<le> l" using pending_line_nonneg add_generated.IH ok(2) unfolding simulates_def by fastforce
  then have "mapping_ok (bare l c)" using add_generated.hyps ok
    by (simp add: mapping_ok_def bare_def has_source_def has_name_def small_def)
  then show ?case
    using ok add_generated.IH by (intro simulates_add [of g]) (simp_all add: bare_def has_source_def has_name_def)
next
  case (add_mapping g a l c i sl sc g')
  note ok = AddSourceMapping_ok [OF add_mapping.hyps(7)]
  have "0 \<le> l" using pending_line_nonneg add_mapping.IH ok(2) unfolding simulates_def by fastforce
  then have "mapping_ok (sourced l c i sl sc (-1))" using add_mapping.hyps ok
    by (simp add: mapping_ok_def sourced_def has_source_def has_name_def small_def)
  then show ?case
    using ok add_mapping.IH by (intro simulates_add [of g]) (simp_all add: sourced_def has_name_def)
next
  case (add_named g a l c i sl sc n g')
  note ok = AddNamedSourceMapping_ok [OF add_named.hyps(8)]
  have "0 \<le> l" using pending_line_nonneg add_named.IH ok(2) unfolding simulates_def by fastforce
  then have "mapping_ok (sourced l c i sl sc n)" using add_named.hyps ok
    by (simp add: mapping_ok_def sourced_def has_source_def has_name_def small_def)
  then show ?case
    using ok add_named.IH by (intro simulates_add [of g]) (simp_all add: sourced_def)
next
  case (raw g a g' m)
  obtain g2 m2 where "Generator_RawSourceMap g = Inr (g2, m2)" "simulates g2 (abs_flush a)"
    using simulates_raw [OF raw.IH] by metis
  with raw.hyps show ?case by simp
qed (simp_all add: simulates_AddSource simulates_AddName simulates_SetSourceContent)

section \<open>The contract\<close>

text \<open>C1. The source map round trip: for every generator a client can build with positions and indices below
  two to the 62nd, \<open>RawSourceMap\<close> does not panic, and decoding its mappings gives, without an error,
  exactly the list of mappings the abstract machine has committed.\<close>

theorem source_map_round_trip:
  assumes "generated orbit g a"
  shows "\<exists>g' m d. Generator_RawSourceMap g = Inr (g', m) \<and>
    decode_all (DecodeMappings (Mappings m)) = (d, abs_commit a) \<and> d_error d = None"
proof -
  obtain g' m where gm: "Generator_RawSourceMap g = Inr (g', m)"
    "Mappings m = render totals0 (abs_commit a)" "mappings_ok totals0 (abs_commit a)"
    using simulates_raw [OF generated_simulates [OF assms]] by metis
  obtain d where "decode_all (DecodeMappings (render totals0 (abs_commit a))) = (d, abs_commit a)" "d_error d = None"
    by (rule decode_render [OF gm(3)])
  with gm show ?thesis by auto
qed

text \<open>A concrete client, for the witnesses: one source and one mapping.\<close>

definition demo_options :: ComparePathsOptions where
  "demo_options = \<lparr>UseCaseSensitiveFileNames = True, CurrentDirectory = ''/''\<rparr>"

definition demo1 :: Generator where
  "demo1 = fst (AddSource id ''/src/a.ts'' (NewGenerator ''a.js'' '''' ''/src'' demo_options))"

definition demo2 :: Generator where
  "demo2 = set_pending_source 0 7 9 (-1) (start_mapping 3 4 demo1)"

lemma demo1_fields:
  "sources demo1 = [''a.ts'']" "hasPending demo1 = False" "pendingGeneratedLine demo1 = 0" "sourcesContent demo1 = []"
proof -
  have "GetRelativePathToDirectoryOrUrl id ''/src'' ''/src/a.ts'' True demo_options = ''a.ts''" by code_simp
  then show "sources demo1 = [''a.ts'']" by (simp add: demo1_def AddSource_def NewGenerator_def Let_def)
qed (simp_all add: demo1_def AddSource_def NewGenerator_def Let_def)

lemma demo1_generated: "generated id demo1 ([], None)"
  unfolding demo1_def by (intro generated.add_source generated.new)

lemma demo2_step: "AddSourceMapping 3 4 0 7 9 demo1 = Inr (demo2, None)"
  using demo1_fields
  by (simp add: AddSourceMapping_def addMapping_def isNewGeneratedPosition_def commitPendingMapping_def
      shouldCommitMapping_def demo2_def)

lemma demo2_generated: "generated id demo2 (abs_add (sourced 3 4 0 7 9 (-1)) ([], None))"
  by (rule generated.add_mapping [OF demo1_generated _ _ _ _ _ demo2_step]) (simp_all add: small_def)

lemma demo2_committed: "abs_commit (abs_add (sourced 3 4 0 7 9 (-1)) ([], None)) = [sourced 3 4 0 7 9 (-1)]"
  by (simp add: abs_add_def abs_starts_new_def abs_commit_def)

lemma source_map_round_trip_witness:
  "\<exists>g' m d. Generator_RawSourceMap demo2 = Inr (g', m) \<and>
     decode_all (DecodeMappings (Mappings m)) = (d, [sourced 3 4 0 7 9 (-1)]) \<and> d_error d = None"
  using source_map_round_trip [OF demo2_generated] unfolding demo2_committed .

text \<open>C8. No call panics on a generator a client can build, whatever its arguments: the invariant that the
  generated line never goes back, whose violation is a panic in \<open>commitPendingMapping\<close>, is kept.\<close>

theorem generator_never_panics:
  assumes "generated orbit g a"
  shows "AddGeneratedMapping l c g \<noteq> Inl p \<and> AddSourceMapping l c i sl sc g \<noteq> Inl p \<and>
    AddNamedSourceMapping l c i sl sc n g \<noteq> Inl p \<and> Generator_RawSourceMap g \<noteq> Inl p"
proof -
  have inv: "gen_inv g (fst a)" using generated_simulates [OF assms] by (simp add: simulates_def)
  obtain g' where c: "commitPendingMapping g = Inr g'" using commit_inv [OF inv] by metis
  have add: "addMapping l c i sl sc n g \<noteq> Inl p" for l c i sl sc n by (simp add: addMapping_def c)
  have bind: "go_bind r (\<lambda>gen. Inr (gen, None :: string option)) \<noteq> Inl p" if "r \<noteq> Inl p" for r :: "Generator go"
    using that by (cases r) auto
  show ?thesis
    using bind [OF add]
    by (simp add: AddGeneratedMapping_def AddSourceMapping_def AddNamedSourceMapping_def Generator_RawSourceMap_def c)
qed

lemma generator_never_panics_witness:
  "AddGeneratedMapping (-5) 0 demo2 \<noteq> Inl (Panicked ''generatedLine cannot backtrack'')"
  using generator_never_panics [OF demo2_generated] by blast

text \<open>A mapping refers to listed sources and names, if to any.\<close>

definition in_range :: "RawSourceMap \<Rightarrow> Mapping \<Rightarrow> bool" where
  "in_range m x =
     (0 \<le> GeneratedLine x \<and> 0 \<le> GeneratedCharacter x \<and>
      (if SourceIndex x = -1 then SourceLine x = -1 \<and> SourceCharacter x = -1 \<and> NameIndex x = -1
       else 0 \<le> SourceIndex x \<and> SourceIndex x < int (length (Sources m)) \<and>
            0 \<le> SourceLine x \<and> 0 \<le> SourceCharacter x \<and>
            (NameIndex x = -1 \<or> 0 \<le> NameIndex x \<and> NameIndex x < int (length (Names m)))))"

lemma mappings_sorted: "mappings_ok t ms \<Longrightarrow> sorted (t_line t # map GeneratedLine ms)"
proof (induction ms arbitrary: t)
  case (Cons m ms)
  then have "sorted (GeneratedLine m # map GeneratedLine ms)" using Cons.IH [of "advance t m"] by (simp add: advance_def)
  with Cons.prems show ?case by auto
qed simp

lemma mappings_ok_each: "mappings_ok t ms \<Longrightarrow> x \<in> set ms \<Longrightarrow> mapping_ok x"
  by (induction ms arbitrary: t) auto

text \<open>C23. The mappings of a raw source map decode without an error, in the order of their generated lines,
  with no negative position; each refers to a source that the map lists, and then to no name or to one the
  map lists, or to neither a source nor a name.\<close>

theorem source_map_indices_in_range:
  assumes "generated orbit g a"
  shows "\<exists>g' m d ms. Generator_RawSourceMap g = Inr (g', m) \<and>
    decode_all (DecodeMappings (Mappings m)) = (d, ms) \<and> d_error d = None \<and> sorted (map GeneratedLine ms) \<and>
    (\<forall>x \<in> set ms. in_range m x)"
proof -
  note s = generated_simulates [OF assms]
  obtain g' m where gm: "Generator_RawSourceMap g = Inr (g', m)" "Sources m = sources g" "Names m = names g"
    "Mappings m = render totals0 (abs_commit a)" "mappings_ok totals0 (abs_commit a)"
    using simulates_raw [OF s] by metis
  obtain d where d: "decode_all (DecodeMappings (render totals0 (abs_commit a))) = (d, abs_commit a)" "d_error d = None"
    by (rule decode_render [OF gm(5)])
  have "in_range m x"
    if x: "x \<in> set (abs_commit a)" for x
  proof -
    have "mapping_ok x" using gm(5) x by (rule mappings_ok_each)
    moreover have "has_source x \<longrightarrow> SourceIndex x < int (length (Sources m))"
      "has_name x \<longrightarrow> NameIndex x < int (length (Names m))"
      using s x abs_commit_subset [of a] unfolding simulates_def indices_ok_def gm(2,3) by blast+
    ultimately show ?thesis by (auto simp: in_range_def mapping_ok_def small_def has_source_def has_name_def)
  qed
  moreover have "sorted (map GeneratedLine (abs_commit a))" using mappings_sorted [OF gm(5)] by simp
  ultimately show ?thesis using gm d by auto
qed

lemma source_map_indices_in_range_witness:
  "\<exists>g' m d. Generator_RawSourceMap demo2 = Inr (g', m) \<and> Sources m = [''a.ts''] \<and> Names m = [] \<and>
    decode_all (DecodeMappings (Mappings m)) = (d, [sourced 3 4 0 7 9 (-1)]) \<and> d_error d = None \<and>
    in_range m (sourced 3 4 0 7 9 (-1))"
proof -
  obtain g' m where gm: "Generator_RawSourceMap demo2 = Inr (g', m)" "Sources m = sources demo2" "Names m = names demo2"
    "Mappings m = render totals0 [sourced 3 4 0 7 9 (-1)]" "mappings_ok totals0 [sourced 3 4 0 7 9 (-1)]"
    using simulates_raw [OF generated_simulates [OF demo2_generated]] unfolding demo2_committed by metis
  have tables: "Sources m = [''a.ts'']" "Names m = []"
    using demo1_fields gm(2,3)
    by (simp_all add: demo2_def set_pending_source_def start_mapping_def)
      (simp add: demo1_def AddSource_def NewGenerator_def Let_def)
  obtain d' where "decode_all (DecodeMappings (Mappings m)) = (d', [sourced 3 4 0 7 9 (-1)])"
    using decode_render [OF gm(5)] unfolding gm(4) by metis
  moreover obtain d ms where "decode_all (DecodeMappings (Mappings m)) = (d, ms)" "d_error d = None"
    "\<forall>x \<in> set ms. in_range m x"
    using source_map_indices_in_range [OF demo2_generated] gm(1) by auto
  ultimately show ?thesis using gm(1) tables by auto
qed

text \<open>\<open>AddSource\<close> is an interning table: the index it returns is one of the generator's sources, the
  source there is the path relative to the sources directory, earlier indices keep their meaning, and
  adding a file again returns the same index and changes nothing.\<close>

theorem AddSource_interns:
  assumes "generated orbit g a" and "AddSource orbit fileName g = (g', i)"
  shows "0 \<le> i \<and> i < int (length (sources g')) \<and>
    sources g' ! nat i = GetRelativePathToDirectoryOrUrl orbit (sourcesDirectoryPath g) fileName True (pathOptions g) \<and>
    take (length (sources g)) (sources g') = sources g \<and>
    AddSource orbit fileName g' = (g', i)"
proof -
  have t: "table_ok (sources g) (sourceToSourceIndexMap g)"
    using simulates_tables [OF generated_simulates [OF assms(1)]] by blast
  define src where "src = GetRelativePathToDirectoryOrUrl orbit (sourcesDirectoryPath g) fileName True (pathOptions g)"
  show ?thesis
  proof (cases "sourceToSourceIndexMap g src")
    case None
    then show ?thesis using assms(2) by (auto simp: AddSource_def Let_def src_def [symmetric])
  next
    case (Some j)
    then have "g' = g" "i = j" using assms(2) by (simp_all add: AddSource_def Let_def src_def [symmetric])
    moreover have "0 \<le> j \<and> j < int (length (sources g)) \<and> sources g ! nat j = src"
      using t Some unfolding table_ok_def by blast
    ultimately show ?thesis using assms(2) unfolding src_def by simp
  qed
qed

lemma AddSource_interns_witness:
  "AddSource id ''/src/a.ts'' (fst (AddSource id ''/src/a.ts'' demo2)) =
    (fst (AddSource id ''/src/a.ts'' demo2), snd (AddSource id ''/src/a.ts'' demo2))"
  using AddSource_interns [OF demo2_generated, of "''/src/a.ts''"] by (metis prod.collapse)

end
