(* ===== verification/Regexp.thy ===== *)
theory Regexp
  imports Utf8
begin

text \<open>
  The part of Go's package \<open>regexp\<close> that the modelled code uses: matching with captures under the
  leftmost-first rule. The engine returns every way an expression matches at the front of a text in
  order of preference (the first alternative before the second, one more repetition before none), so
  the match of Go is the head of that list. Expressions work on runes, as in Go: an invalid byte is
  a rune of its own that no class of the program contains.
\<close>

section \<open>Expressions and matching\<close>

datatype regex =
    Class "nat \<Rightarrow> bool"
  | Empty
  | Cat regex regex
  | Alt regex regex
  | Star regex
  | Group nat regex

type_synonym captures = "(nat \<times> string) list"

definition class_step :: "(nat \<Rightarrow> bool) \<Rightarrow> string \<Rightarrow> string option" where
  "class_step P s =
     (if s = [] then None
      else (case DecodeRuneInString s of (r, n) \<Rightarrow> if P r then Some (drop n s) else None))"

lemma class_step_shorter: "class_step P s = Some t \<Longrightarrow> length t < length s"
  using decode_width [of s]
  by (auto simp: class_step_def split: if_splits prod.splits)

function matches :: "regex \<Rightarrow> string \<Rightarrow> captures \<Rightarrow> (string \<times> captures) list" where
  "matches (Class P) s c = (case class_step P s of None \<Rightarrow> [] | Some t \<Rightarrow> [(t, c)])"
| "matches Empty s c = [(s, c)]"
| "matches (Cat a b) s c = concat (map (\<lambda>(t, d). matches b t d) (matches a s c))"
| "matches (Alt a b) s c = matches a s c @ matches b s c"
| "matches (Star a) s c =
     concat (map (\<lambda>(t, d). if length t < length s then matches (Star a) t d else []) (matches a s c)) @ [(s, c)]"
| "matches (Group n a) s c = map (\<lambda>(t, d). (t, (n, take (length s - length t) s) # d)) (matches a s c)"
  by pat_completeness auto
termination
  by (relation "measures [\<lambda>(r, s, c). size r, \<lambda>(r, s, c). length s]") auto

declare matches.simps(5) [simp del]

definition Plus :: "regex \<Rightarrow> regex" where
  "Plus a = Cat a (Star a)"

definition Opt :: "regex \<Rightarrow> regex" where
  "Opt a = Alt a Empty"

definition Chr :: "char \<Rightarrow> regex" where
  "Chr x = Class (\<lambda>r. r = of_char x)"

fun Cats :: "regex list \<Rightarrow> regex" where
  "Cats [] = Empty"
| "Cats [a] = a"
| "Cats (a # b # as) = Cat a (Cats (b # as))"

definition Lit :: "string \<Rightarrow> regex" where
  "Lit w = Cats (map Chr w)"

text \<open>
  \<open>full_match\<close> is \<open>FindStringSubmatch\<close> for an expression between \<open>^\<close> and \<open>$\<close>: the most preferred
  match that consumes the text. A group that took no part has the empty string.
\<close>

definition full_match :: "regex \<Rightarrow> string \<Rightarrow> captures option" where
  "full_match r s = map_option snd (find (\<lambda>(t, c). t = []) (matches r s []))"

definition group :: "captures \<Rightarrow> nat \<Rightarrow> string" where
  "group c n = (case map_of c n of None \<Rightarrow> [] | Some w \<Rightarrow> w)"

definition MatchString :: "regex \<Rightarrow> string \<Rightarrow> bool" where
  \<comment> \<open>for an expression between \<open>^\<close> and \<open>$\<close>\<close>
  "MatchString r s = (full_match r s \<noteq> None)"

text \<open>\<open>Regexp.Split(s, -1)\<close> for an expression that does not match the empty string.\<close>

function Split_from :: "regex \<Rightarrow> string \<Rightarrow> string \<Rightarrow> string list" where
  "Split_from r acc [] = [rev acc]"
| "Split_from r acc (x # s) =
     (case matches r (x # s) [] of
        [] \<Rightarrow> Split_from r (x # acc) s
      | (t, _) # _ \<Rightarrow>
          if length t < length (x # s) then rev acc # Split_from r [] t else Split_from r (x # acc) s)"
  by pat_completeness auto
termination
  by (relation "measure (\<lambda>(r, acc, s). length s)") auto

definition Regexp_Split :: "regex \<Rightarrow> string \<Rightarrow> string list" where
  "Regexp_Split r s = Split_from r [] s"

section \<open>Classes of ASCII characters\<close>

definition ascii :: "char \<Rightarrow> bool" where
  "ascii x = (of_char x < (128::nat))"

lemma class_step_ascii:
  "ascii x \<Longrightarrow> class_step P (x # s) = (if P (of_char x) then Some s else None)"
  by (simp add: class_step_def ascii_def decode_ascii)

lemma class_step_Nil [simp]: "class_step P [] = None"
  by (simp add: class_step_def)

text \<open>A class that contains ASCII runes only is a set of characters.\<close>

lemma decode_high:
  assumes "\<not> ascii x" shows "128 \<le> fst (DecodeRuneInString (x # s))"
proof -
  have "128 \<le> fst (decode_bytes bs)" if "bs \<noteq> []" "128 \<le> hd bs" for bs
    using that by (cases bs rule: decode_bytes.cases) (auto simp: second_ok_def cont_def split: list.splits if_splits)
  from this [of "byte_values (take 4 (x # s))"] assms show ?thesis
    by (simp add: DecodeRuneInString_def byte_values_def ascii_def)
qed

lemma class_step_low:
  assumes "\<And>r. P r \<Longrightarrow> r < 128"
  shows "class_step P (x # s) = (if P (of_char x) then Some s else None)"
proof (cases "ascii x")
  case False
  obtain r n where d: "DecodeRuneInString (x # s) = (r, n)" by fastforce
  with decode_high [OF False, of s] have "\<not> P r" using assms [of r] by force
  moreover have "\<not> P (of_char x)" using False assms [of "of_char x"] by (auto simp: ascii_def)
  ultimately show ?thesis by (simp add: class_step_def d)
qed (rule class_step_ascii)

lemma class_step_Chr [simp]:
  "(of_char y :: nat) < 128 \<Longrightarrow> class_step (\<lambda>r. r = of_char y) (x # s) = (if x = y then Some s else None)"
  by (subst class_step_low) auto

lemma matches_Chr [simp]:
  "matches (Chr y) [] c = []"
  "(of_char y :: nat) < 128 \<Longrightarrow> matches (Chr y) (x # s) c = (if x = y then [(s, c)] else [])"
  by (simp_all add: Chr_def)

section \<open>Preferred matches\<close>

text \<open>
  \<open>first_match r s c t d\<close>: the most preferred match leaves \<open>t\<close> with the captures \<open>d\<close>. The rules
  compose the preferred match of a sequence from those of its parts.
\<close>

definition first_match :: "regex \<Rightarrow> string \<Rightarrow> captures \<Rightarrow> string \<Rightarrow> captures \<Rightarrow> bool" where
  "first_match r s c t d = (\<exists>ms. matches r s c = (t, d) # ms)"

lemma first_Class: "class_step P s = Some t \<Longrightarrow> first_match (Class P) s c t c"
  by (simp add: first_match_def)

lemma first_Chr: "ascii x \<Longrightarrow> first_match (Chr x) (x # s) c s c"
  unfolding Chr_def by (rule first_Class) (simp add: class_step_ascii)

lemma first_Empty: "first_match Empty s c s c"
  by (simp add: first_match_def)

lemma first_Cat:
  "first_match a s c t d \<Longrightarrow> first_match b t d u e \<Longrightarrow> first_match (Cat a b) s c u e"
  by (auto simp: first_match_def)

lemma first_Alt_left: "first_match a s c t d \<Longrightarrow> first_match (Alt a b) s c t d"
  by (auto simp: first_match_def)

lemma first_Alt_right: "matches a s c = [] \<Longrightarrow> first_match b s c t d \<Longrightarrow> first_match (Alt a b) s c t d"
  by (auto simp: first_match_def)

lemma first_Opt_some: "first_match a s c t d \<Longrightarrow> first_match (Opt a) s c t d"
  by (simp add: Opt_def first_Alt_left)

lemma first_Opt_none: "matches a s c = [] \<Longrightarrow> first_match (Opt a) s c s c"
  by (simp add: Opt_def first_Alt_right first_Empty)

lemma first_Group:
  "first_match a (w @ t) c t d \<Longrightarrow> first_match (Group n a) (w @ t) c t ((n, w) # d)"
  by (auto simp: first_match_def)

lemma first_Star_step:
  "first_match a s c t d \<Longrightarrow> length t < length s \<Longrightarrow> first_match (Star a) t d u e \<Longrightarrow>
   first_match (Star a) s c u e"
  by (auto simp: first_match_def matches.simps(5) [of a s])

lemma first_Star_stop: "matches a s c = [] \<Longrightarrow> first_match (Star a) s c s c"
  by (simp add: first_match_def matches.simps(5))

lemma matches_Class_None: "class_step P s = None \<Longrightarrow> matches (Class P) s c = []"
  by simp

lemma matches_Cat_None: "matches a s c = [] \<Longrightarrow> matches (Cat a b) s c = []"
  by simp

lemma matches_Group_None: "matches a s c = [] \<Longrightarrow> matches (Group n a) s c = []"
  by simp

text \<open>A run of characters of a class, up to a character outside it or the end.\<close>

lemma first_Star_Class:
  assumes "\<forall>x \<in> set w. ascii x \<and> P (of_char x)" and "class_step P t = None"
  shows "first_match (Star (Class P)) (w @ t) c t c"
  using assms(1)
proof (induction w)
  case Nil
  show ?case by (simp add: first_Star_stop assms(2))
next
  case (Cons x w)
  have "first_match (Class P) (x # (w @ t)) c (w @ t) c"
    using Cons.prems by (intro first_Class) (simp add: class_step_ascii)
  from first_Star_step [OF this] Cons show ?case by simp
qed

lemma first_Plus_Class:
  assumes "\<forall>x \<in> set w. ascii x \<and> P (of_char x)" and "class_step P t = None" and "w \<noteq> []"
  shows "first_match (Plus (Class P)) (w @ t) c t c"
proof -
  obtain x v where w: "w = x # v" using assms(3) by (cases w) auto
  have "first_match (Class P) (x # (v @ t)) c (v @ t) c"
    using assms(1) w by (intro first_Class) (simp add: class_step_ascii)
  moreover have "first_match (Star (Class P)) (v @ t) c t c"
    using assms w by (intro first_Star_Class) auto
  ultimately show ?thesis by (auto simp: Plus_def w intro: first_Cat)
qed

lemma full_match_first: "first_match r s [] [] c \<Longrightarrow> full_match r s = Some c"
  by (auto simp: first_match_def full_match_def)

lemma MatchString_first: "first_match r s [] [] c \<Longrightarrow> MatchString r s"
  by (simp add: MatchString_def full_match_first)

lemma Split_from_skip:
  "\<forall>i < length w. matches r (drop i w @ t) [] = [] \<Longrightarrow> Split_from r acc (w @ t) = Split_from r (rev w @ acc) t"
proof (induction w arbitrary: acc)
  case (Cons x w)
  from Cons.prems have "matches r (x # w @ t) [] = []" by (auto dest: spec [of _ 0])
  moreover have "\<forall>i < length w. matches r (drop i w @ t) [] = []"
  proof (intro allI impI)
    fix i assume "i < length w"
    then show "matches r (drop i w @ t) [] = []" using Cons.prems by (auto dest: spec [of _ "Suc i"])
  qed
  ultimately show ?case using Cons.IH [of "x # acc"] by simp
qed simp

lemma Split_from_match:
  assumes "first_match r s [] t d" and "length t < length s"
  shows "Split_from r acc s = rev acc # Split_from r [] t"
  using assms by (cases s) (auto simp: first_match_def)

section \<open>What a match consumes\<close>

text \<open>Every match leaves a suffix; \<open>in_lang\<close> is the language of an expression, without preferences.\<close>

inductive in_lang :: "regex \<Rightarrow> string \<Rightarrow> string \<Rightarrow> bool" where
  lang_Class: "class_step P s = Some t \<Longrightarrow> in_lang (Class P) s t"
| lang_Empty: "in_lang Empty s s"
| lang_Cat: "in_lang a s t \<Longrightarrow> in_lang b t u \<Longrightarrow> in_lang (Cat a b) s u"
| lang_left: "in_lang a s t \<Longrightarrow> in_lang (Alt a b) s t"
| lang_right: "in_lang b s t \<Longrightarrow> in_lang (Alt a b) s t"
| lang_stop: "in_lang (Star a) s s"
| lang_step: "in_lang a s t \<Longrightarrow> length t < length s \<Longrightarrow> in_lang (Star a) t u \<Longrightarrow> in_lang (Star a) s u"
| lang_Group: "in_lang a s t \<Longrightarrow> in_lang (Group n a) s t"

inductive_cases in_lang_ClassE: "in_lang (Class P) s t"
inductive_cases in_lang_EmptyE: "in_lang Empty s t"
inductive_cases in_lang_CatE: "in_lang (Cat a b) s t"
inductive_cases in_lang_AltE: "in_lang (Alt a b) s t"
inductive_cases in_lang_GroupE: "in_lang (Group n a) s t"
inductive_cases in_lang_StarE: "in_lang (Star a) s t"

inductive_simps in_lang_Empty_iff [simp]: "in_lang Empty s t"
inductive_simps in_lang_Class_iff [simp]: "in_lang (Class P) s t"
inductive_simps in_lang_Cat_iff [simp]: "in_lang (Cat a b) s t"
inductive_simps in_lang_Alt_iff [simp]: "in_lang (Alt a b) s t"
inductive_simps in_lang_Group_iff [simp]: "in_lang (Group n a) s t"

lemma in_lang_Chr [simp]: "(of_char y :: nat) < 128 \<Longrightarrow> in_lang (Chr y) s t \<longleftrightarrow> s = y # t"
  by (cases s) (auto simp: Chr_def)

lemma matches_in_lang: "(t, d) \<in> set (matches r s c) \<Longrightarrow> in_lang r s t"
proof (induction r s c arbitrary: t d rule: matches.induct)
  case (5 a s c)
  have "(t, d) = (s, c) \<or> (\<exists>t' d'. (t', d') \<in> set (matches a s c) \<and> length t' < length s \<and>
          (t, d) \<in> set (matches (Star a) t' d'))"
    using "5.prems" by (auto simp: matches.simps(5) [of a s] split: if_splits)
  then show ?case
  proof
    assume "\<exists>t' d'. (t', d') \<in> set (matches a s c) \<and> length t' < length s \<and> (t, d) \<in> set (matches (Star a) t' d')"
    then obtain t' d' where st: "(t', d') \<in> set (matches a s c)" "length t' < length s"
      "(t, d) \<in> set (matches (Star a) t' d')" by blast
    show ?case
      by (rule lang_step [OF "5.IH"(1) [OF st(1)] st(2) "5.IH"(2) [OF st(1) refl st(2) st(3)]])
  qed (auto intro: lang_stop)
next
  case (3 a b s c)
  then obtain t' d' where st: "(t', d') \<in> set (matches a s c)" "(t, d) \<in> set (matches b t' d')" by auto
  show ?case by (rule lang_Cat [OF "3.IH"(1) [OF st(1)] "3.IH"(2) [OF st(1) refl st(2)]])
qed (auto split: option.splits)

lemma in_lang_matches: "in_lang r s t \<Longrightarrow> \<exists>d. (t, d) \<in> set (matches r s c)"
proof (induction arbitrary: c rule: in_lang.induct)
  case (lang_Cat a s t b u)
  then obtain d where d: "(t, d) \<in> set (matches a s c)" by blast
  from lang_Cat.IH(2) obtain e where "(u, e) \<in> set (matches b t d)" by blast
  with d show ?case by force
next
  case (lang_step a s t u)
  from lang_step.IH(1) obtain d where d: "(t, d) \<in> set (matches a s c)" by blast
  from lang_step.IH(2) obtain e where e: "(u, e) \<in> set (matches (Star a) t d)" by blast
  have "(u, e) \<in> set (concat (map (\<lambda>(t, d). if length t < length s then matches (Star a) t d else []) (matches a s c)))"
    unfolding set_concat set_map image_image
    by (rule UN_I [OF d]) (simp add: lang_step.hyps(2) e)
  then show ?case unfolding matches.simps(5) [of a s c] by (intro exI [of _ e]) simp
next
  case (lang_stop a s)
  show ?case by (subst matches.simps(5)) auto
next
  case (lang_Group a s t n)
  then obtain d where "(t, d) \<in> set (matches a s c)" by blast
  then show ?case by force
next
  case (lang_Class P s t)
  then show ?case by simp
next
  case (lang_left a s t b)
  then obtain d where "(t, d) \<in> set (matches a s c)" by blast
  then show ?case by auto
next
  case (lang_right b s t a)
  then obtain d where "(t, d) \<in> set (matches b s c)" by blast
  then show ?case by auto
qed simp

lemma MatchString_iff: "MatchString r s \<longleftrightarrow> in_lang r s []"
proof
  assume "MatchString r s"
  then obtain c where "full_match r s = Some c" by (auto simp: MatchString_def)
  then have "find (\<lambda>(t, c). t = []) (matches r s []) \<noteq> None" by (auto simp: full_match_def)
  then obtain d where "([], d) \<in> set (matches r s [])" by (auto simp: find_None_iff)
  then show "in_lang r s []" by (rule matches_in_lang)
next
  assume "in_lang r s []"
  then obtain d where "([], d) \<in> set (matches r s [])" using in_lang_matches by blast
  then show "MatchString r s" by (force simp: MatchString_def full_match_def find_None_iff)
qed

end
