(* ===== verification/Strconv.thy ===== *)
theory Strconv
  imports Utf8
begin

text \<open>
  Decimal numerals: what \<open>%d\<close> prints and what Go's package \<open>strconv\<close> parses. Numerals without leading
  zeros are in bijection with the numbers, and their order by length and then by bytes is the
  order of the numbers.
\<close>

section \<open>Numerals\<close>

definition digit_char :: "int \<Rightarrow> char" where
  "digit_char d = char_of (48 + d)"

function decimal :: "int \<Rightarrow> string" where
  \<comment> \<open>\<open>%d\<close> of a value that is not negative\<close>
  "decimal n = (if n < 10 then [digit_char n] else decimal (n div 10) @ [digit_char (n mod 10)])"
  by pat_completeness auto
termination
  by (relation "measure nat") auto

declare decimal.simps [simp del]

definition digit_value :: "char \<Rightarrow> int" where
  "digit_value c = of_char c - 48"

definition decimal_value :: "string \<Rightarrow> int" where
  "decimal_value s = foldl (\<lambda>n c. 10 * n + digit_value c) 0 s"

definition digit_class :: "nat \<Rightarrow> bool" where
  "digit_class r = (48 \<le> r \<and> r \<le> 57)"

definition all_digits :: "string \<Rightarrow> bool" where
  "all_digits s = (s \<noteq> [] \<and> list_all (\<lambda>c. digit_class (of_char c)) s)"

text \<open>\<open>strconv.ParseInt(s, 10, 64)\<close>: an optional sign and digits; \<open>None\<close> is a syntax or a range error.\<close>

definition ParseInt64 :: "string \<Rightarrow> int option" where
  "ParseInt64 s =
     (let neg = (s \<noteq> [] \<and> hd s = CHR ''-'');
          ds = (if s \<noteq> [] \<and> (hd s = CHR ''-'' \<or> hd s = CHR ''+'') then tl s else s)
      in if \<not> all_digits ds then None
         else
           let n = decimal_value ds
           in if neg then (if n > 2 ^ 63 then None else Some (- n)) else (if n \<ge> 2 ^ 63 then None else Some n))"

section \<open>Facts about numerals\<close>

lemma digit_char_0: "digit_char 0 = CHR ''0''"
  by code_simp

lemma decimal_small: "n < 10 \<Longrightarrow> decimal n = [digit_char n]"
  by (subst decimal.simps) simp

lemma decimal_large: "\<not> n < 10 \<Longrightarrow> decimal n = decimal (n div 10) @ [digit_char (n mod 10)]"
  by (subst decimal.simps) simp

lemma decimal_nonempty [simp]: "decimal n \<noteq> []"
  by (subst decimal.simps) simp

lemma digit_of_char:
  assumes "0 \<le> d" and "d < 10"
  shows "(of_char (digit_char d) :: nat) = nat (48 + d)" and "digit_value (digit_char d) = d"
proof -
  have n: "(of_char (digit_char d) :: int) = 48 + d"
    using assms by (simp add: digit_char_def)
  then show "digit_value (digit_char d) = d" by (simp add: digit_value_def)
  have "int (of_char (digit_char d)) = 48 + d" using n by (simp only: of_nat_of_char)
  then show "(of_char (digit_char d) :: nat) = nat (48 + d)" by linarith
qed

lemma digit_class_char: "0 \<le> d \<Longrightarrow> d < 10 \<Longrightarrow> digit_class (of_char (digit_char d))"
  by (simp add: digit_class_def digit_of_char nat_le_iff le_nat_iff)

lemma decimal_digits: "0 \<le> n \<Longrightarrow> \<forall>c \<in> set (decimal n). digit_class (of_char c)"
proof (induction n rule: decimal.induct)
  case (1 n)
  then show ?case
    by (cases "n < 10") (simp_all add: decimal_small decimal_large digit_class_char)
qed

lemma decimal_value_snoc [simp]: "decimal_value (s @ [c]) = 10 * decimal_value s + digit_value c"
  by (simp add: decimal_value_def)

lemma decimal_value_single [simp]: "decimal_value [c] = digit_value c"
  by (simp add: decimal_value_def)

lemma decimal_value_decimal [simp]: "0 \<le> n \<Longrightarrow> decimal_value (decimal n) = n"
proof (induction n rule: decimal.induct)
  case (1 n)
  then show ?case by (cases "n < 10") (simp_all add: decimal_small decimal_large digit_of_char)
qed

definition numeral_text :: "string \<Rightarrow> bool" where
  "numeral_text s = (s = ''0'' \<or> s \<noteq> [] \<and> hd s \<noteq> CHR ''0'' \<and> (\<forall>c \<in> set s. digit_class (of_char c)))"

lemma digit_char_value:
  assumes "digit_class (of_char c)"
  shows "digit_char (digit_value c) = c" and "0 \<le> digit_value c" and "digit_value c < 10"
proof -
  have "(of_char c :: int) = int (of_char c)" by (simp only: of_nat_of_char)
  with assms have r: "48 \<le> (of_char c :: int)" "(of_char c :: int) \<le> 57" unfolding digit_class_def by linarith+
  then show "0 \<le> digit_value c" "digit_value c < 10" by (simp_all add: digit_value_def)
  show "digit_char (digit_value c) = c" by (simp add: digit_char_def digit_value_def)
qed

lemma decimal_value_pos:
  "s \<noteq> [] \<Longrightarrow> hd s \<noteq> CHR ''0'' \<Longrightarrow> \<forall>c \<in> set s. digit_class (of_char c) \<Longrightarrow>
   0 < decimal_value s \<and> decimal (decimal_value s) = s"
proof (induction s rule: rev_induct)
  case (snoc c s)
  have c: "digit_class (of_char c)" using snoc.prems by simp
  note cv = digit_char_value [OF c]
  show ?case
  proof (cases "s = []")
    case True
    have "digit_value c \<noteq> 0" using snoc.prems(2) True cv(1) digit_char_0 by auto
    with cv True show ?thesis by (simp add: decimal_small)
  next
    case False
    with snoc have s: "0 < decimal_value s" "decimal (decimal_value s) = s" by auto
    have "(10 * decimal_value s + digit_value c) div 10 = decimal_value s"
      "(10 * decimal_value s + digit_value c) mod 10 = digit_value c" using cv by simp_all
    with s cv show ?thesis by (simp add: decimal_large)
  qed
qed simp

lemma decimal_hd: "0 < n \<Longrightarrow> hd (decimal n) \<noteq> CHR ''0''"
proof (induction n rule: decimal.induct)
  case (1 n)
  show ?case
  proof (cases "n < 10")
    case True
    then have "digit_char n \<noteq> CHR ''0''" using digit_of_char [of n] "1.prems" by (auto simp: digit_value_def)
    then show ?thesis using True by (simp add: decimal_small)
  next
    case False
    then show ?thesis using "1.IH" by (simp add: decimal_large hd_append)
  qed
qed

lemma decimal_0: "decimal 0 = ''0''"
  by (simp add: decimal_small digit_char_0)

lemma numeral_text_decimal: "0 \<le> n \<Longrightarrow> numeral_text (decimal n)"
proof (cases "n = 0")
  case False
  assume "0 \<le> n"
  with False have "0 < n" by simp
  then show ?thesis
    unfolding numeral_text_def
    by (intro disjI2 conjI decimal_nonempty decimal_hd decimal_digits) simp_all
qed (simp add: decimal_0 numeral_text_def)

lemma numeral_text_iff: "numeral_text s \<longleftrightarrow> (\<exists>n \<ge> 0. s = decimal n)"
proof
  assume s: "numeral_text s"
  show "\<exists>n \<ge> 0. s = decimal n"
  proof (cases "s = ''0''")
    case True
    then show ?thesis by (intro exI [of _ 0]) (simp add: decimal_0)
  next
    case False
    with s have "0 < decimal_value s \<and> decimal (decimal_value s) = s"
      unfolding numeral_text_def by (intro decimal_value_pos) auto
    then show ?thesis by (intro exI [of _ "decimal_value s"]) simp
  qed
qed (auto simp: numeral_text_decimal)

section \<open>Order\<close>

lemma strings_Compare_snoc:
  "length a = length b \<Longrightarrow>
   strings_Compare (a @ [x]) (b @ [y]) = (if a = b then cmp_Compare x y else strings_Compare a b)"
proof (induction a b rule: list_induct2)
  case (Cons u a v b)
  then show ?case by (auto simp: strings_Compare_range)
qed (simp add: cmp_Compare_def)

lemma digit_char_less:
  assumes "0 \<le> d" and "d < 10" and "0 \<le> e" and "e < 10"
  shows "digit_char d < digit_char e \<longleftrightarrow> d < e"
  using assms by (simp add: less_char_def digit_of_char)

lemma decimal_order:
  "0 \<le> m \<Longrightarrow> m < n \<Longrightarrow>
   length (decimal m) < length (decimal n) \<or>
   length (decimal m) = length (decimal n) \<and> strings_Compare (decimal m) (decimal n) = -1"
proof (induction m arbitrary: n rule: decimal.induct)
  case (1 m)
  note d = decimal_small decimal_large
  show ?case
  proof (cases "n < 10")
    case True
    with 1 show ?thesis by (simp add: d digit_char_less)
  next
    case n: False
    show ?thesis
    proof (cases "m < 10")
      case True
      have "0 < length (decimal (n div 10))" by (simp del: length_greater_0_conv add: length_greater_0_conv)
      with True n show ?thesis by (simp add: d)
    next
      case m: False
      show ?thesis
      proof (cases "m div 10 = n div 10")
        case True
        then have "m mod 10 < n mod 10" using "1.prems"(2) by (metis div_mult_mod_eq add_less_cancel_left)
        then have "digit_char (m mod 10) < digit_char (n mod 10)" by (simp add: digit_char_less)
        then show ?thesis using True m n by (simp add: d strings_Compare_snoc cmp_Compare_def)
      next
        case False
        with "1.prems"(2) have lt: "m div 10 < n div 10" by (metis zdiv_mono1 less_imp_le zero_less_numeral le_less)
        then have "length (decimal (m div 10)) < length (decimal (n div 10)) \<or>
            length (decimal (m div 10)) = length (decimal (n div 10)) \<and>
            strings_Compare (decimal (m div 10)) (decimal (n div 10)) = -1"
          using "1.IH" [OF m, of "n div 10"] "1.prems"(1) by simp
        moreover have "decimal (m div 10) \<noteq> decimal (n div 10)"
        proof
          assume eq: "decimal (m div 10) = decimal (n div 10)"
          have "0 \<le> m div 10" "0 \<le> n div 10" using "1.prems" by simp_all
          then have "m div 10 = n div 10" using arg_cong [OF eq, of decimal_value] by simp
          with lt show False by simp
        qed
        ultimately show ?thesis using m n by (auto simp: d strings_Compare_snoc)
      qed
    qed
  qed
qed

lemma decimal_inject: "0 \<le> m \<Longrightarrow> 0 \<le> n \<Longrightarrow> decimal m = decimal n \<longleftrightarrow> m = n"
  by (metis decimal_value_decimal)

lemma all_digits_decimal: "0 \<le> n \<Longrightarrow> all_digits (decimal n)"
  using decimal_digits [of n] by (simp add: all_digits_def list_all_iff)

lemma ParseInt64_decimal: "0 \<le> n \<Longrightarrow> n < 2 ^ 63 \<Longrightarrow> ParseInt64 (decimal n) = Some n"
proof -
  assume n: "0 \<le> n" "n < 2 ^ 63"
  have "hd (decimal n) \<in> set (decimal n)" by simp
  then have "digit_class (of_char (hd (decimal n)))" using decimal_digits [OF n(1)] by blast
  then have "hd (decimal n) \<noteq> CHR ''-'' \<and> hd (decimal n) \<noteq> CHR ''+''" by (auto simp: digit_class_def)
  then show ?thesis using n by (simp add: ParseInt64_def all_digits_decimal)
qed

end
