(* ===== verification/Semver_Version.thy ===== *)
theory Semver_Version
  imports Compare Regexp Strconv
begin

text \<open>
  Versions (\<open>internal/semver/version.go\<close>): the record, its increments (the components are 32-bit and
  wrap around), precedence, printing and parsing. The regular expressions are transcribed; under
  \<open>(?i)\<close> Go folds letters by simple case folding, so \<open>[a-z]\<close> also contains the long s (U+017F) and the
  Kelvin sign (U+212A).
\<close>

section \<open>The regular expressions\<close>

definition nonzero_digit_class :: "nat \<Rightarrow> bool" where
  "nonzero_digit_class r = (49 \<le> r \<and> r \<le> 57)"

definition letter_class :: "nat \<Rightarrow> bool" where
  "letter_class r = ((97 \<le> r \<and> r \<le> 122) \<or> (65 \<le> r \<and> r \<le> 90) \<or> r = 0x17F \<or> r = 0x212A)"

lemma letter_class_code [code]:
  "letter_class r =
     (let n = int r in (97 \<le> n \<and> n \<le> 122) \<or> (65 \<le> n \<and> n \<le> 90) \<or> n = 0x17F \<or> n = 0x212A)"
  by (auto simp: letter_class_def Let_def)

definition identifier_start_class :: "nat \<Rightarrow> bool" where
  "identifier_start_class r = (letter_class r \<or> r = of_char CHR ''-'')"

definition identifier_class :: "nat \<Rightarrow> bool" where
  "identifier_class r = (letter_class r \<or> digit_class r \<or> r = of_char CHR ''-'')"

definition dotted_class :: "nat \<Rightarrow> bool" where
  "dotted_class r = (identifier_class r \<or> r = of_char CHR ''.'')"

definition nr_regex :: regex where
  "nr_regex = Alt (Chr CHR ''0'') (Cat (Class nonzero_digit_class) (Star (Class digit_class)))"

definition qualifier_regex :: regex where
  "qualifier_regex =
     Cat (Opt (Cat (Chr CHR ''-'') (Group 4 (Plus (Class dotted_class)))))
         (Opt (Cat (Chr CHR ''+'') (Group 5 (Plus (Class dotted_class)))))"

text \<open>The shape versions and partial versions share: one to three components, the last with qualifiers.\<close>

definition version_shape :: "regex \<Rightarrow> regex" where
  "version_shape component =
     Cat (Group 1 component)
       (Opt (Cat (Chr CHR ''.'') (Cat (Group 2 component)
         (Opt (Cat (Chr CHR ''.'') (Cat (Group 3 component) qualifier_regex))))))"

definition versionRegexp :: regex where
  "versionRegexp = version_shape nr_regex"

definition prerelease_part :: regex where
  "prerelease_part =
     Alt nr_regex (Cat (Class identifier_start_class) (Star (Class identifier_class)))"

definition prereleaseRegexp :: regex where
  "prereleaseRegexp = Cat prerelease_part (Star (Cat (Chr CHR ''.'') prerelease_part))"

definition buildRegExp :: regex where
  "buildRegExp = Cat (Plus (Class identifier_class)) (Star (Cat (Chr CHR ''.'') (Plus (Class identifier_class))))"

definition numericIdentifierRegExp :: regex where
  "numericIdentifierRegExp = nr_regex"

section \<open>Versions\<close>

record Version =
  major :: "32 word"
  minor :: "32 word"
  patch :: "32 word"
  prerelease :: "string list"
  build :: "string list"

definition version_of :: "32 word \<Rightarrow> 32 word \<Rightarrow> 32 word \<Rightarrow> Version" where
  "version_of a b c = \<lparr>major = a, minor = b, patch = c, prerelease = [], build = []\<rparr>"

lemma version_of_sel [simp]:
  "major (version_of a b c) = a" "minor (version_of a b c) = b" "patch (version_of a b c) = c"
  "prerelease (version_of a b c) = []" "build (version_of a b c) = []"
  by (simp_all add: version_of_def)

definition versionZero :: Version where
  "versionZero = (version_of 0 0 0)\<lparr>prerelease := [''0'']\<rparr>"

definition incrementMajor :: "Version \<Rightarrow> Version" where
  "incrementMajor v = version_of (major v + 1) 0 0"

definition incrementMinor :: "Version \<Rightarrow> Version" where
  "incrementMinor v = version_of (major v) (minor v + 1) 0"

definition incrementPatch :: "Version \<Rightarrow> Version" where
  "incrementPatch v = version_of (major v) (minor v) (patch v + 1)"

section \<open>Numbers\<close>

datatype semver_error = SemverParseError string | NumError string

text \<open>\<open>strconv.ParseUint(s, 10, 32)\<close>: an error for an empty text, a byte that is no digit, or a value over 32 bits.\<close>

definition getUintComponent :: "string \<Rightarrow> semver_error + 32 word" where
  "getUintComponent s =
     (if s = [] \<or> \<not> list_all (\<lambda>c. digit_class (of_char c)) s then Inl (NumError s)
      else if decimal_value s \<ge> 2 ^ 32 then Inl (NumError s)
      else Inr (of_int (decimal_value s)))"

section \<open>Precedence\<close>

definition comparePreReleaseIdentifier :: "string \<Rightarrow> string \<Rightarrow> int" where
  "comparePreReleaseIdentifier left right =
     (let compareResult = strings_Compare left right in
      if compareResult = 0 then compareResult
      else
        let leftIsNumeric = MatchString numericIdentifierRegExp left;
            rightIsNumeric = MatchString numericIdentifierRegExp right
        in if leftIsNumeric \<or> rightIsNumeric then
             if \<not> rightIsNumeric then -1
             else if \<not> leftIsNumeric then 1
             else
               (case (getUintComponent left, getUintComponent right) of
                  (Inr leftAsNumber, Inr rightAsNumber) \<Rightarrow> cmp_Compare leftAsNumber rightAsNumber
                | _ \<Rightarrow>
                    let lenCompare = cmp_Compare (length left) (length right)
                    in if lenCompare = 0 then compareResult else lenCompare)
           else compareResult)"

definition comparePreReleaseIdentifiers :: "string list \<Rightarrow> string list \<Rightarrow> int" where
  "comparePreReleaseIdentifiers left right =
     (if left = [] then if right = [] then 0 else 1
      else if right = [] then -1
      else CompareFunc comparePreReleaseIdentifier left right)"

definition compare_parts :: "Version \<Rightarrow> Version \<Rightarrow> int" where
  "compare_parts a b =
     (let r = cmp_Compare (major a) (major b) in
      if r \<noteq> 0 then r
      else
        let r = cmp_Compare (minor a) (minor b) in
        if r \<noteq> 0 then r
        else
          let r = cmp_Compare (patch a) (patch b) in
          if r \<noteq> 0 then r
          else comparePreReleaseIdentifiers (prerelease a) (prerelease b))"

text \<open>
  The arguments are pointers: \<open>None\<close> is \<open>nil\<close>. Two pointers that are equal and not \<open>nil\<close> have equal
  versions, for which the fall-through has the same answer 0.
\<close>

definition Version_Compare :: "Version option \<Rightarrow> Version option \<Rightarrow> int" where
  "Version_Compare a b =
     (case (a, b) of
        (None, None) \<Rightarrow> 0
      | (None, Some _) \<Rightarrow> -1
      | (Some _, None) \<Rightarrow> 1
      | (Some v, Some w) \<Rightarrow> compare_parts v w)"

section \<open>Printing and parsing\<close>

definition Version_String :: "Version \<Rightarrow> string" where
  "Version_String v =
     decimal (uint (major v)) @ ''.'' @ decimal (uint (minor v)) @ ''.'' @ decimal (uint (patch v)) @
     (if prerelease v \<noteq> [] then ''-'' @ Join ''.'' (prerelease v) else []) @
     (if build v \<noteq> [] then ''+'' @ Join ''.'' (build v) else [])"

definition parse_qualifiers :: "string \<Rightarrow> captures \<Rightarrow> Version \<Rightarrow> Version \<times> semver_error option" where
  "parse_qualifiers s c v =
     (if group c 4 \<noteq> [] \<and> \<not> MatchString prereleaseRegexp (group c 4) then (v, Some (SemverParseError s))
      else
        let v = (if group c 4 \<noteq> [] then v\<lparr>prerelease := Split CHR ''.'' (group c 4)\<rparr> else v) in
        if group c 5 \<noteq> [] \<and> \<not> MatchString buildRegExp (group c 5) then (v, Some (SemverParseError s))
        else
          let v = (if group c 5 \<noteq> [] then v\<lparr>build := Split CHR ''.'' (group c 5)\<rparr> else v)
          in (v, None))"

text \<open>
  A failed component leaves the truncated result of \<open>ParseUint\<close> in the version beside the error: 0
  after a syntax error (which the expression excludes), the largest value after an overflow.
\<close>

definition component_or_max :: "string \<Rightarrow> (32 word \<Rightarrow> Version) \<Rightarrow> (Version \<Rightarrow> Version \<times> semver_error option) \<Rightarrow>
    Version \<times> semver_error option" where
  "component_or_max s store k =
     (case getUintComponent s of Inl e \<Rightarrow> (store (- 1), Some e) | Inr n \<Rightarrow> k (store n))"

definition TryParseVersion :: "string \<Rightarrow> Version \<times> semver_error option" where
  "TryParseVersion s =
     (let result = version_of 0 0 0 in
      case full_match versionRegexp s of
        None \<Rightarrow> (result, Some (SemverParseError s))
      | Some m \<Rightarrow>
          component_or_max (group m 1) (\<lambda>n. result\<lparr>major := n\<rparr>) (\<lambda>v.
            (if group m 2 \<noteq> [] then component_or_max (group m 2) (\<lambda>n. v\<lparr>minor := n\<rparr>) else (\<lambda>k. k v)) (\<lambda>v.
              (if group m 3 \<noteq> [] then component_or_max (group m 3) (\<lambda>n. v\<lparr>patch := n\<rparr>) else (\<lambda>k. k v))
                (parse_qualifiers s m))))"

definition MustParse :: "string \<Rightarrow> Version go" where
  "MustParse s = (case TryParseVersion s of (v, None) \<Rightarrow> Inr v | (_, Some _) \<Rightarrow> Inl (Panicked s))"

end
