(* ===== verification/Semver_Precedence.thy ===== *)
theory Semver_Precedence
  imports Semver_Version
begin

text \<open>
  Precedence of versions. Numeric identifiers are the decimal numerals, and two of them compare by
  their unbounded value although the code parses 32 bits only: where that overflows the lengths and
  then the bytes decide, and for numerals without leading zeros that is the order of the values.
  The comparisons of identifiers, of identifier lists and of versions keep the contract of
  \<open>Compare\<close>.
\<close>

section \<open>Numeric identifiers\<close>

lemma digit_class_low: "digit_class r \<Longrightarrow> r < 128" "nonzero_digit_class r \<Longrightarrow> r < 128"
  by (simp_all add: digit_class_def nonzero_digit_class_def)

lemma in_lang_Star_low:
  assumes "\<And>r. P r \<Longrightarrow> r < 128"
  shows "in_lang (Star (Class P)) s [] \<longleftrightarrow> (\<forall>c \<in> set s. P (of_char c))"
proof (induction s)
  case Nil
  show ?case by (simp add: lang_stop)
next
  case (Cons x s)
  note step = class_step_low [of P x s, OF assms]
  show ?case
  proof
    assume "in_lang (Star (Class P)) (x # s) []"
    then show "\<forall>c \<in> set (x # s). P (of_char c)"
      by (rule in_lang_StarE) (use Cons.IH step in \<open>auto split: if_splits\<close>)
  next
    assume "\<forall>c \<in> set (x # s). P (of_char c)"
    then show "in_lang (Star (Class P)) (x # s) []"
      using Cons.IH step by (intro lang_step [of "Class P" "x # s" s]) auto
  qed
qed

lemma numeric_identifier: "MatchString numericIdentifierRegExp s \<longleftrightarrow> (\<exists>n \<ge> 0. s = decimal n)"
proof -
  have "in_lang nr_regex s [] \<longleftrightarrow> numeral_text s"
  proof (cases s)
    case Nil
    then show ?thesis by (simp add: nr_regex_def numeral_text_def Chr_def)
  next
    case (Cons x w)
    have z: "class_step (\<lambda>r. r = of_char CHR ''0'') (x # w) = (if x = CHR ''0'' then Some w else None)"
      by (rule class_step_Chr) simp
    have nz: "nonzero_digit_class (of_char x) \<longleftrightarrow> digit_class (of_char x) \<and> x \<noteq> CHR ''0''"
    proof -
      have "x \<noteq> CHR ''0'' \<longleftrightarrow> (of_char x :: nat) \<noteq> 48"
        using of_char_eq_iff [of x "CHR ''0''", where 'a = nat] by simp
      then show ?thesis by (auto simp: nonzero_digit_class_def digit_class_def)
    qed
    show ?thesis
      using z by (auto simp: Cons nr_regex_def numeral_text_def Chr_def class_step_low digit_class_low
          in_lang_Star_low nz)
  qed
  then show ?thesis by (simp add: numericIdentifierRegExp_def MatchString_iff numeral_text_iff)
qed

section \<open>Comparing identifiers\<close>

lemma getUintComponent_decimal:
  "0 \<le> n \<Longrightarrow> getUintComponent (decimal n) =
     (if n \<ge> 2 ^ 32 then Inl (NumError (decimal n)) else Inr (of_int n))"
  using decimal_digits [of n] by (auto simp: getUintComponent_def list_all_iff)

lemma word_of_int_less:
  assumes "0 \<le> m" and "m < 2 ^ 32" and "0 \<le> n" and "n < 2 ^ 32"
  shows "(of_int m :: 32 word) < of_int n \<longleftrightarrow> m < n"
  using assms by (simp add: word_less_def unsigned_of_int take_bit_int_eq_self)

lemma decimal_compare_overflow:
  assumes "0 \<le> m" and "0 \<le> n" and "m \<noteq> n"
  shows "(let l = cmp_Compare (length (decimal m)) (length (decimal n))
          in if l = 0 then strings_Compare (decimal m) (decimal n) else l) = cmp_Compare m n"
proof (cases "m < n")
  case True
  with decimal_order [OF assms(1) True] show ?thesis by (auto simp: cmp_Compare_def Let_def)
next
  case False
  with assms have "n < m" by simp
  with decimal_order [OF assms(2) this] show ?thesis
    by (auto simp: cmp_Compare_def Let_def strings_Compare_swap [of "decimal m"])
qed

lemma compare_numeric:
  assumes "0 \<le> m" and "0 \<le> n"
  shows "comparePreReleaseIdentifier (decimal m) (decimal n) = cmp_Compare m n"
proof (cases "m = n")
  case True
  then show ?thesis by (simp add: comparePreReleaseIdentifier_def cmp_Compare_def)
next
  case False
  have num: "MatchString numericIdentifierRegExp (decimal m)" "MatchString numericIdentifierRegExp (decimal n)"
    using assms by (auto simp: numeric_identifier)
  show ?thesis
  proof (cases "m < 2 ^ 32 \<and> n < 2 ^ 32")
    case True
    then have "cmp_Compare (of_int m :: 32 word) (of_int n) = cmp_Compare m n"
      using assms word_of_int_less [of m n] word_of_int_less [of n m] unfolding cmp_Compare_def by simp
    then show ?thesis using True False num assms
      by (simp add: comparePreReleaseIdentifier_def getUintComponent_decimal decimal_inject)
  next
    case overflow: False
    then show ?thesis
      using False num assms decimal_compare_overflow [OF assms False]
      by (auto simp: comparePreReleaseIdentifier_def getUintComponent_decimal decimal_inject)
  qed
qed

lemma compare_mixed:
  assumes "MatchString numericIdentifierRegExp s" and "\<not> MatchString numericIdentifierRegExp t"
  shows "comparePreReleaseIdentifier s t = -1" and "comparePreReleaseIdentifier t s = 1"
  using assms by (auto simp: comparePreReleaseIdentifier_def Let_def)

lemma compare_texts:
  assumes "\<not> MatchString numericIdentifierRegExp s" and "\<not> MatchString numericIdentifierRegExp t"
  shows "comparePreReleaseIdentifier s t = strings_Compare s t"
  using assms by (auto simp: comparePreReleaseIdentifier_def Let_def)

text \<open>The order of identifiers as the order of a key: numerals by value before texts by bytes.\<close>

lemma identifier_cases:
  obtains n where "0 \<le> n" and "s = decimal n" and "MatchString numericIdentifierRegExp s"
  | "\<not> MatchString numericIdentifierRegExp s"
  using numeric_identifier [of s] by blast

lemma identifier_swap: "comparePreReleaseIdentifier t s = - comparePreReleaseIdentifier s t"
proof (cases s rule: identifier_cases)
  case s: (1 m)
  show ?thesis
  proof (cases t rule: identifier_cases)
    case (1 n)
    with s show ?thesis by (simp add: compare_numeric cmp_Compare_def)
  qed (use s in \<open>simp add: compare_mixed\<close>)
next
  case s: 2
  show ?thesis
    by (cases t rule: identifier_cases)
      (use s in \<open>simp_all add: compare_mixed compare_texts strings_Compare_swap [of s]\<close>)
qed

lemma identifier_le_trans:
  assumes "comparePreReleaseIdentifier s t \<le> 0" and "comparePreReleaseIdentifier t u \<le> 0"
  shows "comparePreReleaseIdentifier s u \<le> 0"
proof (cases u rule: identifier_cases)
  case u: (1 k)
  with assms(2) obtain n where t: "0 \<le> n" "t = decimal n" "MatchString numericIdentifierRegExp t"
    by (cases t rule: identifier_cases) (auto simp: compare_mixed)
  with assms(1) obtain m where s: "0 \<le> m" "s = decimal m"
    by (cases s rule: identifier_cases) (auto simp: compare_mixed)
  from s t u assms show ?thesis by (auto simp: compare_numeric)
next
  case u: 2
  show ?thesis
  proof (cases s rule: identifier_cases)
    case (1 m)
    with u show ?thesis by (simp add: compare_mixed)
  next
    case s: 2
    with assms(1) have t: "\<not> MatchString numericIdentifierRegExp t"
      by (cases t rule: identifier_cases) (auto simp: compare_mixed)
    with s u assms show ?thesis by (simp add: compare_texts strings_Compare_le_trans [of s t u])
  qed
qed

interpretation identifiers: element_comparison comparePreReleaseIdentifier
proof unfold_locales
  show "comparePreReleaseIdentifier s s = 0" for s by (simp add: comparePreReleaseIdentifier_def)
qed (rule identifier_swap, rule identifier_le_trans)

lemma identifier_eq_iff: "comparePreReleaseIdentifier s t = 0 \<longleftrightarrow> s = t"
proof
  assume "comparePreReleaseIdentifier s t = 0"
  then show "s = t"
    by (cases s rule: identifier_cases; cases t rule: identifier_cases)
      (auto simp: compare_numeric compare_mixed compare_texts)
qed (simp add: comparePreReleaseIdentifier_def)

lemma CompareFunc_eq_iff: "CompareFunc comparePreReleaseIdentifier xs ys = 0 \<longleftrightarrow> xs = ys"
proof (induction xs arbitrary: ys)
  case Nil
  show ?case by (cases ys) auto
next
  case (Cons x xs)
  then show ?case by (cases ys) (auto simp: Let_def identifier_eq_iff)
qed

section \<open>Comparing versions\<close>

lemma identifiers_swap: "comparePreReleaseIdentifiers ys xs = - comparePreReleaseIdentifiers xs ys"
  by (auto simp: comparePreReleaseIdentifiers_def identifiers.lexicographic.cmp_swap [of ys xs])

lemma identifiers_le_trans:
  "comparePreReleaseIdentifiers xs ys \<le> 0 \<Longrightarrow> comparePreReleaseIdentifiers ys zs \<le> 0 \<Longrightarrow>
   comparePreReleaseIdentifiers xs zs \<le> 0"
  by (auto simp: comparePreReleaseIdentifiers_def split: if_splits
      intro: identifiers.lexicographic.cmp_le_trans [of xs ys zs])

interpretation prereleases: comparison comparePreReleaseIdentifiers
proof unfold_locales
  show "comparePreReleaseIdentifiers xs xs = 0" for xs
    by (simp add: comparePreReleaseIdentifiers_def identifiers.lexicographic.cmp_self)
qed (rule identifiers_swap, rule identifiers_le_trans)

lemma prereleases_eq_iff: "comparePreReleaseIdentifiers xs ys = 0 \<longleftrightarrow> xs = ys"
  by (auto simp: comparePreReleaseIdentifiers_def CompareFunc_eq_iff)

text \<open>Two comparisons in sequence: the second decides where the first finds no difference.\<close>

lemma then_compare:
  assumes f: "comparison f" and g: "comparison g"
  shows "comparison (\<lambda>x y. if f x y \<noteq> 0 then f x y else g x y)"
proof
  fix x y z
  show "(if f x x \<noteq> 0 then f x x else g x x) = 0"
    using comparison.cmp_self [OF f] comparison.cmp_self [OF g] by simp
  show "(if f y x \<noteq> 0 then f y x else g y x) = - (if f x y \<noteq> 0 then f x y else g x y)"
    using comparison.cmp_swap [OF f, of y x] comparison.cmp_swap [OF g, of y x] by simp
  assume le: "(if f x y \<noteq> 0 then f x y else g x y) \<le> 0" "(if f y z \<noteq> 0 then f y z else g y z) \<le> 0"
  then have fle: "f x y \<le> 0" "f y z \<le> 0" by (auto split: if_splits)
  show "(if f x z \<noteq> 0 then f x z else g x z) \<le> 0"
  proof (cases "f x z = 0")
    case True
    then have "f x y = 0" "f y z = 0"
      using comparison.lt_le_trans [OF f, of x y z] comparison.le_lt_trans [OF f, of x y z] fle by force+
    with True le comparison.cmp_le_trans [OF g, of x y z] show ?thesis by simp
  next
    case False
    with comparison.cmp_le_trans [OF f fle] show ?thesis by simp
  qed
qed

lemma comparison_on:
  assumes "comparison f"
  shows "comparison (\<lambda>x y. f (key x) (key y))"
  using assms unfolding comparison_def by blast

lemma compare_parts_is:
  "compare_parts = (\<lambda>v w.
     if cmp_Compare (major v) (major w) \<noteq> 0 then cmp_Compare (major v) (major w)
     else if cmp_Compare (minor v) (minor w) \<noteq> 0 then cmp_Compare (minor v) (minor w)
     else if cmp_Compare (patch v) (patch w) \<noteq> 0 then cmp_Compare (patch v) (patch w)
     else comparePreReleaseIdentifiers (prerelease v) (prerelease w))"
  by (intro ext) (simp add: compare_parts_def Let_def)

lemma compare_parts_comparison: "comparison compare_parts"
  unfolding compare_parts_is
  by (rule then_compare [OF comparison_on [OF ordinal.comparison_axioms] then_compare
      [OF comparison_on [OF ordinal.comparison_axioms] then_compare
      [OF comparison_on [OF ordinal.comparison_axioms] comparison_on [OF prereleases.comparison_axioms]]]])

interpretation parts: comparison compare_parts
  by (rule compare_parts_comparison)

interpretation versions: comparison Version_Compare
proof unfold_locales
  fix a b c :: "Version option"
  show "Version_Compare a a = 0" by (cases a) (simp_all add: Version_Compare_def parts.cmp_self)
  show "Version_Compare b a = - Version_Compare a b"
    by (cases a; cases b) (auto simp: Version_Compare_def intro: parts.cmp_swap)
  show "Version_Compare a b \<le> 0 \<Longrightarrow> Version_Compare b c \<le> 0 \<Longrightarrow> Version_Compare a c \<le> 0"
    by (cases a; cases b; cases c) (auto simp: Version_Compare_def intro: parts.cmp_le_trans)
qed

lemma compare_parts_eq_iff:
  "compare_parts v w = 0 \<longleftrightarrow>
     major v = major w \<and> minor v = minor w \<and> patch v = patch w \<and> prerelease v = prerelease w"
  by (auto simp: compare_parts_is prereleases_eq_iff)

text \<open>C28. Precedence of versions is a total preorder: every version is equal to itself, swapping the
  arguments negates the answer, it is transitive, a missing version (a nil pointer) is below every
  other, and two versions are equal exactly when they differ in build metadata at most.\<close>

theorem Version_Compare_total_preorder:
  "Version_Compare b a = - Version_Compare a b
   \<and> (Version_Compare a b \<le> 0 \<and> Version_Compare b c \<le> 0 \<longrightarrow> Version_Compare a c \<le> 0)
   \<and> (Version_Compare None a < 0 \<longleftrightarrow> a \<noteq> None)
   \<and> (Version_Compare (Some v) (Some w) = 0 \<longleftrightarrow> v\<lparr>build := build w\<rparr> = w)"
proof (intro conjI)
  show "Version_Compare b a = - Version_Compare a b" by (rule versions.cmp_swap)
  show "Version_Compare a b \<le> 0 \<and> Version_Compare b c \<le> 0 \<longrightarrow> Version_Compare a c \<le> 0"
    using versions.cmp_le_trans by blast
  show "Version_Compare None a < 0 \<longleftrightarrow> a \<noteq> None" by (cases a) (simp_all add: Version_Compare_def)
  show "Version_Compare (Some v) (Some w) = 0 \<longleftrightarrow> v\<lparr>build := build w\<rparr> = w"
    by (cases v; cases w) (auto simp: Version_Compare_def compare_parts_eq_iff)
qed

theorem Version_Compare_total_preorder_witness:
  "Version_Compare (Some (version_of 1 2 4)) (Some (version_of 1 2 3)) =
     - Version_Compare (Some (version_of 1 2 3)) (Some (version_of 1 2 4))
   \<and> Version_Compare (Some versionZero) (Some (version_of 1 2 4)) \<le> 0"
proof -
  have "Version_Compare (Some versionZero) (Some (version_of 1 2 3)) \<le> 0"
    "Version_Compare (Some (version_of 1 2 3)) (Some (version_of 1 2 4)) \<le> 0" by code_simp+
  then show ?thesis
    using Version_Compare_total_preorder [of "Some (version_of 1 2 3)" "Some versionZero" "Some (version_of 1 2 4)"
        versionZero versionZero]
      Version_Compare_total_preorder [of "Some (version_of 1 2 4)" "Some (version_of 1 2 3)" None
        versionZero versionZero]
    by blast
qed

text \<open>C32. Numeric pre-release identifiers compare by their value, whatever their length: parsing them
  into 32 bits overflows, and the lengths and bytes the code then falls back on order them the same
  way. A numeric identifier is below every other identifier.\<close>

theorem numeric_identifiers_by_value:
  assumes "0 \<le> m" and "0 \<le> n"
  shows "comparePreReleaseIdentifier (decimal m) (decimal n) = (if m < n then -1 else if n < m then 1 else 0)
    \<and> (\<not> MatchString numericIdentifierRegExp s \<longrightarrow> comparePreReleaseIdentifier (decimal m) s = -1)"
  using compare_numeric [OF assms] assms numeric_identifier [of "decimal m"]
  by (auto simp: cmp_Compare_def compare_mixed)

theorem numeric_identifiers_by_value_witness:
  "comparePreReleaseIdentifier (decimal 5000000000) (decimal 40000000000) = -1
   \<and> comparePreReleaseIdentifier (decimal 7) ''07'' = -1"
proof -
  have n: "\<not> MatchString numericIdentifierRegExp ''07''" by code_simp
  have "comparePreReleaseIdentifier (decimal 5000000000) (decimal 40000000000) = -1"
    using numeric_identifiers_by_value [of 5000000000 40000000000 "[]"] by simp
  moreover have "comparePreReleaseIdentifier (decimal 7) ''07'' = -1"
    using numeric_identifiers_by_value [of 7 0 "''07''"] n by simp
  ultimately show ?thesis ..
qed

end
