(* ===== verification/Semver_Text.thy ===== *)
theory Semver_Text
  imports Semver_Precedence
begin

text \<open>
  Parsing and printing of versions. What the parser accepts prints to a text in canonical form
  that parses to the same version. The proof composes the preferred matches of the expression's
  parts; the pre-release and build texts are runs of runes of one class, for which decoding does not
  depend on what follows.
\<close>

section \<open>Runs of a class of runes\<close>

inductive runs :: "(nat \<Rightarrow> bool) \<Rightarrow> string \<Rightarrow> string \<Rightarrow> bool" for P where
  runs_refl: "runs P s s"
| runs_step: "class_step P s = Some t \<Longrightarrow> runs P t u \<Longrightarrow> runs P s u"

inductive_cases runsE: "runs P s t"

lemma runs_trans: "runs P s t \<Longrightarrow> runs P t u \<Longrightarrow> runs P s u"
  by (induction rule: runs.induct) (auto intro: runs.intros)

fun classes_in :: "(nat \<Rightarrow> bool) \<Rightarrow> regex \<Rightarrow> bool" where
  "classes_in P (Class Q) = (\<forall>r. Q r \<longrightarrow> P r)"
| "classes_in P Empty = True"
| "classes_in P (Cat a b) = (classes_in P a \<and> classes_in P b)"
| "classes_in P (Alt a b) = (classes_in P a \<and> classes_in P b)"
| "classes_in P (Star a) = classes_in P a"
| "classes_in P (Group n a) = classes_in P a"

lemma class_step_mono: "class_step Q s = Some t \<Longrightarrow> (\<And>r. Q r \<Longrightarrow> P r) \<Longrightarrow> class_step P s = Some t"
  by (auto simp: class_step_def split: if_splits prod.splits)

lemma in_lang_runs: "in_lang r s t \<Longrightarrow> classes_in P r \<Longrightarrow> runs P s t"
proof (induction rule: in_lang.induct)
  case (lang_Class Q s t)
  then have "class_step P s = Some t" by (auto elim: class_step_mono)
  then show ?case by (rule runs_step) (rule runs_refl)
next
  case (lang_Cat a s t b u)
  then have "runs P s t" "runs P t u" by simp_all
  then show ?case by (rule runs_trans)
next
  case (lang_step a s t u)
  then have "runs P s t" "runs P t u" by simp_all
  then show ?case by (rule runs_trans)
next
  case (lang_Empty s)
  show ?case by (rule runs_refl)
next
  case (lang_stop a s)
  show ?case by (rule runs_refl)
qed simp_all

lemma class_step_append:
  assumes "class_step P s = Some u" and "\<not> P RuneError"
  shows "class_step P (s @ t) = Some (u @ t)"
proof -
  obtain r n where d: "DecodeRuneInString s = (r, n)" by fastforce
  with assms have s: "s \<noteq> []" "P r" "u = drop n s" by (auto simp: class_step_def split: if_splits)
  then have "DecodeRuneInString (s @ t) = (r, n)" using decode_append [of s t] assms(2) d by auto
  moreover have "n \<le> length s" using decode_width(2) [OF s(1)] d by simp
  ultimately show ?thesis using s by (simp add: class_step_def)
qed

lemma first_Star_runs:
  "runs P w u \<Longrightarrow> u = [] \<Longrightarrow> \<not> P RuneError \<Longrightarrow> class_step P t = None \<Longrightarrow>
   first_match (Star (Class P)) (w @ t) c t c"
proof (induction rule: runs.induct)
  case (runs_refl s)
  then show ?case by (simp add: first_Star_stop)
next
  case (runs_step s v u)
  have "first_match (Class P) (s @ t) c (v @ t) c"
    by (rule first_Class [OF class_step_append]) (use runs_step in simp_all)
  then show ?case
    by (rule first_Star_step) (use runs_step class_step_shorter in auto)
qed

lemma first_Plus_runs:
  assumes "runs P w []" and "w \<noteq> []" and "\<not> P RuneError" and "class_step P t = None"
  shows "first_match (Plus (Class P)) (w @ t) c t c"
proof -
  from assms(1,2) obtain v where v: "class_step P w = Some v" "runs P v []" by (auto elim: runsE)
  have "first_match (Class P) (w @ t) c (v @ t) c"
    by (rule first_Class [OF class_step_append [OF v(1) assms(3)]])
  moreover have "first_match (Star (Class P)) (v @ t) c t c"
    by (rule first_Star_runs [OF v(2) refl assms(3,4)])
  ultimately show ?thesis by (auto simp: Plus_def intro: first_Cat)
qed

section \<open>The parts of a version\<close>

lemma dotted_class_plain: "\<not> dotted_class RuneError" "\<not> dotted_class (of_char CHR ''+'')"
  by (simp_all add: dotted_class_def identifier_class_def letter_class_def digit_class_def)

lemma first_nr:
  assumes "0 \<le> n" and "class_step digit_class t = None"
  shows "first_match nr_regex (decimal n @ t) c t c"
proof (cases "n = 0")
  case True
  have "first_match (Chr CHR ''0'') (decimal n @ t) c t c"
    using True by (simp add: decimal_0 first_Chr ascii_def)
  then show ?thesis by (simp add: nr_regex_def first_Alt_left)
next
  case False
  then have n: "0 < n" using assms(1) by simp
  obtain x w where d: "decimal n = x # w" using decimal_nonempty by (cases "decimal n") auto
  have x: "digit_class (of_char x)" "x \<noteq> CHR ''0''" and w: "\<forall>y \<in> set w. digit_class (of_char y)"
    using decimal_digits [OF assms(1)] decimal_hd [OF n] by (auto simp: d)
  have "(of_char x :: nat) \<noteq> 48" using x(2) of_char_eq_iff [of x "CHR ''0''", where 'a = nat] by simp
  then have nz: "nonzero_digit_class (of_char x)" using x(1) by (simp add: digit_class_def nonzero_digit_class_def)
  have "first_match (Class nonzero_digit_class) (x # (w @ t)) c (w @ t) c"
    by (rule first_Class) (simp add: class_step_low digit_class_low nz)
  moreover have "first_match (Star (Class digit_class)) (w @ t) c t c"
    using w digit_class_low(1) by (intro first_Star_Class assms(2)) (auto simp: ascii_def)
  ultimately have "first_match (Cat (Class nonzero_digit_class) (Star (Class digit_class))) (decimal n @ t) c t c"
    by (auto simp: d intro: first_Cat)
  moreover have "matches (Chr CHR ''0'') (decimal n @ t) c = []"
    using x(2) by (simp add: d)
  ultimately show ?thesis by (simp add: nr_regex_def first_Alt_right)
qed

lemma no_digit_step [simp]:
  "class_step digit_class [] = None"
  "\<not> digit_class (of_char x) \<Longrightarrow> class_step digit_class (x # t) = None"
  by (simp_all add: class_step_low digit_class_low)

text \<open>An expression that matches a numeral where no digit follows.\<close>

definition number_regex :: "regex \<Rightarrow> bool" where
  "number_regex cr = (\<forall>n t c. 0 \<le> n \<longrightarrow> class_step digit_class t = None \<longrightarrow> first_match cr (decimal n @ t) c t c)"

lemma number_nr: "number_regex nr_regex"
  by (simp add: number_regex_def first_nr)

lemma first_component:
  "number_regex cr \<Longrightarrow> 0 \<le> n \<Longrightarrow> class_step digit_class t = None \<Longrightarrow>
   first_match (Group k cr) (decimal n @ t) c t ((k, decimal n) # c)"
  by (intro first_Group) (simp add: number_regex_def)

text \<open>\<open>suffix_text\<close> is what \<open>String\<close> appends to the numbers.\<close>

definition suffix_text :: "char \<Rightarrow> string list \<Rightarrow> string" where
  "suffix_text x ws = (if ws \<noteq> [] then x # Join ''.'' ws else [])"

definition group_of :: "nat \<Rightarrow> string list \<Rightarrow> captures" where
  "group_of n ws = (if ws \<noteq> [] then [(n, Join ''.'' ws)] else [])"

definition dotted_text :: "string list \<Rightarrow> bool" where
  "dotted_text ws = (ws \<noteq> [] \<longrightarrow> Join ''.'' ws \<noteq> [] \<and> runs dotted_class (Join ''.'' ws) [])"

lemma first_suffix:
  assumes "dotted_text ws" and "class_step dotted_class t = None"
    and "ws = [] \<Longrightarrow> matches (Chr x) t c = []" and "ascii x"
  shows "first_match (Opt (Cat (Chr x) (Group n (Plus (Class dotted_class))))) (suffix_text x ws @ t) c t (group_of n ws @ c)"
proof (cases "ws = []")
  case True
  have "matches (Cat (Chr x) (Group n (Plus (Class dotted_class)))) t c = []"
    by (rule matches_Cat_None [OF assms(3) [OF True]])
  then show ?thesis using True by (simp add: suffix_text_def group_of_def first_Opt_none)
next
  case False
  with assms(1) have w: "Join ''.'' ws \<noteq> []" "runs dotted_class (Join ''.'' ws) []" by (auto simp: dotted_text_def)
  have "first_match (Chr x) (suffix_text x ws @ t) c (Join ''.'' ws @ t) c"
    using False by (simp add: suffix_text_def first_Chr [OF assms(4)])
  moreover have "first_match (Group n (Plus (Class dotted_class))) (Join ''.'' ws @ t) c t ((n, Join ''.'' ws) # c)"
    by (intro first_Group first_Plus_runs w assms(2) dotted_class_plain)
  ultimately show ?thesis using False by (auto simp: group_of_def intro: first_Opt_some first_Cat)
qed

lemma first_qualifier:
  assumes "dotted_text pre" and "dotted_text bld"
  shows "first_match qualifier_regex (suffix_text CHR ''-'' pre @ suffix_text CHR ''+'' bld) c []
           (group_of 5 bld @ group_of 4 pre @ c)"
proof -
  have plus: "class_step dotted_class (CHR ''+'' # t) = None" for t
    using class_step_ascii [of "CHR ''+''" dotted_class t] dotted_class_plain(2) by (simp add: ascii_def)
  have t: "class_step dotted_class (suffix_text CHR ''+'' bld) = None"
    by (simp add: suffix_text_def plus)
  have no_dash: "matches (Chr CHR ''-'') (suffix_text CHR ''+'' bld) c = []" for c
    by (simp add: suffix_text_def)
  have "first_match (Opt (Cat (Chr CHR ''-'') (Group 4 (Plus (Class dotted_class)))))
      (suffix_text CHR ''-'' pre @ suffix_text CHR ''+'' bld) c (suffix_text CHR ''+'' bld) (group_of 4 pre @ c)"
    by (rule first_suffix [OF assms(1) t no_dash]) (simp add: ascii_def)
  moreover have "first_match (Opt (Cat (Chr CHR ''+'') (Group 5 (Plus (Class dotted_class)))))
      (suffix_text CHR ''+'' bld @ []) (group_of 4 pre @ c) [] (group_of 5 bld @ group_of 4 pre @ c)"
    by (rule first_suffix [OF assms(2)]) (simp_all add: ascii_def)
  ultimately show ?thesis by (auto simp: qualifier_regex_def intro: first_Cat)
qed

lemma first_version:
  assumes cr: "number_regex cr" and "0 \<le> a" and "0 \<le> b" and "0 \<le> p" and "dotted_text pre" and "dotted_text bld"
  shows "first_match (version_shape cr)
    (decimal a @ ''.'' @ decimal b @ ''.'' @ decimal p @ suffix_text CHR ''-'' pre @ suffix_text CHR ''+'' bld) [] []
    (group_of 5 bld @ group_of 4 pre @ [(3, decimal p), (2, decimal b), (1, decimal a)])"
proof -
  let ?q = "suffix_text CHR ''-'' pre @ suffix_text CHR ''+'' bld"
  let ?c1 = "[(1, decimal a)]" and ?c2 = "[(2, decimal b), (1, decimal a)]"
  have q: "class_step digit_class ?q = None"
    by (simp add: suffix_text_def digit_class_def)
  have dot: "class_step digit_class (''.'' @ t) = None" for t
    by (simp add: digit_class_def)
  have chr: "first_match (Chr CHR ''.'') (''.'' @ t) c t c" for t c
    using first_Chr [of "CHR ''.''" t c] by (simp add: ascii_def)
  note p = first_Cat [OF first_component [OF cr assms(4) q, of 3 ?c2] first_qualifier [OF assms(5,6)]]
  note p' = first_Opt_some [OF first_Cat [OF chr p]]
  note b = first_Cat [OF first_component [OF cr assms(3) dot, of 2 _ ?c1] p']
  note b' = first_Opt_some [OF first_Cat [OF chr b]]
  note a = first_Cat [OF first_component [OF cr assms(2) dot, of 1 _ "[]"] b']
  show ?thesis using a by (simp add: version_shape_def)
qed

section \<open>The round trip\<close>

definition wf_parts :: "regex \<Rightarrow> string list \<Rightarrow> bool" where
  "wf_parts r ws = (ws = [] \<or> MatchString r (Join ''.'' ws) \<and> (\<forall>w \<in> set ws. CHR ''.'' \<notin> set w))"

definition wf_Version :: "Version \<Rightarrow> bool" where
  "wf_Version v = (wf_parts prereleaseRegexp (prerelease v) \<and> wf_parts buildRegExp (build v))"

lemma classes_dotted: "classes_in dotted_class prereleaseRegexp" "classes_in dotted_class buildRegExp"
  by (auto simp: prereleaseRegexp_def prerelease_part_def buildRegExp_def nr_regex_def Plus_def Chr_def
      dotted_class_def identifier_class_def identifier_start_class_def digit_class_def nonzero_digit_class_def)

lemma no_empty_parts: "\<not> MatchString prereleaseRegexp []" "\<not> MatchString buildRegExp []"
  by (auto simp: MatchString_iff prereleaseRegexp_def prerelease_part_def buildRegExp_def nr_regex_def Plus_def Chr_def)

lemma wf_parts_dotted:
  "wf_parts prereleaseRegexp ws \<Longrightarrow> dotted_text ws" "wf_parts buildRegExp ws \<Longrightarrow> dotted_text ws"
  using no_empty_parts classes_dotted
  by (auto simp: wf_parts_def dotted_text_def MatchString_iff intro: in_lang_runs)

lemma wf_parts_Split:
  assumes "MatchString r s" shows "wf_parts r (Split CHR ''.'' s)"
  using assms Split_no_sep [of _ "CHR ''.''" s] by (auto simp: wf_parts_def)

lemma parse_qualifiers_wf:
  assumes "parse_qualifiers s c v = (u, None)" and "prerelease v = []" and "build v = []"
  shows "wf_Version u"
proof -
  have "wf_parts r []" for r by (simp add: wf_parts_def)
  with assms wf_parts_Split show ?thesis
    by (auto simp: parse_qualifiers_def wf_Version_def Let_def split: if_splits)
qed

lemma component_or_max_None:
  assumes "component_or_max s store k = (u, None)"
  obtains n where "getUintComponent s = Inr n" and "k (store n) = (u, None)"
  using assms by (auto simp: component_or_max_def split: sum.splits)

lemma optional_component_None:
  assumes "(if g \<noteq> [] then component_or_max g (store v) else (\<lambda>k. k v)) k = (u, None)"
  obtains n where "k (store v n) = (u, None)" | "k v = (u, None)"
  using assms by (auto split: if_splits elim: component_or_max_None)

lemma parse_wf:
  assumes "TryParseVersion s = (v, None)"
  shows "wf_Version v"
proof -
  obtain m where
    "component_or_max (group m 1) (\<lambda>n. version_of 0 0 0\<lparr>major := n\<rparr>) (\<lambda>v.
       (if group m 2 \<noteq> [] then component_or_max (group m 2) (\<lambda>n. v\<lparr>minor := n\<rparr>) else (\<lambda>k. k v)) (\<lambda>v.
         (if group m 3 \<noteq> [] then component_or_max (group m 3) (\<lambda>n. v\<lparr>patch := n\<rparr>) else (\<lambda>k. k v))
           (parse_qualifiers s m))) = (v, None)"
    using assms by (auto simp: TryParseVersion_def Let_def split: option.splits)
  then obtain a where
    "(if group m 2 \<noteq> [] then component_or_max (group m 2) (\<lambda>n. version_of 0 0 0\<lparr>major := a, minor := n\<rparr>)
      else (\<lambda>k. k (version_of 0 0 0\<lparr>major := a\<rparr>))) (\<lambda>v.
         (if group m 3 \<noteq> [] then component_or_max (group m 3) (\<lambda>n. v\<lparr>patch := n\<rparr>) else (\<lambda>k. k v))
           (parse_qualifiers s m)) = (v, None)"
    by (rule component_or_max_None)
  then obtain w where
    "(if group m 3 \<noteq> [] then component_or_max (group m 3) (\<lambda>n. w\<lparr>patch := n\<rparr>) else (\<lambda>k. k w))
           (parse_qualifiers s m) = (v, None)" and w: "prerelease w = []" "build w = []"
    by (rule optional_component_None [where store = "\<lambda>v n. v\<lparr>minor := n\<rparr>"]) (auto simp: version_of_def)
  then obtain u where "parse_qualifiers s m u = (v, None)" and "prerelease u = []" "build u = []"
    by (elim optional_component_None [where store = "\<lambda>v n. v\<lparr>patch := n\<rparr>"]) auto
  then show ?thesis by (rule parse_qualifiers_wf)
qed

lemma getUintComponent_word: "getUintComponent (decimal (uint (w :: 32 word))) = Inr w"
  using uint_lt2p [of w] by (simp add: getUintComponent_decimal)

lemma group_Cons [simp]: "group ((n, w) # c) k = (if k = n then w else group c k)"
  by (simp add: group_def)

lemma group_group_of: "group (group_of n ws @ c) k = (if k = n \<and> ws \<noteq> [] then Join ''.'' ws else group c k)"
  by (simp add: group_of_def)

lemma group_Nil [simp]: "group [] k = []"
  by (simp add: group_def)

lemma parse_qualifiers_print:
  assumes "wf_parts prereleaseRegexp pre" and "wf_parts buildRegExp bld"
    and "prerelease v = []" and "build v = []"
    and "group c 4 = (if pre \<noteq> [] then Join ''.'' pre else [])"
    and "group c 5 = (if bld \<noteq> [] then Join ''.'' bld else [])"
  shows "parse_qualifiers s c v = (v\<lparr>prerelease := pre, build := bld\<rparr>, None)"
proof -
  have ne: "Join ''.'' pre \<noteq> []" if "pre \<noteq> []" using that assms(1) wf_parts_dotted(1) by (auto simp: dotted_text_def)
  have ne': "Join ''.'' bld \<noteq> []" if "bld \<noteq> []" using that assms(2) wf_parts_dotted(2) by (auto simp: dotted_text_def)
  obtain x y z where v: "v = \<lparr>major = x, minor = y, patch = z, prerelease = [], build = []\<rparr>"
    using assms(3,4) by (cases v) auto
  have "pre \<noteq> [] \<Longrightarrow> Split CHR ''.'' (Join ''.'' pre) = pre" "bld \<noteq> [] \<Longrightarrow> Split CHR ''.'' (Join ''.'' bld) = bld"
    using assms(1,2) by (auto simp: wf_parts_def)
  moreover have "pre \<noteq> [] \<Longrightarrow> MatchString prereleaseRegexp (Join ''.'' pre)" "bld \<noteq> [] \<Longrightarrow> MatchString buildRegExp (Join ''.'' bld)"
    using assms(1,2) by (auto simp: wf_parts_def)
  ultimately show ?thesis
    using assms(5,6) ne ne' by (cases "pre = []"; cases "bld = []") (simp_all add: parse_qualifiers_def v)
qed

lemma parse_print:
  assumes "wf_Version v"
  shows "TryParseVersion (Version_String v) = (v, None)"
proof -
  have wf: "wf_parts prereleaseRegexp (prerelease v)" "wf_parts buildRegExp (build v)"
    using assms by (simp_all add: wf_Version_def)
  define c where "c = group_of 5 (build v) @ group_of 4 (prerelease v) @
      [(3, decimal (uint (patch v))), (2, decimal (uint (minor v))), (1, decimal (uint (major v)))]"
  have "Version_String v = decimal (uint (major v)) @ ''.'' @ decimal (uint (minor v)) @ ''.'' @
      decimal (uint (patch v)) @ suffix_text CHR ''-'' (prerelease v) @ suffix_text CHR ''+'' (build v)"
    by (simp add: Version_String_def suffix_text_def)
  then have m: "full_match versionRegexp (Version_String v) = Some c"
    using first_version [OF number_nr _ _ _ wf_parts_dotted(1) [OF wf(1)] wf_parts_dotted(2) [OF wf(2)],
        of "uint (major v)" "uint (minor v)" "uint (patch v)"]
    by (simp add: c_def full_match_first versionRegexp_def)
  have g: "group c (Suc 0) = decimal (uint (major v))" "group c 2 = decimal (uint (minor v))"
    "group c 3 = decimal (uint (patch v))"
    by (simp_all add: c_def group_group_of)
  have q: "parse_qualifiers s c u = (u\<lparr>prerelease := prerelease v, build := build v\<rparr>, None)"
    if "prerelease u = []" "build u = []" for s u
    by (rule parse_qualifiers_print [OF wf that]) (simp_all add: c_def group_group_of)
  show ?thesis
    by (simp add: TryParseVersion_def Let_def m g component_or_max_def getUintComponent_word q version_of_def)
qed

text \<open>C29. What the parser accepts prints to a canonical text: parsing it again succeeds with the same
  version, so printing identifies a version, and the text \<open>String\<close> gives is a fixed point. Every
  version the parser can produce has well-formed pre-release and build identifiers.\<close>

theorem version_round_trip:
  assumes "TryParseVersion s = (v, None)"
  shows "TryParseVersion (Version_String v) = (v, None) \<and> MustParse (Version_String v) = Inr v \<and> wf_Version v"
proof -
  have "wf_Version v" using assms by (rule parse_wf)
  then show ?thesis by (simp add: parse_print MustParse_def)
qed

theorem version_round_trip_witness:
  "TryParseVersion (Version_String (version_of 1 20 0)) = (version_of 1 20 0, None)"
proof -
  have "TryParseVersion ''1.20'' = (version_of 1 20 0, None)" by code_simp
  from version_round_trip [OF this] show ?thesis ..
qed

end
