(* ===== verification/Semver_Range.thy ===== *)
theory Semver_Range
  imports Semver_Text
begin

text \<open>
  Version ranges (\<open>internal/semver/version_range.go\<close>): a disjunction of conjunctions of comparators,
  its parser with the caret, tilde, hyphen and wildcard forms, its test and its printing. A failed
  parse is \<open>None\<close>, the two panics on an unknown operator are values of the sum.
\<close>

section \<open>The regular expressions\<close>

definition space_class :: "nat \<Rightarrow> bool" where
  "space_class r = (r = 9 \<or> r = 10 \<or> r = 12 \<or> r = 13 \<or> r = 32)"

definition range_class :: "nat \<Rightarrow> bool" where
  "range_class r = (dotted_class r \<or> r = of_char CHR ''+'' \<or> r = of_char CHR ''*'')"

definition operator_class :: "nat \<Rightarrow> bool" where
  "operator_class r =
     (r = of_char CHR ''~'' \<or> r = of_char CHR ''^'' \<or> r = of_char CHR ''<'' \<or> r = of_char CHR ''>'' \<or>
      r = of_char CHR ''='')"

definition wildcard_class :: "nat \<Rightarrow> bool" where
  "wildcard_class r =
     (r = of_char CHR ''x'' \<or> r = of_char CHR ''X'' \<or> r = of_char CHR ''*'' \<or> r = of_char CHR ''0'')"

definition logicalOrRegExp :: regex where
  "logicalOrRegExp = Lit ''||''"

definition whitespaceRegExp :: regex where
  "whitespaceRegExp = Plus (Class space_class)"

definition xr_regex :: regex where
  "xr_regex = Alt (Class wildcard_class) (Cat (Class nonzero_digit_class) (Star (Class digit_class)))"

definition partialRegExp :: regex where
  "partialRegExp = version_shape xr_regex"

definition hyphenRegExp :: regex where
  "hyphenRegExp =
     Cats [Star (Class space_class), Group 1 (Plus (Class range_class)), Plus (Class space_class),
           Chr CHR ''-'', Plus (Class space_class), Group 2 (Plus (Class range_class)), Star (Class space_class)]"

definition rangeRegExp :: regex where
  "rangeRegExp =
     Cats [Opt (Group 1 (Alt (Class operator_class) (Alt (Lit ''<='') (Lit ''>='')))),
           Star (Class space_class), Group 2 (Plus (Class range_class))]"

section \<open>Comparators\<close>

type_synonym comparatorOperator = string

record versionComparator =
  operator :: comparatorOperator
  operand :: Version

record VersionRange =
  alternatives :: "versionComparator list list"

definition rangeLessThan :: comparatorOperator where "rangeLessThan = ''<''"
definition rangeLessThanEqual :: comparatorOperator where "rangeLessThanEqual = ''<=''"
definition rangeEqual :: comparatorOperator where "rangeEqual = ''=''"
definition rangeGreaterThanEqual :: comparatorOperator where "rangeGreaterThanEqual = ''>=''"
definition rangeGreaterThan :: comparatorOperator where "rangeGreaterThan = ''>''"

lemmas operator_defs = rangeLessThan_def rangeLessThanEqual_def rangeEqual_def rangeGreaterThanEqual_def
  rangeGreaterThan_def

definition comparator :: "comparatorOperator \<Rightarrow> Version \<Rightarrow> versionComparator" where
  "comparator op v = \<lparr>operator = op, operand = v\<rparr>"

section \<open>Printing and testing\<close>

definition formatComparator :: "versionComparator \<Rightarrow> string" where
  "formatComparator c = operator c @ Version_String (operand c)"

definition formatAlternative :: "versionComparator list \<Rightarrow> string" where
  "formatAlternative cs = Join '' '' (map formatComparator cs)"

definition formatDisjunction :: "versionComparator list list \<Rightarrow> string" where
  "formatDisjunction alts =
     (let written = Join '' || '' (map formatAlternative alts) in if length written = 0 then ''*'' else written)"

definition VersionRange_String :: "VersionRange \<Rightarrow> string" where
  "VersionRange_String r = formatDisjunction (alternatives r)"

definition testComparator :: "versionComparator \<Rightarrow> Version option \<Rightarrow> bool go" where
  "testComparator c v =
     (let r = Version_Compare v (Some (operand c)) in
      if operator c = rangeLessThan then Inr (r < 0)
      else if operator c = rangeLessThanEqual then Inr (r \<le> 0)
      else if operator c = rangeEqual then Inr (r = 0)
      else if operator c = rangeGreaterThanEqual then Inr (r \<ge> 0)
      else if operator c = rangeGreaterThan then Inr (r > 0)
      else Inl (Panicked (''Unexpected operator: '' @ operator c)))"

fun testAlternative :: "versionComparator list \<Rightarrow> Version option \<Rightarrow> bool go" where
  "testAlternative [] v = Inr True"
| "testAlternative (c # cs) v =
     go_bind (testComparator c v) (\<lambda>ok. if \<not> ok then Inr False else testAlternative cs v)"

fun test_any :: "versionComparator list list \<Rightarrow> Version option \<Rightarrow> bool go" where
  "test_any [] v = Inr False"
| "test_any (a # as) v = go_bind (testAlternative a v) (\<lambda>ok. if ok then Inr True else test_any as v)"

definition testDisjunction :: "versionComparator list list \<Rightarrow> Version option \<Rightarrow> bool go" where
  "testDisjunction alts v = (if length alts = 0 then Inr True else test_any alts v)"

definition VersionRange_Test :: "VersionRange \<Rightarrow> Version option \<Rightarrow> bool go" where
  "VersionRange_Test r v = testDisjunction (alternatives r) v"

section \<open>Partial versions\<close>

definition isWildcard :: "string \<Rightarrow> bool" where
  "isWildcard s = (s = ''*'' \<or> s = ''x'' \<or> s = ''X'')"

record partialVersion =
  version :: Version
  majorStr :: string
  minorStr :: string
  patchStr :: string

text \<open>\<open>partial_numbers\<close> is the nested sequence of conversions in \<open>parsePartial\<close>, each guarded by the wildcards before it.\<close>

definition partial_numbers :: "string \<Rightarrow> string \<Rightarrow> string \<Rightarrow> (32 word \<times> 32 word \<times> 32 word) option" where
  "partial_numbers majorS minorS patchS =
     (if isWildcard majorS then Some (0, 0, 0)
      else case getUintComponent majorS of
        Inl _ \<Rightarrow> None
      | Inr majorNumeric \<Rightarrow>
          if isWildcard minorS then Some (majorNumeric, 0, 0)
          else case getUintComponent minorS of
            Inl _ \<Rightarrow> None
          | Inr minorNumeric \<Rightarrow>
              if isWildcard patchS then Some (majorNumeric, minorNumeric, 0)
              else case getUintComponent patchS of
                Inl _ \<Rightarrow> None
              | Inr patchNumeric \<Rightarrow> Some (majorNumeric, minorNumeric, patchNumeric))"

definition parsePartial :: "string \<Rightarrow> partialVersion option" where
  "parsePartial s =
     (case full_match partialRegExp s of
        None \<Rightarrow> None
      | Some m \<Rightarrow>
          let majorS = group m 1;
              minorS = (if group m 2 = [] then ''*'' else group m 2);
              patchS = (if group m 3 = [] then ''*'' else group m 3)
          in (case partial_numbers majorS minorS patchS of
                None \<Rightarrow> None
              | Some (a, b, c) \<Rightarrow>
                  Some \<lparr>version =
                          \<lparr>major = a, minor = b, patch = c,
                           prerelease = (if group m 4 \<noteq> [] then Split CHR ''.'' (group m 4) else []),
                           build = (if group m 5 \<noteq> [] then Split CHR ''.'' (group m 5) else [])\<rparr>,
                        majorStr = majorS, minorStr = minorS, patchStr = patchS\<rparr>))"

section \<open>Comparators from texts\<close>

definition parseHyphen :: "string \<Rightarrow> string \<Rightarrow> versionComparator list option" where
  "parseHyphen left right =
     (case parsePartial left of
        None \<Rightarrow> None
      | Some leftResult \<Rightarrow>
          (case parsePartial right of
             None \<Rightarrow> None
           | Some rightResult \<Rightarrow>
               Some
                 ((if \<not> isWildcard (majorStr leftResult)
                   then [comparator rangeGreaterThanEqual (version leftResult)] else []) @
                  (if \<not> isWildcard (majorStr rightResult)
                   then
                     let v = version rightResult in
                     if isWildcard (minorStr rightResult) then [comparator rangeLessThan (incrementMajor v)]
                     else if isWildcard (patchStr rightResult) then [comparator rangeLessThan (incrementMinor v)]
                     else [comparator rangeLessThanEqual v]
                   else []))))"

definition tilde_comparators :: "partialVersion \<Rightarrow> versionComparator list" where
  "tilde_comparators p =
     [comparator rangeGreaterThanEqual (version p),
      comparator rangeLessThan
        (if isWildcard (minorStr p) then incrementMajor (version p) else incrementMinor (version p))]"

definition caret_comparators :: "partialVersion \<Rightarrow> versionComparator list" where
  "caret_comparators p =
     [comparator rangeGreaterThanEqual (version p),
      comparator rangeLessThan
        (if major (version p) > 0 \<or> isWildcard (minorStr p) then incrementMajor (version p)
         else if minor (version p) > 0 \<or> isWildcard (patchStr p) then incrementMinor (version p)
         else incrementPatch (version p))]"

definition below_comparators :: "comparatorOperator \<Rightarrow> partialVersion \<Rightarrow> versionComparator list" where
  \<comment> \<open>the cases \<open><\<close> and \<open>>=\<close>\<close>
  "below_comparators op p =
     [comparator op
        (if isWildcard (minorStr p) \<or> isWildcard (patchStr p)
         then (version p)\<lparr>prerelease := [''0'']\<rparr> else version p)]"

definition upto_comparators :: "comparatorOperator \<Rightarrow> partialVersion \<Rightarrow> versionComparator list" where
  \<comment> \<open>the cases \<open><=\<close> and \<open>>\<close>\<close>
  "upto_comparators op p =
     (let turned = (if op = rangeLessThanEqual then rangeLessThan else rangeGreaterThanEqual) in
      if isWildcard (minorStr p)
      then [comparator turned ((incrementMajor (version p))\<lparr>prerelease := [''0'']\<rparr>)]
      else if isWildcard (patchStr p)
      then [comparator turned ((incrementMinor (version p))\<lparr>prerelease := [''0'']\<rparr>)]
      else [comparator op (version p)])"

definition equal_comparators :: "partialVersion \<Rightarrow> versionComparator list" where
  "equal_comparators p =
     (if isWildcard (minorStr p) \<or> isWildcard (patchStr p)
      then
        let firstVersion = (version p)\<lparr>prerelease := [''0'']\<rparr>;
            secondVersion =
              (if isWildcard (minorStr p) then incrementMajor (version p) else incrementMinor (version p))
                \<lparr>prerelease := [''0'']\<rparr>
        in [comparator rangeGreaterThanEqual firstVersion, comparator rangeLessThan secondVersion]
      else [comparator rangeEqual (version p)])"

definition parseComparator :: "string \<Rightarrow> string \<Rightarrow> versionComparator list option go" where
  "parseComparator op s =
     (case parsePartial s of
        None \<Rightarrow> Inr None
      | Some p \<Rightarrow>
          if \<not> isWildcard (majorStr p) then
            if op = ''~'' then Inr (Some (tilde_comparators p))
            else if op = ''^'' then Inr (Some (caret_comparators p))
            else if op = ''<'' \<or> op = ''>='' then Inr (Some (below_comparators op p))
            else if op = ''<='' \<or> op = ''>'' then Inr (Some (upto_comparators op p))
            else if op = ''='' \<or> op = [] then Inr (Some (equal_comparators p))
            else Inl (Panicked (''Unexpected operator: '' @ op))
          else if op = ''<'' \<or> op = ''>'' then Inr (Some [comparator rangeLessThan versionZero])
          else Inr (Some []))"

section \<open>Ranges from texts\<close>

fun parse_simples :: "string list \<Rightarrow> versionComparator list \<Rightarrow> versionComparator list option go" where
  "parse_simples [] comparators = Inr (Some comparators)"
| "parse_simples (simple # rest) comparators =
     (case full_match rangeRegExp (TrimSpace simple) of
        None \<Rightarrow> Inr None
      | Some m \<Rightarrow>
          go_bind (parseComparator (group m 1) (group m 2)) (\<lambda>r.
            case r of None \<Rightarrow> Inr None | Some parsed \<Rightarrow> parse_simples rest (comparators @ parsed)))"

definition parse_range :: "string \<Rightarrow> versionComparator list option go" where
  "parse_range r =
     (case full_match hyphenRegExp r of
        Some m \<Rightarrow> Inr (parseHyphen (group m 1) (group m 2))
      | None \<Rightarrow> parse_simples (Regexp_Split whitespaceRegExp r) [])"

fun parse_ranges :: "string list \<Rightarrow> versionComparator list list \<Rightarrow> versionComparator list list option go" where
  "parse_ranges [] alts = Inr (Some alts)"
| "parse_ranges (r # rest) alts =
     (let r = TrimSpace r in
      if r = [] then parse_ranges rest alts
      else
        go_bind (parse_range r) (\<lambda>x.
          case x of None \<Rightarrow> Inr None | Some comparators \<Rightarrow> parse_ranges rest (alts @ [comparators])))"

definition parseAlternatives :: "string \<Rightarrow> versionComparator list list option go" where
  "parseAlternatives s = parse_ranges (Regexp_Split logicalOrRegExp (TrimSpace s)) []"

definition TryParseVersionRange :: "string \<Rightarrow> (VersionRange \<times> bool) go" where
  "TryParseVersionRange s =
     go_bind (parseAlternatives s) (\<lambda>r.
       case r of None \<Rightarrow> Inr (\<lparr>alternatives = []\<rparr>, False) | Some alts \<Rightarrow> Inr (\<lparr>alternatives = alts\<rparr>, True))"

end
