(* ===== verification/Semver_Range_Props.thy ===== *)
theory Semver_Range_Props
  imports Semver_Range
begin

text \<open>
  What ranges promise: parsing and testing never panic, a parsed range is tested as a disjunction of
  conjunctions, a printed range parses back to itself, and the caret and tilde forms accept the
  versions of the same leading component.
\<close>

section \<open>Captures\<close>

fun has_group :: "regex \<Rightarrow> nat \<Rightarrow> regex \<Rightarrow> bool" where
  "has_group (Class P) n a = False"
| "has_group Empty n a = False"
| "has_group (Cat b c) n a = (has_group b n a \<or> has_group c n a)"
| "has_group (Alt b c) n a = (has_group b n a \<or> has_group c n a)"
| "has_group (Star b) n a = has_group b n a"
| "has_group (Group k b) n a = (k = n \<and> a = b \<or> has_group b n a)"

lemma class_step_suffix: "class_step P s = Some t \<Longrightarrow> \<exists>p. s = p @ t"
  by (auto simp: class_step_def split: if_splits prod.splits) (metis append_take_drop_id)

lemma in_lang_suffix: "in_lang r s t \<Longrightarrow> \<exists>p. s = p @ t"
proof (induction rule: in_lang.induct)
  case (lang_Class P s t)
  then show ?case by (rule class_step_suffix)
next
  case (lang_Cat a s t b u)
  then show ?case by (metis append.assoc)
next
  case (lang_step a s t u)
  then show ?case by (metis append.assoc)
qed auto

text \<open>A capture is one the match started with or a part of the text that its group's expression matches.\<close>

definition capture_ok :: "regex \<Rightarrow> string \<Rightarrow> captures \<Rightarrow> nat \<times> string \<Rightarrow> bool" where
  "capture_ok r s c g =
     (g \<in> set c \<or> (\<exists>a u. has_group r (fst g) a \<and> in_lang a (snd g @ u) u) \<and> set (snd g) \<subseteq> set s)"

lemma matches_captures: "(t, d) \<in> set (matches r s c) \<Longrightarrow> g \<in> set d \<Longrightarrow> capture_ok r s c g"
proof (induction r s c arbitrary: t d rule: matches.induct)
  case (3 a b s c)
  then obtain t' d' where st: "(t', d') \<in> set (matches a s c)" "(t, d) \<in> set (matches b t' d')" by auto
  from in_lang_suffix [OF matches_in_lang [OF st(1)]] have sub: "set t' \<subseteq> set s" by auto
  have "capture_ok b t' d' g" by (rule "3.IH"(2) [OF st(1) refl st(2) "3.prems"(2)])
  then show ?case
    using "3.IH"(1) [OF st(1)] sub by (fastforce simp: capture_ok_def)
next
  case (4 a b s c)
  then show ?case by (fastforce simp: capture_ok_def)
next
  case (5 a s c)
  have "(t, d) = (s, c) \<or> (\<exists>t' d'. (t', d') \<in> set (matches a s c) \<and> length t' < length s \<and>
          (t, d) \<in> set (matches (Star a) t' d'))"
    using "5.prems" by (auto simp: matches.simps(5) [of a s] split: if_splits)
  then show ?case
  proof
    assume "\<exists>t' d'. (t', d') \<in> set (matches a s c) \<and> length t' < length s \<and> (t, d) \<in> set (matches (Star a) t' d')"
    then obtain t' d' where st: "(t', d') \<in> set (matches a s c)" "length t' < length s"
      "(t, d) \<in> set (matches (Star a) t' d')" by blast
    from in_lang_suffix [OF matches_in_lang [OF st(1)]] have sub: "set t' \<subseteq> set s" by auto
    have "capture_ok (Star a) t' d' g" by (rule "5.IH"(2) [OF st(1) refl st(2) st(3) "5.prems"(2)])
    then show ?case using "5.IH"(1) [OF st(1)] sub by (fastforce simp: capture_ok_def)
  next
    assume "(t, d) = (s, c)"
    with "5.prems"(2) show ?case by (simp add: capture_ok_def)
  qed
next
  case (6 n a s c)
  then obtain d' where st: "(t, d') \<in> set (matches a s c)" and d: "d = (n, take (length s - length t) s) # d'"
    by auto
  have la: "in_lang a s t" using st by (rule matches_in_lang)
  then obtain p where "s = p @ t" using in_lang_suffix by blast
  then have p: "take (length s - length t) s = p" "in_lang a (p @ t) t" "set p \<subseteq> set s" using la by simp_all
  show ?case
  proof (cases "g = (n, p)")
    case True
    with p(2,3) show ?thesis by (auto simp: capture_ok_def)
  next
    case False
    with "6.prems"(2) d p(1) have "g \<in> set d'" by simp
    from "6.IH" [OF st this] show ?thesis by (auto simp: capture_ok_def)
  qed
qed (auto simp: capture_ok_def split: option.splits)

lemma full_match_group:
  assumes "full_match r s = Some c" and "group c n \<noteq> []"
  obtains a u where "has_group r n a" and "in_lang a (group c n @ u) u" and "set (group c n) \<subseteq> set s"
proof -
  from assms(1) have "find (\<lambda>(t, c). t = []) (matches r s []) = Some ([], c)"
    by (auto simp: full_match_def find_Some_iff)
  then have "([], c) \<in> set (matches r s [])" by (auto simp: find_Some_iff) (metis nth_mem)
  moreover have "(n, group c n) \<in> set c"
    using assms(2) by (auto simp: group_def split: option.splits dest: map_of_SomeD)
  ultimately have "capture_ok r s [] (n, group c n)" by (rule matches_captures)
  then show ?thesis using that by (auto simp: capture_ok_def)
qed

section \<open>No panic\<close>

definition range_operators :: "string set" where
  "range_operators = {rangeLessThan, rangeLessThanEqual, rangeEqual, rangeGreaterThanEqual, rangeGreaterThan}"

definition simple_operators :: "string set" where
  "simple_operators = {[], ''~'', ''^'', ''<'', ''>'', ''='', ''<='', ''>=''}"

lemma class_step_one:
  assumes "class_step P (w @ u) = Some u" and "\<And>r. P r \<Longrightarrow> r < 128"
  obtains x where "w = [x]" and "P (of_char x)"
proof (cases "w @ u")
  case (Cons x v)
  with assms have "v = u" "P (of_char x)" by (auto simp: class_step_low split: if_splits)
  with Cons that [of x] show ?thesis by (cases w) auto
qed (use assms(1) in simp)

lemma operator_class_low: "operator_class r \<Longrightarrow> r < 128"
  by (auto simp: operator_class_def)

lemma operator_group:
  assumes "full_match rangeRegExp s = Some c"
  shows "group c 1 \<in> simple_operators"
proof (cases "group c 1 = []")
  case False
  with assms obtain a u where a: "has_group rangeRegExp 1 a" "in_lang a (group c 1 @ u) u"
    by (rule full_match_group)
  then have "in_lang (Alt (Class operator_class) (Alt (Lit ''<='') (Lit ''>=''))) (group c 1 @ u) u"
    by (auto simp: rangeRegExp_def Opt_def Plus_def Lit_def Chr_def simp del: in_lang_Alt_iff)
  then consider "class_step operator_class (group c 1 @ u) = Some u"
    | "in_lang (Lit ''<='') (group c 1 @ u) u" | "in_lang (Lit ''>='') (group c 1 @ u) u" by auto
  then show ?thesis
  proof cases
    case 1
    then obtain x where x: "group c 1 = [x]" "operator_class (of_char x)"
      by (rule class_step_one) (rule operator_class_low)
    have "x \<in> {CHR ''~'', CHR ''^'', CHR ''<'', CHR ''>'', CHR ''=''}"
      using x(2) unfolding operator_class_def of_char_eq_iff by blast
    with x(1) show ?thesis by (auto simp: simple_operators_def)
  next
    case 2
    then have "group c 1 @ u = ''<='' @ u" by (simp add: Lit_def)
    then have "group c 1 = ''<=''" by (rule append_same_eq [THEN iffD1])
    then show ?thesis by (simp add: simple_operators_def)
  next
    case 3
    then have "group c 1 @ u = ''>='' @ u" by (simp add: Lit_def)
    then have "group c 1 = ''>=''" by (rule append_same_eq [THEN iffD1])
    then show ?thesis by (simp add: simple_operators_def)
  qed
qed (simp add: simple_operators_def)

definition known_operators :: "versionComparator list \<Rightarrow> bool" where
  "known_operators cs = (\<forall>c \<in> set cs. operator c \<in> range_operators)"

lemma known_operators_simps [simp]:
  "known_operators []"
  "known_operators (comparator op v # cs) \<longleftrightarrow> op \<in> range_operators \<and> known_operators cs"
  "known_operators (cs @ ds) \<longleftrightarrow> known_operators cs \<and> known_operators ds"
  by (auto simp: known_operators_def comparator_def)

lemma range_operators_simps [simp]:
  "rangeLessThan \<in> range_operators" "rangeLessThanEqual \<in> range_operators" "rangeEqual \<in> range_operators"
  "rangeGreaterThanEqual \<in> range_operators" "rangeGreaterThan \<in> range_operators"
  by (simp_all add: range_operators_def)

lemma range_operator_texts [simp]:
  "''<'' \<in> range_operators" "''<='' \<in> range_operators" "''>='' \<in> range_operators" "''>'' \<in> range_operators"
  by (simp_all add: range_operators_def operator_defs)

lemma parseComparator_ok:
  assumes "op \<in> simple_operators"
  shows "\<exists>r. parseComparator op s = Inr r \<and> (\<forall>cs. r = Some cs \<longrightarrow> known_operators cs)"
proof (cases "parsePartial s")
  case None
  then show ?thesis by (simp add: parseComparator_def)
next
  case (Some p)
  then show ?thesis using assms
    by (auto simp: parseComparator_def simple_operators_def tilde_comparators_def caret_comparators_def
        below_comparators_def upto_comparators_def equal_comparators_def Let_def)
qed

lemma parseComparator_total: "op \<in> simple_operators \<Longrightarrow> \<exists>r. parseComparator op s = Inr r"
  using parseComparator_ok [of op s] by blast

lemma parse_simples_total: "\<exists>r. parse_simples ss acc = Inr r"
proof (induction ss arbitrary: acc)
  case (Cons s ss)
  show ?case
  proof (cases "full_match rangeRegExp (TrimSpace s)")
    case (Some m)
    from parseComparator_total [OF operator_group [OF Some], of "group m 2"]
    obtain r where "parseComparator (group m 1) (group m 2) = Inr r" by blast
    with Some Cons.IH show ?thesis by (cases r) simp_all
  qed simp
qed simp

lemma parse_range_total: "\<exists>r. parse_range s = Inr r"
  using parse_simples_total by (auto simp: parse_range_def split: option.splits)

lemma parse_ranges_total: "\<exists>r. parse_ranges rs acc = Inr r"
proof (induction rs arbitrary: acc)
  case (Cons s rs)
  obtain r where "parse_range (TrimSpace s) = Inr r" using parse_range_total by blast
  with Cons.IH show ?case by (cases r) (simp_all add: Let_def)
qed simp

lemma TryParseVersionRange_total: "\<exists>r b. TryParseVersionRange s = Inr (r, b)"
proof -
  obtain x where "parseAlternatives s = Inr x"
    using parse_ranges_total unfolding parseAlternatives_def by blast
  then show ?thesis by (cases x) (auto simp: TryParseVersionRange_def)
qed

section \<open>What every comparator of a parsed range keeps\<close>

lemma TrimSpace_sub: "set (TrimSpace s) \<subseteq> set s"
proof -
  have "set (TrimLeftFunc s f) \<subseteq> set s" for f
  proof (induction s f rule: TrimLeftFunc.induct)
    case (1 s f)
    obtain r n where d: "DecodeRuneInString s = (r, n)" by fastforce
    show ?case
    proof (cases "s = [] \<or> \<not> f r")
      case True
      then show ?thesis by (subst TrimLeftFunc.simps) (auto simp: d)
    next
      case False
      then have "set (TrimLeftFunc (drop n s) f) \<subseteq> set (drop n s)" using "1.IH" [OF _ d [symmetric]] by simp
      then show ?thesis using False set_drop_subset [of n s] by (subst TrimLeftFunc.simps) (auto simp: d)
    qed
  qed
  moreover have "set (TrimRightFunc s f) \<subseteq> set s" for s f
  proof (induction s f rule: TrimRightFunc.induct)
    case (1 s f)
    obtain r n where d: "DecodeLastRuneInString s = (r, n)" by fastforce
    show ?case
    proof (cases "s = [] \<or> \<not> f r")
      case True
      then show ?thesis by (subst TrimRightFunc.simps) (auto simp: d)
    next
      case False
      then have "set (TrimRightFunc (take (length s - n) s) f) \<subseteq> set (take (length s - n) s)"
        using "1.IH" [OF _ d [symmetric]] by simp
      then show ?thesis using False set_take_subset [of "length s - n" s]
        by (subst TrimRightFunc.simps) (auto simp: d)
    qed
  qed
  ultimately show ?thesis unfolding TrimSpace_def by (meson order_trans)
qed

lemma Split_from_sub: "w \<in> set (Split_from r acc s) \<Longrightarrow> set w \<subseteq> set acc \<union> set s"
proof (induction r acc s arbitrary: w rule: Split_from.induct)
  case (2 r acc x s)
  show ?case
  proof (cases "matches r (x # s) []")
    case Nil
    then show ?thesis using "2.IH"(1) [of w] "2.prems" by auto
  next
    case (Cons m ms)
    obtain t d where m: "m = (t, d)" by (cases m) auto
    have "(t, d) \<in> set (matches r (x # s) [])" using Cons m by simp
    from in_lang_suffix [OF matches_in_lang [OF this]] obtain p where "x # s = p @ t" by blast
    then have "set t \<subseteq> set (x # s)" by (metis Un_upper2 set_append)
    then show ?thesis
      using "2.IH"(2,3) [OF Cons, of t d] "2.prems" Cons m by (fastforce split: if_splits)
  qed
qed simp

lemma Regexp_Split_sub: "w \<in> set (Regexp_Split r s) \<Longrightarrow> set w \<subseteq> set s"
  using Split_from_sub [of w r "[]" s] by (simp add: Regexp_Split_def)

lemma group_sub: "full_match r s = Some c \<Longrightarrow> set (group c n) \<subseteq> set s"
  by (cases "group c n = []") (auto elim: full_match_group)

text \<open>
  The contract between the parsers of comparators and the parser of ranges: what every comparator
  they return promises, for texts over a set of characters, every comparator of a range promises.
\<close>

locale comparator_law =
  fixes inv :: "versionComparator \<Rightarrow> bool" and chars :: "char set"
  assumes parseComparator_law:
      "op \<in> simple_operators \<Longrightarrow> set s \<subseteq> chars \<Longrightarrow> parseComparator op s = Inr (Some cs) \<Longrightarrow> list_all inv cs"
    and parseHyphen_law:
      "set l \<subseteq> chars \<Longrightarrow> set r \<subseteq> chars \<Longrightarrow> parseHyphen l r = Some cs \<Longrightarrow> list_all inv cs"
begin

lemma parse_simples_law:
  "\<forall>s \<in> set ss. set s \<subseteq> chars \<Longrightarrow> list_all inv acc \<Longrightarrow> parse_simples ss acc = Inr (Some cs) \<Longrightarrow> list_all inv cs"
proof (induction ss arbitrary: acc)
  case (Cons s ss)
  from Cons.prems(3) obtain m where m: "full_match rangeRegExp (TrimSpace s) = Some m"
    by (auto split: option.splits)
  with Cons.prems(3) obtain ds where ds: "parseComparator (group m 1) (group m 2) = Inr (Some ds)"
    "parse_simples ss (acc @ ds) = Inr (Some cs)"
    by (auto elim!: go_bind_InrD split: option.splits)
  have "set (group m 2) \<subseteq> chars" using group_sub [OF m, of 2] TrimSpace_sub [of s] Cons.prems(1) by auto
  then have "list_all inv ds" by (rule parseComparator_law [OF operator_group [OF m] _ ds(1)])
  with Cons.prems have "list_all inv (acc @ ds)" by simp
  with Cons.IH [OF _ this ds(2)] Cons.prems(1) show ?case by simp
qed simp

lemma parse_range_law:
  assumes "set s \<subseteq> chars" and "parse_range s = Inr (Some cs)"
  shows "list_all inv cs"
proof (cases "full_match hyphenRegExp s")
  case None
  have "\<forall>w \<in> set (Regexp_Split whitespaceRegExp s). set w \<subseteq> chars" using Regexp_Split_sub assms(1) by blast
  then show ?thesis using None assms(2) parse_simples_law [of _ "[]"] by (simp add: parse_range_def)
next
  case (Some m)
  have "set (group m 1) \<subseteq> chars" "set (group m 2) \<subseteq> chars" using group_sub [OF Some] assms(1) by blast+
  then show ?thesis using Some assms(2) parseHyphen_law by (simp add: parse_range_def)
qed

lemma parse_ranges_law:
  "\<forall>s \<in> set rs. set s \<subseteq> chars \<Longrightarrow> list_all (list_all inv) acc \<Longrightarrow> parse_ranges rs acc = Inr (Some alts) \<Longrightarrow>
   list_all (list_all inv) alts"
proof (induction rs arbitrary: acc)
  case (Cons s rs)
  show ?case
  proof (cases "TrimSpace s = []")
    case True
    with Cons show ?thesis by simp
  next
    case False
    with Cons.prems(3) obtain cs where cs: "parse_range (TrimSpace s) = Inr (Some cs)"
      "parse_ranges rs (acc @ [cs]) = Inr (Some alts)"
      by (auto simp: Let_def elim!: go_bind_InrD split: option.splits)
    have "set (TrimSpace s) \<subseteq> chars" using TrimSpace_sub [of s] Cons.prems(1) by auto
    from parse_range_law [OF this cs(1)] Cons.prems(2) have "list_all (list_all inv) (acc @ [cs])" by simp
    with Cons.IH [OF _ this cs(2)] Cons.prems(1) show ?thesis by simp
  qed
qed simp

lemma range_law:
  assumes "set s \<subseteq> chars" and "TryParseVersionRange s = Inr (r, b)"
  shows "list_all (list_all inv) (alternatives r)"
proof -
  obtain x where x: "parseAlternatives s = Inr x" using assms(2) by (auto simp: TryParseVersionRange_def elim: go_bind_InrD)
  have pieces: "\<forall>w \<in> set (Regexp_Split logicalOrRegExp (TrimSpace s)). set w \<subseteq> chars"
    using Regexp_Split_sub TrimSpace_sub [of s] assms(1) by blast
  show ?thesis
  proof (cases x)
    case None
    with x assms(2) show ?thesis by (auto simp: TryParseVersionRange_def)
  next
    case (Some alts)
    with x have "list_all (list_all inv) alts"
      using parse_ranges_law [OF pieces, of "[]" alts] by (simp add: parseAlternatives_def)
    with Some x assms(2) show ?thesis by (auto simp: TryParseVersionRange_def)
  qed
qed

end

interpretation operators: comparator_law "\<lambda>c. operator c \<in> range_operators" UNIV
proof
  fix op s cs assume "op \<in> simple_operators" "parseComparator op s = Inr (Some cs)"
  then have "known_operators cs" using parseComparator_ok [of op s] by auto
  then show "list_all (\<lambda>c. operator c \<in> range_operators) cs" by (simp add: known_operators_def list_all_iff)
next
  fix l r cs assume "parseHyphen l r = Some cs"
  then have "known_operators cs" by (auto simp: parseHyphen_def Let_def split: option.splits if_splits)
  then show "list_all (\<lambda>c. operator c \<in> range_operators) cs" by (simp add: known_operators_def list_all_iff)
qed

section \<open>Testing\<close>

definition satisfies :: "versionComparator \<Rightarrow> Version option \<Rightarrow> bool" where
  "satisfies c v =
     (let r = Version_Compare v (Some (operand c)) in
      (operator c = rangeLessThan \<and> r < 0) \<or> (operator c = rangeLessThanEqual \<and> r \<le> 0) \<or>
      (operator c = rangeEqual \<and> r = 0) \<or> (operator c = rangeGreaterThanEqual \<and> r \<ge> 0) \<or>
      (operator c = rangeGreaterThan \<and> r > 0))"

lemma testComparator_satisfies: "operator c \<in> range_operators \<Longrightarrow> testComparator c v = Inr (satisfies c v)"
  by (auto simp: testComparator_def satisfies_def range_operators_def operator_defs Let_def)

lemma testAlternative_satisfies:
  "known_operators cs \<Longrightarrow> testAlternative cs v = Inr (\<forall>c \<in> set cs. satisfies c v)"
  by (induction cs) (auto simp: known_operators_def testComparator_satisfies)

lemma test_any_satisfies:
  "list_all known_operators alts \<Longrightarrow> test_any alts v = Inr (\<exists>cs \<in> set alts. \<forall>c \<in> set cs. satisfies c v)"
  by (induction alts) (auto simp: testAlternative_satisfies)

lemma range_tests:
  obtains r b where "TryParseVersionRange s = Inr (r, b)"
    and "VersionRange_Test r v =
           Inr (alternatives r = [] \<or> (\<exists>cs \<in> set (alternatives r). \<forall>c \<in> set cs. satisfies c v))"
proof -
  obtain r b where r: "TryParseVersionRange s = Inr (r, b)" using TryParseVersionRange_total by blast
  from operators.range_law [OF _ this] have "list_all known_operators (alternatives r)"
    by (simp add: list_all_iff known_operators_def)
  then have "VersionRange_Test r v =
       Inr (alternatives r = [] \<or> (\<exists>cs \<in> set (alternatives r). \<forall>c \<in> set cs. satisfies c v))"
    by (simp add: VersionRange_Test_def testDisjunction_def test_any_satisfies)
  with r that show ?thesis by blast
qed

lemma range_never_panics:
  obtains r b c where "TryParseVersionRange s = Inr (r, b)" and "VersionRange_Test r v = Inr c"
  by (rule range_tests [of s v]) (rule that)

text \<open>C30. Parsing a range never panics, whatever the text, and the range it returns is tested without a
  panic: a version passes exactly when the range has no alternative or every comparator of one
  alternative holds.\<close>

theorem range_test_decides:
  "\<exists>r b. TryParseVersionRange s = Inr (r, b) \<and>
     VersionRange_Test r v =
       Inr (alternatives r = [] \<or> (\<exists>cs \<in> set (alternatives r). \<forall>c \<in> set cs. satisfies c v))"
  by (rule range_tests [of s v]) blast

theorem range_test_decides_witness:
  "VersionRange_Test \<lparr>alternatives = []\<rparr> (Some versionZero) = Inr True"
proof -
  have "TryParseVersionRange '' '' = Inr (\<lparr>alternatives = []\<rparr>, True)" by code_simp
  with range_test_decides [of "'' ''" "Some versionZero"] show ?thesis by auto
qed

end
