(* ===== verification/Semver_Range_Text.thy ===== *)
theory Semver_Range_Text
  imports Semver_Range_Props
begin

text \<open>
  Printing and parsing of ranges. A range that came from an ASCII text prints to a text that parses
  back to the same range.
\<close>

section \<open>Operands\<close>

definition plain_char :: "char \<Rightarrow> bool" where
  "plain_char x = (ascii x \<and> range_class (of_char x))"

definition plain_text :: "string \<Rightarrow> bool" where
  "plain_text w = (w \<noteq> [] \<and> (\<forall>x \<in> set w. plain_char x))"

definition wf_dotted :: "string list \<Rightarrow> bool" where
  "wf_dotted ws =
     (ws \<noteq> [] \<longrightarrow> Join ''.'' ws \<noteq> [] \<and>
      (\<forall>x \<in> set (Join ''.'' ws). ascii x \<and> dotted_class (of_char x)) \<and> (\<forall>w \<in> set ws. CHR ''.'' \<notin> set w))"

definition wf_operand :: "Version \<Rightarrow> bool" where
  "wf_operand v = (wf_dotted (prerelease v) \<and> wf_dotted (build v))"

lemma runs_class: "\<forall>x \<in> set w. ascii x \<and> P (of_char x) \<Longrightarrow> runs P w []"
proof (induction w)
  case Nil
  show ?case by (rule runs_refl)
next
  case (Cons x w)
  then have "class_step P (x # w) = Some w" "runs P w []" by (simp_all add: class_step_ascii)
  then show ?case by (rule runs_step)
qed

lemma wf_dotted_text: "wf_dotted ws \<Longrightarrow> dotted_text ws"
  by (auto simp: wf_dotted_def dotted_text_def intro: runs_class)

lemma digit_plain: "digit_class (of_char x) \<Longrightarrow> plain_char x"
  by (auto simp: plain_char_def ascii_def range_class_def dotted_class_def identifier_class_def digit_class_def)

lemma Version_String_plain:
  assumes "wf_operand v"
  shows "plain_text (Version_String v)"
proof -
  have d: "\<forall>x \<in> set (decimal (uint w)). plain_char x" for w :: "32 word"
    using decimal_digits [of "uint w"] digit_plain by simp
  have q: "plain_char CHR ''.''" "plain_char CHR ''-''" "plain_char CHR ''+''"
    by (simp_all add: plain_char_def ascii_def range_class_def dotted_class_def identifier_class_def)
  have s: "\<forall>x \<in> set (Join ''.'' ws). plain_char x" if "wf_dotted ws" "ws \<noteq> []" for ws
    using that by (auto simp: wf_dotted_def plain_char_def range_class_def)
  show ?thesis
    using assms d q s [of "prerelease v"] s [of "build v"]
    by (auto simp: plain_text_def Version_String_def wf_operand_def)
qed

lemma first_xr: "number_regex xr_regex"
  unfolding number_regex_def
proof (intro allI impI)
  fix n :: int and t c
  assume n: "0 \<le> n" and t: "class_step digit_class t = None"
  show "first_match xr_regex (decimal n @ t) c t c"
  proof (cases "n = 0")
    case True
    have "first_match (Class wildcard_class) (decimal n @ t) c t c"
      using True by (intro first_Class) (simp add: decimal_0 class_step_ascii ascii_def wildcard_class_def)
    then show ?thesis by (simp add: xr_regex_def first_Alt_left)
  next
    case False
    with n have n0: "0 < n" by simp
    obtain x w where d: "decimal n = x # w" using decimal_nonempty by (cases "decimal n") auto
    have x: "digit_class (of_char x)" "x \<noteq> CHR ''0''" using decimal_digits [OF n] decimal_hd [OF n0] by (auto simp: d)
    have "(of_char x :: nat) \<noteq> 48" using x(2) of_char_eq_iff [of x "CHR ''0''", where 'a = nat] by simp
    then have "\<not> wildcard_class (of_char x)" using x(1) by (auto simp: wildcard_class_def digit_class_def)
    moreover have "ascii x" using x(1) by (simp add: ascii_def digit_class_def)
    ultimately have none: "matches (Class wildcard_class) (decimal n @ t) c = []"
      by (simp add: d class_step_ascii)
    have "matches (Chr CHR ''0'') (decimal n @ t) c = []" using x(2) by (simp add: d)
    with first_nr [OF n t, of c]
    have "first_match (Cat (Class nonzero_digit_class) (Star (Class digit_class))) (decimal n @ t) c t c"
      unfolding nr_regex_def first_match_def by (simp del: matches.simps(1) matches.simps(3))
    then show ?thesis using none by (simp add: xr_regex_def first_Alt_right)
  qed
qed

lemma decimal_not_wildcard: "0 \<le> n \<Longrightarrow> \<not> isWildcard (decimal n)"
  using decimal_digits [of n] by (auto simp: isWildcard_def digit_class_def)

lemma Split_Join_dotted: "wf_dotted ws \<Longrightarrow> ws \<noteq> [] \<Longrightarrow> Split CHR ''.'' (Join ''.'' ws) = ws"
  by (simp add: wf_dotted_def)

lemma parsePartial_print:
  assumes "wf_operand v"
  shows "parsePartial (Version_String v) =
    Some \<lparr>version = v, majorStr = decimal (uint (major v)), minorStr = decimal (uint (minor v)),
          patchStr = decimal (uint (patch v))\<rparr>"
proof -
  have wf: "wf_dotted (prerelease v)" "wf_dotted (build v)" using assms by (simp_all add: wf_operand_def)
  define c where "c = group_of 5 (build v) @ group_of 4 (prerelease v) @
      [(3, decimal (uint (patch v))), (2, decimal (uint (minor v))), (1, decimal (uint (major v)))]"
  have "Version_String v = decimal (uint (major v)) @ ''.'' @ decimal (uint (minor v)) @ ''.'' @
      decimal (uint (patch v)) @ suffix_text CHR ''-'' (prerelease v) @ suffix_text CHR ''+'' (build v)"
    by (simp add: Version_String_def suffix_text_def)
  then have m: "full_match partialRegExp (Version_String v) = Some c"
    using first_version [OF first_xr _ _ _ wf_dotted_text [OF wf(1)] wf_dotted_text [OF wf(2)],
        of "uint (major v)" "uint (minor v)" "uint (patch v)"]
    by (simp add: c_def full_match_first partialRegExp_def)
  have g: "group c (Suc 0) = decimal (uint (major v))" "group c 2 = decimal (uint (minor v))"
    "group c 3 = decimal (uint (patch v))"
    "group c 4 = (if prerelease v \<noteq> [] then Join ''.'' (prerelease v) else [])"
    "group c 5 = (if build v \<noteq> [] then Join ''.'' (build v) else [])"
    by (simp_all add: c_def group_group_of)
  have n: "partial_numbers (decimal (uint (major v))) (decimal (uint (minor v))) (decimal (uint (patch v))) =
      Some (major v, minor v, patch v)"
    by (simp add: partial_numbers_def decimal_not_wildcard getUintComponent_word)
  have pre: "(if group c 4 \<noteq> [] then Split CHR ''.'' (group c 4) else []) = prerelease v"
    using wf(1) Split_Join_dotted [OF wf(1)] by (auto simp: g wf_dotted_def)
  have bld: "(if group c 5 \<noteq> [] then Split CHR ''.'' (group c 5) else []) = build v"
    using wf(2) Split_Join_dotted [OF wf(2)] by (auto simp: g wf_dotted_def)
  show ?thesis
    unfolding parsePartial_def m option.case Let_def pre bld by (simp add: g n)
qed

section \<open>One comparator\<close>

lemma class_disjoint:
  assumes "plain_char x" and "\<And>r. range_class r \<Longrightarrow> \<not> Q r"
  shows "class_step Q (x # w) = None"
  using assms by (auto simp: plain_char_def class_step_ascii)

lemma range_not_operator: "range_class r \<Longrightarrow> \<not> operator_class r"
  by (auto simp: range_class_def operator_class_def dotted_class_def identifier_class_def letter_class_def
      digit_class_def)

lemma range_not_space: "range_class r \<Longrightarrow> \<not> space_class r"
  by (auto simp: range_class_def space_class_def dotted_class_def identifier_class_def letter_class_def
      digit_class_def)

lemma range_not_white: "range_class r \<Longrightarrow> \<not> unicode_IsSpace r"
  by (auto simp: unicode_IsSpace_def range_class_def dotted_class_def identifier_class_def letter_class_def
      digit_class_def)

lemma plain_not: "plain_char x \<Longrightarrow> x \<notin> {CHR ''<'', CHR ''>'', CHR ''='', CHR ''~'', CHR ''^'', CHR '' '', CHR ''|''}"
  by (auto simp: plain_char_def range_class_def dotted_class_def identifier_class_def letter_class_def
      digit_class_def)

definition operator_part :: regex where
  "operator_part = Opt (Group 1 (Alt (Class operator_class) (Alt (Lit ''<='') (Lit ''>=''))))"

definition operand_part :: regex where
  "operand_part = Cat (Star (Class space_class)) (Group 2 (Plus (Class range_class)))"

lemma rangeRegExp_parts: "rangeRegExp = Cat operator_part operand_part"
  by (simp add: rangeRegExp_def operator_part_def operand_part_def)

lemma first_operand:
  assumes "plain_text w"
  shows "first_match operand_part w c [] ((2, w) # c)"
proof -
  obtain x v where w: "w = x # v" "plain_char x" using assms by (cases w) (auto simp: plain_text_def)
  have "class_step space_class w = None"
    unfolding w(1) by (rule class_disjoint [OF w(2) range_not_space])
  then have "first_match (Star (Class space_class)) w c w c" by (intro first_Star_stop) simp
  moreover have "first_match (Plus (Class range_class)) (w @ []) c [] c"
    using assms by (intro first_Plus_Class) (auto simp: plain_text_def plain_char_def)
  then have "first_match (Group 2 (Plus (Class range_class))) (w @ []) c [] ((2, w) # c)"
    by (rule first_Group)
  ultimately show ?thesis by (simp add: operand_part_def first_Cat)
qed

lemma operand_not_equals: "matches operand_part (CHR ''='' # w) c = []"
proof -
  have "class_step space_class (CHR ''='' # w) = None" "class_step range_class (CHR ''='' # w) = None"
    using class_step_ascii [of "CHR ''=''"]
    by (simp_all add: ascii_def space_class_def range_class_def dotted_class_def identifier_class_def
        letter_class_def digit_class_def)
  then show ?thesis by (simp add: operand_part_def Plus_def matches.simps(5))
qed

lemma operator_class_step:
  "class_step operator_class (x # w) = (if operator_class (of_char x) then Some w else None)"
  by (rule class_step_low) (rule operator_class_low)

lemma first_operator_one:
  assumes "operator_class (of_char x)"
  shows "first_match operator_part (x # w) [] w [(1, [x])]"
proof -
  have "first_match (Class operator_class) ([x] @ w) [] w []"
    using assms by (intro first_Class) (simp add: operator_class_step)
  from first_Opt_some [OF first_Group [OF first_Alt_left [OF this]]] show ?thesis
    by (simp add: operator_part_def)
qed

lemma first_range_one:
  assumes "operator_class (of_char x)" and "plain_text w"
  shows "first_match rangeRegExp (x # w) [] [] [(2, w), (1, [x])]"
  using first_Cat [OF first_operator_one [OF assms(1), of w] first_operand [OF assms(2)]]
  by (simp add: rangeRegExp_parts)

lemma first_range_two:
  assumes "x = CHR ''<'' \<or> x = CHR ''>''" and "plain_text w"
  shows "first_match rangeRegExp (x # CHR ''='' # w) [] [] [(2, w), (1, [x, CHR ''=''])]"
proof -
  have m: "matches operator_part (x # CHR ''='' # w) [] =
      [(CHR ''='' # w, [(1, [x])]), (w, [(1, [x, CHR ''=''])]), (x # CHR ''='' # w, [])]"
    using assms(1) by (auto simp: operator_part_def Opt_def operator_class_step operator_class_def Lit_def)
  obtain ms where "matches operand_part w [(1, [x, CHR ''=''])] = ([], [(2, w), (1, [x, CHR ''=''])]) # ms"
    using first_operand [OF assms(2), of "[(1, [x, CHR ''=''])]"] by (auto simp: first_match_def)
  then show ?thesis
    unfolding rangeRegExp_parts first_match_def matches.simps(3) m
    by (simp add: operand_not_equals)
qed

lemma range_match:
  assumes "op \<in> range_operators" and "plain_text w"
  shows "full_match rangeRegExp (op @ w) = Some [(2, w), (1, op)]"
proof -
  from assms(1) consider "op = ''<''" | "op = ''=''" | "op = ''>''" | "op = ''<=''" | "op = ''>=''"
    by (auto simp: range_operators_def operator_defs)
  then show ?thesis
  proof cases
    case 1
    then show ?thesis using first_range_one [of "CHR ''<''", OF _ assms(2)]
      by (simp add: full_match_first operator_class_def)
  next
    case 2
    then show ?thesis using first_range_one [of "CHR ''=''", OF _ assms(2)]
      by (simp add: full_match_first operator_class_def)
  next
    case 3
    then show ?thesis using first_range_one [of "CHR ''>''", OF _ assms(2)]
      by (simp add: full_match_first operator_class_def)
  next
    case 4
    then show ?thesis using first_range_two [of "CHR ''<''", OF _ assms(2)] by (simp add: full_match_first)
  next
    case 5
    then show ?thesis using first_range_two [of "CHR ''>''", OF _ assms(2)] by (simp add: full_match_first)
  qed
qed

definition wf_comparator :: "versionComparator \<Rightarrow> bool" where
  "wf_comparator c = (operator c \<in> range_operators \<and> wf_operand (operand c))"

lemma parseComparator_print:
  assumes "wf_comparator c"
  shows "parseComparator (operator c) (Version_String (operand c)) = Inr (Some [c])"
proof -
  have "parsePartial (Version_String (operand c)) = Some \<lparr>version = operand c,
      majorStr = decimal (uint (major (operand c))), minorStr = decimal (uint (minor (operand c))),
      patchStr = decimal (uint (patch (operand c)))\<rparr>"
    using assms by (intro parsePartial_print) (simp add: wf_comparator_def)
  then show ?thesis
    using assms unfolding wf_comparator_def range_operators_def
    by (cases c) (auto simp: parseComparator_def decimal_not_wildcard operator_defs below_comparators_def
        upto_comparators_def equal_comparators_def comparator_def)
qed

section \<open>Texts without white space at the ends\<close>

definition trimmed :: "string \<Rightarrow> bool" where
  "trimmed w = (w \<noteq> [] \<and> ascii (hd w) \<and> ascii (last w) \<and>
     \<not> unicode_IsSpace (of_char (hd w)) \<and> \<not> unicode_IsSpace (of_char (last w)))"

lemma TrimSpace_padded:
  assumes "trimmed w" and "l = [] \<or> l = '' ''" and "r = [] \<or> r = '' ''"
  shows "TrimSpace (l @ w @ r) = w"
proof -
  have sp: "unicode_IsSpace 32" by (simp add: unicode_IsSpace_def)
  have left: "TrimLeftFunc (w @ r) unicode_IsSpace = w @ r"
    using assms(1) by (cases w) (simp_all add: trimmed_def TrimLeftFunc_ascii ascii_def)
  have "TrimLeftFunc (l @ w @ r) unicode_IsSpace = w @ r"
    using assms(2) left sp by (auto simp: TrimLeftFunc_ascii)
  moreover have right: "TrimRightFunc w unicode_IsSpace = w"
    using assms(1) TrimRightFunc_ascii [of "last w" "butlast w" unicode_IsSpace]
    by (simp add: trimmed_def ascii_def)
  have "TrimRightFunc (w @ r) unicode_IsSpace = w"
    using assms(3) right sp TrimRightFunc_ascii [of "CHR '' ''" w unicode_IsSpace] by auto
  ultimately show ?thesis by (simp add: TrimSpace_def)
qed

lemma TrimSpace_trimmed: "trimmed w \<Longrightarrow> TrimSpace w = w"
  using TrimSpace_padded [of w "[]" "[]"] by simp

section \<open>Splitting at white space and at the disjunction\<close>

lemma space_step: "class_step space_class (x # w) = (if space_class (of_char x) then Some w else None)"
  by (rule class_step_low) (auto simp: space_class_def)

lemma no_space_match:
  "\<not> space_class (of_char x) \<Longrightarrow> matches whitespaceRegExp (x # w) c = []"
  by (simp add: whitespaceRegExp_def Plus_def space_step)

lemma split_spaces:
  assumes "ws \<noteq> []" and "\<forall>w \<in> set ws. w \<noteq> [] \<and> (\<forall>x \<in> set w. \<not> space_class (of_char x))"
  shows "Regexp_Split whitespaceRegExp (Join '' '' ws) = ws"
  unfolding Regexp_Split_def using assms
proof (induction ws)
  case (Cons w ws)
  have none: "\<forall>i < length w. matches whitespaceRegExp (drop i w @ t) [] = []" for t
  proof (intro allI impI)
    fix i assume i: "i < length w"
    then have "drop i w = w ! i # drop (Suc i) w" by (rule Cons_nth_drop_Suc [symmetric])
    moreover have "\<not> space_class (of_char (w ! i))" using Cons.prems(2) i by simp
    ultimately show "matches whitespaceRegExp (drop i w @ t) [] = []" by (simp add: no_space_match)
  qed
  show ?case
  proof (cases ws)
    case Nil
    then show ?thesis using Split_from_skip [of w whitespaceRegExp "[]" "[]"] none [of "[]"] by simp
  next
    case (Cons v vs)
    obtain x u where u: "Join '' '' ws = x # u" "\<not> space_class (of_char x)"
      using Cons.prems(2) Cons by (cases v; cases vs) (auto simp: Join_Cons)
    have "first_match (Plus (Class space_class)) ('' '' @ Join '' '' ws) [] (Join '' '' ws) []"
      by (rule first_Plus_Class) (use u in \<open>simp_all add: ascii_def space_step\<close>, simp add: space_class_def)
    then have m: "first_match whitespaceRegExp ('' '' @ Join '' '' ws) [] (Join '' '' ws) []"
      by (simp add: whitespaceRegExp_def)
    have "Split_from whitespaceRegExp [] (w @ '' '' @ Join '' '' ws) =
        Split_from whitespaceRegExp (rev w @ []) ('' '' @ Join '' '' ws)"
      by (rule Split_from_skip [OF none])
    also have "\<dots> = rev (rev w @ []) # Split_from whitespaceRegExp [] (Join '' '' ws)"
      by (rule Split_from_match [OF m]) simp
    also have "Split_from whitespaceRegExp [] (Join '' '' ws) = ws"
      using Cons.IH Cons.prems(2) \<open>ws = v # vs\<close> by simp
    finally show ?thesis using \<open>ws = v # vs\<close> by (simp add: Join_Cons)
  qed
qed simp

fun or_pieces :: "string \<Rightarrow> string list \<Rightarrow> string list" where
  "or_pieces lead [] = []"
| "or_pieces lead [w] = [lead @ w]"
| "or_pieces lead (w # v # ws) = (lead @ w @ '' '') # or_pieces '' '' (v # ws)"

lemma no_or_match: "x \<noteq> CHR ''|'' \<Longrightarrow> matches logicalOrRegExp (x # w) c = []"
  by (simp add: logicalOrRegExp_def Lit_def)

lemma or_match: "first_match logicalOrRegExp (''||'' @ t) [] t []"
  by (simp add: first_match_def logicalOrRegExp_def Lit_def)

lemma split_or:
  assumes "ws \<noteq> []" and "\<forall>w \<in> set ws. CHR ''|'' \<notin> set w" and "CHR ''|'' \<notin> set lead"
  shows "Split_from logicalOrRegExp [] (lead @ Join '' || '' ws) = or_pieces lead ws"
  using assms
proof (induction ws arbitrary: lead)
  case (Cons w ws)
  have none: "\<forall>i < length u. matches logicalOrRegExp (drop i u @ t) [] = []" if "CHR ''|'' \<notin> set u" for u t
  proof (intro allI impI)
    fix i assume i: "i < length u"
    then have "drop i u = u ! i # drop (Suc i) u" by (rule Cons_nth_drop_Suc [symmetric])
    moreover have "u ! i \<noteq> CHR ''|''" using that i by (metis nth_mem)
    ultimately show "matches logicalOrRegExp (drop i u @ t) [] = []" by (simp add: no_or_match)
  qed
  show ?case
  proof (cases ws)
    case Nil
    have "CHR ''|'' \<notin> set (lead @ w)" using Cons.prems by simp
    then show ?thesis using Nil Split_from_skip [OF none, of "lead @ w" "[]" "[]"] by simp
  next
    case ws: (Cons v vs)
    have p: "CHR ''|'' \<notin> set (lead @ w @ '' '')" using Cons.prems by simp
    let ?rest = "'' '' @ Join '' || '' ws"
    have "Split_from logicalOrRegExp [] ((lead @ w @ '' '') @ ''||'' @ ?rest) =
        Split_from logicalOrRegExp (rev (lead @ w @ '' '') @ []) (''||'' @ ?rest)"
      by (rule Split_from_skip [OF none [OF p]])
    also have "\<dots> = rev (rev (lead @ w @ '' '') @ []) # Split_from logicalOrRegExp [] ?rest"
      by (rule Split_from_match [OF or_match]) simp
    also have "Split_from logicalOrRegExp [] ?rest = or_pieces '' '' ws"
      using Cons.IH [of "'' ''"] Cons.prems ws by simp
    finally show ?thesis using ws by (simp add: Join_Cons)
  qed
qed simp

section \<open>The round trip\<close>

lemma formatComparator_text:
  assumes "wf_comparator c"
  shows "trimmed (formatComparator c)" and "\<forall>x \<in> set (formatComparator c). \<not> space_class (of_char x)"
    and "CHR ''|'' \<notin> set (formatComparator c)" and "operator_class (of_char (hd (formatComparator c)))"
    and "formatComparator c \<noteq> []"
proof -
  let ?w = "Version_String (operand c)"
  have w: "plain_text ?w" using assms by (intro Version_String_plain) (simp add: wf_comparator_def)
  have op: "operator c \<in> {''<'', ''<='', ''='', ''>='', ''>''}"
    using assms by (simp add: wf_comparator_def range_operators_def operator_defs)
  have ns: "\<not> space_class (of_char x)" "x \<noteq> CHR ''|''" "ascii x" if "x \<in> set ?w" for x
    using w that range_not_space plain_not [of x] by (auto simp: plain_text_def plain_char_def)
  have last: "last (formatComparator c) \<in> set ?w"
    using w by (simp add: formatComparator_def plain_text_def)
  have sp: "\<not> unicode_IsSpace (of_char x)" if "x \<in> set ?w" for x
  proof -
    have "range_class (of_char x)" using w that by (auto simp: plain_text_def plain_char_def)
    then show ?thesis by (rule range_not_white)
  qed
  show "formatComparator c \<noteq> []" "operator_class (of_char (hd (formatComparator c)))"
    "CHR ''|'' \<notin> set (formatComparator c)" "\<forall>x \<in> set (formatComparator c). \<not> space_class (of_char x)"
    using op ns by (auto simp: formatComparator_def operator_class_def space_class_def)
  have "ascii (hd (formatComparator c))" "\<not> unicode_IsSpace (of_char (hd (formatComparator c)))"
    using op by (auto simp: formatComparator_def ascii_def unicode_IsSpace_def)
  with last ns(3) sp \<open>formatComparator c \<noteq> []\<close> show "trimmed (formatComparator c)"
    by (simp add: trimmed_def)
qed

lemma parse_simples_print:
  "list_all wf_comparator cs \<Longrightarrow> parse_simples (map formatComparator cs) acc = Inr (Some (acc @ cs))"
proof (induction cs arbitrary: acc)
  case (Cons c cs)
  then have c: "wf_comparator c" by simp
  have "plain_text (Version_String (operand c))"
    using c by (intro Version_String_plain) (simp add: wf_comparator_def)
  then have "full_match rangeRegExp (TrimSpace (formatComparator c)) =
      Some [(2, Version_String (operand c)), (1, operator c)]"
    using c range_match [of "operator c"] TrimSpace_trimmed [OF formatComparator_text(1) [OF c]]
    by (simp add: formatComparator_def wf_comparator_def)
  then show ?case using Cons.IH [of "acc @ [c]"] Cons.prems parseComparator_print [OF c] by simp
qed simp

lemma no_hyphen:
  assumes "operator_class (of_char x)"
  shows "full_match hyphenRegExp (x # w) = None"
proof -
  have "\<not> space_class (of_char x)" "\<not> range_class (of_char x)"
    using assms range_not_operator by (auto simp: operator_class_def space_class_def)
  moreover have "ascii x" using operator_class_low [OF assms] by (simp add: ascii_def)
  ultimately have "class_step space_class (x # w) = None" "class_step range_class (x # w) = None"
    by (simp_all add: class_step_ascii)
  then have "\<not> in_lang hyphenRegExp (x # w) []"
    by (auto simp: hyphenRegExp_def Plus_def elim: in_lang_StarE)
  then show ?thesis using MatchString_iff [of hyphenRegExp "x # w"] by (simp add: MatchString_def)
qed

lemma formatAlternative_text:
  assumes "list_all wf_comparator cs" and "cs \<noteq> []"
  shows "trimmed (formatAlternative cs)" and "CHR ''|'' \<notin> set (formatAlternative cs)"
    and "operator_class (of_char (hd (formatAlternative cs)))" and "formatAlternative cs \<noteq> []"
proof -
  have "trimmed (formatAlternative cs) \<and> CHR ''|'' \<notin> set (formatAlternative cs) \<and>
      hd (formatAlternative cs) = hd (formatComparator (hd cs)) \<and> formatAlternative cs \<noteq> []"
    using assms
  proof (induction cs)
    case (Cons c cs)
    then have c: "wf_comparator c" by simp
    note t = formatComparator_text [OF c]
    show ?case
    proof (cases "cs = []")
      case True
      with t show ?thesis by (simp add: formatAlternative_def)
    next
      case False
      with Cons have IH: "trimmed (formatAlternative cs)" "CHR ''|'' \<notin> set (formatAlternative cs)" "formatAlternative cs \<noteq> []"
        by auto
      have f: "formatAlternative (c # cs) = formatComparator c @ '' '' @ formatAlternative cs"
        using False by (simp add: formatAlternative_def Join_Cons)
      show ?thesis unfolding f using t IH by (simp add: trimmed_def)
    qed
  qed simp
  then show "trimmed (formatAlternative cs)" "CHR ''|'' \<notin> set (formatAlternative cs)"
    "operator_class (of_char (hd (formatAlternative cs)))" "formatAlternative cs \<noteq> []"
    using assms formatComparator_text(4) [of "hd cs"] by (auto simp: list_all_iff)
qed

lemma parse_range_print:
  assumes "list_all wf_comparator cs" and "cs \<noteq> []"
  shows "parse_range (formatAlternative cs) = Inr (Some cs)"
proof -
  have "full_match hyphenRegExp (formatAlternative cs) = None"
    using no_hyphen formatAlternative_text(3,4) [OF assms] by (cases "formatAlternative cs") auto
  moreover have "Regexp_Split whitespaceRegExp (formatAlternative cs) = map formatComparator cs"
    unfolding formatAlternative_def
    by (rule split_spaces) (use assms formatComparator_text(2,5) in \<open>auto simp: list_all_iff\<close>)
  ultimately show ?thesis using parse_simples_print [OF assms(1), of "[]"] by (simp add: parse_range_def)
qed

definition wf_alternatives :: "versionComparator list list \<Rightarrow> bool" where
  "wf_alternatives alts = (\<forall>cs \<in> set alts. cs \<noteq> [] \<and> list_all wf_comparator cs)"

lemma parse_ranges_print:
  "wf_alternatives alts \<Longrightarrow> lead = [] \<or> lead = '' '' \<Longrightarrow>
   parse_ranges (or_pieces lead (map formatAlternative alts)) acc = Inr (Some (acc @ alts))"
proof (induction alts arbitrary: lead acc)
  case (Cons cs alts)
  then have cs: "list_all wf_comparator cs" "cs \<noteq> []" by (auto simp: wf_alternatives_def)
  note t = formatAlternative_text [OF cs]
  have rest: "wf_alternatives alts" using Cons.prems by (simp add: wf_alternatives_def)
  have trim: "TrimSpace (lead @ formatAlternative cs @ r) = formatAlternative cs" if "r = [] \<or> r = '' ''" for r
    using TrimSpace_padded [OF t(1) Cons.prems(2) that] .
  show ?case
  proof (cases alts)
    case Nil
    then show ?thesis using trim [of "[]"] t(4) parse_range_print [OF cs] by simp
  next
    case (Cons ds rest')
    then show ?thesis
      using trim [of "'' ''"] t(4) parse_range_print [OF cs] Cons.IH [OF rest, of "'' ''" "acc @ [cs]"] by simp
  qed
qed simp

lemma parse_print_range:
  assumes "wf_alternatives alts" and "alts \<noteq> []"
  shows "TryParseVersionRange (VersionRange_String \<lparr>alternatives = alts\<rparr>) = Inr (\<lparr>alternatives = alts\<rparr>, True)"
proof -
  let ?s = "Join '' || '' (map formatAlternative alts)"
  have ends: "trimmed ?s \<and> ?s \<noteq> []"
    using assms
  proof (induction alts)
    case (Cons cs alts)
    then have t: "trimmed (formatAlternative cs)"
      by (intro formatAlternative_text(1)) (auto simp: wf_alternatives_def)
    show ?case
    proof (cases "alts = []")
      case False
      with Cons have "trimmed (Join '' || '' (map formatAlternative alts))" "Join '' || '' (map formatAlternative alts) \<noteq> []"
        by (auto simp: wf_alternatives_def)
      with t False show ?thesis by (simp add: Join_Cons trimmed_def)
    qed (use t in \<open>simp add: trimmed_def\<close>)
  qed simp
  have "Regexp_Split logicalOrRegExp (TrimSpace ?s) = or_pieces [] (map formatAlternative alts)"
    unfolding Regexp_Split_def TrimSpace_trimmed [OF conjunct1 [OF ends]]
    using split_or [of "map formatAlternative alts" "[]"] assms formatAlternative_text(2)
    by (auto simp: wf_alternatives_def)
  then show ?thesis
    using ends parse_ranges_print [OF assms(1), of "[]" "[]"]
    by (simp add: TryParseVersionRange_def parseAlternatives_def VersionRange_String_def formatDisjunction_def)
qed

section \<open>What a parsed range prints\<close>

lemma runs_ascii: "runs P (w @ u) u \<Longrightarrow> \<forall>x \<in> set w. ascii x \<Longrightarrow> \<forall>x \<in> set w. P (of_char x)"
proof (induction w)
  case (Cons x w)
  from Cons.prems(1) have "\<exists>t. class_step P (x # w @ u) = Some t \<and> runs P t u"
    by (cases rule: runs.cases) auto
  then have "P (of_char x)" "runs P (w @ u) u" using Cons.prems(2) by (auto simp: class_step_ascii split: if_splits)
  with Cons show ?case by simp
qed simp

lemma partial_group:
  assumes "full_match partialRegExp s = Some m" and "set s \<subseteq> Collect ascii" and "n = 4 \<or> n = 5"
  shows "wf_dotted (if group m n \<noteq> [] then Split CHR ''.'' (group m n) else [])"
proof (cases "group m n = []")
  case False
  with assms(1) obtain a u where a: "has_group partialRegExp n a" "in_lang a (group m n @ u) u"
    "set (group m n) \<subseteq> set s" by (rule full_match_group)
  then have "in_lang (Plus (Class dotted_class)) (group m n @ u) u"
    using assms(3) by (auto simp: partialRegExp_def version_shape_def qualifier_regex_def xr_regex_def Opt_def
        Plus_def Chr_def simp del: in_lang_Cat_iff)
  then have "runs dotted_class (group m n @ u) u" by (rule in_lang_runs) (simp add: Plus_def)
  moreover have "\<forall>x \<in> set (group m n). ascii x" using a(3) assms(2) by blast
  ultimately have "\<forall>x \<in> set (group m n). dotted_class (of_char x)" by (rule runs_ascii)
  with False \<open>\<forall>x \<in> set (group m n). ascii x\<close> show ?thesis
    using Split_no_sep [of _ "CHR ''.''" "group m n"] by (auto simp: wf_dotted_def)
qed (simp add: wf_dotted_def)

lemma parsePartial_wf:
  assumes "parsePartial s = Some p" and "set s \<subseteq> Collect ascii"
  shows "wf_operand (version p)"
proof -
  obtain m where m: "full_match partialRegExp s = Some m" using assms(1) by (auto simp: parsePartial_def split: option.splits)
  then obtain a b c where "version p = \<lparr>major = a, minor = b, patch = c,
        prerelease = (if group m 4 \<noteq> [] then Split CHR ''.'' (group m 4) else []),
        build = (if group m 5 \<noteq> [] then Split CHR ''.'' (group m 5) else [])\<rparr>"
    using assms(1) by (auto simp: parsePartial_def Let_def split: option.splits)
  then show ?thesis using partial_group [OF m assms(2)] by (simp add: wf_operand_def)
qed

lemma wf_operand_simps [simp]:
  "wf_operand (version_of a b c)"
  "wf_operand (incrementMajor v)" "wf_operand (incrementMinor v)" "wf_operand (incrementPatch v)"
  "wf_operand v \<Longrightarrow> wf_operand (v\<lparr>prerelease := [''0'']\<rparr>)"
  "wf_operand versionZero"
  by (auto simp: wf_operand_def version_of_def incrementMajor_def incrementMinor_def incrementPatch_def
      versionZero_def wf_dotted_def ascii_def dotted_class_def identifier_class_def digit_class_def)

lemma wf_comparator_iff [simp]: "wf_comparator (comparator op v) \<longleftrightarrow> op \<in> range_operators \<and> wf_operand v"
  by (simp add: wf_comparator_def comparator_def)

lemma comparators_wf:
  assumes "wf_operand (version p)"
  shows "list_all wf_comparator (tilde_comparators p)" and "list_all wf_comparator (caret_comparators p)"
    and "op \<in> range_operators \<Longrightarrow> list_all wf_comparator (below_comparators op p)"
    and "op \<in> range_operators \<Longrightarrow> list_all wf_comparator (upto_comparators op p)"
    and "list_all wf_comparator (equal_comparators p)"
  using assms
  by (simp_all add: tilde_comparators_def caret_comparators_def below_comparators_def upto_comparators_def
      equal_comparators_def Let_def)

interpretation printable: comparator_law wf_comparator "Collect ascii"
proof
  fix op s cs
  assume op: "op \<in> simple_operators" and s: "set s \<subseteq> Collect ascii" and cs: "parseComparator op s = Inr (Some cs)"
  then obtain p where p: "parsePartial s = Some p" by (auto simp: parseComparator_def split: option.splits)
  have "wf_operand (version p)" using p s by (rule parsePartial_wf)
  note built = comparators_wf [OF this]
  from op consider "op = ''~''" | "op = ''^''" | "op = ''<''" | "op = ''>=''" | "op = ''<=''" | "op = ''>''"
    | "op = ''='' \<or> op = []" unfolding simple_operators_def by blast
  then show "list_all wf_comparator cs"
    using cs built unfolding parseComparator_def p by cases (auto split: if_splits)
next
  fix l r cs
  assume s: "set l \<subseteq> Collect ascii" "set r \<subseteq> Collect ascii" and cs: "parseHyphen l r = Some cs"
  then obtain p q where pq: "parsePartial l = Some p" "parsePartial r = Some q"
    by (auto simp: parseHyphen_def split: option.splits)
  have "wf_operand (version p)" "wf_operand (version q)" using pq s by (auto intro: parsePartial_wf)
  with cs show "list_all wf_comparator cs"
    by (auto simp: parseHyphen_def pq Let_def split: if_splits)
qed

text \<open>C10. Printing inverts parsing on ranges: where an ASCII text parses to a range with alternatives
  none of which is empty (as a lone wildcard is), the printed range parses to the same range.\<close>

theorem range_round_trip:
  assumes "TryParseVersionRange s = Inr (r, True)" and "set s \<subseteq> Collect ascii"
    and "alternatives r \<noteq> []" and "[] \<notin> set (alternatives r)"
  shows "TryParseVersionRange (VersionRange_String r) = Inr (r, True)"
proof -
  have "list_all (list_all wf_comparator) (alternatives r)"
    using assms(2,1) by (rule printable.range_law)
  then have "wf_alternatives (alternatives r)"
    using assms(4) by (auto simp: wf_alternatives_def list_all_iff)
  then show ?thesis using parse_print_range [OF _ assms(3)] by (cases r) simp
qed

theorem range_round_trip_witness:
  "TryParseVersionRange ''>=1.2.3 <2.0.0 || <5.0.0-0'' =
     Inr (\<lparr>alternatives = [[comparator ''>='' (version_of 1 2 3), comparator ''<'' (version_of 2 0 0)],
        [comparator ''<'' (version_of 5 0 0\<lparr>prerelease := [''0'']\<rparr>)]]\<rparr>, True)"
proof -
  let ?r = "\<lparr>alternatives = [[comparator ''>='' (version_of 1 2 3), comparator ''<'' (version_of 2 0 0)],
        [comparator ''<'' (version_of 5 0 0\<lparr>prerelease := [''0'']\<rparr>)]]\<rparr>"
  have "TryParseVersionRange ''^1.2.3 || <=4.x'' = Inr (?r, True)" by code_simp
  moreover have "set ''^1.2.3 || <=4.x'' \<subseteq> Collect ascii" by (simp add: ascii_def)
  ultimately have "TryParseVersionRange (VersionRange_String ?r) = Inr (?r, True)"
    by (rule range_round_trip) simp_all
  moreover have "VersionRange_String ?r = ''>=1.2.3 <2.0.0 || <5.0.0-0''" by code_simp
  ultimately show ?thesis by simp
qed

section \<open>The caret and the tilde\<close>

definition release :: "32 word \<Rightarrow> 32 word \<Rightarrow> 32 word \<Rightarrow> Version option" where
  "release a b c = Some (version_of a b c)"

lemma prefixed_range:
  assumes "op = CHR ''^'' \<or> op = CHR ''~''" and "wf_operand v"
  shows "TryParseVersionRange (op # Version_String v) =
     go_bind (parseComparator [op] (Version_String v)) (\<lambda>x.
       case x of None \<Rightarrow> Inr (\<lparr>alternatives = []\<rparr>, False) | Some cs \<Rightarrow> Inr (\<lparr>alternatives = [cs]\<rparr>, True))"
proof -
  let ?w = "Version_String v" let ?s = "op # ?w"
  have w: "plain_text ?w" using assms(2) by (rule Version_String_plain)
  have opc: "operator_class (of_char op)" "ascii op" "\<not> unicode_IsSpace (of_char op)" "op \<noteq> CHR ''|''"
    "\<not> space_class (of_char op)"
    using assms(1) by (auto simp: operator_class_def ascii_def unicode_IsSpace_def space_class_def)
  have cls: "range_class (of_char x)" "ascii x" "x \<noteq> CHR ''|''" if "x \<in> set ?w" for x
    using w that plain_not [of x] by (auto simp: plain_text_def plain_char_def)
  have ns: "\<not> space_class (of_char x)" "\<not> unicode_IsSpace (of_char x)" if "x \<in> set ?w" for x
    using cls(1) [OF that] range_not_space range_not_white by blast+
  have "last ?s \<in> set ?w" using w by (simp add: plain_text_def)
  then have t: "TrimSpace ?s = ?s"
    by (intro TrimSpace_trimmed) (simp add: trimmed_def opc cls ns)
  have "Regexp_Split logicalOrRegExp ?s = [?s]"
    using split_or [of "[?s]" "[]"] opc(4) cls(3) by (auto simp: Regexp_Split_def)
  moreover have "Regexp_Split whitespaceRegExp ?s = [?s]"
    using split_spaces [of "[?s]"] ns(1) opc(5) by simp
  moreover have "full_match hyphenRegExp ?s = None" by (rule no_hyphen [OF opc(1)])
  moreover have "full_match rangeRegExp ?s = Some [(2, ?w), (1, [op])]"
    by (rule full_match_first [OF first_range_one [OF opc(1) w]])
  ultimately have p: "parseAlternatives ?s =
      go_bind (go_bind (parseComparator [op] ?w) (\<lambda>r. case r of None \<Rightarrow> Inr None | Some parsed \<Rightarrow> Inr (Some parsed)))
        (\<lambda>x. case x of None \<Rightarrow> Inr None | Some cs \<Rightarrow> Inr (Some [cs]))"
    by (simp add: parseAlternatives_def t parse_range_def Let_def)
  show ?thesis
  proof (cases "parseComparator [op] ?w")
    case (Inr x)
    then show ?thesis by (cases x) (simp_all add: TryParseVersionRange_def p)
  qed (simp add: TryParseVersionRange_def p)
qed

lemma compare_releases:
  "Version_Compare (release a b c) (Some (version_of a' b' c')) =
     (if a \<noteq> a' then cmp_Compare a a' else if b \<noteq> b' then cmp_Compare b b' else cmp_Compare c c')"
  by (simp add: release_def Version_Compare_def compare_parts_is version_of_def comparePreReleaseIdentifiers_def
      cmp_Compare_def)

lemma two_bounds_test:
  "VersionRange_Test \<lparr>alternatives = [[comparator rangeGreaterThanEqual v, comparator rangeLessThan w]]\<rparr> u =
     Inr (Version_Compare u (Some v) \<ge> 0 \<and> Version_Compare u (Some w) < 0)"
  by (simp add: VersionRange_Test_def testDisjunction_def comparator_def testComparator_def Let_def operator_defs)

lemma parse_prefixed:
  "parseComparator ''^'' (Version_String (version_of a b c)) = Inr (Some
     [comparator rangeGreaterThanEqual (version_of a b c),
      comparator rangeLessThan (if a > 0 then version_of (a + 1) 0 0
        else if b > 0 then version_of a (b + 1) 0 else version_of a b (c + 1))])"
  "parseComparator ''~'' (Version_String (version_of a b c)) = Inr (Some
     [comparator rangeGreaterThanEqual (version_of a b c), comparator rangeLessThan (version_of a (b + 1) 0)])"
proof -
  have "wf_operand (version_of a b c)" by simp
  note p = parsePartial_print [OF this]
  show "parseComparator ''^'' (Version_String (version_of a b c)) = Inr (Some
     [comparator rangeGreaterThanEqual (version_of a b c),
      comparator rangeLessThan (if a > 0 then version_of (a + 1) 0 0
        else if b > 0 then version_of a (b + 1) 0 else version_of a b (c + 1))])"
    by (simp add: parseComparator_def p decimal_not_wildcard caret_comparators_def
        incrementMajor_def incrementMinor_def incrementPatch_def)
  show "parseComparator ''~'' (Version_String (version_of a b c)) = Inr (Some
     [comparator rangeGreaterThanEqual (version_of a b c), comparator rangeLessThan (version_of a (b + 1) 0)])"
    by (simp add: parseComparator_def p decimal_not_wildcard tilde_comparators_def incrementMinor_def)
qed

definition at_least :: "32 word \<Rightarrow> 32 word \<Rightarrow> 32 word \<Rightarrow> 32 word \<Rightarrow> 32 word \<Rightarrow> 32 word \<Rightarrow> bool" where
  "at_least a b c x y z = (a < x \<or> a = x \<and> (b < y \<or> b = y \<and> c \<le> z))"

lemma word_less_inc: "a \<noteq> - 1 \<Longrightarrow> x < a + 1 \<longleftrightarrow> x \<le> (a :: 32 word)"
proof -
  assume "a \<noteq> - 1"
  then have "1 + a \<noteq> 0" by (metis add.commute add_eq_0_iff)
  then have "unat (a + 1) = Suc (unat a)" by (simp add: unatSuc add.commute)
  then show ?thesis by (simp add: word_less_nat_alt word_le_nat_alt less_Suc_eq_le)
qed

lemma releases_at_least:
  "Version_Compare (release x y z) (Some (version_of a b c)) \<ge> 0 \<longleftrightarrow> at_least a b c x y z"
  by (auto simp: compare_releases at_least_def)

lemma releases_below:
  "Version_Compare (release x y z) (Some (version_of a b c)) < 0 \<longleftrightarrow>
     x < a \<or> x = a \<and> (y < b \<or> y = b \<and> z < c)"
  by (auto simp: compare_releases)

text \<open>C17. The caret and tilde forms accept exactly the compatible releases: those not below the given
  version that agree with it in every component up to the first one that is not zero (caret), or in
  the first two (tilde). The components must not be the largest 32-bit value, whose increment wraps
  around to 0.\<close>

theorem caret_and_tilde_compatible:
  assumes "a \<noteq> - 1" and "b \<noteq> - 1" and "c \<noteq> - 1"
  shows "(\<exists>r. TryParseVersionRange (''^'' @ Version_String (version_of a b c)) = Inr (r, True) \<and>
      (\<forall>x y z. VersionRange_Test r (release x y z) =
         Inr (at_least a b c x y z \<and>
           (if a > 0 then x = a else if b > 0 then x = a \<and> y = b else x = a \<and> y = b \<and> z = c))))
   \<and> (\<exists>r. TryParseVersionRange (''~'' @ Version_String (version_of a b c)) = Inr (r, True) \<and>
      (\<forall>x y z. VersionRange_Test r (release x y z) = Inr (at_least a b c x y z \<and> x = a \<and> y = b)))"
proof -
  have wf: "wf_operand (version_of a b c)" by simp
  note p = prefixed_range [OF _ wf]
  have 1: "TryParseVersionRange (''^'' @ Version_String (version_of a b c)) = Inr (\<lparr>alternatives =
      [[comparator rangeGreaterThanEqual (version_of a b c),
        comparator rangeLessThan (if a > 0 then version_of (a + 1) 0 0
          else if b > 0 then version_of a (b + 1) 0 else version_of a b (c + 1))]]\<rparr>, True)"
    using p [of "CHR ''^''"] by (simp only: parse_prefixed) simp
  have 2: "TryParseVersionRange (''~'' @ Version_String (version_of a b c)) = Inr (\<lparr>alternatives =
      [[comparator rangeGreaterThanEqual (version_of a b c), comparator rangeLessThan (version_of a (b + 1) 0)]]\<rparr>, True)"
    using p [of "CHR ''~''"] by (simp only: parse_prefixed) simp
  have inc: "x < a + 1 \<longleftrightarrow> x \<le> a" "x < b + 1 \<longleftrightarrow> x \<le> b" "x < c + 1 \<longleftrightarrow> x \<le> c" for x
    using assms word_less_inc by blast+
  note test = two_bounds_test releases_at_least releases_below
  have "VersionRange_Test \<lparr>alternatives =
      [[comparator rangeGreaterThanEqual (version_of a b c),
        comparator rangeLessThan (if a > 0 then version_of (a + 1) 0 0
          else if b > 0 then version_of a (b + 1) 0 else version_of a b (c + 1))]]\<rparr> (release x y z) =
      Inr (at_least a b c x y z \<and>
        (if a > 0 then x = a else if b > 0 then x = a \<and> y = b else x = a \<and> y = b \<and> z = c))" for x y z
    by (cases "a > 0"; cases "b > 0") (auto simp: test at_least_def inc)
  moreover have "VersionRange_Test \<lparr>alternatives =
      [[comparator rangeGreaterThanEqual (version_of a b c), comparator rangeLessThan (version_of a (b + 1) 0)]]\<rparr>
      (release x y z) = Inr (at_least a b c x y z \<and> x = a \<and> y = b)" for x y z
    by (auto simp: test at_least_def inc)
  ultimately show ?thesis using 1 2 by blast
qed

theorem caret_and_tilde_compatible_witness:
  "\<exists>r. TryParseVersionRange ''^0.2.3'' = Inr (r, True) \<and> VersionRange_Test r (release 0 2 9) = Inr True \<and>
     VersionRange_Test r (release 0 3 0) = Inr False"
proof -
  have s: "''^'' @ Version_String (version_of 0 2 3) = ''^0.2.3''" by code_simp
  from caret_and_tilde_compatible [of 0 2 3]
  obtain r where "TryParseVersionRange ''^0.2.3'' = Inr (r, True)"
    and t: "\<forall>x y z. VersionRange_Test r (release x y z) = Inr (at_least 0 2 3 x y z \<and>
      (if (0 :: 32 word) > 0 then x = 0 else if (2 :: 32 word) > 0 then x = 0 \<and> y = 2 else x = 0 \<and> y = 2 \<and> z = 3))"
    unfolding s by auto
  moreover have "VersionRange_Test r (release 0 2 9) = Inr True" "VersionRange_Test r (release 0 3 0) = Inr False"
    using t by (simp_all add: at_least_def)
  ultimately show ?thesis by blast
qed

end
