(* ===== verification/Lsp_Framing.thy ===== *)
theory Lsp_Framing
  imports Strconv
begin

text \<open>
  The base protocol of the language server (\<open>internal/lsp/lsproto/baseproto.go\<close>): messages are framed
  by a header with their length. The reader's state is the bytes it has not consumed, which end with
  the end of the stream; other failures of the transport are outside the model. A message is a
  list of bytes. The largest allocation of the platform is the argument \<open>maxAlloc\<close>: \<open>make\<close> panics beyond it.
\<close>

section \<open>The reader\<close>

datatype read_error =
    EndOfFile
  | ErrInvalidHeader string
  | ErrInvalidContentLength string
  | ErrNoContentLength
  | ReadContent

abbreviation CRLF :: string where "CRLF \<equiv> [CHR 0x0D, CHR 0x0A]"

text \<open>\<open>bufio.Reader.ReadBytes\<close>: the line with its delimiter, or \<open>None\<close> where the stream ends before it.\<close>

fun ReadBytes :: "char \<Rightarrow> string \<Rightarrow> (string \<times> string) option" where
  "ReadBytes d [] = None"
| "ReadBytes d (x # s) =
     (if x = d then Some ([x], s)
      else (case ReadBytes d s of None \<Rightarrow> None | Some (line, rest) \<Rightarrow> Some (x # line, rest)))"

lemma ReadBytes_split: "ReadBytes d s = Some (line, rest) \<Longrightarrow> s = line @ rest \<and> line \<noteq> []"
  by (induction s arbitrary: line) (auto split: if_splits option.splits)

text \<open>\<open>bytes.Cut\<close> at one byte.\<close>

fun Cut :: "string \<Rightarrow> char \<Rightarrow> (string \<times> string) option" where
  "Cut [] c = None"
| "Cut (x # s) c =
     (if x = c then Some ([], s)
      else (case Cut s c of None \<Rightarrow> None | Some (key, value) \<Rightarrow> Some (x # key, value)))"

text \<open>One header line: the content length after it.\<close>

definition read_header :: "string \<Rightarrow> int \<Rightarrow> read_error + int" where
  "read_header line contentLength =
     (case Cut line CHR '':'' of
        None \<Rightarrow> Inl (ErrInvalidHeader line)
      | Some (key, val) \<Rightarrow>
          if key = ''Content-Length'' then
            (case ParseInt64 (TrimSpace val) of
               None \<Rightarrow> Inl (ErrInvalidContentLength (TrimSpace val))
             | Some n \<Rightarrow> if n < 0 then Inl (ErrInvalidContentLength (TrimSpace val)) else Inr n)
          else Inr contentLength)"

text \<open>The loop over the header lines: it stops at an empty line; what it returns includes the bytes left.\<close>

function read_headers :: "string \<Rightarrow> int \<Rightarrow> (read_error + int) \<times> string" where
  "read_headers s contentLength =
     (case ReadBytes CHR 0x0A s of
        None \<Rightarrow> (Inl EndOfFile, [])
      | Some (line, rest) \<Rightarrow>
          if line = CRLF then (Inr contentLength, rest)
          else (case read_header line contentLength of
                  Inl e \<Rightarrow> (Inl e, rest)
                | Inr n \<Rightarrow> read_headers rest n))"
  by pat_completeness auto
termination
  by (relation "measure (\<lambda>(s, n). length s)") (auto dest!: ReadBytes_split)

declare read_headers.simps [simp del]

definition BaseReader_Read :: "int \<Rightarrow> string \<Rightarrow> ((read_error + string) \<times> string) go" where
  "BaseReader_Read maxAlloc s =
     (case read_headers s 0 of
        (Inl e, rest) \<Rightarrow> Inr (Inl e, rest)
      | (Inr contentLength, rest) \<Rightarrow>
          if contentLength \<le> 0 then Inr (Inl ErrNoContentLength, rest)
          else if maxAlloc < contentLength then Inl (Panicked ''makeslice: len out of range'')
          else if int (length rest) < contentLength then Inr (Inl ReadContent, [])
          else Inr (Inr (take (nat contentLength) rest), drop (nat contentLength) rest))"

section \<open>The writer\<close>

definition BaseWriter_Write :: "string \<Rightarrow> string \<Rightarrow> string" where
  \<comment> \<open>what the stream holds after the message has been written\<close>
  "BaseWriter_Write out data = out @ ''Content-Length: '' @ decimal (int (length data)) @ CRLF @ CRLF @ data"

section \<open>Error codes\<close>

record ErrorCode =
  Name :: string
  Code :: int

definition ErrorCode_Error :: "ErrorCode \<Rightarrow> string" where
  "ErrorCode_Error e = Name e"

definition ErrParseError :: ErrorCode where "ErrParseError = \<lparr>Name = ''ParseError'', Code = -32700\<rparr>"
definition ErrInvalidRequest :: ErrorCode where "ErrInvalidRequest = \<lparr>Name = ''InvalidRequest'', Code = -32600\<rparr>"
definition ErrMethodNotFound :: ErrorCode where "ErrMethodNotFound = \<lparr>Name = ''MethodNotFound'', Code = -32601\<rparr>"
definition ErrInvalidParams :: ErrorCode where "ErrInvalidParams = \<lparr>Name = ''InvalidParams'', Code = -32602\<rparr>"
definition ErrInternalError :: ErrorCode where "ErrInternalError = \<lparr>Name = ''InternalError'', Code = -32603\<rparr>"
definition ErrServerNotInitialized :: ErrorCode where
  "ErrServerNotInitialized = \<lparr>Name = ''ServerNotInitialized'', Code = -32002\<rparr>"
definition ErrUnknownErrorCode :: ErrorCode where
  "ErrUnknownErrorCode = \<lparr>Name = ''UnknownErrorCode'', Code = -32001\<rparr>"
definition ErrRequestFailed :: ErrorCode where "ErrRequestFailed = \<lparr>Name = ''RequestFailed'', Code = -32803\<rparr>"
definition ErrServerCancelled :: ErrorCode where "ErrServerCancelled = \<lparr>Name = ''ServerCancelled'', Code = -32802\<rparr>"
definition ErrContentModified :: ErrorCode where "ErrContentModified = \<lparr>Name = ''ContentModified'', Code = -32801\<rparr>"
definition ErrRequestCancelled :: ErrorCode where
  "ErrRequestCancelled = \<lparr>Name = ''RequestCancelled'', Code = -32800\<rparr>"

section \<open>Reading what was written\<close>

lemma ReadBytes_append: "d \<notin> set w \<Longrightarrow> ReadBytes d (w @ d # s) = Some (w @ [d], s)"
  by (induction w) auto

lemma Cut_append: "c \<notin> set k \<Longrightarrow> Cut (k @ c # v) c = Some (k, v)"
  by (induction k) auto

lemma TrimSpace_header:
  assumes "w \<noteq> []" and "\<forall>x \<in> set w. digit_class (of_char x)"
  shows "TrimSpace ('' '' @ w @ CRLF) = w"
proof -
  have sp: "unicode_IsSpace 32" "unicode_IsSpace 13" "unicode_IsSpace 10"
    by (simp_all add: unicode_IsSpace_def)
  have ends: "digit_class (of_char (hd w))" "digit_class (of_char (last w))" using assms by simp_all
  have no: "\<not> unicode_IsSpace n" "n < 128" if "digit_class n" for n
    using that by (auto simp: digit_class_def unicode_IsSpace_def)
  have "TrimLeftFunc (w @ CRLF) unicode_IsSpace = w @ CRLF"
    using assms(1) no [OF ends(1)] by (cases w) (simp_all add: TrimLeftFunc_ascii)
  then have left: "TrimLeftFunc ('' '' @ w @ CRLF) unicode_IsSpace = w @ CRLF"
    by (simp add: TrimLeftFunc_ascii sp)
  have "TrimRightFunc w unicode_IsSpace = w"
    using assms(1) no [OF ends(2)] TrimRightFunc_ascii [of "last w" "butlast w" unicode_IsSpace] by simp
  then have "TrimRightFunc ((w @ [CHR 0x0D]) @ [CHR 0x0A]) unicode_IsSpace = w"
    using sp TrimRightFunc_ascii [of "CHR 0x0A" "w @ [CHR 0x0D]" unicode_IsSpace]
      TrimRightFunc_ascii [of "CHR 0x0D" w unicode_IsSpace] by simp
  then show ?thesis using left by (simp add: TrimSpace_def)
qed

lemma read_written_header:
  assumes "length data < 2 ^ 63"
  shows "read_headers (''Content-Length: '' @ decimal (int (length data)) @ CRLF @ CRLF @ rest) 0 =
    (Inr (int (length data)), rest)"
proof -
  let ?d = "decimal (int (length data))"
  let ?line = "''Content-Length'' @ CHR '':'' # '' '' @ ?d @ CRLF"
  have digits: "\<forall>x \<in> set ?d. digit_class (of_char x)" using decimal_digits [of "int (length data)"] by simp
  then have nl: "CHR 0x0A \<notin> set (''Content-Length: '' @ ?d @ [CHR 0x0D])" by (auto simp: digit_class_def)
  have 1: "ReadBytes CHR 0x0A (''Content-Length: '' @ ?d @ CRLF @ CRLF @ rest) = Some (?line, CRLF @ rest)"
    using ReadBytes_append [OF nl, of "CRLF @ rest"] by simp
  have "Cut ?line CHR '':'' = Some (''Content-Length'', '' '' @ ?d @ CRLF)"
    by (rule Cut_append) simp
  moreover have "TrimSpace ('' '' @ ?d @ CRLF) = ?d" by (rule TrimSpace_header [OF decimal_nonempty digits])
  moreover have "int (length data) < 2 ^ 63" using assms by (simp add: nat_less_iff [symmetric] flip: of_nat_less_iff)
  then have "ParseInt64 ?d = Some (int (length data))" by (intro ParseInt64_decimal) simp
  ultimately have 2: "read_header ?line 0 = Inr (int (length data))" by (simp add: read_header_def)
  have 3: "read_headers (CRLF @ rest) n = (Inr n, rest)" for n
    by (subst read_headers.simps) simp
  have "?line \<noteq> CRLF" by simp
  with 1 2 3 show ?thesis by (subst read_headers.simps) (simp add: 1)
qed

lemma read_written:
  assumes "data \<noteq> []" and "length data < 2 ^ 63" and "int (length data) \<le> maxAlloc"
  shows "BaseReader_Read maxAlloc (BaseWriter_Write [] data @ rest) = Inr (Inr data, rest)"
  using assms read_written_header [OF assms(2), of "data @ rest"]
  by (simp add: BaseReader_Read_def BaseWriter_Write_def)

definition write_all :: "string list \<Rightarrow> string" where
  "write_all ms = foldl BaseWriter_Write [] ms"

fun read_all :: "int \<Rightarrow> nat \<Rightarrow> string \<Rightarrow> (read_error + string) list go" where
  "read_all maxAlloc 0 s = Inr []"
| "read_all maxAlloc (Suc n) s =
     go_bind (BaseReader_Read maxAlloc s) (\<lambda>(r, rest). go_bind (read_all maxAlloc n rest) (\<lambda>rs. Inr (r # rs)))"

lemma write_from: "foldl BaseWriter_Write out ms = out @ write_all ms"
proof (induction ms arbitrary: out)
  case (Cons m ms)
  have "BaseWriter_Write out m = out @ BaseWriter_Write [] m" by (simp add: BaseWriter_Write_def)
  then show ?case using Cons.IH [of "BaseWriter_Write out m"] Cons.IH [of "BaseWriter_Write [] m"]
    by (simp add: write_all_def)
qed (simp add: write_all_def)

lemma write_all_Cons: "write_all (m # ms) = BaseWriter_Write [] m @ write_all ms"
  using write_from [of "BaseWriter_Write [] m" ms] by (simp add: write_all_def)

text \<open>C18. Framing round trip: the messages one side writes, none of them empty, are what the other side
  reads, one by one and in order, and after the last one the reader reports the end of the stream; it does
  not panic as long as the platform can allocate each message.\<close>

theorem framing_round_trip:
  assumes "\<forall>m \<in> set ms. m \<noteq> [] \<and> length m < 2 ^ 63 \<and> int (length m) \<le> maxAlloc"
  shows "read_all maxAlloc (Suc (length ms)) (write_all ms) = Inr (map Inr ms @ [Inl EndOfFile])"
  using assms
proof (induction ms)
  case Nil
  show ?case by (simp add: write_all_def BaseReader_Read_def read_headers.simps)
next
  case (Cons m ms)
  then have "BaseReader_Read maxAlloc (BaseWriter_Write [] m @ write_all ms) = Inr (Inr m, write_all ms)"
    by (intro read_written) auto
  with Cons show ?case by (simp add: write_all_Cons)
qed

theorem framing_round_trip_witness:
  "read_all (2 ^ 48) 3 (write_all [''{}'', ''null'']) = Inr [Inr ''{}'', Inr ''null'', Inl EndOfFile]"
  using framing_round_trip [of "[''{}'', ''null'']" "2 ^ 48"] by (simp add: numeral_3_eq_3)

text \<open>An empty message is written with length 0, which the reader rejects.\<close>

lemma empty_message_rejected:
  "BaseReader_Read maxAlloc (BaseWriter_Write [] [] @ rest) = Inr (Inl ErrNoContentLength, rest)"
  using read_written_header [of "[]" rest] by (simp add: BaseReader_Read_def BaseWriter_Write_def)

text \<open>A header with a length beyond the largest allocation makes the reader panic, whatever follows.\<close>

lemma long_message_panics:
  assumes "data \<noteq> []" and "length data < 2 ^ 63" and "maxAlloc < int (length data)"
  shows "BaseReader_Read maxAlloc (BaseWriter_Write [] data @ rest) = Inl (Panicked ''makeslice: len out of range'')"
  using assms read_written_header [OF assms(2), of "data @ rest"]
  by (simp add: BaseReader_Read_def BaseWriter_Write_def)

end
