(* ===== verification/Core_Options.thy ===== *)
theory Core_Options
  imports Core_Text Core_Pattern Collections Tspath_Ext
begin

text \<open>
  Compiler options (\<open>internal/core/compileroptions.go\<close>) with the getters that compute the effective
  value of an option from others, the kinds they range over, and small tables of \<open>internal/core\<close>:
  script kinds, Node's core modules, the version. An option's field has the code's name behind \<open>o_\<close>;
  a \<open>nil\<close> slice is told from an empty one only in \<open>TypeRoots\<close> and \<open>Types\<close>, where the code does.
\<close>

section \<open>Kinds\<close>

text \<open>
  The kinds are named integers; their order is the order of the integers. An option holds a named kind,
  which is what parsing options gives; \<open>ModuleResolutionKind_String\<close> takes any integer, as its last case does.
\<close>

datatype ModuleKind =
    ModuleKindNone | ModuleKindCommonJS | ModuleKindAMD | ModuleKindUMD | ModuleKindSystem
  | ModuleKindES2015 | ModuleKindES2020 | ModuleKindES2022 | ModuleKindESNext
  | ModuleKindNode16 | ModuleKindNodeNext | ModuleKindPreserve

fun module_value :: "ModuleKind \<Rightarrow> int" where
  "module_value ModuleKindNone = 0"
| "module_value ModuleKindCommonJS = 1"
| "module_value ModuleKindAMD = 2"
| "module_value ModuleKindUMD = 3"
| "module_value ModuleKindSystem = 4"
| "module_value ModuleKindES2015 = 5"
| "module_value ModuleKindES2020 = 6"
| "module_value ModuleKindES2022 = 7"
| "module_value ModuleKindESNext = 99"
| "module_value ModuleKindNode16 = 100"
| "module_value ModuleKindNodeNext = 199"
| "module_value ModuleKindPreserve = 200"

lemma module_value_inject: "module_value a = module_value b \<Longrightarrow> a = b"
  by (cases a; cases b) simp_all

instantiation ModuleKind :: linorder
begin

definition less_eq_ModuleKind :: "ModuleKind \<Rightarrow> ModuleKind \<Rightarrow> bool" where
  "less_eq_ModuleKind a b = (module_value a \<le> module_value b)"

definition less_ModuleKind :: "ModuleKind \<Rightarrow> ModuleKind \<Rightarrow> bool" where
  "less_ModuleKind a b = (module_value a < module_value b)"

instance
  by standard (auto simp: less_eq_ModuleKind_def less_ModuleKind_def intro: module_value_inject)

end

datatype ScriptTarget =
    ScriptTargetNone | ScriptTargetES5 | ScriptTargetES2015 | ScriptTargetES2016 | ScriptTargetES2017
  | ScriptTargetES2018 | ScriptTargetES2019 | ScriptTargetES2020 | ScriptTargetES2021 | ScriptTargetES2022
  | ScriptTargetES2023 | ScriptTargetES2024 | ScriptTargetESNext | ScriptTargetJSON

fun target_value :: "ScriptTarget \<Rightarrow> int" where
  "target_value ScriptTargetNone = 0"
| "target_value ScriptTargetES5 = 1"
| "target_value ScriptTargetES2015 = 2"
| "target_value ScriptTargetES2016 = 3"
| "target_value ScriptTargetES2017 = 4"
| "target_value ScriptTargetES2018 = 5"
| "target_value ScriptTargetES2019 = 6"
| "target_value ScriptTargetES2020 = 7"
| "target_value ScriptTargetES2021 = 8"
| "target_value ScriptTargetES2022 = 9"
| "target_value ScriptTargetES2023 = 10"
| "target_value ScriptTargetES2024 = 11"
| "target_value ScriptTargetESNext = 99"
| "target_value ScriptTargetJSON = 100"

lemma target_value_inject: "target_value a = target_value b \<Longrightarrow> a = b"
  by (cases a; cases b) simp_all

instantiation ScriptTarget :: linorder
begin

definition less_eq_ScriptTarget :: "ScriptTarget \<Rightarrow> ScriptTarget \<Rightarrow> bool" where
  "less_eq_ScriptTarget a b = (target_value a \<le> target_value b)"

definition less_ScriptTarget :: "ScriptTarget \<Rightarrow> ScriptTarget \<Rightarrow> bool" where
  "less_ScriptTarget a b = (target_value a < target_value b)"

instance
  by standard (auto simp: less_eq_ScriptTarget_def less_ScriptTarget_def intro: target_value_inject)

end

datatype ModuleResolutionKind =
    ModuleResolutionKindUnknown | ModuleResolutionKindNode16 | ModuleResolutionKindNodeNext
  | ModuleResolutionKindBundler

datatype ModuleDetectionKind =
    ModuleDetectionKindNone | ModuleDetectionKindAuto | ModuleDetectionKindLegacy | ModuleDetectionKindForce

datatype NewLineKind = NewLineKindNone | NewLineKindCRLF | NewLineKindLF

datatype JsxEmit =
    JsxEmitNone | JsxEmitPreserve | JsxEmitReactNative | JsxEmitReact | JsxEmitReactJSX | JsxEmitReactJSXDev

datatype ScriptKind =
    ScriptKindUnknown | ScriptKindJS | ScriptKindJSX | ScriptKindTS | ScriptKindTSX | ScriptKindExternal
  | ScriptKindJSON | ScriptKindDeferred

definition IsNonNodeESM :: "ModuleKind \<Rightarrow> bool" where
  "IsNonNodeESM k = (ModuleKindES2015 \<le> k \<and> k \<le> ModuleKindESNext)"

fun resolution_value :: "ModuleResolutionKind \<Rightarrow> int" where
  "resolution_value ModuleResolutionKindUnknown = 0"
| "resolution_value ModuleResolutionKindNode16 = 3"
| "resolution_value ModuleResolutionKindNodeNext = 99"
| "resolution_value ModuleResolutionKindBundler = 100"

definition ModuleResolutionKind_String :: "int \<Rightarrow> string go" where
  "ModuleResolutionKind_String m =
     (if m = resolution_value ModuleResolutionKindUnknown
      then Inl (Panicked ''should not use zero value of ModuleResolutionKind'')
      else if m = resolution_value ModuleResolutionKindNode16 then Inr ''Node16''
      else if m = resolution_value ModuleResolutionKindNodeNext then Inr ''NodeNext''
      else if m = resolution_value ModuleResolutionKindBundler then Inr ''Bundler''
      else Inl (Panicked ''unhandled case in ModuleResolutionKind.String''))"

definition GetNewLineCharacter :: "NewLineKind \<Rightarrow> string" where
  "GetNewLineCharacter k = (case k of NewLineKindCRLF \<Rightarrow> [CR, LF] | _ \<Rightarrow> [LF])"

section \<open>The options\<close>

record CompilerOptions =
  o_AllowJs :: Tristate
  o_AllowArbitraryExtensions :: Tristate
  o_AllowSyntheticDefaultImports :: Tristate
  o_AllowImportingTsExtensions :: Tristate
  o_AllowNonTsExtensions :: Tristate
  o_AllowUmdGlobalAccess :: Tristate
  o_AllowUnreachableCode :: Tristate
  o_AllowUnusedLabels :: Tristate
  o_AssumeChangesOnlyAffectDirectDependencies :: Tristate
  o_AlwaysStrict :: Tristate
  o_BaseUrl :: string
  o_Build :: Tristate
  o_CheckJs :: Tristate
  o_CustomConditions :: "string list"
  o_Composite :: Tristate
  o_EmitDeclarationOnly :: Tristate
  o_EmitBOM :: Tristate
  o_EmitDecoratorMetadata :: Tristate
  o_DownlevelIteration :: Tristate
  o_Declaration :: Tristate
  o_DeclarationDir :: string
  o_DeclarationMap :: Tristate
  o_DisableSizeLimit :: Tristate
  o_DisableSourceOfProjectReferenceRedirect :: Tristate
  o_DisableSolutionSearching :: Tristate
  o_DisableReferencedProjectLoad :: Tristate
  o_ESModuleInterop :: Tristate
  o_ExactOptionalPropertyTypes :: Tristate
  o_ExperimentalDecorators :: Tristate
  o_ForceConsistentCasingInFileNames :: Tristate
  o_IsolatedModules :: Tristate
  o_IsolatedDeclarations :: Tristate
  o_IgnoreDeprecations :: string
  o_ImportHelpers :: Tristate
  o_InlineSourceMap :: Tristate
  o_InlineSources :: Tristate
  o_Init :: Tristate
  o_Incremental :: Tristate
  o_Jsx :: JsxEmit
  o_JsxFactory :: string
  o_JsxFragmentFactory :: string
  o_JsxImportSource :: string
  o_KeyofStringsOnly :: Tristate
  o_Lib :: "string list"
  o_Locale :: string
  o_MapRoot :: string
  o_Module :: ModuleKind
  o_ModuleResolution :: ModuleResolutionKind
  o_ModuleSuffixes :: "string list"
  o_ModuleDetection :: ModuleDetectionKind
  o_NewLine :: NewLineKind
  o_NoEmit :: Tristate
  o_NoCheck :: Tristate
  o_NoErrorTruncation :: Tristate
  o_NoFallthroughCasesInSwitch :: Tristate
  o_NoImplicitAny :: Tristate
  o_NoImplicitThis :: Tristate
  o_NoImplicitReturns :: Tristate
  o_NoEmitHelpers :: Tristate
  o_NoLib :: Tristate
  o_NoPropertyAccessFromIndexSignature :: Tristate
  o_NoUncheckedIndexedAccess :: Tristate
  o_NoEmitOnError :: Tristate
  o_NoUnusedLocals :: Tristate
  o_NoUnusedParameters :: Tristate
  o_NoResolve :: Tristate
  o_NoImplicitOverride :: Tristate
  o_NoUncheckedSideEffectImports :: Tristate
  o_Out :: string
  o_OutDir :: string
  o_OutFile :: string
  o_Paths :: "(string, string list) OrderedMap option"
  o_PreserveConstEnums :: Tristate
  o_PreserveSymlinks :: Tristate
  o_Project :: string
  o_ResolveJsonModule :: Tristate
  o_ResolvePackageJsonExports :: Tristate
  o_ResolvePackageJsonImports :: Tristate
  o_RemoveComments :: Tristate
  o_RewriteRelativeImportExtensions :: Tristate
  o_ReactNamespace :: string
  o_RootDir :: string
  o_RootDirs :: "string list"
  o_SkipLibCheck :: Tristate
  o_Strict :: Tristate
  o_StrictBindCallApply :: Tristate
  o_StrictBuiltinIteratorReturn :: Tristate
  o_StrictFunctionTypes :: Tristate
  o_StrictNullChecks :: Tristate
  o_StrictPropertyInitialization :: Tristate
  o_StripInternal :: Tristate
  o_SkipDefaultLibCheck :: Tristate
  o_SourceMap :: Tristate
  o_SourceRoot :: string
  o_SuppressOutputPathCheck :: Tristate
  o_Target :: ScriptTarget
  o_TraceResolution :: Tristate
  o_TsBuildInfoFile :: string
  o_TypeRoots :: "string list option"
  o_Types :: "string list option"
  o_UseDefineForClassFields :: Tristate
  o_UseUnknownInCatchVariables :: Tristate
  o_VerbatimModuleSyntax :: Tristate
  o_MaxNodeModuleJsDepth :: "int option"
  o_ConfigFilePath :: string
  o_NoDtsResolution :: Tristate
  o_PathsBasePath :: string
  o_Diagnostics :: Tristate
  o_ExtendedDiagnostics :: Tristate
  o_GenerateCpuProfile :: string
  o_GenerateTrace :: string
  o_ListEmittedFiles :: Tristate
  o_ListFiles :: Tristate
  o_ExplainFiles :: Tristate
  o_ListFilesOnly :: Tristate
  o_NoEmitForJsFiles :: Tristate
  o_PreserveWatchOutput :: Tristate
  o_Pretty :: Tristate
  o_Version :: Tristate
  o_Watch :: Tristate
  o_ShowConfig :: Tristate
  o_TscBuild :: Tristate
  o_Help :: Tristate
  o_All :: Tristate
  o_PprofDir :: string
  o_SingleThreaded :: Tristate
  o_Quiet :: Tristate

text \<open>The zero value of the struct.\<close>

definition zero_options :: CompilerOptions where
  "zero_options =
     \<lparr>o_AllowJs = TSUnknown, o_AllowArbitraryExtensions = TSUnknown,
      o_AllowSyntheticDefaultImports = TSUnknown, o_AllowImportingTsExtensions = TSUnknown,
      o_AllowNonTsExtensions = TSUnknown, o_AllowUmdGlobalAccess = TSUnknown,
      o_AllowUnreachableCode = TSUnknown, o_AllowUnusedLabels = TSUnknown,
      o_AssumeChangesOnlyAffectDirectDependencies = TSUnknown, o_AlwaysStrict = TSUnknown, o_BaseUrl = [],
      o_Build = TSUnknown, o_CheckJs = TSUnknown, o_CustomConditions = [], o_Composite = TSUnknown,
      o_EmitDeclarationOnly = TSUnknown, o_EmitBOM = TSUnknown, o_EmitDecoratorMetadata = TSUnknown,
      o_DownlevelIteration = TSUnknown, o_Declaration = TSUnknown, o_DeclarationDir = [],
      o_DeclarationMap = TSUnknown, o_DisableSizeLimit = TSUnknown,
      o_DisableSourceOfProjectReferenceRedirect = TSUnknown, o_DisableSolutionSearching = TSUnknown,
      o_DisableReferencedProjectLoad = TSUnknown, o_ESModuleInterop = TSUnknown,
      o_ExactOptionalPropertyTypes = TSUnknown, o_ExperimentalDecorators = TSUnknown,
      o_ForceConsistentCasingInFileNames = TSUnknown, o_IsolatedModules = TSUnknown,
      o_IsolatedDeclarations = TSUnknown, o_IgnoreDeprecations = [], o_ImportHelpers = TSUnknown,
      o_InlineSourceMap = TSUnknown, o_InlineSources = TSUnknown, o_Init = TSUnknown,
      o_Incremental = TSUnknown, o_Jsx = JsxEmitNone, o_JsxFactory = [], o_JsxFragmentFactory = [],
      o_JsxImportSource = [], o_KeyofStringsOnly = TSUnknown, o_Lib = [], o_Locale = [], o_MapRoot = [],
      o_Module = ModuleKindNone, o_ModuleResolution = ModuleResolutionKindUnknown, o_ModuleSuffixes = [],
      o_ModuleDetection = ModuleDetectionKindNone, o_NewLine = NewLineKindNone, o_NoEmit = TSUnknown,
      o_NoCheck = TSUnknown, o_NoErrorTruncation = TSUnknown, o_NoFallthroughCasesInSwitch = TSUnknown,
      o_NoImplicitAny = TSUnknown, o_NoImplicitThis = TSUnknown, o_NoImplicitReturns = TSUnknown,
      o_NoEmitHelpers = TSUnknown, o_NoLib = TSUnknown, o_NoPropertyAccessFromIndexSignature = TSUnknown,
      o_NoUncheckedIndexedAccess = TSUnknown, o_NoEmitOnError = TSUnknown, o_NoUnusedLocals = TSUnknown,
      o_NoUnusedParameters = TSUnknown, o_NoResolve = TSUnknown, o_NoImplicitOverride = TSUnknown,
      o_NoUncheckedSideEffectImports = TSUnknown, o_Out = [], o_OutDir = [], o_OutFile = [], o_Paths = None,
      o_PreserveConstEnums = TSUnknown, o_PreserveSymlinks = TSUnknown, o_Project = [],
      o_ResolveJsonModule = TSUnknown, o_ResolvePackageJsonExports = TSUnknown,
      o_ResolvePackageJsonImports = TSUnknown, o_RemoveComments = TSUnknown,
      o_RewriteRelativeImportExtensions = TSUnknown, o_ReactNamespace = [], o_RootDir = [], o_RootDirs = [],
      o_SkipLibCheck = TSUnknown, o_Strict = TSUnknown, o_StrictBindCallApply = TSUnknown,
      o_StrictBuiltinIteratorReturn = TSUnknown, o_StrictFunctionTypes = TSUnknown,
      o_StrictNullChecks = TSUnknown, o_StrictPropertyInitialization = TSUnknown, o_StripInternal = TSUnknown,
      o_SkipDefaultLibCheck = TSUnknown, o_SourceMap = TSUnknown, o_SourceRoot = [],
      o_SuppressOutputPathCheck = TSUnknown, o_Target = ScriptTargetNone, o_TraceResolution = TSUnknown,
      o_TsBuildInfoFile = [], o_TypeRoots = None, o_Types = None, o_UseDefineForClassFields = TSUnknown,
      o_UseUnknownInCatchVariables = TSUnknown, o_VerbatimModuleSyntax = TSUnknown,
      o_MaxNodeModuleJsDepth = None, o_ConfigFilePath = [], o_NoDtsResolution = TSUnknown,
      o_PathsBasePath = [], o_Diagnostics = TSUnknown, o_ExtendedDiagnostics = TSUnknown,
      o_GenerateCpuProfile = [], o_GenerateTrace = [], o_ListEmittedFiles = TSUnknown,
      o_ListFiles = TSUnknown, o_ExplainFiles = TSUnknown, o_ListFilesOnly = TSUnknown,
      o_NoEmitForJsFiles = TSUnknown, o_PreserveWatchOutput = TSUnknown, o_Pretty = TSUnknown,
      o_Version = TSUnknown, o_Watch = TSUnknown, o_ShowConfig = TSUnknown, o_TscBuild = TSUnknown,
      o_Help = TSUnknown, o_All = TSUnknown, o_PprofDir = [], o_SingleThreaded = TSUnknown,
      o_Quiet = TSUnknown\<rparr>"

section \<open>Effective options\<close>

definition GetEmitModuleKind :: "CompilerOptions \<Rightarrow> ModuleKind" where
  "GetEmitModuleKind options =
     (if o_Module options \<noteq> ModuleKindNone then o_Module options
      else if o_Target options \<ge> ScriptTargetES2015 then ModuleKindES2015
      else ModuleKindCommonJS)"

definition GetEmitScriptTarget :: "CompilerOptions \<Rightarrow> ScriptTarget" where
  "GetEmitScriptTarget options =
     (if o_Target options \<noteq> ScriptTargetNone then o_Target options
      else (case GetEmitModuleKind options of
              ModuleKindNode16 \<Rightarrow> ScriptTargetES2022
            | ModuleKindNodeNext \<Rightarrow> ScriptTargetESNext
            | _ \<Rightarrow> ScriptTargetES5))"

definition GetModuleResolutionKind :: "CompilerOptions \<Rightarrow> ModuleResolutionKind" where
  "GetModuleResolutionKind options =
     (if o_ModuleResolution options \<noteq> ModuleResolutionKindUnknown then o_ModuleResolution options
      else (case GetEmitModuleKind options of
              ModuleKindNode16 \<Rightarrow> ModuleResolutionKindNode16
            | ModuleKindNodeNext \<Rightarrow> ModuleResolutionKindNodeNext
            | _ \<Rightarrow> ModuleResolutionKindBundler))"

definition GetResolvePackageJsonExports :: "CompilerOptions \<Rightarrow> bool" where
  "GetResolvePackageJsonExports options = IsTrueOrUnknown (o_ResolvePackageJsonExports options)"

definition GetResolvePackageJsonImports :: "CompilerOptions \<Rightarrow> bool" where
  "GetResolvePackageJsonImports options = IsTrueOrUnknown (o_ResolvePackageJsonImports options)"

definition GetAllowImportingTsExtensions :: "CompilerOptions \<Rightarrow> bool" where
  "GetAllowImportingTsExtensions options =
     (IsTrue (o_AllowImportingTsExtensions options) \<or> IsTrue (o_RewriteRelativeImportExtensions options))"

definition AllowImportingTsExtensionsFrom :: "CompilerOptions \<Rightarrow> string \<Rightarrow> bool" where
  "AllowImportingTsExtensionsFrom options fileName =
     (GetAllowImportingTsExtensions options \<or> IsDeclarationFileName fileName)"

definition GetESModuleInterop :: "CompilerOptions \<Rightarrow> bool" where
  "GetESModuleInterop options =
     (if o_ESModuleInterop options \<noteq> TSUnknown then o_ESModuleInterop options = TSTrue
      else (case GetEmitModuleKind options of
              ModuleKindNode16 \<Rightarrow> True | ModuleKindNodeNext \<Rightarrow> True | ModuleKindPreserve \<Rightarrow> True | _ \<Rightarrow> False))"

definition GetAllowSyntheticDefaultImports :: "CompilerOptions \<Rightarrow> bool" where
  "GetAllowSyntheticDefaultImports options =
     (if o_AllowSyntheticDefaultImports options \<noteq> TSUnknown then o_AllowSyntheticDefaultImports options = TSTrue
      else GetESModuleInterop options \<or> GetEmitModuleKind options = ModuleKindSystem \<or>
           GetModuleResolutionKind options = ModuleResolutionKindBundler)"

definition GetResolveJsonModule :: "CompilerOptions \<Rightarrow> bool" where
  "GetResolveJsonModule options =
     (if o_ResolveJsonModule options \<noteq> TSUnknown then o_ResolveJsonModule options = TSTrue
      else GetModuleResolutionKind options = ModuleResolutionKindBundler)"

definition ShouldPreserveConstEnums :: "CompilerOptions \<Rightarrow> bool" where
  "ShouldPreserveConstEnums options = (o_PreserveConstEnums options = TSTrue \<or> o_IsolatedModules options = TSTrue)"

definition GetAllowJS :: "CompilerOptions \<Rightarrow> bool" where
  "GetAllowJS options =
     (if o_AllowJs options \<noteq> TSUnknown then o_AllowJs options = TSTrue else o_CheckJs options = TSTrue)"

definition GetJSXTransformEnabled :: "CompilerOptions \<Rightarrow> bool" where
  "GetJSXTransformEnabled options =
     (let jsx = o_Jsx options in jsx = JsxEmitReact \<or> jsx = JsxEmitReactJSX \<or> jsx = JsxEmitReactJSXDev)"

definition GetEffectiveTypeRoots :: "CompilerOptions \<Rightarrow> string \<Rightarrow> (string list \<times> bool) go" where
  "GetEffectiveTypeRoots options currentDirectory =
     (case o_TypeRoots options of
        Some roots \<Rightarrow> Inr (roots, True)
      | None \<Rightarrow>
          let baseDir = (if o_ConfigFilePath options \<noteq> [] then GetDirectoryPath (o_ConfigFilePath options)
                         else currentDirectory)
          in if o_ConfigFilePath options = [] \<and> baseDir = []
             then Inl (Panicked ''cannot get effective type roots without a config file path or current directory'')
             else
               let (_ :: unit option, typeRoots) =
                 ForEachAncestorDirectory
                   (\<lambda>dir roots. (((), False), roots @ [CombinePaths dir [''node_modules'', ''@types'']])) baseDir []
               in Inr (typeRoots, False))"

definition GetIsolatedModules :: "CompilerOptions \<Rightarrow> bool" where
  "GetIsolatedModules options = (o_IsolatedModules options = TSTrue \<or> o_VerbatimModuleSyntax options = TSTrue)"

definition GetEmitStandardClassFields :: "CompilerOptions \<Rightarrow> bool" where
  "GetEmitStandardClassFields options =
     (o_UseDefineForClassFields options \<noteq> TSFalse \<and> GetEmitScriptTarget options \<ge> ScriptTargetES2022)"

definition GetEmitDeclarations :: "CompilerOptions \<Rightarrow> bool" where
  "GetEmitDeclarations options = (IsTrue (o_Declaration options) \<or> IsTrue (o_Composite options))"

definition GetAreDeclarationMapsEnabled :: "CompilerOptions \<Rightarrow> bool" where
  "GetAreDeclarationMapsEnabled options = (o_DeclarationMap options = TSTrue \<and> GetEmitDeclarations options)"

definition HasJsonModuleEmitEnabled :: "CompilerOptions \<Rightarrow> bool" where
  "HasJsonModuleEmitEnabled options =
     (case GetEmitModuleKind options of
        ModuleKindNone \<Rightarrow> False | ModuleKindSystem \<Rightarrow> False | ModuleKindUMD \<Rightarrow> False | _ \<Rightarrow> True)"

definition GetPathsBasePath :: "CompilerOptions \<Rightarrow> string \<Rightarrow> string" where
  "GetPathsBasePath options currentDirectory =
     (if OrderedMap_Size (o_Paths options) = 0 then []
      else if o_PathsBasePath options \<noteq> [] then o_PathsBasePath options
      else currentDirectory)"

record SourceFileAffectingCompilerOptions =
  AllowUnreachableCode :: Tristate
  AllowUnusedLabels :: Tristate
  BindInStrictMode :: bool
  EmitScriptTarget :: ScriptTarget
  NoFallthroughCasesInSwitch :: Tristate
  PreserveConstEnums :: bool

definition SourceFileAffecting :: "CompilerOptions \<Rightarrow> SourceFileAffectingCompilerOptions" where
  "SourceFileAffecting options =
     \<lparr>AllowUnreachableCode = o_AllowUnreachableCode options,
      AllowUnusedLabels = o_AllowUnusedLabels options,
      BindInStrictMode = (IsTrue (o_AlwaysStrict options) \<or> IsTrue (o_Strict options)),
      EmitScriptTarget = GetEmitScriptTarget options,
      NoFallthroughCasesInSwitch = o_NoFallthroughCasesInSwitch options,
      PreserveConstEnums = ShouldPreserveConstEnums options\<rparr>"

section \<open>Files\<close>

definition GetScriptKindFromFileName :: "(nat \<Rightarrow> nat) \<Rightarrow> string \<Rightarrow> ScriptKind" where
  "GetScriptKindFromFileName lower fileName =
     (let dotPos = LastIndexByte fileName CHR ''.'' in
      if dotPos \<ge> 0 then
        let ext = strings_Map (unicode_ToLower lower) (drop (nat dotPos) fileName) in
        if ext = ''.js'' \<or> ext = ''.cjs'' \<or> ext = ''.mjs'' then ScriptKindJS
        else if ext = ''.jsx'' then ScriptKindJSX
        else if ext = ''.ts'' \<or> ext = ''.cts'' \<or> ext = ''.mts'' then ScriptKindTS
        else if ext = ''.tsx'' then ScriptKindTSX
        else if ext = ''.json'' then ScriptKindJSON
        else ScriptKindUnknown
      else ScriptKindUnknown)"

definition GetOutputExtension :: "string \<Rightarrow> JsxEmit \<Rightarrow> string" where
  "GetOutputExtension fileName jsx =
     (if FileExtensionIs fileName ''.json'' then ''.json''
      else if jsx = JsxEmitPreserve \<and> FileExtensionIsOneOf fileName [''.jsx'', ''.tsx''] then ''.jsx''
      else if FileExtensionIsOneOf fileName [''.mts'', ''.mjs''] then ''.mjs''
      else if FileExtensionIsOneOf fileName [''.cts'', ''.cjs''] then ''.cjs''
      else ''.js'')"

section \<open>Node's core modules\<close>

definition UnprefixedNodeCoreModules :: "string list" where
  "UnprefixedNodeCoreModules =
    [''assert'', ''assert/strict'', ''async_hooks'', ''buffer'', ''child_process'', ''cluster'',
     ''console'', ''constants'', ''crypto'', ''dgram'', ''diagnostics_channel'', ''dns'',
     ''dns/promises'', ''domain'', ''events'', ''fs'', ''fs/promises'', ''http'', ''http2'',
     ''https'', ''inspector'', ''inspector/promises'', ''module'', ''net'', ''os'', ''path'',
     ''path/posix'', ''path/win32'', ''perf_hooks'', ''process'', ''punycode'', ''querystring'',
     ''readline'', ''readline/promises'', ''repl'', ''stream'', ''stream/consumers'',
     ''stream/promises'', ''stream/web'', ''string_decoder'', ''sys'', ''test/mock_loader'',
     ''timers'', ''timers/promises'', ''tls'', ''trace_events'', ''tty'', ''url'', ''util'',
     ''util/types'', ''v8'', ''vm'', ''wasi'', ''worker_threads'', ''zlib'']"

definition ExclusivelyPrefixedNodeCoreModules :: "string list" where
  "ExclusivelyPrefixedNodeCoreModules =
    [''node:sea'', ''node:sqlite'', ''node:test'', ''node:test/reporters'']"

definition nodeCoreModules :: "string list" where
  "nodeCoreModules =
     concat (map (\<lambda>m. [m, ''node:'' @ m]) UnprefixedNodeCoreModules) @ ExclusivelyPrefixedNodeCoreModules"

definition NonRelativeModuleNameForTypingCache :: "string \<Rightarrow> string" where
  "NonRelativeModuleNameForTypingCache moduleName =
     (if moduleName \<in> set nodeCoreModules then ''node'' else moduleName)"

section \<open>The version\<close>

text \<open>\<open>version\<close> can be replaced when the program is linked, so it is an argument.\<close>

fun second_dot :: "string \<Rightarrow> bool \<Rightarrow> nat option" where
  "second_dot [] seenMajor = None"
| "second_dot (c # s) seenMajor =
     (if c = CHR ''.'' \<and> seenMajor then Some 0
      else map_option Suc (second_dot s (seenMajor \<or> c = CHR ''.'')))"

definition versionMajorMinor :: "string \<Rightarrow> string go" where
  "versionMajorMinor version =
     (case second_dot version False of
        None \<Rightarrow> Inl (Panicked (''invalid version string: '' @ version))
      | Some i \<Rightarrow> Inr (take i version))"

section \<open>The defaults fit together\<close>

text \<open>The effective resolution kind always has a name: \<open>String\<close> does not panic on it.\<close>

lemma resolution_kind_named:
  "ModuleResolutionKind_String (resolution_value (GetModuleResolutionKind options)) \<in>
     Inr ` {''Node16'', ''NodeNext'', ''Bundler''}"
proof -
  have "GetModuleResolutionKind options \<noteq> ModuleResolutionKindUnknown"
    by (simp add: GetModuleResolutionKind_def split: ModuleKind.splits)
  then show ?thesis
    by (cases "GetModuleResolutionKind options") (simp_all add: ModuleResolutionKind_String_def)
qed

end
