(* ===== verification/Ls_Converters.thy ===== *)
theory Ls_Converters
  imports Core_Text Compare Strconv
begin

text \<open>
  Positions in the language server protocol (\<open>internal/ls/linemap.go\<close>, \<open>converters.go\<close>). The compiler
  counts bytes of UTF-8, the protocol lines and UTF-16 code units (or bytes, where the client can).
  Byte offsets are below \<open>2^31\<close> as in \<open>Core_Text\<close>; what a client sends is a 32-bit word whose
  conversion to the compiler's \<open>int32\<close> is written out.
\<close>

section \<open>Line maps\<close>

record LineMap =
  LineStarts :: "nat list"
  AsciiOnly :: bool

function ls_scan :: "string \<Rightarrow> nat \<Rightarrow> nat \<Rightarrow> bool \<Rightarrow> nat list \<times> bool" where
  "ls_scan text pos lineStart asciiOnly =
     (if pos < length text then
        (let b = text ! pos in
         if of_char b < (128::nat) then
           (let pos1 = pos + 1 in
            if b = CR then
              (let pos2 = (if pos1 < length text \<and> text ! pos1 = LF then pos1 + 1 else pos1)
               in apfst ((#) lineStart) (ls_scan text pos2 pos2 asciiOnly))
            else if b = LF then apfst ((#) lineStart) (ls_scan text pos1 pos1 asciiOnly)
            else ls_scan text pos1 lineStart asciiOnly)
         else ls_scan text (pos + snd (DecodeRuneInString (drop pos text))) lineStart False)
      else ([lineStart], asciiOnly))"
  by pat_completeness auto
termination
proof (relation "measure (\<lambda>(text, pos, ls, a). length text - pos)", goal_cases)
  case (5 t pos ls a b)
  then have "drop pos t \<noteq> []" by simp
  from decode_width(1) [OF this] 5 show ?case by auto
qed auto

declare ls_scan.simps [simp del]

definition ls_ComputeLineStarts :: "string \<Rightarrow> LineMap" where
  "ls_ComputeLineStarts text =
     (case ls_scan text 0 0 True of (starts, ascii) \<Rightarrow> \<lparr>LineStarts = starts, AsciiOnly = ascii\<rparr>)"

section \<open>Converters\<close>

type_synonym PositionEncodingKind = string

definition PositionEncodingKindUTF8 :: PositionEncodingKind where
  "PositionEncodingKindUTF8 = ''utf-8''"

record Position =
  Line :: int
  Character :: int

record Range =
  Start :: Position
  End :: Position

record Script =
  FileName :: string
  Text :: string

record Converters =
  getLineMap :: "string \<Rightarrow> LineMap"
  positionEncoding :: PositionEncodingKind

definition uint32 :: "int \<Rightarrow> int" where
  "uint32 x = take_bit 32 x"

text \<open>\<open>utf16.RuneLen\<close> and \<open>utf8.RuneLen\<close> on runes a string yields, which are never surrogates.\<close>

definition utf16_RuneLen :: "nat \<Rightarrow> nat" where
  "utf16_RuneLen r = (if r < 65536 then 1 else 2)"

definition utf8_RuneLen :: "nat \<Rightarrow> nat" where
  "utf8_RuneLen r = (if r < 128 then 1 else if r < 2048 then 2 else if r < 65536 then 3 else 4)"

text \<open>The loop of \<open>LineAndCharacterToPosition\<close> over the runes from the line's start.\<close>

function utf16_scan :: "string \<Rightarrow> nat \<Rightarrow> nat \<Rightarrow> nat \<Rightarrow> int \<Rightarrow> nat" where
  "utf16_scan s i utf8Char utf16Char char =
     (if i < length s then
        (case DecodeRuneInString (drop i s) of (r, n) \<Rightarrow>
           let u16Len = utf16_RuneLen r in
           if char < int (utf16Char + u16Len) then utf8Char
           else utf16_scan s (i + n) (i + utf8_RuneLen r) (utf16Char + u16Len) char)
      else utf8Char)"
  by pat_completeness auto
termination
proof (relation "measure (\<lambda>(s, i, u8, u16, c). length s - i)", goal_cases)
  case (2 s i u8 u16 c r n u)
  then have "drop i s \<noteq> []" by simp
  from decode_width(1) [OF this] 2 show ?case by (auto simp: snd_eq_iff)
qed simp

declare utf16_scan.simps [simp del]

definition LineAndCharacterToPosition :: "Converters \<Rightarrow> Script \<Rightarrow> Position \<Rightarrow> int go" where
  "LineAndCharacterToPosition c script p =
     (let lineMap = getLineMap c (FileName script);
          line = int32 (Line p);
          char = int32 (Character p)
      in if line < 0 \<or> int (length (LineStarts lineMap)) \<le> line then Inl (Panicked ''bad line number'')
         else
           let start = LineStarts lineMap ! nat line in
           if AsciiOnly lineMap \<or> positionEncoding c = PositionEncodingKindUTF8
           then Inr (int32 (int start + char))
           else go_bind (go_slice (Text script) (int start) (int (length (Text script)))) (\<lambda>s.
                  Inr (int start + int (utf16_scan s 0 0 0 char))))"

definition utf16_length :: "string \<Rightarrow> nat" where
  "utf16_length s = foldl (\<lambda>n r. n + utf16_RuneLen r) 0 (runes s)"

definition Converters_PositionToLineAndCharacter :: "Converters \<Rightarrow> Script \<Rightarrow> int \<Rightarrow> Position go" where
  "Converters_PositionToLineAndCharacter c script position =
     (let lineMap = getLineMap c (FileName script);
          (line0, isLineStart) = BinarySearchFunc (map int (LineStarts lineMap)) position cmp_Compare;
          line1 = (if \<not> isLineStart then int line0 - 1 else int line0);
          line = max 0 line1
      in go_bind (index_get (LineStarts lineMap) line) (\<lambda>start.
         go_bind
           (if AsciiOnly lineMap \<or> positionEncoding c = PositionEncodingKindUTF8
            then Inr (int32 (position - int start))
            else go_bind (go_slice (Text script) (int start) position) (\<lambda>s. Inr (int (utf16_length s))))
           (\<lambda>character. Inr \<lparr>Line = uint32 line, Character = uint32 character\<rparr>)))"

definition ToLSPRange :: "Converters \<Rightarrow> Script \<Rightarrow> TextRange \<Rightarrow> Range go" where
  "ToLSPRange c script r =
     go_bind (Converters_PositionToLineAndCharacter c script (tr_pos r)) (\<lambda>s.
     go_bind (Converters_PositionToLineAndCharacter c script (tr_end r)) (\<lambda>e. Inr \<lparr>Start = s, End = e\<rparr>))"

definition FromLSPRange :: "Converters \<Rightarrow> Script \<Rightarrow> Range \<Rightarrow> TextRange go" where
  "FromLSPRange c script r =
     go_bind (LineAndCharacterToPosition c script (Start r)) (\<lambda>s.
     go_bind (LineAndCharacterToPosition c script (End r)) (\<lambda>e. Inr (NewTextRange s e)))"

record TextChange =
  tc_range :: TextRange
  NewText :: string

definition ApplyTo :: "TextChange \<Rightarrow> string \<Rightarrow> string go" where
  "ApplyTo t text =
     go_bind (go_slice text 0 (tr_pos (tc_range t))) (\<lambda>a.
     go_bind (go_slice text (tr_end (tc_range t)) (int (length text))) (\<lambda>b. Inr (a @ NewText t @ b)))"

definition FromLSPTextChange :: "Converters \<Rightarrow> Script \<Rightarrow> Range \<Rightarrow> string \<Rightarrow> TextChange go" where
  "FromLSPTextChange c script r newText =
     go_bind (FromLSPRange c script r) (\<lambda>t. Inr \<lparr>tc_range = t, NewText = newText\<rparr>)"

section \<open>Well-formed texts\<close>

inductive valid_utf8 :: "string \<Rightarrow> bool" where
  valid_empty: "valid_utf8 []"
| valid_rune: "s \<noteq> [] \<Longrightarrow> DecodeRuneInString s = (r, n) \<Longrightarrow> (r, n) \<noteq> (RuneError, 1) \<Longrightarrow> valid_utf8 (drop n s) \<Longrightarrow>
     valid_utf8 s"

inductive_cases valid_utf8E: "valid_utf8 s"

text \<open>A decoded rune has the length of its encoding unless it is an encoding error.\<close>

lemma second_bounds:
  "second_ok b0 b1 \<Longrightarrow> 128 \<le> b1 \<and> b1 \<le> 191 \<and> (b0 = 224 \<longrightarrow> 160 \<le> b1) \<and> (b0 = 240 \<longrightarrow> 144 \<le> b1)"
  by (auto simp: second_ok_def cont_def split: if_splits)

lemma two_byte_length:
  "194 \<le> b0 \<Longrightarrow> b0 < 224 \<Longrightarrow> 128 \<le> b1 \<Longrightarrow> b1 \<le> 191 \<Longrightarrow> utf8_RuneLen ((b0 - 192) * 64 + (b1 - 128)) = 2"
  unfolding utf8_RuneLen_def by auto

lemma three_byte_length:
  "224 \<le> b0 \<Longrightarrow> b0 < 240 \<Longrightarrow> 128 \<le> b1 \<Longrightarrow> b1 \<le> 191 \<Longrightarrow> (b0 = 224 \<Longrightarrow> 160 \<le> b1) \<Longrightarrow> 128 \<le> b2 \<Longrightarrow> b2 \<le> 191 \<Longrightarrow>
   utf8_RuneLen ((b0 - 224) * 4096 + (b1 - 128) * 64 + (b2 - 128)) = 3"
  unfolding utf8_RuneLen_def by (cases "b0 = 224") auto

lemma four_byte_length:
  "240 \<le> b0 \<Longrightarrow> 128 \<le> b1 \<Longrightarrow> (b0 = 240 \<Longrightarrow> 144 \<le> b1) \<Longrightarrow>
   utf8_RuneLen ((b0 - 240) * 262144 + (b1 - 128) * 4096 + (b2 - 128) * 64 + (b3 - 128)) = 4"
  unfolding utf8_RuneLen_def by (cases "b0 = 240") auto

lemma decode_bytes_length:
  assumes "bs \<noteq> []" and "decode_bytes bs \<noteq> (RuneError, 1)"
  shows "snd (decode_bytes bs) = utf8_RuneLen (fst (decode_bytes bs))"
proof -
  obtain b0 l0 where bs: "bs = b0 # l0" using assms(1) by (cases bs) auto
  show ?thesis
  proof (cases "b0 < 128")
    case True
    then show ?thesis by (simp add: bs utf8_RuneLen_def)
  next
    case b0: False
    then have r0: "194 \<le> b0" "b0 \<le> 244" using assms(2) by (auto simp: bs split: if_splits)
    then obtain b1 l1 where l0: "l0 = b1 # l1" using assms(2) b0 by (cases l0) (auto simp: bs split: if_splits)
    have ok: "second_ok b0 b1" using assms(2) b0 r0 by (auto simp: bs l0 split: if_splits)
    note b1 = second_bounds [OF ok]
    show ?thesis
    proof (cases "b0 < 224")
      case True
      then show ?thesis using b0 r0 ok b1 two_byte_length [of b0 b1] by (simp add: bs l0)
    next
      case b0': False
      then obtain b2 l2 where l1: "l1 = b2 # l2" using assms(2) b0 r0 ok by (cases l1) (auto simp: bs l0 split: if_splits)
      have c2: "cont b2" using assms(2) b0 b0' r0 ok by (auto simp: bs l0 l1 split: if_splits)
      then have b2: "128 \<le> b2" "b2 \<le> 191" by (simp_all add: cont_def)
      show ?thesis
      proof (cases "b0 < 240")
        case True
        then show ?thesis using b0 b0' r0 ok b1 c2 b2 three_byte_length [of b0 b1 b2] by (simp add: bs l0 l1)
      next
        case b0'': False
        then obtain b3 l3 where l2: "l2 = b3 # l3"
          using assms(2) b0 b0' r0 ok c2 by (cases l2) (auto simp: bs l0 l1 split: if_splits)
        have c3: "cont b3" using assms(2) b0 b0' b0'' r0 ok c2 by (auto simp: bs l0 l1 l2 split: if_splits)
        show ?thesis using b0 b0' b0'' r0 ok b1 c2 c3 four_byte_length [of b0 b1 b2 b3] by (simp add: bs l0 l1 l2)
      qed
    qed
  qed
qed

lemma decode_length:
  assumes "s \<noteq> []" and "DecodeRuneInString s = (r, n)" and "(r, n) \<noteq> (RuneError, 1)"
  shows "n = utf8_RuneLen r"
  using assms decode_bytes_length [of "byte_values (take 4 s)"]
  by (auto simp: DecodeRuneInString_def byte_values_def)

text \<open>Behind an ASCII byte a well-formed text is well-formed again.\<close>

lemma valid_utf8_drop:
  "valid_utf8 s \<Longrightarrow> k < length s \<Longrightarrow> of_char (s ! k) < (128::nat) \<Longrightarrow> valid_utf8 (drop (Suc k) s)"
proof (induction arbitrary: k rule: valid_utf8.induct)
  case (valid_rune s r n)
  have n: "1 \<le> n" "n \<le> length s" using decode_width [OF valid_rune.hyps(1)] valid_rune.hyps(2) by auto
  show ?case
  proof (cases "k < n")
    case True
    have "k = 0"
    proof (rule ccontr)
      assume "k \<noteq> 0"
      then have "(128::nat) \<le> of_char (s ! k)" using True valid_rune.hyps(2) by (intro decode_cont) auto
      with valid_rune.prems(2) show False by simp
    qed
    then obtain x t where s: "s = x # t" "of_char x < (128::nat)"
      using valid_rune.prems by (cases s) auto
    then have "n = 1" using valid_rune.hyps(2) decode_ascii [of x t] by simp
    with \<open>k = 0\<close> valid_rune.hyps(4) show ?thesis by simp
  next
    case False
    then have "drop n s ! (k - n) = s ! k" using n valid_rune.prems by simp
    then have "valid_utf8 (drop (Suc (k - n)) (drop n s))"
      using valid_rune.IH [of "k - n"] valid_rune.prems False by simp
    then show ?thesis using False by (simp add: Suc_diff_le)
  qed
qed simp

section \<open>Counting forth and back\<close>

lemma utf16_length_from: "foldl (\<lambda>n r. n + utf16_RuneLen r) m rs = m + foldl (\<lambda>n r. n + utf16_RuneLen r) 0 rs"
proof (induction rs arbitrary: m)
  case (Cons r rs)
  show ?case using Cons.IH [of "m + utf16_RuneLen r"] Cons.IH [of "utf16_RuneLen r"] by simp
qed simp

lemma utf16_length_Nil [simp]: "utf16_length [] = 0"
  by (simp add: utf16_length_def runes.simps)

lemma utf16_length_step:
  assumes "s \<noteq> []" and "DecodeRuneInString s = (r, n)"
  shows "utf16_length s = utf16_RuneLen r + utf16_length (drop n s)"
  using assms utf16_length_from [of "utf16_RuneLen r" "runes (drop n s)"]
  by (simp add: utf16_length_def runes.simps [of s])

lemma utf16_RuneLen_pos: "1 \<le> utf16_RuneLen r"
  by (simp add: utf16_RuneLen_def)

text \<open>Scanning for the code units of a well-formed part \<open>w\<close> stops right behind it.\<close>

lemma utf16_scan_stop:
  "char < int u16 + 1 \<Longrightarrow> utf16_scan s i u8 u16 char = u8"
proof -
  assume c: "char < int u16 + 1"
  have "char < int (u16 + utf16_RuneLen r)" for r using c utf16_RuneLen_pos [of r] by linarith
  then show ?thesis by (subst utf16_scan.simps) (simp add: Let_def split: prod.splits)
qed

lemma utf16_scan_valid:
  "valid_utf8 w \<Longrightarrow> drop i s = w @ t \<Longrightarrow> i \<le> length s \<Longrightarrow>
   utf16_scan s i i u16 (int (u16 + utf16_length w)) = i + length w"
proof (induction arbitrary: i u16 rule: valid_utf8.induct)
  case valid_empty
  then show ?case by (simp add: utf16_scan_stop)
next
  case (valid_rune w r n)
  have w: "n \<le> length w" "1 \<le> n" using decode_width [OF valid_rune.hyps(1)] valid_rune.hyps(2) by auto
  have d: "DecodeRuneInString (drop i s) = (r, n)"
    using decode_append [OF valid_rune.hyps(1), of t] valid_rune.hyps(2,3) valid_rune.prems(1) by simp
  have i: "i < length s" using valid_rune.prems(1) valid_rune.hyps(1) by (metis append_is_Nil_conv drop_all not_le)
  have n: "utf8_RuneLen r = n" using decode_length [OF valid_rune.hyps(1,2,3)] by simp
  have len: "utf16_length w = utf16_RuneLen r + utf16_length (drop n w)"
    by (rule utf16_length_step [OF valid_rune.hyps(1,2)])
  have "drop (i + n) s = drop n w @ t"
    using valid_rune.prems(1) w by (metis add.commute append_eq_conv_conj drop_append drop_drop length_drop
        diff_is_0_eq drop0)
  moreover have "length (drop i s) = length w + length t" using valid_rune.prems(1) by simp
  then have "i + n \<le> length s" using w i by simp
  ultimately have "utf16_scan s (i + n) (i + n) (u16 + utf16_RuneLen r)
      (int (u16 + utf16_RuneLen r + utf16_length (drop n w))) = (i + n) + length (drop n w)"
    by (rule valid_rune.IH)
  then show ?case
    using i w by (subst utf16_scan.simps) (simp add: d n len Let_def add.assoc)
qed

section \<open>Line starts\<close>

lemma ls_scan_cases:
  assumes "pos \<le> length text"
  obtains (finish) "fst (ls_scan text pos ls a) = [ls]"
  | (newline) pos2 where "pos < pos2" "pos2 \<le> length text" "of_char (text ! (pos2 - 1)) < (128::nat)"
      "fst (ls_scan text pos ls a) = ls # fst (ls_scan text pos2 pos2 a)"
  | (skip) pos2 b where "pos < pos2" "pos2 \<le> length text" "fst (ls_scan text pos ls a) = fst (ls_scan text pos2 ls b)"
proof (cases "pos < length text")
  case False
  then show ?thesis by (intro finish) (subst ls_scan.simps, simp)
next
  case True
  let ?b = "text ! pos"
  consider (cr) "?b = CR" | (lf) "?b = LF" | (plain) "of_char ?b < (128::nat)" "?b \<noteq> CR" "?b \<noteq> LF"
    | (high) "\<not> of_char ?b < (128::nat)" by blast
  then show ?thesis
  proof cases
    case cr
    let ?p = "if pos + 1 < length text \<and> text ! (pos + 1) = LF then pos + 2 else pos + 1"
    have "fst (ls_scan text pos ls a) = ls # fst (ls_scan text ?p ?p a)"
      using True cr by (subst ls_scan.simps) (simp add: Let_def)
    moreover have "of_char (text ! (?p - 1)) < (128::nat)" using cr by simp
    ultimately show ?thesis using True by (intro newline [of ?p]) (auto split: if_splits)
  next
    case lf
    have "fst (ls_scan text pos ls a) = ls # fst (ls_scan text (pos + 1) (pos + 1) a)"
      using True lf by (subst ls_scan.simps) (simp add: Let_def)
    then show ?thesis using True lf by (intro newline [of "pos + 1"]) auto
  next
    case plain
    have "fst (ls_scan text pos ls a) = fst (ls_scan text (pos + 1) ls a)"
      using True plain by (subst ls_scan.simps) (simp add: Let_def)
    then show ?thesis using True by (intro skip [of "pos + 1"]) auto
  next
    case high
    let ?n = "snd (DecodeRuneInString (drop pos text))"
    have "drop pos text \<noteq> []" using True by simp
    from decode_width [OF this] True have "pos < pos + ?n" "pos + ?n \<le> length text" by auto
    moreover have "fst (ls_scan text pos ls a) = fst (ls_scan text (pos + ?n) ls False)"
      using True high by (subst ls_scan.simps) (simp add: Let_def)
    ultimately show ?thesis by (rule skip)
  qed
qed

definition starts_ok :: "string \<Rightarrow> nat \<Rightarrow> nat \<Rightarrow> nat list \<Rightarrow> bool" where
  "starts_ok text pos ls xs =
     (xs \<noteq> [] \<and> hd xs = ls \<and> sorted_wrt (<) xs \<and>
      (\<forall>e \<in> set (tl xs). pos < e \<and> e \<le> length text \<and> of_char (text ! (e - 1)) < (128::nat)))"

lemma ls_scan_ok: "pos \<le> length text \<Longrightarrow> ls \<le> pos \<Longrightarrow> starts_ok text pos ls (fst (ls_scan text pos ls a))"
proof (induction "length text - pos" arbitrary: pos ls a rule: less_induct)
  case less
  show ?case
  proof (cases rule: ls_scan_cases [OF less.prems(1), of ls a, case_names finish newline skip])
    case finish
    then show ?thesis by (simp add: starts_ok_def)
  next
    case (newline pos2)
    then have "starts_ok text pos2 pos2 (fst (ls_scan text pos2 pos2 a))" by (intro less.hyps) auto
    then obtain ys where ys: "fst (ls_scan text pos2 pos2 a) = pos2 # ys" "sorted_wrt (<) (pos2 # ys)"
      "\<forall>e \<in> set ys. pos2 < e \<and> e \<le> length text \<and> of_char (text ! (e - 1)) < (128::nat)"
      by (cases "fst (ls_scan text pos2 pos2 a)") (auto simp: starts_ok_def)
    then show ?thesis using newline less.prems by (auto simp: starts_ok_def)
  next
    case (skip pos2 b)
    then have "starts_ok text pos2 ls (fst (ls_scan text pos2 ls b))" using less.prems by (intro less.hyps) auto
    then show ?thesis using skip by (auto simp: starts_ok_def)
  qed
qed

lemma LineStarts_ok: "starts_ok text 0 0 (LineStarts (ls_ComputeLineStarts text))"
  using ls_scan_ok [of 0 "text" 0 True] by (cases "ls_scan text 0 0 True") (simp add: ls_ComputeLineStarts_def)

text \<open>The binary search finds the last line that starts at or before the position.\<close>

lemma line_search:
  assumes "xs \<noteq> []" and "hd xs = 0" and "sorted_wrt (<) xs"
  obtains line where "line < length xs" and "xs ! line \<le> position"
    and "\<forall>n found. BinarySearchFunc (map int xs) (int position) cmp_Compare = (n, found) \<longrightarrow>
      max 0 (if \<not> found then int n - 1 else int n) = int line"
proof -
  let ?n = "bsearch_loop cmp_Compare (map int xs) (int position) 0 (length xs)"
  have "sorted_by cmp_Compare (map int xs)"
    using assms(3) by (auto simp: sorted_by_def sorted_wrt_map elim!: sorted_wrt_mono_rel [rotated])
  from ordinal.bsearch_sorted [OF this, of "int position"]
  have n: "?n \<le> length xs" "\<forall>x \<in> set (take ?n xs). x < position" "\<forall>x \<in> set (drop ?n xs). position \<le> x"
    by (auto simp: take_map drop_map)
  have x0: "xs ! 0 = 0" using assms(1,2) by (simp add: hd_conv_nth)
  show ?thesis
  proof (cases "?n < length xs \<and> xs ! ?n = position")
    case True
    show ?thesis
    proof (rule that [of ?n])
      show "\<forall>n found. BinarySearchFunc (map int xs) (int position) cmp_Compare = (n, found) \<longrightarrow>
          max 0 (if \<not> found then int n - 1 else int n) = int ?n"
        using True by (auto simp: BinarySearchFunc_def Let_def)
    qed (use True in auto)
  next
    case False
    have "0 < ?n"
    proof (rule ccontr)
      assume "\<not> 0 < ?n"
      then have "\<forall>x \<in> set xs. position \<le> x" using n(3) by simp
      then have "position \<le> xs ! 0" using assms(1) by (metis hd_conv_nth hd_in_set)
      with x0 False \<open>\<not> 0 < ?n\<close> assms(1) show False by simp
    qed
    then have "xs ! (?n - 1) \<in> set (take ?n xs)" using n(1) by (auto simp: in_set_conv_nth intro!: exI [of _ "?n - 1"])
    then have "xs ! (?n - 1) \<le> position" using n(2) by force
    moreover have "\<forall>m found. BinarySearchFunc (map int xs) (int position) cmp_Compare = (m, found) \<longrightarrow>
        max 0 (if \<not> found then int m - 1 else int m) = int (?n - 1)"
      using False \<open>0 < ?n\<close> by (auto simp: BinarySearchFunc_def Let_def)
    ultimately show ?thesis using n(1) \<open>0 < ?n\<close> by (intro that [of "?n - 1"]) auto
  qed
qed

lemma valid_line:
  assumes "valid_utf8 (take position text)" and "starts_ok text 0 0 xs" and "line < length xs"
    and "xs ! line \<le> position" and "position \<le> length text"
  shows "valid_utf8 (drop (xs ! line) (take position text))"
proof (cases line)
  case 0
  have "xs ! 0 = 0" using assms(2) by (simp add: starts_ok_def hd_conv_nth [symmetric])
  then show ?thesis using 0 assms(1) by simp
next
  case (Suc k)
  then have "xs ! line \<in> set (tl xs)" using assms(3) by (cases xs) auto
  then have s: "0 < xs ! line" "of_char (text ! (xs ! line - 1)) < (128::nat)" using assms(2) by (auto simp: starts_ok_def)
  then have "valid_utf8 (drop (Suc (xs ! line - 1)) (take position text))"
    using assms(4,5) by (intro valid_utf8_drop assms(1)) auto
  then show ?thesis using s(1) by simp
qed

lemma utf16_length_le: "utf16_length s \<le> length s"
proof (induction "length s" arbitrary: s rule: less_induct)
  case less
  show ?case
  proof (cases "s = []")
    case False
    obtain r n where d: "DecodeRuneInString s = (r, n)" by fastforce
    have w: "1 \<le> n" "n \<le> length s" using decode_width [OF False] d by auto
    have "utf16_RuneLen r \<le> n"
    proof (cases "(r, n) = (RuneError, 1)")
      case False
      then have "n = utf8_RuneLen r" using decode_length [OF \<open>s \<noteq> []\<close> d] by simp
      then show ?thesis by (simp add: utf16_RuneLen_def utf8_RuneLen_def)
    qed (simp add: utf16_RuneLen_def)
    moreover have "utf16_length (drop n s) \<le> length (drop n s)" using False w by (intro less.hyps) simp
    ultimately show ?thesis using utf16_length_step [OF False d] w by simp
  qed simp
qed

text \<open>C19. Positions convert to the protocol and back: for a text below \<open>2^31\<close> bytes with its line map, and
  a position up to which the text is well-formed UTF-8, the conversion to a line and a character in
  the client's encoding does not panic, and converting the answer gives the position again.\<close>

theorem ls_position_round_trip:
  assumes "getLineMap c (FileName script) = ls_ComputeLineStarts (Text script)"
    and "length (Text script) < 2 ^ 31" and "position \<le> length (Text script)"
    and "valid_utf8 (take position (Text script))"
  shows "\<exists>p. Converters_PositionToLineAndCharacter c script (int position) = Inr p \<and>
    LineAndCharacterToPosition c script p = Inr (int position)"
proof -
  let ?t = "Text script"
  define xs where "xs = LineStarts (ls_ComputeLineStarts ?t)"
  have ok: "starts_ok ?t 0 0 xs" unfolding xs_def by (rule LineStarts_ok)
  then have xs: "xs \<noteq> []" "hd xs = 0" "sorted_wrt (<) xs" by (auto simp: starts_ok_def)
  obtain line where line: "line < length xs" "xs ! line \<le> position"
    and search: "\<forall>n found. BinarySearchFunc (map int xs) (int position) cmp_Compare = (n, found) \<longrightarrow>
      max 0 (if \<not> found then int n - 1 else int n) = int line"
    by (rule line_search [OF xs, of position])
  have small: "int line < 2 ^ 31"
  proof -
    have "\<forall>i < length xs. i \<le> xs ! i"
    proof (intro allI impI)
      fix i assume "i < length xs"
      then show "i \<le> xs ! i"
      proof (induction i)
        case (Suc i)
        then have "xs ! i < xs ! Suc i" using sorted_wrt_nth_less [OF xs(3), of i "Suc i"] by simp
        with Suc show ?case by simp
      qed simp
    qed
    then have "line \<le> length ?t" using line assms(3) by (meson order_trans)
    then show ?thesis using assms(2) by simp
  qed
  let ?s = "xs ! line"
  let ?slice = "take (position - ?s) (drop ?s ?t)"
  define short where "short = (AsciiOnly (ls_ComputeLineStarts ?t) \<or> positionEncoding c = PositionEncodingKindUTF8)"
  define ch where "ch = (if short then int (position - ?s) else int (utf16_length ?slice))"
  have chb: "0 \<le> ch" "ch < 2 ^ 31"
    using assms(2,3) utf16_length_le [of ?slice] by (auto simp: ch_def)
  have idx: "index_get xs (int line) = Inr ?s" by (rule index_get_in_range [OF line(1)])
  have slice: "go_slice ?t (int ?s) (int position) = Inr ?slice"
    using line(2) assms(3) by (simp add: go_slice_def)
  have to: "Converters_PositionToLineAndCharacter c script (int position) = Inr \<lparr>Line = int line, Character = ch\<rparr>"
  proof -
    obtain n found where b: "BinarySearchFunc (map int xs) (int position) cmp_Compare = (n, found)" by fastforce
    have i32: "int32 (int position - int ?s) = int (position - ?s)"
      using line(2) assms(2,3) by (simp add: of_nat_diff)
    have "uint32 (int line) = int line" "uint32 ch = ch"
      using small chb by (simp_all add: uint32_def take_bit_int_eq_self)
    moreover have "(if short then Inr (int32 (int position - int ?s))
        else go_bind (go_slice ?t (int ?s) (int position)) (\<lambda>s. Inr (int (utf16_length s)))) = Inr ch"
      by (simp add: ch_def slice i32)
    ultimately show ?thesis
      using idx search [rule_format, OF b]
      by (simp add: Converters_PositionToLineAndCharacter_def assms(1) xs_def [symmetric] b Let_def
          short_def [symmetric])
  qed
  have return: "LineAndCharacterToPosition c script \<lparr>Line = int line, Character = ch\<rparr> = Inr (int position)"
  proof (cases short)
    case True
    then have "int32 (int ?s + ch) = int position" using line(2) assms(2,3) by (simp add: ch_def)
    then show ?thesis
      using True small chb line(1)
      by (simp add: LineAndCharacterToPosition_def assms(1) xs_def [symmetric] Let_def short_def [symmetric])
  next
    case False
    have "valid_utf8 (drop ?s (take position ?t))"
      by (rule valid_line [OF assms(4) ok line assms(3)])
    then have v: "valid_utf8 ?slice" by (simp add: drop_take)
    have "drop 0 (drop ?s ?t) = ?slice @ drop (position - ?s) (drop ?s ?t)"
      by (simp only: append_take_drop_id drop0)
    from utf16_scan_valid [OF v this, of 0]
    have "utf16_scan (drop ?s ?t) 0 0 0 ch = length ?slice" using False by (simp add: ch_def)
    also have "length ?slice = position - ?s" using assms(3) by simp
    finally have sc: "utf16_scan (drop ?s ?t) 0 0 0 ch = position - ?s" .
    have "go_slice ?t (int ?s) (int (length ?t)) = Inr (drop ?s ?t)"
      using line(2) assms(3) by (simp add: go_slice_from)
    then show ?thesis
      using False small chb line sc
      by (simp add: LineAndCharacterToPosition_def assms(1) xs_def [symmetric] Let_def short_def [symmetric])
  qed
  from to return show ?thesis by blast
qed

theorem ls_position_round_trip_witness:
  "\<exists>p. Converters_PositionToLineAndCharacter
      \<lparr>getLineMap = \<lambda>_. ls_ComputeLineStarts [CHR ''a'', CHR 0x0A, CHR 0xC3, CHR 0xA9, CHR ''b''], positionEncoding = ''utf-16''\<rparr>
      \<lparr>FileName = [], Text = [CHR ''a'', CHR 0x0A, CHR 0xC3, CHR 0xA9, CHR ''b'']\<rparr> 4 = Inr p"
proof -
  let ?t = "[CHR ''a'', CHR 0x0A, CHR 0xC3, CHR 0xA9, CHR ''b'']"
  have d: "DecodeRuneInString [CHR 0xC3, CHR 0xA9] = (233, 2)" by code_simp
  have 1: "valid_utf8 [CHR 0xC3, CHR 0xA9]" by (rule valid_rune [OF _ d]) (simp_all add: valid_empty)
  have 2: "valid_utf8 [CHR 0x0A, CHR 0xC3, CHR 0xA9]"
    by (rule valid_rune [of _ 10 1]) (use 1 in \<open>simp_all add: decode_ascii\<close>)
  have "valid_utf8 [CHR ''a'', CHR 0x0A, CHR 0xC3, CHR 0xA9]"
    by (rule valid_rune [of _ 97 1]) (use 2 in \<open>simp_all add: decode_ascii\<close>)
  then have v': "valid_utf8 (take 4 (Text \<lparr>FileName = [], Text = ?t\<rparr>))" by simp
  let ?c = "\<lparr>getLineMap = \<lambda>_. ls_ComputeLineStarts ?t, positionEncoding = ''utf-16''\<rparr>"
  let ?s = "\<lparr>FileName = [], Text = ?t\<rparr>"
  have "\<exists>p. Converters_PositionToLineAndCharacter ?c ?s (int 4) = Inr p \<and>
      LineAndCharacterToPosition ?c ?s p = Inr (int 4)"
    by (rule ls_position_round_trip [OF _ _ _ v']) simp_all
  then show ?thesis by (auto simp only: of_nat_numeral)
qed

end
