(* ===== verification/Ls_Uris.thy ===== *)
theory Ls_Uris
  imports Core_Options Ls_Converters
begin

text \<open>
  Document URIs of the language server (\<open>internal/ls/converters.go\<close>): file names to URIs and back. The
  escaping of \<open>net/url\<close> is written out; its parser is the argument \<open>url_Parse\<close>, of which the round
  trip uses what the package documents for well-formed \<open>file:\<close> URIs: host, and path with its escapes
  resolved.
\<close>

section \<open>Volumes\<close>

definition ascii_lower :: "char \<Rightarrow> char" where
  "ascii_lower c = (if CHR ''A'' \<le> c \<and> c \<le> CHR ''Z'' then char_of (of_char c + (32 :: nat)) else c)"

text \<open>\<open>strings.ToLower\<close> of a drive letter and a colon, which are ASCII.\<close>

definition splitVolumePath :: "string \<Rightarrow> string \<times> string \<times> bool" where
  "splitVolumePath path =
     (if 2 \<le> length path \<and> IsVolumeCharacter (path ! 0) \<and> path ! 1 = colon
      then (map ascii_lower (take 2 path), drop 2 path, True)
      else ([], path, False))"

definition fixWindowsURIPath :: "string \<Rightarrow> string" where
  "fixWindowsURIPath path =
     (if HasPrefix path ''/'' then
        (case splitVolumePath (drop 1 path) of (volume, rest, ok) \<Rightarrow> if ok then volume @ rest else path)
      else path)"

section \<open>Escaping\<close>

definition percent_byte :: "char \<Rightarrow> string" where
  "percent_byte c =
     (let b = of_char c :: nat in [CHR ''%'', hex_digit (b div 16), hex_digit (b mod 16)])"

text \<open>\<open>url.PathEscape\<close>: in a path segment the characters \<open>$&+:=@\<close> stay.\<close>

definition PathEscape_byte :: "char \<Rightarrow> string" where
  "PathEscape_byte c =
     (if IsASCIILetter (of_char c) \<or> IsDigit (of_char c) \<or> c \<in> set ''-_.~'' \<or> c \<in> set ''$&+:=@'' then [c]
      else percent_byte c)"

definition PathEscape :: "string \<Rightarrow> string" where
  "PathEscape s = concat (map PathEscape_byte s)"

text \<open>The replacer's pairs; no key is longer than a byte, so it works byte by byte.\<close>

definition extraEscapeReplacer :: "(char \<times> string) list" where
  "extraEscapeReplacer =
     [(CHR '':'', ''%3A''), (CHR ''/'', ''%2F''), (CHR ''?'', ''%3F''), (CHR ''#'', ''%23''), (CHR ''['', ''%5B''),
      (CHR '']'', ''%5D''), (CHR ''@'', ''%40''),
      (CHR ''!'', ''%21''), (CHR ''$'', ''%24''), (CHR ''&'', ''%26''), (CHR 0x27, ''%27''), (CHR ''('', ''%28''),
      (CHR '')'', ''%29''), (CHR ''*'', ''%2A''), (CHR ''+'', ''%2B''), (CHR '','', ''%2C''), (CHR '';'', ''%3B''),
      (CHR ''='', ''%3D''),
      (CHR '' '', ''%20'')]"

definition Replacer_Replace :: "(char \<times> string) list \<Rightarrow> string \<Rightarrow> string" where
  "Replacer_Replace pairs s = concat (map (\<lambda>c. case map_of pairs c of None \<Rightarrow> [c] | Some w \<Rightarrow> w) s)"

section \<open>URIs\<close>

text \<open>\<open>strings.Replace(s, old, new, 1)\<close>.\<close>

definition Replace_first :: "string \<Rightarrow> string \<Rightarrow> string \<Rightarrow> string" where
  "Replace_first s old new =
     (case find_sub s old of None \<Rightarrow> s | Some i \<Rightarrow> take i s @ new @ drop (i + length old) s)"

definition FileNameToDocumentURI :: "string \<Rightarrow> string" where
  "FileNameToDocumentURI fileName =
     (if HasPrefix fileName ''^/'' then Replace_first (drop 2 fileName) ''/ts-nul-authority/'' '':''
      else
        (case splitVolumePath fileName of (volume, rest, _) \<Rightarrow>
           let volume = (if volume \<noteq> [] then ''/'' @ Replacer_Replace extraEscapeReplacer volume else volume);
               parts = Split slash (TrimPrefix rest ''//'')
           in ''file://'' @ volume @
              Join ''/'' (map (\<lambda>part. Replacer_Replace extraEscapeReplacer (PathEscape part)) parts)))"

record parsed_url =
  Scheme :: string
  Host :: string
  Path :: string
  Opaque :: string
  Fragment :: string

definition DocumentURIToFileName :: "(string \<Rightarrow> parsed_url option) \<Rightarrow> string \<Rightarrow> string go" where
  "DocumentURIToFileName url_Parse uri =
     (case url_Parse uri of
        None \<Rightarrow> Inl (Panicked uri)
      | Some parsed \<Rightarrow>
          Inr (if Scheme parsed = ''file'' then
                 (if Host parsed \<noteq> [] then ''//'' @ Host parsed @ Path parsed else fixWindowsURIPath (Path parsed))
               else
                 let authority = (if Host parsed = [] then ''ts-nul-authority'' else Host parsed);
                     path = (if Path parsed = [] then Opaque parsed else Path parsed);
                     path = (if \<not> HasPrefix path ''/'' then ''/'' @ path else path);
                     path = fixWindowsURIPath path;
                     path = (if \<not> HasPrefix path ''/'' then ''/'' @ path else path);
                     fragment = (if Fragment parsed \<noteq> [] then ''#'' @ Fragment parsed else Fragment parsed)
                 in ''^/'' @ Scheme parsed @ ''/'' @ authority @ path @ fragment))"

definition LanguageKindToScriptKind :: "string \<Rightarrow> ScriptKind" where
  "LanguageKindToScriptKind languageID =
     (if languageID = ''typescript'' then ScriptKindTS
      else if languageID = ''typescriptreact'' then ScriptKindTSX
      else if languageID = ''javascript'' then ScriptKindJS
      else if languageID = ''javascriptreact'' then ScriptKindJSX
      else ScriptKindUnknown)"

section \<open>Locations\<close>

record lsp_Location =
  Uri :: string
  lsp_Range :: Range

record ls_Location =
  loc_FileName :: string
  loc_Range :: TextRange

definition ToLSPLocation :: "Converters \<Rightarrow> Script \<Rightarrow> TextRange \<Rightarrow> lsp_Location go" where
  "ToLSPLocation c script rng =
     go_bind (ToLSPRange c script rng) (\<lambda>r. Inr \<lparr>Uri = FileNameToDocumentURI (FileName script), lsp_Range = r\<rparr>)"

definition FromLSPLocation :: "Converters \<Rightarrow> Script \<Rightarrow> Range \<Rightarrow> ls_Location go" where
  "FromLSPLocation c script rng =
     go_bind (FromLSPRange c script rng) (\<lambda>r. Inr \<lparr>loc_FileName = FileName script, loc_Range = r\<rparr>)"

section \<open>Escapes resolved\<close>

definition is_hex :: "char \<Rightarrow> bool" where
  "is_hex c = (c \<in> set ''0123456789'' \<or> c \<in> set ''ABCDEF'' \<or> c \<in> set ''abcdef'')"

definition hex_value :: "char \<Rightarrow> nat" where
  "hex_value c =
     (if c \<le> CHR ''9'' then of_char c - 48 else if c \<le> CHR ''F'' then of_char c - 55 else of_char c - 87)"

text \<open>\<open>url.PathUnescape\<close>: digits of either case; an escape that is not complete is an error.\<close>

fun unescape :: "string \<Rightarrow> string option" where
  "unescape [] = Some []"
| "unescape (c # s) =
     (if c = CHR ''%'' then
        (case s of
           x # y # t \<Rightarrow>
             if is_hex x \<and> is_hex y
             then map_option (Cons (char_of (hex_value x * 16 + hex_value y))) (unescape t) else None
         | _ \<Rightarrow> None)
      else map_option (Cons c) (unescape s))"

definition escaped_byte :: "char \<Rightarrow> string" where
  "escaped_byte c =
     (if IsASCIILetter (of_char c) \<or> IsDigit (of_char c) \<or> c \<in> set ''-_.~'' then [c] else percent_byte c)"

lemma no_extra_escape:
  assumes "IsASCIILetter (of_char c) \<or> IsDigit (of_char c) \<or> c \<in> set ''-_.~%''"
  shows "map_of extraEscapeReplacer c = None"
proof -
  have "c \<notin> fst ` set extraEscapeReplacer"
    using assms by (auto simp: extraEscapeReplacer_def IsASCIILetter_def IsDigit_def)
  then show ?thesis by (simp add: map_of_eq_None_iff)
qed

lemma hex_digit_plain: "n < 16 \<Longrightarrow> IsASCIILetter (of_char (hex_digit n)) \<or> IsDigit (of_char (hex_digit n))"
proof -
  assume "n < 16"
  then have "n \<in> set [0..<16]" by simp
  moreover have "\<forall>n \<in> set [0..<16]. IsASCIILetter (of_char (hex_digit n)) \<or> IsDigit (of_char (hex_digit n))"
    by code_simp
  ultimately show ?thesis by blast
qed

lemma byte_digits: "(of_char c :: nat) div 16 < 16" "(of_char c :: nat) mod 16 < 16"
  by (rule less_mult_imp_div_less, simp) simp

lemma byte_hex_plain:
  "IsASCIILetter (of_char (hex_digit (of_char c div 16))) \<or> IsDigit (of_char (hex_digit (of_char c div 16)))"
  "IsASCIILetter (of_char (hex_digit (of_char c mod 16))) \<or> IsDigit (of_char (hex_digit (of_char c mod 16)))"
  by (rule hex_digit_plain, rule byte_digits)+

lemma Replace_append [simp]: "Replacer_Replace ps (a @ b) = Replacer_Replace ps a @ Replacer_Replace ps b"
  by (simp add: Replacer_Replace_def)

lemma percent_unchanged: "Replacer_Replace extraEscapeReplacer (percent_byte c) = percent_byte c"
proof -
  have "map_of extraEscapeReplacer CHR ''%'' = None" by (rule no_extra_escape) simp
  moreover have "map_of extraEscapeReplacer (hex_digit (of_char c div 16)) = None"
    "map_of extraEscapeReplacer (hex_digit (of_char c mod 16)) = None"
    using byte_hex_plain [of c] by (intro no_extra_escape; blast)+
  ultimately show ?thesis by (simp add: Replacer_Replace_def percent_byte_def Let_def)
qed

lemma escape_byte: "Replacer_Replace extraEscapeReplacer (PathEscape_byte c) = escaped_byte c"
proof (cases "IsASCIILetter (of_char c) \<or> IsDigit (of_char c) \<or> c \<in> set ''-_.~''")
  case True
  then have "map_of extraEscapeReplacer c = None" by (intro no_extra_escape) auto
  then show ?thesis using True by (auto simp: Replacer_Replace_def PathEscape_byte_def escaped_byte_def)
next
  case plain: False
  show ?thesis
  proof (cases "c \<in> set ''$&+:=@''")
    case True
    then have "map_of extraEscapeReplacer c = Some (percent_byte c)"
      by (auto simp: extraEscapeReplacer_def percent_byte_def hex_digit_def)
    then show ?thesis using True plain by (simp add: Replacer_Replace_def PathEscape_byte_def escaped_byte_def)
  next
    case False
    then show ?thesis using plain by (simp add: PathEscape_byte_def escaped_byte_def percent_unchanged)
  qed
qed

lemma escape_segment: "Replacer_Replace extraEscapeReplacer (PathEscape s) = concat (map escaped_byte s)"
  by (induction s) (simp_all add: PathEscape_def escape_byte, simp add: Replacer_Replace_def)

text \<open>Unescaping inverts the escapes.\<close>

lemma hex_value_digit: "n < 16 \<Longrightarrow> is_hex (hex_digit n) \<and> hex_value (hex_digit n) = n"
proof -
  assume "n < 16"
  then have "n \<in> set [0..<16]" by simp
  moreover have "\<forall>n \<in> set [0..<16]. is_hex (hex_digit n) \<and> hex_value (hex_digit n) = n" by code_simp
  ultimately show ?thesis by blast
qed

lemma unescape_byte: "unescape (escaped_byte c @ s) = map_option (Cons c) (unescape s)"
proof (cases "IsASCIILetter (of_char c) \<or> IsDigit (of_char c) \<or> c \<in> set ''-_.~''")
  case True
  then have "c \<noteq> CHR ''%''" by (auto simp: IsASCIILetter_def IsDigit_def)
  then show ?thesis using True by (simp add: escaped_byte_def)
next
  case False
  then show ?thesis using byte_digits False by (simp add: escaped_byte_def percent_byte_def Let_def hex_value_digit)
qed

lemma unescape_segment: "unescape (concat (map escaped_byte s) @ t) = map_option ((@) s) (unescape t)"
proof (induction s)
  case Nil
  show ?case by (cases "unescape t") simp_all
next
  case (Cons c s)
  then show ?case by (cases "unescape t") (simp_all add: unescape_byte)
qed

lemma unescape_segments:
  "unescape (Join ''/'' (map (\<lambda>w. concat (map escaped_byte w)) ws)) = Some (Join ''/'' ws)"
proof (induction ws)
  case (Cons w ws)
  show ?case
  proof (cases "ws = []")
    case True
    then show ?thesis using unescape_segment [of w "[]"] by simp
  next
    case False
    then show ?thesis using Cons.IH by (simp add: Join_Cons unescape_segment)
  qed
qed simp

text \<open>The path of the URI of a rooted file name that starts with one slash, or with a volume.\<close>

definition uri_path :: "string \<Rightarrow> string" where
  "uri_path p = Join ''/'' (map (\<lambda>w. concat (map escaped_byte w)) (Split slash p))"

lemma unescape_uri_path: "unescape (uri_path p) = Some p"
  by (simp add: uri_path_def unescape_segments)

lemma uri_of_path:
  assumes "\<not> HasPrefix p ''//''" and "\<not> HasPrefix f ''^/''" and "splitVolumePath f = (v, p, b)"
  shows "FileNameToDocumentURI f =
    ''file://'' @ (if v \<noteq> [] then ''/'' @ Replacer_Replace extraEscapeReplacer v else []) @ uri_path p"
  using assms by (simp add: FileNameToDocumentURI_def TrimPrefix_def uri_path_def escape_segment)

lemma uri_of_share:
  assumes "slash \<notin> set host"
  shows "FileNameToDocumentURI (''//'' @ host @ slash # p) =
    ''file://'' @ concat (map escaped_byte host) @ uri_path (slash # p)"
proof -
  obtain w ws where p: "Split slash p = w # ws" by (cases "Split slash p") auto
  have "Split slash (host @ slash # p) = host # Split slash p" using assms by (induction host) auto
  then have "Split slash (host @ slash # p) = host # w # ws" "Split slash (slash # p) = [] # w # ws"
    using p by simp_all
  moreover have "splitVolumePath (''//'' @ host @ slash # p) = ([], ''//'' @ host @ slash # p, False)"
    by (simp add: splitVolumePath_def IsVolumeCharacter_def)
  moreover have "TrimPrefix (''//'' @ host @ slash # p) ''//'' = host @ slash # p"
    by (simp add: TrimPrefix_def HasPrefix_def)
  ultimately show ?thesis
    by (simp add: FileNameToDocumentURI_def uri_path_def escape_segment Let_def)
qed

text \<open>
  What \<open>net/url\<close> documents of its parser: a URI \<open>file://\<close> with a host of unreserved characters, or with none,
  and an absolute path of segments of unreserved characters and complete escapes, has that host, the
  path with the escapes resolved, and no fragment.
\<close>

definition unreserved :: "char \<Rightarrow> bool" where
  "unreserved c = (IsASCIILetter (of_char c) \<or> IsDigit (of_char c) \<or> c \<in> set ''-_.~'')"

definition parses_file_uris :: "(string \<Rightarrow> parsed_url option) \<Rightarrow> bool" where
  "parses_file_uris parse =
     (\<forall>host path p. list_all unreserved host \<and> HasPrefix path ''/'' \<and>
        list_all (\<lambda>c. unreserved c \<or> c \<in> set ''%/'') path \<and> unescape path = Some p \<longrightarrow>
        parse (''file://'' @ host @ path) =
          Some \<lparr>Scheme = ''file'', Host = host, Path = p, Opaque = [], Fragment = []\<rparr>)"

lemma escaped_chars:
  "x \<in> set (escaped_byte c) \<Longrightarrow> IsASCIILetter (of_char x) \<or> IsDigit (of_char x) \<or> x \<in> set ''-_.~%''"
proof (cases "IsASCIILetter (of_char c) \<or> IsDigit (of_char c) \<or> c \<in> set ''-_.~''")
  case False
  assume x: "x \<in> set (escaped_byte c)"
  then have "x = CHR ''%'' \<or> x = hex_digit (of_char c div 16) \<or> x = hex_digit (of_char c mod 16)"
    using False by (auto simp: escaped_byte_def percent_byte_def Let_def)
  then show ?thesis using byte_hex_plain [of c] by auto
qed (auto simp: escaped_byte_def)

lemma uri_path_chars:
  "x \<in> set (uri_path p) \<Longrightarrow> IsASCIILetter (of_char x) \<or> IsDigit (of_char x) \<or> x \<in> set ''-_.~%/''"
proof -
  have "x \<in> set (Join ''/'' (map (\<lambda>w. concat (map escaped_byte w)) ws)) \<Longrightarrow>
      x = slash \<or> (\<exists>w \<in> set ws. \<exists>c \<in> set w. x \<in> set (escaped_byte c))" for ws
  proof (induction ws)
    case (Cons w ws)
    then show ?case by (cases "ws = []") (auto simp: Join_Cons)
  qed simp
  then show "x \<in> set (uri_path p) \<Longrightarrow> ?thesis" unfolding uri_path_def using escaped_chars by fastforce
qed

lemma ascii_lower_letter:
  assumes "IsVolumeCharacter d"
  shows "IsASCIILetter (of_char (ascii_lower d))" and "ascii_lower d \<noteq> CHR ''%''"
    and "IsVolumeCharacter (ascii_lower d)" and "ascii_lower (ascii_lower d) = ascii_lower d"
proof -
  let ?n = "of_char d :: nat"
  have v: "97 \<le> ?n \<and> ?n \<le> 122 \<or> 65 \<le> ?n \<and> ?n \<le> 90"
    using assms by (auto simp: IsVolumeCharacter_def less_eq_char_def)
  have l: "(of_char (ascii_lower d) :: nat) = (if ?n \<le> 90 then ?n + 32 else ?n)"
    using v by (auto simp: ascii_lower_def less_eq_char_def)
  then have r: "97 \<le> (of_char (ascii_lower d) :: nat)" "(of_char (ascii_lower d) :: nat) \<le> 122" using v by auto
  then show "IsASCIILetter (of_char (ascii_lower d))" "IsVolumeCharacter (ascii_lower d)"
    "ascii_lower (ascii_lower d) = ascii_lower d"
    by (simp_all add: IsASCIILetter_def IsVolumeCharacter_def less_eq_char_def ascii_lower_def [of "ascii_lower d"])
  show "ascii_lower d \<noteq> CHR ''%''" using r(1) by auto
qed

lemma escaped_plain: "list_all unreserved s \<Longrightarrow> concat (map escaped_byte s) = s"
  by (induction s) (simp_all add: unreserved_def escaped_byte_def)

lemma uri_path_plain: "list_all (\<lambda>c. unreserved c \<or> c \<in> set ''%/'') (uri_path p)"
  using uri_path_chars [of _ p] by (auto simp: list_all_iff unreserved_def)

lemma uri_path_rooted: "HasPrefix (uri_path (slash # q)) ''/''"
proof -
  obtain w ws where "Split slash (slash # q) = [] # w # ws" by (cases "Split slash q") auto
  then show ?thesis by (simp add: uri_path_def)
qed

lemma parsed_path:
  assumes "parses_file_uris parse" and "list_all unreserved host"
  shows "parse (''file://'' @ host @ uri_path (slash # q)) =
    Some \<lparr>Scheme = ''file'', Host = host, Path = slash # q, Opaque = [], Fragment = []\<rparr>"
  using assms uri_path_rooted [of q] uri_path_plain [of "slash # q"] unescape_uri_path [of "slash # q"]
  unfolding parses_file_uris_def by blast

lemma parsed_volume:
  assumes "parses_file_uris parse" and "IsVolumeCharacter d" and "ascii_lower d = d"
  shows "parse (''file://'' @ slash # d # ''%3A'' @ uri_path (slash # q)) =
    Some \<lparr>Scheme = ''file'', Host = [], Path = slash # d # colon # slash # q, Opaque = [], Fragment = []\<rparr>"
proof -
  note low = ascii_lower_letter [OF assms(2), unfolded assms(3)]
  let ?u = "slash # d # ''%3A'' @ uri_path (slash # q)"
  have "is_hex CHR ''3''" "is_hex CHR ''A''" by (simp_all add: is_hex_def)
  moreover have "char_of (hex_value CHR ''3'' * 16 + hex_value CHR ''A'') = colon" by code_simp
  ultimately have u: "unescape ?u = Some (slash # d # colon # slash # q)"
    using low(2) unescape_uri_path [of "slash # q"] by simp
  have "list_all (\<lambda>c. unreserved c \<or> c \<in> set ''%/'') (slash # d # ''%3A'')"
    using low(1) by (simp add: unreserved_def) (simp add: IsASCIILetter_def IsDigit_def)
  then have "list_all (\<lambda>c. unreserved c \<or> c \<in> set ''%/'') ?u" using uri_path_plain [of "slash # q"] by simp
  with assms(1) u have "parse (''file://'' @ [] @ ?u) =
      Some \<lparr>Scheme = ''file'', Host = [], Path = slash # d # colon # slash # q, Opaque = [], Fragment = []\<rparr>"
    unfolding parses_file_uris_def by (metis (no_types, lifting) HasPrefix_Cons list.pred_inject(1) HasPrefix_Nil)
  then show ?thesis by simp
qed

text \<open>C33. File names survive the trip through document URIs, with a URI parser that handles well-formed
  \<open>file:\<close> URIs as documented: a name rooted at one slash comes back unchanged unless a volume follows the
  slash, a name rooted at a volume comes back with its drive letter in lower case, and a name on a server
  of unreserved characters comes back unchanged.\<close>

theorem file_uri_round_trip:
  assumes "parses_file_uris url_Parse"
  shows "(\<not> HasPrefix q ''/'' \<and> \<not> snd (snd (splitVolumePath q)) \<longrightarrow>
      DocumentURIToFileName url_Parse (FileNameToDocumentURI (slash # q)) = Inr (slash # q)) \<and>
    (IsVolumeCharacter d \<and> \<not> HasPrefix q ''/'' \<longrightarrow>
      DocumentURIToFileName url_Parse (FileNameToDocumentURI (d # colon # slash # q)) =
        Inr (ascii_lower d # colon # slash # q)) \<and>
    (host \<noteq> [] \<and> list_all unreserved host \<longrightarrow>
      DocumentURIToFileName url_Parse (FileNameToDocumentURI (''//'' @ host @ slash # q)) =
        Inr (''//'' @ host @ slash # q))"
proof (intro conjI impI)
  assume q: "\<not> HasPrefix q ''/'' \<and> \<not> snd (snd (splitVolumePath q))"
  have np: "splitVolumePath (slash # q) = ([], slash # q, False)"
    by (simp add: splitVolumePath_def IsVolumeCharacter_def)
  have "FileNameToDocumentURI (slash # q) = ''file://'' @ [] @ uri_path (slash # q)"
    using q by (subst uri_of_path [OF _ _ np]) simp_all
  moreover have "fixWindowsURIPath (slash # q) = slash # q"
    using q by (auto simp: fixWindowsURIPath_def split: prod.splits)
  ultimately show "DocumentURIToFileName url_Parse (FileNameToDocumentURI (slash # q)) = Inr (slash # q)"
    using parsed_path [OF assms, of "[]" q] by (simp add: DocumentURIToFileName_def)
next
  assume d: "IsVolumeCharacter d \<and> \<not> HasPrefix q ''/''"
  let ?d = "ascii_lower d"
  note low = ascii_lower_letter [OF conjunct1 [OF d]]
  have split: "splitVolumePath (d # colon # slash # q) = ([?d, colon], slash # q, True)"
    using d by (simp add: splitVolumePath_def ascii_lower_def)
  have "map_of extraEscapeReplacer ?d = None" using low(1) by (intro no_extra_escape) blast
  then have "Replacer_Replace extraEscapeReplacer [?d, colon] = ?d # ''%3A''"
    by (simp add: Replacer_Replace_def extraEscapeReplacer_def)
  then have "FileNameToDocumentURI (d # colon # slash # q) = ''file://'' @ slash # ?d # ''%3A'' @ uri_path (slash # q)"
    using d by (subst uri_of_path [OF _ _ split]) simp_all
  moreover have "fixWindowsURIPath (slash # ?d # colon # slash # q) = ?d # colon # slash # q"
    using low(3,4) by (simp add: fixWindowsURIPath_def splitVolumePath_def, simp add: ascii_lower_def)
  ultimately show "DocumentURIToFileName url_Parse (FileNameToDocumentURI (d # colon # slash # q)) = Inr (?d # colon # slash # q)"
    using parsed_volume [OF assms low(3,4), of q] by (simp add: DocumentURIToFileName_def)
next
  assume h: "host \<noteq> [] \<and> list_all unreserved host"
  have "slash \<notin> set host" using h by (auto simp: list_all_iff unreserved_def IsASCIILetter_def IsDigit_def)
  then have "FileNameToDocumentURI (''//'' @ host @ slash # q) = ''file://'' @ host @ uri_path (slash # q)"
    using uri_of_share [of host q] escaped_plain [OF conjunct2 [OF h]] by simp
  then show "DocumentURIToFileName url_Parse (FileNameToDocumentURI (''//'' @ host @ slash # q)) =
      Inr (''//'' @ host @ slash # q)"
    using parsed_path [OF assms conjunct2 [OF h], of q] h by (simp add: DocumentURIToFileName_def)
qed

text \<open>A parser for \<open>file:\<close> URIs, at which the round trip applies: the host ends at the first slash.\<close>

definition file_url_Parse :: "string \<Rightarrow> parsed_url option" where
  "file_url_Parse uri =
     (if HasPrefix uri ''file://'' then
        (let host = takeWhile unreserved (drop 7 uri); path = dropWhile unreserved (drop 7 uri) in
         map_option (\<lambda>p. \<lparr>Scheme = ''file'', Host = host, Path = p, Opaque = [], Fragment = []\<rparr>) (unescape path))
      else None)"

lemma file_url_Parse_parses: "parses_file_uris file_url_Parse"
  unfolding parses_file_uris_def
proof (intro allI impI)
  fix host path p
  assume a: "list_all unreserved host \<and> HasPrefix path ''/'' \<and>
    list_all (\<lambda>c. unreserved c \<or> c \<in> set ''%/'') path \<and> unescape path = Some p"
  then obtain t where "path = slash # t" by (cases path) auto
  moreover have "\<not> unreserved slash" by (simp add: unreserved_def IsASCIILetter_def IsDigit_def)
  ultimately have "takeWhile unreserved (host @ path) = host" "dropWhile unreserved (host @ path) = path"
    using a by (auto simp: list_all_iff takeWhile_append2 dropWhile_append2)
  then show "file_url_Parse (''file://'' @ host @ path) =
      Some \<lparr>Scheme = ''file'', Host = host, Path = p, Opaque = [], Fragment = []\<rparr>"
    using a by (simp add: file_url_Parse_def HasPrefix_def)
qed

theorem file_uri_round_trip_witness:
  "DocumentURIToFileName file_url_Parse (FileNameToDocumentURI ''/a b/c.ts'') = Inr ''/a b/c.ts'' \<and>
   DocumentURIToFileName file_url_Parse (FileNameToDocumentURI ''C:/a b/c.ts'') = Inr ''c:/a b/c.ts'' \<and>
   DocumentURIToFileName file_url_Parse (FileNameToDocumentURI ''//srv/a b/c.ts'') = Inr ''//srv/a b/c.ts''"
proof -
  have h: "\<not> HasPrefix ''a b/c.ts'' ''/'' \<and> \<not> snd (snd (splitVolumePath ''a b/c.ts''))"
    "IsVolumeCharacter CHR ''C'' \<and> \<not> HasPrefix ''a b/c.ts'' ''/''" "ascii_lower CHR ''C'' = CHR ''c''"
    "''srv'' \<noteq> [] \<and> list_all unreserved ''srv''" by code_simp+
  note rt = file_uri_round_trip [OF file_url_Parse_parses, of "''a b/c.ts''" "CHR ''C''" "''srv''"]
  show ?thesis
    using mp [OF conjunct1 [OF rt] h(1)] mp [OF conjunct1 [OF conjunct2 [OF rt]] h(2)]
      mp [OF conjunct2 [OF conjunct2 [OF rt]] h(4)] h(3)
    by simp
qed

end
