(* ===== verification/Sourcemap_Lines.thy ===== *)
theory Sourcemap_Lines
  imports Core_Text
begin

text \<open>
  Lines of a text for source maps (\<open>internal/sourcemap/lineinfo.go\<close>) and the search for the source
  map comment at the end of a file (\<open>util.go\<close>). A line that does not exist is an index panic.
\<close>

record LineInfo =
  li_text :: string
  li_lineStarts :: "nat list"

definition GetLineInfo :: "string \<Rightarrow> nat list \<Rightarrow> LineInfo" where
  "GetLineInfo text lineStarts = \<lparr>li_text = text, li_lineStarts = lineStarts\<rparr>"

definition LineCount :: "LineInfo \<Rightarrow> int" where
  "LineCount li = int (length (li_lineStarts li))"

definition LineText :: "LineInfo \<Rightarrow> int \<Rightarrow> string go" where
  "LineText li line =
     go_bind (index_get (li_lineStarts li) line) (\<lambda>pos.
       let end = (if line + 1 < int (length (li_lineStarts li)) then li_lineStarts li ! nat (line + 1)
                  else length (li_text li))
       in go_slice (li_text li) (int pos) (int end))"

text \<open>One line of the backward search: \<open>Inl\<close> continues with the line above, \<open>Inr\<close> is the answer.\<close>

definition url_in_line :: "string \<Rightarrow> unit + string" where
  "url_in_line line0 =
     (let line = TrimRightFunc (TrimLeftFunc line0 unicode_IsSpace) IsLineBreak in
      if length line = 0 then Inl ()
      else if length line < 4 \<or> \<not> HasPrefix line ''//'' \<or> line ! 2 \<noteq> CHR ''#'' \<and> line ! 2 \<noteq> CHR ''@'' \<or>
              line ! 3 \<noteq> CHR '' ''
      then Inr []
      else if HasPrefix (drop 4 line) ''sourceMappingURL=''
      then Inr (TrimRightFunc (drop (length ''sourceMappingURL='') (drop 4 line)) unicode_IsSpace)
      else Inl ())"

fun search_url :: "LineInfo \<Rightarrow> nat \<Rightarrow> string go" where
  "search_url li 0 = Inr []"
| "search_url li (Suc index) =
     go_bind (LineText li (int index)) (\<lambda>line.
       case url_in_line line of Inl _ \<Rightarrow> search_url li index | Inr url \<Rightarrow> Inr url)"

definition TryGetSourceMappingURL :: "LineInfo \<Rightarrow> string go" where
  "TryGetSourceMappingURL li = search_url li (nat (LineCount li))"

section \<open>Lines of a text\<close>

lemma sorted_nth_mono:
  "sorted_wrt (<) xs \<Longrightarrow> i \<le> j \<Longrightarrow> j < length xs \<Longrightarrow> xs ! i \<le> (xs ! j :: nat)"
  by (cases "i = j") (auto dest: sorted_wrt_nth_less [of _ _ i j])

lemma LineText_computed:
  assumes "line < length (ComputeLineStarts s)"
  shows "LineText (GetLineInfo s (ComputeLineStarts s)) (int line) =
    Inr (let xs = ComputeLineStarts s @ [length s] in take (xs ! Suc line - xs ! line) (drop (xs ! line) s))"
proof -
  let ?xs = "ComputeLineStarts s"
  have s: "sorted_wrt (<) ?xs" "\<forall>x \<in> set ?xs. x \<le> length s" using ComputeLineStarts_sorted by blast+
  have le: "?xs ! line \<le> length s" using s(2) assms by simp
  show ?thesis
  proof (cases "Suc line < length ?xs")
    case True
    have "?xs ! line \<le> ?xs ! Suc line" "?xs ! Suc line \<le> length s"
      using sorted_nth_mono [OF s(1), of line "Suc line"] s(2) True by auto
    then show ?thesis using True assms
      by (simp add: LineText_def GetLineInfo_def index_get_in_range go_slice_def nth_append nat_add_distrib Let_def)
  next
    case False
    then have "Suc line = length ?xs" using assms by simp
    then show ?thesis using le assms
      by (simp add: LineText_def GetLineInfo_def index_get_in_range go_slice_def nth_append Let_def)
  qed
qed

text \<open>Put together, the lines are the text.\<close>

lemma pieces_concat:
  "sorted_wrt (<) xs \<Longrightarrow> \<forall>x \<in> set xs. x \<le> length s \<Longrightarrow> xs \<noteq> [] \<Longrightarrow>
   concat (map (\<lambda>i. take ((xs @ [length s]) ! Suc i - (xs @ [length s]) ! i) (drop ((xs @ [length s]) ! i) s)) [0..<length xs])
     = drop (hd xs) s"
proof (induction xs)
  case (Cons x xs)
  show ?case
  proof (cases "xs = []")
    case False
    let ?f = "\<lambda>ys i. take ((ys @ [length s]) ! Suc i - (ys @ [length s]) ! i) (drop ((ys @ [length s]) ! i) s)"
    have "map (?f (x # xs)) [0..<length (x # xs)] = take (hd xs - x) (drop x s) # map (?f xs) [0..<length xs]"
      using False by (simp add: map_upt_Suc nth_append hd_conv_nth del: upt_Suc)
    then have "concat (map (?f (x # xs)) [0..<length (x # xs)]) = take (hd xs - x) (drop x s) @ drop (hd xs) s"
      using Cons False by simp
    also have "x \<le> hd xs" using Cons.prems(1) False by (cases xs) auto
    then have "take (hd xs - x) (drop x s) @ drop (hd xs) s = drop x s"
      by (metis add.commute append_take_drop_id drop_drop le_add_diff_inverse)
    finally show ?thesis by simp
  qed simp
qed simp

text \<open>C39. The lines cut the text: with the line starts of a text no line lookup panics, the lines put
  together are the text, and the search for the source map comment returns without a panic.\<close>

theorem line_texts_partition:
  "\<exists>lines. (map (\<lambda>i. LineText (GetLineInfo s (ComputeLineStarts s)) (int i)) [0..<length (ComputeLineStarts s)] = map Inr lines)
     \<and> concat lines = s
     \<and> (\<exists>url. TryGetSourceMappingURL (GetLineInfo s (ComputeLineStarts s)) = Inr url)"
proof -
  let ?xs = "ComputeLineStarts s" and ?li = "GetLineInfo s (ComputeLineStarts s)"
  define lines where "lines = map (\<lambda>i. take ((?xs @ [length s]) ! Suc i - (?xs @ [length s]) ! i)
      (drop ((?xs @ [length s]) ! i) s)) [0..<length ?xs]"
  have s: "sorted_wrt (<) ?xs" "\<forall>x \<in> set ?xs. x \<le> length s" "?xs \<noteq> []" "hd ?xs = 0"
    using ComputeLineStarts_sorted by blast+
  have 1: "map (\<lambda>i. LineText ?li (int i)) [0..<length ?xs] = map Inr lines"
    by (simp add: lines_def LineText_computed Let_def)
  have 2: "concat lines = s" unfolding lines_def using pieces_concat [OF s(1-3)] s(4) by simp
  have "\<exists>url. search_url ?li n = Inr url" if "n \<le> length ?xs" for n
    using that
  proof (induction n)
    case (Suc n)
    then obtain line where "LineText ?li (int n) = Inr line" using LineText_computed [of n s] by auto
    with Suc show ?case by (auto split: sum.splits)
  qed simp
  then have "\<exists>url. TryGetSourceMappingURL ?li = Inr url"
    by (simp add: TryGetSourceMappingURL_def LineCount_def GetLineInfo_def)
  with 1 2 show ?thesis by blast
qed

end
