(* ===== verification/Actions.thy ===== *)
theory Actions
  imports Prelude
begin

text \<open>
  Code that works on a mutable state and may panic, as functions from a state to a result and the state
  behind it: the sequential combinators the stateful components are written with, and the rules by which
  a property that every step keeps is a property of the whole. \<open>steps R Q m\<close> says that a run of \<open>m\<close> that
  returns relates the states before and behind it by \<open>R\<close> and returns a value in \<open>Q\<close>.
\<close>

type_synonym ('s, 'a) action = "'s \<Rightarrow> ('a \<times> 's) go"

definition ret :: "'a \<Rightarrow> ('s, 'a) action" where
  "ret x s = Inr (x, s)"

definition seq :: "('s, 'a) action \<Rightarrow> ('a \<Rightarrow> ('s, 'b) action) \<Rightarrow> ('s, 'b) action" where
  "seq m f s = (case m s of Inl e \<Rightarrow> Inl e | Inr (x, s') \<Rightarrow> f x s')"

definition lift_go :: "'a go \<Rightarrow> ('s, 'a) action" where
  "lift_go m s = (case m of Inl e \<Rightarrow> Inl e | Inr x \<Rightarrow> Inr (x, s))"

definition gets :: "('s \<Rightarrow> 'a) \<Rightarrow> ('s, 'a) action" where
  "gets f s = Inr (f s, s)"

definition modify :: "('s \<Rightarrow> 's) \<Rightarrow> ('s, unit) action" where
  "modify f s = Inr ((), f s)"

text \<open>A search goes on with the next alternative when the one before found nothing.\<close>

definition or_else :: "('s, 'a option) action \<Rightarrow> ('s, 'a option) action \<Rightarrow> ('s, 'a option) action" where
  "or_else m1 m2 = seq m1 (\<lambda>r. case r of None \<Rightarrow> m2 | Some x \<Rightarrow> ret (Some x))"

fun first_found :: "('x \<Rightarrow> ('s, 'a option) action) \<Rightarrow> 'x list \<Rightarrow> ('s, 'a option) action" where
  "first_found f [] = ret None"
| "first_found f (x # xs) = or_else (f x) (first_found f xs)"

section \<open>Running\<close>

lemma run_simps [simp]:
  "ret x s = Inr (x, s)"
  "gets f s = Inr (f s, s)"
  "modify g s = Inr ((), g s)"
  "lift_go (Inr x) s = Inr (x, s)"
  "lift_go (Inl e) s = Inl e"
  by (simp_all add: ret_def gets_def modify_def lift_go_def)

lemma seq_run [simp]:
  "m s = Inr (x, s') \<Longrightarrow> seq m f s = f x s'"
  "m s = Inl e \<Longrightarrow> seq m f s = Inl e"
  by (simp_all add: seq_def)

lemma seq_ret [simp]: "seq (ret x) f = f x"
  by (rule ext) simp

lemma seq_gets_run [simp]: "seq (gets g) f s = f (g s) s"
  by (simp add: seq_def)

lemma seq_modify_run [simp]: "seq (modify g) f s = f () (g s)"
  by (simp add: seq_def)

lemma seq_InrE:
  assumes "seq m f s = Inr (y, s2)"
  obtains x s1 where "m s = Inr (x, s1)" and "f x s1 = Inr (y, s2)"
  using assms by (auto simp: seq_def split: sum.splits)

lemma seq_assoc: "seq (seq m f) g = seq m (\<lambda>x. seq (f x) g)"
  by (rule ext) (auto simp: seq_def split: sum.splits)

lemma or_else_run:
  "m1 s = Inr (Some x, s') \<Longrightarrow> or_else m1 m2 s = Inr (Some x, s')"
  "m1 s = Inr (None, s') \<Longrightarrow> or_else m1 m2 s = m2 s'"
  "m1 s = Inl e \<Longrightarrow> or_else m1 m2 s = Inl e"
  by (simp_all add: or_else_def)

section \<open>What every step keeps\<close>

definition steps :: "('s \<Rightarrow> 's \<Rightarrow> bool) \<Rightarrow> ('a \<Rightarrow> bool) \<Rightarrow> ('s, 'a) action \<Rightarrow> bool" where
  "steps R Q m = (\<forall>s x s'. m s = Inr (x, s') \<longrightarrow> R s s' \<and> Q x)"

lemma stepsD: "steps R Q m \<Longrightarrow> m s = Inr (x, s') \<Longrightarrow> R s s' \<and> Q x"
  by (simp add: steps_def)

lemma steps_weaken: "steps R Q m \<Longrightarrow> (\<And>x. Q x \<Longrightarrow> Q' x) \<Longrightarrow> steps R Q' m"
  by (auto simp: steps_def)

abbreviation found :: "('a \<Rightarrow> bool) \<Rightarrow> 'a option \<Rightarrow> bool" where
  "found P r \<equiv> (\<forall>x. r = Some x \<longrightarrow> P x)"

named_theorems step_intros \<open>rules that reduce \<open>steps\<close> of a combination to its parts\<close>

locale kept =
  fixes R :: "'s \<Rightarrow> 's \<Rightarrow> bool"
  assumes kept_refl: "R s s"
    and kept_trans: "R s1 s2 \<Longrightarrow> R s2 s3 \<Longrightarrow> R s1 s3"
begin

lemma ret [step_intros]: "Q x \<Longrightarrow> steps R Q (ret x)"
  by (simp add: steps_def kept_refl)

lemma lift [step_intros]: "(\<And>x. m = Inr x \<Longrightarrow> Q x) \<Longrightarrow> steps R Q (lift_go m)"
  by (cases m) (auto simp: steps_def kept_refl)

lemma gets [step_intros]: "(\<And>s. Q (f s)) \<Longrightarrow> steps R Q (gets f)"
  by (simp add: steps_def kept_refl)

lemma modify: "(\<And>s. R s (f s)) \<Longrightarrow> Q () \<Longrightarrow> steps R Q (modify f)"
  by (auto simp: steps_def)

lemma seq: "steps R P m \<Longrightarrow> (\<And>x. P x \<Longrightarrow> steps R Q (f x)) \<Longrightarrow> steps R Q (seq m f)"
  by (auto simp: steps_def elim!: seq_InrE) (blast intro: kept_trans)+

lemma seq_any [step_intros]: "steps R (\<lambda>_. True) m \<Longrightarrow> (\<And>x. steps R Q (f x)) \<Longrightarrow> steps R Q (seq m f)"
  by (rule seq [of "\<lambda>_. True"]) auto

lemma or_else [step_intros]:
  assumes "steps R (found P) m1" and "steps R (found P) m2"
  shows "steps R (found P) (or_else m1 m2)"
  unfolding or_else_def by (rule seq [OF assms(1)]) (auto split: option.splits intro: ret assms(2))

lemma first_found [step_intros]:
  "(\<And>x. x \<in> set xs \<Longrightarrow> steps R (found P) (f x)) \<Longrightarrow> steps R (found P) (first_found f xs)"
  by (induction xs) (auto intro: ret or_else)

lemma cond [step_intros]:
  "(b \<Longrightarrow> steps R Q m1) \<Longrightarrow> (\<not> b \<Longrightarrow> steps R Q m2) \<Longrightarrow> steps R Q (if b then m1 else m2)"
  by simp

lemma nothing [step_intros]: "steps R (found P) (ret None)"
  by (rule ret) simp

end

section \<open>Simulation\<close>

text \<open>
  \<open>refines E m m'\<close>: from related states the two actions return the same value, or panic alike, and leave
  related states, unless the first one runs out of stack.
\<close>

definition refines :: "('s \<Rightarrow> 't \<Rightarrow> bool) \<Rightarrow> ('s, 'a) action \<Rightarrow> ('t, 'a) action \<Rightarrow> bool" where
  "refines E m m' =
     (\<forall>s t. E s t \<longrightarrow> m s = Inl StackOverflow \<or> rel_sum (=) (rel_prod (=) E) (m s) (m' t))"

named_theorems sim_intros \<open>rules that reduce \<open>refines\<close> of a combination to its parts\<close>

lemma refinesD:
  assumes "refines E m m'" and "E s t" and "m s \<noteq> Inl StackOverflow"
  shows "rel_sum (=) (rel_prod (=) E) (m s) (m' t)"
  using assms by (auto simp: refines_def)

lemma refinesD_Inr:
  assumes "refines E m m'" and "E s t" and "m s = Inr (x, s')"
  obtains t' where "m' t = Inr (x, t')" and "E s' t'"
  using refinesD [OF assms(1,2)] assms(3) by (cases "m' t") auto

lemma refines_ret [sim_intros]: "refines E (ret x) (ret x)"
  by (simp add: refines_def)

lemma refines_lift [sim_intros]: "refines E (lift_go g) (lift_go g)"
  by (cases g) (auto simp: refines_def)

lemma refines_overflow: "refines E (lift_go (Inl StackOverflow)) m"
  by (simp add: refines_def)

lemma refines_gets [sim_intros]: "(\<And>s t. E s t \<Longrightarrow> f s = g t) \<Longrightarrow> refines E (gets f) (gets g)"
  by (auto simp: refines_def)

lemma refines_modify: "(\<And>s t. E s t \<Longrightarrow> E (f s) (g t)) \<Longrightarrow> refines E (modify f) (modify g)"
  by (auto simp: refines_def)

lemma refines_seq [sim_intros]:
  assumes m: "refines E m m'" and f: "\<And>x. refines E (f x) (f' x)"
  shows "refines E (seq m f) (seq m' f')"
  unfolding refines_def
proof (intro allI impI)
  fix s t
  assume st: "E s t"
  show "seq m f s = Inl StackOverflow \<or> rel_sum (=) (rel_prod (=) E) (seq m f s) (seq m' f' t)"
  proof (cases "m s")
    case (Inl e)
    then show ?thesis using refinesD [OF m st] by (cases "m' t"; cases "e = StackOverflow") auto
  next
    case (Inr p)
    then obtain x s1 where run: "m s = Inr (x, s1)" by (cases p) auto
    with m st obtain t1 where "m' t = Inr (x, t1)" "E s1 t1" by (rule refinesD_Inr)
    with f [of x] run show ?thesis by (simp add: refines_def)
  qed
qed

lemma refines_cond [sim_intros]:
  "(b \<Longrightarrow> refines E m1 m1') \<Longrightarrow> (\<not> b \<Longrightarrow> refines E m2 m2') \<Longrightarrow>
   refines E (if b then m1 else m2) (if b then m1' else m2')"
  by simp

lemma refines_option [sim_intros]:
  "(m = None \<Longrightarrow> refines E f f') \<Longrightarrow> (\<And>x. m = Some x \<Longrightarrow> refines E (g x) (g' x)) \<Longrightarrow>
   refines E (case m of None \<Rightarrow> f | Some x \<Rightarrow> g x) (case m of None \<Rightarrow> f' | Some x \<Rightarrow> g' x)"
  by (cases m) auto

lemma refines_prod [sim_intros]:
  "(\<And>a b. p = (a, b) \<Longrightarrow> refines E (f a b) (f' a b)) \<Longrightarrow>
   refines E (case p of (a, b) \<Rightarrow> f a b) (case p of (a, b) \<Rightarrow> f' a b)"
  by (cases p) auto

lemma refines_or_else [sim_intros]:
  "refines E m1 m1' \<Longrightarrow> refines E m2 m2' \<Longrightarrow> refines E (or_else m1 m2) (or_else m1' m2')"
  unfolding or_else_def by (intro sim_intros)

lemma refines_first_found [sim_intros]:
  "(\<And>x. x \<in> set xs \<Longrightarrow> refines E (f x) (f' x)) \<Longrightarrow> refines E (first_found f xs) (first_found f' xs)"
  by (induction xs) (auto simp del: run_simps intro: sim_intros)

section \<open>Running within the stack\<close>

definition in_stack :: "('s, 'a) action \<Rightarrow> bool" where
  "in_stack m = (\<forall>s. m s \<noteq> Inl StackOverflow)"

definition go_in_stack :: "'a go \<Rightarrow> bool" where
  "go_in_stack m = (m \<noteq> Inl StackOverflow)"

named_theorems stack_intros \<open>rules that reduce \<open>in_stack\<close> of a combination to its parts\<close>

lemma go_in_stack [stack_intros]:
  "go_in_stack (Inr x)"
  "go_in_stack (Inl (Panicked msg))"
  "go_in_stack (go_slice s lo hi)"
  "go_in_stack (index_get s i)"
  by (simp_all add: go_in_stack_def go_slice_def index_get_def)

lemma go_bind_in_stack [stack_intros]:
  "go_in_stack m \<Longrightarrow> (\<And>x. go_in_stack (f x)) \<Longrightarrow> go_in_stack (go_bind m f)"
  by (cases m) (simp_all add: go_in_stack_def)

lemma go_cond_in_stack [stack_intros]:
  "(b \<Longrightarrow> go_in_stack m) \<Longrightarrow> (\<not> b \<Longrightarrow> go_in_stack m') \<Longrightarrow> go_in_stack (if b then m else m')"
  by simp

lemma go_prod_in_stack [stack_intros]:
  "(\<And>a b. p = (a, b) \<Longrightarrow> go_in_stack (f a b)) \<Longrightarrow> go_in_stack (case p of (a, b) \<Rightarrow> f a b)"
  by (cases p) simp

lemma go_option_in_stack [stack_intros]:
  "(m = None \<Longrightarrow> go_in_stack f) \<Longrightarrow> (\<And>x. m = Some x \<Longrightarrow> go_in_stack (g x)) \<Longrightarrow>
   go_in_stack (case m of None \<Rightarrow> f | Some x \<Rightarrow> g x)"
  by (cases m) auto

lemma in_stack_basic [stack_intros]:
  "in_stack (ret x)"
  "in_stack (gets f)"
  "in_stack (modify g)"
  by (simp_all add: in_stack_def)

lemma in_stack_lift [stack_intros]: "go_in_stack m \<Longrightarrow> in_stack (lift_go m)"
  by (cases m) (simp_all add: in_stack_def go_in_stack_def)

lemma in_stack_seq [stack_intros]: "in_stack m \<Longrightarrow> (\<And>x. in_stack (f x)) \<Longrightarrow> in_stack (seq m f)"
  by (auto simp: in_stack_def seq_def split: sum.splits)

lemma in_stack_cond [stack_intros]:
  "(b \<Longrightarrow> in_stack m) \<Longrightarrow> (\<not> b \<Longrightarrow> in_stack m') \<Longrightarrow> in_stack (if b then m else m')"
  by simp

lemma in_stack_option [stack_intros]:
  "(m = None \<Longrightarrow> in_stack f) \<Longrightarrow> (\<And>x. m = Some x \<Longrightarrow> in_stack (g x)) \<Longrightarrow>
   in_stack (case m of None \<Rightarrow> f | Some x \<Rightarrow> g x)"
  by (cases m) auto

lemma in_stack_prod [stack_intros]:
  "(\<And>a b. p = (a, b) \<Longrightarrow> in_stack (f a b)) \<Longrightarrow> in_stack (case p of (a, b) \<Rightarrow> f a b)"
  by (cases p) auto

lemma in_stack_or_else [stack_intros]: "in_stack m \<Longrightarrow> in_stack m' \<Longrightarrow> in_stack (or_else m m')"
  unfolding or_else_def by (intro stack_intros)

lemma in_stack_first_found [stack_intros]:
  "(\<And>x. x \<in> set xs \<Longrightarrow> in_stack (f x)) \<Longrightarrow> in_stack (first_found f xs)"
  by (induction xs) (auto simp del: run_simps intro: stack_intros)

end
