(* ===== verification/Packagejson.thy ===== *)
theory Packagejson
  imports Collections Semver_Range_Props Tspath_Compare
begin

text \<open>
  Package descriptions (\<open>internal/packagejson\<close>): the JSON values of their dynamic fields, the typed
  fields, the table of version-dependent paths and the cache of descriptions by path. A JSON object is
  the association list of its members in order, which the ordered map refines (\<open>Collections\<close>). The
  decoder is third-party code: what it delivers is a document of type \<open>json\<close>. \<open>typeScriptVersion\<close> is
  fixed when the program is linked and is an argument.
\<close>

section \<open>JSON values\<close>

datatype JSONValueType =
    JSONValueTypeNotPresent | JSONValueTypeNull | JSONValueTypeString | JSONValueTypeNumber
  | JSONValueTypeBoolean | JSONValueTypeArray | JSONValueTypeObject

definition JSONValueType_String :: "JSONValueType \<Rightarrow> string" where
  "JSONValueType_String t =
     (case t of
        JSONValueTypeNull \<Rightarrow> ''null''
      | JSONValueTypeString \<Rightarrow> ''string''
      | JSONValueTypeNumber \<Rightarrow> ''number''
      | JSONValueTypeBoolean \<Rightarrow> ''boolean''
      | JSONValueTypeArray \<Rightarrow> ''array''
      | JSONValueTypeObject \<Rightarrow> ''object''
      | JSONValueTypeNotPresent \<Rightarrow> ''unknown(0)'')"

text \<open>
  \<open>JSONValue\<close> pairs a type with a value of that type; \<open>ExportsOrImports\<close> has the same shape. A number
  keeps its literal. The cached \<open>objectKind\<close> of the latter is computed on a copy and never stored.
\<close>

datatype JSONValue =
    JSONNotPresent | JSONNull | JSONString string | JSONNumber string | JSONBoolean bool
  | JSONArray "JSONValue list" | JSONObject "(string \<times> JSONValue) list"

type_synonym ExportsOrImports = JSONValue

fun value_type :: "JSONValue \<Rightarrow> JSONValueType" where
  "value_type JSONNotPresent = JSONValueTypeNotPresent"
| "value_type JSONNull = JSONValueTypeNull"
| "value_type (JSONString _) = JSONValueTypeString"
| "value_type (JSONNumber _) = JSONValueTypeNumber"
| "value_type (JSONBoolean _) = JSONValueTypeBoolean"
| "value_type (JSONArray _) = JSONValueTypeArray"
| "value_type (JSONObject _) = JSONValueTypeObject"

text \<open>
  A decoded number is a \<open>float64\<close>, and \<open>v.Value == 0\<close> compares it as an interface with an \<open>int\<close>: never
  equal.
\<close>

definition IsFalsy :: "JSONValue \<Rightarrow> bool" where
  "IsFalsy v =
     (case v of
        JSONNotPresent \<Rightarrow> True
      | JSONNull \<Rightarrow> True
      | JSONString s \<Rightarrow> s = []
      | JSONNumber _ \<Rightarrow> False
      | JSONBoolean b \<Rightarrow> \<not> b
      | _ \<Rightarrow> False)"

definition AsObject :: "JSONValue \<Rightarrow> (string \<times> JSONValue) list go" where
  "AsObject v = (case v of JSONObject members \<Rightarrow> Inr members
                 | _ \<Rightarrow> Inl (Panicked (''expected object, got '' @ JSONValueType_String (value_type v))))"

definition AsArray :: "JSONValue \<Rightarrow> JSONValue list go" where
  "AsArray v = (case v of JSONArray elements \<Rightarrow> Inr elements
                | _ \<Rightarrow> Inl (Panicked (''expected array, got '' @ JSONValueType_String (value_type v))))"

datatype objectKind =
  objectKindUnknown | objectKindSubpaths | objectKindConditions | objectKindImports | objectKindInvalid

text \<open>The loop over the keys: a dot, a hash, or anything else at the front; it stops when they mix.\<close>

fun kind_loop :: "string list \<Rightarrow> bool \<Rightarrow> bool \<Rightarrow> bool \<Rightarrow> objectKind option \<times> bool \<times> bool" where
  "kind_loop [] seenDot seenHash seenOther = (None, seenDot, seenHash)"
| "kind_loop (k # ks) seenDot seenHash seenOther =
     (if k \<noteq> [] then
        let seenDot = (seenDot \<or> hd k = CHR ''.'');
            seenHash = (seenHash \<or> hd k = CHR ''#'');
            seenOther = (seenOther \<or> hd k \<noteq> CHR ''.'' \<and> hd k \<noteq> CHR ''#'')
        in if seenOther \<and> (seenDot \<or> seenHash) then (Some objectKindInvalid, seenDot, seenHash)
           else kind_loop ks seenDot seenHash seenOther
      else kind_loop ks seenDot seenHash seenOther)"

definition initObjectKind :: "ExportsOrImports \<Rightarrow> objectKind" where
  "initObjectKind e =
     (case e of
        JSONObject members \<Rightarrow>
          (if members \<noteq> [] then
             (case kind_loop (map fst members) False False False of
                (Some kind, _, _) \<Rightarrow> kind
              | (None, seenDot, seenHash) \<Rightarrow>
                  if seenDot then objectKindSubpaths
                  else if seenHash then objectKindImports else objectKindConditions)
           else objectKindConditions)
      | _ \<Rightarrow> objectKindUnknown)"

definition IsSubpaths :: "ExportsOrImports \<Rightarrow> bool" where
  "IsSubpaths e = (initObjectKind e = objectKindSubpaths)"

definition IsImports :: "ExportsOrImports \<Rightarrow> bool" where
  "IsImports e = (initObjectKind e = objectKindImports)"

definition IsConditions :: "ExportsOrImports \<Rightarrow> bool" where
  "IsConditions e = (initObjectKind e = objectKindConditions)"

section \<open>Decoding\<close>

text \<open>A document as the decoder delivers it; the members of an object may repeat a key.\<close>

datatype json =
    JNull | JBool bool | JText string | JNumeral string | JList "json list" | JMembers "(string \<times> json) list"

fun unmarshalJSONValueV2 :: "json \<Rightarrow> JSONValue" where
  "unmarshalJSONValueV2 JNull = JSONNull"
| "unmarshalJSONValueV2 (JText s) = JSONString s"
| "unmarshalJSONValueV2 (JList elements) = JSONArray (map unmarshalJSONValueV2 elements)"
| "unmarshalJSONValueV2 (JMembers members) =
     JSONObject (fold (\<lambda>(k, v) m. AList.update k v m) (map (\<lambda>(k, v). (k, unmarshalJSONValueV2 v)) members) [])"
| "unmarshalJSONValueV2 (JBool b) = JSONBoolean b"
| "unmarshalJSONValueV2 (JNumeral n) = JSONNumber n"

record 'a Expected =
  ex_actualJSONType :: string
  ex_Null :: bool
  ex_Valid :: bool
  ex_Value :: 'a

definition Expected_zero :: "'a \<Rightarrow> 'a Expected" where
  "Expected_zero zero = \<lparr>ex_actualJSONType = [], ex_Null = False, ex_Valid = False, ex_Value = zero\<rparr>"

text \<open>
  Decoding an expected field; \<open>decode\<close> is the library's decoding into the field's Go type, which leaves
  the value as it is when the document has another type.
\<close>

definition Expected_UnmarshalJSON :: "'a \<Rightarrow> (json \<Rightarrow> 'a option) \<Rightarrow> 'a Expected \<Rightarrow> json \<Rightarrow> 'a Expected" where
  "Expected_UnmarshalJSON zero decode e data =
     (if data = JNull then (Expected_zero zero)\<lparr>ex_Null := True, ex_actualJSONType := ''null''\<rparr>
      else
        (let e1 = (case decode data of Some v \<Rightarrow> e\<lparr>ex_Value := v, ex_Valid := True\<rparr> | None \<Rightarrow> e)
         in case data of
              JText _ \<Rightarrow> e1\<lparr>ex_actualJSONType := ''string''\<rparr>
            | JBool _ \<Rightarrow> e1\<lparr>ex_actualJSONType := ''boolean''\<rparr>
            | JList _ \<Rightarrow> e1\<lparr>ex_actualJSONType := ''array''\<rparr>
            | JMembers _ \<Rightarrow> e1\<lparr>ex_actualJSONType := ''object''\<rparr>
            | _ \<Rightarrow> e1\<lparr>ex_actualJSONType := ''number''\<rparr>))"

definition Expected_IsPresent :: "'a Expected \<Rightarrow> bool" where
  "Expected_IsPresent e = (ex_actualJSONType e \<noteq> [])"

definition Expected_GetValue :: "'a Expected \<Rightarrow> 'a \<times> bool" where
  "Expected_GetValue e = (ex_Value e, ex_Valid e)"

definition Expected_IsValid :: "'a Expected \<Rightarrow> bool" where
  "Expected_IsValid e = ex_Valid e"

section \<open>Package descriptions\<close>

text \<open>
  The fields, flattened out of the embedded structs. \<open>PeerDependencies\<close> is a Go map, whose iteration
  order is unspecified: it is given as the list of its entries in the order a run visits them.
\<close>

record Fields =
  pj_Name :: "string Expected"
  pj_Version :: "string Expected"
  pj_Type :: "string Expected"
  pj_TSConfig :: "string Expected"
  pj_Main :: "string Expected"
  pj_Types :: "string Expected"
  pj_Typings :: "string Expected"
  pj_TypesVersions :: JSONValue
  pj_Imports :: ExportsOrImports
  pj_Exports :: ExportsOrImports
  pj_PeerDependencies :: "(string \<times> string) list Expected"

definition no_fields :: Fields where
  "no_fields =
     \<lparr>pj_Name = Expected_zero [], pj_Version = Expected_zero [], pj_Type = Expected_zero [],
      pj_TSConfig = Expected_zero [], pj_Main = Expected_zero [], pj_Types = Expected_zero [],
      pj_Typings = Expected_zero [], pj_TypesVersions = JSONNotPresent, pj_Imports = JSONNotPresent,
      pj_Exports = JSONNotPresent, pj_PeerDependencies = Expected_zero []\<rparr>"

record VersionPaths =
  vp_Version :: string
  vp_pathsJSON :: "(string \<times> JSONValue) list option"

definition no_version_paths :: VersionPaths where
  "no_version_paths = \<lparr>vp_Version = [], vp_pathsJSON = None\<rparr>"

definition VersionPaths_Exists :: "VersionPaths \<Rightarrow> bool" where
  "VersionPaths_Exists v = (vp_Version v \<noteq> [] \<and> vp_pathsJSON v \<noteq> None)"

fun version_paths_loop :: "Version \<Rightarrow> (string \<times> JSONValue) list \<Rightarrow> VersionPaths go" where
  "version_paths_loop typeScriptVersion [] = Inr no_version_paths"
| "version_paths_loop typeScriptVersion ((key, val) # entries) =
     go_bind (TryParseVersionRange key) (\<lambda>(keyRange, ok).
       if \<not> ok then version_paths_loop typeScriptVersion entries
       else go_bind (VersionRange_Test keyRange (Some typeScriptVersion)) (\<lambda>passes.
         if passes then
           (case val of
              JSONObject members \<Rightarrow> Inr \<lparr>vp_Version = key, vp_pathsJSON = Some members\<rparr>
            | _ \<Rightarrow> Inr no_version_paths)
         else version_paths_loop typeScriptVersion entries))"

definition GetVersionPaths :: "Version \<Rightarrow> Fields \<Rightarrow> VersionPaths go" where
  "GetVersionPaths typeScriptVersion p =
     (case pj_TypesVersions p of
        JSONObject members \<Rightarrow> version_paths_loop typeScriptVersion members
      | _ \<Rightarrow> Inr no_version_paths)"

definition path_strings :: "JSONValue list \<Rightarrow> string list" where
  "path_strings = map (\<lambda>path. case path of JSONString s \<Rightarrow> s | _ \<Rightarrow> [])"

fun paths_loop :: "(string \<times> JSONValue) list \<Rightarrow> (string, string list) OrderedMap \<Rightarrow> (string, string list) OrderedMap" where
  "paths_loop [] paths = paths"
| "paths_loop ((key, val) # entries) paths =
     (case val of
        JSONArray elements \<Rightarrow> paths_loop entries (OrderedMap_Set paths key (path_strings elements))
      | _ \<Rightarrow> paths_loop entries paths)"

text \<open>The size hint of the map of paths is a length, for which the constructor returns the empty map.\<close>

definition GetPaths :: "VersionPaths \<Rightarrow> (string, string list) OrderedMap option" where
  "GetPaths v =
     (if \<not> VersionPaths_Exists v then None
      else map_option (\<lambda>members. paths_loop members OrderedMap_empty)
             (vp_pathsJSON v))"

section \<open>The cache of descriptions\<close>

record InfoCacheEntry =
  ice_PackageDirectory :: string
  ice_DirectoryExists :: bool
  ice_Contents :: "Fields option"

definition Entry_Exists :: "InfoCacheEntry option \<Rightarrow> bool" where
  "Entry_Exists p = (case p of None \<Rightarrow> False | Some e \<Rightarrow> ice_Contents e \<noteq> None)"

definition GetContents :: "InfoCacheEntry option \<Rightarrow> Fields option" where
  "GetContents p = (case p of None \<Rightarrow> None | Some e \<Rightarrow> ice_Contents e)"

definition GetDirectory :: "InfoCacheEntry option \<Rightarrow> string" where
  "GetDirectory p = (case p of None \<Rightarrow> [] | Some e \<Rightarrow> ice_PackageDirectory e)"

record InfoCache =
  ic_IsReadonly :: bool
  ic_cache :: "string \<rightharpoonup> InfoCacheEntry"
  ic_currentDirectory :: string
  ic_useCaseSensitiveFileNames :: bool

definition NewInfoCache :: "string \<Rightarrow> bool \<Rightarrow> InfoCache" where
  "NewInfoCache currentDirectory useCaseSensitiveFileNames =
     \<lparr>ic_IsReadonly = False, ic_cache = Map.empty, ic_currentDirectory = currentDirectory,
      ic_useCaseSensitiveFileNames = useCaseSensitiveFileNames\<rparr>"

definition InfoCache_Get :: "(nat \<Rightarrow> nat) \<Rightarrow> InfoCache \<Rightarrow> string \<Rightarrow> InfoCacheEntry option" where
  "InfoCache_Get lower p packageJsonPath =
     ic_cache p (ToPath lower packageJsonPath (ic_currentDirectory p) (ic_useCaseSensitiveFileNames p))"

definition InfoCache_Set :: "(nat \<Rightarrow> nat) \<Rightarrow> InfoCache \<Rightarrow> string \<Rightarrow> InfoCacheEntry \<Rightarrow> InfoCache" where
  "InfoCache_Set lower p packageJsonPath info =
     p\<lparr>ic_cache := (ic_cache p)
         (ToPath lower packageJsonPath (ic_currentDirectory p) (ic_useCaseSensitiveFileNames p) \<mapsto> info)\<rparr>"

section \<open>Facts\<close>

lemma version_paths_loop_total: "\<exists>v. version_paths_loop ts entries = Inr v"
proof (induction entries)
  case (Cons e entries)
  obtain key val where e: "e = (key, val)" by (cases e)
  obtain r b c where "TryParseVersionRange key = Inr (r, b)" "VersionRange_Test r (Some ts) = Inr c"
    by (rule range_never_panics)
  with Cons.IH show ?case by (cases val) (auto simp: e)
qed simp

lemma GetVersionPaths_total: "\<exists>v. GetVersionPaths ts p = Inr v"
  using version_paths_loop_total by (cases "pj_TypesVersions p") (auto simp: GetVersionPaths_def)

lemma paths_loop_wf: "OrderedMap_wf m \<Longrightarrow> OrderedMap_wf (paths_loop members m)"
  by (induction members m rule: paths_loop.induct) (auto split: JSONValue.splits simp: wf_set)

lemma GetPaths_wf: "GetPaths v = Some m \<Longrightarrow> OrderedMap_wf m"
  by (auto simp: GetPaths_def split: if_splits intro!: paths_loop_wf wf_new)

text \<open>Decoded objects have distinct keys, at every depth.\<close>

fun distinct_members :: "JSONValue \<Rightarrow> bool" where
  "distinct_members (JSONArray elements) = (\<forall>e \<in> set elements. distinct_members e)"
| "distinct_members (JSONObject members) =
     (distinct (map fst members) \<and> (\<forall>m \<in> set members. distinct_members (snd m)))"
| "distinct_members _ = True"

lemma update_members:
  "distinct (map fst ms) \<Longrightarrow> distinct (map fst (AList.update k v ms)) \<and>
   set (AList.update k v ms) \<subseteq> insert (k, v) (set ms)"
  by (induction ms) (auto simp: update_keys)

lemma fold_update_members:
  "distinct (map fst ms) \<Longrightarrow> (\<forall>m \<in> set ms. P (snd m)) \<Longrightarrow> (\<forall>m \<in> set new. P (snd m)) \<Longrightarrow>
   distinct (map fst (fold (\<lambda>(k, v) m. AList.update k v m) new ms)) \<and>
   (\<forall>m \<in> set (fold (\<lambda>(k, v) m. AList.update k v m) new ms). P (snd m))"
proof (induction new arbitrary: ms)
  case (Cons n new)
  obtain k v where n: "n = (k, v)" by (cases n)
  from update_members [OF Cons.prems(1), of k v] Cons.prems
  have "distinct (map fst (AList.update k v ms))" "\<forall>m \<in> set (AList.update k v ms). P (snd m)"
    by (auto simp: n)
  from Cons.IH [OF this] Cons.prems(3) show ?case by (simp add: n)
qed simp

lemma unmarshal_distinct: "distinct_members (unmarshalJSONValueV2 doc)"
proof (induction doc)
  case (JMembers members)
  have "\<forall>m \<in> set (map (\<lambda>(k, v). (k, unmarshalJSONValueV2 v)) members). distinct_members (snd m)"
    using JMembers by (fastforce simp: fsts.simps snds.simps)
  from fold_update_members [of "[]" distinct_members, OF _ _ this] show ?case by simp
qed auto

end
