(* ===== verification/Flags.thy ===== *)
theory Flags
  imports Prelude "HOL-Library.Word"
begin

text \<open>Sets of flags that the code keeps in the bits of a machine word.\<close>

definition has_flag :: "'a::len word \<Rightarrow> 'a word \<Rightarrow> bool" where
  "has_flag flags flag = (Bit_Operations.and flags flag \<noteq> 0)"

lemma has_flag_zero [simp]: "\<not> has_flag 0 flag"
  by (simp add: has_flag_def)

end
