(* ===== verification/Module_Util.thy ===== *)
theory Module_Util
  imports Core_Options Flags
begin

unbundle bit_operations_syntax

text \<open>
  Module resolution (\<open>internal/module\<close>), first part: package names (\<open>util.go\<close>), the flag types
  (\<open>types.go\<close>) and the small functions of \<open>resolver.go\<close> that do not touch the state of a resolution.
\<close>

section \<open>Package names\<close>

definition moveToNextDirectorySeparatorIfAvailable :: "string \<Rightarrow> int \<Rightarrow> bool \<Rightarrow> int go" where
  "moveToNextDirectorySeparatorIfAvailable path prevSeparatorIndex isFolder =
     (let offset = prevSeparatorIndex + 1 in
      go_bind (go_slice path offset (int (length path))) (\<lambda>rest.
        let nextSeparatorIndex = Index rest ''/'' in
        Inr (if nextSeparatorIndex = -1
             then if isFolder then int (length path) else prevSeparatorIndex
             else nextSeparatorIndex + offset)))"

definition ParseNodeModuleFromPath :: "string \<Rightarrow> bool \<Rightarrow> string go" where
  "ParseNodeModuleFromPath resolved isFolder =
     (let path = NormalizePath resolved;
          idx = LastIndex path ''/node_modules/''
      in if idx = -1 then Inr []
         else
           let indexAfterNodeModules = idx + int (length ''/node_modules/'') in
           go_bind (moveToNextDirectorySeparatorIfAvailable path indexAfterNodeModules isFolder) (\<lambda>after.
           go_bind (index_get path indexAfterNodeModules) (\<lambda>c.
           go_bind (if c = CHR ''@'' then moveToNextDirectorySeparatorIfAvailable path after isFolder
                    else Inr after) (\<lambda>indexAfterPackageName.
             go_slice path 0 indexAfterPackageName))))"

definition ParsePackageName :: "string \<Rightarrow> (string \<times> string) go" where
  "ParsePackageName moduleName =
     (let idx = Index moduleName ''/'' in
      go_bind
        (if moduleName \<noteq> [] \<and> hd moduleName = CHR ''@'' then
           let offset = idx + 1 in
           go_bind (go_slice moduleName offset (int (length moduleName))) (\<lambda>rest.
             let i = Index rest ''/'' in Inr (if i \<noteq> -1 then i + offset else i))
         else Inr idx)
        (\<lambda>idx.
          if idx = -1 then Inr (moduleName, [])
          else go_bind (go_slice moduleName 0 idx) (\<lambda>name.
               go_bind (go_slice moduleName (idx + 1) (int (length moduleName))) (\<lambda>rest.
                 Inr (name, rest)))))"

definition MangleScopedPackageName :: "string \<Rightarrow> string go" where
  "MangleScopedPackageName packageName =
     go_bind (index_get packageName 0) (\<lambda>c.
       if c = CHR ''@'' then
         let idx = Index packageName ''/'' in
         if idx = -1 then Inr packageName
         else go_bind (go_slice packageName 1 idx) (\<lambda>scope.
              go_bind (go_slice packageName (idx + 1) (int (length packageName))) (\<lambda>name.
                Inr (scope @ ''__'' @ name)))
       else Inr packageName)"

definition UnmangleScopedPackageName :: "string \<Rightarrow> string" where
  "UnmangleScopedPackageName packageName =
     (let idx = Index packageName ''__'' in
      if idx \<noteq> -1 then ''@'' @ take (nat idx) packageName @ ''/'' @ drop (nat (idx + 2)) packageName
      else packageName)"

definition GetTypesPackageName :: "string \<Rightarrow> string go" where
  "GetTypesPackageName packageName =
     go_bind (MangleScopedPackageName packageName) (\<lambda>mangled. Inr (''@types/'' @ mangled))"

definition ComparePatternKeys :: "string \<Rightarrow> string \<Rightarrow> int" where
  "ComparePatternKeys a b =
     (let aPatternIndex = Index a ''*'';
          bPatternIndex = Index b ''*'';
          baseLenA = (if aPatternIndex \<noteq> -1 then aPatternIndex + 1 else int (length a));
          baseLenB = (if bPatternIndex \<noteq> -1 then bPatternIndex + 1 else int (length b))
      in if baseLenA > baseLenB then -1
         else if baseLenB > baseLenA then 1
         else if aPatternIndex = -1 then 1
         else if bPatternIndex = -1 then -1
         else if length a > length b then -1
         else if length b > length a then 1
         else 0)"

section \<open>Flags\<close>

type_synonym extensions = "32 word"

definition extensionsTypeScript :: extensions where "extensionsTypeScript = 1"
definition extensionsJavaScript :: extensions where "extensionsJavaScript = 2"
definition extensionsDeclaration :: extensions where "extensionsDeclaration = 4"
definition extensionsJson :: extensions where "extensionsJson = 8"

definition extensionsImplementationFiles :: extensions where
  "extensionsImplementationFiles = extensionsTypeScript OR extensionsJavaScript"

definition extensions_String :: "extensions \<Rightarrow> string" where
  "extensions_String e =
     Join '', ''
       ((if has_flag e extensionsTypeScript then [''TypeScript''] else []) @
        (if has_flag e extensionsJavaScript then [''JavaScript''] else []) @
        (if has_flag e extensionsDeclaration then [''Declaration''] else []) @
        (if has_flag e extensionsJson then [''JSON''] else []))"

definition extensions_Array :: "extensions \<Rightarrow> string list" where
  "extensions_Array e =
     (if has_flag e extensionsTypeScript then [''.ts'', ''.tsx''] else []) @
     (if has_flag e extensionsJavaScript then [''.js'', ''.jsx''] else []) @
     (if has_flag e extensionsDeclaration then [''.d.ts''] else []) @
     (if has_flag e extensionsJson then [''.json''] else [])"

definition extensionIsOk :: "extensions \<Rightarrow> string \<Rightarrow> bool" where
  "extensionIsOk extensions extension =
     (has_flag extensions extensionsJavaScript \<and> extension \<in> {''.js'', ''.jsx'', ''.mjs'', ''.cjs''} \<or>
      has_flag extensions extensionsTypeScript \<and> extension \<in> {''.ts'', ''.tsx'', ''.mts'', ''.cts''} \<or>
      has_flag extensions extensionsDeclaration \<and> extension \<in> {''.d.ts'', ''.d.mts'', ''.d.cts''} \<or>
      has_flag extensions extensionsJson \<and> extension = ''.json'')"

type_synonym NodeResolutionFeatures = "32 word"

definition NodeResolutionFeaturesNone :: NodeResolutionFeatures where
  "NodeResolutionFeaturesNone = 0"
definition NodeResolutionFeaturesImports :: NodeResolutionFeatures where
  "NodeResolutionFeaturesImports = 1"
definition NodeResolutionFeaturesSelfName :: NodeResolutionFeatures where
  "NodeResolutionFeaturesSelfName = 2"
definition NodeResolutionFeaturesExports :: NodeResolutionFeatures where
  "NodeResolutionFeaturesExports = 4"
definition NodeResolutionFeaturesExportsPatternTrailers :: NodeResolutionFeatures where
  "NodeResolutionFeaturesExportsPatternTrailers = 8"
definition NodeResolutionFeaturesAll :: NodeResolutionFeatures where
  "NodeResolutionFeaturesAll =
     NodeResolutionFeaturesImports OR NodeResolutionFeaturesSelfName OR NodeResolutionFeaturesExports OR
     NodeResolutionFeaturesExportsPatternTrailers"

definition getNodeResolutionFeatures :: "CompilerOptions \<Rightarrow> NodeResolutionFeatures" where
  "getNodeResolutionFeatures options =
     (let features = (case GetModuleResolutionKind options of
                        ModuleResolutionKindUnknown \<Rightarrow> NodeResolutionFeaturesNone
                      | _ \<Rightarrow> NodeResolutionFeaturesAll);
          features = (case o_ResolvePackageJsonExports options of
                        TSTrue \<Rightarrow> features OR NodeResolutionFeaturesExports
                      | TSFalse \<Rightarrow> features AND NOT NodeResolutionFeaturesExports
                      | _ \<Rightarrow> features)
      in case o_ResolvePackageJsonImports options of
           TSTrue \<Rightarrow> features OR NodeResolutionFeaturesImports
         | TSFalse \<Rightarrow> features AND NOT NodeResolutionFeaturesImports
         | _ \<Rightarrow> features)"

definition GetConditions :: "CompilerOptions \<Rightarrow> ModuleKind \<Rightarrow> string list" where
  "GetConditions options resolutionMode0 =
     (let moduleResolution = GetModuleResolutionKind options;
          resolutionMode = (if resolutionMode0 = ModuleKindNone \<and> moduleResolution = ModuleResolutionKindBundler
                            then ModuleKindESNext else resolutionMode0)
      in (if resolutionMode = ModuleKindESNext then [''import''] else [''require'']) @
         (if o_NoDtsResolution options \<noteq> TSTrue then [''types''] else []) @
         (if moduleResolution \<noteq> ModuleResolutionKindBundler then [''node''] else []) @
         o_CustomConditions options)"

section \<open>Results\<close>

record PackageId =
  pid_Name :: string
  pid_SubModuleName :: string
  pid_Version :: string
  pid_PeerDependencies :: string

definition no_package_id :: PackageId where
  "no_package_id = \<lparr>pid_Name = [], pid_SubModuleName = [], pid_Version = [], pid_PeerDependencies = []\<rparr>"

definition PackageId_String :: "PackageId \<Rightarrow> string" where
  "PackageId_String p = pid_Name p @ ''@'' @ pid_Version p @ pid_PeerDependencies p"

definition PackageId_PackageName :: "PackageId \<Rightarrow> string" where
  "PackageId_PackageName p =
     (if pid_SubModuleName p \<noteq> [] then pid_Name p @ ''/'' @ pid_SubModuleName p else pid_Name p)"

text \<open>A \<open>*resolved\<close> is an option: \<open>nil\<close> means that the search goes on.\<close>

record resolved =
  res_path :: string
  res_extension :: string
  res_packageId :: PackageId
  res_originalPath :: string
  res_resolvedUsingTsExtension :: bool

definition isResolved :: "resolved option \<Rightarrow> bool" where
  "isResolved r = (case r of None \<Rightarrow> False | Some x \<Rightarrow> res_path x \<noteq> [])"

record ResolvedModule =
  rm_FailedLookupLocations :: "string list"
  rm_AffectingLocations :: "string list"
  rm_ResolvedFileName :: string
  rm_OriginalPath :: string
  rm_Extension :: string
  rm_ResolvedUsingTsExtension :: bool
  rm_PackageId :: PackageId
  rm_IsExternalLibraryImport :: bool
  rm_AlternateResult :: string

definition ResolvedModule_IsResolved :: "ResolvedModule \<Rightarrow> bool" where
  "ResolvedModule_IsResolved r = (rm_ResolvedFileName r \<noteq> [])"

record ResolvedTypeReferenceDirective =
  rt_FailedLookupLocations :: "string list"
  rt_AffectingLocations :: "string list"
  rt_Primary :: bool
  rt_ResolvedFileName :: string
  rt_OriginalPath :: string
  rt_PackageId :: PackageId
  rt_IsExternalLibraryImport :: bool

definition ResolvedTypeReferenceDirective_IsResolved :: "ResolvedTypeReferenceDirective \<Rightarrow> bool" where
  "ResolvedTypeReferenceDirective_IsResolved r = (rt_ResolvedFileName r \<noteq> [])"

section \<open>Path mappings\<close>

record ParsedPatterns =
  matchableStringSet :: "string GoSet"
  patterns :: "Pattern list"

fun parse_patterns_loop :: "string list \<Rightarrow> ParsedPatterns \<Rightarrow> ParsedPatterns" where
  "parse_patterns_loop [] ps = ps"
| "parse_patterns_loop (path # paths) ps =
     (let pattern = TryParsePattern path in
      if Pattern_IsValid pattern then
        if pat_StarIndex pattern = -1
        then parse_patterns_loop paths (ps\<lparr>matchableStringSet := Set_Add (matchableStringSet ps) path\<rparr>)
        else parse_patterns_loop paths (ps\<lparr>patterns := patterns ps @ [pattern]\<rparr>)
      else parse_patterns_loop paths ps)"

text \<open>
  The sets are sized by counts that have no effect on the values. A \<open>nil\<close> map has no keys.
\<close>

definition TryParsePatterns :: "(string, string list) OrderedMap option \<Rightarrow> ParsedPatterns" where
  "TryParsePatterns pathMappings =
     parse_patterns_loop (case pathMappings of None \<Rightarrow> [] | Some m \<Rightarrow> om_keys m)
       \<lparr>matchableStringSet = NewSetFromItems [], patterns = []\<rparr>"

definition no_pattern :: Pattern where
  "no_pattern = \<lparr>pat_Text = [], pat_StarIndex = 0\<rparr>"

definition MatchPatternOrExact :: "ParsedPatterns \<Rightarrow> string \<Rightarrow> Pattern go" where
  "MatchPatternOrExact ps candidate =
     (if Set_Has (matchableStringSet ps) candidate then Inr \<lparr>pat_Text = candidate, pat_StarIndex = -1\<rparr>
      else if patterns ps = [] then Inr no_pattern
      else FindBestPatternMatch no_pattern (patterns ps) (\<lambda>p. p) candidate)"

definition normalizePathForCJSResolution :: "string \<Rightarrow> string \<Rightarrow> string go" where
  "normalizePathForCJSResolution containingDirectory moduleName =
     (let combined = CombinePaths containingDirectory [moduleName];
          parts = GetPathComponents combined []
      in go_bind (index_get parts (int (length parts) - 1)) (\<lambda>lastPart.
           if lastPart = ''.'' \<or> lastPart = ''..''
           then Inr (EnsureTrailingDirectorySeparator (NormalizePath combined))
           else Inr (NormalizePath combined)))"

definition matchesPatternWithTrailer :: "string \<Rightarrow> string \<Rightarrow> bool" where
  "matchesPatternWithTrailer target name =
     (if HasSuffix target ''*'' then False
      else let starPos = Index target ''*'' in
           if starPos = -1 then False
           else HasPrefix name (take (nat starPos) target) \<and> HasSuffix name (drop (nat (starPos + 1)) target))"

end
