(* ===== verification/Module_State.thy ===== *)
theory Module_State
  imports Actions Packagejson Module_Util
begin

text \<open>
  Module resolution (\<open>internal/module/resolver.go\<close>), second part: the state of a resolution, the lookup
  of files and of package descriptions. The host is a record of functions (\<open>vfs.FS\<close> and the rest of
  \<open>ResolutionHost\<close>), whose answers do not change while a module is resolved. Trace messages are
  left out, as are the diagnostics, to which the code adds nothing.
\<close>

section \<open>The host\<close>

text \<open>
  \<open>packagejson_Parse\<close> stands for the third-party decoder applied to the text of a file. The other
  arguments are the Unicode tables, the operating system's path separators, the sorting of the library
  (unstable, and unspecified where the comparison is no ordering) and the version.
\<close>

record Host =
  FileExists :: "string \<Rightarrow> bool"
  DirectoryExists :: "string \<Rightarrow> bool"
  ReadFile :: "string \<Rightarrow> string \<times> bool"
  Realpath :: "string \<Rightarrow> string"
  GetAccessibleDirectories :: "string \<Rightarrow> string list"
  caseSensitive :: bool
  GetCurrentDirectory :: string
  packagejson_Parse :: "string \<Rightarrow> Fields"
  host_lower :: "nat \<Rightarrow> nat"
  host_upper :: "nat \<Rightarrow> nat"
  host_orbit :: "nat \<Rightarrow> nat"
  host_isPathSeparator :: "char \<Rightarrow> bool"
  host_SortFunc :: "(string \<Rightarrow> string \<Rightarrow> int) \<Rightarrow> string list \<Rightarrow> string list"
  typeScriptVersion :: Version

text \<open>The resolver's fixed fields; its cache is part of the state.\<close>

record Resolver =
  rv_host :: Host
  rv_compilerOptions :: CompilerOptions
  rv_typingsLocation :: string

section \<open>The state\<close>

record resolutionState =
  rs_name :: string
  rs_containingDirectory :: string
  rs_isConfigLookup :: bool
  rs_features :: NodeResolutionFeatures
  rs_esmMode :: bool
  rs_conditions :: "string list"
  rs_extensions :: extensions
  rs_compilerOptions :: CompilerOptions
  rs_candidateIsFromPackageJsonField :: bool
  rs_resolvedPackageDirectory :: bool
  rs_failedLookupLocations :: "string list"
  rs_affectingLocations :: "string list"
  rs_packageJsonInfoCache :: InfoCache

type_synonym 'a resolving = "(resolutionState, 'a) action"

definition initial_extensions :: "bool \<Rightarrow> CompilerOptions \<Rightarrow> extensions" where
  "initial_extensions isTypeReferenceDirective compilerOptions =
     (let extensions =
            (if isTypeReferenceDirective then extensionsDeclaration
             else if o_NoDtsResolution compilerOptions = TSTrue then extensionsImplementationFiles
             else extensionsTypeScript OR extensionsJavaScript OR extensionsDeclaration)
      in if \<not> isTypeReferenceDirective \<and> GetResolveJsonModule compilerOptions
         then extensions OR extensionsJson else extensions)"

definition newResolutionState ::
    "string \<Rightarrow> string \<Rightarrow> bool \<Rightarrow> ModuleKind \<Rightarrow> CompilerOptions \<Rightarrow> CompilerOptions option \<Rightarrow> InfoCache \<Rightarrow>
     resolutionState" where
  "newResolutionState name containingDirectory isTypeReferenceDirective resolutionMode compilerOptions
       redirectedReference cache =
     (let state =
            \<lparr>rs_name = name, rs_containingDirectory = containingDirectory, rs_isConfigLookup = False,
             rs_features = 0, rs_esmMode = False, rs_conditions = [],
             rs_extensions = initial_extensions isTypeReferenceDirective compilerOptions,
             rs_compilerOptions = (case redirectedReference of None \<Rightarrow> compilerOptions | Some o' \<Rightarrow> o'),
             rs_candidateIsFromPackageJsonField = False, rs_resolvedPackageDirectory = False,
             rs_failedLookupLocations = [], rs_affectingLocations = [], rs_packageJsonInfoCache = cache\<rparr>
      in case GetModuleResolutionKind compilerOptions of
           ModuleResolutionKindNode16 \<Rightarrow>
             state\<lparr>rs_features := NodeResolutionFeaturesAll, rs_esmMode := (resolutionMode = ModuleKindESNext),
                   rs_conditions := GetConditions compilerOptions resolutionMode\<rparr>
         | ModuleResolutionKindNodeNext \<Rightarrow>
             state\<lparr>rs_features := NodeResolutionFeaturesAll, rs_esmMode := (resolutionMode = ModuleKindESNext),
                   rs_conditions := GetConditions compilerOptions resolutionMode\<rparr>
         | ModuleResolutionKindBundler \<Rightarrow>
             state\<lparr>rs_features := getNodeResolutionFeatures compilerOptions,
                   rs_conditions := GetConditions compilerOptions resolutionMode\<rparr>
         | ModuleResolutionKindUnknown \<Rightarrow> state)"

definition add_failed :: "string \<Rightarrow> unit resolving" where
  "add_failed location = modify (rs_failedLookupLocations_update (\<lambda>ls. ls @ [location]))"

definition add_affecting :: "string \<Rightarrow> unit resolving" where
  "add_affecting location = modify (rs_affectingLocations_update (\<lambda>ls. ls @ [location]))"

section \<open>Files\<close>

definition tryFileLookup :: "Resolver \<Rightarrow> string \<Rightarrow> bool \<Rightarrow> bool resolving" where
  "tryFileLookup r fileName onlyRecordFailures =
     (if \<not> onlyRecordFailures \<and> FileExists (rv_host r) fileName then ret True
      else seq (add_failed fileName) (\<lambda>_. ret False))"

fun try_suffixes :: "Resolver \<Rightarrow> string \<Rightarrow> string \<Rightarrow> string \<Rightarrow> bool \<Rightarrow> string list \<Rightarrow> (string \<times> bool) resolving" where
  "try_suffixes r fileName fileNameNoExtension ext onlyRecordFailures [] = ret (fileName, False)"
| "try_suffixes r fileName fileNameNoExtension ext onlyRecordFailures (sfx # sfxs) =
     (let path = fileNameNoExtension @ sfx @ ext in
      seq (tryFileLookup r path onlyRecordFailures) (\<lambda>ok.
        if ok then ret (path, True)
        else try_suffixes r fileName fileNameNoExtension ext onlyRecordFailures sfxs))"

definition tryFile :: "Resolver \<Rightarrow> string \<Rightarrow> bool \<Rightarrow> (string \<times> bool) resolving" where
  "tryFile r fileName onlyRecordFailures =
     seq (gets (\<lambda>s. o_ModuleSuffixes (rs_compilerOptions s))) (\<lambda>sfxs.
       if sfxs = [] then seq (tryFileLookup r fileName onlyRecordFailures) (\<lambda>ok. ret (fileName, ok))
       else
         let ext = TryGetExtensionFromPath fileName in
         seq (lift_go (RemoveExtension fileName ext)) (\<lambda>fileNameNoExtension.
           try_suffixes r fileName fileNameNoExtension ext onlyRecordFailures sfxs))"

definition resolved_file :: "string \<Rightarrow> string \<Rightarrow> bool \<Rightarrow> resolved" where
  "resolved_file path extension resolvedUsingTsExtension =
     \<lparr>res_path = path, res_extension = extension, res_packageId = no_package_id, res_originalPath = [],
      res_resolvedUsingTsExtension = resolvedUsingTsExtension\<rparr>"

definition tryExtension :: "Resolver \<Rightarrow> string \<Rightarrow> string \<Rightarrow> bool \<Rightarrow> bool \<Rightarrow> resolved option resolving" where
  "tryExtension r extension extensionless resolvedUsingTsExtension onlyRecordFailures =
     (let fileName = extensionless @ extension in
      seq (tryFile r fileName onlyRecordFailures) (\<lambda>(path, ok).
        if ok then
          seq (gets rs_candidateIsFromPackageJsonField) (\<lambda>fromField.
            ret (Some (resolved_file path extension (\<not> fromField \<and> resolvedUsingTsExtension))))
        else ret None))"

text \<open>
  The cases of \<open>tryAddingExtensions\<close> are sequences of attempts: an attempt is an extension and whether
  using it counts as using a TypeScript extension.
\<close>

definition extension_attempts :: "string \<Rightarrow> string \<Rightarrow> extensions \<Rightarrow> bool \<Rightarrow> (string \<times> bool) list" where
  "extension_attempts extensionless originalExtension extensions isConfigLookup =
     (let ts = has_flag extensions extensionsTypeScript;
          dts = has_flag extensions extensionsDeclaration;
          js = has_flag extensions extensionsJavaScript;
          json = has_flag extensions extensionsJson
      in if originalExtension \<in> {''.mjs'', ''.mts'', ''.d.mts''} then
           (let using = (originalExtension = ''.mts'' \<or> originalExtension = ''.d.mts'') in
            (if ts then [(''.mts'', using)] else []) @
            (if dts then [(''.d.mts'', using)] else []) @
            (if js then [(''.mjs'', False)] else []))
         else if originalExtension \<in> {''.cjs'', ''.cts'', ''.d.cts''} then
           (let using = (originalExtension = ''.cts'' \<or> originalExtension = ''.d.cts'') in
            (if ts then [(''.cts'', using)] else []) @
            (if dts then [(''.d.cts'', using)] else []) @
            (if js then [(''.cjs'', False)] else []))
         else if originalExtension = ''.json'' then
           (if dts then [(''.d.json.ts'', False)] else []) @
           (if json then [(''.json'', False)] else [])
         else if originalExtension \<in> {''.tsx'', ''.jsx''} then
           (let using = (originalExtension = ''.tsx'') in
            (if ts then [(''.tsx'', using), (''.ts'', using)] else []) @
            (if dts then [(''.d.ts'', using)] else []) @
            (if js then [(''.jsx'', False), (''.js'', False)] else []))
         else if originalExtension \<in> {''.ts'', ''.d.ts'', ''.js'', []} then
           (let using = (originalExtension = ''.ts'' \<or> originalExtension = ''.d.ts'') in
            (if ts then [(''.ts'', using), (''.tsx'', using)] else []) @
            (if dts then [(''.d.ts'', using)] else []) @
            (if js then [(''.js'', False), (''.jsx'', False)] else []) @
            (if isConfigLookup then [(''.json'', False)] else []))
         else if dts \<and> \<not> IsDeclarationFileName (extensionless @ originalExtension)
         then [(''.d'' @ originalExtension @ ''.ts'', False)]
         else [])"

definition tryAddingExtensions ::
    "Resolver \<Rightarrow> string \<Rightarrow> extensions \<Rightarrow> string \<Rightarrow> bool \<Rightarrow> resolved option resolving" where
  "tryAddingExtensions r extensionless extensions originalExtension onlyRecordFailures0 =
     (let directory = GetDirectoryPath extensionless;
          onlyRecordFailures =
            (onlyRecordFailures0 \<or> directory \<noteq> [] \<and> \<not> DirectoryExists (rv_host r) directory)
      in seq (gets rs_isConfigLookup) (\<lambda>isConfigLookup.
           first_found (\<lambda>(extension, using). tryExtension r extension extensionless using onlyRecordFailures)
             (extension_attempts extensionless originalExtension extensions isConfigLookup)))"

definition loadModuleFromFileNoImplicitExtensions ::
    "Resolver \<Rightarrow> extensions \<Rightarrow> string \<Rightarrow> bool \<Rightarrow> resolved option resolving" where
  "loadModuleFromFileNoImplicitExtensions r extensions candidate onlyRecordFailures =
     (let base = GetBaseFileName candidate in
      if \<not> Contains base ''.'' then ret None
      else
        let removed = RemoveFileExtension (host_isPathSeparator (rv_host r)) candidate in
        seq (lift_go (if removed = candidate then go_slice candidate 0 (LastIndexByte candidate CHR ''.'')
                      else Inr removed)) (\<lambda>extensionless.
        seq (lift_go (go_slice candidate (int (length extensionless)) (int (length candidate)))) (\<lambda>extension.
          tryAddingExtensions r extensionless extensions extension onlyRecordFailures)))"

definition loadModuleFromFile :: "Resolver \<Rightarrow> extensions \<Rightarrow> string \<Rightarrow> bool \<Rightarrow> resolved option resolving" where
  "loadModuleFromFile r extensions candidate onlyRecordFailures =
     or_else (loadModuleFromFileNoImplicitExtensions r extensions candidate onlyRecordFailures)
       (seq (gets rs_esmMode) (\<lambda>esmMode.
          if \<not> esmMode then tryAddingExtensions r candidate extensions [] onlyRecordFailures
          else ret None))"

definition loadFileNameFromPackageJSONField ::
    "Resolver \<Rightarrow> extensions \<Rightarrow> string \<Rightarrow> string \<Rightarrow> bool \<Rightarrow> resolved option resolving" where
  "loadFileNameFromPackageJSONField r extensions candidate packageJSONValue onlyRecordFailures =
     (if has_flag extensions extensionsTypeScript \<and> HasImplementationTSFileExtension candidate \<or>
         has_flag extensions extensionsDeclaration \<and> IsDeclarationFileName candidate then
        seq (tryFile r candidate onlyRecordFailures) (\<lambda>(path, ok).
          if ok then
            let extension = TryExtractTSExtension path in
            ret (Some (resolved_file path extension (\<not> HasSuffix packageJSONValue extension)))
          else ret None)
      else
        or_else
          (seq (gets rs_isConfigLookup) (\<lambda>isConfigLookup.
             if isConfigLookup \<and> has_flag extensions extensionsJson \<and> FileExtensionIs candidate ''.json'' then
               seq (tryFile r candidate onlyRecordFailures) (\<lambda>(path, ok).
                 ret (if ok then Some (resolved_file path ''.json'' False) else None))
             else ret None))
          (loadModuleFromFileNoImplicitExtensions r extensions candidate onlyRecordFailures))"

section \<open>Package descriptions\<close>

definition set_cache :: "Resolver \<Rightarrow> string \<Rightarrow> InfoCacheEntry \<Rightarrow> unit resolving" where
  "set_cache r packageJsonPath info =
     modify (rs_packageJsonInfoCache_update (\<lambda>cache.
       if ic_IsReadonly cache then cache else InfoCache_Set (host_lower (rv_host r)) cache packageJsonPath info))"

definition getPackageJsonInfo :: "Resolver \<Rightarrow> string \<Rightarrow> bool \<Rightarrow> InfoCacheEntry option resolving" where
  "getPackageJsonInfo r packageDirectory onlyRecordFailures =
     (let packageJsonPath = CombinePaths packageDirectory [''package.json''] in
      if onlyRecordFailures then seq (add_failed packageJsonPath) (\<lambda>_. ret None)
      else
        seq (gets (\<lambda>s. InfoCache_Get (host_lower (rv_host r)) (rs_packageJsonInfoCache s) packageJsonPath))
          (\<lambda>existing.
            case existing of
              Some entry \<Rightarrow>
                if ice_Contents entry \<noteq> None then
                  seq (add_affecting packageJsonPath) (\<lambda>_.
                    if ice_PackageDirectory entry = packageDirectory then ret (Some entry)
                    else ret (Some \<lparr>ice_PackageDirectory = packageDirectory, ice_DirectoryExists = True,
                                    ice_Contents = ice_Contents entry\<rparr>))
                else seq (add_failed packageJsonPath) (\<lambda>_. ret None)
            | None \<Rightarrow>
                let directoryExists = DirectoryExists (rv_host r) packageDirectory in
                if directoryExists \<and> FileExists (rv_host r) packageJsonPath then
                  let contents = fst (ReadFile (rv_host r) packageJsonPath);
                      result = \<lparr>ice_PackageDirectory = packageDirectory, ice_DirectoryExists = True,
                                ice_Contents = Some (packagejson_Parse (rv_host r) contents)\<rparr>
                  in seq (set_cache r packageJsonPath result) (\<lambda>_.
                     seq (add_affecting packageJsonPath) (\<lambda>_. ret (Some result)))
                else
                  seq (set_cache r packageJsonPath
                         \<lparr>ice_PackageDirectory = packageDirectory, ice_DirectoryExists = directoryExists,
                          ice_Contents = None\<rparr>) (\<lambda>_.
                  seq (add_failed packageJsonPath) (\<lambda>_. ret None))))"

definition realPath :: "Resolver \<Rightarrow> string \<Rightarrow> string" where
  "realPath r path = NormalizePath (Realpath (rv_host r) path)"

definition validatePackageJSONField :: "'a Expected \<Rightarrow> bool" where
  "validatePackageJSONField field = (Expected_IsPresent field \<and> Expected_IsValid field)"

definition getPackageJSONPathField :: "string Expected \<Rightarrow> string \<Rightarrow> string option" where
  "getPackageJSONPathField field directory =
     (if \<not> validatePackageJSONField field then None
      else if ex_Value field = [] then None
      else Some (NormalizePath (CombinePaths directory [ex_Value field])))"

fun peer_dependencies_loop :: "Resolver \<Rightarrow> string \<Rightarrow> (string \<times> string) list \<Rightarrow> string \<Rightarrow> string resolving" where
  "peer_dependencies_loop r nodeModules [] builder = ret builder"
| "peer_dependencies_loop r nodeModules ((name, _) # dependencies) builder =
     seq (getPackageJsonInfo r (nodeModules @ name) False) (\<lambda>peerPackageJson.
       case peerPackageJson of
         Some entry \<Rightarrow>
           (case ice_Contents entry of
              Some contents \<Rightarrow>
                peer_dependencies_loop r nodeModules dependencies
                  (builder @ ''+'' @ name @ ''@'' @ ex_Value (pj_Version contents))
            | None \<Rightarrow> lift_go (Inl (Panicked ''nil pointer dereference'')))
       | None \<Rightarrow> peer_dependencies_loop r nodeModules dependencies builder)"

definition readPackageJsonPeerDependencies :: "Resolver \<Rightarrow> string \<Rightarrow> Fields \<Rightarrow> string resolving" where
  "readPackageJsonPeerDependencies r directory contents =
     (let peerDependencies = pj_PeerDependencies contents in
      if \<not> validatePackageJSONField peerDependencies \<or> ex_Value peerDependencies = [] then ret []
      else
        let packageDirectory = realPath r directory in
        seq (lift_go (go_slice packageDirectory 0
               (LastIndex packageDirectory ''/node_modules'' + int (length ''/node_modules''))))
          (\<lambda>nodeModules.
            peer_dependencies_loop r (nodeModules @ ''/'') (ex_Value peerDependencies) []))"

definition getPackageId :: "Resolver \<Rightarrow> string \<Rightarrow> InfoCacheEntry option \<Rightarrow> PackageId resolving" where
  "getPackageId r resolvedFileName packageInfo =
     (case GetContents packageInfo of
        Some contents \<Rightarrow>
          if ex_Valid (pj_Name contents) \<and> ex_Valid (pj_Version contents) then
            let directory = GetDirectory packageInfo;
                subModuleName = (if length resolvedFileName > length directory
                                 then drop (length directory + 1) resolvedFileName else [])
            in seq (readPackageJsonPeerDependencies r directory contents) (\<lambda>peers.
                 ret \<lparr>pid_Name = ex_Value (pj_Name contents), pid_SubModuleName = subModuleName,
                      pid_Version = ex_Value (pj_Version contents), pid_PeerDependencies = peers\<rparr>)
          else ret no_package_id
      | None \<Rightarrow> ret no_package_id)"

text \<open>The walk up the directories, stopping where the callback finds something or panics.\<close>

definition ancestors_action :: "(string \<Rightarrow> ('s, 'a option) action) \<Rightarrow> string \<Rightarrow> ('s, 'a option) action" where
  "ancestors_action callback directory s =
     (case ForEachAncestorDirectory
             (\<lambda>dir st. case st of
                Inl e \<Rightarrow> ((None, True), Inl e)
              | Inr s \<Rightarrow> (case callback dir s of
                            Inl e \<Rightarrow> ((None, True), Inl e)
                          | Inr (result, s') \<Rightarrow> ((result, result \<noteq> None), Inr s')))
             directory (Inr s) of
        (_, Inl e) \<Rightarrow> Inl e
      | (result, Inr s') \<Rightarrow> Inr (case result of Some hit \<Rightarrow> hit | None \<Rightarrow> None, s'))"

definition getPackageScopeForPath :: "Resolver \<Rightarrow> string \<Rightarrow> InfoCacheEntry option resolving" where
  "getPackageScopeForPath r directory = ancestors_action (\<lambda>dir. getPackageJsonInfo r dir False) directory"

definition GetPackageJsonScopeIfApplicable :: "Resolver \<Rightarrow> string \<Rightarrow> InfoCacheEntry option resolving" where
  "GetPackageJsonScopeIfApplicable r path =
     (if FileExtensionIsOneOf path [''.mts'', ''.cts'', ''.mjs'', ''.cjs''] then ret None
      else
        let kind = GetModuleResolutionKind (rv_compilerOptions r) in
        if kind \<in> {ModuleResolutionKindNode16, ModuleResolutionKindNodeNext} \<or> Contains path ''/node_modules/''
        then getPackageScopeForPath r (GetDirectoryPath path)
        else ret None)"

definition getPackageFile :: "Resolver \<Rightarrow> extensions \<Rightarrow> InfoCacheEntry option \<Rightarrow> string option resolving" where
  "getPackageFile r extensions packageInfo =
     (case GetContents packageInfo of
        Some contents \<Rightarrow>
          let directory = GetDirectory packageInfo in
          seq (gets rs_isConfigLookup) (\<lambda>isConfigLookup.
            if isConfigLookup then ret (getPackageJSONPathField (pj_TSConfig contents) directory)
            else
              or_else
                (if has_flag extensions extensionsDeclaration then
                   or_else (ret (getPackageJSONPathField (pj_Typings contents) directory))
                     (ret (getPackageJSONPathField (pj_Types contents) directory))
                 else ret None)
                (if has_flag extensions (extensionsImplementationFiles OR extensionsDeclaration)
                  then ret (getPackageJSONPathField (pj_Main contents) directory) else ret None))
      | None \<Rightarrow> ret None)"

definition conditionMatches :: "Resolver \<Rightarrow> string \<Rightarrow> bool resolving" where
  "conditionMatches r condition =
     seq (gets rs_conditions) (\<lambda>conditions.
       if condition = ''default'' \<or> condition \<in> set conditions then ret True
       else if ''types'' \<notin> set conditions then ret False
       else if \<not> HasPrefix condition ''types@'' then ret False
       else
         seq (lift_go (TryParseVersionRange (drop (length ''types@'') condition))) (\<lambda>(versionRange, ok).
           if ok then lift_go (VersionRange_Test versionRange (Some (typeScriptVersion (rv_host r))))
           else ret False))"

section \<open>A small host, for examples\<close>

text \<open>A case-sensitive host with the listed files and without links, every directory of which exists.\<close>

definition sample_host :: "string list \<Rightarrow> (string \<Rightarrow> Fields) \<Rightarrow> Host" where
  "sample_host files descriptions =
     \<lparr>FileExists = (\<lambda>f. ToPath (\<lambda>n. n) f ''/'' True \<in> set files),
      DirectoryExists = (\<lambda>d. True),
      ReadFile = (\<lambda>f. (ToPath (\<lambda>n. n) f ''/'' True, True)), Realpath = (\<lambda>f. f), GetAccessibleDirectories = (\<lambda>d. []),
      caseSensitive = True, GetCurrentDirectory = ''/'', packagejson_Parse = descriptions,
      host_lower = (\<lambda>n. n), host_upper = (\<lambda>n. n), host_orbit = (\<lambda>n. n),
      host_isPathSeparator = (\<lambda>c. c = CHR ''/''), host_SortFunc = (\<lambda>cmp xs. xs),
      typeScriptVersion = version_of 7 0 0\<rparr>"

definition sample_resolver :: "string list \<Rightarrow> (string \<Rightarrow> Fields) \<Rightarrow> Resolver" where
  "sample_resolver files descriptions =
     \<lparr>rv_host = sample_host files descriptions, rv_compilerOptions = zero_options, rv_typingsLocation = []\<rparr>"

end
