(* ===== verification/Module_Load.thy ===== *)
theory Module_Load
  imports Module_State
begin

text \<open>
  Module resolution (\<open>internal/module/resolver.go\<close>), third part: loading by relative name, from a
  directory with a package description, and by path mappings.

  In the code \<open>loadNodeModuleFromDirectoryWorker\<close> and \<open>nodeLoadModuleByRelativeName\<close> call each other.
  The inner call never considers a package description, and without one the worker is only the lookup of
  an index file. So the inner call is a definition of its own, \<open>load_without_package\<close>, and the lemmas
  \<open>worker_without_package\<close> and \<open>by_name_without_package\<close> show that it is the outer one at \<open>False\<close>.
\<close>

definition index_lookup :: "Resolver \<Rightarrow> extensions \<Rightarrow> string \<Rightarrow> bool \<Rightarrow> resolved option resolving" where
  "index_lookup r ext candidate onlyRecordFailures =
     seq (gets rs_isConfigLookup) (\<lambda>isConfigLookup.
     seq (gets rs_esmMode) (\<lambda>esmMode.
       let indexPath = CombinePaths candidate [if isConfigLookup then ''tsconfig'' else ''index''] in
       if \<not> esmMode
       then loadModuleFromFile r ext indexPath
              (onlyRecordFailures \<or> \<not> DirectoryExists (rv_host r) candidate)
       else ret None))"

definition with_package_id :: "Resolver \<Rightarrow> resolved \<Rightarrow> resolved resolving" where
  "with_package_id r resolved =
     seq (lift_go (ParseNodeModuleFromPath (res_path resolved) False)) (\<lambda>packageDirectory.
       if packageDirectory \<noteq> [] then
         seq (getPackageJsonInfo r packageDirectory False) (\<lambda>info.
         seq (getPackageId r (res_path resolved) info) (\<lambda>packageId.
           ret (resolved\<lparr>res_packageId := packageId\<rparr>)))
       else ret resolved)"

text \<open>The body of \<open>nodeLoadModuleByRelativeName\<close>; \<open>fromDirectory\<close> is its final call.\<close>

definition by_relative_name ::
    "(bool \<Rightarrow> resolved option resolving) \<Rightarrow> Resolver \<Rightarrow> extensions \<Rightarrow> string \<Rightarrow> bool \<Rightarrow> bool \<Rightarrow>
     resolved option resolving" where
  "by_relative_name fromDirectory r extensions candidate onlyRecordFailures considerPackageJson =
     (let directly = \<not> HasTrailingDirectorySeparator candidate;
          onlyRecordFailures1 =
            (onlyRecordFailures \<or> directly \<and> \<not> DirectoryExists (rv_host r) (GetDirectoryPath candidate));
          onlyRecordFailures2 = (onlyRecordFailures1 \<or> \<not> DirectoryExists (rv_host r) candidate)
      in or_else
           (if directly then
              seq (loadModuleFromFile r extensions candidate onlyRecordFailures1) (\<lambda>resolvedFromFile.
                case resolvedFromFile of
                  Some resolved \<Rightarrow>
                    if considerPackageJson then seq (with_package_id r resolved) (\<lambda>x. ret (Some x))
                    else ret (Some resolved)
                | None \<Rightarrow> ret None)
            else ret None)
           (seq (gets rs_esmMode) (\<lambda>esmMode.
              if \<not> esmMode then fromDirectory onlyRecordFailures2 else ret None)))"

definition load_without_package :: "Resolver \<Rightarrow> extensions \<Rightarrow> string \<Rightarrow> bool \<Rightarrow> resolved option resolving" where
  "load_without_package r extensions candidate onlyRecordFailures =
     by_relative_name (index_lookup r extensions candidate) r extensions candidate onlyRecordFailures False"

section \<open>Path mappings\<close>

type_synonym loader = "extensions \<Rightarrow> string \<Rightarrow> bool \<Rightarrow> resolved option resolving"

fun substitutions_loop ::
    "Resolver \<Rightarrow> extensions \<Rightarrow> string \<Rightarrow> string \<Rightarrow> loader \<Rightarrow> bool \<Rightarrow> string list \<Rightarrow> resolved option resolving" where
  "substitutions_loop r extensions containingDirectory matchedStar loader onlyRecordFailures [] = ret None"
| "substitutions_loop r extensions containingDirectory matchedStar loader onlyRecordFailures (subst # substs) =
     (let path = ReplaceFirst subst ''*'' matchedStar;
          candidate = NormalizePath (CombinePaths containingDirectory [path]);
          extension = TryGetExtensionFromPath subst
      in or_else
           (if extension \<noteq> [] then
              seq (tryFile r candidate onlyRecordFailures) (\<lambda>(path, ok).
                ret (if ok then Some (resolved_file path extension False) else None))
            else ret None)
           (or_else
              (loader extensions candidate
                 (onlyRecordFailures \<or> \<not> DirectoryExists (rv_host r) (GetDirectoryPath candidate)))
              (substitutions_loop r extensions containingDirectory matchedStar loader onlyRecordFailures substs)))"

definition tryLoadModuleUsingPaths ::
    "Resolver \<Rightarrow> extensions \<Rightarrow> string \<Rightarrow> string \<Rightarrow> (string, string list) OrderedMap \<Rightarrow> ParsedPatterns \<Rightarrow>
     loader \<Rightarrow> bool \<Rightarrow> resolved option resolving" where
  "tryLoadModuleUsingPaths r extensions moduleName containingDirectory paths pathPatterns loader
       onlyRecordFailures =
     seq (lift_go (MatchPatternOrExact pathPatterns moduleName)) (\<lambda>matchedPattern.
       if Pattern_IsValid matchedPattern then
         seq (lift_go (Pattern_MatchedText matchedPattern moduleName)) (\<lambda>matchedStar.
           substitutions_loop r extensions containingDirectory matchedStar loader onlyRecordFailures
             (OrderedMap_GetOrZero [] paths (pat_Text matchedPattern)))
       else ret None)"

section \<open>Directories\<close>

text \<open>
  The loader of the worker: first the file itself, then the file or directory by name, with the mode and
  the provenance of the candidate set for that lookup only.
\<close>

definition in_package_mode :: "InfoCacheEntry option \<Rightarrow> 'a resolving \<Rightarrow> 'a resolving" where
  "in_package_mode packageInfo m =
     seq (gets rs_esmMode) (\<lambda>saveESMMode.
     seq (gets rs_candidateIsFromPackageJsonField) (\<lambda>saveCandidateIsFromPackageJsonField.
     seq (modify (rs_candidateIsFromPackageJsonField_update (\<lambda>_. True))) (\<lambda>_.
     seq (case GetContents packageInfo of
            Some contents \<Rightarrow>
              if ex_Value (pj_Type contents) \<noteq> ''module'' then modify (rs_esmMode_update (\<lambda>_. False))
              else ret ()
          | None \<Rightarrow> ret ()) (\<lambda>_.
     seq m (\<lambda>result.
     seq (modify (rs_esmMode_update (\<lambda>_. saveESMMode))) (\<lambda>_.
     seq (modify (rs_candidateIsFromPackageJsonField_update (\<lambda>_. saveCandidateIsFromPackageJsonField))) (\<lambda>_.
       ret result)))))))"

definition package_loader :: "Resolver \<Rightarrow> InfoCacheEntry option \<Rightarrow> string \<Rightarrow> loader" where
  "package_loader r packageInfo packageFile extensions candidate onlyRecordFailures =
     or_else (loadFileNameFromPackageJSONField r extensions candidate packageFile onlyRecordFailures)
       (let expandedExtensions = (if extensions = extensionsDeclaration
                                  then extensionsTypeScript OR extensionsDeclaration else extensions)
        in in_package_mode packageInfo
             (load_without_package r expandedExtensions candidate onlyRecordFailures))"

definition expect_no_package_id :: "resolved option resolving \<Rightarrow> resolved option resolving" where
  "expect_no_package_id m =
     seq m (\<lambda>result. case result of
       Some x \<Rightarrow> if pid_Name (res_packageId x) \<noteq> []
                 then lift_go (Inl (Panicked ''expected packageId to be empty'')) else ret (Some x)
     | None \<Rightarrow> ret None)"

text \<open>The package file, when the description is the candidate's own, and the table for this version.\<close>

definition package_file_of :: "Resolver \<Rightarrow> extensions \<Rightarrow> string \<Rightarrow> InfoCacheEntry option \<Rightarrow> (string \<times> bool) resolving" where
  "package_file_of r ext candidate packageInfo =
     (if ComparePaths (host_upper (rv_host r)) candidate (GetDirectory packageInfo)
           \<lparr>UseCaseSensitiveFileNames = caseSensitive (rv_host r), CurrentDirectory = []\<rparr> = 0 then
        seq (getPackageFile r ext packageInfo) (\<lambda>packageFile.
          case packageFile of
            Some file \<Rightarrow> ret (file, \<not> DirectoryExists (rv_host r) (GetDirectoryPath file))
          | None \<Rightarrow> ret ([], False))
      else ret ([], False))"

definition no_path_options :: ComparePathsOptions where
  "no_path_options = \<lparr>UseCaseSensitiveFileNames = False, CurrentDirectory = []\<rparr>"

definition from_version_paths ::
    "Resolver \<Rightarrow> extensions \<Rightarrow> string \<Rightarrow> VersionPaths \<Rightarrow> string \<Rightarrow> string \<Rightarrow> loader \<Rightarrow> bool \<Rightarrow> resolved option resolving" where
  "from_version_paths r ext candidate versionPaths packageFile indexPath loader onlyRecordFailuresForPackageFile =
     (case GetPaths versionPaths of
        Some paths \<Rightarrow>
          if packageFile = [] \<or> ContainsPath (host_orbit (rv_host r)) candidate packageFile no_path_options then
            seq (lift_go (GetRelativePathFromDirectory (host_orbit (rv_host r)) candidate
                    (if packageFile \<noteq> [] then packageFile else indexPath) no_path_options)) (\<lambda>moduleName.
              expect_no_package_id
                (tryLoadModuleUsingPaths r ext moduleName candidate paths (TryParsePatterns (Some paths)) loader
                   onlyRecordFailuresForPackageFile))
          else ret None
      | None \<Rightarrow> ret None)"

definition loadNodeModuleFromDirectoryWorker ::
    "Resolver \<Rightarrow> extensions \<Rightarrow> string \<Rightarrow> bool \<Rightarrow> InfoCacheEntry option \<Rightarrow> resolved option resolving" where
  "loadNodeModuleFromDirectoryWorker r ext candidate onlyRecordFailures packageInfo =
     seq (case GetContents packageInfo of
            Some contents \<Rightarrow>
              seq (lift_go (GetVersionPaths (typeScriptVersion (rv_host r)) contents)) (\<lambda>versionPaths.
              seq (package_file_of r ext candidate packageInfo) (\<lambda>(packageFile, onlyRecord).
                ret (versionPaths, packageFile, onlyRecord)))
          | None \<Rightarrow> ret (no_version_paths, [], False))
       (\<lambda>(versionPaths, packageFile, onlyRecordFailuresForPackageFile).
     seq (gets rs_isConfigLookup) (\<lambda>isConfigLookup.
       let indexPath = CombinePaths candidate [if isConfigLookup then ''tsconfig'' else ''index''];
           loader = package_loader r packageInfo packageFile
       in or_else
            (from_version_paths r ext candidate versionPaths packageFile indexPath loader
               onlyRecordFailuresForPackageFile)
            (or_else
               (if packageFile \<noteq> []
                then expect_no_package_id (loader ext packageFile onlyRecordFailuresForPackageFile)
                else ret None)
               (index_lookup r ext candidate onlyRecordFailures))))"

definition loadNodeModuleFromDirectory ::
    "Resolver \<Rightarrow> extensions \<Rightarrow> string \<Rightarrow> bool \<Rightarrow> bool \<Rightarrow> resolved option resolving" where
  "loadNodeModuleFromDirectory r extensions candidate onlyRecordFailures considerPackageJson =
     seq (if considerPackageJson then getPackageJsonInfo r candidate onlyRecordFailures else ret None)
       (loadNodeModuleFromDirectoryWorker r extensions candidate onlyRecordFailures)"

definition nodeLoadModuleByRelativeName ::
    "Resolver \<Rightarrow> extensions \<Rightarrow> string \<Rightarrow> bool \<Rightarrow> bool \<Rightarrow> resolved option resolving" where
  "nodeLoadModuleByRelativeName r extensions candidate onlyRecordFailures considerPackageJson =
     by_relative_name
       (\<lambda>onlyRecordFailures. loadNodeModuleFromDirectory r extensions candidate onlyRecordFailures considerPackageJson)
       r extensions candidate onlyRecordFailures considerPackageJson"

lemma worker_without_package:
  "loadNodeModuleFromDirectoryWorker r ext candidate onlyRecordFailures None =
   index_lookup r ext candidate onlyRecordFailures"
  by (rule ext) (simp add: loadNodeModuleFromDirectoryWorker_def GetContents_def from_version_paths_def
      GetPaths_def VersionPaths_Exists_def no_version_paths_def Let_def or_else_run)

lemma by_name_without_package:
  "nodeLoadModuleByRelativeName r extensions candidate onlyRecordFailures False =
   load_without_package r extensions candidate onlyRecordFailures"
  by (simp add: nodeLoadModuleByRelativeName_def load_without_package_def loadNodeModuleFromDirectory_def
      worker_without_package)

definition tryLoadModuleUsingPathsIfEligible :: "Resolver \<Rightarrow> resolved option resolving" where
  "tryLoadModuleUsingPathsIfEligible r =
     seq (gets (\<lambda>s. o_Paths (rs_compilerOptions s))) (\<lambda>paths.
     seq (gets rs_name) (\<lambda>name.
     seq (gets (\<lambda>s. GetPathsBasePath (rs_compilerOptions s) (GetCurrentDirectory (rv_host r)))) (\<lambda>baseDirectory.
     seq (gets rs_extensions) (\<lambda>extensions.
       case paths of
         Some mappings \<Rightarrow>
           if OrderedMap_Size paths > 0 \<and> \<not> PathIsRelative name then
             tryLoadModuleUsingPaths r extensions name baseDirectory mappings
               (TryParsePatterns (o_Paths (rv_compilerOptions r)))
               (\<lambda>extensions candidate onlyRecordFailures.
                  nodeLoadModuleByRelativeName r extensions candidate onlyRecordFailures True) False
           else ret None
       | None \<Rightarrow> ret None))))"

end
