(* ===== verification/Module_Node.thy ===== *)
theory Module_Node
  imports Module_Load
begin

text \<open>
  Module resolution (\<open>internal/module/resolver.go\<close>), fourth part: the exports and imports of package
  descriptions, the walk through the \<open>node_modules\<close> directories, and the entry points. An import that
  maps to another package resolves that package from the beginning; \<open>self\<close> is this inner resolution. The
  entry points tie the knot with a bound on the nesting: the Go code overflows its stack when the imports
  of a package map to each other in a cycle, here the value is the panic \<open>StackOverflow\<close>.
\<close>

section \<open>Exports and imports\<close>

definition tryLoadInputFileForPath :: "string \<Rightarrow> string \<Rightarrow> string \<Rightarrow> bool \<Rightarrow> resolved option resolving" where
  "tryLoadInputFileForPath finalPath entry packagePath isImports = ret None"

definition resolved_of_module :: "ResolvedModule \<Rightarrow> resolved" where
  "resolved_of_module m =
     \<lparr>res_path = rm_ResolvedFileName m, res_extension = rm_Extension m, res_packageId = rm_PackageId m,
      res_originalPath = rm_OriginalPath m, res_resolvedUsingTsExtension = rm_ResolvedUsingTsExtension m\<rparr>"

definition in_package_scope :: "string \<Rightarrow> string \<Rightarrow> 'a resolving \<Rightarrow> 'a resolving" where
  "in_package_scope scopedName packageDirectory m =
     seq (gets rs_name) (\<lambda>name.
     seq (gets rs_containingDirectory) (\<lambda>containingDirectory.
     seq (modify (\<lambda>s. s\<lparr>rs_name := scopedName, rs_containingDirectory := packageDirectory @ ''/''\<rparr>)) (\<lambda>_.
     seq m (\<lambda>result.
     seq (modify (\<lambda>s. s\<lparr>rs_name := name, rs_containingDirectory := containingDirectory\<rparr>)) (\<lambda>_.
       ret result)))))"

definition load_mapped_package ::
    "ResolvedModule resolving \<Rightarrow> string \<Rightarrow> string \<Rightarrow> resolved option resolving" where
  "load_mapped_package self combinedLookup packageDirectory =
     seq (in_package_scope combinedLookup packageDirectory self) (\<lambda>result.
       ret (if ResolvedModule_IsResolved result then Some (resolved_of_module result) else None))"

definition bad_parts :: "string list \<Rightarrow> bool" where
  "bad_parts parts = (''..'' \<in> set parts \<or> ''.'' \<in> set parts \<or> ''node_modules'' \<in> set parts)"

definition load_package_file ::
    "Resolver \<Rightarrow> extensions \<Rightarrow> InfoCacheEntry option \<Rightarrow> bool \<Rightarrow> string \<Rightarrow> string \<Rightarrow> bool \<Rightarrow> resolved option resolving" where
  "load_package_file r extensions scope isImports targetString subpath isPattern =
     (let components = GetPathComponents targetString [] in
      seq (lift_go (if PathIsRelative targetString then go_slice components 1 (int (length components))
                    else Inr components)) (\<lambda>parts.
      seq (lift_go (go_slice parts 1 (int (length parts)))) (\<lambda>partsAfterFirst.
        if bad_parts partsAfterFirst then ret None
        else
          let resolvedTarget = CombinePaths (GetDirectory scope) [targetString];
              subpathParts = GetPathComponents subpath []
          in if bad_parts subpathParts then ret None
             else
               let finalPath = GetNormalizedAbsolutePath
                     (if isPattern then ReplaceAll resolvedTarget ''*'' subpath else resolvedTarget @ subpath)
                     (GetCurrentDirectory (rv_host r))
               in or_else
                    (tryLoadInputFileForPath finalPath subpath
                       (CombinePaths (GetDirectory scope) [''package.json'']) isImports)
                    (seq (loadFileNameFromPackageJSONField r extensions finalPath targetString False) (\<lambda>result.
                       case result of
                         Some x \<Rightarrow> seq (getPackageId r (res_path x) scope) (\<lambda>packageId.
                                     ret (Some (x\<lparr>res_packageId := packageId\<rparr>)))
                       | None \<Rightarrow> ret None)))))"

definition load_string_target ::
    "ResolvedModule resolving \<Rightarrow> Resolver \<Rightarrow> extensions \<Rightarrow> InfoCacheEntry option \<Rightarrow> bool \<Rightarrow> string \<Rightarrow> string \<Rightarrow> bool \<Rightarrow>
     resolved option resolving" where
  "load_string_target self r extensions scope isImports targetString subpath isPattern =
     (if \<not> isPattern \<and> subpath \<noteq> [] \<and> \<not> HasSuffix targetString ''/'' then ret None
      else if \<not> HasPrefix targetString ''./'' then
        if isImports \<and> \<not> HasPrefix targetString ''../'' \<and> \<not> HasPrefix targetString ''/'' \<and>
           \<not> IsRootedDiskPath targetString
        then load_mapped_package self
               (if isPattern then ReplaceAll targetString ''*'' subpath else targetString @ subpath)
               (GetDirectory scope)
        else ret None
      else load_package_file r extensions scope isImports targetString subpath isPattern)"

text \<open>
  The three functions follow the shape of the target: a value, the conditions of an object in their
  order, the elements of an array.
\<close>

fun loadModuleFromTargetExportOrImport ::
      "ResolvedModule resolving \<Rightarrow> Resolver \<Rightarrow> extensions \<Rightarrow> InfoCacheEntry option \<Rightarrow> bool \<Rightarrow> string \<Rightarrow> bool \<Rightarrow>
       ExportsOrImports \<Rightarrow> resolved option resolving"
  and load_conditions ::
      "ResolvedModule resolving \<Rightarrow> Resolver \<Rightarrow> extensions \<Rightarrow> InfoCacheEntry option \<Rightarrow> bool \<Rightarrow> string \<Rightarrow> bool \<Rightarrow>
       (string \<times> ExportsOrImports) list \<Rightarrow> resolved option resolving"
  and load_elements ::
      "ResolvedModule resolving \<Rightarrow> Resolver \<Rightarrow> extensions \<Rightarrow> InfoCacheEntry option \<Rightarrow> bool \<Rightarrow> string \<Rightarrow> bool \<Rightarrow>
       ExportsOrImports list \<Rightarrow> resolved option resolving" where
  "loadModuleFromTargetExportOrImport self r ext scope isImports subpath isPattern (JSONString targetString) =
     load_string_target self r ext scope isImports targetString subpath isPattern"
| "loadModuleFromTargetExportOrImport self r ext scope isImports subpath isPattern (JSONObject members) =
     load_conditions self r ext scope isImports subpath isPattern members"
| "loadModuleFromTargetExportOrImport self r ext scope isImports subpath isPattern (JSONArray elements) =
     load_elements self r ext scope isImports subpath isPattern elements"
| "loadModuleFromTargetExportOrImport self r ext scope isImports subpath isPattern _ = ret None"
| "load_conditions self r ext scope isImports subpath isPattern [] = ret None"
| "load_conditions self r ext scope isImports subpath isPattern ((condition, subTarget) # members) =
     seq (conditionMatches r condition) (\<lambda>matches.
       or_else
         (if matches then loadModuleFromTargetExportOrImport self r ext scope isImports subpath isPattern subTarget
          else ret None)
         (load_conditions self r ext scope isImports subpath isPattern members))"
| "load_elements self r ext scope isImports subpath isPattern [] = ret None"
| "load_elements self r ext scope isImports subpath isPattern (elem # elements) =
     or_else (loadModuleFromTargetExportOrImport self r ext scope isImports subpath isPattern elem)
       (load_elements self r ext scope isImports subpath isPattern elements)"

definition expanding_keys :: "Resolver \<Rightarrow> (string \<times> ExportsOrImports) list \<Rightarrow> string list" where
  "expanding_keys r lookupTable =
     host_SortFunc (rv_host r) ComparePatternKeys
       (filter (\<lambda>key. CountByte key CHR ''*'' = 1 \<or> HasSuffix key ''/'') (map fst lookupTable))"

text \<open>What a key leaves of the module name, and whether the target is a pattern.\<close>

definition match_expanding :: "NodeResolutionFeatures \<Rightarrow> string \<Rightarrow> string \<Rightarrow> (string \<times> bool) option go" where
  "match_expanding features potentialTarget moduleName =
     (if has_flag features NodeResolutionFeaturesExportsPatternTrailers \<and>
         matchesPatternWithTrailer potentialTarget moduleName then
        let starPos = Index potentialTarget ''*'' in
        go_bind (go_slice moduleName starPos
                   (int (length moduleName) - (int (length potentialTarget) - 1 - starPos))) (\<lambda>subpath.
          Inr (Some (subpath, True)))
      else if HasSuffix potentialTarget ''*'' \<and>
              HasPrefix moduleName (take (length potentialTarget - 1) potentialTarget)
      then Inr (Some (drop (length potentialTarget - 1) moduleName, True))
      else if HasPrefix moduleName potentialTarget
      then Inr (Some (drop (length potentialTarget) moduleName, False))
      else Inr None)"

fun expanding_loop ::
    "ResolvedModule resolving \<Rightarrow> Resolver \<Rightarrow> extensions \<Rightarrow> string \<Rightarrow> (string \<times> ExportsOrImports) list \<Rightarrow>
     InfoCacheEntry option \<Rightarrow> bool \<Rightarrow> string list \<Rightarrow> resolved option resolving" where
  "expanding_loop self r ext moduleName lookupTable scope isImports [] = ret None"
| "expanding_loop self r ext moduleName lookupTable scope isImports (potentialTarget # keys) =
     seq (gets rs_features) (\<lambda>features.
     seq (lift_go (match_expanding features potentialTarget moduleName)) (\<lambda>m.
       case m of
         Some (subpath, isPattern) \<Rightarrow>
           loadModuleFromTargetExportOrImport self r ext scope isImports subpath isPattern
             (case map_of lookupTable potentialTarget of Some target \<Rightarrow> target | None \<Rightarrow> JSONNotPresent)
       | None \<Rightarrow> expanding_loop self r ext moduleName lookupTable scope isImports keys))"

definition loadModuleFromExportsOrImports ::
    "ResolvedModule resolving \<Rightarrow> Resolver \<Rightarrow> extensions \<Rightarrow> string \<Rightarrow> (string \<times> ExportsOrImports) list \<Rightarrow>
     InfoCacheEntry option \<Rightarrow> bool \<Rightarrow> resolved option resolving" where
  "loadModuleFromExportsOrImports self r ext moduleName lookupTable scope isImports =
     (let exact = (if \<not> HasSuffix moduleName ''/'' \<and> \<not> Contains moduleName ''*''
                   then map_of lookupTable moduleName else None)
      in case exact of
           Some target \<Rightarrow> loadModuleFromTargetExportOrImport self r ext scope isImports [] False target
         | None \<Rightarrow> expanding_loop self r ext moduleName lookupTable scope isImports (expanding_keys r lookupTable))"

definition main_export :: "ExportsOrImports \<Rightarrow> ExportsOrImports" where
  "main_export exports =
     (case exports of
        JSONString _ \<Rightarrow> exports
      | JSONArray _ \<Rightarrow> exports
      | JSONObject members \<Rightarrow>
          if IsConditions exports then exports
          else (case map_of members ''.'' of Some dot \<Rightarrow> dot | None \<Rightarrow> JSONNotPresent)
      | _ \<Rightarrow> JSONNotPresent)"

definition loadModuleFromExports ::
    "ResolvedModule resolving \<Rightarrow> Resolver \<Rightarrow> InfoCacheEntry option \<Rightarrow> extensions \<Rightarrow> string \<Rightarrow>
     resolved option resolving" where
  "loadModuleFromExports self r packageInfo ext subpath =
     (case GetContents packageInfo of
        None \<Rightarrow> ret None
      | Some contents \<Rightarrow>
          let exports = pj_Exports contents in
          if IsFalsy exports then ret None
          else if subpath = ''.'' then
            if main_export exports \<noteq> JSONNotPresent
            then loadModuleFromTargetExportOrImport self r ext packageInfo False [] False (main_export exports)
            else ret None
          else
            (case exports of
               JSONObject members \<Rightarrow>
                 if IsSubpaths exports
                 then loadModuleFromExportsOrImports self r ext subpath members packageInfo False
                 else ret None
             | _ \<Rightarrow> ret None))"

definition loadModuleFromImports :: "ResolvedModule resolving \<Rightarrow> Resolver \<Rightarrow> resolved option resolving" where
  "loadModuleFromImports self r =
     seq (gets rs_name) (\<lambda>name.
       if name = ''#'' \<or> HasPrefix name ''#/'' then ret None
       else
         seq (gets rs_containingDirectory) (\<lambda>containingDirectory.
         seq (getPackageScopeForPath r
                (GetNormalizedAbsolutePath containingDirectory (GetCurrentDirectory (rv_host r)))) (\<lambda>scope.
           case GetContents scope of
             None \<Rightarrow> ret None
           | Some contents \<Rightarrow>
               (case pj_Imports contents of
                  JSONObject members \<Rightarrow>
                    seq (gets rs_extensions) (\<lambda>ext.
                      loadModuleFromExportsOrImports self r ext name members scope True)
                | _ \<Rightarrow> ret None))))"

definition priority_extensions :: "extensions \<Rightarrow> extensions" where
  "priority_extensions ext = ext AND (extensionsTypeScript OR extensionsDeclaration)"

definition secondary_extensions :: "extensions \<Rightarrow> extensions" where
  "secondary_extensions ext = ext AND NOT (extensionsTypeScript OR extensionsDeclaration)"

text \<open>The subpath that the module name has behind the name of the package it is written in.\<close>

definition self_subpath :: "string \<Rightarrow> string \<Rightarrow> string option" where
  "self_subpath moduleName name =
     (let parts = GetPathComponents moduleName [];
          nameParts = GetPathComponents name []
      in if length parts < length nameParts \<or> nameParts \<noteq> take (length nameParts) parts then None
         else
           let trailingParts = drop (length nameParts) parts in
           Some (if trailingParts \<noteq> [] then CombinePaths ''.'' trailingParts else ''.''))"

definition loadModuleFromSelfNameReference ::
    "ResolvedModule resolving \<Rightarrow> Resolver \<Rightarrow> resolved option resolving" where
  "loadModuleFromSelfNameReference self r =
     seq (gets rs_containingDirectory) (\<lambda>containingDirectory.
     seq (getPackageScopeForPath r
            (GetNormalizedAbsolutePath containingDirectory (GetCurrentDirectory (rv_host r)))) (\<lambda>scope.
       case GetContents scope of
         None \<Rightarrow> ret None
       | Some contents \<Rightarrow>
           if IsFalsy (pj_Exports contents) \<or> \<not> ex_Valid (pj_Name contents) then ret None
           else
             seq (gets rs_name) (\<lambda>moduleName.
             seq (gets rs_extensions) (\<lambda>ext.
             seq (gets rs_compilerOptions) (\<lambda>options.
               case self_subpath moduleName (ex_Value (pj_Name contents)) of
                 None \<Rightarrow> ret None
               | Some subpath \<Rightarrow>
                   if GetAllowJS options \<and> \<not> Contains containingDirectory ''/node_modules/''
                   then loadModuleFromExports self r scope ext subpath
                   else or_else (loadModuleFromExports self r scope (priority_extensions ext) subpath)
                          (loadModuleFromExports self r scope (secondary_extensions ext) subpath))))))"

section \<open>The node_modules directories\<close>

definition with_package_directory ::
    "Resolver \<Rightarrow> string \<Rightarrow> InfoCacheEntry option \<Rightarrow> resolved option resolving \<Rightarrow> resolved option resolving" where
  "with_package_directory r packageDirectory packageInfo m =
     seq m (\<lambda>result. case result of
       Some x \<Rightarrow> seq (getPackageId r packageDirectory packageInfo) (\<lambda>packageId.
                   ret (Some (x\<lparr>res_packageId := packageId\<rparr>)))
     | None \<Rightarrow> ret None)"

definition exports_type :: "InfoCacheEntry option \<Rightarrow> JSONValueType" where
  "exports_type packageInfo =
     (case GetContents packageInfo of
        Some contents \<Rightarrow> value_type (pj_Exports contents) | None \<Rightarrow> JSONValueTypeNotPresent)"

definition node_modules_loader :: "Resolver \<Rightarrow> string \<Rightarrow> string \<Rightarrow> InfoCacheEntry option \<Rightarrow> loader" where
  "node_modules_loader r rest packageDirectory packageInfo extensions candidate onlyRecordFailures =
     seq (gets rs_esmMode) (\<lambda>esmMode.
       or_else
         (if rest \<noteq> [] \<or> \<not> esmMode
          then with_package_directory r packageDirectory packageInfo
                 (loadModuleFromFile r extensions candidate onlyRecordFailures)
          else ret None)
       (or_else
         (with_package_directory r packageDirectory packageInfo
            (loadNodeModuleFromDirectoryWorker r extensions candidate onlyRecordFailures packageInfo))
         (if Entry_Exists packageInfo \<and>
             exports_type packageInfo \<in> {JSONValueTypeNotPresent, JSONValueTypeNull} \<and> esmMode
          then with_package_directory r packageDirectory packageInfo
                 (loadModuleFromFile r extensions (CombinePaths candidate [''index.js'']) onlyRecordFailures)
          else ret None)))"

text \<open>
  A package description nested below the package's root. The result is what it leads to and the root's
  description as far as it was read.
\<close>

definition load_nested_package ::
    "Resolver \<Rightarrow> extensions \<Rightarrow> string \<Rightarrow> string \<Rightarrow> string \<Rightarrow> bool \<Rightarrow> InfoCacheEntry option \<Rightarrow>
     (resolved option \<times> InfoCacheEntry option) resolving" where
  "load_nested_package r ext candidate rest packageDirectory onlyRecordFailures packageInfo =
     (if rest \<noteq> [] \<and> Entry_Exists packageInfo then
        seq (gets rs_features) (\<lambda>features.
        seq (if has_flag features NodeResolutionFeaturesExports
             then getPackageJsonInfo r packageDirectory onlyRecordFailures else ret None) (\<lambda>rootPackageInfo.
          if \<not> Entry_Exists rootPackageInfo \<or> exports_type rootPackageInfo = JSONValueTypeNotPresent then
            seq (or_else (loadModuleFromFile r ext candidate onlyRecordFailures)
                   (with_package_directory r packageDirectory packageInfo
                      (loadNodeModuleFromDirectoryWorker r ext candidate onlyRecordFailures packageInfo)))
              (\<lambda>result. ret (result, rootPackageInfo))
          else ret (None, rootPackageInfo)))
      else ret (None, None))"

definition load_from_versions ::
    "Resolver \<Rightarrow> extensions \<Rightarrow> string \<Rightarrow> string \<Rightarrow> bool \<Rightarrow> InfoCacheEntry option \<Rightarrow> loader \<Rightarrow> resolved option resolving" where
  "load_from_versions r ext rest packageDirectory nodeModulesDirectoryExists packageInfo loader =
     seq (lift_go (case GetContents packageInfo of
            Some contents \<Rightarrow> GetVersionPaths (typeScriptVersion (rv_host r)) contents
          | None \<Rightarrow> Inl (Panicked ''nil pointer dereference''))) (\<lambda>versionPaths.
       case GetPaths versionPaths of
         Some paths \<Rightarrow>
           tryLoadModuleUsingPaths r ext rest packageDirectory paths (TryParsePatterns (Some paths)) loader
             (\<not> (nodeModulesDirectoryExists \<and> DirectoryExists (rv_host r) packageDirectory))
       | None \<Rightarrow> ret None)"

definition load_from_package ::
    "ResolvedModule resolving \<Rightarrow> Resolver \<Rightarrow> extensions \<Rightarrow> string \<Rightarrow> string \<Rightarrow> string \<Rightarrow> bool \<Rightarrow>
     InfoCacheEntry option \<Rightarrow> resolved option resolving" where
  "load_from_package self r ext candidate rest packageDirectory nodeModulesDirectoryExists packageInfo =
     (let loader = node_modules_loader r rest packageDirectory packageInfo in
      if packageInfo \<noteq> None then
        seq (modify (rs_resolvedPackageDirectory_update (\<lambda>_. True))) (\<lambda>_.
        seq (gets rs_features) (\<lambda>features.
          if has_flag features NodeResolutionFeaturesExports \<and> Entry_Exists packageInfo \<and>
             exports_type packageInfo \<noteq> JSONValueTypeNotPresent
          then loadModuleFromExports self r packageInfo ext (CombinePaths ''.'' [rest])
          else or_else
                 (if rest \<noteq> [] then
                    load_from_versions r ext rest packageDirectory nodeModulesDirectoryExists packageInfo loader
                  else ret None)
                 (loader ext candidate (\<not> nodeModulesDirectoryExists))))
      else loader ext candidate (\<not> nodeModulesDirectoryExists))"

definition loadModuleFromSpecificNodeModulesDirectory ::
    "ResolvedModule resolving \<Rightarrow> Resolver \<Rightarrow> extensions \<Rightarrow> string \<Rightarrow> string \<Rightarrow> bool \<Rightarrow> resolved option resolving" where
  "loadModuleFromSpecificNodeModulesDirectory self r ext moduleName nodeModulesDirectory
       nodeModulesDirectoryExists =
     seq (lift_go (ParsePackageName moduleName)) (\<lambda>(packageName, rest).
       let candidate = NormalizePath (CombinePaths nodeModulesDirectory [moduleName]);
           packageDirectory = CombinePaths nodeModulesDirectory [packageName];
           record = \<not> nodeModulesDirectoryExists
       in seq (getPackageJsonInfo r candidate record) (\<lambda>nestedInfo.
          seq (load_nested_package r ext candidate rest packageDirectory record nestedInfo) (\<lambda>(early, rootPackageInfo).
            if early \<noteq> None then ret early
            else
              seq (if rest = [] then ret nestedInfo
                   else if rootPackageInfo \<noteq> None then ret rootPackageInfo
                   else getPackageJsonInfo r packageDirectory record)
                (load_from_package self r ext candidate rest packageDirectory nodeModulesDirectoryExists))))"

definition loadModuleFromImmediateNodeModulesDirectory ::
    "ResolvedModule resolving \<Rightarrow> Resolver \<Rightarrow> extensions \<Rightarrow> string \<Rightarrow> bool \<Rightarrow> resolved option resolving" where
  "loadModuleFromImmediateNodeModulesDirectory self r extensions directory typesScopeOnly =
     (let nodeModulesFolder = CombinePaths directory [''node_modules''];
          nodeModulesFolderExists = DirectoryExists (rv_host r) nodeModulesFolder;
          nodeModulesAtTypes = CombinePaths nodeModulesFolder [''@types''];
          nodeModulesAtTypesExists = (nodeModulesFolderExists \<and> DirectoryExists (rv_host r) nodeModulesAtTypes)
      in seq (gets rs_name) (\<lambda>name.
           or_else
             (if \<not> typesScopeOnly then
                loadModuleFromSpecificNodeModulesDirectory self r extensions name nodeModulesFolder
                  nodeModulesFolderExists
              else ret None)
             (if has_flag extensions extensionsDeclaration then
                seq (lift_go (MangleScopedPackageName name)) (\<lambda>mangled.
                  loadModuleFromSpecificNodeModulesDirectory self r extensionsDeclaration mangled
                    nodeModulesAtTypes nodeModulesAtTypesExists)
              else ret None)))"

definition loadModuleFromNearestNodeModulesDirectoryWorker ::
    "ResolvedModule resolving \<Rightarrow> Resolver \<Rightarrow> extensions \<Rightarrow> bool \<Rightarrow> resolved option resolving" where
  "loadModuleFromNearestNodeModulesDirectoryWorker self r ext typesScopeOnly =
     seq (gets rs_containingDirectory) (\<lambda>containingDirectory.
       ancestors_action (\<lambda>directory.
         if GetBaseFileName directory \<noteq> ''node_modules''
         then loadModuleFromImmediateNodeModulesDirectory self r ext directory typesScopeOnly
         else ret None) containingDirectory)"

text \<open>The mode the code computes first is passed on and never used.\<close>

definition loadModuleFromNearestNodeModulesDirectory ::
    "ResolvedModule resolving \<Rightarrow> Resolver \<Rightarrow> bool \<Rightarrow> resolved option resolving" where
  "loadModuleFromNearestNodeModulesDirectory self r typesScopeOnly =
     seq (gets rs_esmMode) (\<lambda>esmMode.
     seq (if esmMode then ret True else conditionMatches r ''import'') (\<lambda>_.
     seq (gets rs_extensions) (\<lambda>ext.
       or_else
         (if priority_extensions ext \<noteq> 0
          then loadModuleFromNearestNodeModulesDirectoryWorker self r (priority_extensions ext) typesScopeOnly
          else ret None)
         (if secondary_extensions ext \<noteq> 0 \<and> \<not> typesScopeOnly
          then loadModuleFromNearestNodeModulesDirectoryWorker self r (secondary_extensions ext) typesScopeOnly
          else ret None))))"

section \<open>Results\<close>

definition getOriginalAndResolvedFileName :: "Resolver \<Rightarrow> string \<Rightarrow> string \<times> string" where
  "getOriginalAndResolvedFileName r fileName =
     (let resolvedFileName = realPath r fileName in
      if ComparePaths (host_upper (rv_host r)) fileName resolvedFileName
           \<lparr>UseCaseSensitiveFileNames = caseSensitive (rv_host r),
            CurrentDirectory = GetCurrentDirectory (rv_host r)\<rparr> = 0
      then ([], fileName) else (fileName, resolvedFileName))"

definition createResolvedModule :: "resolved option \<Rightarrow> bool \<Rightarrow> ResolvedModule resolving" where
  "createResolvedModule resolved isExternalLibraryImport =
     seq (gets rs_failedLookupLocations) (\<lambda>failed.
     seq (gets rs_affectingLocations) (\<lambda>affecting.
       let empty = \<lparr>rm_FailedLookupLocations = failed, rm_AffectingLocations = affecting,
                    rm_ResolvedFileName = [], rm_OriginalPath = [], rm_Extension = [],
                    rm_ResolvedUsingTsExtension = False, rm_PackageId = no_package_id,
                    rm_IsExternalLibraryImport = False, rm_AlternateResult = []\<rparr>
       in ret (case resolved of
                 None \<Rightarrow> empty
               | Some x \<Rightarrow>
                   empty\<lparr>rm_ResolvedFileName := res_path x, rm_OriginalPath := res_originalPath x,
                         rm_IsExternalLibraryImport := isExternalLibraryImport,
                         rm_ResolvedUsingTsExtension := res_resolvedUsingTsExtension x,
                         rm_Extension := res_extension x, rm_PackageId := res_packageId x\<rparr>)))"

definition createResolvedModuleHandlingSymlink :: "Resolver \<Rightarrow> resolved \<Rightarrow> ResolvedModule resolving" where
  "createResolvedModuleHandlingSymlink r x =
     seq (gets (\<lambda>s. o_PreserveSymlinks (rs_compilerOptions s))) (\<lambda>preserve.
     seq (gets rs_name) (\<lambda>name.
       let isExternalLibraryImport = Contains (res_path x) ''/node_modules/'';
           (originalPath, resolvedFileName) = getOriginalAndResolvedFileName r (res_path x);
           x' = (if preserve \<noteq> TSTrue \<and> isExternalLibraryImport \<and> res_originalPath x = [] \<and>
                    \<not> IsExternalModuleNameRelative name \<and> originalPath \<noteq> []
                 then x\<lparr>res_path := resolvedFileName, res_originalPath := originalPath\<rparr> else x)
       in createResolvedModule (Some x') isExternalLibraryImport))"

definition createResolvedTypeReferenceDirective ::
    "Resolver \<Rightarrow> resolved option \<Rightarrow> bool \<Rightarrow> ResolvedTypeReferenceDirective resolving" where
  "createResolvedTypeReferenceDirective r resolved primary =
     seq (gets rs_failedLookupLocations) (\<lambda>failed.
     seq (gets rs_affectingLocations) (\<lambda>affecting.
     seq (gets (\<lambda>s. o_PreserveSymlinks (rs_compilerOptions s))) (\<lambda>preserve.
       let empty = \<lparr>rt_FailedLookupLocations = failed, rt_AffectingLocations = affecting, rt_Primary = False,
                    rt_ResolvedFileName = [], rt_OriginalPath = [], rt_PackageId = no_package_id,
                    rt_IsExternalLibraryImport = False\<rparr>
       in case resolved of
            None \<Rightarrow> ret empty
          | Some x \<Rightarrow>
              if res_path x = [] then ret empty
              else if \<not> ExtensionIsTs (res_extension x)
              then lift_go (Inl (Panicked ''expected a TypeScript file extension''))
              else
                let d = empty\<lparr>rt_ResolvedFileName := res_path x, rt_Primary := primary,
                              rt_PackageId := res_packageId x,
                              rt_IsExternalLibraryImport := Contains (res_path x) ''/node_modules/''\<rparr>;
                    (originalPath, resolvedFileName) = getOriginalAndResolvedFileName r (res_path x)
                in ret (if preserve \<noteq> TSTrue \<and> originalPath \<noteq> []
                        then d\<lparr>rt_ResolvedFileName := resolvedFileName, rt_OriginalPath := originalPath\<rparr>
                        else d))))"

section \<open>Resolution\<close>

definition create_or_else ::
    "Resolver \<Rightarrow> resolved option resolving \<Rightarrow> ResolvedModule resolving \<Rightarrow> ResolvedModule resolving" where
  "create_or_else r m otherwise =
     seq m (\<lambda>result. case result of
       Some x \<Rightarrow> createResolvedModuleHandlingSymlink r x | None \<Rightarrow> otherwise)"

definition resolve_relative :: "Resolver \<Rightarrow> ResolvedModule resolving" where
  "resolve_relative r =
     seq (gets rs_name) (\<lambda>name.
     seq (gets rs_containingDirectory) (\<lambda>containingDirectory.
     seq (gets rs_extensions) (\<lambda>ext.
     seq (lift_go (normalizePathForCJSResolution containingDirectory name)) (\<lambda>candidate.
     seq (nodeLoadModuleByRelativeName r ext candidate False True) (\<lambda>resolved.
       createResolvedModule resolved
         (case resolved of Some x \<Rightarrow> Contains (res_path x) ''/node_modules/'' | None \<Rightarrow> False))))))"

definition resolveNodeLikeWorker :: "ResolvedModule resolving \<Rightarrow> Resolver \<Rightarrow> ResolvedModule resolving" where
  "resolveNodeLikeWorker self r =
     create_or_else r (tryLoadModuleUsingPathsIfEligible r)
       (seq (gets rs_name) (\<lambda>name.
        seq (gets rs_features) (\<lambda>features.
          if \<not> IsExternalModuleNameRelative name then
            create_or_else r
              (if has_flag features NodeResolutionFeaturesImports \<and> HasPrefix name ''#''
               then loadModuleFromImports self r else ret None)
            (seq (gets rs_features) (\<lambda>features.
             create_or_else r
              (if has_flag features NodeResolutionFeaturesSelfName
               then loadModuleFromSelfNameReference self r else ret None)
              (if Contains name '':'' then createResolvedModule None False
               else create_or_else r (loadModuleFromNearestNodeModulesDirectory self r False)
                      (createResolvedModule None False))))
          else resolve_relative r)))"

definition try_without_exports ::
    "ResolvedModule resolving \<Rightarrow> Resolver \<Rightarrow> ResolvedModule \<Rightarrow> ResolvedModule resolving" where
  "try_without_exports self r result =
     seq (modify (\<lambda>s. s\<lparr>rs_features := rs_features s AND NOT NodeResolutionFeaturesExports,
                        rs_extensions := priority_extensions (rs_extensions s)\<rparr>)) (\<lambda>_.
     seq (resolveNodeLikeWorker self r) (\<lambda>diagnosticResult.
       ret (if ResolvedModule_IsResolved diagnosticResult \<and> rm_IsExternalLibraryImport diagnosticResult
            then result\<lparr>rm_AlternateResult := rm_ResolvedFileName diagnosticResult\<rparr> else result)))"

definition needs_second_pass :: "ResolvedModule \<Rightarrow> resolutionState \<Rightarrow> bool" where
  "needs_second_pass result s =
     (rs_resolvedPackageDirectory s \<and> \<not> rs_isConfigLookup s \<and>
      has_flag (rs_features s) NodeResolutionFeaturesExports \<and>
      has_flag (rs_extensions s) (extensionsTypeScript OR extensionsDeclaration) \<and>
      \<not> IsExternalModuleNameRelative (rs_name s) \<and> ResolvedModule_IsResolved result \<and>
      rm_IsExternalLibraryImport result \<and>
      \<not> extensionIsOk (extensionsTypeScript OR extensionsDeclaration) (rm_Extension result) \<and>
      ''import'' \<in> set (rs_conditions s))"

definition resolve_node_like_step :: "ResolvedModule resolving \<Rightarrow> Resolver \<Rightarrow> ResolvedModule resolving" where
  "resolve_node_like_step self r =
     seq (resolveNodeLikeWorker self r) (\<lambda>result.
     seq (gets (needs_second_pass result)) (\<lambda>again.
       if again then try_without_exports self r result else ret result))"

primrec resolveNodeLike :: "nat \<Rightarrow> Resolver \<Rightarrow> ResolvedModule resolving" where
  "resolveNodeLike 0 r = lift_go (Inl StackOverflow)"
| "resolveNodeLike (Suc depth) r = resolve_node_like_step (resolveNodeLike depth r) r"

section \<open>Entry points\<close>

definition resolve_from_typings :: "nat \<Rightarrow> Resolver \<Rightarrow> ResolvedModule \<Rightarrow> ResolvedModule resolving" where
  "resolve_from_typings depth r originalResult =
     seq (loadModuleFromImmediateNodeModulesDirectory (resolveNodeLike depth r) r extensionsDeclaration
            (rv_typingsLocation r) False) (\<lambda>globalResolved.
       case globalResolved of
         None \<Rightarrow> ret originalResult
       | Some x \<Rightarrow> seq (createResolvedModule (Some x) True) (\<lambda>result.
           ret (result\<lparr>rm_FailedLookupLocations :=
                         rm_FailedLookupLocations originalResult @ rm_FailedLookupLocations result,
                       rm_AffectingLocations :=
                         rm_AffectingLocations originalResult @ rm_AffectingLocations result\<rparr>)))"

definition answer :: "('a \<times> resolutionState) go \<Rightarrow> ('a \<times> InfoCache) go" where
  \<comment> \<open>what outlives a resolution: its result and the resolver's cache\<close>
  "answer run = go_bind run (\<lambda>(result, state). Inr (result, rs_packageJsonInfoCache state))"

definition tryResolveFromTypingsLocation ::
    "nat \<Rightarrow> Resolver \<Rightarrow> string \<Rightarrow> string \<Rightarrow> ResolvedModule \<Rightarrow> InfoCache \<Rightarrow> (ResolvedModule \<times> InfoCache) go" where
  "tryResolveFromTypingsLocation depth r moduleName containingDirectory originalResult cache =
     (if rv_typingsLocation r = [] \<or> IsExternalModuleNameRelative moduleName \<or>
         rm_ResolvedFileName originalResult \<noteq> [] \<and>
         ExtensionIsOneOf (rm_Extension originalResult) SupportedTSExtensionsWithJsonFlat
      then Inr (originalResult, cache)
      else
        answer (resolve_from_typings depth r originalResult
                  (newResolutionState moduleName containingDirectory False ModuleKindNone
                     (rv_compilerOptions r) None cache)))"

definition ResolveModuleName ::
    "nat \<Rightarrow> Resolver \<Rightarrow> string \<Rightarrow> string \<Rightarrow> ModuleKind \<Rightarrow> CompilerOptions option \<Rightarrow> InfoCache \<Rightarrow>
     (ResolvedModule \<times> InfoCache) go" where
  "ResolveModuleName depth r moduleName containingFile resolutionMode redirectedReference cache =
     (let compilerOptions = (case redirectedReference of Some o' \<Rightarrow> o' | None \<Rightarrow> rv_compilerOptions r);
          containingDirectory = GetDirectoryPath containingFile
      in if GetModuleResolutionKind compilerOptions = ModuleResolutionKindUnknown
         then Inl (Panicked ''Unexpected moduleResolution: 0'')
         else
           go_bind (resolveNodeLike depth r
                      (newResolutionState moduleName containingDirectory False resolutionMode compilerOptions
                         redirectedReference cache)) (\<lambda>(result, state).
             tryResolveFromTypingsLocation depth r moduleName containingDirectory result
               (rs_packageJsonInfoCache state)))"

definition resolveConfig :: "nat \<Rightarrow> Resolver \<Rightarrow> string \<Rightarrow> string \<Rightarrow> InfoCache \<Rightarrow> (ResolvedModule \<times> InfoCache) go" where
  "resolveConfig depth r moduleName containingFile cache =
     (let containingDirectory = GetDirectoryPath containingFile;
          state = newResolutionState moduleName containingDirectory False ModuleKindCommonJS
                    (rv_compilerOptions r) None cache
      in answer (resolveNodeLike depth r (state\<lparr>rs_isConfigLookup := True, rs_extensions := extensionsJson\<rparr>)))"

definition NewResolver :: "Host \<Rightarrow> CompilerOptions \<Rightarrow> string \<Rightarrow> Resolver \<times> InfoCache" where
  "NewResolver host options typingsLocation =
     (\<lparr>rv_host = host, rv_compilerOptions = options, rv_typingsLocation = typingsLocation\<rparr>,
      NewInfoCache (GetCurrentDirectory host) (caseSensitive host))"

definition ResolveConfig :: "nat \<Rightarrow> Host \<Rightarrow> string \<Rightarrow> string \<Rightarrow> ResolvedModule go" where
  "ResolveConfig depth host moduleName containingFile =
     (let (r, cache) = NewResolver host (zero_options\<lparr>o_ModuleResolution := ModuleResolutionKindNodeNext\<rparr>) []
      in go_bind (resolveConfig depth r moduleName containingFile cache) (\<lambda>(result, _). Inr result))"

definition getCandidateFromTypeRoot :: "string \<Rightarrow> string \<Rightarrow> string go" where
  "getCandidateFromTypeRoot name typeRoot =
     go_bind (if HasSuffix typeRoot ''/node_modules/@types'' \<or> HasSuffix typeRoot ''/node_modules/@types/''
              then MangleScopedPackageName name else Inr name) (\<lambda>nameForLookup.
       Inr (CombinePaths typeRoot [nameForLookup]))"

definition load_from_type_root :: "Resolver \<Rightarrow> bool \<Rightarrow> string \<Rightarrow> resolved option resolving" where
  "load_from_type_root r fromConfig typeRoot =
     seq (gets rs_name) (\<lambda>name.
     seq (lift_go (getCandidateFromTypeRoot name typeRoot)) (\<lambda>candidate.
       let record = \<not> DirectoryExists (rv_host r) candidate in
       or_else
         (if fromConfig then
            seq (loadModuleFromFile r extensionsDeclaration candidate record) (\<lambda>resolved.
              case resolved of
                Some x \<Rightarrow> seq (with_package_id r x) (\<lambda>x'. ret (Some x'))
              | None \<Rightarrow> ret None)
          else ret None)
         (loadNodeModuleFromDirectory r extensionsDeclaration candidate record True)))"

definition secondary_lookup :: "ResolvedModule resolving \<Rightarrow> Resolver \<Rightarrow> resolved option resolving" where
  "secondary_lookup self r =
     seq (gets rs_name) (\<lambda>name.
       if \<not> IsExternalModuleNameRelative name
       then loadModuleFromNearestNodeModulesDirectory self r False
       else
         seq (gets rs_containingDirectory) (\<lambda>containingDirectory.
         seq (lift_go (normalizePathForCJSResolution containingDirectory name)) (\<lambda>candidate.
           nodeLoadModuleByRelativeName r extensionsDeclaration candidate False True)))"

definition resolveTypeReferenceDirective ::
    "ResolvedModule resolving \<Rightarrow> Resolver \<Rightarrow> string list \<Rightarrow> bool \<Rightarrow> bool \<Rightarrow>
     ResolvedTypeReferenceDirective resolving" where
  "resolveTypeReferenceDirective self r typeRoots fromConfig fromInferredTypesContainingFile =
     seq (first_found (load_from_type_root r fromConfig) typeRoots) (\<lambda>primary.
       case primary of
         Some x \<Rightarrow> createResolvedTypeReferenceDirective r (Some x) True
       | None \<Rightarrow>
           seq (if \<not> fromConfig \<or> \<not> fromInferredTypesContainingFile then secondary_lookup self r else ret None)
             (\<lambda>secondary. createResolvedTypeReferenceDirective r secondary False))"

definition ResolveTypeReferenceDirective ::
    "nat \<Rightarrow> Resolver \<Rightarrow> string \<Rightarrow> string \<Rightarrow> ModuleKind \<Rightarrow> CompilerOptions option \<Rightarrow> InfoCache \<Rightarrow>
     (ResolvedTypeReferenceDirective \<times> InfoCache) go" where
  "ResolveTypeReferenceDirective depth r name containingFile resolutionMode redirectedReference cache =
     (let compilerOptions = (case redirectedReference of Some o' \<Rightarrow> o' | None \<Rightarrow> rv_compilerOptions r);
          containingDirectory = GetDirectoryPath containingFile
      in go_bind (GetEffectiveTypeRoots compilerOptions (GetCurrentDirectory (rv_host r))) (\<lambda>(typeRoots, fromConfig).
         answer (resolveTypeReferenceDirective (resolveNodeLike depth r) r typeRoots fromConfig
                   (HasSuffix containingFile ''__inferred type names__.ts'')
                   (newResolutionState name containingDirectory True resolutionMode compilerOptions
                      redirectedReference cache))))"

definition is_not_needed_package :: "Host \<Rightarrow> string \<Rightarrow> bool" where
  "is_not_needed_package host packageJsonPath =
     (FileExists host packageJsonPath \<and>
      ex_Null (pj_Typings (packagejson_Parse host (fst (ReadFile host packageJsonPath)))))"

definition type_directives_of_root :: "Host \<Rightarrow> string \<Rightarrow> string list" where
  "type_directives_of_root host root =
     (if DirectoryExists host root then
        concat (map (\<lambda>typeDirectivePath.
          let normalized = NormalizePath typeDirectivePath;
              packageJsonPath = CombinePaths root [normalized, ''package.json''];
              baseFileName = GetBaseFileName normalized
          in if \<not> is_not_needed_package host packageJsonPath \<and> \<not> HasPrefix baseFileName ''.''
             then [baseFileName] else []) (GetAccessibleDirectories host root))
      else [])"

definition GetAutomaticTypeDirectiveNames :: "CompilerOptions \<Rightarrow> Host \<Rightarrow> string list go" where
  "GetAutomaticTypeDirectiveNames options host =
     (case o_Types options of
        Some types \<Rightarrow> Inr types
      | None \<Rightarrow>
          go_bind (GetEffectiveTypeRoots options (GetCurrentDirectory host)) (\<lambda>(typeRoots, _).
            Inr (concat (map (type_directives_of_root host) typeRoots))))"

end
