(* ===== verification/Module_Sound.thy ===== *)
theory Module_Sound
  imports Module_Node
begin

text \<open>
  Module resolution: what every operation keeps of the state (\<open>grows\<close>: the recorded locations are only
  extended, the request is put back as it was), and that a resolution never invents a file. The contract
  \<open>kept\<close> of \<open>Actions\<close> is interpreted on \<open>grows\<close>; there is one lemma per operation, in the order of the code.
\<close>

section \<open>The relation between the states before and behind an operation\<close>

definition grows :: "resolutionState \<Rightarrow> resolutionState \<Rightarrow> bool" where
  "grows s s' =
     (prefix (rs_failedLookupLocations s) (rs_failedLookupLocations s') \<and>
      prefix (rs_affectingLocations s) (rs_affectingLocations s') \<and>
      rs_name s' = rs_name s \<and> rs_containingDirectory s' = rs_containingDirectory s \<and>
      rs_isConfigLookup s' = rs_isConfigLookup s \<and> rs_esmMode s' = rs_esmMode s \<and>
      rs_conditions s' = rs_conditions s \<and> rs_compilerOptions s' = rs_compilerOptions s \<and>
      rs_candidateIsFromPackageJsonField s' = rs_candidateIsFromPackageJsonField s \<and>
      (rs_resolvedPackageDirectory s \<longrightarrow> rs_resolvedPackageDirectory s'))"

interpretation grow: kept grows
  by unfold_locales (auto simp: grows_def)

definition exists_at :: "Resolver \<Rightarrow> string \<Rightarrow> string \<Rightarrow> bool" where
  \<comment> \<open>a path, and the path it was before symbolic links were followed, name an existing file\<close>
  "exists_at r path originalPath =
     (if originalPath = [] then FileExists (rv_host r) path
      else FileExists (rv_host r) originalPath \<and> path = realPath r originalPath)"

definition genuine :: "Resolver \<Rightarrow> resolved \<Rightarrow> bool" where
  "genuine r x = exists_at r (res_path x) (res_originalPath x)"

lemma genuine_file: "genuine r (resolved_file path ext u) \<longleftrightarrow> FileExists (rv_host r) path"
  by (simp add: genuine_def exists_at_def resolved_file_def)

lemma genuine_id [simp]: "genuine r (x\<lparr>res_packageId := i\<rparr>) = genuine r x"
  by (simp add: genuine_def)

named_theorems op_steps \<open>what the operations keep and return\<close>

abbreviation keeps :: "('a \<Rightarrow> bool) \<Rightarrow> 'a resolving \<Rightarrow> bool" where
  "keeps \<equiv> steps grows"

abbreviation any :: "'a \<Rightarrow> bool" where
  "any \<equiv> (\<lambda>_. True)"

lemma keeps_any: "keeps Q m \<Longrightarrow> keeps any m"
  by (rule steps_weaken) auto

lemma keeps_case_option:
  "(m = None \<Longrightarrow> keeps Q f) \<Longrightarrow> (\<And>x. m = Some x \<Longrightarrow> keeps Q (g x)) \<Longrightarrow>
   keeps Q (case m of None \<Rightarrow> f | Some x \<Rightarrow> g x)"
  by (cases m) auto

lemma keeps_case_prod: "(\<And>a b. p = (a, b) \<Longrightarrow> keeps Q (f a b)) \<Longrightarrow> keeps Q (case p of (a, b) \<Rightarrow> f a b)"
  by (cases p) auto

lemma seq_found:
  "keeps (found P) m \<Longrightarrow> (keeps Q (f None)) \<Longrightarrow> (\<And>x. P x \<Longrightarrow> keeps Q (f (Some x))) \<Longrightarrow> keeps Q (seq m f)"
  by (rule grow.seq [of "found P"]) (auto, metis option.exhaust)

section \<open>Files\<close>

lemma add_failed_keeps [op_steps]: "keeps any (add_failed l)"
  unfolding add_failed_def by (rule grow.modify) (auto simp: grows_def)

lemma add_affecting_keeps [op_steps]: "keeps any (add_affecting l)"
  unfolding add_affecting_def by (rule grow.modify) (auto simp: grows_def)

lemma set_cache_keeps [op_steps]: "keeps any (set_cache r p info)"
  unfolding set_cache_def by (rule grow.modify) (auto simp: grows_def)

lemma tryFileLookup_keeps: "keeps (\<lambda>ok. ok \<longrightarrow> FileExists (rv_host r) f) (tryFileLookup r f b)"
  unfolding tryFileLookup_def by (intro step_intros op_steps) auto

abbreviation hit :: "Resolver \<Rightarrow> string \<times> bool \<Rightarrow> bool" where
  "hit r \<equiv> (\<lambda>(path, ok). ok \<longrightarrow> FileExists (rv_host r) path)"

lemma try_suffixes_keeps: "keeps (hit r) (try_suffixes r f n e b sfxs)"
  by (induction sfxs)
    (simp_all only: try_suffixes.simps Let_def, auto simp del: run_simps intro!: grow.ret grow.seq [OF tryFileLookup_keeps])

lemma tryFile_keeps: "keeps (hit r) (tryFile r f b)"
  unfolding tryFile_def Let_def
  by (intro step_intros op_steps try_suffixes_keeps grow.seq [OF tryFileLookup_keeps]) auto

lemma seq_tryFile:
  "(\<And>path. FileExists (rv_host r) path \<Longrightarrow> keeps Q (f (path, True))) \<Longrightarrow> (\<And>path. keeps Q (f (path, False))) \<Longrightarrow>
   keeps Q (seq (tryFile r p b) f)"
  by (rule grow.seq [OF tryFile_keeps]) (auto, metis (full_types))

lemma tryExtension_keeps [op_steps]: "keeps (found (genuine r)) (tryExtension r e l u b)"
  unfolding tryExtension_def Let_def
  by (rule seq_tryFile) (auto intro!: step_intros op_steps simp: genuine_file)

lemma tryAddingExtensions_keeps [op_steps]: "keeps (found (genuine r)) (tryAddingExtensions r l e o' b)"
  unfolding tryAddingExtensions_def Let_def by (intro step_intros keeps_case_prod op_steps) auto

lemma loadModuleFromFileNoImplicitExtensions_keeps [op_steps]:
  "keeps (found (genuine r)) (loadModuleFromFileNoImplicitExtensions r e c b)"
  unfolding loadModuleFromFileNoImplicitExtensions_def Let_def by (intro step_intros op_steps) auto

lemma loadModuleFromFile_keeps [op_steps]: "keeps (found (genuine r)) (loadModuleFromFile r e c b)"
  unfolding loadModuleFromFile_def by (intro step_intros op_steps) auto

lemma loadFileNameFromPackageJSONField_keeps [op_steps]:
  "keeps (found (genuine r)) (loadFileNameFromPackageJSONField r e c v b)"
  unfolding loadFileNameFromPackageJSONField_def Let_def
  by (intro step_intros op_steps seq_tryFile) (auto intro!: step_intros op_steps simp: genuine_file)

section \<open>Package descriptions\<close>

lemma getPackageJsonInfo_keeps [op_steps]: "keeps any (getPackageJsonInfo r d b)"
  unfolding getPackageJsonInfo_def Let_def by (intro step_intros op_steps keeps_case_option) auto

lemma peer_dependencies_loop_keeps [op_steps]: "keeps any (peer_dependencies_loop r n ds b)"
proof (induction r n ds b rule: peer_dependencies_loop.induct)
  case (2 r nodeModules name uu dependencies builder)
  then show ?case unfolding peer_dependencies_loop.simps by (intro step_intros op_steps keeps_case_option) auto
qed (simp only: peer_dependencies_loop.simps, intro step_intros, simp)

lemma readPackageJsonPeerDependencies_keeps [op_steps]: "keeps any (readPackageJsonPeerDependencies r d c)"
  unfolding readPackageJsonPeerDependencies_def Let_def by (intro step_intros op_steps) auto

lemma getPackageId_keeps [op_steps]: "keeps any (getPackageId r f i)"
  unfolding getPackageId_def Let_def by (intro step_intros op_steps keeps_case_option) auto

lemma ancestors_keeps:
  assumes cb: "\<And>d. keeps (found P) (cb d)"
  shows "keeps (found P) (ancestors_action cb d)"
proof -
  let ?cb = "\<lambda>dir st. case st of
                Inl e \<Rightarrow> ((None, True), Inl e)
              | Inr s \<Rightarrow> (case cb dir s of
                            Inl e \<Rightarrow> ((None, True), Inl e)
                          | Inr (result, s') \<Rightarrow> ((result, result \<noteq> None), Inr s'))"
  have walk: "ForEachAncestorDirectory ?cb d st = (result, Inr s') \<Longrightarrow>
      \<exists>s. st = Inr s \<and> grows s s' \<and> (\<forall>x. result = Some (Some x) \<longrightarrow> P x)" for d st result s'
  proof (induction "ancestor_measure d" arbitrary: d st rule: less_induct)
    case less
    show ?case
    proof (cases st)
      case (Inl e)
      with less.prems show ?thesis by (subst (asm) ForEachAncestorDirectory.simps) simp
    next
      case (Inr s)
      show ?thesis
      proof (cases "cb d s")
        case (Inl e)
        with less.prems Inr show ?thesis by (subst (asm) ForEachAncestorDirectory.simps) simp
      next
        case (Inr p)
        obtain x s1 where run: "cb d s = Inr (x, s1)" using Inr by (cases p) auto
        from stepsD [OF cb run] have s1: "grows s s1" "found P x" by auto
        show ?thesis
        proof (cases "x \<noteq> None \<or> GetDirectoryPath d = d")
          case True
          with less.prems run \<open>st = Inr s\<close> s1 show ?thesis
            by (subst (asm) ForEachAncestorDirectory.simps) (auto split: if_splits)
        next
          case False
          with less.prems run \<open>st = Inr s\<close>
          have "ForEachAncestorDirectory ?cb (GetDirectoryPath d) (Inr s1) = (result, Inr s')"
            by (subst (asm) ForEachAncestorDirectory.simps) auto
          with less.hyps [OF ancestor_decreases] False
          have "grows s1 s' \<and> (\<forall>x. result = Some (Some x) \<longrightarrow> P x)" by blast
          with s1 \<open>st = Inr s\<close> grow.kept_trans show ?thesis by blast
        qed
      qed
    qed
  qed
  show ?thesis
    unfolding steps_def ancestors_action_def
    by (auto split: prod.splits sum.splits option.splits dest!: walk)
qed

lemma getPackageScopeForPath_keeps [op_steps]: "keeps any (getPackageScopeForPath r d)"
  unfolding getPackageScopeForPath_def
  using ancestors_keeps [of any] op_steps keeps_any by (metis (no_types, lifting) steps_weaken)

lemma getPackageFile_keeps [op_steps]: "keeps any (getPackageFile r e i)"
  unfolding getPackageFile_def Let_def
  by (rule keeps_any [of "found any"]) (intro step_intros op_steps keeps_case_option, auto)

lemma conditionMatches_keeps [op_steps]: "keeps any (conditionMatches r c)"
  unfolding conditionMatches_def by (intro step_intros op_steps keeps_case_prod) auto

section \<open>Loading\<close>

lemma index_lookup_keeps [op_steps]: "keeps (found (genuine r)) (index_lookup r e c b)"
  unfolding index_lookup_def Let_def by (intro step_intros op_steps) auto

lemma with_package_id_keeps: "genuine r x \<Longrightarrow> keeps (genuine r) (with_package_id r x)"
  unfolding with_package_id_def Let_def by (intro step_intros op_steps) auto

lemma identified_keeps: "genuine r x \<Longrightarrow> keeps (found (genuine r)) (seq (with_package_id r x) (\<lambda>x. ret (Some x)))"
  by (rule grow.seq [OF with_package_id_keeps]) (auto intro: grow.ret)

lemma by_relative_name_keeps:
  "(\<And>b. keeps (found (genuine r)) (d b)) \<Longrightarrow> keeps (found (genuine r)) (by_relative_name d r e c b i)"
  unfolding by_relative_name_def Let_def
  by (intro step_intros seq_found [where P = "genuine r"] op_steps)
    (auto intro!: identified_keeps grow.ret)

lemma load_without_package_keeps [op_steps]: "keeps (found (genuine r)) (load_without_package r e c b)"
  unfolding load_without_package_def by (rule by_relative_name_keeps) (rule op_steps)

lemma substitutions_loop_keeps:
  "(\<And>e c b. keeps (found (genuine r)) (loader e c b)) \<Longrightarrow>
   keeps (found (genuine r)) (substitutions_loop r e d m loader b substs)"
proof (induction substs)
  case (Cons subst substs)
  then show ?case
    unfolding substitutions_loop.simps Let_def
    by (intro step_intros seq_tryFile) (auto simp: genuine_file intro!: grow.ret)
qed (auto intro: step_intros)

lemma tryLoadModuleUsingPaths_keeps:
  "(\<And>e c b. keeps (found (genuine r)) (loader e c b)) \<Longrightarrow>
   keeps (found (genuine r)) (tryLoadModuleUsingPaths r e m d ps pp loader b)"
  unfolding tryLoadModuleUsingPaths_def by (intro step_intros substitutions_loop_keeps) auto

text \<open>An operation that sets fields of the request and puts them back.\<close>

lemma keeps_within:
  assumes "keeps Q m"
    and "\<And>s. w s = (case m (enter s) of Inl e \<Rightarrow> Inl e | Inr (x, s1) \<Rightarrow> Inr (x, leave s s1))"
    and "\<And>s s1. grows (enter s) s1 \<Longrightarrow> grows s (leave s s1)"
  shows "keeps Q w"
  using assms(2,3) stepsD [OF assms(1)] unfolding steps_def by (auto split: sum.splits prod.splits)

lemma in_package_mode_keeps:
  assumes "keeps Q m"
  shows "keeps Q (in_package_mode i m)"
proof (rule keeps_within [OF assms])
  let ?commonjs = "(\<exists>contents. GetContents i = Some contents \<and> ex_Value (pj_Type contents) \<noteq> ''module'')"
  let ?enter = "\<lambda>s. s\<lparr>rs_candidateIsFromPackageJsonField := True,
                      rs_esmMode := (if ?commonjs then False else rs_esmMode s)\<rparr>"
  let ?leave = "\<lambda>s s1. s1\<lparr>rs_esmMode := rs_esmMode s,
                 rs_candidateIsFromPackageJsonField := rs_candidateIsFromPackageJsonField s\<rparr>"
  show "in_package_mode i m s = (case m (?enter s) of Inl e \<Rightarrow> Inl e | Inr (x, s1) \<Rightarrow> Inr (x, ?leave s s1))" for s
    by (cases "GetContents i"; cases "m (?enter s)") (auto simp: in_package_mode_def seq_def)
  show "grows (?enter s) s1 \<Longrightarrow> grows s (?leave s s1)" for s s1
    by (auto simp: grows_def)
qed

lemma package_loader_keeps [op_steps]: "keeps (found (genuine r)) (package_loader r i f e c b)"
  unfolding package_loader_def Let_def by (intro step_intros in_package_mode_keeps op_steps)

lemma expect_no_package_id_keeps: "keeps (found P) m \<Longrightarrow> keeps (found P) (expect_no_package_id m)"
  unfolding expect_no_package_id_def by (rule seq_found [of P]) (auto intro!: step_intros grow.ret)

lemma package_file_of_keeps [op_steps]: "keeps any (package_file_of r e c i)"
  unfolding package_file_of_def by (intro step_intros op_steps keeps_case_option) auto

lemma from_version_paths_keeps:
  "(\<And>e c b. keeps (found (genuine r)) (loader e c b)) \<Longrightarrow>
   keeps (found (genuine r)) (from_version_paths r e c v f i loader b)"
  unfolding from_version_paths_def
  by (intro step_intros keeps_case_option expect_no_package_id_keeps tryLoadModuleUsingPaths_keeps) auto

lemma loadNodeModuleFromDirectoryWorker_keeps [op_steps]:
  "keeps (found (genuine r)) (loadNodeModuleFromDirectoryWorker r e c b i)"
  unfolding loadNodeModuleFromDirectoryWorker_def Let_def
  by (intro step_intros keeps_case_prod keeps_case_option from_version_paths_keeps expect_no_package_id_keeps op_steps)
    auto

lemma loadNodeModuleFromDirectory_keeps [op_steps]:
  "keeps (found (genuine r)) (loadNodeModuleFromDirectory r e c b i)"
  unfolding loadNodeModuleFromDirectory_def by (intro step_intros op_steps) auto

lemma nodeLoadModuleByRelativeName_keeps [op_steps]:
  "keeps (found (genuine r)) (nodeLoadModuleByRelativeName r e c b i)"
  unfolding nodeLoadModuleByRelativeName_def by (rule by_relative_name_keeps) (rule op_steps)

lemma tryLoadModuleUsingPathsIfEligible_keeps [op_steps]:
  "keeps (found (genuine r)) (tryLoadModuleUsingPathsIfEligible r)"
  unfolding tryLoadModuleUsingPathsIfEligible_def
  by (intro step_intros keeps_case_option tryLoadModuleUsingPaths_keeps op_steps) auto

section \<open>Exports, imports and node_modules\<close>

text \<open>What a result promises: its file, and the alternative found without export maps, exist.\<close>

definition genuine_module :: "Resolver \<Rightarrow> ResolvedModule \<Rightarrow> bool" where
  "genuine_module r m =
     ((rm_ResolvedFileName m \<noteq> [] \<longrightarrow> exists_at r (rm_ResolvedFileName m) (rm_OriginalPath m)) \<and>
      (rm_AlternateResult m \<noteq> [] \<longrightarrow> (\<exists>originalPath. exists_at r (rm_AlternateResult m) originalPath)))"

lemma in_package_scope_keeps:
  assumes "keeps Q m"
  shows "keeps Q (in_package_scope n d m)"
proof (rule keeps_within [OF assms])
  let ?enter = "\<lambda>s. s\<lparr>rs_name := n, rs_containingDirectory := d @ ''/''\<rparr>"
  let ?leave = "\<lambda>s s1. s1\<lparr>rs_name := rs_name s, rs_containingDirectory := rs_containingDirectory s\<rparr>"
  show "in_package_scope n d m s = (case m (?enter s) of Inl e \<Rightarrow> Inl e | Inr (x, s1) \<Rightarrow> Inr (x, ?leave s s1))" for s
    by (cases "m (?enter s)") (auto simp: in_package_scope_def seq_def)
  show "grows (?enter s) s1 \<Longrightarrow> grows s (?leave s s1)" for s s1
    by (auto simp: grows_def)
qed

lemma load_mapped_package_keeps:
  "keeps (genuine_module r) self \<Longrightarrow> keeps (found (genuine r)) (load_mapped_package self l d)"
  unfolding load_mapped_package_def
  by (rule grow.seq [OF in_package_scope_keeps [where Q = "genuine_module r"]])
    (auto intro!: grow.ret simp: genuine_module_def ResolvedModule_IsResolved_def genuine_def resolved_of_module_def)

lemma load_package_file_keeps [op_steps]: "keeps (found (genuine r)) (load_package_file r e i m t sp p)"
  unfolding load_package_file_def Let_def tryLoadInputFileForPath_def
  by (intro step_intros seq_found [of "genuine r"] op_steps) (auto intro!: grow.seq_any op_steps grow.ret)

lemma load_string_target_keeps:
  "keeps (genuine_module r) self \<Longrightarrow> keeps (found (genuine r)) (load_string_target self r e i m t sp p)"
  unfolding load_string_target_def by (intro step_intros load_mapped_package_keeps op_steps)

lemma load_target_keeps:
  assumes "keeps (genuine_module r) self"
  shows "keeps (found (genuine r)) (loadModuleFromTargetExportOrImport self r e i m sp p target)"
    and "keeps (found (genuine r)) (load_conditions self r e i m sp p members)"
    and "keeps (found (genuine r)) (load_elements self r e i m sp p elements)"
  using assms
proof (induction self r e i m sp p target and self r e i m sp p members and self r e i m sp p elements
    rule: loadModuleFromTargetExportOrImport_load_conditions_load_elements.induct)
  case (6 self r ext scope isImports subpath isPattern condition subTarget members)
  then show ?case unfolding load_conditions.simps by (intro step_intros op_steps) auto
next
  case (8 self r ext scope isImports subpath isPattern elem elements)
  then show ?case unfolding load_elements.simps by (intro step_intros op_steps) auto
qed (simp_all only: loadModuleFromTargetExportOrImport.simps load_conditions.simps load_elements.simps
    load_string_target_keeps grow.nothing)

lemma expanding_loop_keeps:
  "keeps (genuine_module r) self \<Longrightarrow> keeps (found (genuine r)) (expanding_loop self r e n t i m keys)"
proof (induction keys)
  case (Cons key keys)
  then show ?case
    unfolding expanding_loop.simps
    by (intro step_intros keeps_case_option keeps_case_prod load_target_keeps) auto
qed (simp only: expanding_loop.simps grow.nothing)

lemma loadModuleFromExportsOrImports_keeps:
  "keeps (genuine_module r) self \<Longrightarrow> keeps (found (genuine r)) (loadModuleFromExportsOrImports self r e n t i m)"
  unfolding loadModuleFromExportsOrImports_def Let_def
  by (intro keeps_case_option load_target_keeps expanding_loop_keeps)

lemma keeps_case_json:
  "keeps Q g \<Longrightarrow> (\<And>members. v = JSONObject members \<Longrightarrow> keeps Q (f members)) \<Longrightarrow>
   keeps Q (case v of JSONObject members \<Rightarrow> f members | _ \<Rightarrow> g)"
  by (cases v) auto

lemma loadModuleFromExports_keeps:
  "keeps (genuine_module r) self \<Longrightarrow> keeps (found (genuine r)) (loadModuleFromExports self r i e sp)"
  unfolding loadModuleFromExports_def Let_def
  by (intro step_intros keeps_case_option keeps_case_json load_target_keeps loadModuleFromExportsOrImports_keeps)

lemma loadModuleFromImports_keeps:
  "keeps (genuine_module r) self \<Longrightarrow> keeps (found (genuine r)) (loadModuleFromImports self r)"
  unfolding loadModuleFromImports_def
  by (intro step_intros keeps_case_option keeps_case_json loadModuleFromExportsOrImports_keeps op_steps) auto

lemma loadModuleFromSelfNameReference_keeps:
  "keeps (genuine_module r) self \<Longrightarrow> keeps (found (genuine r)) (loadModuleFromSelfNameReference self r)"
  unfolding loadModuleFromSelfNameReference_def
  by (intro step_intros keeps_case_option loadModuleFromExports_keeps op_steps) auto

lemma with_package_directory_keeps:
  "keeps (found (genuine r)) m \<Longrightarrow> keeps (found (genuine r)) (with_package_directory r d i m)"
  unfolding with_package_directory_def
  by (rule seq_found [of "genuine r"]) (auto intro!: grow.seq_any op_steps grow.ret)

lemma node_modules_loader_keeps [op_steps]: "keeps (found (genuine r)) (node_modules_loader r rest d i e c b)"
  unfolding node_modules_loader_def by (intro step_intros with_package_directory_keeps op_steps) auto

lemma load_nested_package_keeps:
  "keeps (\<lambda>(early, _). found (genuine r) early) (load_nested_package r e c rest d b i)"
  unfolding load_nested_package_def
  by (intro grow.cond grow.seq_any step_intros op_steps grow.ret
      grow.seq [of "found (genuine r)", OF grow.or_else] with_package_directory_keeps) auto

lemma load_from_versions_keeps:
  "(\<And>e c b. keeps (found (genuine r)) (loader e c b)) \<Longrightarrow>
   keeps (found (genuine r)) (load_from_versions r e rest d b i loader)"
  unfolding load_from_versions_def by (intro step_intros keeps_case_option tryLoadModuleUsingPaths_keeps) auto

lemma load_from_package_keeps:
  assumes "keeps (genuine_module r) self"
  shows "keeps (found (genuine r)) (load_from_package self r e c rest d b i)"
  unfolding load_from_package_def Let_def
  by (intro step_intros op_steps loadModuleFromExports_keeps [OF assms] load_from_versions_keeps grow.modify)
    (auto simp: grows_def)

lemma loadModuleFromSpecificNodeModulesDirectory_keeps:
  assumes "keeps (genuine_module r) self"
  shows "keeps (found (genuine r)) (loadModuleFromSpecificNodeModulesDirectory self r e n d b)"
proof -
  have "keeps (found (genuine r)) (case p of (early, root) \<Rightarrow> if early \<noteq> None then ret early
      else seq (f root) (load_from_package self r e c rest d' b))"
    if "case p of (early, _) \<Rightarrow> found (genuine r) early" and "\<And>root. keeps any (f root)" for p f c rest d'
    using that by (cases p) (auto intro!: grow.ret grow.seq_any load_from_package_keeps assms simp del: run_simps)
  note tail = grow.seq [OF load_nested_package_keeps this]
  show ?thesis
    unfolding loadModuleFromSpecificNodeModulesDirectory_def Let_def
    by (intro grow.seq_any keeps_case_prod op_steps TrueI grow.lift tail) (auto intro!: step_intros op_steps)
qed

lemma loadModuleFromImmediateNodeModulesDirectory_keeps:
  "keeps (genuine_module r) self \<Longrightarrow>
   keeps (found (genuine r)) (loadModuleFromImmediateNodeModulesDirectory self r e d b)"
  unfolding loadModuleFromImmediateNodeModulesDirectory_def Let_def
  by (intro step_intros loadModuleFromSpecificNodeModulesDirectory_keeps) auto

lemma loadModuleFromNearestNodeModulesDirectory_keeps:
  assumes "keeps (genuine_module r) self"
  shows "keeps (found (genuine r)) (loadModuleFromNearestNodeModulesDirectory self r b)"
  unfolding loadModuleFromNearestNodeModulesDirectory_def loadModuleFromNearestNodeModulesDirectoryWorker_def
  by (intro step_intros ancestors_keeps loadModuleFromImmediateNodeModulesDirectory_keeps assms op_steps) auto

section \<open>Results\<close>

lemma createResolvedModule_keeps: "found (genuine r) x \<Longrightarrow> keeps (genuine_module r) (createResolvedModule x b)"
  unfolding createResolvedModule_def Let_def
  by (intro step_intros) (auto simp: genuine_module_def genuine_def split: option.splits)

lemma createResolvedModuleHandlingSymlink_keeps:
  "genuine r x \<Longrightarrow> keeps (genuine_module r) (createResolvedModuleHandlingSymlink r x)"
  unfolding createResolvedModuleHandlingSymlink_def Let_def
  by (intro step_intros keeps_case_prod createResolvedModule_keeps)
    (auto simp: genuine_def exists_at_def getOriginalAndResolvedFileName_def Let_def split: if_splits)

lemma create_or_else_keeps:
  "keeps (found (genuine r)) m \<Longrightarrow> keeps (genuine_module r) m' \<Longrightarrow> keeps (genuine_module r) (create_or_else r m m')"
  unfolding create_or_else_def
  by (rule seq_found [of "genuine r"]) (auto intro: createResolvedModuleHandlingSymlink_keeps)

lemma resolve_relative_keeps: "keeps (genuine_module r) (resolve_relative r)"
  unfolding resolve_relative_def
  by (intro grow.seq_any step_intros TrueI grow.seq [OF nodeLoadModuleByRelativeName_keeps] createResolvedModule_keeps)

lemma resolveNodeLikeWorker_keeps:
  assumes "keeps (genuine_module r) self"
  shows "keeps (genuine_module r) (resolveNodeLikeWorker self r)"
  unfolding resolveNodeLikeWorker_def
  by (intro create_or_else_keeps grow.cond grow.seq_any grow.gets grow.nothing createResolvedModule_keeps
      loadModuleFromImports_keeps loadModuleFromSelfNameReference_keeps
      loadModuleFromNearestNodeModulesDirectory_keeps resolve_relative_keeps op_steps assms) auto

lemma try_without_exports_keeps:
  assumes "keeps (genuine_module r) self" and "genuine_module r m"
  shows "keeps (genuine_module r) (try_without_exports self r m)"
  unfolding try_without_exports_def
proof (rule grow.seq_any)
  show "keeps any (modify (\<lambda>s. s\<lparr>rs_features := rs_features s AND NOT NodeResolutionFeaturesExports,
      rs_extensions := priority_extensions (rs_extensions s)\<rparr>))"
    by (rule grow.modify) (auto simp: grows_def)
  show "keeps (genuine_module r) (seq (resolveNodeLikeWorker self r) (\<lambda>diagnosticResult.
       ret (if ResolvedModule_IsResolved diagnosticResult \<and> rm_IsExternalLibraryImport diagnosticResult
            then m\<lparr>rm_AlternateResult := rm_ResolvedFileName diagnosticResult\<rparr> else m)))"
    by (rule grow.seq [OF resolveNodeLikeWorker_keeps [OF assms(1)]], rule grow.ret)
      (use assms(2) in \<open>auto simp: genuine_module_def ResolvedModule_IsResolved_def\<close>)
qed

lemma resolve_node_like_step_keeps:
  assumes "keeps (genuine_module r) self"
  shows "keeps (genuine_module r) (resolve_node_like_step self r)"
  unfolding resolve_node_like_step_def
  by (rule grow.seq [OF resolveNodeLikeWorker_keeps [OF assms]])
    (auto intro!: grow.seq_any grow.gets grow.cond grow.ret try_without_exports_keeps assms simp del: run_simps)

lemma resolveNodeLike_keeps: "keeps (genuine_module r) (resolveNodeLike depth r)"
  by (induction depth) (auto simp del: run_simps intro: grow.lift resolve_node_like_step_keeps)

lemma resolve_from_typings_keeps:
  assumes "genuine_module r m"
  shows "keeps (genuine_module r) (resolve_from_typings depth r m)"
  unfolding resolve_from_typings_def
  by (rule seq_found [OF loadModuleFromImmediateNodeModulesDirectory_keeps [OF resolveNodeLike_keeps]])
    (auto intro!: grow.ret grow.seq [OF createResolvedModule_keeps] simp: assms simp del: run_simps,
     simp_all add: genuine_module_def)

lemma tryResolveFromTypingsLocation_genuine:
  assumes "tryResolveFromTypingsLocation depth r name d m cache = Inr (m', cache')" and "genuine_module r m"
  shows "genuine_module r m'"
  using assms stepsD [OF resolve_from_typings_keeps [OF assms(2)]]
  by (auto simp: tryResolveFromTypingsLocation_def answer_def split: if_splits elim!: go_bind_InrD)

lemma ResolveModuleName_genuine:
  assumes "ResolveModuleName depth r name containingFile mode redirect cache = Inr (m, cache')"
  shows "genuine_module r m"
  using assms stepsD [OF resolveNodeLike_keeps]
  by (auto simp: ResolveModuleName_def Let_def split: if_splits
      elim!: go_bind_InrD tryResolveFromTypingsLocation_genuine)

text \<open>C5. A module that was resolved exists: the file that \<open>ResolveModuleName\<close> returns, or the one it was before
  symbolic links were followed, is a file of the host, and following the links from it leads to the
  result. This holds for every request, every configuration of packages and any nesting of import maps.\<close>

theorem resolution_sound:
  assumes "ResolveModuleName depth r name containingFile mode redirect cache = Inr (m, cache')"
    and "ResolvedModule_IsResolved m"
  shows "if rm_OriginalPath m = [] then FileExists (rv_host r) (rm_ResolvedFileName m)
         else FileExists (rv_host r) (rm_OriginalPath m) \<and>
              rm_ResolvedFileName m = NormalizePath (Realpath (rv_host r) (rm_OriginalPath m))"
  using ResolveModuleName_genuine [OF assms(1)] assms(2)
  by (auto simp: genuine_module_def exists_at_def ResolvedModule_IsResolved_def realPath_def split: if_splits)

lemma resolution_sound_witness:
  "\<exists>m cache.
     ResolveModuleName 1 (sample_resolver [''/b.ts''] (\<lambda>_. no_fields)) ''./b'' ''/a.ts'' ModuleKindESNext None
       (NewInfoCache ''/'' True) = Inr (m, cache) \<and>
     rm_ResolvedFileName m = ''/b.ts'' \<and>
     FileExists (rv_host (sample_resolver [''/b.ts''] (\<lambda>_. no_fields))) (rm_ResolvedFileName m)"
proof -
  let ?r = "sample_resolver [''/b.ts''] (\<lambda>_. no_fields)"
  let ?run = "ResolveModuleName 1 ?r ''./b'' ''/a.ts'' ModuleKindESNext None (NewInfoCache ''/'' True)"
  have "case ?run of
      Inr (m, _) \<Rightarrow> rm_OriginalPath m = [] \<and> rm_ResolvedFileName m = ''/b.ts'' | Inl _ \<Rightarrow> False"
    by code_simp
  then obtain m cache where run: "?run = Inr (m, cache)"
    and m: "rm_OriginalPath m = []" "rm_ResolvedFileName m = ''/b.ts''"
    by (auto split: sum.splits)
  from m have "ResolvedModule_IsResolved m" by (simp add: ResolvedModule_IsResolved_def)
  from resolution_sound [OF run this] m run show ?thesis by simp
qed

end
