(* ===== verification/Module_View.thy ===== *)
theory Module_View
  imports Module_Sound
begin

text \<open>
  Module resolution seen through a relation on its states. The contract \<open>resolver_view\<close> says what a relation
  has to keep so that a whole resolution does: related states agree on everything but the cache of package
  descriptions, and the lookup of a description respects the relation. Two relations satisfy it. Equality
  gives that a deeper nesting bound never changes an answer; equality up to the contents of a truthful cache
  gives that the cache is transparent.
\<close>

locale resolver_view =
  fixes r :: Resolver and E :: "resolutionState \<Rightarrow> resolutionState \<Rightarrow> bool"
  assumes view:
      "E s t \<Longrightarrow> rs_name s = rs_name t \<and> rs_containingDirectory s = rs_containingDirectory t \<and>
         rs_isConfigLookup s = rs_isConfigLookup t \<and> rs_features s = rs_features t \<and>
         rs_esmMode s = rs_esmMode t \<and> rs_conditions s = rs_conditions t \<and> rs_extensions s = rs_extensions t \<and>
         rs_compilerOptions s = rs_compilerOptions t \<and>
         rs_candidateIsFromPackageJsonField s = rs_candidateIsFromPackageJsonField t \<and>
         rs_resolvedPackageDirectory s = rs_resolvedPackageDirectory t \<and>
         rs_failedLookupLocations s = rs_failedLookupLocations t \<and>
         rs_affectingLocations s = rs_affectingLocations t"
    and keep_request: "E s t \<Longrightarrow> E (s\<lparr>rs_name := n, rs_containingDirectory := d\<rparr>)
                                    (t\<lparr>rs_name := n, rs_containingDirectory := d\<rparr>)"
    and keep_mode: "E s t \<Longrightarrow> E (s\<lparr>rs_esmMode := b\<rparr>) (t\<lparr>rs_esmMode := b\<rparr>)"
    and keep_field: "E s t \<Longrightarrow> E (s\<lparr>rs_candidateIsFromPackageJsonField := b\<rparr>)
                                  (t\<lparr>rs_candidateIsFromPackageJsonField := b\<rparr>)"
    and keep_directory: "E s t \<Longrightarrow> E (s\<lparr>rs_resolvedPackageDirectory := b\<rparr>) (t\<lparr>rs_resolvedPackageDirectory := b\<rparr>)"
    and keep_flags: "E s t \<Longrightarrow> E (s\<lparr>rs_features := f, rs_extensions := e\<rparr>) (t\<lparr>rs_features := f, rs_extensions := e\<rparr>)"
    and keep_failed: "E s t \<Longrightarrow> E (rs_failedLookupLocations_update g s) (rs_failedLookupLocations_update g t)"
    and info: "refines E (getPackageJsonInfo r d b) (getPackageJsonInfo r d b)"
begin

abbreviation same :: "'a resolving \<Rightarrow> bool" where
  "same m \<equiv> refines E m m"

lemma failed [sim_intros]: "same (add_failed l)"
  unfolding add_failed_def by (rule refines_modify) (rule keep_failed)

lemmas [sim_intros] = info

lemma field [sim_intros]:
  "E s t \<Longrightarrow> rs_name s = rs_name t"
  "E s t \<Longrightarrow> rs_containingDirectory s = rs_containingDirectory t"
  "E s t \<Longrightarrow> rs_isConfigLookup s = rs_isConfigLookup t"
  "E s t \<Longrightarrow> rs_features s = rs_features t"
  "E s t \<Longrightarrow> rs_esmMode s = rs_esmMode t"
  "E s t \<Longrightarrow> rs_conditions s = rs_conditions t"
  "E s t \<Longrightarrow> rs_extensions s = rs_extensions t"
  "E s t \<Longrightarrow> rs_compilerOptions s = rs_compilerOptions t"
  "E s t \<Longrightarrow> rs_candidateIsFromPackageJsonField s = rs_candidateIsFromPackageJsonField t"
  "E s t \<Longrightarrow> rs_failedLookupLocations s = rs_failedLookupLocations t"
  "E s t \<Longrightarrow> rs_affectingLocations s = rs_affectingLocations t"
  using view [of s t] by auto

lemma option_field [sim_intros]: "E s t \<Longrightarrow> f (rs_compilerOptions s) = f (rs_compilerOptions t)"
  by (simp add: field)

subsection \<open>Files and descriptions\<close>

lemma lookup [sim_intros]: "same (tryFileLookup r f b)"
  unfolding tryFileLookup_def by (intro sim_intros)

lemma suffixes [sim_intros]: "same (try_suffixes r f n e b sfxs)"
  by (induction sfxs) (auto simp: Let_def simp del: run_simps intro: sim_intros)

lemma a_file [sim_intros]: "same (tryFile r f b)"
  unfolding tryFile_def Let_def by (intro sim_intros)

lemma extension [sim_intros]: "same (tryExtension r e l u b)"
  unfolding tryExtension_def Let_def by (intro sim_intros)

lemma adding [sim_intros]: "same (tryAddingExtensions r l e o' b)"
  unfolding tryAddingExtensions_def Let_def by (intro sim_intros)

lemma explicit_ext [sim_intros]: "same (loadModuleFromFileNoImplicitExtensions r e c b)"
  unfolding loadModuleFromFileNoImplicitExtensions_def Let_def by (intro sim_intros)

lemma from_file [sim_intros]: "same (loadModuleFromFile r e c b)"
  unfolding loadModuleFromFile_def by (intro sim_intros)

lemma from_field [sim_intros]: "same (loadFileNameFromPackageJSONField r e c v b)"
  unfolding loadFileNameFromPackageJSONField_def Let_def by (intro sim_intros)

lemma peers_loop [sim_intros]: "same (peer_dependencies_loop r n ds b)"
proof (induction ds arbitrary: b)
  case (Cons d ds)
  then show ?case by (cases d) (simp only: peer_dependencies_loop.simps, intro sim_intros)
qed (simp only: peer_dependencies_loop.simps refines_ret)

lemma peers [sim_intros]: "same (readPackageJsonPeerDependencies r d c)"
  unfolding readPackageJsonPeerDependencies_def Let_def by (intro sim_intros)

lemma package_id [sim_intros]: "same (getPackageId r f i)"
  unfolding getPackageId_def Let_def by (intro sim_intros)

lemma package_file [sim_intros]: "same (getPackageFile r e i)"
  unfolding getPackageFile_def Let_def by (intro sim_intros)

lemma conditions [sim_intros]: "same (conditionMatches r c)"
  unfolding conditionMatches_def by (intro sim_intros)

subsection \<open>Loading\<close>

lemma index [sim_intros]: "same (index_lookup r e c b)"
  unfolding index_lookup_def Let_def by (intro sim_intros)

lemma identified [sim_intros]: "same (with_package_id r x)"
  unfolding with_package_id_def by (intro sim_intros)

lemma by_name [sim_intros]: "(\<And>b. same (d b)) \<Longrightarrow> same (by_relative_name d r e c b i)"
  unfolding by_relative_name_def Let_def by (intro sim_intros)

lemma plain [sim_intros]: "same (load_without_package r e c b)"
  unfolding load_without_package_def by (intro sim_intros)

lemma substitutions [sim_intros]:
  assumes loader: "\<And>e c b. same (loader e c b)"
  shows "same (substitutions_loop r e d m loader b substs)"
proof (induction substs)
  case (Cons subst substs)
  show ?case unfolding substitutions_loop.simps Let_def by (intro sim_intros loader Cons)
qed (simp only: substitutions_loop.simps refines_ret)

lemma using_paths [sim_intros]:
  "(\<And>e c b. same (loader e c b)) \<Longrightarrow> same (tryLoadModuleUsingPaths r e m d ps pp loader b)"
  unfolding tryLoadModuleUsingPaths_def by (intro sim_intros)

lemma set_mode [sim_intros]: "same (modify (rs_esmMode_update (\<lambda>_. b)))"
  by (rule refines_modify) (rule keep_mode)

lemma set_field [sim_intros]: "same (modify (rs_candidateIsFromPackageJsonField_update (\<lambda>_. b)))"
  by (rule refines_modify) (rule keep_field)

lemma set_directory [sim_intros]: "same (modify (rs_resolvedPackageDirectory_update (\<lambda>_. b)))"
  by (rule refines_modify) (rule keep_directory)

lemma set_request [sim_intros]:
  "same (modify (\<lambda>s. s\<lparr>rs_name := n, rs_containingDirectory := d\<rparr>))"
  by (rule refines_modify) (rule keep_request)

lemma mode [sim_intros]: "same m \<Longrightarrow> same (in_package_mode i m)"
  unfolding in_package_mode_def by (intro sim_intros)

lemma loader [sim_intros]: "same (package_loader r i f e c b)"
  unfolding package_loader_def Let_def by (intro sim_intros)

lemma expect [sim_intros]: "same m \<Longrightarrow> same (expect_no_package_id m)"
  unfolding expect_no_package_id_def by (intro sim_intros)

lemma file_of [sim_intros]: "same (package_file_of r e c i)"
  unfolding package_file_of_def by (intro sim_intros)

lemma versions [sim_intros]:
  "(\<And>e c b. same (loader e c b)) \<Longrightarrow> same (from_version_paths r e c v f i loader b)"
  unfolding from_version_paths_def by (intro sim_intros)

lemma worker [sim_intros]: "same (loadNodeModuleFromDirectoryWorker r e c b i)"
  unfolding loadNodeModuleFromDirectoryWorker_def Let_def by (intro sim_intros)

lemma directory [sim_intros]: "same (loadNodeModuleFromDirectory r e c b i)"
  unfolding loadNodeModuleFromDirectory_def by (intro sim_intros)

lemma relative [sim_intros]: "same (nodeLoadModuleByRelativeName r e c b i)"
  unfolding nodeLoadModuleByRelativeName_def by (intro sim_intros)

lemma eligible [sim_intros]: "same (tryLoadModuleUsingPathsIfEligible r)"
  unfolding tryLoadModuleUsingPathsIfEligible_def by (intro sim_intros)

subsection \<open>Exports, imports and node_modules\<close>

lemma ancestors [sim_intros]:
  assumes cb: "\<And>d. refines E (cb d) (cb' d)"
  shows "refines E (ancestors_action cb d) (ancestors_action cb' d)"
proof -
  define walk where "walk cb = (\<lambda>dir st. case st of
                Inl e \<Rightarrow> ((None, True), Inl e)
              | Inr s \<Rightarrow> (case cb dir s of
                            Inl e \<Rightarrow> ((None, True), Inl e)
                          | Inr (result, s') \<Rightarrow> ((result, result \<noteq> None), Inr s')))"
    for cb :: "string \<Rightarrow> 'a option resolving"
  have panic: "ForEachAncestorDirectory (walk cb) d (Inl e) = (Some None, Inl e)" for cb d e
    by (subst ForEachAncestorDirectory.simps) (simp add: walk_def)
  have "E s t \<Longrightarrow>
      (\<exists>x. ForEachAncestorDirectory (walk cb) d (Inr s) = (x, Inl StackOverflow)) \<or>
      (\<exists>e x y. ForEachAncestorDirectory (walk cb) d (Inr s) = (x, Inl e) \<and>
               ForEachAncestorDirectory (walk cb') d (Inr t) = (y, Inl e)) \<or>
      (\<exists>x s' t'. ForEachAncestorDirectory (walk cb) d (Inr s) = (x, Inr s') \<and>
                 ForEachAncestorDirectory (walk cb') d (Inr t) = (x, Inr t') \<and> E s' t')" for s t
  proof (induction "ancestor_measure d" arbitrary: d s t rule: less_induct)
    case less
    show ?case
    proof (cases "cb d s")
      case (Inl e)
      then have left: "ForEachAncestorDirectory (walk cb) d (Inr s) = (Some None, Inl e)"
        by (subst ForEachAncestorDirectory.simps) (simp add: walk_def)
      show ?thesis
      proof (cases "e = StackOverflow")
        case False
        with refinesD [OF cb less.prems, of d] Inl have "cb' d t = Inl e" by (cases "cb' d t") auto
        then have "ForEachAncestorDirectory (walk cb') d (Inr t) = (Some None, Inl e)"
          by (subst ForEachAncestorDirectory.simps) (simp add: walk_def)
        with left show ?thesis by blast
      qed (use left in blast)
    next
      case (Inr p)
      then obtain x s1 where run: "cb d s = Inr (x, s1)" by (cases p) auto
      obtain t1 where run': "cb' d t = Inr (x, t1)" and st1: "E s1 t1"
        by (rule refinesD_Inr [OF cb less.prems run])
      show ?thesis
      proof (cases "x \<noteq> None \<or> GetDirectoryPath d = d")
        case True
        with run run'
        have "ForEachAncestorDirectory (walk cb) d (Inr s) = (if x = None then None else Some x, Inr s1)"
          "ForEachAncestorDirectory (walk cb') d (Inr t) = (if x = None then None else Some x, Inr t1)"
          by (subst ForEachAncestorDirectory.simps, auto simp: walk_def)+
        with st1 show ?thesis by blast
      next
        case False
        with run run'
        have "ForEachAncestorDirectory (walk cb) d (Inr s) = ForEachAncestorDirectory (walk cb) (GetDirectoryPath d) (Inr s1)"
          "ForEachAncestorDirectory (walk cb') d (Inr t) = ForEachAncestorDirectory (walk cb') (GetDirectoryPath d) (Inr t1)"
          by (subst ForEachAncestorDirectory.simps, simp add: walk_def)+
        with less.hyps [OF ancestor_decreases st1] False show ?thesis by simp
      qed
    qed
  qed
  note runs = this
  have action: "ancestors_action cb d s = (case ForEachAncestorDirectory (walk cb) d (Inr s) of
        (_, Inl e) \<Rightarrow> Inl e
      | (result, Inr s') \<Rightarrow> Inr (case result of Some y \<Rightarrow> y | None \<Rightarrow> None, s'))"
    for cb :: "string \<Rightarrow> 'a option resolving" and s
    by (simp add: ancestors_action_def walk_def)
  show ?thesis
    unfolding refines_def
  proof (intro allI impI)
    fix s t
    assume "E s t"
    from runs [OF this] show "ancestors_action cb d s = Inl StackOverflow \<or>
        rel_sum (=) (rel_prod (=) E) (ancestors_action cb d s) (ancestors_action cb' d t)"
      by (elim disjE exE conjE) (simp_all add: action)
  qed
qed

lemma scope_of [sim_intros]: "same (getPackageScopeForPath r d)"
  unfolding getPackageScopeForPath_def by (intro sim_intros)

lemma json_case [sim_intros]:
  "refines E g g' \<Longrightarrow> (\<And>members. v = JSONObject members \<Longrightarrow> refines E (f members) (f' members)) \<Longrightarrow>
   refines E (case v of JSONObject members \<Rightarrow> f members | _ \<Rightarrow> g) (case v of JSONObject members \<Rightarrow> f' members | _ \<Rightarrow> g')"
  by (cases v) auto

lemma package_scope [sim_intros]: "refines E m m' \<Longrightarrow> refines E (in_package_scope n d m) (in_package_scope n d m')"
  unfolding in_package_scope_def by (intro sim_intros)

lemma mapped [sim_intros]:
  "refines E self self' \<Longrightarrow> refines E (load_mapped_package self l d) (load_mapped_package self' l d)"
  unfolding load_mapped_package_def by (intro sim_intros)

lemma package_file_target [sim_intros]: "same (load_package_file r e i m t sp p)"
  unfolding load_package_file_def Let_def tryLoadInputFileForPath_def by (intro sim_intros)

lemma string_target [sim_intros]:
  "refines E self self' \<Longrightarrow> refines E (load_string_target self r e i m t sp p) (load_string_target self' r e i m t sp p)"
  unfolding load_string_target_def by (intro sim_intros)

lemma target:
  shows "r0 = r \<Longrightarrow> refines E self self' \<Longrightarrow>
         refines E (loadModuleFromTargetExportOrImport self r0 e i m sp p v)
           (loadModuleFromTargetExportOrImport self' r0 e i m sp p v)"
    and "r0 = r \<Longrightarrow> refines E self self' \<Longrightarrow>
         refines E (load_conditions self r0 e i m sp p members) (load_conditions self' r0 e i m sp p members)"
    and "r0 = r \<Longrightarrow> refines E self self' \<Longrightarrow>
         refines E (load_elements self r0 e i m sp p elements) (load_elements self' r0 e i m sp p elements)"
proof (induction self r0 e i m sp p v and self r0 e i m sp p members and self r0 e i m sp p elements
    rule: loadModuleFromTargetExportOrImport_load_conditions_load_elements.induct)
  case (1 self r0 ext scope isImports subpath isPattern targetString)
  then show ?case unfolding loadModuleFromTargetExportOrImport.simps by (auto intro: string_target)
next
  case (6 self r0 ext scope isImports subpath isPattern condition subTarget members)
  from 6 have c: "same (conditionMatches r0 condition)" by (auto intro: conditions)
  from 6 show ?case unfolding load_conditions.simps by (intro sim_intros c) auto
next
  case (8 self r0 ext scope isImports subpath isPattern elem elements)
  then show ?case unfolding load_elements.simps by (intro sim_intros) auto
qed (simp_all only: loadModuleFromTargetExportOrImport.simps load_conditions.simps load_elements.simps refines_ret)

lemmas [sim_intros] = target(1) [OF refl]

lemma expanding [sim_intros]:
  assumes self: "refines E self self'"
  shows "refines E (expanding_loop self r e n t i m keys) (expanding_loop self' r e n t i m keys)"
proof (induction keys)
  case (Cons key keys)
  show ?case unfolding expanding_loop.simps by (intro sim_intros self Cons)
qed (simp only: expanding_loop.simps refines_ret)

lemma table [sim_intros]:
  "refines E self self' \<Longrightarrow>
   refines E (loadModuleFromExportsOrImports self r e n t i m) (loadModuleFromExportsOrImports self' r e n t i m)"
  unfolding loadModuleFromExportsOrImports_def Let_def by (intro sim_intros)

lemma exports [sim_intros]:
  "refines E self self' \<Longrightarrow> refines E (loadModuleFromExports self r i e sp) (loadModuleFromExports self' r i e sp)"
  unfolding loadModuleFromExports_def Let_def by (intro sim_intros)

lemma by_imports [sim_intros]:
  "refines E self self' \<Longrightarrow> refines E (loadModuleFromImports self r) (loadModuleFromImports self' r)"
  unfolding loadModuleFromImports_def by (intro sim_intros)

lemma self_name [sim_intros]:
  "refines E self self' \<Longrightarrow>
   refines E (loadModuleFromSelfNameReference self r) (loadModuleFromSelfNameReference self' r)"
  unfolding loadModuleFromSelfNameReference_def by (intro sim_intros)

lemma with_directory [sim_intros]: "same m \<Longrightarrow> same (with_package_directory r d i m)"
  unfolding with_package_directory_def by (intro sim_intros)

lemma modules_loader [sim_intros]: "same (node_modules_loader r rest d i e c b)"
  unfolding node_modules_loader_def by (intro sim_intros)

lemma nested [sim_intros]: "same (load_nested_package r e c rest d b i)"
  unfolding load_nested_package_def by (intro sim_intros)

lemma by_versions [sim_intros]:
  "(\<And>e c b. same (loader e c b)) \<Longrightarrow> same (load_from_versions r e rest d b i loader)"
  unfolding load_from_versions_def by (intro sim_intros)

lemma package [sim_intros]:
  "refines E self self' \<Longrightarrow>
   refines E (load_from_package self r e c rest d b i) (load_from_package self' r e c rest d b i)"
  unfolding load_from_package_def Let_def by (intro sim_intros)

lemma specific [sim_intros]:
  "refines E self self' \<Longrightarrow>
   refines E (loadModuleFromSpecificNodeModulesDirectory self r e n d b)
     (loadModuleFromSpecificNodeModulesDirectory self' r e n d b)"
  unfolding loadModuleFromSpecificNodeModulesDirectory_def Let_def by (intro sim_intros)

lemma immediate [sim_intros]:
  "refines E self self' \<Longrightarrow>
   refines E (loadModuleFromImmediateNodeModulesDirectory self r e d b)
     (loadModuleFromImmediateNodeModulesDirectory self' r e d b)"
  unfolding loadModuleFromImmediateNodeModulesDirectory_def Let_def by (intro sim_intros)

lemma nearest [sim_intros]:
  "refines E self self' \<Longrightarrow>
   refines E (loadModuleFromNearestNodeModulesDirectory self r b)
     (loadModuleFromNearestNodeModulesDirectory self' r b)"
  unfolding loadModuleFromNearestNodeModulesDirectory_def loadModuleFromNearestNodeModulesDirectoryWorker_def
  by (intro sim_intros)

subsection \<open>Results\<close>

lemma create [sim_intros]: "same (createResolvedModule x b)"
  unfolding createResolvedModule_def Let_def by (intro sim_intros)

lemma create_symlink [sim_intros]: "same (createResolvedModuleHandlingSymlink r x)"
  unfolding createResolvedModuleHandlingSymlink_def Let_def by (intro sim_intros)

lemma create_else [sim_intros]:
  "refines E m m' \<Longrightarrow> refines E f f' \<Longrightarrow> refines E (create_or_else r m f) (create_or_else r m' f')"
  unfolding create_or_else_def by (intro sim_intros)

lemma resolve_rel [sim_intros]: "same (resolve_relative r)"
  unfolding resolve_relative_def by (intro sim_intros)

lemma node_like_worker [sim_intros]:
  "refines E self self' \<Longrightarrow> refines E (resolveNodeLikeWorker self r) (resolveNodeLikeWorker self' r)"
  unfolding resolveNodeLikeWorker_def by (intro sim_intros)

lemma set_flags [sim_intros]:
  "same (modify (\<lambda>s. s\<lparr>rs_features := rs_features s AND NOT NodeResolutionFeaturesExports,
                     rs_extensions := priority_extensions (rs_extensions s)\<rparr>))"
proof (rule refines_modify)
  fix s t
  assume st: "E s t"
  show "E (s\<lparr>rs_features := rs_features s AND NOT NodeResolutionFeaturesExports,
             rs_extensions := priority_extensions (rs_extensions s)\<rparr>)
          (t\<lparr>rs_features := rs_features t AND NOT NodeResolutionFeaturesExports,
             rs_extensions := priority_extensions (rs_extensions t)\<rparr>)"
    using keep_flags [OF st] view [OF st] by simp
qed

lemma second_pass [sim_intros]: "E s t \<Longrightarrow> needs_second_pass m s = needs_second_pass m t"
  using view [of s t] by (simp add: needs_second_pass_def)

lemma node_like_step [sim_intros]:
  "refines E self self' \<Longrightarrow> refines E (resolve_node_like_step self r) (resolve_node_like_step self' r)"
  unfolding resolve_node_like_step_def try_without_exports_def by (intro sim_intros)

lemma node_like [sim_intros]: "depth \<le> depth' \<Longrightarrow> refines E (resolveNodeLike depth r) (resolveNodeLike depth' r)"
proof (induction depth arbitrary: depth')
  case (Suc depth)
  then show ?case by (cases depth') (auto intro: node_like_step)
qed (simp only: resolveNodeLike.simps refines_overflow)

lemma typings [sim_intros]: "depth \<le> depth' \<Longrightarrow> refines E (resolve_from_typings depth r m) (resolve_from_typings depth' r m)"
  unfolding resolve_from_typings_def by (intro sim_intros)

lemma directive [sim_intros]: "same (createResolvedTypeReferenceDirective r x p)"
  unfolding createResolvedTypeReferenceDirective_def Let_def by (intro sim_intros)

lemma type_reference [sim_intros]:
  "refines E self self' \<Longrightarrow>
   refines E (resolveTypeReferenceDirective self r roots c i) (resolveTypeReferenceDirective self' r roots c i)"
  unfolding resolveTypeReferenceDirective_def load_from_type_root_def secondary_lookup_def Let_def
  by (intro sim_intros)

end

end
