(* ===== verification/Module_Cache.thy ===== *)
theory Module_Cache
  imports Module_View
begin

text \<open>
  Module resolution: the two relations that satisfy \<open>resolver_view\<close>, and what they give. A cache is
  truthful when it says of every directory what the host says; a host is coherent when paths that
  \<open>ToPath\<close> identifies hold the same file, and a directory with a package description exists.
\<close>

section \<open>The nesting bound\<close>

lemma refines_refl: "refines (=) m m"
  by (auto simp: refines_def sum.rel_eq prod.rel_eq)

interpretation stable: resolver_view r "(=)" for r
  by unfold_locales (auto intro: refines_refl)

lemma nesting_step:
  assumes "refines (=) m m'" and "m s \<noteq> Inl StackOverflow"
  shows "m' s = m s"
  using refinesD [OF assms(1) refl assms(2)] by (simp add: sum.rel_eq prod.rel_eq)

section \<open>Truthful caches\<close>

abbreviation package_json :: "string \<Rightarrow> string" where
  "package_json d \<equiv> CombinePaths d [''package.json'']"

definition key_of :: "Host \<Rightarrow> string \<Rightarrow> string" where
  "key_of h f = ToPath (host_lower h) f (GetCurrentDirectory h) (caseSensitive h)"

definition coherent_host :: "Host \<Rightarrow> bool" where
  "coherent_host h =
     ((\<forall>f g. key_of h f = key_of h g \<longrightarrow> FileExists h f = FileExists h g \<and> ReadFile h f = ReadFile h g) \<and>
      (\<forall>d. FileExists h (package_json d) \<longrightarrow> DirectoryExists h d))"

definition described :: "Host \<Rightarrow> string \<Rightarrow> Fields option" where
  "described h d =
     (if FileExists h (package_json d) then Some (packagejson_Parse h (fst (ReadFile h (package_json d))))
      else None)"

definition truthful :: "Host \<Rightarrow> InfoCache \<Rightarrow> bool" where
  "truthful h cache =
     (ic_currentDirectory cache = GetCurrentDirectory h \<and> ic_useCaseSensitiveFileNames cache = caseSensitive h \<and>
      (\<forall>d entry. InfoCache_Get (host_lower h) cache (package_json d) = Some entry \<longrightarrow>
         ice_Contents entry = described h d \<and> (ice_Contents entry \<noteq> None \<longrightarrow> ice_DirectoryExists entry)))"

lemma truthful_new: "truthful h (NewInfoCache (GetCurrentDirectory h) (caseSensitive h))"
  by (simp add: truthful_def NewInfoCache_def InfoCache_Get_def)

lemma truthful_set:
  assumes "coherent_host h" and "truthful h cache" and "ice_Contents entry = described h d"
    and "ice_Contents entry \<noteq> None \<Longrightarrow> ice_DirectoryExists entry"
  shows "truthful h (InfoCache_Set (host_lower h) cache (package_json d) entry)"
proof -
  have "described h d' = described h d" if "key_of h (package_json d') = key_of h (package_json d)" for d'
  proof -
    have "FileExists h (package_json d') = FileExists h (package_json d) \<and>
        ReadFile h (package_json d') = ReadFile h (package_json d)"
      using assms(1) that unfolding coherent_host_def by blast
    then show ?thesis by (simp add: described_def)
  qed
  note same = this
  have "ice_Contents e = described h d' \<and> (ice_Contents e \<noteq> None \<longrightarrow> ice_DirectoryExists e)"
    if get: "InfoCache_Get (host_lower h) (InfoCache_Set (host_lower h) cache (package_json d) entry) (package_json d') = Some e"
    for d' e
  proof (cases "key_of h (package_json d') = key_of h (package_json d)")
    case True
    with get assms(2) have "e = entry" by (simp add: InfoCache_Get_def InfoCache_Set_def key_of_def truthful_def)
    with same [OF True] assms(3,4) show ?thesis by simp
  next
    case False
    with get assms(2) have "InfoCache_Get (host_lower h) cache (package_json d') = Some e"
      by (simp add: InfoCache_Get_def InfoCache_Set_def key_of_def truthful_def)
    with assms(2) show ?thesis by (simp add: truthful_def)
  qed
  with assms(2) show ?thesis by (simp add: truthful_def InfoCache_Set_def)
qed

definition without_cache :: "resolutionState \<Rightarrow> resolutionState" where
  "without_cache s = s\<lparr>rs_packageJsonInfoCache := NewInfoCache [] False\<rparr>"

definition cache_equal :: "Resolver \<Rightarrow> resolutionState \<Rightarrow> resolutionState \<Rightarrow> bool" where
  "cache_equal r s t =
     (without_cache s = without_cache t \<and> coherent_host (rv_host r) \<and>
      truthful (rv_host r) (rs_packageJsonInfoCache s) \<and> truthful (rv_host r) (rs_packageJsonInfoCache t))"

lemma without_cache_iff:
  "without_cache s = without_cache t \<longleftrightarrow>
     rs_name s = rs_name t \<and> rs_containingDirectory s = rs_containingDirectory t \<and>
     rs_isConfigLookup s = rs_isConfigLookup t \<and> rs_features s = rs_features t \<and>
     rs_esmMode s = rs_esmMode t \<and> rs_conditions s = rs_conditions t \<and> rs_extensions s = rs_extensions t \<and>
     rs_compilerOptions s = rs_compilerOptions t \<and>
     rs_candidateIsFromPackageJsonField s = rs_candidateIsFromPackageJsonField t \<and>
     rs_resolvedPackageDirectory s = rs_resolvedPackageDirectory t \<and>
     rs_failedLookupLocations s = rs_failedLookupLocations t \<and>
     rs_affectingLocations s = rs_affectingLocations t"
  by (cases s; cases t) (simp add: without_cache_def)

text \<open>With a truthful cache the lookup of a description is a function of the host.\<close>

definition info_of :: "Host \<Rightarrow> string \<Rightarrow> InfoCacheEntry option" where
  "info_of h d =
     (case described h d of
        None \<Rightarrow> None
      | Some contents \<Rightarrow>
          Some \<lparr>ice_PackageDirectory = d, ice_DirectoryExists = True, ice_Contents = Some contents\<rparr>)"

definition noted :: "Host \<Rightarrow> string \<Rightarrow> InfoCache \<Rightarrow> resolutionState \<Rightarrow> resolutionState" where
  "noted h d cache s =
     (if described h d = None
      then s\<lparr>rs_failedLookupLocations := rs_failedLookupLocations s @ [package_json d],
             rs_packageJsonInfoCache := cache\<rparr>
      else s\<lparr>rs_affectingLocations := rs_affectingLocations s @ [package_json d],
             rs_packageJsonInfoCache := cache\<rparr>)"

lemma noted_same:
  assumes "described h d = Some contents"
  shows "noted h d (rs_packageJsonInfoCache s) s = rs_affectingLocations_update (\<lambda>ls. ls @ [package_json d]) s"
proof -
  have "noted h d (rs_packageJsonInfoCache s) s =
      s\<lparr>rs_affectingLocations := rs_affectingLocations s @ [package_json d],
        rs_packageJsonInfoCache := rs_packageJsonInfoCache s\<rparr>"
    using assms by (simp only: noted_def option.distinct if_False)
  also have "\<dots> = rs_affectingLocations_update (\<lambda>ls. ls @ [package_json d]) s"
    by (cases s) (simp only: resolutionState.simps)
  finally show ?thesis .
qed

lemma getPackageJsonInfo_truthful:
  assumes "coherent_host (rv_host r)" and "truthful (rv_host r) (rs_packageJsonInfoCache s)"
  obtains cache where "truthful (rv_host r) cache"
    and "getPackageJsonInfo r d False s = Inr (info_of (rv_host r) d, noted (rv_host r) d cache s)"
proof (cases "InfoCache_Get (host_lower (rv_host r)) (rs_packageJsonInfoCache s) (package_json d)")
  case (Some entry)
  with assms(2) have entry: "ice_Contents entry = described (rv_host r) d"
    "ice_Contents entry \<noteq> None \<longrightarrow> ice_DirectoryExists entry"
    by (auto simp: truthful_def)
  have "getPackageJsonInfo r d False s =
      Inr (info_of (rv_host r) d, noted (rv_host r) d (rs_packageJsonInfoCache s) s)"
  proof (cases "described (rv_host r) d")
    case None
    with Some entry show ?thesis
      by (simp add: getPackageJsonInfo_def Let_def info_of_def noted_def add_failed_def)
  next
    case (Some contents)
    with entry obtain pd where "entry = \<lparr>ice_PackageDirectory = pd, ice_DirectoryExists = True,
        ice_Contents = Some contents\<rparr>" by (cases entry) simp
    note e = this
    have get: "InfoCache_Get (host_lower (rv_host r)) (rs_packageJsonInfoCache s) (package_json d) =
        Some \<lparr>ice_PackageDirectory = pd, ice_DirectoryExists = True, ice_Contents = Some contents\<rparr>"
      using \<open>InfoCache_Get _ _ _ = Some entry\<close> by (simp only: e)
    have "getPackageJsonInfo r d False s =
      Inr (info_of (rv_host r) d, rs_affectingLocations_update (\<lambda>ls. ls @ [package_json d]) s)"
      by (cases "pd = d") (simp_all add: getPackageJsonInfo_def info_of_def add_affecting_def Some get Let_def)
    then show ?thesis using Some by (simp only: noted_same)
  qed
  with assms(2) that show ?thesis by blast
next
  case None
  let ?h = "rv_host r"
  let ?entry = "\<lparr>ice_PackageDirectory = d, ice_DirectoryExists = DirectoryExists ?h d, ice_Contents = described ?h d\<rparr>"
  define cache where "cache = (if ic_IsReadonly (rs_packageJsonInfoCache s) then rs_packageJsonInfoCache s
                 else InfoCache_Set (host_lower ?h) (rs_packageJsonInfoCache s) (package_json d) ?entry)"
  from assms(1) have exists: "FileExists ?h (package_json d) \<Longrightarrow> DirectoryExists ?h d"
    unfolding coherent_host_def by blast
  have "truthful ?h cache"
    using truthful_set [OF assms, of ?entry d] exists assms(2)
    by (auto simp: cache_def described_def split: if_splits)
  moreover have "getPackageJsonInfo r d False s = Inr (info_of ?h d, noted ?h d cache s)"
  proof (cases "FileExists ?h (package_json d)")
    case True
    with None exists show ?thesis
      by (simp add: getPackageJsonInfo_def Let_def info_of_def noted_def described_def set_cache_def
          add_affecting_def cache_def)
  next
    case False
    with None show ?thesis
      by (simp add: getPackageJsonInfo_def Let_def info_of_def noted_def described_def set_cache_def
          add_failed_def cache_def)
  qed
  ultimately show ?thesis by (rule that)
qed

interpretation cached: resolver_view r "cache_equal r" for r
proof unfold_locales
  fix d b
  show "refines (cache_equal r) (getPackageJsonInfo r d b) (getPackageJsonInfo r d b)"
  proof (cases b)
    case True
    then show ?thesis
      by (simp add: refines_def getPackageJsonInfo_def add_failed_def cache_equal_def without_cache_iff)
  next
    case False
    show ?thesis
      unfolding refines_def
    proof (intro allI impI)
      fix s t
      assume st: "cache_equal r s t"
      then have h: "coherent_host (rv_host r)" "truthful (rv_host r) (rs_packageJsonInfoCache s)"
        "truthful (rv_host r) (rs_packageJsonInfoCache t)"
        by (auto simp: cache_equal_def)
      obtain c where c: "truthful (rv_host r) c"
        "getPackageJsonInfo r d False s = Inr (info_of (rv_host r) d, noted (rv_host r) d c s)"
        by (rule getPackageJsonInfo_truthful [OF h(1,2)])
      obtain c' where c': "truthful (rv_host r) c'"
        "getPackageJsonInfo r d False t = Inr (info_of (rv_host r) d, noted (rv_host r) d c' t)"
        by (rule getPackageJsonInfo_truthful [OF h(1,3)])
      from st c(1) c'(1) have "cache_equal r (noted (rv_host r) d c s) (noted (rv_host r) d c' t)"
        by (simp add: cache_equal_def without_cache_iff noted_def)
      with c c' False show "getPackageJsonInfo r d b s = Inl StackOverflow \<or>
          rel_sum (=) (rel_prod (=) (cache_equal r)) (getPackageJsonInfo r d b s) (getPackageJsonInfo r d b t)"
        by simp
    qed
  qed
qed (auto simp: cache_equal_def without_cache_iff)

end
