(* ===== verification/Module_Stack.thy ===== *)
theory Module_Stack
  imports Module_Cache
begin

text \<open>
  Module resolution: which operations stay within the stack. Only the resolution of an import map starts
  another resolution, so nothing that is not reached through \<open>loadModuleFromImports\<close> can run out of stack.
\<close>

section \<open>Library and package descriptions\<close>

lemma patterns_in_stack [stack_intros]:
  "go_in_stack (Pattern_Matches p c)"
  "go_in_stack (Pattern_MatchedText p c)"
proof -
  show m: "go_in_stack (Pattern_Matches p c)" unfolding Pattern_Matches_def by (intro stack_intros)
  show "go_in_stack (Pattern_MatchedText p c)" unfolding Pattern_MatchedText_def by (intro stack_intros m)
qed

lemma best_in_stack [stack_intros]: "go_in_stack (FindBest_loop g c best longest vs)"
proof (induction vs arbitrary: best longest)
  case (Cons v vs)
  then show ?case unfolding FindBest_loop.simps Let_def by (intro stack_intros)
qed (simp only: FindBest_loop.simps stack_intros)

lemma exact_in_stack [stack_intros]: "go_in_stack (MatchPatternOrExact ps c)"
  unfolding MatchPatternOrExact_def FindBestPatternMatch_def by (intro stack_intros)

lemma ranges_in_stack [stack_intros]:
  "go_in_stack (TryParseVersionRange s)" "go_in_stack (GetVersionPaths v p)"
  using TryParseVersionRange_total [of s] GetVersionPaths_total [of v p] by (auto simp: go_in_stack_def)

lemma names_in_stack [stack_intros]:
  "go_in_stack (moveToNextDirectorySeparatorIfAvailable p i b)"
  "go_in_stack (ParsePackageName n)"
  "go_in_stack (MangleScopedPackageName n)"
  "go_in_stack (RemoveExtension f e)"
  "go_in_stack (normalizePathForCJSResolution d n)"
  "go_in_stack (GetRelativePathFromDirectory orb d n opt)"
  "go_in_stack (match_expanding fs k n)"
  unfolding moveToNextDirectorySeparatorIfAvailable_def ParsePackageName_def MangleScopedPackageName_def
    RemoveExtension_def normalizePathForCJSResolution_def GetRelativePathFromDirectory_def match_expanding_def Let_def
  by (intro stack_intros)+

lemma node_module_in_stack [stack_intros]: "go_in_stack (ParseNodeModuleFromPath p b)"
  unfolding ParseNodeModuleFromPath_def Let_def by (intro stack_intros)

section \<open>Files and directories\<close>

lemma add_in_stack [stack_intros]: "in_stack (add_failed l)" "in_stack (add_affecting l)" "in_stack (set_cache r p i)"
  unfolding add_failed_def add_affecting_def set_cache_def by (intro stack_intros)+

lemma lookup_in_stack [stack_intros]: "in_stack (tryFileLookup r f b)"
  unfolding tryFileLookup_def by (intro stack_intros)

lemma suffixes_in_stack [stack_intros]: "in_stack (try_suffixes r f n e b sfxs)"
  by (induction sfxs) (auto simp: Let_def simp del: run_simps intro: stack_intros)

lemma file_in_stack [stack_intros]: "in_stack (tryFile r f b)"
  unfolding tryFile_def Let_def by (intro stack_intros)

lemma from_file_in_stack [stack_intros]: "in_stack (loadModuleFromFile r e c b)" "in_stack (loadFileNameFromPackageJSONField r e c v b)"
  unfolding loadModuleFromFile_def loadFileNameFromPackageJSONField_def loadModuleFromFileNoImplicitExtensions_def
    tryAddingExtensions_def tryExtension_def Let_def
  by (intro stack_intros)+

lemma info_in_stack [stack_intros]: "in_stack (getPackageJsonInfo r d b)"
  unfolding getPackageJsonInfo_def Let_def by (intro stack_intros)

lemma peers_in_stack [stack_intros]: "in_stack (peer_dependencies_loop r n ds b)"
proof (induction ds arbitrary: b)
  case (Cons d ds)
  then show ?case by (cases d) (simp only: peer_dependencies_loop.simps, intro stack_intros)
qed (simp only: peer_dependencies_loop.simps stack_intros)

lemma id_in_stack [stack_intros]: "in_stack (getPackageId r f i)"
  unfolding getPackageId_def readPackageJsonPeerDependencies_def Let_def by (intro stack_intros)

lemma package_file_in_stack [stack_intros]: "in_stack (package_file_of r e c i)"
  unfolding package_file_of_def getPackageFile_def Let_def by (intro stack_intros)

lemma ancestors_in_stack [stack_intros]:
  assumes cb: "\<And>d. in_stack (cb d)"
  shows "in_stack (ancestors_action cb d)"
proof -
  let ?walk = "\<lambda>dir st. case st of
                Inl e \<Rightarrow> ((None, True), Inl e)
              | Inr s \<Rightarrow> (case cb dir s of
                            Inl e \<Rightarrow> ((None, True), Inl e)
                          | Inr (result, s') \<Rightarrow> ((result, result \<noteq> None), Inr s'))"
  have "st \<noteq> Inl StackOverflow \<Longrightarrow> snd (ForEachAncestorDirectory ?walk d st) \<noteq> Inl StackOverflow" for d st
  proof (induction "ancestor_measure d" arbitrary: d st rule: less_induct)
    case less
    obtain res stop st' where walk: "?walk d st = ((res, stop), st')" by (cases "?walk d st") auto
    have st': "st' \<noteq> Inl StackOverflow"
    proof (cases st)
      case (Inl e)
      with walk less.prems show ?thesis by auto
    next
      case (Inr s)
      with walk cb [of d] show ?thesis by (auto simp: in_stack_def split: sum.splits prod.splits)
    qed
    show ?case
    proof (cases "stop \<or> GetDirectoryPath d = d")
      case True
      with walk st' show ?thesis by (subst ForEachAncestorDirectory.simps) auto
    next
      case False
      with walk have "ForEachAncestorDirectory ?walk d st = ForEachAncestorDirectory ?walk (GetDirectoryPath d) st'"
        by (subst ForEachAncestorDirectory.simps) auto
      with less.hyps [OF ancestor_decreases st'] False show ?thesis by simp
    qed
  qed
  note walks = this
  show ?thesis
    unfolding in_stack_def
  proof
    fix s
    show "ancestors_action cb d s \<noteq> Inl StackOverflow"
      using walks [of "Inr s" d] by (auto simp: ancestors_action_def split: prod.splits sum.splits)
  qed
qed

lemma scope_in_stack [stack_intros]: "in_stack (getPackageScopeForPath r d)"
  unfolding getPackageScopeForPath_def by (intro stack_intros)

lemma conditions_in_stack [stack_intros]: "in_stack (conditionMatches r c)"
proof -
  have "in_stack (seq (lift_go (TryParseVersionRange s)) (\<lambda>(versionRange, ok).
           if ok then lift_go (VersionRange_Test versionRange v) else ret False))" for s v
    by (rule range_never_panics [of s v]) (auto simp: in_stack_def)
  note test = this
  show ?thesis unfolding conditionMatches_def by (intro in_stack_seq stack_intros(12) in_stack_cond test stack_intros)
qed

section \<open>Loading\<close>

lemma index_in_stack [stack_intros]: "in_stack (index_lookup r e c b)"
  unfolding index_lookup_def Let_def by (intro stack_intros)

lemma by_name_in_stack [stack_intros]: "(\<And>b. in_stack (d b)) \<Longrightarrow> in_stack (by_relative_name d r e c b i)"
  unfolding by_relative_name_def with_package_id_def Let_def by (intro stack_intros)

lemma substitutions_in_stack [stack_intros]:
  assumes loader: "\<And>e c b. in_stack (loader e c b)"
  shows "in_stack (substitutions_loop r e d m loader b substs)"
proof (induction substs)
  case (Cons subst substs)
  show ?case unfolding substitutions_loop.simps Let_def by (intro stack_intros loader Cons)
qed (simp only: substitutions_loop.simps stack_intros)

lemma using_paths_in_stack [stack_intros]:
  "(\<And>e c b. in_stack (loader e c b)) \<Longrightarrow> in_stack (tryLoadModuleUsingPaths r e m d ps pp loader b)"
  unfolding tryLoadModuleUsingPaths_def by (intro stack_intros)

lemma loader_in_stack [stack_intros]: "in_stack (package_loader r i f e c b)"
  unfolding package_loader_def in_package_mode_def load_without_package_def Let_def by (intro stack_intros)

lemma expect_in_stack [stack_intros]: "in_stack m \<Longrightarrow> in_stack (expect_no_package_id m)"
  unfolding expect_no_package_id_def by (intro stack_intros)

lemma worker_in_stack [stack_intros]: "in_stack (loadNodeModuleFromDirectoryWorker r e c b i)"
  unfolding loadNodeModuleFromDirectoryWorker_def from_version_paths_def Let_def by (intro stack_intros)

lemma relative_in_stack [stack_intros]: "in_stack (nodeLoadModuleByRelativeName r e c b i)"
  unfolding nodeLoadModuleByRelativeName_def loadNodeModuleFromDirectory_def by (intro stack_intros)

lemma eligible_in_stack [stack_intros]: "in_stack (tryLoadModuleUsingPathsIfEligible r)"
  unfolding tryLoadModuleUsingPathsIfEligible_def by (intro stack_intros)

text \<open>The exports of a package never start another resolution.\<close>

lemma string_target_in_stack [stack_intros]: "in_stack (load_string_target self r e i False t sp p)"
  unfolding load_string_target_def load_package_file_def tryLoadInputFileForPath_def Let_def
  by (intro stack_intros) simp

lemma target_in_stack:
  "\<not> m \<Longrightarrow> in_stack (loadModuleFromTargetExportOrImport self r e i m sp p v)"
  "\<not> m \<Longrightarrow> in_stack (load_conditions self r e i m sp p members)"
  "\<not> m \<Longrightarrow> in_stack (load_elements self r e i m sp p elements)"
proof (induction self r e i m sp p v and self r e i m sp p members and self r e i m sp p elements
    rule: loadModuleFromTargetExportOrImport_load_conditions_load_elements.induct)
  case (1 self r ext scope isImports subpath isPattern targetString)
  then show ?case by (simp add: string_target_in_stack)
next
  case (6 self r ext scope isImports subpath isPattern condition subTarget members)
  then show ?case unfolding load_conditions.simps by (intro stack_intros)
next
  case (8 self r ext scope isImports subpath isPattern elem elements)
  then show ?case unfolding load_elements.simps by (intro stack_intros)
qed (simp_all only: loadModuleFromTargetExportOrImport.simps load_conditions.simps load_elements.simps stack_intros simp_thms)

lemma expanding_in_stack [stack_intros]: "in_stack (expanding_loop self r e n t i False keys)"
proof (induction keys)
  case (Cons key keys)
  then show ?case unfolding expanding_loop.simps by (intro stack_intros target_in_stack) auto
qed (simp only: expanding_loop.simps stack_intros)

lemma in_stack_json [stack_intros]:
  "in_stack g \<Longrightarrow> (\<And>members. v = JSONObject members \<Longrightarrow> in_stack (f members)) \<Longrightarrow>
   in_stack (case v of JSONObject members \<Rightarrow> f members | _ \<Rightarrow> g)"
  by (cases v) auto

lemma exports_in_stack [stack_intros]: "in_stack (loadModuleFromExports self r i e sp)"
  unfolding loadModuleFromExports_def loadModuleFromExportsOrImports_def Let_def
  by (intro stack_intros target_in_stack) auto

lemma self_name_in_stack [stack_intros]: "in_stack (loadModuleFromSelfNameReference self r)"
  unfolding loadModuleFromSelfNameReference_def by (intro stack_intros)

lemma modules_loader_in_stack [stack_intros]: "in_stack (node_modules_loader r rest d i e c b)"
  unfolding node_modules_loader_def with_package_directory_def by (intro stack_intros)

lemma immediate_in_stack [stack_intros]: "in_stack (loadModuleFromImmediateNodeModulesDirectory self r e d b)"
  unfolding loadModuleFromImmediateNodeModulesDirectory_def loadModuleFromSpecificNodeModulesDirectory_def
    load_from_package_def load_from_versions_def load_nested_package_def with_package_directory_def Let_def
  by (intro stack_intros)

lemma nearest_in_stack [stack_intros]: "in_stack (loadModuleFromNearestNodeModulesDirectory self r b)"
  unfolding loadModuleFromNearestNodeModulesDirectory_def loadModuleFromNearestNodeModulesDirectoryWorker_def
  by (intro stack_intros)

lemma create_in_stack [stack_intros]: "in_stack (createResolvedModule x b)"
  unfolding createResolvedModule_def Let_def by (intro stack_intros)

lemma create_else_in_stack [stack_intros]: "in_stack m \<Longrightarrow> in_stack f \<Longrightarrow> in_stack (create_or_else r m f)"
  unfolding create_or_else_def createResolvedModuleHandlingSymlink_def Let_def by (intro stack_intros)

lemma resolve_relative_in_stack [stack_intros]: "in_stack (resolve_relative r)"
  unfolding resolve_relative_def by (intro stack_intros)

section \<open>Resolutions that are not of an import map\<close>

lemma create_or_else_nothing: "create_or_else r (ret None) f = f"
  by (rule ext) (simp add: create_or_else_def)

lemma worker_without_imports:
  assumes "\<not> HasPrefix (rs_name s) ''#''"
  shows "resolveNodeLikeWorker self r s \<noteq> Inl StackOverflow"
proof (cases "tryLoadModuleUsingPathsIfEligible r s")
  case (Inl e)
  with eligible_in_stack [of r] show ?thesis
    by (auto simp: resolveNodeLikeWorker_def create_or_else_def in_stack_def)
next
  case (Inr p)
  then obtain x s1 where run: "tryLoadModuleUsingPathsIfEligible r s = Inr (x, s1)" by (cases p) auto
  from stepsD [OF tryLoadModuleUsingPathsIfEligible_keeps run] assms
  have name: "\<not> HasPrefix (rs_name s1) ''#''" by (simp add: grows_def)
  show ?thesis
  proof (cases x)
    case None
    let ?rest = "seq (gets rs_features) (\<lambda>features.
             create_or_else r
              (if has_flag features NodeResolutionFeaturesSelfName
               then loadModuleFromSelfNameReference self r else ret None)
              (if Contains (rs_name s1) '':'' then createResolvedModule None False
               else create_or_else r (loadModuleFromNearestNodeModulesDirectory self r False)
                      (createResolvedModule None False)))"
    have "in_stack ?rest" by (intro stack_intros)
    moreover have "in_stack (resolve_relative r)" by (intro stack_intros)
    ultimately show ?thesis
      using run None name
      by (simp add: resolveNodeLikeWorker_def create_or_else_def [of r "tryLoadModuleUsingPathsIfEligible r"]
          create_or_else_nothing in_stack_def)
  next
    case (Some y)
    have "in_stack (createResolvedModuleHandlingSymlink r y)"
      unfolding createResolvedModuleHandlingSymlink_def Let_def by (intro stack_intros)
    with run Some show ?thesis by (simp add: resolveNodeLikeWorker_def create_or_else_def in_stack_def)
  qed
qed

lemma worker_name:
  "resolveNodeLikeWorker (resolveNodeLike depth r) r s = Inr (m, s') \<Longrightarrow> rs_name s' = rs_name s"
  using stepsD [OF resolveNodeLikeWorker_keeps [OF resolveNodeLike_keeps]] by (simp add: grows_def)

lemma resolveNodeLike_in_stack:
  assumes "\<not> HasPrefix (rs_name s) ''#''"
  shows "resolveNodeLike (Suc depth) r s \<noteq> Inl StackOverflow"
proof (cases "resolveNodeLikeWorker (resolveNodeLike depth r) r s")
  case (Inl e)
  with worker_without_imports [OF assms] show ?thesis by (auto simp: resolve_node_like_step_def)
next
  case (Inr p)
  then obtain m s1 where run: "resolveNodeLikeWorker (resolveNodeLike depth r) r s = Inr (m, s1)" by (cases p) auto
  let ?s2 = "s1\<lparr>rs_features := rs_features s1 AND NOT NodeResolutionFeaturesExports,
                 rs_extensions := priority_extensions (rs_extensions s1)\<rparr>"
  from worker_name [OF run] assms
  have "resolveNodeLikeWorker (resolveNodeLike depth r) r ?s2 \<noteq> Inl StackOverflow"
    by (intro worker_without_imports) simp
  with run show ?thesis
    by (cases "resolveNodeLikeWorker (resolveNodeLike depth r) r ?s2")
      (auto simp: resolve_node_like_step_def try_without_exports_def)
qed

lemma typings_in_stack: "in_stack (resolve_from_typings depth r m)"
  unfolding resolve_from_typings_def by (intro stack_intros)

lemma newResolutionState_name [simp]: "rs_name (newResolutionState n d i mode o' redirect c) = n"
  by (simp add: newResolutionState_def Let_def split: ModuleResolutionKind.splits)

lemma tryResolve_in_stack: "tryResolveFromTypingsLocation depth r n d m c \<noteq> Inl StackOverflow"
proof -
  let ?s = "newResolutionState n d False ModuleKindNone (rv_compilerOptions r) None c"
  from typings_in_stack [of depth r m] have "resolve_from_typings depth r m ?s \<noteq> Inl StackOverflow"
    by (simp add: in_stack_def)
  then show ?thesis
    by (cases "resolve_from_typings depth r m ?s") (auto simp: tryResolveFromTypingsLocation_def answer_def)
qed

end
