(* ===== verification/Module_Props.thy ===== *)
theory Module_Props
  imports Module_Stack
begin

text \<open>
  Module resolution: the properties of the entry points and of the functions on names.
\<close>

section \<open>The cache of package descriptions is transparent\<close>

lemma cache_equal_sym: "cache_equal r s t \<Longrightarrow> cache_equal r t s"
  by (simp add: cache_equal_def)

lemma refines_sym_run:
  assumes m: "refines E m m" and st: "E s t" and sym: "\<And>s t. E s t \<Longrightarrow> E t s"
  shows "rel_sum (=) (rel_prod (=) E) (m s) (m t)"
proof (cases "m s = Inl StackOverflow")
  case True
  with refinesD [OF m sym [OF st]] show ?thesis by (cases "m t") auto
next
  case False
  with refinesD [OF m st] show ?thesis .
qed

lemma new_state_equal:
  assumes "coherent_host (rv_host r)" and "truthful (rv_host r) c" and "truthful (rv_host r) c'"
  shows "cache_equal r (newResolutionState n d i mode o' redirect c) (newResolutionState n d i mode o' redirect c')"
  using assms
  by (auto simp: cache_equal_def without_cache_iff newResolutionState_def Let_def split: ModuleResolutionKind.splits)

abbreviation same_answer :: "Host \<Rightarrow> ('a \<times> InfoCache) go \<Rightarrow> ('a \<times> InfoCache) go \<Rightarrow> bool" where
  "same_answer h \<equiv> rel_sum (=) (rel_prod (=) (\<lambda>c c'. truthful h c \<and> truthful h c'))"

lemma answer_same:
  "rel_sum (=) (rel_prod (=) (cache_equal r)) x y \<Longrightarrow> same_answer (rv_host r) (answer x) (answer y)"
  by (cases x; cases y) (auto simp: answer_def cache_equal_def)

lemma typings_same_answer:
  assumes "coherent_host (rv_host r)" and "truthful (rv_host r) c" and "truthful (rv_host r) c'"
  shows "same_answer (rv_host r) (tryResolveFromTypingsLocation depth r n d m c)
           (tryResolveFromTypingsLocation depth r n d m c')"
proof -
  have "refines (cache_equal r) (resolve_from_typings depth r m) (resolve_from_typings depth r m)"
    by (intro sim_intros order_refl)
  from answer_same [OF refines_sym_run [OF this new_state_equal [OF assms] cache_equal_sym]] assms
  show ?thesis by (simp add: tryResolveFromTypingsLocation_def)
qed

text \<open>C7. The cache of package descriptions is transparent: on a coherent host, two truthful caches (say an
  empty one and one filled by any number of earlier resolutions) give the same answer, panics included,
  with the same recorded locations, and the caches behind are truthful again. So the order in which modules
  are resolved does not matter.\<close>

theorem cache_transparent:
  assumes "coherent_host (rv_host r)" and "truthful (rv_host r) c" and "truthful (rv_host r) c'"
  shows "rel_sum (=) (rel_prod (=) (\<lambda>c c'. truthful (rv_host r) c \<and> truthful (rv_host r) c'))
           (ResolveModuleName depth r name containingFile mode redirect c)
           (ResolveModuleName depth r name containingFile mode redirect c')"
proof -
  let ?o = "case redirect of Some o' \<Rightarrow> o' | None \<Rightarrow> rv_compilerOptions r"
  let ?s = "newResolutionState name (GetDirectoryPath containingFile) False mode ?o redirect"
  have "refines (cache_equal r) (resolveNodeLike depth r) (resolveNodeLike depth r)"
    by (intro sim_intros order_refl)
  from refines_sym_run [OF this new_state_equal [OF assms] cache_equal_sym]
  have run: "rel_sum (=) (rel_prod (=) (cache_equal r)) (resolveNodeLike depth r (?s c)) (resolveNodeLike depth r (?s c'))" .
  show ?thesis
  proof (cases "resolveNodeLike depth r (?s c)")
    case (Inl e)
    with run have "resolveNodeLike depth r (?s c') = Inl e" by (auto elim: rel_sum.cases)
    with Inl show ?thesis by (simp add: ResolveModuleName_def Let_def)
  next
    case (Inr p)
    then obtain m s1 where "resolveNodeLike depth r (?s c) = Inr (m, s1)" by (cases p) auto
    moreover from this run obtain t1 where "resolveNodeLike depth r (?s c') = Inr (m, t1)" "cache_equal r s1 t1"
      by (auto elim!: rel_sum.cases)
    ultimately show ?thesis
      using typings_same_answer [OF assms(1)] by (simp add: ResolveModuleName_def Let_def cache_equal_def)
  qed
qed

lemma sample_coherent: "coherent_host (sample_host files descriptions)"
  by (simp add: coherent_host_def key_of_def sample_host_def)

lemma sample_parameters [simp]:
  "rv_host (sample_resolver files descriptions) = sample_host files descriptions"
  "rv_compilerOptions (sample_resolver files descriptions) = zero_options"
  "GetCurrentDirectory (sample_host files descriptions) = ''/''"
  "caseSensitive (sample_host files descriptions) = True"
  "host_lower (sample_host files descriptions) = (\<lambda>n. n)"
  by (simp_all add: sample_resolver_def sample_host_def)

lemma sample_cache: "truthful (sample_host files descriptions) (NewInfoCache ''/'' True)"
  using truthful_new [of "sample_host files descriptions"] by simp

lemma cache_transparent_witness:
  "let h = sample_host [''/b.ts'', ''/package.json''] (\<lambda>_. no_fields);
       r = sample_resolver [''/b.ts'', ''/package.json''] (\<lambda>_. no_fields);
       empty = NewInfoCache ''/'' True;
       filled = InfoCache_Set (\<lambda>n. n) empty (package_json ''/'')
                  \<lparr>ice_PackageDirectory = ''/'', ice_DirectoryExists = True, ice_Contents = Some no_fields\<rparr>
   in same_answer h (ResolveModuleName 1 r ''./b'' ''/a.ts'' ModuleKindESNext None empty)
                    (ResolveModuleName 1 r ''./b'' ''/a.ts'' ModuleKindESNext None filled)"
proof -
  let ?files = "[''/b.ts'', ''/package.json'']"
  let ?h = "sample_host ?files (\<lambda>_. no_fields)"
  let ?entry = "\<lparr>ice_PackageDirectory = ''/'', ice_DirectoryExists = True, ice_Contents = Some no_fields\<rparr>"
  have "ToPath (\<lambda>n. n) (package_json ''/'') ''/'' True = ''/package.json''" by code_simp
  then have "described ?h ''/'' = Some no_fields" by (simp add: described_def sample_host_def)
  then have "truthful ?h (InfoCache_Set (\<lambda>n. n) (NewInfoCache ''/'' True) (package_json ''/'') ?entry)"
    using truthful_set [OF sample_coherent sample_cache, of ?entry ?files "\<lambda>_. no_fields" "''/''"] by simp
  then show ?thesis
    using cache_transparent [of "sample_resolver ?files (\<lambda>_. no_fields)"] sample_coherent sample_cache
    by (simp add: Let_def)
qed

section \<open>The nesting of resolutions\<close>

lemma tryResolve_depth:
  assumes "depth \<le> depth'"
  shows "tryResolveFromTypingsLocation depth' r n d m c = tryResolveFromTypingsLocation depth r n d m c"
proof -
  let ?s = "newResolutionState n d False ModuleKindNone (rv_compilerOptions r) None c"
  have "refines (=) (resolve_from_typings depth r m) (resolve_from_typings depth' r m)"
    by (rule stable.typings [OF assms])
  moreover from typings_in_stack [of depth r m] have "resolve_from_typings depth r m ?s \<noteq> Inl StackOverflow"
    by (simp add: in_stack_def)
  ultimately have "resolve_from_typings depth' r m ?s = resolve_from_typings depth r m ?s"
    by (rule nesting_step)
  then show ?thesis by (simp add: tryResolveFromTypingsLocation_def)
qed

lemma deeper_is_same:
  assumes "depth \<le> depth'"
    and "ResolveModuleName depth r name containingFile mode redirect cache \<noteq> Inl StackOverflow"
  shows "ResolveModuleName depth' r name containingFile mode redirect cache =
         ResolveModuleName depth r name containingFile mode redirect cache"
proof -
  let ?o = "case redirect of Some o' \<Rightarrow> o' | None \<Rightarrow> rv_compilerOptions r"
  let ?s = "newResolutionState name (GetDirectoryPath containingFile) False mode ?o redirect cache"
  show ?thesis
  proof (cases "GetModuleResolutionKind ?o = ModuleResolutionKindUnknown")
    case False
    with assms(2) have "resolveNodeLike depth r ?s \<noteq> Inl StackOverflow"
      by (auto simp: ResolveModuleName_def Let_def)
    with nesting_step [OF stable.node_like [OF assms(1)]]
    have same: "resolveNodeLike depth' r ?s = resolveNodeLike depth r ?s" by blast
    then show ?thesis by (simp add: ResolveModuleName_def Let_def tryResolve_depth [OF assms(1)])
  qed (simp add: ResolveModuleName_def Let_def)
qed

text \<open>C11. Resolution ends. A module name that is not an import map's (it does not start with a hash) resolves
  within one level of nesting: the resolution never runs out of stack, and every bound from 1 on gives
  the same answer.\<close>

theorem resolution_terminates:
  assumes "\<not> HasPrefix name ''#''" and "0 < depth"
  shows "ResolveModuleName depth r name containingFile mode redirect cache \<noteq> Inl StackOverflow \<and>
         ResolveModuleName depth r name containingFile mode redirect cache =
         ResolveModuleName 1 r name containingFile mode redirect cache"
proof -
  let ?o = "case redirect of Some o' \<Rightarrow> o' | None \<Rightarrow> rv_compilerOptions r"
  let ?s = "newResolutionState name (GetDirectoryPath containingFile) False mode ?o redirect cache"
  have in_stack: "ResolveModuleName (Suc n) r name containingFile mode redirect cache \<noteq> Inl StackOverflow" for n
  proof (cases "resolveNodeLike (Suc n) r ?s")
    case (Inl e)
    with resolveNodeLike_in_stack [of ?s n r] assms(1) show ?thesis by (auto simp: ResolveModuleName_def Let_def)
  next
    case (Inr p)
    then show ?thesis by (cases p) (simp add: ResolveModuleName_def Let_def tryResolve_in_stack)
  qed
  from assms(2) obtain n where "depth = Suc n" by (cases depth) auto
  with in_stack deeper_is_same [of "Suc 0" depth] show ?thesis by auto
qed

lemma resolution_terminates_witness:
  "ResolveModuleName 7 (sample_resolver [''/b.ts''] (\<lambda>_. no_fields)) ''./b'' ''/a.ts'' ModuleKindESNext None
     (NewInfoCache ''/'' True) \<noteq> Inl StackOverflow"
  by (rule conjunct1 [OF resolution_terminates]) (simp_all add: HasPrefix_def)

section \<open>The priority of extensions\<close>

text \<open>
  Without module suffixes a lookup that may find something takes the first attempt whose file exists, and
  records the attempts before it, in their order.
\<close>

fun first_existing :: "Host \<Rightarrow> string \<Rightarrow> (string \<times> bool) list \<Rightarrow> (string \<times> bool) option \<times> string list" where
  "first_existing h base [] = (None, [])"
| "first_existing h base ((extension, u) # attempts) =
     (if FileExists h (base @ extension) then (Some (extension, u), [])
      else (case first_existing h base attempts of (chosen, missed) \<Rightarrow> (chosen, (base @ extension) # missed)))"

lemma tryExtension_run:
  assumes "o_ModuleSuffixes (rs_compilerOptions s) = []"
  shows "tryExtension r extension base u False s =
    (if FileExists (rv_host r) (base @ extension)
     then Inr (Some (resolved_file (base @ extension) extension
                       (\<not> rs_candidateIsFromPackageJsonField s \<and> u)), s)
     else Inr (None, s\<lparr>rs_failedLookupLocations := rs_failedLookupLocations s @ [base @ extension]\<rparr>))"
  using assms by (simp add: tryExtension_def tryFile_def tryFileLookup_def add_failed_def seq_assoc Let_def)

lemma attempts_run:
  assumes "o_ModuleSuffixes (rs_compilerOptions s) = []"
  shows "first_found (\<lambda>(extension, u). tryExtension r extension base u False) attempts s =
    (case first_existing (rv_host r) base attempts of (chosen, missed) \<Rightarrow>
       Inr (map_option (\<lambda>(extension, u). resolved_file (base @ extension) extension
                           (\<not> rs_candidateIsFromPackageJsonField s \<and> u)) chosen,
            s\<lparr>rs_failedLookupLocations := rs_failedLookupLocations s @ missed\<rparr>))"
  using assms
proof (induction attempts arbitrary: s)
  case (Cons a attempts)
  obtain extension u where a: "a = (extension, u)" by (cases a)
  show ?case
  proof (cases "FileExists (rv_host r) (base @ extension)")
    case True
    then show ?thesis by (simp add: a or_else_run tryExtension_run [OF Cons.prems])
  next
    case False
    let ?s = "s\<lparr>rs_failedLookupLocations := rs_failedLookupLocations s @ [base @ extension]\<rparr>"
    from Cons.prems Cons.IH [of ?s] False show ?thesis
      by (simp add: a or_else_run tryExtension_run [OF Cons.prems] split: prod.splits)
  qed
qed simp

lemma attempts_skipped:
  assumes "o_ModuleSuffixes (rs_compilerOptions s) = []"
  shows "first_found (\<lambda>(extension, u). tryExtension r extension base u True) attempts s =
    Inr (None, s\<lparr>rs_failedLookupLocations := rs_failedLookupLocations s @ map (\<lambda>a. base @ fst a) attempts\<rparr>)"
  using assms
proof (induction attempts arbitrary: s)
  case (Cons a attempts)
  obtain extension u where a: "a = (extension, u)" by (cases a)
  let ?s = "s\<lparr>rs_failedLookupLocations := rs_failedLookupLocations s @ [base @ extension]\<rparr>"
  have "tryExtension r extension base u True s = Inr (None, ?s)"
    using Cons.prems by (simp add: tryExtension_def tryFile_def tryFileLookup_def add_failed_def seq_assoc Let_def)
  with Cons.prems Cons.IH [of ?s] show ?case by (simp add: a or_else_run)
qed simp

lemma first_existing_map:
  "first_existing h base (map (\<lambda>e. (e, u e)) es) =
    (map_option (\<lambda>e. (e, u e)) (find (\<lambda>e. FileExists h (base @ e)) es),
     map ((@) base) (takeWhile (\<lambda>e. \<not> FileExists h (base @ e)) es))"
  by (induction es) simp_all

text \<open>The kind of a file with an extension, and the names of TypeScript and declaration files.\<close>

definition extension_kind :: "string \<Rightarrow> extensions" where
  "extension_kind e =
     (if HasPrefix e ''.d.'' then extensionsDeclaration
      else if e \<in> set [''.ts'', ''.tsx'', ''.mts'', ''.cts''] then extensionsTypeScript
      else if e = ''.json'' then extensionsJson else extensionsJavaScript)"

definition names_typescript :: "string \<Rightarrow> bool" where
  "names_typescript e =
     (e \<in> set [''.ts'', ''.tsx'', ''.d.ts'', ''.mts'', ''.d.mts'', ''.cts'', ''.d.cts''])"

abbreviation extension_orders :: "(string list \<times> string list) list" where
  "extension_orders \<equiv>
     [([''.mjs'', ''.mts'', ''.d.mts''], [''.mts'', ''.d.mts'', ''.mjs'']),
      ([''.cjs'', ''.cts'', ''.d.cts''], [''.cts'', ''.d.cts'', ''.cjs'']),
      ([''.json''], [''.d.json.ts'', ''.json'']),
      ([''.tsx'', ''.jsx''], [''.tsx'', ''.ts'', ''.d.ts'', ''.jsx'', ''.js'']),
      ([''.ts'', ''.d.ts'', ''.js'', []], [''.ts'', ''.tsx'', ''.d.ts'', ''.js'', ''.jsx''])]"

lemma extension_kinds [simp]:
  "extension_kind ''.ts'' = extensionsTypeScript" "extension_kind ''.tsx'' = extensionsTypeScript"
  "extension_kind ''.mts'' = extensionsTypeScript" "extension_kind ''.cts'' = extensionsTypeScript"
  "extension_kind ''.d.ts'' = extensionsDeclaration" "extension_kind ''.d.mts'' = extensionsDeclaration"
  "extension_kind ''.d.cts'' = extensionsDeclaration" "extension_kind ''.d.json.ts'' = extensionsDeclaration"
  "extension_kind ''.js'' = extensionsJavaScript" "extension_kind ''.jsx'' = extensionsJavaScript"
  "extension_kind ''.mjs'' = extensionsJavaScript" "extension_kind ''.cjs'' = extensionsJavaScript"
  "extension_kind ''.json'' = extensionsJson"
  by (simp_all add: extension_kind_def)

lemma attempts_in_order:
  assumes "(originals, order) \<in> set extension_orders" and "original \<in> set originals"
  shows "extension_attempts base original exts config =
    map (\<lambda>e. (e, names_typescript original \<and> names_typescript e))
      (filter (\<lambda>e. has_flag exts (extension_kind e)) order @
       (if config \<and> ''.js'' \<in> set originals then [''.json''] else []))"
  using assms
  by (simp only: list.set insert_iff empty_iff prod.inject simp_thms; elim disjE conjE; hypsubst;
    simp only: list.set insert_iff empty_iff simp_thms; (elim disjE)?; hypsubst;
    simp add: extension_attempts_def names_typescript_def Let_def)

text \<open>C12. Without module suffixes, the extensions are tried in a fixed order for each group of original
  extensions, as far as their kind of file is asked for: TypeScript sources, then declarations, then
  JavaScript, with \<open>.tsx\<close> and \<open>.jsx\<close> first exactly for those two. The first whose file exists is the
  answer and exactly the ones before it are recorded as failed; when nothing may be looked up, or the
  directory is missing, all are recorded and nothing is found. A lookup for configurations tries
  \<open>.json\<close> last.\<close>

theorem extension_priority:
  assumes "o_ModuleSuffixes (rs_compilerOptions s) = []"
    and "(originals, order) \<in> set
      [([''.mjs'', ''.mts'', ''.d.mts''], [''.mts'', ''.d.mts'', ''.mjs'']),
       ([''.cjs'', ''.cts'', ''.d.cts''], [''.cts'', ''.d.cts'', ''.cjs'']),
       ([''.json''], [''.d.json.ts'', ''.json'']),
       ([''.tsx'', ''.jsx''], [''.tsx'', ''.ts'', ''.d.ts'', ''.jsx'', ''.js'']),
       ([''.ts'', ''.d.ts'', ''.js'', []], [''.ts'', ''.tsx'', ''.d.ts'', ''.js'', ''.jsx''])]"
    and "original \<in> set originals"
    and tried: "tried = filter (\<lambda>e. has_flag exts (extension_kind e)) order @
      (if rs_isConfigLookup s \<and> ''.js'' \<in> set originals then [''.json''] else [])"
    and missing: "missing = (record \<or> GetDirectoryPath base \<noteq> [] \<and> \<not> DirectoryExists (rv_host r) (GetDirectoryPath base))"
  shows "tryAddingExtensions r base exts original record s =
    Inr (if missing then None
         else map_option (\<lambda>e. resolved_file (base @ e) e
                (\<not> rs_candidateIsFromPackageJsonField s \<and> names_typescript original \<and> names_typescript e))
              (find (\<lambda>e. FileExists (rv_host r) (base @ e)) tried),
         s\<lparr>rs_failedLookupLocations := rs_failedLookupLocations s @
             map ((@) base) (takeWhile (\<lambda>e. missing \<or> \<not> FileExists (rv_host r) (base @ e)) tried)\<rparr>)"
proof -
  have att: "extension_attempts base original exts (rs_isConfigLookup s) =
      map (\<lambda>e. (e, names_typescript original \<and> names_typescript e)) tried"
    unfolding tried by (rule attempts_in_order [OF assms(2,3)])
  show ?thesis
  proof (cases missing)
    case True
    then show ?thesis
      unfolding missing
      by (simp add: tryAddingExtensions_def Let_def seq_gets_run attempts_skipped [OF assms(1)] att comp_def)
  next
    case False
    then have "(record \<or> GetDirectoryPath base \<noteq> [] \<and> \<not> DirectoryExists (rv_host r) (GetDirectoryPath base)) = False"
      unfolding missing by blast
    then show ?thesis
      using False
      by (simp only: tryAddingExtensions_def Let_def if_False seq_gets_run attempts_run [OF assms(1)] att
          first_existing_map split option.map_comp comp_def simp_thms)
  qed
qed

lemma extension_priority_witness:
  "let s = newResolutionState ''./b'' ''/'' False ModuleKindESNext zero_options None (NewInfoCache ''/'' True);
       r = sample_resolver [''/b.d.ts'', ''/b.tsx''] (\<lambda>_. no_fields)
   in tryAddingExtensions r ''/b'' (extensionsTypeScript OR extensionsDeclaration) ''.js'' False s =
        Inr (Some (resolved_file ''/b.tsx'' ''.tsx'' False), s\<lparr>rs_failedLookupLocations := [''/b.ts'']\<rparr>)"
proof -
  let ?s = "newResolutionState ''./b'' ''/'' False ModuleKindESNext zero_options None (NewInfoCache ''/'' True)"
  let ?r = "sample_resolver [''/b.d.ts'', ''/b.tsx''] (\<lambda>_. no_fields)"
  let ?exts = "extensionsTypeScript OR extensionsDeclaration"
  let ?tried = "[''.ts'', ''.tsx'', ''.d.ts'']"
  let ?order = "[''.ts'', ''.tsx'', ''.d.ts'', ''.js'', ''.jsx'']"
  have suffixes: "o_ModuleSuffixes (rs_compilerOptions ?s) = []" by code_simp
  have tried: "?tried = filter (\<lambda>e. has_flag ?exts (extension_kind e)) ?order @
      (if rs_isConfigLookup ?s \<and> ''.js'' \<in> set [''.ts'', ''.d.ts'', ''.js'', []] then [''.json''] else [])"
    by code_simp
  have missing: "False = (False \<or> GetDirectoryPath ''/b'' \<noteq> [] \<and>
      \<not> DirectoryExists (rv_host ?r) (GetDirectoryPath ''/b''))"
    by (simp add: sample_host_def)
  note run = extension_priority [OF suffixes _ _ tried missing, of "''.js''"]
  have "find (\<lambda>e. FileExists (rv_host ?r) (''/b'' @ e)) ?tried = Some ''.tsx''"
    "takeWhile (\<lambda>e. False \<or> \<not> FileExists (rv_host ?r) (''/b'' @ e)) ?tried = [''.ts'']" by code_simp+
  moreover have "rs_failedLookupLocations ?s = []" "\<not> names_typescript ''.js''" by code_simp+
  ultimately show ?thesis by (simp add: run Let_def del: sample_parameters)
qed

section \<open>Package names\<close>






end
