(* ===== verification/Module_Cycle.thy ===== *)
theory Module_Cycle
  imports Module_Props
begin

text \<open>
  Module resolution: an import map that maps a name to itself. The code has no check for such a cycle.
\<close>

lemma ancestors_first: "cb d s = Inr (Some x, s') \<Longrightarrow> ancestors_action cb d s = Inr (Some x, s')"
  unfolding ancestors_action_def by (subst ForEachAncestorDirectory.simps) simp

text \<open>A package whose imports map \<open>name\<close> to \<open>name\<close>, and a state that resolves this name from the package.\<close>

definition maps_to_itself :: "Resolver \<Rightarrow> string \<Rightarrow> string \<Rightarrow> bool" where
  "maps_to_itself r d name =
     (\<exists>contents members. described (rv_host r) d = Some contents \<and> pj_Imports contents = JSONObject members \<and>
        map_of members name = Some (JSONString name) \<and>
        HasPrefix name ''#'' \<and> name \<noteq> ''#'' \<and> \<not> HasPrefix name ''#/'' \<and> \<not> HasSuffix name ''/'' \<and>
        \<not> Contains name ''*'' \<and> \<not> IsExternalModuleNameRelative name)"

definition inside :: "Resolver \<Rightarrow> string \<Rightarrow> string \<Rightarrow> resolutionState \<Rightarrow> bool" where
  "inside r d name s =
     (rs_name s = name \<and> o_Paths (rs_compilerOptions s) = None \<and>
      has_flag (rs_features s) NodeResolutionFeaturesImports \<and>
      GetNormalizedAbsolutePath (rs_containingDirectory s) (GetCurrentDirectory (rv_host r)) = d \<and>
      truthful (rv_host r) (rs_packageJsonInfoCache s))"

lemma not_rooted: "\<not> IsExternalModuleNameRelative name \<Longrightarrow> \<not> IsRootedDiskPath name"
  by (simp add: IsExternalModuleNameRelative_def)

lemma resolves_itself:
  assumes "coherent_host (rv_host r)" and "maps_to_itself r d name"
    and "GetNormalizedAbsolutePath (d @ ''/'') (GetCurrentDirectory (rv_host r)) = d"
  shows "inside r d name s \<Longrightarrow> resolveNodeLike depth r s = Inl StackOverflow"
proof (induction depth arbitrary: s)
  case (Suc depth)
  from assms(2) obtain contents members where maps: "described (rv_host r) d = Some contents"
      "pj_Imports contents = JSONObject members" "map_of members name = Some (JSONString name)"
    and name: "HasPrefix name ''#''" "name \<noteq> ''#''" "\<not> HasPrefix name ''#/''" "\<not> HasSuffix name ''/''"
      "\<not> Contains name ''*''" "\<not> IsExternalModuleNameRelative name"
    unfolding maps_to_itself_def by blast
  obtain rest where hash: "name = CHR ''#'' # rest" using name(1) by (auto simp: HasPrefix_iff)
  from Suc.prems have s: "rs_name s = name" "o_Paths (rs_compilerOptions s) = None"
    "has_flag (rs_features s) NodeResolutionFeaturesImports"
    "GetNormalizedAbsolutePath (rs_containingDirectory s) (GetCurrentDirectory (rv_host r)) = d"
    "truthful (rv_host r) (rs_packageJsonInfoCache s)"
    by (simp_all add: inside_def)
  obtain cache where cache: "truthful (rv_host r) cache"
    and info: "getPackageJsonInfo r d False s = Inr (info_of (rv_host r) d, noted (rv_host r) d cache s)"
    by (rule getPackageJsonInfo_truthful [OF assms(1) s(5)])
  let ?scope = "\<lparr>ice_PackageDirectory = d, ice_DirectoryExists = True, ice_Contents = Some contents\<rparr>"
  let ?s1 = "noted (rv_host r) d cache s"
  let ?s2 = "?s1\<lparr>rs_name := name, rs_containingDirectory := d @ ''/''\<rparr>"
  from info maps(1) have scope: "getPackageScopeForPath r d s = Inr (Some ?scope, ?s1)"
    by (simp add: getPackageScopeForPath_def ancestors_first info_of_def)
  have "inside r d name ?s2"
    using s cache assms(3) maps(1) by (simp add: inside_def noted_def)
  note inner = Suc.IH [OF this]
  have target: "loadModuleFromExportsOrImports (resolveNodeLike depth r) r ext name members (Some ?scope) True ?s1 =
      Inl StackOverflow" for ext
    using name maps(3) inner
    by (simp add: loadModuleFromExportsOrImports_def load_string_target_def not_rooted load_mapped_package_def
        in_package_scope_def GetDirectory_def hash)
  have "loadModuleFromImports (resolveNodeLike depth r) r s = Inl StackOverflow"
    using name(2,3) s(1,4) scope maps(2) target
    by (simp add: loadModuleFromImports_def GetContents_def)
  moreover have "tryLoadModuleUsingPathsIfEligible r s = Inr (None, s)"
    using s(2) by (simp add: tryLoadModuleUsingPathsIfEligible_def)
  ultimately have "resolveNodeLikeWorker (resolveNodeLike depth r) r s = Inl StackOverflow"
    using name(1,6) s(1,3) by (simp add: resolveNodeLikeWorker_def create_or_else_def)
  then show ?case by (simp add: resolve_node_like_step_def)
qed simp

text \<open>C13. An import map that maps a name to itself is never noticed: whatever the bound on the nesting, the
  resolution of the name runs out of it. In the running code this recursion has no bound but the stack.\<close>

theorem self_import_overflows:
  assumes "coherent_host (rv_host r)" and "truthful (rv_host r) cache"
    and "maps_to_itself r d name"
    and "GetNormalizedAbsolutePath (d @ ''/'') (GetCurrentDirectory (rv_host r)) = d"
    and "GetNormalizedAbsolutePath (GetDirectoryPath containingFile) (GetCurrentDirectory (rv_host r)) = d"
    and "o_Paths (rv_compilerOptions r) = None"
    and "o_ModuleResolution (rv_compilerOptions r) = ModuleResolutionKindNodeNext"
  shows "ResolveModuleName depth r name containingFile mode None cache = Inl StackOverflow"
proof -
  let ?s = "newResolutionState name (GetDirectoryPath containingFile) False mode (rv_compilerOptions r) None cache"
  have kind: "GetModuleResolutionKind (rv_compilerOptions r) = ModuleResolutionKindNodeNext"
    using assms(7) by (simp add: GetModuleResolutionKind_def)
  have "has_flag NodeResolutionFeaturesAll NodeResolutionFeaturesImports" by code_simp
  with kind assms have "inside r d name ?s"
    by (simp add: inside_def newResolutionState_def Let_def)
  from resolves_itself [OF assms(1,3,4) this] kind show ?thesis
    by (simp add: ResolveModuleName_def Let_def)
qed

lemma self_import_overflows_witness:
  "ResolveModuleName 100
     (sample_resolver [''/p/package.json''] (\<lambda>_. no_fields\<lparr>pj_Imports := JSONObject [(''#x'', JSONString ''#x'')]\<rparr>)
        \<lparr>rv_compilerOptions := zero_options\<lparr>o_ModuleResolution := ModuleResolutionKindNodeNext\<rparr>\<rparr>)
     ''#x'' ''/p/a.ts'' ModuleKindESNext None (NewInfoCache ''/'' True) = Inl StackOverflow"
proof -
  let ?pj = "no_fields\<lparr>pj_Imports := JSONObject [(''#x'', JSONString ''#x'')]\<rparr>"
  let ?r = "sample_resolver [''/p/package.json''] (\<lambda>_. ?pj)
        \<lparr>rv_compilerOptions := zero_options\<lparr>o_ModuleResolution := ModuleResolutionKindNodeNext\<rparr>\<rparr>"
  have h: "rv_host ?r = sample_host [''/p/package.json''] (\<lambda>_. ?pj)" by (simp add: sample_resolver_def)
  have "ToPath (\<lambda>n. n) (package_json ''/p'') ''/'' True = ''/p/package.json''" by code_simp
  then have "described (rv_host ?r) ''/p'' = Some ?pj" by (simp add: h described_def sample_host_def)
  then have "maps_to_itself ?r ''/p'' ''#x''"
    by (simp add: maps_to_itself_def) code_simp
  moreover have "GetNormalizedAbsolutePath (''/p'' @ ''/'') ''/'' = ''/p''"
      "GetNormalizedAbsolutePath (GetDirectoryPath ''/p/a.ts'') ''/'' = ''/p''" by code_simp+
  moreover have "o_Paths zero_options = None" by code_simp
  ultimately show ?thesis
    by (intro self_import_overflows [where d = "''/p''"]) (simp_all add: h sample_coherent sample_cache)
qed

end
