(* ===== verification/Ast_Kinds.thy ===== *)
theory Ast_Kinds
  imports Go_Strings Flags
begin

text \<open>
  The kinds of tokens (\<open>internal/ast/kind.go\<close>), the flags of a token (\<open>tokenflags.go\<close>) and the tables of
  punctuation and keywords (\<open>internal/scanner/scanner.go\<close>). A kind is a small number: the code compares kinds
  by order (a keyword is anything from \<open>KindIdentifier\<close> on), so the numbers are kept. The kinds of syntax
  tree nodes follow behind \<open>KindOfKeyword\<close> and are not needed here.
\<close>

named_theorems kind_defs \<open>the numbers of the kinds\<close>

section \<open>Kinds\<close>

type_synonym Kind = nat

definition KindUnknown :: Kind where [kind_defs]: "KindUnknown = 0"
definition KindEndOfFile :: Kind where [kind_defs]: "KindEndOfFile = 1"
definition KindSingleLineCommentTrivia :: Kind where [kind_defs]: "KindSingleLineCommentTrivia = 2"
definition KindMultiLineCommentTrivia :: Kind where [kind_defs]: "KindMultiLineCommentTrivia = 3"
definition KindNewLineTrivia :: Kind where [kind_defs]: "KindNewLineTrivia = 4"
definition KindWhitespaceTrivia :: Kind where [kind_defs]: "KindWhitespaceTrivia = 5"
definition KindConflictMarkerTrivia :: Kind where [kind_defs]: "KindConflictMarkerTrivia = 6"
definition KindNonTextFileMarkerTrivia :: Kind where [kind_defs]: "KindNonTextFileMarkerTrivia = 7"
definition KindNumericLiteral :: Kind where [kind_defs]: "KindNumericLiteral = 8"
definition KindBigIntLiteral :: Kind where [kind_defs]: "KindBigIntLiteral = 9"
definition KindStringLiteral :: Kind where [kind_defs]: "KindStringLiteral = 10"
definition KindJsxText :: Kind where [kind_defs]: "KindJsxText = 11"
definition KindJsxTextAllWhiteSpaces :: Kind where [kind_defs]: "KindJsxTextAllWhiteSpaces = 12"
definition KindRegularExpressionLiteral :: Kind where [kind_defs]: "KindRegularExpressionLiteral = 13"
definition KindNoSubstitutionTemplateLiteral :: Kind where [kind_defs]: "KindNoSubstitutionTemplateLiteral = 14"
definition KindTemplateHead :: Kind where [kind_defs]: "KindTemplateHead = 15"
definition KindTemplateMiddle :: Kind where [kind_defs]: "KindTemplateMiddle = 16"
definition KindTemplateTail :: Kind where [kind_defs]: "KindTemplateTail = 17"
definition KindOpenBraceToken :: Kind where [kind_defs]: "KindOpenBraceToken = 18"
definition KindCloseBraceToken :: Kind where [kind_defs]: "KindCloseBraceToken = 19"
definition KindOpenParenToken :: Kind where [kind_defs]: "KindOpenParenToken = 20"
definition KindCloseParenToken :: Kind where [kind_defs]: "KindCloseParenToken = 21"
definition KindOpenBracketToken :: Kind where [kind_defs]: "KindOpenBracketToken = 22"
definition KindCloseBracketToken :: Kind where [kind_defs]: "KindCloseBracketToken = 23"
definition KindDotToken :: Kind where [kind_defs]: "KindDotToken = 24"
definition KindDotDotDotToken :: Kind where [kind_defs]: "KindDotDotDotToken = 25"
definition KindSemicolonToken :: Kind where [kind_defs]: "KindSemicolonToken = 26"
definition KindCommaToken :: Kind where [kind_defs]: "KindCommaToken = 27"
definition KindQuestionDotToken :: Kind where [kind_defs]: "KindQuestionDotToken = 28"
definition KindLessThanToken :: Kind where [kind_defs]: "KindLessThanToken = 29"
definition KindLessThanSlashToken :: Kind where [kind_defs]: "KindLessThanSlashToken = 30"
definition KindGreaterThanToken :: Kind where [kind_defs]: "KindGreaterThanToken = 31"
definition KindLessThanEqualsToken :: Kind where [kind_defs]: "KindLessThanEqualsToken = 32"
definition KindGreaterThanEqualsToken :: Kind where [kind_defs]: "KindGreaterThanEqualsToken = 33"
definition KindEqualsEqualsToken :: Kind where [kind_defs]: "KindEqualsEqualsToken = 34"
definition KindExclamationEqualsToken :: Kind where [kind_defs]: "KindExclamationEqualsToken = 35"
definition KindEqualsEqualsEqualsToken :: Kind where [kind_defs]: "KindEqualsEqualsEqualsToken = 36"
definition KindExclamationEqualsEqualsToken :: Kind where [kind_defs]: "KindExclamationEqualsEqualsToken = 37"
definition KindEqualsGreaterThanToken :: Kind where [kind_defs]: "KindEqualsGreaterThanToken = 38"
definition KindPlusToken :: Kind where [kind_defs]: "KindPlusToken = 39"
definition KindMinusToken :: Kind where [kind_defs]: "KindMinusToken = 40"
definition KindAsteriskToken :: Kind where [kind_defs]: "KindAsteriskToken = 41"
definition KindAsteriskAsteriskToken :: Kind where [kind_defs]: "KindAsteriskAsteriskToken = 42"
definition KindSlashToken :: Kind where [kind_defs]: "KindSlashToken = 43"
definition KindPercentToken :: Kind where [kind_defs]: "KindPercentToken = 44"
definition KindPlusPlusToken :: Kind where [kind_defs]: "KindPlusPlusToken = 45"
definition KindMinusMinusToken :: Kind where [kind_defs]: "KindMinusMinusToken = 46"
definition KindLessThanLessThanToken :: Kind where [kind_defs]: "KindLessThanLessThanToken = 47"
definition KindGreaterThanGreaterThanToken :: Kind where [kind_defs]: "KindGreaterThanGreaterThanToken = 48"
definition KindGreaterThanGreaterThanGreaterThanToken :: Kind where [kind_defs]: "KindGreaterThanGreaterThanGreaterThanToken = 49"
definition KindAmpersandToken :: Kind where [kind_defs]: "KindAmpersandToken = 50"
definition KindBarToken :: Kind where [kind_defs]: "KindBarToken = 51"
definition KindCaretToken :: Kind where [kind_defs]: "KindCaretToken = 52"
definition KindExclamationToken :: Kind where [kind_defs]: "KindExclamationToken = 53"
definition KindTildeToken :: Kind where [kind_defs]: "KindTildeToken = 54"
definition KindAmpersandAmpersandToken :: Kind where [kind_defs]: "KindAmpersandAmpersandToken = 55"
definition KindBarBarToken :: Kind where [kind_defs]: "KindBarBarToken = 56"
definition KindQuestionToken :: Kind where [kind_defs]: "KindQuestionToken = 57"
definition KindColonToken :: Kind where [kind_defs]: "KindColonToken = 58"
definition KindAtToken :: Kind where [kind_defs]: "KindAtToken = 59"
definition KindQuestionQuestionToken :: Kind where [kind_defs]: "KindQuestionQuestionToken = 60"
definition KindBacktickToken :: Kind where [kind_defs]: "KindBacktickToken = 61"
definition KindHashToken :: Kind where [kind_defs]: "KindHashToken = 62"
definition KindEqualsToken :: Kind where [kind_defs]: "KindEqualsToken = 63"
definition KindPlusEqualsToken :: Kind where [kind_defs]: "KindPlusEqualsToken = 64"
definition KindMinusEqualsToken :: Kind where [kind_defs]: "KindMinusEqualsToken = 65"
definition KindAsteriskEqualsToken :: Kind where [kind_defs]: "KindAsteriskEqualsToken = 66"
definition KindAsteriskAsteriskEqualsToken :: Kind where [kind_defs]: "KindAsteriskAsteriskEqualsToken = 67"
definition KindSlashEqualsToken :: Kind where [kind_defs]: "KindSlashEqualsToken = 68"
definition KindPercentEqualsToken :: Kind where [kind_defs]: "KindPercentEqualsToken = 69"
definition KindLessThanLessThanEqualsToken :: Kind where [kind_defs]: "KindLessThanLessThanEqualsToken = 70"
definition KindGreaterThanGreaterThanEqualsToken :: Kind where [kind_defs]: "KindGreaterThanGreaterThanEqualsToken = 71"
definition KindGreaterThanGreaterThanGreaterThanEqualsToken :: Kind where [kind_defs]: "KindGreaterThanGreaterThanGreaterThanEqualsToken = 72"
definition KindAmpersandEqualsToken :: Kind where [kind_defs]: "KindAmpersandEqualsToken = 73"
definition KindBarEqualsToken :: Kind where [kind_defs]: "KindBarEqualsToken = 74"
definition KindBarBarEqualsToken :: Kind where [kind_defs]: "KindBarBarEqualsToken = 75"
definition KindAmpersandAmpersandEqualsToken :: Kind where [kind_defs]: "KindAmpersandAmpersandEqualsToken = 76"
definition KindQuestionQuestionEqualsToken :: Kind where [kind_defs]: "KindQuestionQuestionEqualsToken = 77"
definition KindCaretEqualsToken :: Kind where [kind_defs]: "KindCaretEqualsToken = 78"
definition KindIdentifier :: Kind where [kind_defs]: "KindIdentifier = 79"
definition KindPrivateIdentifier :: Kind where [kind_defs]: "KindPrivateIdentifier = 80"
definition KindJSDocCommentTextToken :: Kind where [kind_defs]: "KindJSDocCommentTextToken = 81"
definition KindBreakKeyword :: Kind where [kind_defs]: "KindBreakKeyword = 82"
definition KindCaseKeyword :: Kind where [kind_defs]: "KindCaseKeyword = 83"
definition KindCatchKeyword :: Kind where [kind_defs]: "KindCatchKeyword = 84"
definition KindClassKeyword :: Kind where [kind_defs]: "KindClassKeyword = 85"
definition KindConstKeyword :: Kind where [kind_defs]: "KindConstKeyword = 86"
definition KindContinueKeyword :: Kind where [kind_defs]: "KindContinueKeyword = 87"
definition KindDebuggerKeyword :: Kind where [kind_defs]: "KindDebuggerKeyword = 88"
definition KindDefaultKeyword :: Kind where [kind_defs]: "KindDefaultKeyword = 89"
definition KindDeleteKeyword :: Kind where [kind_defs]: "KindDeleteKeyword = 90"
definition KindDoKeyword :: Kind where [kind_defs]: "KindDoKeyword = 91"
definition KindElseKeyword :: Kind where [kind_defs]: "KindElseKeyword = 92"
definition KindEnumKeyword :: Kind where [kind_defs]: "KindEnumKeyword = 93"
definition KindExportKeyword :: Kind where [kind_defs]: "KindExportKeyword = 94"
definition KindExtendsKeyword :: Kind where [kind_defs]: "KindExtendsKeyword = 95"
definition KindFalseKeyword :: Kind where [kind_defs]: "KindFalseKeyword = 96"
definition KindFinallyKeyword :: Kind where [kind_defs]: "KindFinallyKeyword = 97"
definition KindForKeyword :: Kind where [kind_defs]: "KindForKeyword = 98"
definition KindFunctionKeyword :: Kind where [kind_defs]: "KindFunctionKeyword = 99"
definition KindIfKeyword :: Kind where [kind_defs]: "KindIfKeyword = 100"
definition KindImportKeyword :: Kind where [kind_defs]: "KindImportKeyword = 101"
definition KindInKeyword :: Kind where [kind_defs]: "KindInKeyword = 102"
definition KindInstanceOfKeyword :: Kind where [kind_defs]: "KindInstanceOfKeyword = 103"
definition KindNewKeyword :: Kind where [kind_defs]: "KindNewKeyword = 104"
definition KindNullKeyword :: Kind where [kind_defs]: "KindNullKeyword = 105"
definition KindReturnKeyword :: Kind where [kind_defs]: "KindReturnKeyword = 106"
definition KindSuperKeyword :: Kind where [kind_defs]: "KindSuperKeyword = 107"
definition KindSwitchKeyword :: Kind where [kind_defs]: "KindSwitchKeyword = 108"
definition KindThisKeyword :: Kind where [kind_defs]: "KindThisKeyword = 109"
definition KindThrowKeyword :: Kind where [kind_defs]: "KindThrowKeyword = 110"
definition KindTrueKeyword :: Kind where [kind_defs]: "KindTrueKeyword = 111"
definition KindTryKeyword :: Kind where [kind_defs]: "KindTryKeyword = 112"
definition KindTypeOfKeyword :: Kind where [kind_defs]: "KindTypeOfKeyword = 113"
definition KindVarKeyword :: Kind where [kind_defs]: "KindVarKeyword = 114"
definition KindVoidKeyword :: Kind where [kind_defs]: "KindVoidKeyword = 115"
definition KindWhileKeyword :: Kind where [kind_defs]: "KindWhileKeyword = 116"
definition KindWithKeyword :: Kind where [kind_defs]: "KindWithKeyword = 117"
definition KindImplementsKeyword :: Kind where [kind_defs]: "KindImplementsKeyword = 118"
definition KindInterfaceKeyword :: Kind where [kind_defs]: "KindInterfaceKeyword = 119"
definition KindLetKeyword :: Kind where [kind_defs]: "KindLetKeyword = 120"
definition KindPackageKeyword :: Kind where [kind_defs]: "KindPackageKeyword = 121"
definition KindPrivateKeyword :: Kind where [kind_defs]: "KindPrivateKeyword = 122"
definition KindProtectedKeyword :: Kind where [kind_defs]: "KindProtectedKeyword = 123"
definition KindPublicKeyword :: Kind where [kind_defs]: "KindPublicKeyword = 124"
definition KindStaticKeyword :: Kind where [kind_defs]: "KindStaticKeyword = 125"
definition KindYieldKeyword :: Kind where [kind_defs]: "KindYieldKeyword = 126"
definition KindAbstractKeyword :: Kind where [kind_defs]: "KindAbstractKeyword = 127"
definition KindAccessorKeyword :: Kind where [kind_defs]: "KindAccessorKeyword = 128"
definition KindAsKeyword :: Kind where [kind_defs]: "KindAsKeyword = 129"
definition KindAssertsKeyword :: Kind where [kind_defs]: "KindAssertsKeyword = 130"
definition KindAssertKeyword :: Kind where [kind_defs]: "KindAssertKeyword = 131"
definition KindAnyKeyword :: Kind where [kind_defs]: "KindAnyKeyword = 132"
definition KindAsyncKeyword :: Kind where [kind_defs]: "KindAsyncKeyword = 133"
definition KindAwaitKeyword :: Kind where [kind_defs]: "KindAwaitKeyword = 134"
definition KindBooleanKeyword :: Kind where [kind_defs]: "KindBooleanKeyword = 135"
definition KindConstructorKeyword :: Kind where [kind_defs]: "KindConstructorKeyword = 136"
definition KindDeclareKeyword :: Kind where [kind_defs]: "KindDeclareKeyword = 137"
definition KindGetKeyword :: Kind where [kind_defs]: "KindGetKeyword = 138"
definition KindImmediateKeyword :: Kind where [kind_defs]: "KindImmediateKeyword = 139"
definition KindInferKeyword :: Kind where [kind_defs]: "KindInferKeyword = 140"
definition KindIntrinsicKeyword :: Kind where [kind_defs]: "KindIntrinsicKeyword = 141"
definition KindIsKeyword :: Kind where [kind_defs]: "KindIsKeyword = 142"
definition KindKeyOfKeyword :: Kind where [kind_defs]: "KindKeyOfKeyword = 143"
definition KindModuleKeyword :: Kind where [kind_defs]: "KindModuleKeyword = 144"
definition KindNamespaceKeyword :: Kind where [kind_defs]: "KindNamespaceKeyword = 145"
definition KindNeverKeyword :: Kind where [kind_defs]: "KindNeverKeyword = 146"
definition KindOutKeyword :: Kind where [kind_defs]: "KindOutKeyword = 147"
definition KindReadonlyKeyword :: Kind where [kind_defs]: "KindReadonlyKeyword = 148"
definition KindRequireKeyword :: Kind where [kind_defs]: "KindRequireKeyword = 149"
definition KindNumberKeyword :: Kind where [kind_defs]: "KindNumberKeyword = 150"
definition KindObjectKeyword :: Kind where [kind_defs]: "KindObjectKeyword = 151"
definition KindSatisfiesKeyword :: Kind where [kind_defs]: "KindSatisfiesKeyword = 152"
definition KindSetKeyword :: Kind where [kind_defs]: "KindSetKeyword = 153"
definition KindStringKeyword :: Kind where [kind_defs]: "KindStringKeyword = 154"
definition KindSymbolKeyword :: Kind where [kind_defs]: "KindSymbolKeyword = 155"
definition KindTypeKeyword :: Kind where [kind_defs]: "KindTypeKeyword = 156"
definition KindUndefinedKeyword :: Kind where [kind_defs]: "KindUndefinedKeyword = 157"
definition KindUniqueKeyword :: Kind where [kind_defs]: "KindUniqueKeyword = 158"
definition KindUnknownKeyword :: Kind where [kind_defs]: "KindUnknownKeyword = 159"
definition KindUsingKeyword :: Kind where [kind_defs]: "KindUsingKeyword = 160"
definition KindFromKeyword :: Kind where [kind_defs]: "KindFromKeyword = 161"
definition KindGlobalKeyword :: Kind where [kind_defs]: "KindGlobalKeyword = 162"
definition KindBigIntKeyword :: Kind where [kind_defs]: "KindBigIntKeyword = 163"
definition KindOverrideKeyword :: Kind where [kind_defs]: "KindOverrideKeyword = 164"
definition KindOfKeyword :: Kind where [kind_defs]: "KindOfKeyword = 165"

section \<open>Flags of a token\<close>

type_synonym TokenFlags = "32 word"

definition TokenFlagsNone :: TokenFlags where "TokenFlagsNone = 0"
definition TokenFlagsPrecedingLineBreak :: TokenFlags where "TokenFlagsPrecedingLineBreak = 1"
definition TokenFlagsPrecedingJSDocComment :: TokenFlags where "TokenFlagsPrecedingJSDocComment = 2"
definition TokenFlagsUnterminated :: TokenFlags where "TokenFlagsUnterminated = 4"
definition TokenFlagsExtendedUnicodeEscape :: TokenFlags where "TokenFlagsExtendedUnicodeEscape = 8"
definition TokenFlagsScientific :: TokenFlags where "TokenFlagsScientific = 16"
definition TokenFlagsOctal :: TokenFlags where "TokenFlagsOctal = 32"
definition TokenFlagsHexSpecifier :: TokenFlags where "TokenFlagsHexSpecifier = 64"
definition TokenFlagsBinarySpecifier :: TokenFlags where "TokenFlagsBinarySpecifier = 128"
definition TokenFlagsOctalSpecifier :: TokenFlags where "TokenFlagsOctalSpecifier = 256"
definition TokenFlagsContainsSeparator :: TokenFlags where "TokenFlagsContainsSeparator = 512"
definition TokenFlagsUnicodeEscape :: TokenFlags where "TokenFlagsUnicodeEscape = 1024"
definition TokenFlagsContainsInvalidEscape :: TokenFlags where "TokenFlagsContainsInvalidEscape = 2048"
definition TokenFlagsHexEscape :: TokenFlags where "TokenFlagsHexEscape = 4096"
definition TokenFlagsContainsLeadingZero :: TokenFlags where "TokenFlagsContainsLeadingZero = 8192"
definition TokenFlagsContainsInvalidSeparator :: TokenFlags where "TokenFlagsContainsInvalidSeparator = 16384"
definition TokenFlagsPrecedingJSDocLeadingAsterisks :: TokenFlags where "TokenFlagsPrecedingJSDocLeadingAsterisks = 32768"
definition TokenFlagsSingleQuote :: TokenFlags where "TokenFlagsSingleQuote = 65536"

unbundle bit_operations_syntax

definition TokenFlagsBinaryOrOctalSpecifier :: TokenFlags where
  "TokenFlagsBinaryOrOctalSpecifier = TokenFlagsBinarySpecifier OR TokenFlagsOctalSpecifier"

section \<open>Keywords and punctuation\<close>

definition textToKeyword :: "(string \<times> Kind) list" where
  "textToKeyword =
     [(''abstract'', KindAbstractKeyword), (''accessor'', KindAccessorKeyword), (''any'', KindAnyKeyword),
      (''as'', KindAsKeyword), (''asserts'', KindAssertsKeyword), (''assert'', KindAssertKeyword),
      (''bigint'', KindBigIntKeyword), (''boolean'', KindBooleanKeyword), (''break'', KindBreakKeyword),
      (''case'', KindCaseKeyword), (''catch'', KindCatchKeyword), (''class'', KindClassKeyword),
      (''continue'', KindContinueKeyword), (''const'', KindConstKeyword),
      (''constructor'', KindConstructorKeyword), (''debugger'', KindDebuggerKeyword),
      (''declare'', KindDeclareKeyword), (''default'', KindDefaultKeyword),
      (''delete'', KindDeleteKeyword), (''do'', KindDoKeyword), (''else'', KindElseKeyword),
      (''enum'', KindEnumKeyword), (''export'', KindExportKeyword), (''extends'', KindExtendsKeyword),
      (''false'', KindFalseKeyword), (''finally'', KindFinallyKeyword), (''for'', KindForKeyword),
      (''from'', KindFromKeyword), (''function'', KindFunctionKeyword), (''get'', KindGetKeyword),
      (''if'', KindIfKeyword), (''immediate'', KindImmediateKeyword),
      (''implements'', KindImplementsKeyword), (''import'', KindImportKeyword), (''in'', KindInKeyword),
      (''infer'', KindInferKeyword), (''instanceof'', KindInstanceOfKeyword),
      (''interface'', KindInterfaceKeyword), (''intrinsic'', KindIntrinsicKeyword),
      (''is'', KindIsKeyword), (''keyof'', KindKeyOfKeyword), (''let'', KindLetKeyword),
      (''module'', KindModuleKeyword), (''namespace'', KindNamespaceKeyword),
      (''never'', KindNeverKeyword), (''new'', KindNewKeyword), (''null'', KindNullKeyword),
      (''number'', KindNumberKeyword), (''object'', KindObjectKeyword), (''package'', KindPackageKeyword),
      (''private'', KindPrivateKeyword), (''protected'', KindProtectedKeyword),
      (''public'', KindPublicKeyword), (''override'', KindOverrideKeyword), (''out'', KindOutKeyword),
      (''readonly'', KindReadonlyKeyword), (''require'', KindRequireKeyword),
      (''global'', KindGlobalKeyword), (''return'', KindReturnKeyword),
      (''satisfies'', KindSatisfiesKeyword), (''set'', KindSetKeyword), (''static'', KindStaticKeyword),
      (''string'', KindStringKeyword), (''super'', KindSuperKeyword), (''switch'', KindSwitchKeyword),
      (''symbol'', KindSymbolKeyword), (''this'', KindThisKeyword), (''throw'', KindThrowKeyword),
      (''true'', KindTrueKeyword), (''try'', KindTryKeyword), (''type'', KindTypeKeyword),
      (''typeof'', KindTypeOfKeyword), (''undefined'', KindUndefinedKeyword),
      (''unique'', KindUniqueKeyword), (''unknown'', KindUnknownKeyword), (''using'', KindUsingKeyword),
      (''var'', KindVarKeyword), (''void'', KindVoidKeyword), (''while'', KindWhileKeyword),
      (''with'', KindWithKeyword), (''yield'', KindYieldKeyword), (''async'', KindAsyncKeyword),
      (''await'', KindAwaitKeyword), (''of'', KindOfKeyword)]"

definition textToToken :: "(string \<times> Kind) list" where
  "textToToken =
     [(''{'', KindOpenBraceToken), (''}'', KindCloseBraceToken), (''('', KindOpenParenToken),
      ('')'', KindCloseParenToken), (''['', KindOpenBracketToken), ('']'', KindCloseBracketToken),
      (''.'', KindDotToken), (''...'', KindDotDotDotToken), ('';'', KindSemicolonToken),
      ('','', KindCommaToken), (''<'', KindLessThanToken), (''>'', KindGreaterThanToken),
      (''<='', KindLessThanEqualsToken), (''>='', KindGreaterThanEqualsToken),
      (''=='', KindEqualsEqualsToken), (''!='', KindExclamationEqualsToken),
      (''==='', KindEqualsEqualsEqualsToken), (''!=='', KindExclamationEqualsEqualsToken),
      (''=>'', KindEqualsGreaterThanToken), (''+'', KindPlusToken), (''-'', KindMinusToken),
      (''**'', KindAsteriskAsteriskToken), (''*'', KindAsteriskToken), (''/'', KindSlashToken),
      (''%'', KindPercentToken), (''++'', KindPlusPlusToken), (''--'', KindMinusMinusToken),
      (''<<'', KindLessThanLessThanToken), (''</'', KindLessThanSlashToken),
      (''>>'', KindGreaterThanGreaterThanToken), (''>>>'', KindGreaterThanGreaterThanGreaterThanToken),
      (''&'', KindAmpersandToken), (''|'', KindBarToken), (''^'', KindCaretToken),
      (''!'', KindExclamationToken), (''~'', KindTildeToken), (''&&'', KindAmpersandAmpersandToken),
      (''||'', KindBarBarToken), (''?'', KindQuestionToken), (''??'', KindQuestionQuestionToken),
      (''?.'', KindQuestionDotToken), ('':'', KindColonToken), (''='', KindEqualsToken),
      (''+='', KindPlusEqualsToken), (''-='', KindMinusEqualsToken), (''*='', KindAsteriskEqualsToken),
      (''**='', KindAsteriskAsteriskEqualsToken), (''/='', KindSlashEqualsToken),
      (''%='', KindPercentEqualsToken), (''<<='', KindLessThanLessThanEqualsToken),
      (''>>='', KindGreaterThanGreaterThanEqualsToken),
      (''>>>='', KindGreaterThanGreaterThanGreaterThanEqualsToken), (''&='', KindAmpersandEqualsToken),
      (''|='', KindBarEqualsToken), (''^='', KindCaretEqualsToken), (''||='', KindBarBarEqualsToken),
      (''&&='', KindAmpersandAmpersandEqualsToken), (''??='', KindQuestionQuestionEqualsToken),
      (''@'', KindAtToken), (''#'', KindHashToken), (''`'', KindBacktickToken)] @ textToKeyword"

definition GetIdentifierToken :: "string \<Rightarrow> Kind" where
  "GetIdentifierToken str =
     (if 2 \<le> length str \<and> length str \<le> 12 \<and> CHR ''a'' \<le> hd str \<and> hd str \<le> CHR ''z'' then
        (case map_of textToKeyword str of Some keyword \<Rightarrow> keyword | None \<Rightarrow> KindIdentifier)
      else KindIdentifier)"

definition StringToToken :: "string \<Rightarrow> Kind" where
  "StringToToken s = (case map_of textToToken s of Some kind \<Rightarrow> kind | None \<Rightarrow> KindUnknown)"

text \<open>
  The code fills \<open>tokenToText\<close> in the (random) order of a Go map, so it is determined only if no two texts
  have the same kind, which \<open>texts_of_kinds_distinct\<close> shows.
\<close>

definition tokenToText :: "(Kind \<times> string) list" where
  "tokenToText = map (\<lambda>(text, key). (key, text)) textToToken"

definition TokenToString :: "Kind \<Rightarrow> string" where
  "TokenToString token = (case map_of tokenToText token of Some text \<Rightarrow> text | None \<Rightarrow> [])"

definition tokenIsIdentifierOrKeyword :: "Kind \<Rightarrow> bool" where
  "tokenIsIdentifierOrKeyword token = (token \<ge> KindIdentifier)"

definition GetViableKeywordSuggestions :: "string list" where
  "GetViableKeywordSuggestions = filter (\<lambda>text. length text > 2) (map fst textToKeyword)"

section \<open>The tables are one to one\<close>

lemma keyword_texts:
  "list_all (\<lambda>(text, k). 2 \<le> length text \<and> length text \<le> 12 \<and> CHR ''a'' \<le> hd text \<and> hd text \<le> CHR ''z'' \<and>
     k \<noteq> KindIdentifier \<and> k \<noteq> KindUnknown) textToKeyword"
  by code_simp

lemma texts_of_kinds_distinct: "distinct (map fst textToToken)" "distinct (map snd textToToken)"
  by (simp_all add: textToToken_def textToKeyword_def kind_defs)

lemma no_empty_token: "list_all (\<lambda>(text, k). text \<noteq> [] \<and> k \<noteq> KindUnknown) textToToken"
  by code_simp

lemma map_of_converse:
  assumes "distinct (map fst xs)" and "distinct (map snd xs)"
  shows "map_of (map (\<lambda>(a, b). (b, a)) xs) k = Some t \<longleftrightarrow> map_of xs t = Some k"
proof -
  have "map fst (map (\<lambda>(a, b). (b, a)) xs) = map snd xs" by (induction xs) auto
  then have "distinct (map fst (map (\<lambda>(a, b). (b, a)) xs))" using assms(2) by (simp only:)
  then have "map_of (map (\<lambda>(a, b). (b, a)) xs) k = Some t \<longleftrightarrow> (k, t) \<in> set (map (\<lambda>(a, b). (b, a)) xs)"
    by simp
  also have "\<dots> \<longleftrightarrow> (t, k) \<in> set xs" by force
  also have "\<dots> \<longleftrightarrow> map_of xs t = Some k" using assms(1) by simp
  finally show ?thesis .
qed

lemma texts_inverse: "map_of tokenToText k = Some t \<longleftrightarrow> map_of textToToken t = Some k"
  unfolding tokenToText_def by (rule map_of_converse [OF texts_of_kinds_distinct])

text \<open>C26. The keyword tables are consistent: the guard by length and first letter before the table lookup changes
  no answer, so an identifier's kind is that of the table; and kinds and token texts are inverse to each other,
  whatever the order in which the map of texts is filled.\<close>

theorem keyword_tables_inverse:
  "GetIdentifierToken s = (case map_of textToKeyword s of Some k \<Rightarrow> k | None \<Rightarrow> KindIdentifier) \<and>
   (StringToToken s = KindUnknown \<or> TokenToString (StringToToken s) = s) \<and>
   (TokenToString k = [] \<or> StringToToken (TokenToString k) = k)"
proof (intro conjI)
  have "2 \<le> length s \<and> length s \<le> 12 \<and> CHR ''a'' \<le> hd s \<and> hd s \<le> CHR ''z''" if "map_of textToKeyword s = Some k" for k
    using map_of_SomeD [OF that] keyword_texts by (auto simp: list_all_iff)
  then show "GetIdentifierToken s = (case map_of textToKeyword s of Some k \<Rightarrow> k | None \<Rightarrow> KindIdentifier)"
    by (auto simp: GetIdentifierToken_def split: option.splits)
next
  show "StringToToken s = KindUnknown \<or> TokenToString (StringToToken s) = s"
  proof (cases "map_of textToToken s")
    case (Some k)
    then have "map_of tokenToText k = Some s" by (rule texts_inverse [THEN iffD2])
    with Some show ?thesis by (simp add: StringToToken_def TokenToString_def)
  qed (simp add: StringToToken_def)
  show "TokenToString k = [] \<or> StringToToken (TokenToString k) = k"
  proof (cases "map_of tokenToText k")
    case (Some t)
    then have "map_of textToToken t = Some k" by (rule texts_inverse [THEN iffD1])
    with Some show ?thesis by (simp add: StringToToken_def TokenToString_def)
  qed (simp add: TokenToString_def)
qed

end
