(* ===== verification/Scanner_Trivia.thy ===== *)
theory Scanner_Trivia
  imports Scanner_Unicode Ast_Kinds
begin

text \<open>
  What lies between tokens (\<open>internal/scanner/scanner.go\<close>): conflict markers, the line of a \<open>#!\<close>, comments
  and white space, and the functions on the bare text that skip them or list the comments. A position is
  an offset in bytes. Indexing and slicing beyond the text are panics, as in the code.
\<close>

abbreviation rune :: "char \<Rightarrow> nat" where "rune \<equiv> of_char"
abbreviation TAB :: char where "TAB \<equiv> CHR 0x09"
abbreviation VT :: char where "VT \<equiv> CHR 0x0B"
abbreviation FF :: char where "FF \<equiv> CHR 0x0C"
abbreviation backslash :: char where "backslash \<equiv> CHR 0x5C"
abbreviation quote_mark :: char where "quote_mark \<equiv> CHR 0x22"
abbreviation apostrophe :: char where "apostrophe \<equiv> CHR 0x27"
abbreviation backtick :: char where "backtick \<equiv> CHR 0x60"

section \<open>Loops over runes\<close>

text \<open>
  The position behind the runes in \<open>p\<close>, from \<open>pos\<close> on: the loop \<open>ch, size := decode; pos += size\<close> that
  stops at the first other rune or at the end of the text.
\<close>

function skip_runes :: "(nat \<Rightarrow> bool) \<Rightarrow> string \<Rightarrow> nat \<Rightarrow> nat" where
  "skip_runes p text pos =
     (if pos < length text then
        (case DecodeRuneInString (drop pos text) of (ch, width) \<Rightarrow>
           if p ch then skip_runes p text (pos + width) else pos)
      else pos)"
  by pat_completeness auto
termination
proof (relation "measure (\<lambda>(p, text, pos). length text - pos)", goal_cases)
  case (2 p t pos ch width)
  then have "0 < width" using decode_width(1) [of "drop pos t"] by (auto simp: snd_eq_iff)
  with 2 show ?case by auto
qed simp

declare skip_runes.simps [simp del]

definition skip_line :: "string \<Rightarrow> nat \<Rightarrow> nat" where
  "skip_line = skip_runes (\<lambda>ch. \<not> IsLineBreak ch)"

section \<open>Conflict markers\<close>

text \<open>The markers are seven equal characters; \<open>mergeConflictMarkerLength\<close> is 7.\<close>

definition isConflictMarkerTrivia :: "string \<Rightarrow> nat \<Rightarrow> bool go" where
  "isConflictMarkerTrivia text pos =
     go_bind (if pos \<ge> 2 then
                go_bind (go_slice text 0 (int pos - 2)) (\<lambda>before. Inr (fst (DecodeLastRuneInString before)))
              else Inr 0) (\<lambda>prev.
     go_bind (if pos = 0 \<or> IsLineBreak prev then Inr True
              else go_bind (index_get text (int pos - 1)) (\<lambda>c. Inr (IsLineBreak (rune c)))) (\<lambda>lineStart.
       if lineStart then
         go_bind (index_get text (int pos)) (\<lambda>ch.
           if pos + 7 < length text then
             if \<exists>i \<in> set [0..<7]. text ! (pos + i) \<noteq> ch then Inr False
             else Inr (ch = CHR ''='' \<or> text ! (pos + 7) = CHR '' '')
           else Inr False)
       else Inr False))"

function marker_loop :: "char \<Rightarrow> string \<Rightarrow> nat \<Rightarrow> nat go" where
  "marker_loop ch text pos =
     (if pos < length text then
        let currentChar = text ! pos in
        go_bind (if (currentChar = CHR ''='' \<or> currentChar = CHR ''>'') \<and> currentChar \<noteq> ch
                 then isConflictMarkerTrivia text pos else Inr False) (\<lambda>marker.
          if marker then Inr pos else marker_loop ch text (pos + 1))
      else Inr pos)"
  by pat_completeness auto
termination
  by (relation "measure (\<lambda>(ch, text, pos). length text - pos)") auto

declare marker_loop.simps [simp del]

definition scanConflictMarkerTrivia :: "string \<Rightarrow> nat \<Rightarrow> nat go" where
  "scanConflictMarkerTrivia text pos =
     go_bind (go_slice text (int pos) (int (length text))) (\<lambda>rest.
       let ch = fst (DecodeRuneInString rest) in
       if ch = rune CHR ''<'' \<or> ch = rune CHR ''>'' then Inr (skip_line text pos)
       else if ch \<noteq> rune CHR ''|'' \<and> ch \<noteq> rune CHR ''='' then
         Inl (Panicked ''Assertion failed: ch must be either | or ='')
       else marker_loop (char_of ch) text pos)"

section \<open>The first line of a script\<close>

definition isShebangTrivia :: "string \<Rightarrow> nat \<Rightarrow> bool go" where
  "isShebangTrivia text pos =
     (if length text < 2 then Inr False
      else if pos \<noteq> 0 then Inl (Panicked ''Shebangs check must only be done at the start of the file'')
      else Inr (text ! 0 = CHR ''#'' \<and> text ! 1 = CHR ''!''))"

definition scanShebangTrivia :: "string \<Rightarrow> nat \<Rightarrow> nat" where
  "scanShebangTrivia text pos = skip_line text (pos + 2)"

section \<open>Skipping trivia\<close>

definition couldStartTrivia :: "string \<Rightarrow> nat \<Rightarrow> bool go" where
  "couldStartTrivia text pos =
     go_bind (index_get text (int pos)) (\<lambda>ch.
       if ch \<in> {CR, LF, TAB, VT, FF, CHR '' '', CHR ''/'', CHR ''<'', CHR ''|'', CHR ''='', CHR ''>''} then Inr True
       else if ch = CHR ''#'' then Inr (pos = 0)
       else Inr (rune ch > 127))"

record SkipTriviaOptions =
  StopAfterLineBreak :: bool
  StopAtComments :: bool
  InJSDoc :: bool

definition default_skip :: SkipTriviaOptions where
  "default_skip = \<lparr>StopAfterLineBreak = False, StopAtComments = False, InJSDoc = False\<rparr>"

text \<open>The loop over a block comment looks at the byte behind a star without a check for the end.\<close>

function block_comment_loop :: "string \<Rightarrow> nat \<Rightarrow> nat go" where
  "block_comment_loop text pos =
     (if pos < length text then
        if text ! pos = CHR ''*'' \<and> pos + 1 \<ge> length text then Inl IndexOutOfRange
        else if text ! pos = CHR ''*'' \<and> text ! (pos + 1) = CHR ''/'' then Inr (pos + 2)
        else block_comment_loop text (pos + snd (DecodeRuneInString (drop pos text)))
      else Inr pos)"
  by pat_completeness auto
termination
proof (relation "measure (\<lambda>(text, pos). length text - pos)", goal_cases)
  case (2 t pos)
  then show ?case using decode_width(1) [of "drop pos t"] by auto
qed simp

declare block_comment_loop.simps [simp del]

datatype trivia_step = Continues nat bool | Stops nat

definition after_line_break :: "SkipTriviaOptions \<Rightarrow> nat \<Rightarrow> trivia_step" where
  "after_line_break options pos =
     (if StopAfterLineBreak options then Stops pos else Continues pos (InJSDoc options))"

definition skip_trivia_step :: "string \<Rightarrow> SkipTriviaOptions \<Rightarrow> nat \<Rightarrow> bool \<Rightarrow> trivia_step go" where
  "skip_trivia_step text options pos canConsumeStar =
     go_bind (go_slice text (int pos) (int (length text))) (\<lambda>rest.
       case DecodeRuneInString rest of (ch, width) \<Rightarrow>
       if ch = rune CR then
         go_bind (index_get text (int pos + 1)) (\<lambda>next.
           Inr (after_line_break options (if next = LF then pos + 2 else pos + 1)))
       else if ch = rune LF then Inr (after_line_break options (pos + 1))
       else if ch \<in> {rune TAB, rune VT, rune FF, rune CHR '' ''} then Inr (Continues (pos + 1) canConsumeStar)
       else if ch = rune CHR ''/'' then
         if StopAtComments options then Inr (Stops pos)
         else if pos + 1 < length text \<and> text ! (pos + 1) = CHR ''/'' then
           Inr (Continues (skip_line text (pos + 2)) False)
         else if pos + 1 < length text \<and> text ! (pos + 1) = CHR ''*'' then
           go_bind (block_comment_loop text (pos + 2)) (\<lambda>end. Inr (Continues end False))
         else Inr (Stops pos)
       else if ch \<in> {rune CHR ''<'', rune CHR ''|'', rune CHR ''='', rune CHR ''>''} then
         go_bind (isConflictMarkerTrivia text pos) (\<lambda>marker.
           if marker then
             go_bind (scanConflictMarkerTrivia text pos) (\<lambda>end. Inr (Continues end False))
           else Inr (Stops pos))
       else if ch = rune CHR ''#'' then
         if pos = 0 then
           go_bind (isShebangTrivia text pos) (\<lambda>shebang.
             if shebang then Inr (Continues (scanShebangTrivia text pos) False) else Inr (Stops pos))
         else Inr (Stops pos)
       else if ch = rune CHR ''*'' then
         if canConsumeStar then Inr (Continues (pos + 1) False) else Inr (Stops pos)
       else if ch > 127 \<and> IsWhiteSpaceLike ch then Inr (Continues (pos + width) canConsumeStar)
       else Inr (Stops pos))"

section \<open>Every step goes on\<close>

lemma decode_small:
  assumes "DecodeRuneInString s = (r, n)" and "r < 128"
  shows "s \<noteq> []" and "rune (hd s) = r" and "n = 1"
proof -
  show "s \<noteq> []" using assms by auto
  then obtain c s' where s: "s = c # s'" by (cases s) auto
  have "(of_char c :: nat) < 128"
    using assms unfolding s DecodeRuneInString_def byte_values_def
    by (auto simp: second_ok_def cont_def split: if_splits list.splits)
  with assms show "rune (hd s) = r" "n = 1" by (auto simp: s decode_ascii)
qed

lemma skip_runes_le: "pos \<le> skip_runes p t pos" "pos \<le> length t \<Longrightarrow> skip_runes p t pos \<le> length t"
proof (induction p t pos rule: skip_runes.induct)
  case (1 p t pos)
  have w: "snd (DecodeRuneInString (drop pos t)) \<le> length t - pos" if "pos < length t"
    using decode_width(2) [of "drop pos t"] that by simp
  {
    case 1
    then show ?case using "1.IH" w by (subst skip_runes.simps) (fastforce split: prod.splits)
  next
    case 2
    then show ?case using "1.IH" w by (subst skip_runes.simps) (fastforce split: prod.splits)
  }
qed

lemma skip_line_le [simp]: "pos \<le> skip_line t pos" "pos \<le> length t \<Longrightarrow> skip_line t pos \<le> length t"
  by (simp_all add: skip_line_def skip_runes_le)

lemma block_comment_loop_le:
  "block_comment_loop t pos = Inr end \<Longrightarrow> pos \<le> end \<and> (pos \<le> length t \<longrightarrow> end \<le> length t)"
proof (induction t pos rule: block_comment_loop.induct)
  case (1 t pos)
  have w: "snd (DecodeRuneInString (drop pos t)) \<le> length t - pos" if "pos < length t"
    using decode_width(2) [of "drop pos t"] that by simp
  show ?case
    using 1 w by (subst (asm) (2) block_comment_loop.simps) (force split: if_splits)
qed

lemma marker_loop_le: "marker_loop ch t pos = Inr end \<Longrightarrow> pos \<le> end \<and> (pos \<le> length t \<longrightarrow> end \<le> length t)"
proof (induction ch t pos rule: marker_loop.induct)
  case (1 ch t pos)
  show ?case
    using 1 by (subst (asm) (2) marker_loop.simps) (force simp: Let_def elim!: go_bind_InrD split: if_splits)
qed

lemma skip_runes_step: "pos < length t \<Longrightarrow> p (fst (DecodeRuneInString (drop pos t))) \<Longrightarrow>
  skip_runes p t pos = skip_runes p t (pos + snd (DecodeRuneInString (drop pos t)))"
  by (subst skip_runes.simps) (auto split: prod.splits)

lemma scanConflictMarkerTrivia_progress:
  assumes "scanConflictMarkerTrivia t pos = Inr end" and "pos < length t"
  shows "pos < end \<and> end \<le> length t"
proof -
  obtain ch n where d: "DecodeRuneInString (drop pos t) = (ch, n)" by (cases "DecodeRuneInString (drop pos t)")
  have n: "1 \<le> n" "pos + n \<le> length t"
    using decode_width [of "drop pos t"] assms(2) d by auto
  have slice: "go_slice t (int pos) (int (length t)) = Inr (drop pos t)"
    using assms(2) by (simp add: go_slice_def)
  consider (a) "ch = rune CHR ''<'' \<or> ch = rune CHR ''>''" "end = skip_line t pos"
    | (b) "ch = rune CHR ''|'' \<or> ch = rune CHR ''=''" "marker_loop (char_of ch) t pos = Inr end"
    using assms(1) d slice by (auto simp: scanConflictMarkerTrivia_def Let_def split: if_splits)
  then show ?thesis
  proof cases
    case a
    then have "end = skip_line t (pos + n)"
      using d assms(2) by (auto simp: skip_line_def skip_runes_step IsLineBreak_def)
    with n show ?thesis using skip_line_le [where pos = "pos + n" and t = t] by linarith
  next
    case b
    then have "rune (hd (drop pos t)) = ch" using decode_small(2) [OF d] by auto
    then have "t ! pos = char_of ch" using assms(2) by (auto simp: hd_drop_conv_nth)
    with b(2) assms(2) have "marker_loop (char_of ch) t (pos + 1) = Inr end"
      by (subst (asm) marker_loop.simps) simp
    with marker_loop_le [OF this] assms(2) show ?thesis by simp
  qed
qed

lemma skip_trivia_step_progress:
  assumes "skip_trivia_step t options pos cs = Inr (Continues pos' cs')"
  shows "pos < pos' \<and> pos' \<le> length t"
proof -
  have le: "pos \<le> length t" using assms by (auto simp: skip_trivia_step_def go_slice_def split: if_splits)
  obtain ch n where d: "DecodeRuneInString (drop pos t) = (ch, n)" by (cases "DecodeRuneInString (drop pos t)")
  show ?thesis
  proof (cases "pos = length t")
    case True
    then show ?thesis using assms by (simp add: skip_trivia_step_def go_slice_def IsWhiteSpaceLike_def
          IsWhiteSpaceSingleLine_def IsLineBreak_def)
  next
    case False
    with le have less: "pos < length t" by simp
    then have "1 \<le> n" "pos + n \<le> length t" using decode_width [of "drop pos t"] d by auto
    then show ?thesis
      using assms less d
      by (auto simp: skip_trivia_step_def go_slice_def index_get_def after_line_break_def isShebangTrivia_def
          scanShebangTrivia_def elim!: go_bind_InrD split: if_splits
          dest!: block_comment_loop_le scanConflictMarkerTrivia_progress intro: less_le_trans [OF _ skip_line_le(1)])
  qed
qed

section \<open>The loop\<close>

function skip_trivia_loop :: "string \<Rightarrow> SkipTriviaOptions \<Rightarrow> nat \<Rightarrow> bool \<Rightarrow> nat go" where
  "skip_trivia_loop text options pos canConsumeStar =
     (case skip_trivia_step text options pos canConsumeStar of
        Inl e \<Rightarrow> Inl e
      | Inr (Stops end) \<Rightarrow> Inr end
      | Inr (Continues pos' canConsumeStar') \<Rightarrow> skip_trivia_loop text options pos' canConsumeStar')"
  by pat_completeness auto
termination
proof (relation "measure (\<lambda>(text, options, pos, canConsumeStar). length text - pos)", goal_cases)
  case (2 t options pos cs r pos' cs')
  from 2(2) [symmetric] show ?case
    unfolding 2(1) using skip_trivia_step_progress 2 by fastforce
qed simp

declare skip_trivia_loop.simps [simp del]

definition SkipTriviaEx :: "string \<Rightarrow> int \<Rightarrow> SkipTriviaOptions \<Rightarrow> int go" where
  "SkipTriviaEx text pos options =
     (if pos < 0 then Inr pos
      else go_bind (skip_trivia_loop text options (nat pos) False) (\<lambda>end. Inr (int end)))"

definition SkipTrivia :: "string \<Rightarrow> int \<Rightarrow> int go" where
  "SkipTrivia text pos = SkipTriviaEx text pos default_skip"

section \<open>Comments\<close>

record CommentRange =
  cr_pos :: nat
  cr_end :: nat
  cr_Kind :: Kind
  cr_HasTrailingNewLine :: bool

function comment_end_loop :: "string \<Rightarrow> nat \<Rightarrow> nat" where
  "comment_end_loop text pos =
     (if pos < length text then
        if text ! pos = CHR ''*'' \<and> pos + 1 < length text \<and> text ! (pos + 1) = CHR ''/'' then pos + 2
        else comment_end_loop text (pos + snd (DecodeRuneInString (drop pos text)))
      else pos)"
  by pat_completeness auto
termination
proof (relation "measure (\<lambda>(text, pos). length text - pos)", goal_cases)
  case (2 t pos)
  then show ?case using decode_width(1) [of "drop pos t"] by auto
qed simp

declare comment_end_loop.simps [simp del]

text \<open>The variables of \<open>iterateCommentRanges\<close>: position, collecting, the pending range and the ranges yielded.\<close>

record comment_scan =
  cs_pos :: nat
  cs_collecting :: bool
  cs_pending :: "CommentRange option"
  cs_yielded :: "CommentRange list"

definition trailing_new_line :: "comment_scan \<Rightarrow> comment_scan" where
  "trailing_new_line c =
     c\<lparr>cs_pending := map_option (cr_HasTrailingNewLine_update (\<lambda>_. True)) (cs_pending c)\<rparr>"

definition yield_pending :: "comment_scan \<Rightarrow> CommentRange list" where
  "yield_pending c = cs_yielded c @ (case cs_pending c of Some r \<Rightarrow> [r] | None \<Rightarrow> [])"

definition collect_comment :: "string \<Rightarrow> char \<Rightarrow> comment_scan \<Rightarrow> comment_scan" where
  "collect_comment text nextChar c =
     (let startPos = cs_pos c;
          lineComment = (nextChar = CHR ''/'');
          pos = (if lineComment then skip_line text (startPos + 2) else comment_end_loop text (startPos + 2));
          found_range = \<lparr>cr_pos = startPos, cr_end = pos,
                   cr_Kind = (if lineComment then KindSingleLineCommentTrivia else KindMultiLineCommentTrivia),
                   cr_HasTrailingNewLine = (lineComment \<and> pos < length text)\<rparr>
      in if cs_collecting c then c\<lparr>cs_pos := pos, cs_yielded := yield_pending c, cs_pending := Some found_range\<rparr>
         else c\<lparr>cs_pos := pos\<rparr>)"

text \<open>One round of the loop labelled \<open>scan\<close>; \<open>None\<close> when it is left.\<close>

definition comment_step :: "string \<Rightarrow> bool \<Rightarrow> comment_scan \<Rightarrow> comment_scan option" where
  "comment_step text trailing c =
     (let pos = cs_pos c in
      case DecodeRuneInString (drop pos text) of (ch, width) \<Rightarrow>
      if ch = rune CR \<or> ch = rune LF then
        let pos' = (if ch = rune CR \<and> pos + 1 < length text \<and> text ! (pos + 1) = LF then pos + 2 else pos + 1) in
        if trailing then None
        else Some (trailing_new_line (c\<lparr>cs_pos := pos', cs_collecting := True\<rparr>))
      else if ch \<in> {rune TAB, rune VT, rune FF, rune CHR '' ''} then Some (c\<lparr>cs_pos := pos + 1\<rparr>)
      else if ch = rune CHR ''/'' then
        if pos + 1 < length text \<and> (text ! (pos + 1) = CHR ''/'' \<or> text ! (pos + 1) = CHR ''*'')
        then Some (collect_comment text (text ! (pos + 1)) c)
        else None
      else if ch > 127 \<and> IsWhiteSpaceLike ch then
        Some ((if IsLineBreak ch then trailing_new_line c else c)\<lparr>cs_pos := pos + width\<rparr>)
      else None)"

lemma comment_end_loop_le: "pos \<le> comment_end_loop t pos" "pos \<le> length t \<Longrightarrow> comment_end_loop t pos \<le> length t"
proof (induction t pos rule: comment_end_loop.induct)
  case (1 t pos)
  have w: "snd (DecodeRuneInString (drop pos t)) \<le> length t - pos" if "pos < length t"
    using decode_width(2) [of "drop pos t"] that by simp
  {
    case 1
    then show ?case using "1.IH" by (subst comment_end_loop.simps) fastforce
  next
    case 2
    then show ?case using "1.IH" w by (subst comment_end_loop.simps) fastforce
  }
qed

lemma comment_step_progress:
  assumes "comment_step t trailing c = Some c'" and "cs_pos c < length t"
  shows "cs_pos c < cs_pos c' \<and> cs_pos c' \<le> length t"
proof -
  let ?pos = "cs_pos c"
  obtain ch n where d: "DecodeRuneInString (drop ?pos t) = (ch, n)" by (cases "DecodeRuneInString (drop ?pos t)")
  with assms(2) have n: "1 \<le> n" "?pos + n \<le> length t" using decode_width [of "drop ?pos t"] by auto
  have ends: "?pos < skip_line t (Suc (Suc ?pos))" "?pos < comment_end_loop t (Suc (Suc ?pos))"
    by (rule less_le_trans [OF _ skip_line_le(1)], simp, rule less_le_trans [OF _ comment_end_loop_le(1)], simp)
  have "cs_pos (collect_comment t x c) = (if x = CHR ''/'' then skip_line t (?pos + 2) else comment_end_loop t (?pos + 2))" for x
    by (simp add: collect_comment_def Let_def)
  with assms n d ends show ?thesis
    by (auto simp: comment_step_def Let_def trailing_new_line_def comment_end_loop_le split: if_splits)
qed

function comment_loop :: "string \<Rightarrow> bool \<Rightarrow> comment_scan \<Rightarrow> CommentRange list" where
  "comment_loop text trailing c =
     (if cs_pos c < length text then
        (case comment_step text trailing c of
           Some c' \<Rightarrow> comment_loop text trailing c'
         | None \<Rightarrow> yield_pending c)
      else yield_pending c)"
  by pat_completeness auto
termination
  by (relation "measure (\<lambda>(text, trailing, c). length text - cs_pos c)") (auto dest!: comment_step_progress)

declare comment_loop.simps [simp del]

text \<open>The ranges that \<open>iterateCommentRanges\<close> yields to a consumer that takes all of them.\<close>

definition iterateCommentRanges :: "string \<Rightarrow> nat \<Rightarrow> bool \<Rightarrow> CommentRange list go" where
  "iterateCommentRanges text pos trailing =
     (if pos = 0 then
        go_bind (isShebangTrivia text pos) (\<lambda>shebang.
          Inr (comment_loop text trailing
                 \<lparr>cs_pos = (if shebang then scanShebangTrivia text pos else pos), cs_collecting = True,
                  cs_pending = None, cs_yielded = []\<rparr>))
      else Inr (comment_loop text trailing
                  \<lparr>cs_pos = pos, cs_collecting = trailing, cs_pending = None, cs_yielded = []\<rparr>))"

definition GetLeadingCommentRanges :: "string \<Rightarrow> nat \<Rightarrow> CommentRange list go" where
  "GetLeadingCommentRanges text pos = iterateCommentRanges text pos False"

definition GetTrailingCommentRanges :: "string \<Rightarrow> nat \<Rightarrow> CommentRange list go" where
  "GetTrailingCommentRanges text pos = iterateCommentRanges text pos True"

end
