(* ===== verification/Actions_Wp.thy ===== *)
theory Actions_Wp
  imports Actions
begin

text \<open>
  Total correctness of actions: \<open>wp m Q s\<close> says that a run of \<open>m\<close> from \<open>s\<close> returns, without a panic, a value
  and a state that satisfy \<open>Q\<close>. The rules are equations, one per combinator, so that \<open>simp\<close> computes the
  condition of a body; a function has one rule of the form \<open>wp_\<dots>\<close> that its callers use. A loop of the code is
  \<open>loop\<close>: the body returns the loop variables of the next round (\<open>again\<close>) or the result (\<open>leave\<close>).
\<close>

definition wp :: "('s, 'a) action \<Rightarrow> ('a \<Rightarrow> 's \<Rightarrow> bool) \<Rightarrow> 's \<Rightarrow> bool" where
  "wp m Q s = (case m s of Inl e \<Rightarrow> False | Inr (x, s') \<Rightarrow> Q x s')"

lemma wp_conseq: "wp m Q s \<Longrightarrow> (\<And>x s'. Q x s' \<Longrightarrow> Q' x s') \<Longrightarrow> wp m Q' s"
  by (auto simp: wp_def split: sum.splits)

lemma wp_ret [simp]: "wp (ret x) Q s \<longleftrightarrow> Q x s"
  by (simp add: wp_def)

lemma wp_gets [simp]: "wp (gets f) Q s \<longleftrightarrow> Q (f s) s"
  by (simp add: wp_def)

lemma wp_modify [simp]: "wp (modify f) Q s \<longleftrightarrow> Q () (f s)"
  by (simp add: wp_def)

lemma wp_lift [simp]: "wp (lift_go (Inr x)) Q s \<longleftrightarrow> Q x s" "wp (lift_go (Inl e)) Q s \<longleftrightarrow> False"
  by (simp_all add: wp_def)

lemma wp_seq [simp]: "wp (seq m f) Q s \<longleftrightarrow> wp m (\<lambda>x. wp (f x) Q) s"
  by (auto simp: wp_def seq_def split: sum.splits)

lemma wp_cond [simp]: "wp (if b then m1 else m2) Q s \<longleftrightarrow> (if b then wp m1 Q s else wp m2 Q s)"
  by simp

lemma wp_option: "wp (case r of None \<Rightarrow> m | Some x \<Rightarrow> f x) Q s \<longleftrightarrow> (case r of None \<Rightarrow> wp m Q s | Some x \<Rightarrow> wp (f x) Q s)"
  by (simp split: option.splits)

lemma wp_prod [simp]: "wp (case p of (a, b) \<Rightarrow> f a b) Q s \<longleftrightarrow> (case p of (a, b) \<Rightarrow> wp (f a b) Q s)"
  by (simp split: prod.splits)

lemma wp_conj: "wp m (\<lambda>x s'. P x s' \<and> Q x s') s \<longleftrightarrow> wp m P s \<and> wp m Q s"
  by (auto simp: wp_def split: sum.splits)

lemma wpE:
  assumes "wp m Q s"
  obtains x s' where "m s = Inr (x, s')" and "Q x s'"
  using assms by (auto simp: wp_def split: sum.splits)

lemma wpI: "m s = Inr (x, s') \<Longrightarrow> Q x s' \<Longrightarrow> wp m Q s"
  by (simp add: wp_def)

section \<open>Loops\<close>

primrec iterate :: "nat \<Rightarrow> ('v \<Rightarrow> ('s, 'v + 'a) action) \<Rightarrow> 'v \<Rightarrow> ('s, 'a) action" where
  "iterate 0 body v = lift_go (Inl Diverges)"
| "iterate (Suc n) body v =
     seq (body v) (\<lambda>r. case r of Inl v' \<Rightarrow> iterate n body v' | Inr x \<Rightarrow> ret x)"

definition again :: "'v \<Rightarrow> ('s, 'v + 'a) action" where
  "again v = ret (Inl v)"

definition leave :: "'a \<Rightarrow> ('s, 'v + 'a) action" where
  "leave x = ret (Inr x)"

lemma wp_again [simp]: "wp (again v) Q s \<longleftrightarrow> Q (Inl v) s"
  by (simp add: again_def)

lemma wp_leave [simp]: "wp (leave x) Q s \<longleftrightarrow> Q (Inr x) s"
  by (simp add: leave_def)

text \<open>
  The rule for loops: an invariant that the body keeps, and a measure that falls with every round that
  goes on. The number of rounds the loop is given has to exceed the measure.
\<close>

definition round_ok :: "('v \<Rightarrow> 's \<Rightarrow> bool) \<Rightarrow> ('s \<Rightarrow> nat) \<Rightarrow> ('a \<Rightarrow> 's \<Rightarrow> bool) \<Rightarrow> nat \<Rightarrow> 'v + 'a \<Rightarrow> 's \<Rightarrow> bool" where
  "round_ok I f Q n r s = (case r of Inl v \<Rightarrow> I v s \<and> f s < n | Inr x \<Rightarrow> Q x s)"

lemma round_ok_simps [simp]:
  "round_ok I f Q n (Inl v) s \<longleftrightarrow> I v s \<and> f s < n"
  "round_ok I f Q n (Inr x) s \<longleftrightarrow> Q x s"
  by (simp_all add: round_ok_def)

lemma wp_iterate:
  assumes body: "\<And>v s. I v s \<Longrightarrow> wp (body v) (round_ok I f Q (f s)) s"
  shows "I v s \<Longrightarrow> f s < n \<Longrightarrow> wp (iterate n body v) Q s"
proof (induction n arbitrary: v s)
  case (Suc n)
  from body [OF Suc.prems(1)] show ?case
  proof (rule wpE)
    fix r s'
    assume run: "body v s = Inr (r, s')" and r: "round_ok I f Q (f s) r s'"
    show ?thesis
    proof (cases r)
      case (Inl v')
      with r Suc.prems(2) have "wp (iterate n body v') Q s'" by (intro Suc.IH) auto
      with run Inl show ?thesis by (simp add: wp_def)
    next
      case (Inr x)
      with run r show ?thesis by (simp add: wp_def)
    qed
  qed
qed simp

end
