(* ===== verification/Scanner_State.thy ===== *)
theory Scanner_State
  imports Scanner_Trivia Actions_Wp
begin

text \<open>
  The scanner's state (\<open>Scanner\<close> and \<open>ScannerState\<close> of \<open>internal/scanner/scanner.go\<close>), its accessors and
  the small methods the others are built from. The state that \<open>Mark\<close> and \<open>Rewind\<close> copy comes first, the
  settings extend it. A position is never negative: \<open>ResetPos\<close> panics on negative arguments and every
  step back undoes steps forward. \<open>charAt\<close> gives \<open>None\<close> where the code gives the rune -1.

  The error callback becomes the list \<open>sc_errors\<close> of its calls, in order: it has no other effect on the
  scanner. The value of a numeral is computed in floating point by \<open>jsnum.FromString\<close> and printed by its
  \<open>String\<close>; the composition of the two is the field \<open>sc_numberText\<close>, an argument of the model.
\<close>

unbundle bit_operations_syntax

section \<open>State\<close>

datatype CommentDirectiveKind =
  CommentDirectiveKindUnknown | CommentDirectiveKindExpectError | CommentDirectiveKindIgnore

record CommentDirective =
  cd_pos :: nat
  cd_end :: nat
  cd_Kind :: CommentDirectiveKind

datatype JSDocParsingMode =
  JSDocParsingModeParseAll | JSDocParsingModeParseNone
| JSDocParsingModeParseForTypeErrors | JSDocParsingModeParseForTypeInfo

record ScanError =
  se_message :: string
  se_pos :: int
  se_length :: int
  se_args :: "string list"

record ScannerState =
  sc_pos :: nat
  sc_fullStartPos :: nat
  sc_tokenStart :: nat
  sc_token :: Kind
  sc_tokenValue :: string
  sc_tokenFlags :: TokenFlags
  sc_commentDirectives :: "CommentDirective list"
  sc_skipJSDocLeadingAsterisks :: int

record Scanner = ScannerState +
  sc_text :: string
  sc_languageVersion :: ScriptTarget
  sc_languageVariant :: LanguageVariant
  sc_skipTrivia :: bool
  sc_JSDocParsingMode :: JSDocParsingMode
  sc_scriptKind :: ScriptKind
  sc_numberText :: "string \<Rightarrow> string"
  sc_errors :: "ScanError list"

type_synonym 'a scanning = "(Scanner, 'a) action"

definition zero_state :: ScannerState where
  "zero_state =
     \<lparr>sc_pos = 0, sc_fullStartPos = 0, sc_tokenStart = 0, sc_token = KindUnknown, sc_tokenValue = [],
      sc_tokenFlags = TokenFlagsNone, sc_commentDirectives = [], sc_skipJSDocLeadingAsterisks = 0\<rparr>"

definition with_settings :: "ScannerState \<Rightarrow> Scanner \<Rightarrow> Scanner" where
  "with_settings st s = ScannerState.extend st (ScannerState.more s)"

definition defaultScanner :: "(string \<Rightarrow> string) \<Rightarrow> Scanner" where
  "defaultScanner numberText =
     ScannerState.extend zero_state
       (Scanner.fields [] ScriptTargetESNext LanguageVariantStandard True JSDocParsingModeParseAll
          ScriptKindUnknown numberText [])"

definition Reset :: "Scanner \<Rightarrow> Scanner" where
  "Reset s = (defaultScanner (sc_numberText s))\<lparr>sc_errors := sc_errors s\<rparr>"

definition Mark :: "Scanner \<Rightarrow> ScannerState" where
  "Mark s = ScannerState.truncate s"

definition Rewind :: "ScannerState \<Rightarrow> Scanner \<Rightarrow> Scanner" where
  "Rewind state s = with_settings state s"

definition SetText :: "string \<Rightarrow> Scanner \<Rightarrow> Scanner" where
  "SetText txt s = (with_settings zero_state s)\<lparr>sc_text := txt\<rparr>"

definition ResetPos :: "int \<Rightarrow> unit scanning" where
  "ResetPos pos =
     (if pos < 0 then lift_go (Inl (Panicked ''Cannot reset token state to negative position''))
      else modify (\<lambda>s. s\<lparr>sc_pos := nat pos, sc_fullStartPos := nat pos, sc_tokenStart := nat pos\<rparr>))"

definition SetSkipJSDocLeadingAsterisks :: "bool \<Rightarrow> Scanner \<Rightarrow> Scanner" where
  "SetSkipJSDocLeadingAsterisks skip s =
     s\<lparr>sc_skipJSDocLeadingAsterisks := sc_skipJSDocLeadingAsterisks s + (if skip then 1 else -1)\<rparr>"

definition TokenText :: "Scanner \<Rightarrow> string go" where
  "TokenText s = go_slice (sc_text s) (int (sc_tokenStart s)) (int (sc_pos s))"

definition HasUnicodeEscape :: "Scanner \<Rightarrow> bool" where
  "HasUnicodeEscape s = has_flag (sc_tokenFlags s) TokenFlagsUnicodeEscape"

definition HasExtendedUnicodeEscape :: "Scanner \<Rightarrow> bool" where
  "HasExtendedUnicodeEscape s = has_flag (sc_tokenFlags s) TokenFlagsExtendedUnicodeEscape"

definition HasPrecedingLineBreak :: "Scanner \<Rightarrow> bool" where
  "HasPrecedingLineBreak s = has_flag (sc_tokenFlags s) TokenFlagsPrecedingLineBreak"

definition HasPrecedingJSDocComment :: "Scanner \<Rightarrow> bool" where
  "HasPrecedingJSDocComment s = has_flag (sc_tokenFlags s) TokenFlagsPrecedingJSDocComment"

definition HasPrecedingJSDocLeadingAsterisks :: "Scanner \<Rightarrow> bool" where
  "HasPrecedingJSDocLeadingAsterisks s = has_flag (sc_tokenFlags s) TokenFlagsPrecedingJSDocLeadingAsterisks"

section \<open>Reading\<close>

definition charAt :: "Scanner \<Rightarrow> nat \<Rightarrow> char option" where
  "charAt s offset =
     (if sc_pos s + offset < length (sc_text s) then Some (sc_text s ! (sc_pos s + offset)) else None)"

definition current_char :: "Scanner \<Rightarrow> char option" where
  "current_char s = charAt s 0"

definition looking_at :: "nat \<Rightarrow> char \<Rightarrow> bool scanning" where
  "looking_at offset c = gets (\<lambda>s. charAt s offset = Some c)"

text \<open>A test on the rune of a byte, which -1 (the end of the text) fails.\<close>

definition in_class :: "(nat \<Rightarrow> bool) \<Rightarrow> char option \<Rightarrow> bool" where
  "in_class p ch = (case ch of Some c \<Rightarrow> p (rune c) | None \<Rightarrow> False)"

definition text_slice :: "nat \<Rightarrow> nat \<Rightarrow> string scanning" where
  "text_slice lo hi = seq (gets sc_text) (\<lambda>t. lift_go (go_slice t (int lo) (int hi)))"

definition charAndSize :: "(nat \<times> nat) scanning" where
  "charAndSize =
     seq (gets sc_text) (\<lambda>t.
     seq (gets sc_pos) (\<lambda>pos.
     seq (lift_go (go_slice t (int pos) (int (length t)))) (\<lambda>rest. ret (DecodeRuneInString rest))))"

section \<open>Writing\<close>

definition errorAt :: "string \<Rightarrow> int \<Rightarrow> int \<Rightarrow> string list \<Rightarrow> unit scanning" where
  "errorAt diagnostic pos len args =
     modify (\<lambda>s. s\<lparr>sc_errors := sc_errors s @ [\<lparr>se_message = diagnostic, se_pos = pos, se_length = len, se_args = args\<rparr>]\<rparr>)"

definition report :: "string \<Rightarrow> unit scanning" where
  \<comment> \<open>the method \<open>error\<close>\<close>
  "report diagnostic = seq (gets sc_pos) (\<lambda>pos. errorAt diagnostic (int pos) 0 [])"

definition advance :: "nat \<Rightarrow> unit scanning" where
  "advance n = modify (\<lambda>s. s\<lparr>sc_pos := sc_pos s + n\<rparr>)"

definition set_pos :: "nat \<Rightarrow> unit scanning" where
  "set_pos pos = modify (\<lambda>s. s\<lparr>sc_pos := pos\<rparr>)"

definition set_token :: "Kind \<Rightarrow> unit scanning" where
  "set_token kind = modify (\<lambda>s. s\<lparr>sc_token := kind\<rparr>)"

definition set_value :: "string \<Rightarrow> unit scanning" where
  "set_value v = modify (\<lambda>s. s\<lparr>sc_tokenValue := v\<rparr>)"

definition add_flags :: "TokenFlags \<Rightarrow> unit scanning" where
  "add_flags flags = modify (\<lambda>s. s\<lparr>sc_tokenFlags := sc_tokenFlags s OR flags\<rparr>)"

section \<open>Loops\<close>

text \<open>
  Every loop of the scanner moves on in the text with each round, so one round more than the text has bytes
  is never reached; \<open>Diverges\<close> would be the result otherwise.
\<close>

definition scan_loop :: "('v \<Rightarrow> ('v + 'a) scanning) \<Rightarrow> 'v \<Rightarrow> 'a scanning" where
  "scan_loop body v = seq (gets (\<lambda>s. length (sc_text s))) (\<lambda>n. iterate (Suc n) body v)"

text \<open>The loop \<open>for \<dots> { pos += size }\<close> over the runes in \<open>p\<close>.\<close>

definition skip_while :: "(nat \<Rightarrow> bool) \<Rightarrow> unit scanning" where
  "skip_while p =
     scan_loop (\<lambda>_. seq charAndSize (\<lambda>(ch, width).
       if p ch then seq (advance width) (\<lambda>_. again ()) else leave ())) ()"

end
