(* ===== verification/Jsnum_Bigint.thy ===== *)
theory Jsnum_Bigint
  imports Strconv Stringutil
begin

text \<open>
  \<open>internal/jsnum/pseudobigint.go\<close>: big integer literals as decimal texts. The conversion of a text in
  another base is \<open>big.Int.SetString\<close> with base 0, of which the part for texts with a base prefix is
  modelled: digits of the base with single underscores between them (or behind the prefix).
\<close>

section \<open>Digits in a base\<close>

definition digit_in :: "char \<Rightarrow> int" where
  "digit_in c =
     (let r = of_char c in
      if 48 \<le> r \<and> r \<le> 57 then r - 48
      else if 97 \<le> r \<and> r \<le> 122 then r - 97 + 10
      else if 65 \<le> r \<and> r \<le> 90 then r - 65 + 10 else 255)"

definition value_in :: "int \<Rightarrow> string \<Rightarrow> int" where
  "value_in base ds = foldl (\<lambda>v c. base * v + digit_in c) 0 ds"

text \<open>\<open>after_digit\<close>: an underscore may follow (a digit, or the base prefix, came before).\<close>

fun underscores_ok :: "bool \<Rightarrow> string \<Rightarrow> bool" where
  "underscores_ok after_digit [] = after_digit"
| "underscores_ok after_digit (c # s) =
     (if c = CHR ''_'' then after_digit \<and> underscores_ok False s else underscores_ok True s)"

definition prefix_base :: "char \<Rightarrow> int" where
  "prefix_base c = (if c = CHR ''b'' \<or> c = CHR ''B'' then 2 else if c = CHR ''o'' \<or> c = CHR ''O'' then 8 else 16)"

definition big_SetString :: "string \<Rightarrow> int option" where
  "big_SetString s =
     (case s of
        z # b # ds \<Rightarrow>
          let base = prefix_base b;
              digits = filter (\<lambda>c. c \<noteq> CHR ''_'') ds
          in if z = CHR ''0'' \<and> digits \<noteq> [] \<and> underscores_ok True ds \<and> (\<forall>c \<in> set digits. digit_in c < base)
             then Some (value_in base digits) else None
      | _ \<Rightarrow> None)"

section \<open>Big integers\<close>

record PseudoBigInt =
  pb_Negative :: bool
  pb_Base10Value :: string

definition trim_zeros :: "string \<Rightarrow> string" where
  "trim_zeros s = dropWhile (\<lambda>c. c = CHR ''0'') s"

definition NewPseudoBigInt :: "string \<Rightarrow> bool \<Rightarrow> PseudoBigInt" where
  "NewPseudoBigInt v negative =
     (let v' = trim_zeros v in \<lparr>pb_Negative = (negative \<and> length v' \<noteq> 0), pb_Base10Value = v'\<rparr>)"

definition PseudoBigInt_String :: "PseudoBigInt \<Rightarrow> string" where
  "PseudoBigInt_String v =
     (if pb_Base10Value v = [] then ''0''
      else if pb_Negative v then ''-'' @ pb_Base10Value v else pb_Base10Value v)"

definition PseudoBigInt_Sign :: "PseudoBigInt \<Rightarrow> int" where
  "PseudoBigInt_Sign v = (if pb_Base10Value v = [] then 0 else if pb_Negative v then -1 else 1)"

definition base_letters :: "char set" where
  "base_letters = {CHR ''b'', CHR ''B'', CHR ''o'', CHR ''O'', CHR ''x'', CHR ''X''}"

definition ParsePseudoBigInt :: "string \<Rightarrow> string go" where
  "ParsePseudoBigInt stringValue0 =
     (let stringValue = (if HasSuffix stringValue0 ''n'' then butlast stringValue0 else stringValue0) in
      if length stringValue > 1 \<and> stringValue ! 1 \<in> base_letters then
        (case big_SetString stringValue of
           Some n \<Rightarrow> Inr (decimal n)
         | None \<Rightarrow> Inl (Panicked ''Failed to parse big int''))
      else Inr (if trim_zeros stringValue = [] then ''0'' else trim_zeros stringValue))"

definition ParseValidBigInt :: "string \<Rightarrow> PseudoBigInt go" where
  "ParseValidBigInt t =
     (let negative = HasPrefix t ''-'' in
      go_bind (ParsePseudoBigInt (TrimPrefix t ''-'')) (\<lambda>v. Inr (NewPseudoBigInt v negative)))"

end
