(* ===== verification/Scanner_Literals.thy ===== *)
theory Scanner_Literals
  imports Scanner_State Jsnum_Bigint
begin

text \<open>
  Escape sequences, strings, templates, numerals and identifiers (\<open>internal/scanner/scanner.go\<close>): the
  methods that scan the inside of one token. A rune that the code encodes as -1 is \<open>None\<close>.
\<close>

section \<open>Numerals\<close>

definition lower_hex :: "char \<Rightarrow> char" where
  "lower_hex c = (if CHR ''A'' \<le> c \<and> c \<le> CHR ''F'' then char_of (rune c + 32) else c)"

text \<open>The separator in a sequence of digits: the new values of \<open>allowSeparator\<close> and \<open>isPreviousTokenSeparator\<close>.\<close>

definition digit_separator :: "TokenFlags \<Rightarrow> bool \<Rightarrow> bool \<Rightarrow> (bool \<times> bool) scanning" where
  "digit_separator misplaced allowSeparator isPreviousTokenSeparator =
     seq (add_flags TokenFlagsContainsSeparator) (\<lambda>_.
     if allowSeparator then ret (False, True)
     else
       seq (add_flags misplaced) (\<lambda>_.
       seq (gets sc_pos) (\<lambda>pos.
       seq (errorAt (if isPreviousTokenSeparator then ''Multiple_consecutive_numeric_separators_are_not_permitted''
                     else ''Numeric_separators_are_not_allowed_here'') (int pos) 1 []) (\<lambda>_.
         ret (allowSeparator, isPreviousTokenSeparator)))))"

definition trailing_separator :: "TokenFlags \<Rightarrow> bool \<Rightarrow> unit scanning" where
  "trailing_separator misplaced isPreviousTokenSeparator =
     (if isPreviousTokenSeparator then
        seq (add_flags misplaced) (\<lambda>_.
        seq (gets sc_pos) (\<lambda>pos. errorAt ''Numeric_separators_are_not_allowed_here'' (int pos - 1) 1 []))
      else ret ())"

definition scanHexDigits :: "nat \<Rightarrow> bool \<Rightarrow> bool \<Rightarrow> string scanning" where
  "scanHexDigits minCount scanAsManyAsPossible canHaveSeparators =
     seq (scan_loop (\<lambda>(sb, allowSeparator, isPreviousTokenSeparator).
            if length sb < minCount \<or> scanAsManyAsPossible then
              seq (gets current_char) (\<lambda>ch.
                case ch of
                  None \<Rightarrow> leave (sb, isPreviousTokenSeparator)
                | Some c \<Rightarrow>
                    if IsHexDigit (rune c) then
                      seq (advance 1) (\<lambda>_. again (sb @ [lower_hex c], canHaveSeparators, False))
                    else if canHaveSeparators \<and> c = CHR ''_'' then
                      seq (digit_separator 0 allowSeparator isPreviousTokenSeparator) (\<lambda>(allow, previous).
                      seq (advance 1) (\<lambda>_. again (sb, allow, previous)))
                    else leave (sb, isPreviousTokenSeparator))
            else leave (sb, isPreviousTokenSeparator)) ([], False, False))
       (\<lambda>(sb, isPreviousTokenSeparator).
          seq (trailing_separator 0 isPreviousTokenSeparator) (\<lambda>_.
            ret (if length sb < minCount then [] else sb)))"

definition scanBinaryOrOctalDigits :: "nat \<Rightarrow> string scanning" where
  "scanBinaryOrOctalDigits base =
     seq (scan_loop (\<lambda>(sb, allowSeparator, isPreviousTokenSeparator).
            seq (gets current_char) (\<lambda>ch.
              case ch of
                None \<Rightarrow> leave (sb, isPreviousTokenSeparator)
              | Some c \<Rightarrow>
                  if IsDigit (rune c) \<and> rune c - 48 < base then
                    seq (advance 1) (\<lambda>_. again (sb @ [c], True, False))
                  else if c = CHR ''_'' then
                    seq (digit_separator 0 allowSeparator isPreviousTokenSeparator) (\<lambda>(allow, previous).
                    seq (advance 1) (\<lambda>_. again (sb, allow, previous)))
                  else leave (sb, isPreviousTokenSeparator))) ([], False, False))
       (\<lambda>(sb, isPreviousTokenSeparator).
          seq (trailing_separator 0 isPreviousTokenSeparator) (\<lambda>_. ret sb))"

definition scanNumberFragment :: "string scanning" where
  "scanNumberFragment =
     seq (gets sc_pos) (\<lambda>pos0.
     seq (scan_loop (\<lambda>(start, allowSeparator, isPreviousTokenSeparator, result).
            seq (gets current_char) (\<lambda>ch.
            seq (gets sc_pos) (\<lambda>pos.
              if ch = Some CHR ''_'' then
                seq (if allowSeparator then text_slice start pos else ret []) (\<lambda>part.
                seq (digit_separator TokenFlagsContainsInvalidSeparator allowSeparator isPreviousTokenSeparator)
                  (\<lambda>(allow, previous).
                seq (advance 1) (\<lambda>_. again (pos + 1, allow, previous, result @ part))))
              else if in_class IsDigit ch then
                seq (advance 1) (\<lambda>_. again (start, True, False, result))
              else leave (start, isPreviousTokenSeparator, result)))) (pos0, False, False, []))
       (\<lambda>(start, isPreviousTokenSeparator, result).
          seq (trailing_separator TokenFlagsContainsInvalidSeparator isPreviousTokenSeparator) (\<lambda>_.
          seq (gets sc_pos) (\<lambda>pos.
          seq (text_slice start pos) (\<lambda>rest. ret (result @ rest))))))"

definition scanDigits :: "(string \<times> bool) scanning" where
  "scanDigits =
     seq (gets sc_pos) (\<lambda>start.
     seq (scan_loop (\<lambda>isOctal.
            seq (gets current_char) (\<lambda>ch.
              if in_class IsDigit ch then
                seq (advance 1) (\<lambda>_. again (isOctal \<and> in_class IsOctalDigit ch))
              else leave isOctal)) True) (\<lambda>isOctal.
     seq (gets sc_pos) (\<lambda>pos.
     seq (text_slice start pos) (\<lambda>digits. ret (digits, isOctal)))))"

definition number_text :: "string \<Rightarrow> string scanning" where
  "number_text digits = seq (gets sc_numberText) (\<lambda>f. ret (f digits))"

definition scanBigIntSuffix :: "Kind scanning" where
  "scanBigIntSuffix =
     seq (gets current_char) (\<lambda>ch.
     seq (gets sc_tokenValue) (\<lambda>v.
     seq (gets sc_tokenFlags) (\<lambda>flags.
       if ch = Some CHR ''n'' then
         seq (set_value (v @ ''n'')) (\<lambda>_.
         seq (if has_flag flags TokenFlagsBinaryOrOctalSpecifier then
                seq (lift_go (ParsePseudoBigInt (v @ ''n''))) (\<lambda>digits. set_value (digits @ ''n''))
              else ret ()) (\<lambda>_.
         seq (advance 1) (\<lambda>_. ret KindBigIntLiteral)))
       else
         seq (number_text v) (\<lambda>txt. seq (set_value txt) (\<lambda>_. ret KindNumericLiteral)))))"

section \<open>Escape sequences\<close>

type_synonym EscapeSequenceScanningFlags = "32 word"

definition EscapeSequenceScanningFlagsString :: EscapeSequenceScanningFlags where
  "EscapeSequenceScanningFlagsString = 1"
definition EscapeSequenceScanningFlagsReportErrors :: EscapeSequenceScanningFlags where
  "EscapeSequenceScanningFlagsReportErrors = 2"
definition EscapeSequenceScanningFlagsRegularExpression :: EscapeSequenceScanningFlags where
  "EscapeSequenceScanningFlagsRegularExpression = 4"
definition EscapeSequenceScanningFlagsAnnexB :: EscapeSequenceScanningFlags where
  "EscapeSequenceScanningFlagsAnnexB = 8"
definition EscapeSequenceScanningFlagsAnyUnicodeMode :: EscapeSequenceScanningFlags where
  "EscapeSequenceScanningFlagsAnyUnicodeMode = 16"
definition EscapeSequenceScanningFlagsAtomEscape :: EscapeSequenceScanningFlags where
  "EscapeSequenceScanningFlagsAtomEscape = 32"
definition EscapeSequenceScanningFlagsReportInvalidEscapeErrors :: EscapeSequenceScanningFlags where
  "EscapeSequenceScanningFlagsReportInvalidEscapeErrors =
     EscapeSequenceScanningFlagsRegularExpression OR EscapeSequenceScanningFlagsReportErrors"

text \<open>\<open>strconv.ParseInt(digits, base, 32)\<close> of digits of the base: beyond 32 bits the largest value.\<close>

definition parse_int32 :: "int \<Rightarrow> string \<Rightarrow> int" where
  "parse_int32 base digits = min (value_in base digits) (2 ^ 31 - 1)"

definition invalid_escape :: "bool \<Rightarrow> unit scanning \<Rightarrow> nat option scanning" where
  "invalid_escape shouldEmitInvalidEscapeError complain =
     seq (add_flags TokenFlagsContainsInvalidEscape) (\<lambda>_.
     seq (if shouldEmitInvalidEscapeError then complain else ret ()) (\<lambda>_. ret None))"

text \<open>The hexadecimal digits behind \<open>\u\<close>, with the opening brace of the extended form.\<close>

definition escape_digits :: "bool \<Rightarrow> string scanning" where
  "escape_digits extended =
     (if extended then
        seq (advance 1) (\<lambda>_.
        seq (add_flags TokenFlagsExtendedUnicodeEscape) (\<lambda>_. scanHexDigits 1 True False))
      else seq (add_flags TokenFlagsUnicodeEscape) (\<lambda>_. scanHexDigits 4 False False))"

definition close_escape :: "bool \<Rightarrow> nat \<Rightarrow> int \<Rightarrow> nat option scanning" where
  "close_escape shouldEmitInvalidEscapeError start hexValue =
     (if hexValue > 0x10FFFF then
        invalid_escape shouldEmitInvalidEscapeError (seq (gets sc_pos) (\<lambda>pos.
          errorAt ''An_extended_Unicode_escape_value_must_be_between_0x0_and_0x10FFFF_inclusive''
            (int start + 1) (int pos - int start - 1) []))
      else
        seq (looking_at 0 CHR ''}'') (\<lambda>closed.
          if \<not> closed then
            invalid_escape shouldEmitInvalidEscapeError (report ''Unterminated_Unicode_escape_sequence'')
          else seq (advance 1) (\<lambda>_. ret (Some (nat hexValue)))))"

definition scanUnicodeEscape :: "bool \<Rightarrow> nat option scanning" where
  "scanUnicodeEscape shouldEmitInvalidEscapeError =
     seq (advance 2) (\<lambda>_.
     seq (gets sc_pos) (\<lambda>start.
     seq (looking_at 0 CHR ''{'') (\<lambda>extended.
     seq (escape_digits extended) (\<lambda>hexDigits.
       if hexDigits = [] then
         invalid_escape shouldEmitInvalidEscapeError (report ''Hexadecimal_digit_expected'')
       else
         let hexValue = parse_int32 16 hexDigits in
         if extended then close_escape shouldEmitInvalidEscapeError start hexValue
         else ret (Some (nat hexValue))))))"

definition peekUnicodeEscape :: "nat option scanning" where
  "peekUnicodeEscape =
     seq (gets (\<lambda>s. charAt s 1)) (\<lambda>ch.
       if ch = Some CHR ''u'' then
         seq (gets sc_pos) (\<lambda>savePos.
         seq (gets sc_tokenFlags) (\<lambda>saveTokenFlags.
         seq (scanUnicodeEscape False) (\<lambda>codePoint.
         seq (set_pos savePos) (\<lambda>_.
         seq (modify (\<lambda>s. s\<lparr>sc_tokenFlags := saveTokenFlags\<rparr>)) (\<lambda>_. ret codePoint)))))
       else ret None)"

end
