(* ===== verification/Scanner_Strings.thy ===== *)
theory Scanner_Strings
  imports Scanner_Literals
begin

text \<open>
  Escape sequences, identifiers, strings and templates (\<open>internal/scanner/scanner.go\<close>).
\<close>

section \<open>Escape sequences\<close>

definition hex2 :: "int \<Rightarrow> string" where
  \<comment> \<open>\<open>%02x\<close> of a number below 256\<close>
  "hex2 n = map (\<lambda>d. if d < 10 then char_of (48 + d) else char_of (87 + d)) [n div 16, n mod 16]"

definition optional_octal_digit :: "unit scanning" where
  "optional_octal_digit = seq (gets current_char) (\<lambda>ch. if in_class IsOctalDigit ch then advance 1 else ret ())"

definition octal_escape :: "EscapeSequenceScanningFlags \<Rightarrow> nat \<Rightarrow> char \<Rightarrow> string scanning" where
  "octal_escape flags start c =
     seq (if c \<in> set ''0123'' then optional_octal_digit else ret ()) (\<lambda>_.
     seq optional_octal_digit (\<lambda>_.
     seq (add_flags TokenFlagsContainsInvalidEscape) (\<lambda>_.
     seq (gets sc_pos) (\<lambda>pos.
     if has_flag flags EscapeSequenceScanningFlagsReportInvalidEscapeErrors then
       seq (text_slice (start + 1) pos) (\<lambda>digits.
       let code = parse_int32 8 digits in
       seq (if has_flag flags EscapeSequenceScanningFlagsRegularExpression \<and>
               \<not> has_flag flags EscapeSequenceScanningFlagsAtomEscape \<and> c \<noteq> CHR ''0''
            then errorAt ''Octal_escape_sequences_and_backreferences_are_not_allowed_in_a_character_class_If_this_was_intended_as_an_escape_sequence_use_the_syntax_0_instead''
                   (int start) (int pos - int start) [hex2 code]
            else errorAt ''Octal_escape_sequences_are_not_allowed_Use_the_syntax_0''
                   (int start) (int pos - int start) [backslash # ''x'' @ hex2 code]) (\<lambda>_.
         ret (EncodeRune (nat code))))
     else text_slice start pos))))"

definition decimal_escape :: "EscapeSequenceScanningFlags \<Rightarrow> nat \<Rightarrow> char \<Rightarrow> string scanning" where
  "decimal_escape flags start c =
     seq (add_flags TokenFlagsContainsInvalidEscape) (\<lambda>_.
     seq (gets sc_pos) (\<lambda>pos.
     if has_flag flags EscapeSequenceScanningFlagsReportInvalidEscapeErrors then
       seq (if has_flag flags EscapeSequenceScanningFlagsRegularExpression \<and>
               \<not> has_flag flags EscapeSequenceScanningFlagsAtomEscape
            then errorAt ''Decimal_escape_sequences_and_backreferences_are_not_allowed_in_a_character_class''
                   (int start) (int pos - int start) []
            else seq (text_slice start pos) (\<lambda>txt.
                   errorAt ''Escape_sequence_0_is_not_allowed'' (int start) (int pos - int start) [txt])) (\<lambda>_.
         ret (EncodeRune (rune c)))
     else text_slice start pos))"

definition hex_escape :: "EscapeSequenceScanningFlags \<Rightarrow> nat \<Rightarrow> string scanning" where
  "hex_escape flags start =
     seq (scan_loop (\<lambda>_. seq (gets sc_pos) (\<lambda>pos. seq (gets current_char) (\<lambda>ch.
            if pos < start + 4 then
              if in_class IsHexDigit ch then seq (advance 1) (\<lambda>_. again ()) else leave False
            else leave True))) ()) (\<lambda>complete.
     seq (gets sc_pos) (\<lambda>pos.
       if complete then
         seq (add_flags TokenFlagsHexEscape) (\<lambda>_.
         seq (text_slice (start + 2) pos) (\<lambda>digits. ret (EncodeRune (nat (parse_int32 16 digits)))))
       else
         seq (add_flags TokenFlagsContainsInvalidEscape) (\<lambda>_.
         seq (if has_flag flags EscapeSequenceScanningFlagsReportInvalidEscapeErrors
              then report ''Hexadecimal_digit_expected'' else ret ()) (\<lambda>_.
           text_slice start pos))))"

definition unicode_escape :: "EscapeSequenceScanningFlags \<Rightarrow> nat \<Rightarrow> string scanning" where
  "unicode_escape flags start =
     seq (modify (\<lambda>s. s\<lparr>sc_pos := sc_pos s - 2\<rparr>)) (\<lambda>_.
     seq (scanUnicodeEscape (has_flag flags EscapeSequenceScanningFlagsReportInvalidEscapeErrors)) (\<lambda>codePoint.
       case codePoint of
         None \<Rightarrow> seq (gets sc_pos) (\<lambda>pos. text_slice start pos)
       | Some r \<Rightarrow> ret (EncodeRune r)))"

definition other_escape :: "EscapeSequenceScanningFlags \<Rightarrow> char \<Rightarrow> string scanning" where
  "other_escape flags c =
     seq (gets sc_languageVersion) (\<lambda>v.
     seq (gets sc_pos) (\<lambda>pos.
     seq (if has_flag flags EscapeSequenceScanningFlagsAnyUnicodeMode \<or>
             has_flag flags EscapeSequenceScanningFlagsRegularExpression \<and>
             \<not> has_flag flags EscapeSequenceScanningFlagsAnnexB \<and> IsIdentifierPart (rune c) v
          then errorAt ''This_character_cannot_be_escaped_in_a_regular_expression'' (int pos - 2) 2 []
          else ret ()) (\<lambda>_. ret (EncodeRune (rune c)))))"

text \<open>The cases of the \<open>switch\<close> on the character \<open>c\<close> behind the backslash at \<open>start\<close>.\<close>

definition escape_behind :: "EscapeSequenceScanningFlags \<Rightarrow> nat \<Rightarrow> char \<Rightarrow> string scanning" where
  "escape_behind flags start c =
     (if c = CHR ''0'' then
        seq (gets current_char) (\<lambda>following.
          if \<not> in_class IsDigit following then ret [CHR 0x00] else octal_escape flags start c)
      else if c \<in> set ''1234567'' then
        octal_escape flags start c
      else if c = CHR ''8'' \<or> c = CHR ''9'' then decimal_escape flags start c
      else if c = CHR ''b'' then ret [CHR 0x08]
      else if c = CHR ''t'' then ret [TAB]
      else if c = CHR ''n'' then ret [LF]
      else if c = CHR ''v'' then ret [VT]
      else if c = CHR ''f'' then ret [FF]
      else if c = CHR ''r'' then ret [CR]
      else if c = apostrophe then ret [apostrophe]
      else if c = quote_mark then ret [quote_mark]
      else if c = CHR ''u'' then unicode_escape flags start
      else if c = CHR ''x'' then hex_escape flags start
      else if c = CR then
        seq (gets current_char) (\<lambda>following.
        seq (if following = Some LF then advance 1 else ret ()) (\<lambda>_. ret []))
      else if c = LF then ret []
      else other_escape flags c)"

definition scanEscapeSequence :: "EscapeSequenceScanningFlags \<Rightarrow> string scanning" where
  "scanEscapeSequence flags =
     seq (gets sc_pos) (\<lambda>start.
     seq (advance 1) (\<lambda>_.
     seq (gets current_char) (\<lambda>ch.
       case ch of
         None \<Rightarrow> seq (report ''Unexpected_end_of_text'') (\<lambda>_. ret [])
       | Some c \<Rightarrow> seq (advance 1) (\<lambda>_. escape_behind flags start c))))"

section \<open>Identifiers\<close>

definition scanIdentifierParts :: "string scanning" where
  "scanIdentifierParts =
     seq (gets sc_pos) (\<lambda>pos0.
     seq (gets sc_languageVersion) (\<lambda>v.
     seq (scan_loop (\<lambda>(sb, start).
            seq charAndSize (\<lambda>(ch, width).
              if IsIdentifierPart ch v then seq (advance width) (\<lambda>_. again (sb, start))
              else if ch = rune backslash then
                seq peekUnicodeEscape (\<lambda>escaped.
                  case escaped of
                    Some r \<Rightarrow>
                      if IsIdentifierPart r v then
                        seq (gets sc_pos) (\<lambda>pos.
                        seq (text_slice start pos) (\<lambda>part.
                        seq (scanUnicodeEscape True) (\<lambda>codePoint.
                        seq (gets sc_pos) (\<lambda>pos'.
                          again (sb @ part @ (case codePoint of Some r' \<Rightarrow> EncodeRune r' | None \<Rightarrow> EncodeRune RuneError),
                                 pos')))))
                      else leave (sb, start)
                  | None \<Rightarrow> leave (sb, start))
              else leave (sb, start))) ([], pos0)) (\<lambda>(sb, start).
     seq (gets sc_pos) (\<lambda>pos.
     seq (text_slice start pos) (\<lambda>part. ret (sb @ part))))))"

text \<open>The fast path over ASCII: from behind the first character to the first character of another class.\<close>

definition ascii_word_loop :: "char option scanning" where
  "ascii_word_loop =
     scan_loop (\<lambda>_.
       seq (advance 1) (\<lambda>_.
       seq (gets current_char) (\<lambda>ch.
         if in_class (\<lambda>r. isWordCharacter r \<or> r = rune CHR ''$'') ch then again () else leave ch))) ()"

definition identifier_at :: "nat \<Rightarrow> bool scanning" where
  "identifier_at start =
     seq (gets sc_languageVersion) (\<lambda>v.
     seq charAndSize (\<lambda>(ch, width).
       if IsIdentifierStart ch v then
         seq (advance width) (\<lambda>_.
         seq (skip_while (\<lambda>r. IsIdentifierPart r v)) (\<lambda>_.
         seq charAndSize (\<lambda>(ch', width').
         seq (gets sc_pos) (\<lambda>pos.
         seq (text_slice start pos) (\<lambda>plain.
         seq (if ch' = rune backslash then scanIdentifierParts else ret []) (\<lambda>parts.
         seq (set_value (plain @ parts)) (\<lambda>_. ret True)))))))
       else ret False))"

definition scanIdentifier :: "nat \<Rightarrow> bool scanning" where
  "scanIdentifier prefixLength =
     seq (gets sc_pos) (\<lambda>start.
     seq (advance prefixLength) (\<lambda>_.
     seq (gets current_char) (\<lambda>ch.
       if in_class (\<lambda>r. IsASCIILetter r \<or> r = rune CHR ''_'' \<or> r = rune CHR ''$'') ch then
         seq ascii_word_loop (\<lambda>ch'.
           if ch' \<noteq> Some backslash \<and> \<not> in_class (\<lambda>r. r \<ge> 128) ch' then
             seq (gets sc_pos) (\<lambda>pos.
             seq (text_slice start pos) (\<lambda>word. seq (set_value word) (\<lambda>_. ret True)))
           else seq (set_pos (start + prefixLength)) (\<lambda>_. identifier_at start))
       else identifier_at start)))"

section \<open>Strings and templates\<close>

definition scanString :: "bool \<Rightarrow> string scanning" where
  "scanString jsxAttributeString =
     seq (gets current_char) (\<lambda>quote.
     seq (advance 1) (\<lambda>_.
     seq (gets sc_pos) (\<lambda>start0.
       scan_loop (\<lambda>(sb, start).
         seq (gets current_char) (\<lambda>ch.
         seq (gets sc_pos) (\<lambda>pos.
           let unterminated =
             seq (text_slice start pos) (\<lambda>part.
             seq (add_flags TokenFlagsUnterminated) (\<lambda>_.
             seq (report ''Unterminated_string_literal'') (\<lambda>_. leave (sb @ part))))
           in
           if ch = None then unterminated
           else if ch = quote then
             seq (text_slice start pos) (\<lambda>part. seq (advance 1) (\<lambda>_. leave (sb @ part)))
           else if ch = Some backslash \<and> \<not> jsxAttributeString then
             seq (text_slice start pos) (\<lambda>part.
             seq (scanEscapeSequence (EscapeSequenceScanningFlagsString OR EscapeSequenceScanningFlagsReportErrors)) (\<lambda>escaped.
             seq (gets sc_pos) (\<lambda>pos'. again (sb @ part @ escaped, pos'))))
           else if (ch = Some LF \<or> ch = Some CR) \<and> \<not> jsxAttributeString then unterminated
           else seq (advance 1) (\<lambda>_. again (sb, start))))) ([], start0))))"

definition scanTemplateAndSetTokenValue :: "bool \<Rightarrow> Kind scanning" where
  "scanTemplateAndSetTokenValue shouldEmitInvalidEscapeError =
     seq (gets (\<lambda>s. current_char s = Some backtick)) (\<lambda>startedWithBacktick.
     seq (advance 1) (\<lambda>_.
     seq (gets sc_pos) (\<lambda>start0.
     seq (scan_loop (\<lambda>(contents, start).
         seq (gets current_char) (\<lambda>ch.
         seq (gets (\<lambda>s. charAt s 1)) (\<lambda>ch1.
         seq (gets sc_pos) (\<lambda>pos.
           if ch = None \<or> ch = Some backtick then
             seq (text_slice start pos) (\<lambda>part.
             seq (if ch = Some backtick then advance 1
                  else seq (add_flags TokenFlagsUnterminated) (\<lambda>_. report ''Unterminated_template_literal'')) (\<lambda>_.
               leave (contents @ part,
                      if startedWithBacktick then KindNoSubstitutionTemplateLiteral else KindTemplateTail)))
           else if ch = Some CHR ''$'' \<and> ch1 = Some CHR ''{'' then
             seq (text_slice start pos) (\<lambda>part.
             seq (advance 2) (\<lambda>_.
               leave (contents @ part, if startedWithBacktick then KindTemplateHead else KindTemplateMiddle)))
           else if ch = Some backslash then
             seq (text_slice start pos) (\<lambda>part.
             seq (scanEscapeSequence (EscapeSequenceScanningFlagsString OR
                    (if shouldEmitInvalidEscapeError then EscapeSequenceScanningFlagsReportErrors else 0))) (\<lambda>escaped.
             seq (gets sc_pos) (\<lambda>pos'. again (contents @ part @ escaped, pos'))))
           else if ch = Some CR then
             seq (text_slice start pos) (\<lambda>part.
             seq (advance (if ch1 = Some LF then 2 else 1)) (\<lambda>_.
             seq (gets sc_pos) (\<lambda>pos'. again (contents @ part @ [LF], pos'))))
           else seq (advance 1) (\<lambda>_. again (contents, start)))))) ([], start0)) (\<lambda>(contents, token).
     seq (set_value contents) (\<lambda>_. ret token)))))"

section \<open>Numbers\<close>

text \<open>The part of a number before a decimal point; \<open>None\<close> when it was a legacy octal literal, already complete.\<close>

definition fixed_part :: "nat \<Rightarrow> string option scanning" where
  "fixed_part start =
     seq (gets current_char) (\<lambda>ch.
       if ch = Some CHR ''0'' then
         seq (advance 1) (\<lambda>_.
         seq (gets current_char) (\<lambda>following.
           if following = Some CHR ''_'' then
             seq (add_flags (TokenFlagsContainsSeparator OR TokenFlagsContainsInvalidSeparator)) (\<lambda>_.
             seq (gets sc_pos) (\<lambda>pos.
             seq (errorAt ''Numeric_separators_are_not_allowed_here'' (int pos) 1 []) (\<lambda>_.
             seq (set_pos start) (\<lambda>_.
             seq scanNumberFragment (\<lambda>fixed. ret (Some fixed))))))
           else
             seq scanDigits (\<lambda>(digits, isOctal).
               if digits = [] then ret (Some ''0'')
               else if \<not> isOctal then seq (add_flags TokenFlagsContainsLeadingZero) (\<lambda>_. ret (Some digits))
               else
                 seq (number_text digits) (\<lambda>txt.
                 seq (set_value txt) (\<lambda>_.
                 seq (add_flags TokenFlagsOctal) (\<lambda>_.
                 seq (gets (\<lambda>s. sc_token s = KindMinusToken)) (\<lambda>withMinus.
                 seq (gets sc_pos) (\<lambda>pos.
                 let start' = (if withMinus then int start - 1 else int start);
                     literal = (if withMinus then ''-'' else []) @ ''0o'' @ txt
                 in
                 seq (errorAt ''Octal_literals_are_not_allowed_Use_the_syntax_0'' start' (int pos - start') [literal]) (\<lambda>_.
                   ret None)))))))))
       else seq scanNumberFragment (\<lambda>fixed. ret (Some fixed)))"

definition optional_sign :: "unit scanning" where
  "optional_sign =
     seq (gets current_char) (\<lambda>sign. if sign = Some CHR ''+'' \<or> sign = Some CHR ''-'' then advance 1 else ret ())"

text \<open>The exponent: the end of the number and the text of the exponent with what comes before its digits.\<close>

definition exponent_part :: "(nat \<times> string) scanning" where
  "exponent_part =
     seq (gets sc_pos) (\<lambda>end.
     seq (gets current_char) (\<lambda>ch.
       if ch = Some CHR ''E'' \<or> ch = Some CHR ''e'' then
         seq (advance 1) (\<lambda>_.
         seq (add_flags TokenFlagsScientific) (\<lambda>_.
         seq optional_sign (\<lambda>_.
         seq (gets sc_pos) (\<lambda>startNumericPart.
         seq scanNumberFragment (\<lambda>exponent.
           if exponent = [] then seq (report ''Digit_expected'') (\<lambda>_. ret (end, []))
           else
             seq (text_slice end startNumericPart) (\<lambda>exponentPreamble.
             seq (gets sc_pos) (\<lambda>end'. ret (end', exponentPreamble @ exponent))))))))
       else ret (end, [])))"

text \<open>What follows a number directly must not be an identifier.\<close>

definition after_number :: "nat \<Rightarrow> nat \<Rightarrow> Kind \<Rightarrow> Kind scanning" where
  "after_number start fixedPartEnd result =
     seq (gets sc_languageVersion) (\<lambda>v.
     seq charAndSize (\<lambda>(ch, width).
       if IsIdentifierStart ch v then
         seq (gets sc_pos) (\<lambda>idStart.
         seq (gets current_char) (\<lambda>first.
         seq scanIdentifierParts (\<lambda>id.
         seq (gets sc_pos) (\<lambda>pos.
         seq (gets sc_tokenFlags) (\<lambda>flags.
           let suffixed = (result \<noteq> KindBigIntLiteral \<and> length id = 1 \<and> first = Some CHR ''n'') in
           if suffixed \<and> has_flag flags TokenFlagsScientific then
             seq (errorAt ''A_bigint_literal_cannot_use_exponential_notation'' (int start) (int pos - int start) []) (\<lambda>_. ret result)
           else if suffixed \<and> fixedPartEnd < idStart then
             seq (errorAt ''A_bigint_literal_must_be_an_integer'' (int start) (int pos - int start) []) (\<lambda>_. ret result)
           else
             seq (errorAt ''An_identifier_or_keyword_cannot_immediately_follow_a_numeric_literal''
                    (int idStart) (int pos - int idStart) []) (\<lambda>_.
             seq (set_pos idStart) (\<lambda>_. ret result)))))))
       else ret result))"

definition set_number :: "Kind scanning" where
  "set_number =
     seq (gets sc_tokenValue) (\<lambda>v. seq (number_text v) (\<lambda>txt. seq (set_value txt) (\<lambda>_. ret KindNumericLiteral)))"

text \<open>What follows the fixed part.\<close>

definition number_behind :: "nat \<Rightarrow> string \<Rightarrow> Kind scanning" where
  "number_behind start fixedPart =
     seq (gets sc_pos) (\<lambda>fixedPartEnd.
     seq (gets current_char) (\<lambda>ch.
     seq (if ch = Some CHR ''.'' then seq (advance 1) (\<lambda>_. scanNumberFragment) else ret []) (\<lambda>fractionalPart.
     seq exponent_part (\<lambda>(end, exponentPart).
     seq (gets sc_tokenFlags) (\<lambda>flags.
     seq (if has_flag flags TokenFlagsContainsSeparator then
            set_value (fixedPart @ (if fractionalPart \<noteq> [] then ''.'' @ fractionalPart else []) @ exponentPart)
          else seq (text_slice start end) set_value) (\<lambda>_.
     seq (gets sc_pos) (\<lambda>pos.
     if has_flag flags TokenFlagsContainsLeadingZero then
       seq (errorAt ''Decimals_with_leading_zeros_are_not_allowed'' (int start) (int pos - int start) []) (\<lambda>_. set_number)
     else
       seq (if fixedPartEnd = pos then scanBigIntSuffix else set_number) (after_number start fixedPartEnd))))))))"

definition scanNumber :: "Kind scanning" where
  "scanNumber =
     seq (gets sc_pos) (\<lambda>start.
     seq (fixed_part start) (\<lambda>fixed.
       case fixed of
         None \<Rightarrow> ret KindNumericLiteral
       | Some fixedPart \<Rightarrow> number_behind start fixedPart))"

end
