(* ===== verification/Scanner_Scan.thy ===== *)
theory Scanner_Scan
  imports Scanner_Strings
begin

text \<open>
  The method \<open>Scan\<close> (\<open>internal/scanner/scanner.go\<close>). The body of its loop is one definition per group of
  cases of the \<open>switch\<close>; a case ends the loop (\<open>leave\<close>) once the token is set, or goes round again behind
  trivia that is skipped.
\<close>

type_synonym arm = "(unit + unit) scanning"

definition finish :: "Kind \<Rightarrow> arm" where
  "finish kind = seq (set_token kind) (\<lambda>_. leave ())"

definition token :: "nat \<Rightarrow> Kind \<Rightarrow> arm" where
  "token n kind = seq (advance n) (\<lambda>_. finish kind)"

definition skip_or_finish :: "Kind \<Rightarrow> arm" where
  "skip_or_finish kind = seq (gets sc_skipTrivia) (\<lambda>skip. if skip then again () else finish kind)"

section \<open>Comments\<close>

definition skip_line_runes :: "unit scanning" where
  "skip_line_runes =
     scan_loop (\<lambda>_. seq charAndSize (\<lambda>(ch, width).
       if width = 0 \<or> IsLineBreak ch then leave () else seq (advance width) (\<lambda>_. again ()))) ()"

function skip_bytes :: "(char \<Rightarrow> bool) \<Rightarrow> string \<Rightarrow> nat \<Rightarrow> nat \<Rightarrow> nat go" where
  "skip_bytes p text pos end =
     (if pos < end then
        go_bind (index_get text (int pos)) (\<lambda>c. if p c then skip_bytes p text (pos + 1) end else Inr pos)
      else Inr pos)"
  by pat_completeness auto
termination
  by (relation "measure (\<lambda>(p, text, pos, end). end - pos)") auto

declare skip_bytes.simps [simp del]

definition comment_directive :: "string \<Rightarrow> nat \<Rightarrow> nat \<Rightarrow> bool \<Rightarrow> CommentDirectiveKind option go" where
  "comment_directive text start end multiline =
     go_bind (if multiline then
                go_bind (skip_bytes (\<lambda>c. c = CHR '' '' \<or> c = TAB) text start end) (\<lambda>pos.
                  skip_bytes (\<lambda>c. c = CHR ''/'' \<or> c = CHR ''*'') text pos end)
              else skip_bytes (\<lambda>c. c = CHR ''/'') text (start + 2) end) (\<lambda>pos.
     go_bind (skip_bytes (\<lambda>c. c = CHR '' '' \<or> c = TAB) text pos end) (\<lambda>pos.
     go_bind (if pos < end then go_bind (index_get text (int pos)) (\<lambda>c. Inr (c = CHR ''@'')) else Inr False) (\<lambda>at_sign.
       if \<not> at_sign then Inr None
       else
         go_bind (go_slice text (int (pos + 1)) (int (length text))) (\<lambda>rest.
           Inr (if HasPrefix rest ''ts-expect-error'' then Some CommentDirectiveKindExpectError
                else if HasPrefix rest ''ts-ignore'' then Some CommentDirectiveKindIgnore else None)))))"

definition processCommentDirective :: "nat \<Rightarrow> nat \<Rightarrow> bool \<Rightarrow> unit scanning" where
  "processCommentDirective start end multiline =
     seq (gets sc_text) (\<lambda>t.
     seq (lift_go (comment_directive t start end multiline)) (\<lambda>kind.
       case kind of
         Some k \<Rightarrow> modify (\<lambda>s. s\<lparr>sc_commentDirectives :=
             sc_commentDirectives s @ [\<lparr>cd_pos = start, cd_end = end, cd_Kind = k\<rparr>]\<rparr>)
       | None \<Rightarrow> ret ()))"

text \<open>A text that mentions \<open>@see\<close> or \<open>@link\<close>.\<close>

fun mentions_link :: "string \<Rightarrow> bool" where
  "mentions_link [] = False"
| "mentions_link (c # s) = (c = CHR ''@'' \<and> (HasPrefix s ''see'' \<or> HasPrefix s ''link'') \<or> mentions_link s)"

definition shouldParseJSDoc :: "bool scanning" where
  "shouldParseJSDoc =
     seq (gets sc_JSDocParsingMode) (\<lambda>mode.
     seq (gets sc_scriptKind) (\<lambda>kind.
       if mode = JSDocParsingModeParseAll then ret True
       else if mode = JSDocParsingModeParseNone then ret False
       else if kind \<noteq> ScriptKindTS \<and> kind \<noteq> ScriptKindTSX then ret True
       else if mode = JSDocParsingModeParseForTypeInfo then ret False
       else
         seq (gets sc_fullStartPos) (\<lambda>start.
         seq (gets sc_pos) (\<lambda>pos.
         seq (text_slice start pos) (\<lambda>txt. ret (mentions_link txt))))))"

definition line_comment :: arm where
  "line_comment =
     seq (advance 2) (\<lambda>_.
     seq skip_line_runes (\<lambda>_.
     seq (gets sc_tokenStart) (\<lambda>start.
     seq (gets sc_pos) (\<lambda>pos.
     seq (processCommentDirective start pos False) (\<lambda>_.
       skip_or_finish KindSingleLineCommentTrivia)))))"

text \<open>The end of a block comment: the start of its last line and whether it is closed.\<close>

definition block_comment_body :: "nat \<Rightarrow> (nat \<times> bool) scanning" where
  "block_comment_body start =
     scan_loop (\<lambda>lastLineStart.
       seq charAndSize (\<lambda>(ch1, width).
       seq (looking_at 1 CHR ''/'') (\<lambda>slash_behind.
         if width = 0 then leave (lastLineStart, False)
         else if ch1 = rune CHR ''*'' \<and> slash_behind then seq (advance 2) (\<lambda>_. leave (lastLineStart, True))
         else
           seq (advance width) (\<lambda>_.
             if IsLineBreak ch1 then
               seq (add_flags TokenFlagsPrecedingLineBreak) (\<lambda>_. seq (gets sc_pos) again)
             else again lastLineStart)))) start"

definition block_comment :: arm where
  "block_comment =
     seq (advance 2) (\<lambda>_.
     seq (gets (\<lambda>s. charAt s 0 = Some CHR ''*'' \<and> charAt s 1 \<noteq> Some CHR ''/'')) (\<lambda>isJSDoc.
     seq (gets sc_tokenStart) (\<lambda>start.
     seq (block_comment_body start) (\<lambda>(lastLineStart, commentClosed).
     seq (if isJSDoc then shouldParseJSDoc else ret False) (\<lambda>parse.
     seq (if parse then add_flags TokenFlagsPrecedingJSDocComment else ret ()) (\<lambda>_.
     seq (gets sc_pos) (\<lambda>pos.
     seq (processCommentDirective lastLineStart pos True) (\<lambda>_.
     seq (if \<not> commentClosed then report ''Asterisk_Slash_expected'' else ret ()) (\<lambda>_.
     seq (gets sc_skipTrivia) (\<lambda>skip.
       if skip then again ()
       else
         seq (if \<not> commentClosed then add_flags TokenFlagsUnterminated else ret ()) (\<lambda>_.
           finish KindMultiLineCommentTrivia)))))))))))"

section \<open>Punctuation\<close>

text \<open>An operator \<open>c\<close> that may be followed by \<open>=\<close>, or doubled and followed by \<open>=\<close>.\<close>

definition scan_simple :: "Kind \<Rightarrow> arm" where
  "scan_simple = token 1"

definition scan_assignable :: "Kind \<Rightarrow> Kind \<Rightarrow> arm" where
  "scan_assignable assignment plain =
     seq (looking_at 1 CHR ''='') (\<lambda>eq. if eq then token 2 assignment else token 1 plain)"

definition scan_doubled_assignable :: "char \<Rightarrow> Kind \<Rightarrow> Kind \<Rightarrow> Kind \<Rightarrow> Kind \<Rightarrow> arm" where
  \<comment> \<open>the cases of \<open>&\<close> and \<open>|\<close>\<close>
  "scan_doubled_assignable c doubled_assignment doubled assignment plain =
     seq (looking_at 1 c) (\<lambda>same.
     seq (looking_at 2 CHR ''='') (\<lambda>eq2.
       if same then if eq2 then token 3 doubled_assignment else token 2 doubled
       else scan_assignable assignment plain))"

definition scan_exclamation :: arm where
  "scan_exclamation =
     seq (looking_at 1 CHR ''='') (\<lambda>eq1.
     seq (looking_at 2 CHR ''='') (\<lambda>eq2.
       if eq1 then
         if eq2 then token 3 KindExclamationEqualsEqualsToken else token 2 KindExclamationEqualsToken
       else token 1 KindExclamationToken))"

definition scan_asterisk :: arm where
  "scan_asterisk =
     seq (looking_at 1 CHR ''='') (\<lambda>eq1.
     seq (looking_at 1 CHR ''*'') (\<lambda>same.
     seq (looking_at 2 CHR ''='') (\<lambda>eq2.
       if eq1 then token 2 KindAsteriskEqualsToken
       else if same then
         if eq2 then token 3 KindAsteriskAsteriskEqualsToken else token 2 KindAsteriskAsteriskToken
       else
         seq (advance 1) (\<lambda>_.
         seq (gets (\<lambda>s. sc_skipJSDocLeadingAsterisks s \<noteq> 0 \<and>
                \<not> has_flag (sc_tokenFlags s) TokenFlagsPrecedingJSDocLeadingAsterisks \<and>
                has_flag (sc_tokenFlags s) TokenFlagsPrecedingLineBreak)) (\<lambda>leading.
           if leading then seq (add_flags TokenFlagsPrecedingJSDocLeadingAsterisks) (\<lambda>_. again ())
           else finish KindAsteriskToken)))))"

definition scan_plus_minus :: "char \<Rightarrow> Kind \<Rightarrow> Kind \<Rightarrow> Kind \<Rightarrow> arm" where
  "scan_plus_minus c assignment doubled plain =
     seq (looking_at 1 CHR ''='') (\<lambda>eq1.
     seq (looking_at 1 c) (\<lambda>same.
       if eq1 then token 2 assignment else if same then token 2 doubled else token 1 plain))"

definition scan_dot :: arm where
  "scan_dot =
     seq (gets (\<lambda>s. in_class IsDigit (charAt s 1))) (\<lambda>digit.
     seq (looking_at 1 CHR ''.'') (\<lambda>dot1.
     seq (looking_at 2 CHR ''.'') (\<lambda>dot2.
       if digit then seq scanNumber finish
       else if dot1 \<and> dot2 then token 3 KindDotDotDotToken
       else token 1 KindDotToken)))"

definition scan_slash :: arm where
  "scan_slash =
     seq (looking_at 1 CHR ''/'') (\<lambda>slash1.
     seq (looking_at 1 CHR ''*'') (\<lambda>star1.
       if slash1 then line_comment
       else if star1 then block_comment
       else scan_assignable KindSlashEqualsToken KindSlashToken))"

definition scan_question :: arm where
  "scan_question =
     seq (gets (\<lambda>s. charAt s 1 = Some CHR ''.'' \<and> \<not> in_class IsDigit (charAt s 2))) (\<lambda>dot.
     seq (looking_at 1 CHR ''?'') (\<lambda>same.
     seq (looking_at 2 CHR ''='') (\<lambda>eq2.
       if dot then token 2 KindQuestionDotToken
       else if same then
         if eq2 then token 3 KindQuestionQuestionEqualsToken else token 2 KindQuestionQuestionToken
       else token 1 KindQuestionToken)))"

text \<open>The cases that may be a conflict marker.\<close>

definition or_conflict_marker :: "arm \<Rightarrow> arm" where
  "or_conflict_marker otherwise =
     seq (gets sc_text) (\<lambda>t.
     seq (gets sc_pos) (\<lambda>pos.
     seq (lift_go (isConflictMarkerTrivia t pos)) (\<lambda>marker.
       if marker then
         seq (errorAt ''Merge_conflict_marker_encountered'' (int pos) 7 []) (\<lambda>_.
         seq (lift_go (scanConflictMarkerTrivia t pos)) (\<lambda>end.
         seq (set_pos end) (\<lambda>_. skip_or_finish KindConflictMarkerTrivia)))
       else otherwise)))"

definition scan_less :: arm where
  "scan_less =
     seq (looking_at 1 CHR ''<'') (\<lambda>same.
     seq (looking_at 1 CHR ''='') (\<lambda>eq1.
     seq (looking_at 2 CHR ''='') (\<lambda>eq2.
     seq (gets (\<lambda>s. sc_languageVariant s = LanguageVariantJSX \<and> charAt s 1 = Some CHR ''/'' \<and>
            charAt s 2 \<noteq> Some CHR ''*'')) (\<lambda>closing.
       if same then
         if eq2 then token 3 KindLessThanLessThanEqualsToken else token 2 KindLessThanLessThanToken
       else if eq1 then token 2 KindLessThanEqualsToken
       else if closing then token 2 KindLessThanSlashToken
       else token 1 KindLessThanToken))))"

definition scan_equals :: arm where
  "scan_equals =
     seq (looking_at 1 CHR ''='') (\<lambda>eq1.
     seq (looking_at 2 CHR ''='') (\<lambda>eq2.
     seq (looking_at 1 CHR ''>'') (\<lambda>arrow.
       if eq1 then if eq2 then token 3 KindEqualsEqualsEqualsToken else token 2 KindEqualsEqualsToken
       else if arrow then token 2 KindEqualsGreaterThanToken
       else token 1 KindEqualsToken)))"

section \<open>White space, numbers and identifiers\<close>

definition scan_blank :: arm where
  "scan_blank =
     seq (advance 1) (\<lambda>_.
     seq (gets sc_skipTrivia) (\<lambda>skip.
       if skip then again ()
       else seq (skip_while IsWhiteSpaceSingleLine) (\<lambda>_. finish KindWhitespaceTrivia)))"

definition scan_line_break :: "char \<Rightarrow> arm" where
  "scan_line_break ch =
     seq (add_flags TokenFlagsPrecedingLineBreak) (\<lambda>_.
     seq (gets sc_skipTrivia) (\<lambda>skip.
     seq (looking_at 1 LF) (\<lambda>feed.
       if skip then seq (advance 1) (\<lambda>_. again ())
       else token (if ch = CR \<and> feed then 2 else 1) KindNewLineTrivia)))"

definition scan_based :: "TokenFlags \<Rightarrow> string \<Rightarrow> string \<Rightarrow> string scanning \<Rightarrow> arm" where
  "scan_based flag base message scan_digits =
     seq (advance 2) (\<lambda>_.
     seq scan_digits (\<lambda>digits.
     seq (if digits = [] then seq (report message) (\<lambda>_. ret ''0'') else ret digits) (\<lambda>digits'.
     seq (set_value (base @ digits')) (\<lambda>_.
     seq (add_flags flag) (\<lambda>_. seq scanBigIntSuffix finish)))))"

definition scan_zero :: arm where
  "scan_zero =
     seq (gets (\<lambda>s. charAt s 1)) (\<lambda>ch1.
       if ch1 = Some CHR ''X'' \<or> ch1 = Some CHR ''x'' then
         scan_based TokenFlagsHexSpecifier ''0x'' ''Hexadecimal_digit_expected'' (scanHexDigits 1 True True)
       else if ch1 = Some CHR ''B'' \<or> ch1 = Some CHR ''b'' then
         scan_based TokenFlagsBinarySpecifier ''0b'' ''Binary_digit_expected'' (scanBinaryOrOctalDigits 2)
       else if ch1 = Some CHR ''O'' \<or> ch1 = Some CHR ''o'' then
         scan_based TokenFlagsOctalSpecifier ''0o'' ''Octal_digit_expected'' (scanBinaryOrOctalDigits 8)
       else seq scanNumber finish)"

definition scanInvalidCharacter :: "unit scanning" where
  "scanInvalidCharacter =
     seq charAndSize (\<lambda>(ch, width).
     seq (gets sc_pos) (\<lambda>pos.
     seq (errorAt ''Invalid_character'' (int pos) (int width) []) (\<lambda>_.
     seq (advance width) (\<lambda>_. set_token KindUnknown))))"

text \<open>A Unicode escape at the current position that may start an identifier; its character and the rest.\<close>

definition escaped_identifier :: "string option scanning" where
  "escaped_identifier =
     seq (gets sc_languageVersion) (\<lambda>v.
     seq peekUnicodeEscape (\<lambda>cp.
       case cp of
         Some r \<Rightarrow>
           if IsIdentifierStart r v then
             seq (scanUnicodeEscape True) (\<lambda>codePoint.
             seq scanIdentifierParts (\<lambda>parts.
               ret (Some ((case codePoint of Some r' \<Rightarrow> EncodeRune r' | None \<Rightarrow> EncodeRune RuneError) @ parts))))
           else ret None
       | None \<Rightarrow> ret None))"

definition scan_backslash :: arm where
  "scan_backslash =
     seq escaped_identifier (\<lambda>identifier.
       case identifier of
         Some v \<Rightarrow> seq (set_value v) (\<lambda>_. finish (GetIdentifierToken v))
       | None \<Rightarrow> seq scanInvalidCharacter (\<lambda>_. leave ()))"

definition scan_hash_identifier :: arm where
  "scan_hash_identifier =
     seq (scanIdentifier 1) (\<lambda>identifier.
       if identifier then finish KindPrivateIdentifier
       else
         seq (gets sc_pos) (\<lambda>pos.
         seq (errorAt ''Invalid_character'' (int pos - 1) 1 []) (\<lambda>_. finish KindUnknown)))"

definition scan_hash :: arm where
  "scan_hash =
     seq (looking_at 1 CHR ''!'') (\<lambda>bang.
     seq (looking_at 1 backslash) (\<lambda>escape.
     seq (gets sc_pos) (\<lambda>pos.
       if bang then
         if pos = 0 then seq (advance 2) (\<lambda>_. seq skip_line_runes (\<lambda>_. again ()))
         else
           seq (errorAt ''X_can_only_be_used_at_the_start_of_a_file'' (int pos) 2 []) (\<lambda>_. token 1 KindUnknown)
       else if escape then
         seq (advance 1) (\<lambda>_.
         seq escaped_identifier (\<lambda>identifier.
           case identifier of
             Some v \<Rightarrow> seq (set_value (''#'' @ v)) (\<lambda>_. finish KindPrivateIdentifier)
           | None \<Rightarrow> seq (set_pos pos) (\<lambda>_. scan_hash_identifier)))
       else scan_hash_identifier)))"

definition scan_other :: arm where
  "scan_other =
     seq (scanIdentifier 0) (\<lambda>identifier.
     seq (gets sc_tokenValue) (\<lambda>v.
       if identifier then finish (GetIdentifierToken v)
       else
         seq charAndSize (\<lambda>(ch, width).
           if ch = RuneError \<and> width = 1 then
             seq (errorAt ''File_appears_to_be_binary'' 0 0 []) (\<lambda>_.
             seq (modify (\<lambda>s. s\<lparr>sc_pos := length (sc_text s)\<rparr>)) (\<lambda>_. finish KindNonTextFileMarkerTrivia))
           else if IsWhiteSpaceSingleLine ch then
             seq (advance width) (\<lambda>_.
             seq (gets sc_skipTrivia) (\<lambda>skip.
               if ch = 0x0085 \<or> skip then again ()
               else seq (skip_while IsWhiteSpaceSingleLine) (\<lambda>_. finish KindWhitespaceTrivia)))
           else if IsLineBreak ch then
             seq (add_flags TokenFlagsPrecedingLineBreak) (\<lambda>_. seq (advance width) (\<lambda>_. again ()))
           else seq scanInvalidCharacter (\<lambda>_. leave ()))))"

section \<open>Scan\<close>

definition scan_arm :: "char \<Rightarrow> arm" where
  "scan_arm ch =
     (if ch \<in> {TAB, VT, FF, CHR '' ''} then scan_blank
      else if ch = LF \<or> ch = CR then scan_line_break ch
      else if ch = CHR ''!'' then scan_exclamation
      else if ch = quote_mark \<or> ch = apostrophe then
        seq (scanString False) (\<lambda>v. seq (set_value v) (\<lambda>_. finish KindStringLiteral))
      else if ch = backtick then seq (scanTemplateAndSetTokenValue False) finish
      else if ch = CHR ''%'' then scan_assignable KindPercentEqualsToken KindPercentToken
      else if ch = CHR ''&'' then
        scan_doubled_assignable ch KindAmpersandAmpersandEqualsToken KindAmpersandAmpersandToken
          KindAmpersandEqualsToken KindAmpersandToken
      else if ch = CHR ''('' then scan_simple KindOpenParenToken
      else if ch = CHR '')'' then scan_simple KindCloseParenToken
      else if ch = CHR ''*'' then scan_asterisk
      else if ch = CHR ''+'' then scan_plus_minus ch KindPlusEqualsToken KindPlusPlusToken KindPlusToken
      else if ch = CHR '','' then scan_simple KindCommaToken
      else if ch = CHR ''-'' then scan_plus_minus ch KindMinusEqualsToken KindMinusMinusToken KindMinusToken
      else if ch = CHR ''.'' then scan_dot
      else if ch = CHR ''/'' then scan_slash
      else if ch = CHR ''0'' then scan_zero
      else if IsDigit (rune ch) then seq scanNumber finish
      else if ch = CHR '':'' then scan_simple KindColonToken
      else if ch = CHR '';'' then scan_simple KindSemicolonToken
      else if ch = CHR ''<'' then or_conflict_marker scan_less
      else if ch = CHR ''='' then or_conflict_marker scan_equals
      else if ch = CHR ''>'' then or_conflict_marker (scan_simple KindGreaterThanToken)
      else if ch = CHR ''?'' then scan_question
      else if ch = CHR ''['' then scan_simple KindOpenBracketToken
      else if ch = CHR '']'' then scan_simple KindCloseBracketToken
      else if ch = CHR ''^'' then scan_assignable KindCaretEqualsToken KindCaretToken
      else if ch = CHR ''{'' then scan_simple KindOpenBraceToken
      else if ch = CHR ''|'' then
        or_conflict_marker
          (scan_doubled_assignable ch KindBarBarEqualsToken KindBarBarToken KindBarEqualsToken KindBarToken)
      else if ch = CHR ''}'' then scan_simple KindCloseBraceToken
      else if ch = CHR ''~'' then scan_simple KindTildeToken
      else if ch = CHR ''@'' then scan_simple KindAtToken
      else if ch = backslash then scan_backslash
      else if ch = CHR ''#'' then scan_hash
      else scan_other)"

definition scan_round :: arm where
  "scan_round =
     seq (modify (\<lambda>s. s\<lparr>sc_tokenStart := sc_pos s\<rparr>)) (\<lambda>_.
     seq (gets current_char) (\<lambda>ch.
       case ch of None \<Rightarrow> finish KindEndOfFile | Some c \<Rightarrow> scan_arm c))"

definition Scan :: "Kind scanning" where
  "Scan =
     seq (modify (\<lambda>s. s\<lparr>sc_fullStartPos := sc_pos s, sc_tokenFlags := TokenFlagsNone\<rparr>)) (\<lambda>_.
     seq (scan_loop (\<lambda>_. scan_round) ()) (\<lambda>_. gets sc_token))"

end
