(* ===== verification/Scanner_Rescan.thy ===== *)
theory Scanner_Rescan
  imports Scanner_Scan
begin

text \<open>
  The methods that scan a token again under another reading, and the scanning of JSX and JSDoc
  (\<open>internal/scanner/scanner.go\<close>), where the parser and not the scanner knows which tokens there are.
\<close>

section \<open>Tokens read again\<close>

definition current_token :: "Kind scanning" where
  "current_token = gets sc_token"

definition to_token_start :: "nat \<Rightarrow> unit scanning" where
  "to_token_start n = modify (\<lambda>s. s\<lparr>sc_pos := sc_tokenStart s + n\<rparr>)"

definition ReScanLessThanToken :: "Kind scanning" where
  "ReScanLessThanToken =
     seq current_token (\<lambda>token.
     seq (if token = KindLessThanLessThanToken
          then seq (to_token_start 1) (\<lambda>_. set_token KindLessThanToken) else ret ()) (\<lambda>_. current_token))"

definition ReScanGreaterThanToken :: "Kind scanning" where
  "ReScanGreaterThanToken =
     seq current_token (\<lambda>token.
     seq (if token = KindGreaterThanToken then
            seq (to_token_start 1) (\<lambda>_.
            seq (looking_at 0 CHR ''>'') (\<lambda>greater0.
            seq (looking_at 1 CHR ''>'') (\<lambda>greater1.
            seq (looking_at 0 CHR ''='') (\<lambda>eq0.
            seq (looking_at 1 CHR ''='') (\<lambda>eq1.
            seq (looking_at 2 CHR ''='') (\<lambda>eq2.
              if greater0 then
                if greater1 then
                  if eq2 then seq (advance 3) (\<lambda>_. set_token KindGreaterThanGreaterThanGreaterThanEqualsToken)
                  else seq (advance 2) (\<lambda>_. set_token KindGreaterThanGreaterThanGreaterThanToken)
                else if eq1 then seq (advance 2) (\<lambda>_. set_token KindGreaterThanGreaterThanEqualsToken)
                else seq (advance 1) (\<lambda>_. set_token KindGreaterThanGreaterThanToken)
              else if eq0 then seq (advance 1) (\<lambda>_. set_token KindGreaterThanEqualsToken)
              else ret ()))))))
          else ret ()) (\<lambda>_. current_token))"

definition ReScanTemplateToken :: "bool \<Rightarrow> Kind scanning" where
  "ReScanTemplateToken isTaggedTemplate =
     seq (to_token_start 0) (\<lambda>_.
     seq (scanTemplateAndSetTokenValue (\<not> isTaggedTemplate)) (\<lambda>kind.
     seq (set_token kind) (\<lambda>_. current_token)))"

definition ReScanAsteriskEqualsToken :: "Kind scanning" where
  "ReScanAsteriskEqualsToken =
     seq current_token (\<lambda>token.
       if token \<noteq> KindAsteriskEqualsToken
       then lift_go (Inl (Panicked ''ReScanAsteriskEqualsToken should only be called on a *=''))
       else seq (to_token_start 1) (\<lambda>_. seq (set_token KindEqualsToken) (\<lambda>_. current_token)))"

definition ReScanHashToken :: "Kind scanning" where
  "ReScanHashToken =
     seq current_token (\<lambda>token.
     seq (if token = KindPrivateIdentifier
          then seq (to_token_start 1) (\<lambda>_. set_token KindHashToken) else ret ()) (\<lambda>_. current_token))"

definition ReScanQuestionToken :: "Kind scanning" where
  "ReScanQuestionToken =
     seq current_token (\<lambda>token.
       if token \<noteq> KindQuestionQuestionToken
       then lift_go (Inl (Panicked ''reScanQuestionToken should only be called on a ??''))
       else seq (to_token_start 1) (\<lambda>_. seq (set_token KindQuestionToken) (\<lambda>_. current_token)))"

section \<open>Regular expressions\<close>

text \<open>The loop to the closing slash; the result says whether it was found.\<close>

definition regexp_body :: "bool scanning" where
  "regexp_body =
     scan_loop (\<lambda>(inEscape, inCharacterClass).
       seq charAndSize (\<lambda>(ch, width).
         if width = 0 \<or> IsLineBreak ch then seq (add_flags TokenFlagsUnterminated) (\<lambda>_. leave False)
         else if inEscape then seq (advance width) (\<lambda>_. again (False, inCharacterClass))
         else if ch = rune CHR ''/'' \<and> \<not> inCharacterClass then leave True
         else
           seq (advance width) (\<lambda>_.
             again (ch = rune backslash,
                    if ch = rune CHR ''['' then True else if ch = rune CHR '']'' then False else inCharacterClass))))
       (False, False)"

text \<open>
  The state of the search for the nearest unbalanced bracket: in an escape, depth of character classes, in a
  quantifier, depth of groups. \<open>None\<close> stops it.
\<close>

record bracket_state =
  bs_inEscape :: bool
  bs_characterClassDepth :: nat
  bs_inDecimalQuantifier :: bool
  bs_groupDepth :: nat

definition bracket_step :: "nat \<Rightarrow> bracket_state \<Rightarrow> bracket_state option" where
  "bracket_step ch b =
     (if bs_inEscape b then Some (b\<lparr>bs_inEscape := False\<rparr>)
      else if ch = rune backslash then Some (b\<lparr>bs_inEscape := True\<rparr>)
      else if ch = rune CHR ''['' then Some (b\<lparr>bs_characterClassDepth := bs_characterClassDepth b + 1\<rparr>)
      else if ch = rune CHR '']'' \<and> bs_characterClassDepth b \<noteq> 0 then
        Some (b\<lparr>bs_characterClassDepth := bs_characterClassDepth b - 1\<rparr>)
      else if bs_characterClassDepth b = 0 then
        if ch = rune CHR ''{'' then Some (b\<lparr>bs_inDecimalQuantifier := True\<rparr>)
        else if ch = rune CHR ''}'' \<and> bs_inDecimalQuantifier b then Some (b\<lparr>bs_inDecimalQuantifier := False\<rparr>)
        else if \<not> bs_inDecimalQuantifier b then
          if ch = rune CHR ''('' then Some (b\<lparr>bs_groupDepth := bs_groupDepth b + 1\<rparr>)
          else if ch = rune CHR '')'' \<and> bs_groupDepth b \<noteq> 0 then Some (b\<lparr>bs_groupDepth := bs_groupDepth b - 1\<rparr>)
          else if ch = rune CHR '')'' \<or> ch = rune CHR '']'' \<or> ch = rune CHR ''}'' then None
          else Some b
        else Some b
      else Some b)"

definition unbalanced_bracket :: "nat \<Rightarrow> unit scanning" where
  "unbalanced_bracket endOfRegExpBody =
     scan_loop (\<lambda>b.
       seq (gets sc_pos) (\<lambda>pos.
         if pos < endOfRegExpBody then
           seq charAndSize (\<lambda>(ch, width).
             case bracket_step ch b of
               Some b' \<Rightarrow> seq (advance width) (\<lambda>_. again b')
             | None \<Rightarrow> leave ())
         else leave ()))
       \<lparr>bs_inEscape = False, bs_characterClassDepth = 0, bs_inDecimalQuantifier = False, bs_groupDepth = 0\<rparr>"

definition trim_regexp :: "unit scanning" where
  "trim_regexp =
     scan_loop (\<lambda>_.
       seq (gets sc_pos) (\<lambda>pos.
       seq (text_slice 0 pos) (\<lambda>before.
         case DecodeLastRuneInString before of (ch, width) \<Rightarrow>
           if IsWhiteSpaceLike ch \<or> ch = rune CHR '';'' then seq (set_pos (pos - width)) (\<lambda>_. again ())
           else leave ()))) ()"

definition ReScanSlashToken :: "Kind scanning" where
  "ReScanSlashToken =
     seq current_token (\<lambda>token.
     seq (if token = KindSlashToken \<or> token = KindSlashEqualsToken then
            seq (to_token_start 1) (\<lambda>_.
            seq (gets sc_tokenStart) (\<lambda>tokenStart.
            seq (gets sc_pos) (\<lambda>startOfRegExpBody.
            seq (gets sc_languageVersion) (\<lambda>v.
            seq regexp_body (\<lambda>_.
            seq (gets (\<lambda>s. has_flag (sc_tokenFlags s) TokenFlagsUnterminated)) (\<lambda>unterminated.
            seq (if unterminated then
                   seq (gets sc_pos) (\<lambda>endOfRegExpBody.
                   seq (set_pos startOfRegExpBody) (\<lambda>_.
                   seq (unbalanced_bracket endOfRegExpBody) (\<lambda>_.
                   seq trim_regexp (\<lambda>_.
                   seq (gets sc_pos) (\<lambda>pos.
                     errorAt ''Unterminated_regular_expression_literal'' (int tokenStart) (int pos - int tokenStart) [])))))
                 else
                   seq (advance 1) (\<lambda>_.
                     scan_loop (\<lambda>_. seq charAndSize (\<lambda>(ch, width).
                       if width = 0 \<or> \<not> IsIdentifierPart ch v then leave ()
                       else seq (advance width) (\<lambda>_. again ()))) ())) (\<lambda>_.
            seq (gets sc_pos) (\<lambda>pos.
            seq (text_slice tokenStart pos) (\<lambda>literal.
            seq (set_value literal) (\<lambda>_. set_token KindRegularExpressionLiteral))))))))))
          else ret ()) (\<lambda>_. current_token))"

section \<open>JSX\<close>

text \<open>
  The text between tags. The loop variable is \<open>firstNonWhitespace\<close>: 0 as long as only white space was seen,
  -1 behind a first line of white space, else a position. \<open>None\<close> is a conflict marker.
\<close>

definition jsx_text :: "bool \<Rightarrow> int option scanning" where
  "jsx_text allowMultilineJsxText =
     scan_loop (\<lambda>firstNonWhitespace.
       seq charAndSize (\<lambda>(ch, width).
       seq (gets sc_text) (\<lambda>t.
       seq (gets sc_pos) (\<lambda>pos.
         if width = 0 \<or> ch = rune CHR ''{'' then leave (Some firstNonWhitespace)
         else if ch = rune CHR ''<'' then
           seq (lift_go (isConflictMarkerTrivia t pos)) (\<lambda>marker.
             if marker then
               seq (errorAt ''Merge_conflict_marker_encountered'' (int pos) 7 []) (\<lambda>_.
               seq (lift_go (scanConflictMarkerTrivia t pos)) (\<lambda>end. seq (set_pos end) (\<lambda>_. leave None)))
             else leave (Some firstNonWhitespace))
         else
           seq (if ch = rune CHR ''>'' then errorAt ''Unexpected_token_Did_you_mean_or_gt'' (int pos) 1 []
                else if ch = rune CHR ''}'' then errorAt ''Unexpected_token_Did_you_mean_or_rbrace'' (int pos) 1 []
                else ret ()) (\<lambda>_.
             if IsLineBreak ch \<and> firstNonWhitespace = 0 then seq (advance width) (\<lambda>_. again (-1))
             else if \<not> allowMultilineJsxText \<and> IsLineBreak ch \<and> firstNonWhitespace > 0 then
               leave (Some firstNonWhitespace)
             else
               seq (advance width) (\<lambda>_.
                 again (if \<not> IsWhiteSpaceLike ch then int pos else firstNonWhitespace))))))) 0"

definition ScanJsxTokenEx :: "bool \<Rightarrow> Kind scanning" where
  "ScanJsxTokenEx allowMultilineJsxText =
     seq (modify (\<lambda>s. s\<lparr>sc_fullStartPos := sc_pos s, sc_tokenStart := sc_pos s\<rparr>)) (\<lambda>_.
     seq (gets current_char) (\<lambda>ch.
     seq (looking_at 1 CHR ''/'') (\<lambda>closing.
     seq (gets sc_pos) (\<lambda>fullStart.
     seq (case ch of
            None \<Rightarrow> set_token KindEndOfFile
          | Some c \<Rightarrow>
              if c = CHR ''<'' then
                if closing then seq (advance 2) (\<lambda>_. set_token KindLessThanSlashToken)
                else seq (advance 1) (\<lambda>_. set_token KindLessThanToken)
              else if c = CHR ''{'' then seq (advance 1) (\<lambda>_. set_token KindOpenBraceToken)
              else
                seq (jsx_text allowMultilineJsxText) (\<lambda>r.
                  case r of
                    None \<Rightarrow> set_token KindConflictMarkerTrivia
                  | Some firstNonWhitespace \<Rightarrow>
                      seq (gets sc_pos) (\<lambda>pos.
                      seq (text_slice fullStart pos) (\<lambda>txt.
                      seq (set_value txt) (\<lambda>_.
                        set_token (if firstNonWhitespace = -1 then KindJsxTextAllWhiteSpaces else KindJsxText)))))) (\<lambda>_.
       current_token)))))"

definition ScanJsxToken :: "Kind scanning" where
  "ScanJsxToken = ScanJsxTokenEx True"

definition to_full_start :: "unit scanning" where
  "to_full_start = modify (\<lambda>s. s\<lparr>sc_pos := sc_fullStartPos s, sc_tokenStart := sc_fullStartPos s\<rparr>)"

definition ReScanJsxToken :: "bool \<Rightarrow> Kind scanning" where
  "ReScanJsxToken allowMultilineJsxText =
     seq to_full_start (\<lambda>_. ScanJsxTokenEx allowMultilineJsxText)"

definition ScanJsxIdentifier :: "Kind scanning" where
  "ScanJsxIdentifier =
     seq current_token (\<lambda>token.
     seq (if tokenIsIdentifierOrKeyword token then
            seq (scan_loop (\<lambda>_.
              seq (gets current_char) (\<lambda>ch.
              seq (gets sc_tokenValue) (\<lambda>v.
              seq (gets sc_pos) (\<lambda>oldPos.
                case ch of
                  None \<Rightarrow> leave ()
                | Some c \<Rightarrow>
                    if c = CHR ''-'' then seq (set_value (v @ ''-'')) (\<lambda>_. seq (advance 1) (\<lambda>_. again ()))
                    else
                      seq scanIdentifierParts (\<lambda>parts.
                      seq (set_value (v @ parts)) (\<lambda>_.
                      seq (gets sc_pos) (\<lambda>pos. if pos = oldPos then leave () else again ()))))))) ()) (\<lambda>_.
            seq (gets sc_tokenValue) (\<lambda>v. set_token (GetIdentifierToken v)))
          else ret ()) (\<lambda>_. current_token))"

definition ScanJsxAttributeValue :: "Kind scanning" where
  "ScanJsxAttributeValue =
     seq (modify (\<lambda>s. s\<lparr>sc_fullStartPos := sc_pos s\<rparr>)) (\<lambda>_.
     seq (gets current_char) (\<lambda>ch.
       if ch = Some quote_mark \<or> ch = Some apostrophe then
         seq (scanString True) (\<lambda>v.
         seq (set_value v) (\<lambda>_. seq (set_token KindStringLiteral) (\<lambda>_. current_token)))
       else Scan))"

definition ReScanJsxAttributeValue :: "Kind scanning" where
  "ReScanJsxAttributeValue = seq to_full_start (\<lambda>_. ScanJsxAttributeValue)"

section \<open>JSDoc\<close>

definition start_jsdoc :: "unit scanning" where
  "start_jsdoc = modify (\<lambda>s. s\<lparr>sc_fullStartPos := sc_pos s, sc_tokenFlags := TokenFlagsNone\<rparr>)"

definition at_end :: "bool scanning" where
  "at_end = gets (\<lambda>s. sc_pos s \<ge> length (sc_text s))"

definition jsdoc_punctuation :: "nat \<Rightarrow> Kind option" where
  "jsdoc_punctuation ch =
     (if ch = rune CHR ''@'' then Some KindAtToken
      else if ch = rune CHR ''*'' then Some KindAsteriskToken
      else if ch = rune CHR ''{'' then Some KindOpenBraceToken
      else if ch = rune CHR ''}'' then Some KindCloseBraceToken
      else if ch = rune CHR ''['' then Some KindOpenBracketToken
      else if ch = rune CHR '']'' then Some KindCloseBracketToken
      else if ch = rune CHR ''('' then Some KindOpenParenToken
      else if ch = rune CHR '')'' then Some KindCloseParenToken
      else if ch = rune CHR ''<'' then Some KindLessThanToken
      else if ch = rune CHR ''>'' then Some KindGreaterThanToken
      else if ch = rune CHR ''='' then Some KindEqualsToken
      else if ch = rune CHR '','' then Some KindCommaToken
      else if ch = rune CHR ''.'' then Some KindDotToken
      else if ch = rune backtick then Some KindBacktickToken
      else if ch = rune CHR ''#'' then Some KindHashToken
      else None)"

text \<open>An identifier of JSDoc, which may have hyphens; the result is the character that ended the loop.\<close>

definition jsdoc_identifier_loop :: "nat \<Rightarrow> nat scanning" where
  "jsdoc_identifier_loop ch =
     seq (gets sc_languageVersion) (\<lambda>v.
       scan_loop (\<lambda>char0.
         seq at_end (\<lambda>ended.
           if ended then leave char0
           else
             seq charAndSize (\<lambda>(char1, width).
               if \<not> IsIdentifierPart char1 v \<and> char1 \<noteq> rune CHR ''-'' then leave char1
               else seq (advance width) (\<lambda>_. again char1)))) ch)"

definition ScanJSDocToken :: "Kind scanning" where
  "ScanJSDocToken =
     seq start_jsdoc (\<lambda>_.
     seq at_end (\<lambda>ended.
     seq (if ended then set_token KindEndOfFile
          else
            seq (modify (\<lambda>s. s\<lparr>sc_tokenStart := sc_pos s\<rparr>)) (\<lambda>_.
            seq (gets sc_pos) (\<lambda>tokenStart.
            seq (gets sc_languageVersion) (\<lambda>v.
            seq charAndSize (\<lambda>(ch, width).
            seq (advance width) (\<lambda>_.
            seq (looking_at 0 LF) (\<lambda>feed.
              if ch \<in> {rune TAB, rune VT, rune FF, rune CHR '' ''} then
                seq (scan_loop (\<lambda>_. seq charAndSize (\<lambda>(ch2, width2).
                       if width2 > 0 \<and> IsWhiteSpaceSingleLine ch2 then seq (advance width2) (\<lambda>_. again ())
                       else leave ())) ()) (\<lambda>_. set_token KindWhitespaceTrivia)
              else if ch = rune CR \<or> ch = rune LF then
                seq (if ch = rune CR \<and> feed then advance 1 else ret ()) (\<lambda>_.
                seq (add_flags TokenFlagsPrecedingLineBreak) (\<lambda>_. set_token KindNewLineTrivia))
              else
                case jsdoc_punctuation ch of
                  Some kind \<Rightarrow> set_token kind
                | None \<Rightarrow>
                    if ch = rune backslash then
                      seq (modify (\<lambda>s. s\<lparr>sc_pos := sc_pos s - 1\<rparr>)) (\<lambda>_.
                      seq escaped_identifier (\<lambda>identifier.
                        case identifier of
                          Some x \<Rightarrow> seq (set_value x) (\<lambda>_. set_token (GetIdentifierToken x))
                        | None \<Rightarrow> scanInvalidCharacter))
                    else if IsIdentifierStart ch v then
                      seq (jsdoc_identifier_loop ch) (\<lambda>char1.
                      seq (gets sc_pos) (\<lambda>pos.
                      seq (text_slice tokenStart pos) (\<lambda>plain.
                      seq (if char1 = rune backslash then scanIdentifierParts else ret []) (\<lambda>parts.
                      seq (set_value (plain @ parts)) (\<lambda>_. set_token (GetIdentifierToken (plain @ parts)))))))
                    else set_token KindUnknown))))))) (\<lambda>_.
       current_token)))"

text \<open>Whether an at sign at \<open>pos\<close> starts a tag: white space before it, no white space behind it.\<close>

definition starts_tag :: "nat \<Rightarrow> nat \<Rightarrow> bool scanning" where
  "starts_tag pos width =
     seq (gets sc_text) (\<lambda>t.
     seq (text_slice 0 pos) (\<lambda>before.
       if IsWhiteSpaceSingleLine (fst (DecodeLastRuneInString before)) then
         if pos + width \<ge> length t then ret True
         else
           seq (text_slice (pos + width) (length t)) (\<lambda>behind.
             ret (\<not> IsWhiteSpaceLike (fst (DecodeRuneInString behind))))
       else ret False))"

definition ScanJSDocCommentTextToken :: "bool \<Rightarrow> Kind scanning" where
  "ScanJSDocCommentTextToken inBackticks =
     seq start_jsdoc (\<lambda>_.
     seq at_end (\<lambda>ended.
       if ended then seq (set_token KindEndOfFile) (\<lambda>_. current_token)
       else
         seq (modify (\<lambda>s. s\<lparr>sc_tokenStart := sc_pos s\<rparr>)) (\<lambda>_.
         seq (gets sc_pos) (\<lambda>tokenStart.
         seq (scan_loop (\<lambda>_.
           seq charAndSize (\<lambda>(ch, width).
           seq at_end (\<lambda>ended'.
           seq (gets sc_pos) (\<lambda>pos.
             if ended' \<or> IsLineBreak ch \<or> ch = rune backtick then leave ()
             else if \<not> inBackticks \<and> ch = rune CHR ''{'' then leave ()
             else
               seq (if \<not> inBackticks \<and> ch = rune CHR ''@'' then starts_tag pos width else ret False) (\<lambda>tag.
                 if tag then leave () else seq (advance width) (\<lambda>_. again ())))))) ()) (\<lambda>_.
         seq (gets sc_pos) (\<lambda>pos.
           if pos = tokenStart then ScanJSDocToken
           else
             seq (text_slice tokenStart pos) (\<lambda>txt.
             seq (set_value txt) (\<lambda>_.
             seq (set_token KindJSDocCommentTextToken) (\<lambda>_. current_token)))))))))"

end
