(* ===== verification/Scanner_Wp.thy ===== *)
theory Scanner_Wp
  imports Scanner_Rescan
begin

text \<open>
  Every method that scans the inside of a token returns without a panic, leaves the settings and the start of
  the token alone, and moves on within the text. \<open>adv s s'\<close> states this of the states before and behind; a
  rule \<open>\<dots>_adv\<close> per method reduces its use to the states it may lead to. The flags for a binary or an octal
  number are set by \<open>Scan\<close> only.
\<close>

unbundle bit_operations_syntax

section \<open>Moving on\<close>

definition specifiers :: "TokenFlags \<Rightarrow> TokenFlags" where
  "specifiers flags = flags AND TokenFlagsBinaryOrOctalSpecifier"

lemma specifiers_or [simp]: "specifiers flag = 0 \<Longrightarrow> specifiers (flags OR flag) = specifiers flags"
  by (simp add: specifiers_def and.commute [of _ TokenFlagsBinaryOrOctalSpecifier] bit.conj_disj_distrib)

lemma no_specifiers [simp]:
  "specifiers 0 = 0" "specifiers TokenFlagsNone = 0" "specifiers TokenFlagsPrecedingLineBreak = 0"
  "specifiers TokenFlagsPrecedingJSDocComment = 0" "specifiers TokenFlagsUnterminated = 0"
  "specifiers TokenFlagsExtendedUnicodeEscape = 0" "specifiers TokenFlagsScientific = 0"
  "specifiers TokenFlagsOctal = 0" "specifiers TokenFlagsContainsSeparator = 0"
  "specifiers TokenFlagsUnicodeEscape = 0" "specifiers TokenFlagsContainsInvalidEscape = 0"
  "specifiers TokenFlagsHexEscape = 0" "specifiers TokenFlagsContainsLeadingZero = 0"
  "specifiers TokenFlagsContainsInvalidSeparator = 0" "specifiers TokenFlagsPrecedingJSDocLeadingAsterisks = 0"
  by code_simp+

text \<open>The settings and the start of the token, which stay.\<close>

definition frame where
  "frame s = (sc_languageVersion s, sc_languageVariant s, sc_skipTrivia s, sc_JSDocParsingMode s, sc_scriptKind s,
     sc_numberText s, sc_skipJSDocLeadingAsterisks s, sc_fullStartPos s, sc_tokenStart s)"

lemma frame_updates [simp]:
  "frame (s\<lparr>sc_pos := p\<rparr>) = frame s" "frame (s\<lparr>sc_token := k\<rparr>) = frame s"
  "frame (s\<lparr>sc_tokenValue := v\<rparr>) = frame s" "frame (s\<lparr>sc_tokenFlags := f\<rparr>) = frame s"
  "frame (s\<lparr>sc_commentDirectives := d\<rparr>) = frame s" "frame (s\<lparr>sc_errors := e\<rparr>) = frame s"
  by (simp_all add: frame_def)

definition adv :: "Scanner \<Rightarrow> Scanner \<Rightarrow> bool" where
  "adv s s' =
     (sc_text s' = sc_text s \<and> frame s' = frame s \<and>
      specifiers (sc_tokenFlags s') = specifiers (sc_tokenFlags s) \<and>
      sc_pos s \<le> sc_pos s' \<and> sc_pos s' \<le> length (sc_text s))"

abbreviation inside_text :: "Scanner \<Rightarrow> bool" where
  "inside_text s \<equiv> sc_pos s \<le> length (sc_text s)"

lemma adv_refl: "inside_text s \<Longrightarrow> adv s s"
  by (simp add: adv_def)

lemma adv_trans: "adv s1 s2 \<Longrightarrow> adv s2 s3 \<Longrightarrow> adv s1 s3"
  by (simp add: adv_def)

section \<open>Conditions of the primitive methods\<close>

declare run_simps [simp del] seq_run [simp del] seq_gets_run [simp del] seq_modify_run [simp del]

lemma wp_charAndSize [simp]:
  "wp charAndSize Q s \<longleftrightarrow> inside_text s \<and> Q (DecodeRuneInString (drop (sc_pos s) (sc_text s))) s"
  by (simp add: charAndSize_def go_slice_def)

lemma wp_text_slice [simp]:
  "wp (text_slice lo hi) Q s \<longleftrightarrow>
     lo \<le> hi \<and> hi \<le> length (sc_text s) \<and> Q (take (hi - lo) (drop lo (sc_text s))) s"
  by (cases "lo \<le> hi \<and> hi \<le> length (sc_text s)") (auto simp: text_slice_def go_slice_def)

lemma wp_writes [simp]:
  "wp (advance n) Q s \<longleftrightarrow> Q () (s\<lparr>sc_pos := sc_pos s + n\<rparr>)"
  "wp (set_pos p) Q s \<longleftrightarrow> Q () (s\<lparr>sc_pos := p\<rparr>)"
  "wp (set_token k) Q s \<longleftrightarrow> Q () (s\<lparr>sc_token := k\<rparr>)"
  "wp (set_value v) Q s \<longleftrightarrow> Q () (s\<lparr>sc_tokenValue := v\<rparr>)"
  by (simp_all add: advance_def set_pos_def set_token_def set_value_def)

lemma charAt_Some: "charAt s n = Some c \<Longrightarrow> sc_pos s + n < length (sc_text s)"
  by (simp add: charAt_def split: if_splits)

lemma current_char_Some: "current_char s = Some c \<Longrightarrow> sc_pos s < length (sc_text s)"
  using charAt_Some [of s 0] by (simp add: current_char_def)

lemma in_class_char: "in_class p ch \<Longrightarrow> \<exists>c. ch = Some c \<and> p (rune c)"
  by (simp add: in_class_def split: option.splits)

lemma in_class_current: "in_class p (current_char s) \<Longrightarrow> sc_pos s < length (sc_text s)"
  by (auto dest!: in_class_char current_char_Some)

text \<open>Methods that touch neither the position nor the settings.\<close>

definition silent :: "Scanner \<Rightarrow> Scanner \<Rightarrow> bool" where
  "silent s s' = (adv s s' \<and> sc_pos s' = sc_pos s \<and> sc_token s' = sc_token s \<and> sc_tokenValue s' = sc_tokenValue s)"

lemma errorAt_adv [intro!]:
  "inside_text s \<Longrightarrow> (\<And>s'. silent s s' \<Longrightarrow> sc_tokenFlags s' = sc_tokenFlags s \<Longrightarrow> Q () s') \<Longrightarrow> wp (errorAt m p n args) Q s"
  by (simp add: errorAt_def silent_def adv_def)

lemma report_adv [intro!]:
  "inside_text s \<Longrightarrow> (\<And>s'. silent s s' \<Longrightarrow> sc_tokenFlags s' = sc_tokenFlags s \<Longrightarrow> Q () s') \<Longrightarrow> wp (report m) Q s"
  by (auto simp: report_def)

lemma add_flags_adv [intro!]:
  "inside_text s \<Longrightarrow> specifiers flags = 0 \<Longrightarrow> (\<And>s'. silent s s' \<Longrightarrow> Q () s') \<Longrightarrow> wp (add_flags flags) Q s"
  by (simp add: add_flags_def silent_def adv_def)

section \<open>Loops\<close>

definition remaining :: "Scanner \<Rightarrow> nat" where
  "remaining s = length (sc_text s) - sc_pos s"

lemma scan_loop_adv:
  assumes "inside_text s" and "J v s"
    and body: "\<And>v s'. adv s s' \<Longrightarrow> J v s' \<Longrightarrow>
      wp (body v) (\<lambda>r s''. case r of
          Inl v' \<Rightarrow> adv s' s'' \<and> sc_pos s' < sc_pos s'' \<and> J v' s''
        | Inr x \<Rightarrow> adv s' s'' \<and> K x s'') s'"
    and after: "\<And>x s'. adv s s' \<Longrightarrow> K x s' \<Longrightarrow> Q x s'"
  shows "wp (scan_loop body v) Q s"
proof -
  have "wp (body v) (round_ok (\<lambda>v s'. adv s s' \<and> J v s') remaining Q (remaining s')) s'" if "adv s s' \<and> J v s'" for v s'
  proof (rule wp_conseq)
    show "wp (body v) (\<lambda>r s''. case r of
          Inl v' \<Rightarrow> adv s' s'' \<and> sc_pos s' < sc_pos s'' \<and> J v' s''
        | Inr x \<Rightarrow> adv s' s'' \<and> K x s'') s'"
      using that by (intro body) auto
  next
    fix r s''
    assume "case r of Inl v' \<Rightarrow> adv s' s'' \<and> sc_pos s' < sc_pos s'' \<and> J v' s'' | Inr x \<Rightarrow> adv s' s'' \<and> K x s''"
    with that show "round_ok (\<lambda>v s'. adv s s' \<and> J v s') remaining Q (remaining s') r s''"
      by (cases r) (auto intro: adv_trans after simp: remaining_def adv_def)
  qed
  moreover have "remaining s < Suc (length (sc_text s))" by (simp add: remaining_def)
  ultimately have "wp (iterate (Suc (length (sc_text s))) body v) Q s"
    using assms(1,2) by (intro wp_iterate [where I = "\<lambda>v s'. adv s s' \<and> J v s'" and f = remaining]) (auto intro: adv_refl)
  then show ?thesis by (simp only: scan_loop_def wp_seq wp_gets)
qed

lemma decode_here:
  assumes "adv s s'" and "DecodeRuneInString (drop (sc_pos s') (sc_text s)) = (ch, width)"
  shows "sc_pos s' + width \<le> length (sc_text s)" and "ch \<noteq> RuneError \<Longrightarrow> 0 < width"
proof -
  have "sc_pos s' \<le> length (sc_text s)" using assms(1) by (simp add: adv_def)
  then show "sc_pos s' + width \<le> length (sc_text s)" "ch \<noteq> RuneError \<Longrightarrow> 0 < width"
    using decode_width [of "drop (sc_pos s') (sc_text s)"] assms(2)
    by (cases "drop (sc_pos s') (sc_text s) = []"; auto)+
qed

lemma skip_while_adv:
  assumes "inside_text s" and "\<not> p RuneError" and "\<And>s'. adv s s' \<Longrightarrow> Q () s'"
  shows "wp (skip_while p) Q s"
  unfolding skip_while_def
proof (rule scan_loop_adv [where J = "\<lambda>_ _. True" and K = "\<lambda>_ _. True"])
  fix v :: unit and s'
  assume s': "adv s s'"
  show "wp (seq charAndSize (\<lambda>(ch, width). if p ch then seq (advance width) (\<lambda>_. again ()) else leave ()))
     (\<lambda>r s''. case r of Inl v' \<Rightarrow> adv s' s'' \<and> sc_pos s' < sc_pos s'' \<and> True | Inr x \<Rightarrow> adv s' s'' \<and> True) s'"
    using s' decode_here [OF s'] assms(2)
    by (auto simp: adv_def split: prod.splits if_splits)
qed (use assms in auto)

lemma silent_unfold: "silent s s' \<Longrightarrow> adv s s' \<and> sc_pos s' = sc_pos s"
  by (simp add: silent_def)

lemma silent_trans: "silent s1 s2 \<Longrightarrow> silent s2 s3 \<Longrightarrow> silent s1 s3"
  by (auto simp: silent_def intro: adv_trans)

lemma silent_refl: "inside_text s \<Longrightarrow> silent s s"
  by (simp add: silent_def adv_refl)

lemma silent_inside: "silent s s' \<Longrightarrow> inside_text s'"
  by (simp add: silent_def adv_def)

lemma adv_inside: "adv s s' \<Longrightarrow> inside_text s'"
  by (simp add: adv_def)

section \<open>Numerals\<close>

lemmas moves = silent_def adv_def

lemma digit_separator_adv [intro!]:
  assumes "inside_text s" and "specifiers f = 0" and "\<And>x s'. silent s s' \<Longrightarrow> Q x s'"
  shows "wp (digit_separator f a p) Q s"
  using assms(1,2) by (auto simp: digit_separator_def moves intro!: assms(3))

lemma trailing_separator_adv [intro!]:
  assumes "inside_text s" and "specifiers f = 0" and "\<And>x s'. silent s s' \<Longrightarrow> Q x s'"
  shows "wp (trailing_separator f p) Q s"
  using assms(1,2) by (auto simp: trailing_separator_def moves intro!: assms(3))

lemma scanHexDigits_adv [intro!]:
  assumes "inside_text s" and after: "\<And>x s'. adv s s' \<Longrightarrow> Q x s'"
  shows "wp (scanHexDigits n many separators) Q s"
  unfolding scanHexDigits_def wp_seq
proof (rule scan_loop_adv [where J = "\<lambda>_ _. True" and K = "\<lambda>_ _. True"], goal_cases)
  case (3 v s')
  then show ?case
    by (auto simp: moves wp_option split: prod.splits option.splits dest: current_char_Some)
next
  case (4 x s')
  then show ?case by (auto simp: moves intro!: after split: prod.splits)
qed (use assms in auto)

text \<open>The digits of a number with a base prefix.\<close>

definition base_digit :: "nat \<Rightarrow> char \<Rightarrow> bool" where
  "base_digit base c = (IsDigit (rune c) \<and> rune c - 48 < base)"

lemma scanBinaryOrOctalDigits_adv [intro!]:
  assumes "inside_text s"
    and after: "\<And>x s'. adv s s' \<Longrightarrow> \<forall>c \<in> set x. base_digit base c \<Longrightarrow> Q x s'"
  shows "wp (scanBinaryOrOctalDigits base) Q s"
  unfolding scanBinaryOrOctalDigits_def wp_seq
proof (rule scan_loop_adv [where J = "\<lambda>v _. \<forall>c \<in> set (fst v). base_digit base c"
      and K = "\<lambda>v _. \<forall>c \<in> set (fst v). base_digit base c"], goal_cases)
  case (3 v s')
  then show ?case
    by (auto simp: moves wp_option base_digit_def split: prod.splits option.splits dest: current_char_Some)
next
  case (4 x s')
  then show ?case by (auto simp: moves intro!: after split: prod.splits)
qed (use assms in auto)

lemma scanNumberFragment_adv [intro!]:
  assumes "inside_text s" and after: "\<And>x s'. adv s s' \<Longrightarrow> Q x s'"
  shows "wp scanNumberFragment Q s"
  unfolding scanNumberFragment_def wp_seq wp_gets
proof (rule scan_loop_adv [where J = "\<lambda>v s'. fst v \<le> sc_pos s'" and K = "\<lambda>v s'. fst v \<le> sc_pos s'"], goal_cases)
  case (3 v s')
  then show ?case
    by (auto simp: moves split: prod.splits dest: current_char_Some in_class_current)
next
  case (4 x s')
  then show ?case by (auto simp: moves intro!: after split: prod.splits)
qed (use assms in auto)

lemma scanDigits_adv [intro!]:
  assumes "inside_text s" and after: "\<And>x s'. adv s s' \<Longrightarrow> Q x s'"
  shows "wp scanDigits Q s"
  unfolding scanDigits_def wp_seq wp_gets
proof (rule scan_loop_adv [where J = "\<lambda>_ _. True" and K = "\<lambda>_ _. True"], goal_cases)
  case (3 v s')
  then show ?case by (auto simp: moves split: prod.splits dest: in_class_current)
next
  case (4 x s')
  then show ?case by (auto simp: moves intro!: after split: prod.splits)
qed (use assms in auto)

lemma wp_number_text [simp]: "wp (number_text digits) Q s \<longleftrightarrow> Q (sc_numberText s digits) s"
  by (simp add: number_text_def)

lemma has_specifier: "has_flag flags TokenFlagsBinaryOrOctalSpecifier \<longleftrightarrow> specifiers flags \<noteq> 0"
  by (simp add: has_flag_def specifiers_def)

lemma scanBigIntSuffix_adv:
  assumes "inside_text s"
    and "specifiers (sc_tokenFlags s) \<noteq> 0 \<Longrightarrow> \<exists>digits. ParsePseudoBigInt (sc_tokenValue s @ ''n'') = Inr digits"
    and after: "\<And>x s'. adv s s' \<Longrightarrow> x \<noteq> KindEndOfFile \<Longrightarrow> Q x s'"
  shows "wp scanBigIntSuffix Q s"
proof (cases "current_char s = Some CHR ''n''")
  case True
  from current_char_Some [OF this] assms(1,2) show ?thesis
    by (auto simp: scanBigIntSuffix_def moves KindEndOfFile_def KindBigIntLiteral_def KindNumericLiteral_def has_specifier True intro!: after)
next
  case False
  with assms(1) show ?thesis by (auto simp: scanBigIntSuffix_def moves KindEndOfFile_def KindBigIntLiteral_def KindNumericLiteral_def intro!: after)
qed

section \<open>Escape sequences\<close>

lemma wp_looking_at [simp]: "wp (looking_at n c) Q s \<longleftrightarrow> Q (charAt s n = Some c) s"
  by (simp add: looking_at_def)

lemma invalid_escape_adv:
  assumes "inside_text s"
    and complain: "\<And>s' Q. silent s s' \<Longrightarrow> (\<And>s''. silent s' s'' \<Longrightarrow> Q () s'') \<Longrightarrow> wp complain Q s'"
    and after: "\<And>s'. adv s s' \<Longrightarrow> Q None s'"
  shows "wp (invalid_escape emit complain) Q s"
  using assms(1) unfolding invalid_escape_def
  by (auto simp: moves intro!: after complain)

lemma escape_digits_adv [intro!]:
  assumes "inside_text s" and "extended \<Longrightarrow> sc_pos s < length (sc_text s)" and after: "\<And>x s'. adv s s' \<Longrightarrow> Q x s'"
  shows "wp (escape_digits extended) Q s"
  using assms(1,2) by (auto simp: escape_digits_def moves intro!: after)

lemma close_escape_adv [intro!]:
  assumes "inside_text s" and after: "\<And>x s'. adv s s' \<Longrightarrow> Q x s'"
  shows "wp (close_escape emit start v) Q s"
  using assms(1) charAt_Some [of s 0]
  by (auto simp: close_escape_def moves intro!: after invalid_escape_adv)

lemma scanUnicodeEscape_adv [intro!]:
  assumes "sc_pos s + 2 \<le> length (sc_text s)"
    and after: "\<And>x s'. adv s s' \<Longrightarrow> sc_pos s + 2 \<le> sc_pos s' \<Longrightarrow> Q x s'"
  shows "wp (scanUnicodeEscape emit) Q s"
  using assms(1) charAt_Some [of "s\<lparr>sc_pos := Suc (Suc (sc_pos s))\<rparr>" 0] unfolding scanUnicodeEscape_def
  by (auto simp: Let_def moves intro!: after invalid_escape_adv)

text \<open>Looking at an escape restores the position and the flags.\<close>

definition unmoved :: "Scanner \<Rightarrow> Scanner \<Rightarrow> bool" where
  "unmoved s s' = (adv s s' \<and> sc_pos s' = sc_pos s \<and> sc_tokenFlags s' = sc_tokenFlags s)"

lemma peekUnicodeEscape_adv [intro!]:
  assumes "inside_text s"
    and after: "\<And>x s'. unmoved s s' \<Longrightarrow> (x \<noteq> None \<Longrightarrow> sc_pos s + 2 \<le> length (sc_text s)) \<Longrightarrow> Q x s'"
  shows "wp peekUnicodeEscape Q s"
  using assms(1) charAt_Some [of s 1] unfolding peekUnicodeEscape_def
  by (auto simp: unmoved_def adv_def intro!: after)

end
