(* ===== verification/Scanner_Wp_Strings.thy ===== *)
theory Scanner_Wp_Strings
  imports Scanner_Wp
begin

text \<open>
  The rules of the methods that scan identifiers, strings, templates and numbers: they return without a panic
  and move on, strictly where the character they start at belongs to the token.
\<close>

lemma char_unmoved: "sc_text s' = sc_text s \<Longrightarrow> sc_pos s' = sc_pos s \<Longrightarrow> charAt s' n = charAt s n"
  by (simp add: charAt_def)

lemma adv_char: "adv s s' \<Longrightarrow> sc_pos s' = sc_pos s \<Longrightarrow> current_char s' = current_char s"
  unfolding current_char_def adv_def by (rule char_unmoved) auto

section \<open>Escape sequences\<close>

lemma optional_octal_digit_adv [intro!]:
  assumes "inside_text s" and after: "\<And>s'. adv s s' \<Longrightarrow> Q () s'"
  shows "wp optional_octal_digit Q s"
  using assms(1) by (auto simp: optional_octal_digit_def moves intro!: after dest: in_class_current)

lemma octal_escape_adv [intro!]:
  assumes "inside_text s" and "start < sc_pos s" and after: "\<And>x s'. adv s s' \<Longrightarrow> Q x s'"
  shows "wp (octal_escape flags start c) Q s"
  using assms(1,2) unfolding octal_escape_def by (auto simp: moves Let_def intro!: after)

lemma decimal_escape_adv [intro!]:
  assumes "inside_text s" and "start < sc_pos s" and after: "\<And>x s'. adv s s' \<Longrightarrow> Q x s'"
  shows "wp (decimal_escape flags start c) Q s"
  using assms(1,2) unfolding decimal_escape_def by (auto simp: moves intro!: after)

lemma hex_escape_adv [intro!]:
  assumes "inside_text s" and "start + 2 \<le> sc_pos s" and after: "\<And>x s'. adv s s' \<Longrightarrow> Q x s'"
  shows "wp (hex_escape flags start) Q s"
  unfolding hex_escape_def wp_seq
proof (rule scan_loop_adv [where J = "\<lambda>_ _. True" and K = "\<lambda>_ _. True"], goal_cases)
  case (3 v s')
  then show ?case by (auto simp: moves dest: in_class_current)
next
  case (4 x s')
  with assms(2) show ?case by (auto simp: moves intro!: after)
qed (use assms in auto)

lemma unicode_escape_adv [intro!]:
  assumes "inside_text s" and "sc_pos s = start + 2" and after: "\<And>x s'. adv s s' \<Longrightarrow> Q x s'"
  shows "wp (unicode_escape flags start) Q s"
  using assms(1,2) unfolding unicode_escape_def
  by (auto simp: moves wp_option split: option.splits intro!: after)

lemma other_escape_adv [intro!]:
  assumes "inside_text s" and after: "\<And>x s'. adv s s' \<Longrightarrow> Q x s'"
  shows "wp (other_escape flags c) Q s"
  using assms(1) unfolding other_escape_def by (auto simp: moves intro!: after)

lemma wp_either: "wp m1 Q s \<Longrightarrow> wp m2 Q s \<Longrightarrow> wp (if b then m1 else m2) Q s"
  by simp

lemma simple_escape_adv [intro!]:
  assumes "inside_text s" and "sc_pos s = start + 2" and after: "\<And>x s'. adv s s' \<Longrightarrow> Q x s'"
  shows "wp (escape_behind flags start c) Q s"
  unfolding escape_behind_def
  by (intro wp_either) (use assms(1,2) in \<open>auto simp: moves intro!: after dest: current_char_Some\<close>)

lemma scanEscapeSequence_adv [intro!]:
  assumes "sc_pos s < length (sc_text s)" and after: "\<And>x s'. adv s s' \<Longrightarrow> sc_pos s < sc_pos s' \<Longrightarrow> Q x s'"
  shows "wp (scanEscapeSequence flags) Q s"
proof (cases "current_char (s\<lparr>sc_pos := Suc (sc_pos s)\<rparr>)")
  case None
  with assms(1) show ?thesis by (auto simp: scanEscapeSequence_def moves intro!: after)
next
  case (Some c)
  from current_char_Some [OF this] Some show ?thesis
    by (auto simp: scanEscapeSequence_def moves intro!: after)
qed

section \<open>Identifiers\<close>

lemma identifier_rune: "IsIdentifierPart ch v \<Longrightarrow> ch \<noteq> RuneError" "IsIdentifierStart ch v \<Longrightarrow> ch \<noteq> RuneError"
  by (auto simp: RuneError_no_identifier)

lemma skip_identifier_adv [intro!]:
  "inside_text s \<Longrightarrow> (\<And>s'. adv s s' \<Longrightarrow> Q () s') \<Longrightarrow> wp (skip_while (\<lambda>r. IsIdentifierPart r v)) Q s"
  by (rule skip_while_adv) auto

lemma scanIdentifierParts_adv [intro!]:
  assumes "inside_text s" and after: "\<And>x s'. adv s s' \<Longrightarrow> Q x s'"
  shows "wp scanIdentifierParts Q s"
  unfolding scanIdentifierParts_def wp_seq wp_gets
proof (rule scan_loop_adv [where J = "\<lambda>v s'. snd v \<le> sc_pos s'" and K = "\<lambda>v s'. snd v \<le> sc_pos s'"], goal_cases)
  case (3 v s')
  then show ?case
    using decode_here [OF 3(1)]
    by (auto simp: moves unmoved_def wp_option dest: identifier_rune split: prod.splits option.splits)
next
  case (4 x s')
  then show ?case by (auto simp: moves intro!: after split: prod.splits)
qed (use assms in auto)


lemma ascii_word_loop_adv [intro!]:
  assumes "sc_pos s < length (sc_text s)" and after: "\<And>x s'. adv s s' \<Longrightarrow> sc_pos s < sc_pos s' \<Longrightarrow> Q x s'"
  shows "wp ascii_word_loop Q s"
  unfolding ascii_word_loop_def
proof (rule scan_loop_adv [where J = "\<lambda>_ s'. sc_pos s' < length (sc_text s')" and K = "\<lambda>_ s'. sc_pos s < sc_pos s'"], goal_cases)
  case (3 v s')
  then show ?case
    using in_class_current [where s = "s'\<lparr>sc_pos := Suc (sc_pos s')\<rparr>"] by (auto simp: moves)
qed (use assms in auto)

lemma identifier_at_adv [intro!]:
  assumes "inside_text s" and "start \<le> sc_pos s"
    and after: "\<And>x s'. adv s s' \<Longrightarrow> (x \<Longrightarrow> sc_pos s < sc_pos s') \<Longrightarrow> (\<not> x \<Longrightarrow> sc_pos s' = sc_pos s) \<Longrightarrow> Q x s'"
  shows "wp (identifier_at start) Q s"
proof -
  obtain ch n where d: "DecodeRuneInString (drop (sc_pos s) (sc_text s)) = (ch, n)" by fastforce
  have n: "sc_pos s + n \<le> length (sc_text s)" "ch \<noteq> RuneError \<Longrightarrow> 0 < n"
    using decode_here [OF adv_refl [OF assms(1)] d] by auto
  show ?thesis
  proof (cases "IsIdentifierStart ch (sc_languageVersion s)")
    case True
    then have "0 < n" using n(2) by (cases "ch = RuneError") (auto simp: RuneError_no_identifier)
    with True n assms(1,2) d show ?thesis
      unfolding identifier_at_def by (auto simp: moves split: prod.splits intro!: after)
  next
    case False
    with assms(1,2) d show ?thesis unfolding identifier_at_def by (auto simp: moves intro!: after)
  qed
qed

lemma scanIdentifier_adv [intro!]:
  assumes "sc_pos s + n \<le> length (sc_text s)"
    and after: "\<And>x s'. adv s s' \<Longrightarrow> (x \<Longrightarrow> sc_pos s + n < sc_pos s') \<Longrightarrow> (\<not> x \<Longrightarrow> sc_pos s' = sc_pos s + n) \<Longrightarrow> Q x s'"
  shows "wp (scanIdentifier n) Q s"
  using assms(1) in_class_current [where s = "s\<lparr>sc_pos := sc_pos s + n\<rparr>"] unfolding scanIdentifier_def
  by (auto simp: moves intro!: after)

section \<open>Strings and templates\<close>

lemma scanString_adv [intro!]:
  assumes "sc_pos s < length (sc_text s)" and after: "\<And>x s'. adv s s' \<Longrightarrow> sc_pos s < sc_pos s' \<Longrightarrow> Q x s'"
  shows "wp (scanString jsx) Q s"
  unfolding scanString_def wp_seq wp_gets wp_writes
proof (rule scan_loop_adv [where J = "\<lambda>v s'. snd v \<le> sc_pos s'" and K = "\<lambda>_ _. True"], goal_cases)
  case (3 v s')
  then show ?case
    using current_char_Some [of s'] by (auto simp: moves Let_def split: prod.splits)
next
  case (4 x s')
  then show ?case by (auto simp: moves intro!: after)
qed (use assms in auto)

lemma scanTemplate_adv [intro!]:
  assumes "sc_pos s < length (sc_text s)"
    and after: "\<And>x s'. adv s s' \<Longrightarrow> sc_pos s < sc_pos s' \<Longrightarrow> x \<noteq> KindEndOfFile \<Longrightarrow> Q x s'"
  shows "wp (scanTemplateAndSetTokenValue emit) Q s"
  unfolding scanTemplateAndSetTokenValue_def wp_seq wp_gets wp_writes
proof (rule scan_loop_adv [where J = "\<lambda>v s'. snd v \<le> sc_pos s'" and K = "\<lambda>v _. snd v \<noteq> KindEndOfFile"], goal_cases)
  case (3 v s')
  then show ?case
    using current_char_Some [of s'] charAt_Some [of s' 1]
    by (auto simp: moves kind_defs split: prod.splits)
next
  case (4 x s')
  then show ?case by (auto simp: moves intro!: after split: prod.splits)
qed (use assms in auto)

section \<open>Numbers\<close>

lemma scanNumberFragment_digit:
  assumes "inside_text s"
    and after: "\<And>x s'. adv s s' \<Longrightarrow> (in_class IsDigit (current_char s) \<Longrightarrow> sc_pos s < sc_pos s') \<Longrightarrow> Q x s'"
  shows "wp scanNumberFragment Q s"
  unfolding scanNumberFragment_def wp_seq wp_gets
proof (rule scan_loop_adv [where J = "\<lambda>v s'. fst v \<le> sc_pos s'"
      and K = "\<lambda>v s'. fst v \<le> sc_pos s' \<and> (in_class IsDigit (current_char s) \<longrightarrow> sc_pos s < sc_pos s')"], goal_cases)
  case (3 v s')
  then show ?case
    using adv_char [OF 3(1)] by (cases "sc_pos s' = sc_pos s")
      (auto simp: moves split: prod.splits dest: current_char_Some in_class_current)
next
  case (4 x s')
  then show ?case by (auto simp: moves intro!: after split: prod.splits)
qed (use assms in auto)

lemma fixed_part_adv:
  assumes "inside_text s" and "start = sc_pos s"
    and after: "\<And>x s'. adv s s' \<Longrightarrow> (in_class IsDigit (current_char s) \<Longrightarrow> sc_pos s < sc_pos s') \<Longrightarrow>
      (x = None \<Longrightarrow> sc_pos s < sc_pos s') \<Longrightarrow> Q x s'"
  shows "wp (fixed_part start) Q s"
  using assms(1,2) unfolding fixed_part_def
  by (auto simp: moves Let_def current_char_def charAt_def in_class_def IsDigit_def
      intro!: after scanNumberFragment_digit split: if_splits)

lemma optional_sign_adv [intro!]:
  assumes "inside_text s" and after: "\<And>s'. adv s s' \<Longrightarrow> Q () s'"
  shows "wp optional_sign Q s"
  using assms(1) current_char_Some [of s] by (auto simp: optional_sign_def moves intro!: after)

lemma exponent_part_adv [intro!]:
  assumes "inside_text s"
    and after: "\<And>p t s'. adv s s' \<Longrightarrow> sc_pos s \<le> p \<Longrightarrow> p \<le> sc_pos s' \<Longrightarrow> Q (p, t) s'"
  shows "wp exponent_part Q s"
  using assms(1) current_char_Some [of s] unfolding exponent_part_def by (auto simp: moves intro!: after)

lemma after_number_adv [intro!]:
  assumes "inside_text s" and after: "\<And>x s'. adv s s' \<Longrightarrow> x = kind \<Longrightarrow> Q x s'"
  shows "wp (after_number start p kind) Q s"
  using assms(1) unfolding after_number_def by (auto simp: moves Let_def split: prod.splits intro!: after)

lemma set_number_adv [intro!]:
  assumes "inside_text s" and after: "\<And>x s'. adv s s' \<Longrightarrow> x \<noteq> KindEndOfFile \<Longrightarrow> Q x s'"
  shows "wp set_number Q s"
  using assms(1) by (auto simp: set_number_def moves KindNumericLiteral_def KindEndOfFile_def intro!: after)

lemma number_behind_adv:
  assumes "inside_text s" and "specifiers (sc_tokenFlags s) = 0" and "start \<le> sc_pos s"
    and after: "\<And>x s'. adv s s' \<Longrightarrow> (current_char s = Some CHR ''.'' \<Longrightarrow> sc_pos s < sc_pos s') \<Longrightarrow>
      x \<noteq> KindEndOfFile \<Longrightarrow> Q x s'"
  shows "wp (number_behind start fixedPart) Q s"
  using assms(1-3) current_char_Some [of s] unfolding number_behind_def
  by (auto simp: moves intro!: after scanBigIntSuffix_adv)

lemma scanNumber_adv:
  assumes "inside_text s" and "specifiers (sc_tokenFlags s) = 0"
    and first: "in_class IsDigit (current_char s) \<or> current_char s = Some CHR ''.''"
    and after: "\<And>x s'. adv s s' \<Longrightarrow> sc_pos s < sc_pos s' \<Longrightarrow> x \<noteq> KindEndOfFile \<Longrightarrow> Q x s'"
  shows "wp scanNumber Q s"
  unfolding scanNumber_def wp_seq wp_gets
proof (rule fixed_part_adv [OF assms(1) refl])
  fix x :: "string option" and s1
  assume s1: "adv s s1" and digit: "in_class IsDigit (current_char s) \<Longrightarrow> sc_pos s < sc_pos s1"
    and none: "x = None \<Longrightarrow> sc_pos s < sc_pos s1"
  have "sc_pos s < sc_pos s1 \<or> current_char s1 = Some CHR ''.''"
    using digit first adv_char [OF s1] s1 by (cases "sc_pos s1 = sc_pos s") (auto simp: adv_def)
  with s1 none assms(2)
  show "wp (case x of None \<Rightarrow> ret KindNumericLiteral | Some fixedPart \<Rightarrow> number_behind (sc_pos s) fixedPart) Q s1"
    by (auto simp: moves KindNumericLiteral_def KindEndOfFile_def split: option.splits intro!: after number_behind_adv)
qed

end
