(* ===== verification/Scanner_Wp_Scan.thy ===== *)
theory Scanner_Wp_Scan
  imports Scanner_Wp_Strings
begin

text \<open>
  The cases of \<open>Scan\<close>. \<open>arm_ok s\<close> is what each of them promises when it starts in \<open>s\<close>: it moves on strictly,
  and either goes round again, with the settings, the start and the base flags as they were, or has set a
  token other than the end of the file.
\<close>

definition arm_ok :: "Scanner \<Rightarrow> unit + unit \<Rightarrow> Scanner \<Rightarrow> bool" where
  "arm_ok s r s' =
     (sc_text s' = sc_text s \<and> frame s' = frame s \<and> sc_pos s < sc_pos s' \<and> sc_pos s' \<le> length (sc_text s) \<and>
      (case r of Inl _ \<Rightarrow> specifiers (sc_tokenFlags s') = specifiers (sc_tokenFlags s)
       | Inr _ \<Rightarrow> sc_token s' \<noteq> KindEndOfFile))"

lemma wp_finish [simp]: "wp (finish k) Q s \<longleftrightarrow> Q (Inr ()) (s\<lparr>sc_token := k\<rparr>)"
  by (simp add: finish_def)

lemma wp_token [simp]: "wp (token n k) Q s \<longleftrightarrow> Q (Inr ()) (s\<lparr>sc_pos := sc_pos s + n, sc_token := k\<rparr>)"
  by (simp add: token_def)

lemma wp_skip_or_finish [simp]:
  "wp (skip_or_finish k) Q s \<longleftrightarrow> (if sc_skipTrivia s then Q (Inl ()) s else Q (Inr ()) (s\<lparr>sc_token := k\<rparr>))"
  by (simp add: skip_or_finish_def)

section \<open>Comments\<close>

lemma skip_line_runes_adv [intro!]:
  assumes "inside_text s" and after: "\<And>s'. adv s s' \<Longrightarrow> Q () s'"
  shows "wp skip_line_runes Q s"
  unfolding skip_line_runes_def
proof (rule scan_loop_adv [where J = "\<lambda>_ _. True" and K = "\<lambda>_ _. True"], goal_cases)
  case (3 v s')
  then show ?case using decode_here [OF 3(1)] by (auto simp: moves split: prod.splits)
qed (use assms in auto)

lemma skip_bytes_bounds:
  "end \<le> length t \<Longrightarrow> pos \<le> end \<Longrightarrow> \<exists>p'. skip_bytes p t pos end = Inr p' \<and> pos \<le> p' \<and> p' \<le> end"
proof (induction p t pos "end" rule: skip_bytes.induct)
  case (1 p t pos "end")
  then show ?case
    by (subst skip_bytes.simps) (fastforce simp: index_get_def)
qed

lemma comment_directive_returns:
  assumes "if multiline then start \<le> end else start + 2 \<le> end" and "end \<le> length t"
  shows "\<exists>k. comment_directive t start end multiline = Inr k"
proof -
  have skip: "\<exists>p'. skip_bytes p t pos end = Inr p' \<and> pos \<le> p' \<and> p' \<le> end" if "pos \<le> end" for p pos
    using skip_bytes_bounds [OF assms(2) that] .
  obtain p where p: "p \<le> end" "(if multiline then
                go_bind (skip_bytes (\<lambda>c. c = CHR '' '' \<or> c = TAB) t start end) (\<lambda>pos.
                  skip_bytes (\<lambda>c. c = CHR ''/'' \<or> c = CHR ''*'') t pos end)
              else skip_bytes (\<lambda>c. c = CHR ''/'') t (start + 2) end) = Inr p"
  proof (cases multiline)
    case True
    with assms(1) skip [of start] obtain q where "skip_bytes (\<lambda>c. c = CHR '' '' \<or> c = TAB) t start end = Inr q" "q \<le> end"
      by auto
    with True skip [of q] that show ?thesis by auto
  next
    case False
    with assms(1) skip [of "start + 2"] that show ?thesis by auto
  qed
  obtain q where q: "q \<le> end" "skip_bytes (\<lambda>c. c = CHR '' '' \<or> c = TAB) t p end = Inr q"
    using skip [OF p(1)] by blast
  have "\<exists>rest. go_slice t (int (q + 1)) (int (length t)) = Inr rest" if "q < end"
    using that assms(2) by (simp add: go_slice_def)
  with p q assms(2) show ?thesis
    by (auto simp: comment_directive_def index_get_def)
qed

lemma processCommentDirective_adv [intro]:
  assumes "if multiline then start \<le> sc_pos s else start + 2 \<le> sc_pos s" and "inside_text s" and "pos = sc_pos s"
    and after: "\<And>s'. silent s s' \<Longrightarrow> Q () s'"
  shows "wp (processCommentDirective start pos multiline) Q s"
proof -
  obtain k where "comment_directive (sc_text s) start (sc_pos s) multiline = Inr k"
    using comment_directive_returns [OF assms(1,2)] by blast
  with assms(2,3) show ?thesis
    by (auto simp: processCommentDirective_def moves wp_option split: option.splits intro!: after)
qed

lemma shouldParseJSDoc_adv [intro!]:
  assumes "inside_text s" and "sc_fullStartPos s \<le> sc_pos s" and after: "\<And>x. Q x s"
  shows "wp shouldParseJSDoc Q s"
  using assms by (auto simp: shouldParseJSDoc_def)

lemma line_comment_ok [intro!]:
  assumes "sc_pos s + 2 \<le> length (sc_text s)" and "sc_tokenStart s = sc_pos s"
  shows "wp line_comment (arm_ok s) s"
  using assms unfolding line_comment_def
  by (auto simp: moves arm_ok_def kind_defs frame_def intro!: processCommentDirective_adv)

lemma block_comment_body_adv [intro!]:
  assumes "inside_text s" and "start \<le> sc_pos s"
    and after: "\<And>x s'. adv s s' \<Longrightarrow> fst x \<le> sc_pos s' \<Longrightarrow> Q x s'"
  shows "wp (block_comment_body start) Q s"
  unfolding block_comment_body_def
proof (rule scan_loop_adv [where J = "\<lambda>v s'. v \<le> sc_pos s'" and K = "\<lambda>x s'. fst x \<le> sc_pos s'"], goal_cases)
  case (3 v s')
  then show ?case
    using decode_here [OF 3(1)] charAt_Some [of s' 1] by (auto simp: moves split: prod.splits)
qed (use assms in auto)

lemma block_comment_ok [intro!]:
  assumes "sc_pos s + 2 \<le> length (sc_text s)" and "sc_tokenStart s = sc_pos s" and "sc_fullStartPos s \<le> sc_pos s"
  shows "wp block_comment (arm_ok s) s"
  using assms unfolding block_comment_def
  by (auto simp: moves arm_ok_def KindMultiLineCommentTrivia_def KindEndOfFile_def frame_def
      intro!: processCommentDirective_adv split: prod.splits)

section \<open>Punctuation\<close>

lemma punctuation_ok:
  assumes "sc_pos s < length (sc_text s)" and "assignment \<noteq> KindEndOfFile" and "plain \<noteq> KindEndOfFile"
    and "doubled \<noteq> KindEndOfFile" and "doubled_assignment \<noteq> KindEndOfFile"
  shows "wp (scan_simple plain) (arm_ok s) s"
    and "wp (scan_assignable assignment plain) (arm_ok s) s"
    and "wp (scan_doubled_assignable c doubled_assignment doubled assignment plain) (arm_ok s) s"
    and "wp (scan_plus_minus c assignment doubled plain) (arm_ok s) s"
  using assms charAt_Some [of s 1] charAt_Some [of s 2]
  by (auto simp: scan_simple_def scan_assignable_def scan_doubled_assignable_def scan_plus_minus_def arm_ok_def)

lemma fixed_punctuation_ok:
  assumes "sc_pos s < length (sc_text s)"
  shows "wp scan_exclamation (arm_ok s) s" and "wp scan_less (arm_ok s) s" and "wp scan_equals (arm_ok s) s"
    and "wp scan_question (arm_ok s) s"
  using assms charAt_Some [of s 1] charAt_Some [of s 2]
  unfolding scan_exclamation_def scan_less_def scan_equals_def scan_question_def
  by (auto simp: arm_ok_def kind_defs)

lemma scan_asterisk_ok:
  assumes "sc_pos s < length (sc_text s)"
  shows "wp scan_asterisk (arm_ok s) s"
  using assms charAt_Some [of s 1] charAt_Some [of s 2]
  by (auto simp: scan_asterisk_def arm_ok_def moves KindEndOfFile_def KindAsteriskToken_def
      KindAsteriskAsteriskToken_def KindAsteriskEqualsToken_def KindAsteriskAsteriskEqualsToken_def)

lemma scan_number_ok:
  assumes "inside_text s" and "specifiers (sc_tokenFlags s) = 0"
    and "in_class IsDigit (current_char s) \<or> current_char s = Some CHR ''.''"
  shows "wp (seq scanNumber finish) (arm_ok s) s"
  using assms by (auto simp: arm_ok_def adv_def intro!: scanNumber_adv)

lemma scan_dot_ok:
  assumes "current_char s = Some CHR ''.''" and "specifiers (sc_tokenFlags s) = 0"
  shows "wp scan_dot (arm_ok s) s"
  using assms scan_number_ok [of s] current_char_Some [OF assms(1)] charAt_Some [of s 2]
  by (auto simp: scan_dot_def arm_ok_def KindDotToken_def KindDotDotDotToken_def KindEndOfFile_def)

lemma scan_slash_ok:
  assumes "sc_pos s < length (sc_text s)" and "sc_tokenStart s = sc_pos s" and "sc_fullStartPos s \<le> sc_pos s"
  shows "wp scan_slash (arm_ok s) s"
  using assms charAt_Some [of s 1] punctuation_ok(2) [of s KindSlashEqualsToken KindSlashToken]
  by (auto simp: scan_slash_def KindSlashEqualsToken_def KindSlashToken_def KindEndOfFile_def)

section \<open>Conflict markers\<close>

lemma go_returns:
  "\<exists>x. m = Inr x \<Longrightarrow> (\<And>x. \<exists>y. f x = Inr y) \<Longrightarrow> \<exists>y. go_bind m f = Inr y"
  "\<exists>x. m1 = Inr x \<Longrightarrow> \<exists>x. m2 = Inr x \<Longrightarrow> \<exists>x. (if b then m1 else m2) = Inr x"
  by auto

lemma isConflictMarkerTrivia_returns:
  assumes "pos < length t"
  shows "\<exists>b. isConflictMarkerTrivia t pos = Inr b"
proof -
  have "pos \<ge> 2 \<Longrightarrow> \<exists>s. go_slice t 0 (int pos - 2) = Inr s" using assms by (simp add: go_slice_def)
  then have prev: "\<exists>r. (if pos \<ge> 2 then
                go_bind (go_slice t 0 (int pos - 2)) (\<lambda>before. Inr (fst (DecodeLastRuneInString before)))
              else Inr 0) = Inr r" by auto
  have before: "\<exists>b. (if pos = 0 \<or> r then Inr True
              else go_bind (index_get t (int pos - 1)) (\<lambda>c. Inr (IsLineBreak (rune c)))) = Inr b" for r
    using assms by (auto simp: index_get_def)
  have here: "\<exists>c. index_get t (int pos) = Inr c" using assms by (simp add: index_get_def)
  show ?thesis
    unfolding isConflictMarkerTrivia_def by (intro go_returns prev before here) auto
qed

lemma marker_char:
  assumes "isConflictMarkerTrivia t pos = Inr True" and "pos < length t"
    and "t ! pos \<in> {CHR ''<'', CHR ''>'', CHR ''|'', CHR ''=''}"
  shows "\<exists>e. scanConflictMarkerTrivia t pos = Inr e"
proof -
  have "\<exists>e. marker_loop ch t p = Inr e" for ch p
  proof (induction ch t p rule: marker_loop.induct)
    case (1 ch t p)
    show ?case
    proof (cases "p < length t")
      case True
      obtain b where b: "(if (t ! p = CHR ''='' \<or> t ! p = CHR ''>'') \<and> t ! p \<noteq> ch
                 then isConflictMarkerTrivia t p else Inr False) = Inr b"
        using isConflictMarkerTrivia_returns [OF True]
        by (cases "(t ! p = CHR ''='' \<or> t ! p = CHR ''>'') \<and> t ! p \<noteq> ch") auto
      with 1 True show ?thesis by (subst marker_loop.simps) (auto simp: Let_def)
    qed (subst marker_loop.simps, simp)
  qed
  moreover have "DecodeRuneInString (drop pos t) = (rune (t ! pos), 1)"
    using assms(2,3) by (subst Cons_nth_drop_Suc [symmetric]) (auto simp: decode_ascii)
  ultimately show ?thesis
    using assms(2,3) by (auto simp: scanConflictMarkerTrivia_def go_slice_def Let_def)
qed

lemma or_conflict_marker_ok:
  assumes "current_char s = Some c" and "c \<in> {CHR ''<'', CHR ''>'', CHR ''|'', CHR ''=''}"
    and "wp otherwise (arm_ok s) s"
  shows "wp (or_conflict_marker otherwise) (arm_ok s) s"
proof -
  have c: "sc_pos s < length (sc_text s)" "sc_text s ! sc_pos s = c"
    using assms(1) by (auto simp: current_char_def charAt_def split: if_splits)
  obtain b where b: "isConflictMarkerTrivia (sc_text s) (sc_pos s) = Inr b"
    using isConflictMarkerTrivia_returns [OF c(1)] by blast
  show ?thesis
  proof (cases b)
    case True
    with b c assms(2) obtain e where e: "scanConflictMarkerTrivia (sc_text s) (sc_pos s) = Inr e"
      using marker_char [of "sc_text s" "sc_pos s"] by auto
    with scanConflictMarkerTrivia_progress [OF e c(1)] b True c(1) show ?thesis
      by (auto simp: or_conflict_marker_def moves arm_ok_def KindConflictMarkerTrivia_def KindEndOfFile_def)
  next
    case False
    with b assms(3) show ?thesis by (simp add: or_conflict_marker_def)
  qed
qed

section \<open>White space and numbers\<close>

lemma no_space_error: "\<not> IsWhiteSpaceSingleLine RuneError"
  by (simp add: IsWhiteSpaceSingleLine_def)

lemma skip_blanks_adv [intro!]:
  "inside_text s \<Longrightarrow> (\<And>s'. adv s s' \<Longrightarrow> Q () s') \<Longrightarrow> wp (skip_while IsWhiteSpaceSingleLine) Q s"
  by (rule skip_while_adv) (auto simp: no_space_error)

lemma scan_blank_ok:
  assumes "sc_pos s < length (sc_text s)"
  shows "wp scan_blank (arm_ok s) s"
  using assms by (auto simp: scan_blank_def arm_ok_def adv_def KindWhitespaceTrivia_def KindEndOfFile_def)

lemma scan_line_break_ok:
  assumes "current_char s = Some c"
  shows "wp (scan_line_break c) (arm_ok s) s"
proof -
  have "charAt s' 1 = Some LF \<Longrightarrow> sc_pos s + 2 \<le> length (sc_text s)" if "silent s s'" for s'
    using charAt_Some [of s' 1 LF] that by (simp add: moves)
  with current_char_Some [OF assms] show ?thesis
    by (auto simp: scan_line_break_def arm_ok_def KindNewLineTrivia_def KindEndOfFile_def moves)
qed

lemma underscores_ok_digits: "CHR ''_'' \<notin> set ds \<Longrightarrow> ds \<noteq> [] \<or> b \<Longrightarrow> underscores_ok b ds"
  by (induction ds arbitrary: b) auto

lemma base_digit_facts:
  assumes "base_digit base c" and "base \<le> 8"
  shows "c \<noteq> CHR ''_''" and "digit_in c < int base"
proof -
  have "48 \<le> rune c" "rune c \<le> 57" "rune c - 48 < base"
    using assms(1) by (simp_all add: base_digit_def IsDigit_def)
  moreover have "(of_char c :: int) = int (rune c)" by (simp only: of_nat_of_char)
  ultimately show "c \<noteq> CHR ''_''" "digit_in c < int base" by (auto simp: digit_in_def Let_def)
qed

lemma ParsePseudoBigInt_digits:
  assumes "ds \<noteq> []" and "\<forall>c \<in> set ds. base_digit base c" and "(b, base) \<in> {(CHR ''b'', 2), (CHR ''o'', 8)}"
  shows "\<exists>digits. ParsePseudoBigInt (CHR ''0'' # b # ds @ ''n'') = Inr digits"
proof -
  have base: "base \<le> 8" "prefix_base b = int base" "b \<in> base_letters"
    using assms(3) by (auto simp: prefix_base_def base_letters_def)
  have plain: "CHR ''_'' \<notin> set ds" "\<forall>c \<in> set ds. digit_in c < int base"
    using base_digit_facts [OF _ base(1)] assms(2) by auto
  then have "filter (\<lambda>c. c \<noteq> CHR ''_'') ds = ds" by (auto simp: filter_id_conv)
  with plain base assms(1) underscores_ok_digits [OF plain(1)]
  have "big_SetString (CHR ''0'' # b # ds) = Some (value_in (int base) ds)"
    by (simp add: big_SetString_def Let_def)
  moreover have "HasSuffix (CHR ''0'' # b # ds @ ''n'') ''n''"
    unfolding HasSuffix_iff by (intro exI [of _ "CHR ''0'' # b # ds"]) simp
  ultimately show ?thesis
    using base(3) by (simp add: ParsePseudoBigInt_def Let_def butlast_append)
qed

lemma hex_no_specifier: "specifiers TokenFlagsHexSpecifier = 0"
  by code_simp

lemma scan_based_ok:
  assumes "sc_pos s + 2 \<le> length (sc_text s)" and "specifiers (sc_tokenFlags s) = 0"
    and digits: "\<And>Q s1. inside_text s1 \<Longrightarrow> (\<And>ds s'. adv s1 s' \<Longrightarrow> P ds \<Longrightarrow> Q ds s') \<Longrightarrow> wp scan_digits Q s1"
    and parse: "\<And>ds. ds \<noteq> [] \<Longrightarrow> P ds \<Longrightarrow> specifiers flag \<noteq> 0 \<Longrightarrow>
      \<exists>v. ParsePseudoBigInt (base @ ds @ ''n'') = Inr v"
    and parse_zero: "specifiers flag \<noteq> 0 \<Longrightarrow> \<exists>v. ParsePseudoBigInt (base @ ''0n'') = Inr v"
  shows "wp (scan_based flag base message scan_digits) (arm_ok s) s"
proof -
  have spec: "specifiers (flags OR flag) = specifiers flag" if "specifiers flags = 0" for flags
    using that by (simp add: specifiers_def and.commute [of _ TokenFlagsBinaryOrOctalSpecifier] bit.conj_disj_distrib)
  show ?thesis
    using assms(1,2) unfolding scan_based_def
    by (auto simp: moves arm_ok_def add_flags_def spec intro!: digits scanBigIntSuffix_adv parse parse_zero)
qed

lemma scan_zero_ok:
  assumes "current_char s = Some CHR ''0''" and "specifiers (sc_tokenFlags s) = 0"
  shows "wp scan_zero (arm_ok s) s"
proof -
  have number: "wp (seq scanNumber finish) (arm_ok s) s"
    using assms current_char_Some [OF assms(1)] by (intro scan_number_ok) (auto simp: in_class_def IsDigit_def)
  have two: "sc_pos s + 2 \<le> length (sc_text s)" if "charAt s 1 = Some c" for c
    using charAt_Some [OF that] by simp
  have zero: "base_digit base CHR ''0''" if "0 < base" for base
    using that by (simp add: base_digit_def IsDigit_def)
  have hex: "wp (scan_based TokenFlagsHexSpecifier ''0x'' m (scanHexDigits 1 True True)) (arm_ok s) s"
    if "charAt s 1 = Some c" for c m
    using two [OF that] assms(2)
    by (intro scan_based_ok [where P = "\<lambda>_. True"]) (auto simp: hex_no_specifier)
  have based: "wp (scan_based flag (CHR ''0'' # [b]) m (scanBinaryOrOctalDigits base)) (arm_ok s) s"
    if "charAt s 1 = Some c" "(b, base) \<in> {(CHR ''b'', 2), (CHR ''o'', 8)}" for c m b base flag
    using two [OF that(1)] that(2) assms(2) ParsePseudoBigInt_digits [OF _ _ that(2)]
      ParsePseudoBigInt_digits [OF _ _ that(2), of "''0''"] zero [of base]
    by (intro scan_based_ok [where P = "\<lambda>ds. \<forall>c \<in> set ds. base_digit base c"]) auto
  show ?thesis
    unfolding scan_zero_def
    using number hex based by auto
qed

end
