(* ===== verification/Scanner_Props.thy ===== *)
theory Scanner_Props
  imports Scanner_Wp_Scan
begin

text \<open>
  \<open>Scan\<close> as a whole: it returns from every position of every text, moves on, and its tokens with what lies
  before them are the text.
\<close>

lemma arm_ok_from: "adv s s1 \<Longrightarrow> arm_ok s1 r s2 \<Longrightarrow> arm_ok s r s2"
  by (cases r) (auto simp: arm_ok_def adv_def)

section \<open>Identifiers and other characters\<close>

lemma GetIdentifierToken_not_end: "GetIdentifierToken str \<noteq> KindEndOfFile"
proof -
  have "list_all (\<lambda>p. snd p \<noteq> KindEndOfFile) textToKeyword"
    by code_simp
  then have "(str, k) \<in> set textToKeyword \<Longrightarrow> k \<noteq> KindEndOfFile" for k
    by (auto simp: list_all_iff)
  moreover have "KindIdentifier \<noteq> KindEndOfFile" by (simp add: KindIdentifier_def KindEndOfFile_def)
  ultimately show ?thesis
    by (auto simp: GetIdentifierToken_def split: option.splits dest: map_of_SomeD)
qed

lemma escaped_identifier_adv:
  assumes "inside_text s"
    and after: "\<And>x s'. adv s s' \<Longrightarrow> (x = None \<Longrightarrow> sc_pos s' = sc_pos s) \<Longrightarrow> (x \<noteq> None \<Longrightarrow> sc_pos s < sc_pos s') \<Longrightarrow> Q x s'"
  shows "wp escaped_identifier Q s"
  using assms(1) unfolding escaped_identifier_def
  by (auto simp: moves unmoved_def wp_option split: option.splits intro!: after)

lemma scanInvalidCharacter_adv:
  assumes "sc_pos s < length (sc_text s)"
    and after: "\<And>s'. adv s s' \<Longrightarrow> sc_pos s < sc_pos s' \<Longrightarrow> sc_token s' = KindUnknown \<Longrightarrow> Q () s'"
  shows "wp scanInvalidCharacter Q s"
  using assms(1) decode_width [of "drop (sc_pos s) (sc_text s)"] unfolding scanInvalidCharacter_def
  by (auto simp: moves split: prod.splits intro!: after)

lemma invalid_character_ok:
  "sc_pos s < length (sc_text s) \<Longrightarrow> wp (seq scanInvalidCharacter (\<lambda>_. leave ())) (arm_ok s) s"
  by (auto simp: arm_ok_def adv_def KindUnknown_def KindEndOfFile_def intro!: scanInvalidCharacter_adv)

lemma scan_backslash_ok:
  assumes "sc_pos s < length (sc_text s)"
  shows "wp scan_backslash (arm_ok s) s"
  unfolding scan_backslash_def wp_seq
proof (rule escaped_identifier_adv)
  show "inside_text s" using assms by simp
next
  fix x :: "string option" and s'
  assume s': "adv s s'" and x: "x = None \<Longrightarrow> sc_pos s' = sc_pos s" "x \<noteq> None \<Longrightarrow> sc_pos s < sc_pos s'"
  show "wp (case x of None \<Rightarrow> seq scanInvalidCharacter (\<lambda>_. leave ())
     | Some v \<Rightarrow> seq (set_value v) (\<lambda>_. finish (GetIdentifierToken v))) (arm_ok s) s'"
  proof (cases x)
    case None
    with s' x(1) assms have "wp (seq scanInvalidCharacter (\<lambda>_. leave ())) (arm_ok s') s'"
      by (intro invalid_character_ok) (simp add: adv_def)
    then have "wp (seq scanInvalidCharacter (\<lambda>_. leave ())) (arm_ok s) s'"
      by (rule wp_conseq) (rule arm_ok_from [OF s'])
    with None show ?thesis by simp
  next
    case (Some v)
    with s' x(2) show ?thesis by (auto simp: arm_ok_def adv_def GetIdentifierToken_not_end)
  qed
qed

lemma scan_hash_identifier_ok:
  assumes "sc_pos s < length (sc_text s)"
  shows "wp scan_hash_identifier (arm_ok s) s"
  using assms by (auto simp: scan_hash_identifier_def arm_ok_def moves KindPrivateIdentifier_def KindUnknown_def KindEndOfFile_def)

lemma scan_hash_ok:
  assumes "sc_pos s < length (sc_text s)"
  shows "wp scan_hash (arm_ok s) s"
proof -
  have return: "wp scan_hash_identifier (arm_ok s) (s1\<lparr>sc_pos := sc_pos s\<rparr>)" if "adv s s1" for s1
    by (rule wp_conseq [OF scan_hash_identifier_ok arm_ok_from]) (use that assms in \<open>auto simp: adv_def\<close>)
  have escape: "wp (seq (advance 1) (\<lambda>_. seq escaped_identifier (\<lambda>identifier.
           case identifier of
             Some v \<Rightarrow> seq (set_value (''#'' @ v)) (\<lambda>_. finish KindPrivateIdentifier)
           | None \<Rightarrow> seq (set_pos (sc_pos s)) (\<lambda>_. scan_hash_identifier)))) (arm_ok s) s"
    using assms return unfolding wp_seq wp_writes
    by (intro escaped_identifier_adv)
      (auto simp: wp_option arm_ok_def adv_def KindPrivateIdentifier_def KindEndOfFile_def split: option.splits)
  have bang: "charAt s 1 = Some c \<Longrightarrow> sc_pos s + 2 \<le> length (sc_text s)" for c
    using charAt_Some [of s 1] by simp
  show ?thesis
    using assms bang escape scan_hash_identifier_ok [OF assms] unfolding scan_hash_def
    by (auto simp: arm_ok_def moves KindUnknown_def KindEndOfFile_def)
qed

lemma scan_other_ok:
  assumes "sc_pos s < length (sc_text s)"
  shows "wp scan_other (arm_ok s) s"
  unfolding scan_other_def wp_seq
proof (rule scanIdentifier_adv)
  fix x s'
  assume s': "adv s s'" and x: "x \<Longrightarrow> sc_pos s + 0 < sc_pos s'" "\<not> x \<Longrightarrow> sc_pos s' = sc_pos s + 0"
  obtain ch n where d: "DecodeRuneInString (drop (sc_pos s) (sc_text s)) = (ch, n)" by fastforce
  have n: "0 < n" "sc_pos s + n \<le> length (sc_text s)"
    using decode_width [of "drop (sc_pos s) (sc_text s)"] d assms by auto
  have bad: "wp (seq scanInvalidCharacter (\<lambda>_. leave ())) (arm_ok s) s'" if "\<not> x"
    by (rule wp_conseq [OF invalid_character_ok arm_ok_from]) (use s' x(2) that assms in \<open>auto simp: adv_def\<close>)
  show "wp (gets sc_tokenValue) (\<lambda>v. wp (if x then finish (GetIdentifierToken v)
       else
         seq charAndSize (\<lambda>(ch, width).
           if ch = RuneError \<and> width = 1 then
             seq (errorAt ''File_appears_to_be_binary'' 0 0 []) (\<lambda>_.
             seq (modify (\<lambda>s. s\<lparr>sc_pos := length (sc_text s)\<rparr>)) (\<lambda>_. finish KindNonTextFileMarkerTrivia))
           else if IsWhiteSpaceSingleLine ch then
             seq (advance width) (\<lambda>_.
             seq (gets sc_skipTrivia) (\<lambda>skip.
               if ch = 0x0085 \<or> skip then again ()
               else seq (skip_while IsWhiteSpaceSingleLine) (\<lambda>_. finish KindWhitespaceTrivia)))
           else if IsLineBreak ch then
             seq (add_flags TokenFlagsPrecedingLineBreak) (\<lambda>_. seq (advance width) (\<lambda>_. again ()))
           else seq scanInvalidCharacter (\<lambda>_. leave ()))) (arm_ok s)) s'"
  proof (cases x)
    case True
    with s' x(1) show ?thesis by (simp add: arm_ok_def adv_def GetIdentifierToken_not_end)
  next
    case False
    with s' x(2) d n bad [OF False] assms show ?thesis
      by (auto simp: arm_ok_def moves KindWhitespaceTrivia_def KindNonTextFileMarkerTrivia_def KindEndOfFile_def)
  qed
qed (use assms in simp)

section \<open>One token\<close>

lemma wp_if_case: "(b \<Longrightarrow> wp m1 Q s) \<Longrightarrow> wp m2 Q s \<Longrightarrow> wp (if b then m1 else m2) Q s"
  by simp

lemma scan_arm_ok:
  assumes c: "current_char s = Some c" and start: "sc_tokenStart s = sc_pos s" "sc_fullStartPos s \<le> sc_pos s"
    and spec: "specifiers (sc_tokenFlags s) = 0"
  shows "wp (scan_arm c) (arm_ok s) s"
proof -
  note p = current_char_Some [OF c]
  have str: "wp (seq (scanString False) (\<lambda>v. seq (set_value v) (\<lambda>_. finish KindStringLiteral))) (arm_ok s) s"
    using p by (auto simp: arm_ok_def adv_def KindStringLiteral_def KindEndOfFile_def)
  have template: "wp (seq (scanTemplateAndSetTokenValue False) finish) (arm_ok s) s"
    using p by (auto simp: arm_ok_def adv_def)
  have digit: "IsDigit (rune c) \<Longrightarrow> wp (seq scanNumber finish) (arm_ok s) s"
    using p c spec by (intro scan_number_ok) (auto simp: in_class_def)
  have plain: "plain \<noteq> KindEndOfFile \<Longrightarrow> wp (scan_simple plain) (arm_ok s) s" for plain
    using punctuation_ok(1) [OF p] by blast
  have assignable: "a \<noteq> KindEndOfFile \<Longrightarrow> b \<noteq> KindEndOfFile \<Longrightarrow> wp (scan_assignable a b) (arm_ok s) s" for a b
    using punctuation_ok(2) [OF p] by blast
  have plus_minus: "a \<noteq> KindEndOfFile \<Longrightarrow> d \<noteq> KindEndOfFile \<Longrightarrow> b \<noteq> KindEndOfFile \<Longrightarrow>
      wp (scan_plus_minus x a d b) (arm_ok s) s" for x a d b
    using punctuation_ok(4) [OF p] by blast
  note arms = scan_blank_ok [OF p] scan_line_break_ok [OF c] fixed_punctuation_ok [OF p] str template
    punctuation_ok(3) [OF p] plain assignable plus_minus scan_asterisk_ok [OF p] scan_slash_ok [OF p start] digit
    or_conflict_marker_ok [OF c] scan_backslash_ok [OF p] scan_hash_ok [OF p] scan_other_ok [OF p]
  show ?thesis
    unfolding scan_arm_def
    by (intro wp_if_case arms) (use c spec scan_dot_ok scan_zero_ok in \<open>simp_all add: kind_defs\<close>)
qed

definition scanned :: "Scanner \<Rightarrow> Kind \<Rightarrow> Scanner \<Rightarrow> bool" where
  "scanned s k s' =
     (sc_text s' = sc_text s \<and> sc_token s' = k \<and> sc_fullStartPos s' = sc_pos s \<and>
      sc_pos s \<le> sc_tokenStart s' \<and> sc_pos s' \<le> length (sc_text s) \<and>
      (if k = KindEndOfFile then sc_tokenStart s' = length (sc_text s) \<and> sc_pos s' = length (sc_text s)
       else sc_tokenStart s' < sc_pos s'))"

lemma scan_round_wp:
  assumes "inside_text s" and "specifiers (sc_tokenFlags s) = 0" and "sc_fullStartPos s \<le> sc_pos s"
    and goes_on: "\<And>s'. sc_text s' = sc_text s \<Longrightarrow> sc_fullStartPos s' = sc_fullStartPos s \<Longrightarrow> sc_pos s < sc_pos s' \<Longrightarrow>
      inside_text s' \<Longrightarrow> specifiers (sc_tokenFlags s') = 0 \<Longrightarrow> Q (Inl ()) s'"
    and finished: "\<And>s'. sc_text s' = sc_text s \<Longrightarrow> sc_fullStartPos s' = sc_fullStartPos s \<Longrightarrow>
      sc_tokenStart s' = sc_pos s \<Longrightarrow> inside_text s' \<Longrightarrow>
      (if sc_token s' = KindEndOfFile then sc_pos s = length (sc_text s) \<and> sc_pos s' = length (sc_text s)
       else sc_pos s < sc_pos s') \<Longrightarrow> Q (Inr ()) s'"
  shows "wp scan_round Q s"
proof -
  let ?s = "s\<lparr>sc_tokenStart := sc_pos s\<rparr>"
  show ?thesis
  proof (cases "current_char ?s")
    case None
    then have "sc_pos s = length (sc_text s)"
      using assms(1) by (simp add: current_char_def charAt_def split: if_splits)
    with None finished show ?thesis by (simp add: scan_round_def)
  next
    case (Some c)
    have "wp (scan_arm c) (arm_ok ?s) ?s"
      using assms(2,3) by (intro scan_arm_ok Some) simp_all
    then have "wp (scan_arm c) Q ?s"
    proof (rule wp_conseq)
      fix r :: "unit + unit" and s'
      assume "arm_ok ?s r s'"
      then show "Q r s'"
        using assms(2) goes_on [of s'] finished [of s']
        by (cases r) (auto simp: arm_ok_def frame_def)
    qed
    with Some show ?thesis by (simp add: scan_round_def)
  qed
qed

lemma Scan_wp:
  assumes "inside_text s"
  shows "wp Scan (scanned s) s"
proof -
  define s0 where "s0 = s\<lparr>sc_fullStartPos := sc_pos s, sc_tokenFlags := TokenFlagsNone\<rparr>"
  define I where "I = (\<lambda>(_ :: unit) s1. sc_text s1 = sc_text s \<and> sc_fullStartPos s1 = sc_pos s \<and> sc_pos s \<le> sc_pos s1 \<and>
    inside_text s1 \<and> specifiers (sc_tokenFlags s1) = 0)"
  have "wp (iterate (Suc (length (sc_text s0))) (\<lambda>_. scan_round) ()) (\<lambda>_ s'. scanned s (sc_token s') s') s0"
  proof (rule wp_iterate [where I = I and f = remaining])
    fix v s1
    assume "I v s1"
    then show "wp scan_round (round_ok I remaining (\<lambda>_ s'. scanned s (sc_token s') s') (remaining s1)) s1"
      by (intro scan_round_wp) (auto simp: I_def remaining_def scanned_def split: if_splits)
  qed (use assms in \<open>auto simp: I_def s0_def remaining_def\<close>)
  then have "wp (iterate (Suc (length (sc_text s0))) (\<lambda>_. scan_round) ()) (\<lambda>_ s'. wp (gets sc_token) (scanned s) s') s0"
    by (rule wp_conseq) simp
  then show ?thesis
    unfolding Scan_def scan_loop_def wp_seq wp_modify by (intro wp_gets [THEN iffD2]) (simp only: s0_def)
qed

section \<open>All tokens\<close>

text \<open>A client that scans to the end of the file: kind, full start, start and end of every token.\<close>

fun scan_tokens :: "nat \<Rightarrow> Scanner \<Rightarrow> (Kind \<times> nat \<times> nat \<times> nat) list go" where
  "scan_tokens 0 s = Inl Diverges"
| "scan_tokens (Suc n) s =
     go_bind (Scan s) (\<lambda>(k, s').
       let t = (k, sc_fullStartPos s', sc_tokenStart s', sc_pos s') in
       if k = KindEndOfFile then Inr [t] else go_bind (scan_tokens n s') (\<lambda>ts. Inr (t # ts)))"

definition full_text :: "string \<Rightarrow> Kind \<times> nat \<times> nat \<times> nat \<Rightarrow> string" where
  "full_text t tok = (case tok of (k, full, start, end) \<Rightarrow> take (end - full) (drop full t))"

lemma full_text_simp [simp]: "full_text t (k, full, start, end) = take (end - full) (drop full t)"
  by (simp add: full_text_def)

lemma scan_tokens_cover:
  "inside_text s \<Longrightarrow> length (sc_text s) - sc_pos s < n \<Longrightarrow>
   \<exists>ts. scan_tokens n s = Inr ts \<and> length ts \<le> length (sc_text s) - sc_pos s + 1 \<and>
     concat (map (full_text (sc_text s)) ts) = drop (sc_pos s) (sc_text s) \<and>
     ts \<noteq> [] \<and> fst (last ts) = KindEndOfFile \<and> KindEndOfFile \<notin> fst ` set (butlast ts)"
proof (induction n arbitrary: s)
  case (Suc n)
  obtain k s' where run: "Scan s = Inr (k, s')" and sc: "scanned s k s'"
    using Scan_wp [OF Suc.prems(1)] by (rule wpE)
  show ?case
  proof (cases "k = KindEndOfFile")
    case True
    with run sc show ?thesis by (auto simp: scanned_def)
  next
    case False
    with sc have step: "sc_pos s < sc_pos s'" "inside_text s'" "sc_text s' = sc_text s" "sc_fullStartPos s' = sc_pos s"
      by (auto simp: scanned_def)
    with Suc.prems(2) have "length (sc_text s') - sc_pos s' < n" by simp
    from Suc.IH [OF step(2) this] step(3) obtain ts where ts: "scan_tokens n s' = Inr ts"
      "length ts \<le> length (sc_text s) - sc_pos s' + 1"
      "concat (map (full_text (sc_text s)) ts) = drop (sc_pos s') (sc_text s)"
      "ts \<noteq> []" "fst (last ts) = KindEndOfFile" "KindEndOfFile \<notin> fst ` set (butlast ts)"
      by auto
    have "take (sc_pos s' - sc_pos s) (drop (sc_pos s) (sc_text s)) @ drop (sc_pos s') (sc_text s) = drop (sc_pos s) (sc_text s)"
      using step(1) append_take_drop_id [of "sc_pos s' - sc_pos s" "drop (sc_pos s) (sc_text s)"] by simp
    with run False ts step(1,2,3,4) show ?thesis
      by (auto simp: Let_def)
  qed
qed simp

text \<open>C2. Scanning a token never fails: from every state within its text \<open>Scan\<close> returns without a panic and
  without running for ever; the token starts where the last one ended or behind the trivia that follows, lies
  within the text, and is not empty unless it is the end of the file, which is reported only at the end of the
  text.\<close>

theorem Scan_progress:
  assumes "sc_pos s \<le> length (sc_text s)"
  shows "\<exists>k s'. Scan s = Inr (k, s') \<and> sc_text s' = sc_text s \<and> sc_token s' = k \<and>
    sc_fullStartPos s' = sc_pos s \<and> sc_pos s \<le> sc_tokenStart s' \<and> sc_pos s' \<le> length (sc_text s) \<and>
    (if k = KindEndOfFile then sc_tokenStart s' = length (sc_text s) \<and> sc_pos s' = length (sc_text s)
     else sc_tokenStart s' < sc_pos s')"
  using Scan_wp [OF assms] by (elim wpE) (auto simp: scanned_def)

theorem Scan_progress_witness:
  "\<exists>k s'. Scan (SetText ''let x = 0b1n'' (defaultScanner id)) = Inr (k, s') \<and> sc_fullStartPos s' = 0 \<and> sc_pos s' \<le> 12"
  using Scan_progress [of "SetText ''let x = 0b1n'' (defaultScanner id)"]
  by (auto simp: SetText_def with_settings_def zero_state_def ScannerState.defs)

text \<open>C3. The scanner reaches the end of every text and loses nothing: a client that scans from the start gets
  the end of the file after at most one token per byte, and the texts of the tokens with the trivia before them,
  put together, are the text.\<close>

theorem scanner_covers_text:
  "\<exists>ts. scan_tokens (length t + 1) (SetText t (defaultScanner numberText)) = Inr ts \<and> length ts \<le> length t + 1 \<and>
     concat (map (full_text t) ts) = t \<and> ts \<noteq> [] \<and> fst (last ts) = KindEndOfFile \<and>
     KindEndOfFile \<notin> fst ` set (butlast ts)"
  using scan_tokens_cover [of "SetText t (defaultScanner numberText)" "length t + 1"]
  by (simp add: SetText_def with_settings_def zero_state_def ScannerState.defs)

section \<open>Skipping trivia\<close>

lemma before_last:
  assumes "pos < length t" and "t ! pos = c" and "t = [] \<or> last t \<noteq> c"
  shows "pos + 1 < length t"
proof (rule ccontr)
  assume "\<not> ?thesis"
  with assms(1) have "length t = Suc pos" by simp
  moreover from assms(1) have "t \<noteq> []" by auto
  ultimately show False using assms(2,3) by (simp add: last_conv_nth)
qed

lemma block_comment_returns:
  "t = [] \<or> last t \<noteq> CHR ''*'' \<Longrightarrow> \<exists>e. block_comment_loop t pos = Inr e"
proof (induction t pos rule: block_comment_loop.induct)
  case (1 t pos)
  show ?case
  proof (cases "pos < length t")
    case True
    have "t ! pos = CHR ''*'' \<Longrightarrow> pos + 1 < length t"
      using True 1(2) by (intro before_last [of pos t "CHR ''*''"]) auto
    with 1 True show ?thesis by (subst block_comment_loop.simps) auto
  qed (subst block_comment_loop.simps, simp)
qed

lemma skip_trivia_step_returns:
  assumes "t = [] \<or> last t \<notin> {CR, CHR ''*''}" and "pos \<le> length t"
  shows "\<exists>r. skip_trivia_step t default_skip pos False = Inr r"
proof -
  obtain ch n where d: "DecodeRuneInString (drop pos t) = (ch, n)" by fastforce
  have at: "pos < length t \<and> t ! pos = char_of ch" if "ch < 128"
    using decode_small [OF d that] assms(2) by (auto simp: hd_drop_conv_nth)
  have behind_cr: "pos + 1 < length t" if "ch = rune CR"
  proof -
    have "pos < length t" "t ! pos = char_of ch" using at that by auto
    moreover have "char_of ch = CR" unfolding that by (rule char_of_char)
    ultimately show ?thesis using assms(1) by (intro before_last [of pos t CR]) auto
  qed
  obtain e where e: "block_comment_loop t (pos + 2) = Inr e"
    using block_comment_returns assms(1) by blast
  have marker: "\<exists>r. go_bind (isConflictMarkerTrivia t pos) (\<lambda>marker.
           if marker then go_bind (scanConflictMarkerTrivia t pos) (\<lambda>end. Inr (Continues end False))
           else Inr (Stops pos)) = Inr r"
    if "ch \<in> {rune CHR ''<'', rune CHR ''|'', rune CHR ''='', rune CHR ''>''}"
  proof -
    have "char_of ch \<in> {CHR ''<'', CHR ''>'', CHR ''|'', CHR ''=''}"
      using that by (elim insertE) (simp_all only: char_of_char insert_iff empty_iff simp_thms)
    then have here: "pos < length t" "t ! pos \<in> {CHR ''<'', CHR ''>'', CHR ''|'', CHR ''=''}" using at that by auto
    then obtain b where b: "isConflictMarkerTrivia t pos = Inr b" using isConflictMarkerTrivia_returns by blast
    show ?thesis
    proof (cases b)
      case True
      with b here obtain e where "scanConflictMarkerTrivia t pos = Inr e" using marker_char [of t pos] by auto
      with b True show ?thesis by simp
    qed (use b in simp)
  qed
  have "go_slice t (int pos) (int (length t)) = Inr (drop pos t)" using assms(2) by (simp add: go_slice_def)
  with d e behind_cr marker show ?thesis
    by (auto simp: skip_trivia_step_def index_get_def isShebangTrivia_def)
qed

lemma skip_trivia_step_shape:
  assumes "skip_trivia_step t options pos cs = Inr r"
  shows "r = Stops pos \<or> (\<exists>p. r = Continues p False) \<or> (\<exists>p. r = Continues p cs) \<or> (\<exists>p. r = after_line_break options p)"
proof -
  obtain ch n where d: "DecodeRuneInString (drop pos t) = (ch, n)" by fastforce
  have slice: "go_slice t (int pos) (int (length t)) = Inr (drop pos t)"
    using assms by (auto simp: skip_trivia_step_def go_slice_def split: if_splits)
  show ?thesis
    using assms unfolding skip_trivia_step_def slice go_bind_simps d prod.case
    by (auto elim!: go_bind_InrD split: if_split_asm)
qed

lemma skip_trivia_step_default:
  assumes "skip_trivia_step t default_skip pos False = Inr r"
  shows "r = Stops e \<Longrightarrow> e = pos" and "r = Continues pos' cs \<Longrightarrow> \<not> cs"
  using skip_trivia_step_shape [OF assms] by (auto simp: after_line_break_def default_skip_def)

lemma skip_trivia_loop_settles:
  assumes "t = [] \<or> last t \<notin> {CR, CHR ''*''}"
  shows "pos \<le> length t \<Longrightarrow> \<exists>q. skip_trivia_loop t default_skip pos False = Inr q \<and> pos \<le> q \<and> q \<le> length t \<and>
    skip_trivia_step t default_skip q False = Inr (Stops q)"
proof (induction "length t - pos" arbitrary: pos rule: less_induct)
  case less
  obtain r where r: "skip_trivia_step t default_skip pos False = Inr r"
    using skip_trivia_step_returns [OF assms less.prems] by blast
  show ?case
  proof (cases r)
    case (Stops e)
    with skip_trivia_step_default(1) [OF r Stops] r less.prems show ?thesis
      by (subst skip_trivia_loop.simps) simp
  next
    case (Continues pos' cs)
    note step = skip_trivia_step_progress [OF r [unfolded Continues]] skip_trivia_step_default(2) [OF r Continues]
    then have "\<exists>q. skip_trivia_loop t default_skip pos' False = Inr q \<and> pos' \<le> q \<and> q \<le> length t \<and>
        skip_trivia_step t default_skip q False = Inr (Stops q)"
      by (intro less.hyps) auto
    with r Continues step show ?thesis by (subst skip_trivia_loop.simps) auto
  qed
qed

text \<open>C25. Skipping trivia settles: in a text that does not end in a carriage return or an asterisk (where the
  code reads behind the end), \<open>SkipTrivia\<close> returns a position between the one it is given and the end of the
  text, and skipping from there moves no further.\<close>

theorem SkipTrivia_settles:
  assumes "t = [] \<or> last t \<notin> {CR, CHR ''*''}" and "pos \<le> length t"
  shows "\<exists>q. SkipTrivia t (int pos) = Inr (int q) \<and> pos \<le> q \<and> q \<le> length t \<and> SkipTrivia t (int q) = Inr (int q)"
proof -
  obtain q where q: "skip_trivia_loop t default_skip pos False = Inr q" "pos \<le> q" "q \<le> length t"
      "skip_trivia_step t default_skip q False = Inr (Stops q)"
    using skip_trivia_loop_settles [OF assms] by blast
  moreover from q(4) have "skip_trivia_loop t default_skip q False = Inr q"
    by (subst skip_trivia_loop.simps) simp
  ultimately show ?thesis by (auto simp: SkipTrivia_def SkipTriviaEx_def)
qed

theorem SkipTrivia_settles_witness:
  "\<exists>q. SkipTrivia ''  // x'' (int 1) = Inr (int q) \<and> 1 \<le> q \<and> q \<le> length ''  // x'' \<and>
    SkipTrivia ''  // x'' (int q) = Inr (int q)"
  by (rule SkipTrivia_settles) simp_all

lemma SkipTrivia_panics_at_return: "SkipTrivia [CR] 0 = Inl IndexOutOfRange"
  by (simp add: SkipTrivia_def SkipTriviaEx_def skip_trivia_loop.simps [of "[CR]"] skip_trivia_step_def go_slice_def
      index_get_def decode_ascii)

end
