(* ===== verification/Printer_Escape.thy ===== *)
theory Printer_Escape
  imports Scanner_Trivia
begin

text \<open>
  The printer's functions on texts (\<open>internal/printer/utilities.go\<close>): escaping the contents of string and
  template literals and of JSX attributes, the text around a literal, generated names, and the recognition of
  triple-slash comments. The flags of a literal's text are words; a quote character is its rune.
\<close>

section \<open>Escaping\<close>

type_synonym getLiteralTextFlags = "64 word"

definition getLiteralTextFlagsNone :: getLiteralTextFlags where "getLiteralTextFlagsNone = 0"
definition getLiteralTextFlagsNeverAsciiEscape :: getLiteralTextFlags where "getLiteralTextFlagsNeverAsciiEscape = 1"
definition getLiteralTextFlagsJsxAttributeEscape :: getLiteralTextFlags where "getLiteralTextFlagsJsxAttributeEscape = 2"
definition getLiteralTextFlagsTerminateUnterminatedLiterals :: getLiteralTextFlags where
  "getLiteralTextFlagsTerminateUnterminatedLiterals = 4"
definition getLiteralTextFlagsAllowNumericSeparator :: getLiteralTextFlags where
  "getLiteralTextFlagsAllowNumericSeparator = 8"

type_synonym QuoteChar = nat

definition QuoteCharSingleQuote :: QuoteChar where "QuoteCharSingleQuote = rune apostrophe"
definition QuoteCharDoubleQuote :: QuoteChar where "QuoteCharDoubleQuote = rune quote_mark"
definition QuoteCharBacktick :: QuoteChar where "QuoteCharBacktick = rune backtick"

definition jsxEscapedCharsMap :: "(nat \<times> string) list" where
  "jsxEscapedCharsMap = [(rune quote_mark, ''&quot;''), (rune apostrophe, ''&apos;'')]"

definition escapedCharsMap :: "(nat \<times> string) list" where
  "escapedCharsMap =
     [(9, [backslash, CHR ''t'']), (11, [backslash, CHR ''v'']), (12, [backslash, CHR ''f'']),
      (8, [backslash, CHR ''b'']), (13, [backslash, CHR ''r'']), (10, [backslash, CHR ''n'']),
      (92, [backslash, backslash]), (34, [backslash, quote_mark]), (39, [backslash, apostrophe]),
      (96, [backslash, backtick]), (36, [backslash, CHR ''$'']),
      (0x2028, backslash # ''u2028''), (0x2029, backslash # ''u2029''), (0x85, backslash # ''u0085'')]"

text \<open>\<open>strings.ToUpper(strconv.FormatUint(n, 16))\<close>.\<close>

definition upper_hex_digit :: "nat \<Rightarrow> char" where
  "upper_hex_digit d = (if d < 10 then char_of (48 + d) else char_of (55 + d))"

fun upper_hex :: "nat \<Rightarrow> string" where
  "upper_hex n = (if n < 16 then [upper_hex_digit n] else upper_hex (n div 16) @ [upper_hex_digit (n mod 16)])"

declare upper_hex.simps [simp del]

definition encodeJsxCharacterEntity :: "nat \<Rightarrow> string" where
  "encodeJsxCharacterEntity charCode = ''&#x'' @ upper_hex charCode @ '';''"

definition encodeUtf16EscapeSequence :: "nat \<Rightarrow> string" where
  "encodeUtf16EscapeSequence charCode =
     (let hexCharCode = upper_hex charCode in
      [backslash, CHR ''u''] @ replicate (4 - length hexCharCode) CHR ''0'' @ hexCharCode)"

text \<open>The first \<open>switch\<close>: whether the rune at \<open>i\<close> is escaped.\<close>

definition must_escape :: "string \<Rightarrow> QuoteChar \<Rightarrow> getLiteralTextFlags \<Rightarrow> nat \<Rightarrow> nat \<Rightarrow> bool" where
  "must_escape s quoteChar flags i ch =
     (if ch = rune backslash then \<not> has_flag flags getLiteralTextFlagsJsxAttributeEscape
      else if ch = rune CHR ''$'' then quoteChar = QuoteCharBacktick \<and> i + 1 < length s \<and> s ! (i + 1) = CHR ''{''
      else if ch \<in> {quoteChar, 0x2028, 0x2029, 0x85, rune CR} then True
      else if ch = rune LF then quoteChar \<noteq> QuoteCharBacktick
      else ch < 0x1f \<or> \<not> has_flag flags getLiteralTextFlagsNeverAsciiEscape \<and> ch > 0x7f)"

text \<open>The second \<open>switch\<close>: the text written and the size of what it stands for.\<close>

definition escape_jsx :: "nat \<Rightarrow> string" where
  "escape_jsx ch =
     (if ch = 0 then ''&#0;''
      else case map_of jsxEscapedCharsMap ch of Some t \<Rightarrow> t | None \<Rightarrow> encodeJsxCharacterEntity ch)"

definition escape_rune :: "string \<Rightarrow> QuoteChar \<Rightarrow> nat \<Rightarrow> nat \<Rightarrow> nat \<Rightarrow> string \<times> nat" where
  "escape_rune s quoteChar i ch width =
     (if ch = rune CR \<and> quoteChar = QuoteCharBacktick \<and> i + 1 < length s \<and> s ! (i + 1) = LF
      then ([backslash, CHR ''r'', backslash, CHR ''n''], width + 1)
      else if ch > 0xffff then
        (encodeUtf16EscapeSequence ((ch - 0x10000) div 2 ^ 10 mod 2 ^ 10 + 0xD800) @
         encodeUtf16EscapeSequence ((ch - 0x10000) mod 2 ^ 10 + 0xDC00), width)
      else if ch = 0 then
        (if i + 1 < length s \<and> IsDigit (rune (s ! (i + 1))) then backslash # ''x00'' else [backslash, CHR ''0''], width)
      else
        (case map_of escapedCharsMap ch of Some t \<Rightarrow> t | None \<Rightarrow> encodeUtf16EscapeSequence ch, width))"

definition escape_at :: "string \<Rightarrow> QuoteChar \<Rightarrow> getLiteralTextFlags \<Rightarrow> nat \<Rightarrow> nat \<Rightarrow> nat \<Rightarrow> string \<times> nat" where
  "escape_at s quoteChar flags i ch width =
     (if has_flag flags getLiteralTextFlagsJsxAttributeEscape then (escape_jsx ch, width)
      else escape_rune s quoteChar i ch width)"

text \<open>The loop; \<open>pos\<close> is where the text that is not yet written starts.\<close>

lemma decode_positive: "(ch, width) = DecodeRuneInString (drop i s) \<Longrightarrow> i < length s \<Longrightarrow> 1 \<le> width"
  using decode_width(1) [of "drop i s"] by (cases "DecodeRuneInString (drop i s)") auto

lemma escape_at_positive: "(t, width') = escape_at s q flags i ch width \<Longrightarrow> width \<le> width'"
  by (auto simp: escape_at_def escape_rune_def split: if_splits)

function escape_loop :: "string \<Rightarrow> QuoteChar \<Rightarrow> getLiteralTextFlags \<Rightarrow> nat \<Rightarrow> nat \<Rightarrow> string \<Rightarrow> string" where
  "escape_loop s quoteChar flags pos i b =
     (if i < length s then
        (case DecodeRuneInString (drop i s) of (ch, width) \<Rightarrow>
           if must_escape s quoteChar flags i ch then
             (case escape_at s quoteChar flags i ch width of (t, width') \<Rightarrow>
                escape_loop s quoteChar flags (i + width') (i + width')
                  (b @ (if pos < i then take (i - pos) (drop pos s) else []) @ t))
           else escape_loop s quoteChar flags pos (i + width) b)
      else if pos < i then b @ drop pos s else b)"
  by pat_completeness auto
termination
  by (relation "measure (\<lambda>(s, q, flags, pos, i, b). length s - i)")
    (simp, (fastforce dest: decode_positive escape_at_positive)+)

declare escape_loop.simps [simp del]

definition escapeStringWorker :: "string \<Rightarrow> QuoteChar \<Rightarrow> getLiteralTextFlags \<Rightarrow> string \<Rightarrow> string" where
  "escapeStringWorker s quoteChar flags b = escape_loop s quoteChar flags 0 0 b"

definition EscapeString :: "string \<Rightarrow> QuoteChar \<Rightarrow> string" where
  "EscapeString s quoteChar = escapeStringWorker s quoteChar getLiteralTextFlagsNeverAsciiEscape []"

definition escapeNonAsciiString :: "string \<Rightarrow> QuoteChar \<Rightarrow> string" where
  "escapeNonAsciiString s quoteChar = escapeStringWorker s quoteChar getLiteralTextFlagsNone []"

unbundle bit_operations_syntax

definition escapeJsxAttributeString :: "string \<Rightarrow> QuoteChar \<Rightarrow> string" where
  "escapeJsxAttributeString s quoteChar =
     escapeStringWorker s quoteChar (getLiteralTextFlagsJsxAttributeEscape OR getLiteralTextFlagsNeverAsciiEscape) []"

end
