(* ===== verification/Scanner_Lines.thy ===== *)
theory Scanner_Lines
  imports Scanner_Trivia Core_Text
begin

text \<open>
  Lines of a source text: the functions on line starts of \<open>internal/scanner/scanner.go\<close> and those the printer
  builds on them (\<open>internal/printer/utilities.go\<close>). A source file is its text and its line starts, which
  \<open>SourceFile.LineMap\<close> computes with \<open>ComputeLineStarts\<close> and keeps.
\<close>

section \<open>Line starts\<close>

function line_search_loop :: "nat list \<Rightarrow> int \<Rightarrow> int \<Rightarrow> int \<Rightarrow> int go" where
  "line_search_loop lineStarts pos low high =
     (if low \<le> high then
        let middle = low + (high - low) div 2 in
        go_bind (index_get lineStarts middle) (\<lambda>v.
          if int v < pos then line_search_loop lineStarts pos (middle + 1) high
          else if int v > pos then line_search_loop lineStarts pos low (middle - 1)
          else Inr middle)
      else Inr (low - 1))"
  by pat_completeness auto
termination
  by (relation "measure (\<lambda>(lineStarts, pos, low, high). nat (high + 1 - low))") auto

declare line_search_loop.simps [simp del]

definition ComputeLineOfPosition :: "nat list \<Rightarrow> int \<Rightarrow> int go" where
  "ComputeLineOfPosition lineStarts pos = line_search_loop lineStarts pos 0 (int (length lineStarts) - 1)"

definition GetLineAndCharacterOfPosition :: "string \<Rightarrow> int \<Rightarrow> (int \<times> int) go" where
  "GetLineAndCharacterOfPosition text pos =
     (let lineMap = ComputeLineStarts text in
      go_bind (ComputeLineOfPosition lineMap pos) (\<lambda>line.
      go_bind (index_get lineMap line) (\<lambda>start.
      go_bind (go_slice text (int start) pos) (\<lambda>t. Inr (line, int (length (runes t)))))))"

definition GetEndLinePosition :: "string \<Rightarrow> int \<Rightarrow> nat go" where
  "GetEndLinePosition text line =
     go_bind (index_get (ComputeLineStarts text) line) (\<lambda>pos. Inr (skip_line text pos))"

definition ComputePositionOfLineAndCharacter :: "nat list \<Rightarrow> int \<Rightarrow> int \<Rightarrow> int go" where
  "ComputePositionOfLineAndCharacter lineStarts line character =
     (if line < 0 \<or> line \<ge> int (length lineStarts) then Inl (Panicked ''Bad line number.'')
      else
        go_bind (index_get lineStarts line) (\<lambda>start.
        let res = int start + character in
        go_bind (if line < int (length lineStarts) - 1
                 then go_bind (index_get lineStarts (line + 1)) (\<lambda>following. Inr (res \<ge> int following))
                 else Inr False) (\<lambda>beyond.
          if beyond then Inl (Panicked ''Computed position is beyond that of the following line.'') else Inr res)))"

definition GetPositionOfLineAndCharacter :: "string \<Rightarrow> int \<Rightarrow> int \<Rightarrow> int go" where
  "GetPositionOfLineAndCharacter text line character =
     ComputePositionOfLineAndCharacter (ComputeLineStarts text) line character"

section \<open>Lines between positions\<close>

definition getStartPositionOfRange :: "TextRange \<Rightarrow> string \<Rightarrow> bool \<Rightarrow> int go" where
  "getStartPositionOfRange r text includeComments =
     (if tr_pos r < 0 then Inr (-1)
      else SkipTriviaEx text (tr_pos r) (default_skip\<lparr>StopAtComments := includeComments\<rparr>))"

definition getLinesBetweenPositions :: "string \<Rightarrow> int \<Rightarrow> int \<Rightarrow> int go" where
  "getLinesBetweenPositions text pos1 pos2 =
     (if pos1 = pos2 then Inr 0
      else
        (let lineStarts = ComputeLineStarts text;
             lower = (if pos1 < pos2 then pos1 else pos2);
             isNegative = (lower = pos2);
             upper = (if isNegative then pos1 else pos2)
         in go_bind (ComputeLineOfPosition lineStarts lower) (\<lambda>lowerLine.
            go_bind (go_slice lineStarts lowerLine (int (length lineStarts))) (\<lambda>rest.
            go_bind (ComputeLineOfPosition rest upper) (\<lambda>n.
              let upperLine = lowerLine + n in
              Inr (if isNegative then lowerLine - upperLine else upperLine - lowerLine))))))"

definition positionsAreOnSameLine :: "int \<Rightarrow> int \<Rightarrow> string \<Rightarrow> bool go" where
  "positionsAreOnSameLine pos1 pos2 text =
     go_bind (getLinesBetweenPositions text pos1 pos2) (\<lambda>n. Inr (n = 0))"

definition rangeStartPositionsAreOnSameLine :: "TextRange \<Rightarrow> TextRange \<Rightarrow> string \<Rightarrow> bool go" where
  "rangeStartPositionsAreOnSameLine range1 range2 text =
     go_bind (getStartPositionOfRange range1 text False) (\<lambda>start1.
     go_bind (getStartPositionOfRange range2 text False) (\<lambda>start2. positionsAreOnSameLine start1 start2 text))"

definition rangeEndPositionsAreOnSameLine :: "TextRange \<Rightarrow> TextRange \<Rightarrow> string \<Rightarrow> bool go" where
  "rangeEndPositionsAreOnSameLine range1 range2 text = positionsAreOnSameLine (tr_end range1) (tr_end range2) text"

definition rangeStartIsOnSameLineAsRangeEnd :: "TextRange \<Rightarrow> TextRange \<Rightarrow> string \<Rightarrow> bool go" where
  "rangeStartIsOnSameLineAsRangeEnd range1 range2 text =
     go_bind (getStartPositionOfRange range1 text False) (\<lambda>start. positionsAreOnSameLine start (tr_end range2) text)"

definition rangeEndIsOnSameLineAsRangeStart :: "TextRange \<Rightarrow> TextRange \<Rightarrow> string \<Rightarrow> bool go" where
  "rangeEndIsOnSameLineAsRangeStart range1 range2 text =
     go_bind (getStartPositionOfRange range2 text False) (\<lambda>start. positionsAreOnSameLine (tr_end range1) start text)"

definition rangeIsOnSingleLine :: "TextRange \<Rightarrow> string \<Rightarrow> bool go" where
  "rangeIsOnSingleLine r text = rangeStartIsOnSameLineAsRangeEnd r r text"

definition getLinesBetweenRangeEndAndRangeStart :: "TextRange \<Rightarrow> TextRange \<Rightarrow> string \<Rightarrow> bool \<Rightarrow> int go" where
  "getLinesBetweenRangeEndAndRangeStart range1 range2 text includeSecondRangeComments =
     go_bind (getStartPositionOfRange range2 text includeSecondRangeComments) (\<lambda>range2Start.
       getLinesBetweenPositions text (tr_end range1) range2Start)"

function getPreviousNonWhitespacePosition :: "int \<Rightarrow> int \<Rightarrow> string \<Rightarrow> int go" where
  "getPreviousNonWhitespacePosition pos stopPos text =
     (if pos \<ge> stopPos then
        go_bind (index_get text pos) (\<lambda>c.
          if \<not> IsWhiteSpaceLike (rune c) then Inr pos
          else getPreviousNonWhitespacePosition (pos - 1) stopPos text)
      else Inr (-1))"
  by pat_completeness auto
termination
  by (relation "measure (\<lambda>(pos, stopPos, text). nat (pos + 1 - stopPos))") auto

declare getPreviousNonWhitespacePosition.simps [simp del]

definition getLinesBetweenPositionAndPrecedingNonWhitespaceCharacter :: "int \<Rightarrow> int \<Rightarrow> string \<Rightarrow> bool \<Rightarrow> int go" where
  "getLinesBetweenPositionAndPrecedingNonWhitespaceCharacter pos stopPos text includeComments =
     go_bind (SkipTriviaEx text pos (default_skip\<lparr>StopAtComments := includeComments\<rparr>)) (\<lambda>startPos.
     go_bind (getPreviousNonWhitespacePosition startPos stopPos text) (\<lambda>prevPos.
       getLinesBetweenPositions text (if prevPos \<ge> 0 then prevPos else stopPos) startPos))"

definition getLinesBetweenPositionAndNextNonWhitespaceCharacter :: "int \<Rightarrow> int \<Rightarrow> string \<Rightarrow> bool \<Rightarrow> int go" where
  "getLinesBetweenPositionAndNextNonWhitespaceCharacter pos stopPos text includeComments =
     go_bind (SkipTriviaEx text pos (default_skip\<lparr>StopAtComments := includeComments\<rparr>)) (\<lambda>nextPos.
       getLinesBetweenPositions text pos (if stopPos < nextPos then stopPos else nextPos))"

section \<open>The search for a line\<close>

text \<open>The last line that starts at or before a position, in a list of starts in increasing order.\<close>

definition line_at :: "nat list \<Rightarrow> int \<Rightarrow> int" where
  "line_at starts pos = int (length (filter (\<lambda>s. int s \<le> pos) starts)) - 1"

lemma line_at_count:
  assumes below: "\<And>k. k < n \<Longrightarrow> int (starts ! k) \<le> pos" and n: "n \<le> length starts"
    and above: "\<And>k. n \<le> k \<Longrightarrow> k < length starts \<Longrightarrow> pos < int (starts ! k)"
  shows "line_at starts pos = int n - 1"
proof -
  have "filter (\<lambda>s. int s \<le> pos) (take n starts) = take n starts"
    using below n by (auto simp: filter_id_conv in_set_conv_nth)
  moreover have "filter (\<lambda>s. int s \<le> pos) (drop n starts) = []"
    using above n by (auto simp: filter_empty_conv in_set_conv_nth not_le)
  ultimately have "filter (\<lambda>s. int s \<le> pos) starts = take n starts"
    by (metis append_Nil2 append_take_drop_id filter_append)
  with n show ?thesis by (simp add: line_at_def)
qed

lemma line_search_loop_finds:
  assumes sorted: "sorted_wrt (<) starts" and "0 \<le> low" and "low \<le> high + 1" and "high < int (length starts)"
    and "\<forall>k < length starts. int k < low \<longrightarrow> int (starts ! k) \<le> pos"
    and "\<forall>k < length starts. high < int k \<longrightarrow> pos < int (starts ! k)"
  shows "line_search_loop starts pos low high = Inr (line_at starts pos)"
  using assms
proof (induction starts pos low high rule: line_search_loop.induct)
  case (1 ss pos low high)
  have lt: "ss ! i < ss ! k" if "i < k" "k < length ss" for i k
    using sorted_wrt_nth_less [OF "1.prems"(1) that] .
  show ?case
  proof (cases "low \<le> high")
    case False
    with 1 have "line_at ss pos = int (nat low) - 1" by (intro line_at_count) auto
    with False "1.prems" show ?thesis by (simp add: line_search_loop.simps)
  next
    case True
    define m where "m = nat (low + (high - low) div 2)"
    have m: "low \<le> int m" "int m \<le> high" "m < length ss" "low + (high - low) div 2 = int m"
      using True "1.prems"(2,4) by (auto simp: m_def)
    note IH = "1.IH" [OF True refl, unfolded m(4)]
    have step: "line_search_loop ss pos low high =
        (if int (ss ! m) < pos then line_search_loop ss pos (int m + 1) high
         else if int (ss ! m) > pos then line_search_loop ss pos low (int m - 1) else Inr (int m))"
      using True m by (subst line_search_loop.simps) (simp add: index_get_in_range Let_def)
    consider (less) "int (ss ! m) < pos" | (greater) "pos < int (ss ! m)" | (eq) "int (ss ! m) = pos" by linarith
    then show ?thesis
    proof cases
      case less
      have "int (ss ! k) \<le> pos" if "int k < int m + 1" "k < length ss" for k
        using lt [of k m] less m(3) that by (cases "k = m") auto
      then have "line_search_loop ss pos (int m + 1) high = Inr (line_at ss pos)"
        using less "1.prems" m by (intro IH(1) [of "ss ! m"]) auto
      with less show ?thesis by (simp add: step)
    next
      case greater
      have "pos < int (ss ! k)" if "int m - 1 < int k" "k < length ss" for k
        using lt [of m k] greater that by (cases "k = m") auto
      then have "line_search_loop ss pos low (int m - 1) = Inr (line_at ss pos)"
        using "1.prems" m by (intro IH(2) [OF less_not_sym [OF greater] greater]) auto
      with greater show ?thesis by (simp add: step)
    next
      case eq
      have "line_at ss pos = int (Suc m) - 1"
      proof (rule line_at_count)
        show "int (ss ! k) \<le> pos" if "k < Suc m" for k using lt [of k m] eq m(3) that by (cases "k = m") auto
        show "pos < int (ss ! k)" if "Suc m \<le> k" "k < length ss" for k using lt [of m k] eq that by auto
      qed (use m in simp)
      with eq show ?thesis by (simp add: step)
    qed
  qed
qed

lemma ComputeLineOfPosition_finds:
  "sorted_wrt (<) starts \<Longrightarrow> ComputeLineOfPosition starts pos = Inr (line_at starts pos)"
  unfolding ComputeLineOfPosition_def by (rule line_search_loop_finds) auto

text \<open>The search of the scanner and that of \<open>core.PositionToLineAndCharacter\<close> agree on the lines of a text.\<close>

lemma line_at_of_line_starts:
  assumes "0 \<le> pos"
  obtains line where "line_at (ComputeLineStarts text) pos = int line" and "line < length (ComputeLineStarts text)"
    and "PositionToLineAndCharacter pos (ComputeLineStarts text) =
      Inr (int line, pos - int (ComputeLineStarts text ! line))"
    and "int (ComputeLineStarts text ! line) \<le> pos"
proof -
  let ?s = "ComputeLineStarts text"
  have s: "sorted_wrt (<) ?s" "?s \<noteq> []" "hd ?s = 0" using ComputeLineStarts_sorted by blast+
  obtain line where l: "PositionToLineAndCharacter pos ?s = Inr (int line, pos - int (?s ! line))"
    "line < length ?s" "int (?s ! line) \<le> pos" "\<forall>k < length ?s. line < k \<longrightarrow> pos < int (?s ! k)"
    by (rule PositionToLineAndCharacter_spec [OF s assms])
  have "line_at ?s pos = int (Suc line) - 1"
  proof (rule line_at_count)
    show "int (?s ! k) \<le> pos" if "k < Suc line" for k
      using sorted_wrt_nth_less [OF s(1), of k line] l(2,3) that by (cases "k = line") auto
  qed (use l in auto)
  with l that show ?thesis by simp
qed

lemma ComputeLineOfPosition_agrees:
  "0 \<le> pos \<Longrightarrow> ComputeLineOfPosition (ComputeLineStarts text) pos =
     go_bind (PositionToLineAndCharacter pos (ComputeLineStarts text)) (\<lambda>(line, c). Inr line)"
  by (metis (mono_tags, lifting) ComputeLineOfPosition_finds ComputeLineStarts_sorted go_bind_simps(2) case_prod_conv
      line_at_of_line_starts)

text \<open>The lines between two positions are the difference of their lines, in either order.\<close>

lemma line_at_drop:
  assumes "sorted_wrt (<) starts" and "l < length starts" and "int (starts ! l) \<le> pos"
  shows "line_at (drop l starts) pos = line_at starts pos - int l"
proof -
  have "filter (\<lambda>s. int s \<le> pos) (take l starts) = take l starts"
    using sorted_wrt_nth_less [OF assms(1)] assms(2,3)
    by (force simp: filter_id_conv in_set_conv_nth)
  then have "length (filter (\<lambda>s. int s \<le> pos) starts) = l + length (filter (\<lambda>s. int s \<le> pos) (drop l starts))"
    using assms(2) by (metis append_take_drop_id filter_append length_append length_take min.absorb4)
  then show ?thesis by (simp add: line_at_def)
qed

lemma lines_between:
  assumes "0 \<le> pos1" and "0 \<le> pos2"
  shows "getLinesBetweenPositions text pos1 pos2 =
    Inr (line_at (ComputeLineStarts text) pos2 - line_at (ComputeLineStarts text) pos1)"
proof (cases "pos1 = pos2")
  case True
  then show ?thesis by (simp add: getLinesBetweenPositions_def)
next
  case False
  let ?s = "ComputeLineStarts text"
  have sorted: "sorted_wrt (<) ?s" using ComputeLineStarts_sorted by blast
  have upper: "go_bind (go_slice ?s (line_at ?s lower) (int (length ?s))) (\<lambda>rest.
      go_bind (ComputeLineOfPosition rest upper) f) = f (line_at ?s upper - line_at ?s lower)"
    if ends: "0 \<le> lower" "lower < upper" for lower upper and f :: "int \<Rightarrow> int go"
  proof -
    obtain l where l: "line_at ?s lower = int l" "l < length ?s" "int (?s ! l) \<le> lower"
      by (rule line_at_of_line_starts [OF ends(1)])
    then have "ComputeLineOfPosition (drop l ?s) upper = Inr (line_at ?s upper - int l)"
      using sorted ends l line_at_drop [OF sorted l(2), of upper]
      by (simp add: ComputeLineOfPosition_finds sorted_wrt_drop)
    with l show ?thesis by (simp add: go_slice_from)
  qed
  show ?thesis
    using False assms upper [of pos1 pos2] upper [of pos2 pos1]
    by (cases "pos1 < pos2") (simp_all add: getLinesBetweenPositions_def Let_def ComputeLineOfPosition_finds sorted)
qed

text \<open>A synthesized position, which is negative, has no line: the slice of the line starts is out of range.\<close>

lemma lines_between_synthesized:
  assumes "pos1 \<noteq> pos2" and "pos1 < 0 \<or> pos2 < 0"
  shows "getLinesBetweenPositions text pos1 pos2 = Inl SliceOutOfRange"
proof -
  have "ComputeLineOfPosition (ComputeLineStarts text) pos = Inr (-1)" if "pos < 0" for pos
    using that ComputeLineStarts_sorted [of "text"]
    by (simp add: ComputeLineOfPosition_finds line_at_def filter_empty_conv)
  then show ?thesis
    using assms by (auto simp: getLinesBetweenPositions_def Let_def go_slice_def min_def)
qed

text \<open>C15. The printer's distance in lines is the one of the line map: for two positions that are not negative, in
  either order and also behind the end of the text, \<open>getLinesBetweenPositions\<close> is the difference of the lines that
  \<open>core.PositionToLineAndCharacter\<close> gives for them, though it searches the second line only among the lines from
  the first one on.\<close>

theorem lines_between_positions:
  assumes "0 \<le> pos1" and "0 \<le> pos2"
  shows "\<exists>l1 c1 l2 c2. PositionToLineAndCharacter pos1 (ComputeLineStarts t) = Inr (l1, c1) \<and>
    PositionToLineAndCharacter pos2 (ComputeLineStarts t) = Inr (l2, c2) \<and>
    getLinesBetweenPositions t pos1 pos2 = Inr (l2 - l1)"
proof -
  obtain l1 where l1: "line_at (ComputeLineStarts t) pos1 = int l1"
      "PositionToLineAndCharacter pos1 (ComputeLineStarts t) = Inr (int l1, pos1 - int (ComputeLineStarts t ! l1))"
    by (rule line_at_of_line_starts [OF assms(1)])
  obtain l2 where l2: "line_at (ComputeLineStarts t) pos2 = int l2"
      "PositionToLineAndCharacter pos2 (ComputeLineStarts t) = Inr (int l2, pos2 - int (ComputeLineStarts t ! l2))"
    by (rule line_at_of_line_starts [OF assms(2)])
  show ?thesis using l1 l2 lines_between [OF assms, of t] by simp
qed

theorem lines_between_positions_witness:
  "\<exists>l1 c1 l2 c2. PositionToLineAndCharacter 5 (ComputeLineStarts [LF, CR, LF, CHR ''x'']) = Inr (l1, c1) \<and>
    PositionToLineAndCharacter 0 (ComputeLineStarts [LF, CR, LF, CHR ''x'']) = Inr (l2, c2) \<and>
    getLinesBetweenPositions [LF, CR, LF, CHR ''x''] 5 0 = Inr (l2 - l1)"
  by (rule lines_between_positions) simp_all

end
