(* ===== verification/Printer_Text.thy ===== *)
theory Printer_Text
  imports Printer_Escape Scanner_Lines Tspath
begin

text \<open>
  The texts the printer makes of a literal or a name and the comments it recognises
  (\<open>internal/printer/utilities.go\<close>, second part). Of a literal's node the functions read its kind, its range,
  whether it has a parent, its text, the text as written and its token flags: these are the record. The functions
  that match a prefix of a text take a position that never leaves the text, and give the position behind what
  they matched, or \<open>None\<close> when they leave the position alone and return false.
\<close>

section \<open>The text of a literal\<close>

record LiteralLikeNode =
  ll_Kind :: Kind
  ll_Loc :: TextRange
  ll_hasParent :: bool
  ll_Text :: string
  ll_RawText :: string
  ll_TokenFlags :: TokenFlags

definition PositionIsSynthesized :: "int \<Rightarrow> bool" where
  "PositionIsSynthesized pos = (pos < 0)"

definition NodeIsSynthesized :: "LiteralLikeNode \<Rightarrow> bool" where
  "NodeIsSynthesized node =
     (PositionIsSynthesized (tr_pos (ll_Loc node)) \<or> PositionIsSynthesized (tr_end (ll_Loc node)))"

definition NodeIsMissing :: "LiteralLikeNode \<Rightarrow> bool" where
  "NodeIsMissing node =
     (tr_pos (ll_Loc node) = tr_end (ll_Loc node) \<and> tr_pos (ll_Loc node) \<ge> 0 \<and> ll_Kind node \<noteq> KindEndOfFile)"

definition IsUnterminatedLiteral :: "LiteralLikeNode \<Rightarrow> bool" where
  "IsUnterminatedLiteral node = has_flag (ll_TokenFlags node) TokenFlagsUnterminated"

unbundle bit_operations_syntax

definition TokenFlagsIsInvalid :: TokenFlags where
  "TokenFlagsIsInvalid =
     TokenFlagsOctal OR TokenFlagsContainsLeadingZero OR TokenFlagsContainsInvalidSeparator OR TokenFlagsContainsInvalidEscape"

definition GetTextOfNodeFromSourceText :: "string \<Rightarrow> LiteralLikeNode \<Rightarrow> bool \<Rightarrow> string go" where
  "GetTextOfNodeFromSourceText sourceText node includeTrivia =
     (if NodeIsMissing node then Inr []
      else
        go_bind (if includeTrivia then Inr (tr_pos (ll_Loc node)) else SkipTrivia sourceText (tr_pos (ll_Loc node)))
          (\<lambda>pos. go_slice sourceText pos (tr_end (ll_Loc node))))"

definition canUseOriginalText :: "LiteralLikeNode \<Rightarrow> getLiteralTextFlags \<Rightarrow> bool" where
  "canUseOriginalText node flags =
     (if NodeIsSynthesized node \<or> \<not> ll_hasParent node \<or>
         has_flag flags getLiteralTextFlagsTerminateUnterminatedLiterals \<and> IsUnterminatedLiteral node then False
      else if ll_Kind node = KindNumericLiteral \<and> has_flag (ll_TokenFlags node) TokenFlagsIsInvalid then False
      else if ll_Kind node = KindNumericLiteral \<and> has_flag (ll_TokenFlags node) TokenFlagsContainsSeparator then
        has_flag flags getLiteralTextFlagsAllowNumericSeparator
      else ll_Kind node \<noteq> KindBigIntLiteral)"

definition string_literal_text :: "LiteralLikeNode \<Rightarrow> getLiteralTextFlags \<Rightarrow> string" where
  "string_literal_text node flags =
     (let quoteChar = (if has_flag (ll_TokenFlags node) TokenFlagsSingleQuote then QuoteCharSingleQuote
                       else QuoteCharDoubleQuote)
      in escapeStringWorker (ll_Text node) quoteChar flags (EncodeRune quoteChar) @ EncodeRune quoteChar)"

definition template_literal_text :: "LiteralLikeNode \<Rightarrow> getLiteralTextFlags \<Rightarrow> string" where
  "template_literal_text node flags =
     (let b = (if ll_Kind node \<in> {KindNoSubstitutionTemplateLiteral, KindTemplateHead} then [backtick] else ''}'');
          b' = (if ll_RawText node \<noteq> [] \<or> ll_Text node = [] then b @ ll_RawText node
                else escapeStringWorker (ll_Text node) QuoteCharBacktick flags b)
      in b' @ (if ll_Kind node \<in> {KindNoSubstitutionTemplateLiteral, KindTemplateTail} then [backtick] else ''${''))"

definition regexp_literal_text :: "LiteralLikeNode \<Rightarrow> getLiteralTextFlags \<Rightarrow> string" where
  "regexp_literal_text node flags =
     (if has_flag flags getLiteralTextFlagsTerminateUnterminatedLiterals \<and> IsUnterminatedLiteral node then
        (if ll_Text node \<noteq> [] \<and> last (ll_Text node) = backslash then ll_Text node @ '' /'' else ll_Text node @ ''/'')
      else ll_Text node)"

definition canonical_text :: "LiteralLikeNode \<Rightarrow> getLiteralTextFlags \<Rightarrow> string go" where
  "canonical_text node flags =
     (if ll_Kind node = KindStringLiteral then Inr (string_literal_text node flags)
      else if ll_Kind node \<in> {KindNoSubstitutionTemplateLiteral, KindTemplateHead, KindTemplateMiddle, KindTemplateTail}
      then Inr (template_literal_text node flags)
      else if ll_Kind node \<in> {KindNumericLiteral, KindBigIntLiteral} then Inr (ll_Text node)
      else if ll_Kind node = KindRegularExpressionLiteral then Inr (regexp_literal_text node flags)
      else Inl (Panicked ''Unsupported LiteralLikeNode''))"

definition getLiteralText :: "LiteralLikeNode \<Rightarrow> string option \<Rightarrow> getLiteralTextFlags \<Rightarrow> string go" where
  "getLiteralText node sourceFile flags =
     (case sourceFile of
        Some sourceText \<Rightarrow>
          if canUseOriginalText node flags then GetTextOfNodeFromSourceText sourceText node False
          else canonical_text node flags
      | None \<Rightarrow> canonical_text node flags)"

section \<open>Names\<close>

definition hasLeadingHash :: "string \<Rightarrow> bool" where
  "hasLeadingHash text = (text \<noteq> [] \<and> hd text = CHR ''#'')"

definition removeLeadingHash :: "string \<Rightarrow> string" where
  "removeLeadingHash text = (if hasLeadingHash text then tl text else text)"

definition ensureLeadingHash :: "string \<Rightarrow> string" where
  "ensureLeadingHash text = (if hasLeadingHash text then text else CHR ''#'' # text)"

definition FormatGeneratedName :: "bool \<Rightarrow> string \<Rightarrow> string \<Rightarrow> string \<Rightarrow> string" where
  "FormatGeneratedName privateName before base behind =
     (let name = removeLeadingHash before @ removeLeadingHash base @ removeLeadingHash behind
      in if privateName then ensureLeadingHash name else name)"

definition isASCIIWordCharacter :: "nat \<Rightarrow> bool" where
  "isASCIIWordCharacter ch = (IsASCIILetter ch \<or> IsDigit ch \<or> ch = rune CHR ''_'')"

function module_name_loop :: "string \<Rightarrow> nat \<Rightarrow> nat \<Rightarrow> string \<Rightarrow> string" where
  "module_name_loop moduleName start pos b =
     (if pos < length moduleName then
        (let ch = rune (moduleName ! pos) in
         if pos = 0 \<and> IsDigit ch then module_name_loop moduleName start (pos + 1) (b @ ''_'')
         else if \<not> isASCIIWordCharacter ch then
           module_name_loop moduleName (pos + 1) (pos + 1)
             (b @ (if start < pos then take (pos - start) (drop start moduleName) else []) @ ''_'')
         else module_name_loop moduleName start (pos + 1) b)
      else if start < pos then b @ take (pos - start) (drop start moduleName) else b)"
  by pat_completeness auto
termination
  by (relation "measure (\<lambda>(moduleName, start, pos, b). length moduleName - pos)") auto

declare module_name_loop.simps [simp del]

definition makeIdentifierFromModuleName :: "string \<Rightarrow> string" where
  "makeIdentifierFromModuleName moduleName = module_name_loop (GetBaseFileName moduleName) 0 0 []"

section \<open>Matching\<close>

function findSpanEnd :: "'a list \<Rightarrow> ('a \<Rightarrow> bool) \<Rightarrow> nat \<Rightarrow> nat" where
  "findSpanEnd array test i =
     (if i < length array \<and> test (array ! i) then findSpanEnd array test (i + 1) else i)"
  by pat_completeness auto
termination
  by (relation "measure (\<lambda>(array, test, i). length array - i)") auto

declare findSpanEnd.simps [simp del]

definition skipWhiteSpaceSingleLine :: "string \<Rightarrow> nat \<Rightarrow> nat" where
  "skipWhiteSpaceSingleLine text pos = skip_runes IsWhiteSpaceSingleLine text pos"

definition matchWhiteSpaceSingleLine :: "string \<Rightarrow> nat \<Rightarrow> nat option" where
  "matchWhiteSpaceSingleLine text pos =
     (let pos' = skipWhiteSpaceSingleLine text pos in if pos' \<noteq> pos then Some pos' else None)"

definition matchRune :: "string \<Rightarrow> nat \<Rightarrow> nat \<Rightarrow> nat option" where
  "matchRune text pos expected =
     (case DecodeRuneInString (drop pos text) of (ch, width) \<Rightarrow> if ch = expected then Some (pos + width) else None)"

text \<open>\<open>expected\<close> is what is left of the expected string.\<close>

function matchString :: "string \<Rightarrow> nat \<Rightarrow> string \<Rightarrow> nat option" where
  "matchString text textPos expected =
     (if expected = [] then Some textPos
      else if textPos \<ge> length text then None
      else
        (case DecodeRuneInString expected of (expectedRune, expectedSize) \<Rightarrow>
          (case matchRune text textPos expectedRune of
             None \<Rightarrow> None
           | Some textPos' \<Rightarrow> matchString text textPos' (drop expectedSize expected))))"
  by pat_completeness auto
termination
proof (relation "measure (\<lambda>(text, textPos, expected). length expected)", goal_cases)
  case (2 t p e r n q)
  then show ?case using decode_width(1) [of e] by (auto simp: snd_eq_iff)
qed simp

declare matchString.simps [simp del]

function close_quote_loop :: "string \<Rightarrow> nat \<Rightarrow> nat \<Rightarrow> nat option" where
  "close_quote_loop text quoteChar textPos =
     (if textPos < length text then
        (case DecodeRuneInString (drop textPos text) of (ch, width) \<Rightarrow>
           if ch = quoteChar then Some (textPos + width) else close_quote_loop text quoteChar (textPos + width))
      else None)"
  by pat_completeness auto
termination
proof (relation "measure (\<lambda>(text, quoteChar, textPos). length text - textPos)", goal_cases)
  case (2 t q p ch n)
  then show ?case using decode_width(1) [of "drop p t"] by (auto simp: snd_eq_iff)
qed simp

declare close_quote_loop.simps [simp del]

definition matchQuotedString :: "string \<Rightarrow> nat \<Rightarrow> nat option" where
  "matchQuotedString text pos =
     (case matchRune text pos (rune apostrophe) of
        Some textPos \<Rightarrow> close_quote_loop text (rune apostrophe) textPos
      | None \<Rightarrow>
          (case matchRune text pos (rune quote_mark) of
             Some textPos \<Rightarrow> close_quote_loop text (rune quote_mark) textPos
           | None \<Rightarrow> None))"

section \<open>Comments\<close>

definition cr_Len :: "CommentRange \<Rightarrow> int" where
  "cr_Len c = int (cr_end c) - int (cr_pos c)"

fun match_any :: "string \<Rightarrow> nat \<Rightarrow> string list \<Rightarrow> nat option" where
  "match_any text pos [] = None"
| "match_any text pos (e # es) =
     (case matchString text pos e of Some pos' \<Rightarrow> Some pos' | None \<Rightarrow> match_any text pos es)"

text \<open>An attribute with one of the given names and its quoted value.\<close>

definition match_attribute :: "string \<Rightarrow> nat \<Rightarrow> string list \<Rightarrow> nat option" where
  "match_attribute text pos names =
     Option.bind (matchWhiteSpaceSingleLine text pos) (\<lambda>pos1.
     Option.bind (match_any text pos1 names) (\<lambda>pos2.
     Option.bind (matchRune text (skipWhiteSpaceSingleLine text pos2) (rune CHR ''='')) (\<lambda>pos3.
       matchQuotedString text (skipWhiteSpaceSingleLine text pos3))))"

definition match_directive :: "string \<Rightarrow> nat \<Rightarrow> nat option" where
  "match_directive text pos =
     (case matchString text pos ''reference'' of
        Some pos' \<Rightarrow> match_attribute text pos' [''path'', ''types'', ''lib'', ''no-default-lib'']
      | None \<Rightarrow>
          (case matchString text pos ''amd-dependency'' of
             Some pos' \<Rightarrow> match_attribute text pos' [''path'']
           | None \<Rightarrow>
               (case matchString text pos ''amd-module'' of
                  Some pos' \<Rightarrow> Some (skipWhiteSpaceSingleLine text pos')
                | None \<Rightarrow> None)))"

definition triple_slash_text :: "string \<Rightarrow> bool" where
  "triple_slash_text text =
     (case matchRune text (skipWhiteSpaceSingleLine text 0) (rune CHR ''<'') of
        None \<Rightarrow> False
      | Some pos \<Rightarrow>
          (case match_directive text pos of
             None \<Rightarrow> False
           | Some pos' \<Rightarrow> Index (drop pos' text) ''/>'' \<noteq> -1))"

definition isRecognizedTripleSlashComment :: "string \<Rightarrow> CommentRange \<Rightarrow> bool go" where
  "isRecognizedTripleSlashComment text commentRange =
     (let pos = int (cr_pos commentRange) in
      if cr_Kind commentRange = KindSingleLineCommentTrivia \<and> cr_Len commentRange > 2 then
        go_bind (index_get text (pos + 1)) (\<lambda>c1.
        if c1 = CHR ''/'' then
          go_bind (index_get text (pos + 2)) (\<lambda>c2.
          if c2 = CHR ''/'' then
            go_bind (go_slice text (pos + 3) (int (cr_end commentRange))) (\<lambda>t. Inr (triple_slash_text t))
          else Inr False)
        else Inr False)
      else Inr False)"

definition isJSDocLikeText :: "string \<Rightarrow> CommentRange \<Rightarrow> bool go" where
  "isJSDocLikeText text comment =
     (if cr_Kind comment = KindMultiLineCommentTrivia \<and> cr_Len comment > 5 then
        go_bind (index_get text (int (cr_pos comment) + 2)) (\<lambda>c2.
        if c2 = CHR ''*'' then
          go_bind (index_get text (int (cr_pos comment) + 3)) (\<lambda>c3. Inr (c3 \<noteq> CHR ''/''))
        else Inr False)
      else Inr False)"

definition isPinnedComment :: "string \<Rightarrow> CommentRange \<Rightarrow> bool go" where
  "isPinnedComment text comment =
     (if cr_Kind comment = KindMultiLineCommentTrivia \<and> cr_Len comment > 5 then
        go_bind (index_get text (int (cr_pos comment) + 2)) (\<lambda>c2. Inr (c2 = CHR ''!''))
      else Inr False)"

text \<open>The indentation of a line of a comment; a tab goes to the next multiple of the indent size, 4.\<close>

function indent_loop :: "string \<Rightarrow> nat \<Rightarrow> nat \<Rightarrow> nat \<Rightarrow> nat" where
  "indent_loop text pos end currentLineIndent =
     (if pos < end then
        (case DecodeRuneInString (drop pos text) of (ch, width) \<Rightarrow>
           if \<not> IsWhiteSpaceSingleLine ch then currentLineIndent
           else indent_loop text (pos + width) end
             (if ch = rune TAB then currentLineIndent + (4 - currentLineIndent mod 4) else currentLineIndent + 1))
      else currentLineIndent)"
  by pat_completeness auto
termination
proof (relation "measure (\<lambda>(text, pos, end, currentLineIndent). end - pos)", goal_cases)
  case (2 t pos e n ch width)
  have "drop pos t \<noteq> []"
  proof
    assume "drop pos t = []"
    with 2 show False by (simp add: IsWhiteSpaceSingleLine_def)
  qed
  with 2 show ?case using decode_width(1) [of "drop pos t"] by (auto simp: snd_eq_iff)
qed simp

declare indent_loop.simps [simp del]

definition calculateIndent :: "string \<Rightarrow> nat \<Rightarrow> nat \<Rightarrow> nat go" where
  "calculateIndent text pos end =
     (if pos < end then
        go_bind (go_slice text (int pos) (int (length text))) (\<lambda>_. Inr (indent_loop text pos end 0))
      else Inr 0)"

section \<open>The identifier of a module\<close>

definition word_only :: "string \<Rightarrow> string" where
  "word_only s = map (\<lambda>c. if isASCIIWordCharacter (rune c) then c else CHR ''_'') s"

lemma word_only_id: "\<forall>c \<in> set s. isASCIIWordCharacter (rune c) \<Longrightarrow> word_only s = s"
  by (simp add: word_only_def map_idI)

lemma module_name_loop_word_only:
  "start \<le> pos \<Longrightarrow> pos \<le> length m \<Longrightarrow> 0 < pos \<Longrightarrow>
   \<forall>c \<in> set (take (pos - start) (drop start m)). isASCIIWordCharacter (rune c) \<Longrightarrow>
   module_name_loop m start pos b = b @ word_only (drop start m)"
proof (induction m start pos b rule: module_name_loop.induct)
  case (1 m start pos b)
  let ?part = "take (pos - start) (drop start m)"
  have parts: "drop start m = ?part @ drop pos m"
    using append_take_drop_id [of "pos - start" "drop start m"] 1(4) by simp
  show ?case
  proof (cases "pos < length m")
    case False
    with 1(4-7) show ?thesis by (subst module_name_loop.simps) (auto simp: word_only_id)
  next
    case True
    then have c: "drop pos m = m ! pos # drop (Suc pos) m" by (simp add: Cons_nth_drop_Suc)
    have all: "word_only (drop start m) = ?part @ word_only (drop pos m)"
      by (subst parts) (simp add: word_only_def word_only_id [unfolded word_only_def, OF 1(7)])
    show ?thesis
    proof (cases "isASCIIWordCharacter (rune (m ! pos))")
      case word: True
      have "take (Suc pos - start) (drop start m) = ?part @ [m ! pos]"
        using 1(4) True by (simp add: Suc_diff_le take_Suc_conv_app_nth)
      then have "module_name_loop m start (pos + 1) b = b @ word_only (drop start m)"
        using 1 True word by (intro 1(3) [OF True refl]) auto
      with True word 1(6) show ?thesis by (subst module_name_loop.simps) simp
    next
      case word: False
      have "module_name_loop m (pos + 1) (pos + 1) (b @ (if start < pos then ?part else []) @ ''_'') =
          (b @ (if start < pos then ?part else []) @ ''_'') @ word_only (drop (pos + 1) m)"
        using True word 1(6) by (intro 1(2) [OF True refl]) auto
      with True word 1(4,6) all c show ?thesis by (subst module_name_loop.simps) (simp add: word_only_def)
    qed
  qed
qed

lemma makeIdentifierFromModuleName_words:
  "makeIdentifierFromModuleName m =
     (let base = GetBaseFileName m in (if base \<noteq> [] \<and> IsDigit (rune (hd base)) then ''_'' else []) @ word_only base)"
proof (cases "GetBaseFileName m")
  case Nil
  then show ?thesis by (simp add: makeIdentifierFromModuleName_def module_name_loop.simps word_only_def)
next
  case (Cons c s)
  have digit: "IsDigit (rune c) \<Longrightarrow> isASCIIWordCharacter (rune c)" by (simp add: isASCIIWordCharacter_def)
  show ?thesis
    using Cons digit module_name_loop_word_only [of 0 1 "c # s"] module_name_loop_word_only [of 1 1 "c # s"]
    by (simp add: makeIdentifierFromModuleName_def module_name_loop.simps [of _ 0 0] Let_def word_only_def)
qed

lemma word_identifier: "isASCIIWordCharacter ch \<Longrightarrow> ch < 128 \<and> IsIdentifierPart ch v \<and> (\<not> IsDigit ch \<longrightarrow> IsIdentifierStart ch v)"
  by (auto simp: isASCIIWordCharacter_def IsIdentifierPart_def IsIdentifierPartEx_def IsIdentifierStart_def
      isWordCharacter_def IsASCIILetter_def IsDigit_def)

lemma word_only_words: "c \<in> set (word_only s) \<Longrightarrow> isASCIIWordCharacter (rune c)"
  by (auto simp: word_only_def isASCIIWordCharacter_def)

lemma words_valid_identifier:
  assumes "\<forall>c \<in> set (c # s). isASCIIWordCharacter (rune c)" and "\<not> IsDigit (rune c)"
  shows "IsValidIdentifier (c # s) v"
proof -
  have "runes (c # s) = map rune (c # s)" using assms(1) word_identifier by (intro runes_ascii) blast
  with assms word_identifier show ?thesis by (auto simp: IsValidIdentifier_def)
qed

text \<open>C16. The name that the printer makes of a module is an identifier: every byte that cannot be part of one
  becomes an underscore and a leading digit gets one in front, so that in every version of the language the
  result is a valid identifier exactly when the last component of the module's path is not empty.\<close>

theorem module_name_identifier:
  "IsValidIdentifier (makeIdentifierFromModuleName m) v = (GetBaseFileName m \<noteq> [])"
proof (cases "GetBaseFileName m")
  case Nil
  then show ?thesis
    by (simp add: makeIdentifierFromModuleName_words word_only_def IsValidIdentifier_def runes.simps)
next
  case (Cons c s)
  let ?c = "if isASCIIWordCharacter (rune c) then c else CHR ''_''"
  have w: "word_only (c # s) = ?c # word_only s" by (simp add: word_only_def)
  have under: "isASCIIWordCharacter (rune CHR ''_'')" "\<not> IsDigit (rune CHR ''_'')"
    by (simp_all add: isASCIIWordCharacter_def IsDigit_def)
  have digit: "IsDigit (rune c) \<Longrightarrow> isASCIIWordCharacter (rune c)" by (simp add: isASCIIWordCharacter_def)
  have "IsValidIdentifier ((if IsDigit (rune c) then ''_'' else []) @ word_only (c # s)) v"
  proof (cases "IsDigit (rune c)")
    case True
    have "IsValidIdentifier (CHR ''_'' # word_only (c # s)) v"
      using under word_only_words [of _ "c # s"] by (intro words_valid_identifier) auto
    with True show ?thesis by simp
  next
    case False
    have "IsValidIdentifier (?c # word_only s) v"
      using under False word_only_words [of _ s] by (intro words_valid_identifier) auto
    with False w show ?thesis by simp
  qed
  with Cons show ?thesis by (simp add: makeIdentifierFromModuleName_words)
qed

end
