(* ===== verification/Printer_Roundtrip.thy ===== *)
theory Printer_Roundtrip
  imports Printer_Text Scanner_Props
begin

text \<open>
  What the printer writes for a string literal, the scanner reads back: the escaped text is put together from
  one piece per rune, and the scanner turns every piece into the bytes of its rune.
\<close>

section \<open>The escaped text, rune by rune\<close>

function escaped :: "QuoteChar \<Rightarrow> getLiteralTextFlags \<Rightarrow> string \<Rightarrow> string" where
  "escaped quoteChar flags r =
     (if r = [] then []
      else
        (case DecodeRuneInString r of (ch, width) \<Rightarrow>
           if must_escape r quoteChar flags 0 ch then
             (case escape_at r quoteChar flags 0 ch width of (t, width') \<Rightarrow>
                t @ escaped quoteChar flags (drop width' r))
           else take width r @ escaped quoteChar flags (drop width r)))"
  by pat_completeness auto
termination
proof (relation "measure (\<lambda>(q, flags, r). length r)", goal_cases)
  case (2 q flags r ch w t w')
  then have "1 \<le> w" "w \<le> w'" using decode_width(1) [of r] escape_at_positive by (auto simp: snd_eq_iff)
  with 2 show ?case by simp
next
  case (3 q flags r ch w)
  then show ?case using decode_width(1) [of r] by (auto simp: snd_eq_iff)
qed simp

declare escaped.simps [simp del]

lemma escaped_Nil [simp]: "escaped q flags [] = []"
  by (simp add: escaped.simps)

lemma must_escape_drop: "i < length s \<Longrightarrow> must_escape s q flags i ch = must_escape (drop i s) q flags 0 ch"
  by (auto simp: must_escape_def)

lemma escape_at_drop: "i < length s \<Longrightarrow> escape_at s q flags i ch w = escape_at (drop i s) q flags 0 ch w"
  by (auto simp: escape_at_def escape_rune_def)

lemma escape_at_width:
  "escape_at s q flags 0 ch w = (t, w') \<Longrightarrow> DecodeRuneInString s = (ch, w) \<Longrightarrow> s \<noteq> [] \<Longrightarrow> w' \<le> length s"
  using decode_width(2) [of s] decode_small(3) [of s ch w]
  by (auto simp: escape_at_def escape_rune_def split: if_splits)

lemma escape_loop_escaped:
  "pos \<le> i \<Longrightarrow> i \<le> length s \<Longrightarrow>
   escape_loop s q flags pos i b = b @ take (i - pos) (drop pos s) @ escaped q flags (drop i s)"
proof (induction s q flags pos i b rule: escape_loop.induct)
  case (1 s q flags pos i b)
  show ?case
  proof (cases "i < length s")
    case False
    with 1(3,4) show ?thesis by (cases "pos < i") (simp_all add: escape_loop.simps)
  next
    case True
    obtain ch w where d: "DecodeRuneInString (drop i s) = (ch, w)" by fastforce
    have w: "i + w \<le> length s" using decode_width(2) [of "drop i s"] True d by simp
    have part: "take (i - pos) (drop pos s) @ take w (drop i s) = take (i + w - pos) (drop pos s)"
      using 1(3) take_add [of "i - pos" w "drop pos s"] by (simp add: add.commute)
    note here = must_escape_drop [OF True, of q flags ch] escape_at_drop [OF True, of q flags ch w]
    show ?thesis
    proof (cases "must_escape s q flags i ch")
      case m: True
      obtain t w' where e: "escape_at s q flags i ch w = (t, w')" by fastforce
      have w': "i + w' \<le> length s" using escape_at_width [of "drop i s" q flags ch w t w'] e d True here by simp
      have "escaped q flags (drop i s) = t @ escaped q flags (drop (i + w') s)"
        using True m e d here by (subst escaped.simps) (simp add: add.commute)
      moreover have "escape_loop s q flags pos i b =
          escape_loop s q flags (i + w') (i + w') (b @ (if pos < i then take (i - pos) (drop pos s) else []) @ t)"
        by (subst escape_loop.simps) (simp only: True d m e if_True prod.case)
      moreover have "\<dots> = (b @ (if pos < i then take (i - pos) (drop pos s) else []) @ t) @ escaped q flags (drop (i + w') s)"
        using 1(1) [OF True d [symmetric] m e [symmetric]] w' by simp
      ultimately show ?thesis by simp
    next
      case m: False
      have "escaped q flags (drop i s) = take w (drop i s) @ escaped q flags (drop (i + w) s)"
        using True m d here by (subst escaped.simps) (simp add: add.commute)
      moreover have "escape_loop s q flags pos i b = escape_loop s q flags pos (i + w) b"
        by (subst escape_loop.simps) (simp only: True d m if_True if_False prod.case)
      moreover have "\<dots> = b @ take (i + w - pos) (drop pos s) @ escaped q flags (drop (i + w) s)"
        using 1(2) [OF True d [symmetric] m] w 1(3) by simp
      ultimately show ?thesis unfolding part [symmetric] by simp
    qed
  qed
qed

lemma escapeStringWorker_escaped: "escapeStringWorker s q flags b = b @ escaped q flags s"
  by (simp add: escapeStringWorker_def escape_loop_escaped)

section \<open>Reading ahead\<close>

text \<open>What the scanner has before it, and the states behind the reading of some bytes without a complaint.\<close>

definition ahead :: "Scanner \<Rightarrow> string" where
  "ahead s = drop (sc_pos s) (sc_text s)"

definition behind :: "Scanner \<Rightarrow> nat \<Rightarrow> Scanner \<Rightarrow> bool" where
  "behind s n s' =
     (sc_text s' = sc_text s \<and> sc_pos s' = sc_pos s + n \<and> sc_errors s' = sc_errors s)"

lemma behind_moved [simp]: "behind s n (s\<lparr>sc_pos := sc_pos s + n\<rparr>)" "behind s (Suc 0) (s\<lparr>sc_pos := Suc (sc_pos s)\<rparr>)"
  by (simp_all add: behind_def)

lemma behind_trans: "behind s n s' \<Longrightarrow> behind s' m s'' \<Longrightarrow> behind s (n + m) s''"
  by (simp add: behind_def)

lemma behind_ahead: "behind s n s' \<Longrightarrow> ahead s' = drop n (ahead s)"
  by (simp add: behind_def ahead_def add.commute)

lemma ahead_char:
  assumes "ahead s = c # beyond"
  shows "current_char s = Some c" and "sc_pos s < length (sc_text s)"
    and "ahead (s\<lparr>sc_pos := Suc (sc_pos s)\<rparr>) = beyond"
proof -
  show "sc_pos s < length (sc_text s)" using assms by (auto simp: ahead_def intro: ccontr)
  then have "drop (sc_pos s) (sc_text s) = sc_text s ! sc_pos s # drop (Suc (sc_pos s)) (sc_text s)"
    by (simp add: Cons_nth_drop_Suc)
  with assms \<open>sc_pos s < length (sc_text s)\<close>
  show "current_char s = Some c" "ahead (s\<lparr>sc_pos := Suc (sc_pos s)\<rparr>) = beyond"
    by (simp_all add: ahead_def current_char_def charAt_def)
qed

lemma ahead_nth:
  assumes "k < length (ahead s)"
  shows "current_char (s\<lparr>sc_pos := sc_pos s + k\<rparr>) = Some (ahead s ! k)" and "sc_pos s + k < length (sc_text s)"
  using assms by (simp_all add: ahead_def current_char_def charAt_def less_diff_conv add.commute)

lemma ahead_length: "ahead s = t @ beyond \<Longrightarrow> sc_pos s \<le> length (sc_text s) \<Longrightarrow> sc_pos s + length t \<le> length (sc_text s)"
  by (drule arg_cong [where f = length]) (simp add: ahead_def)

lemma ahead_slice:
  "ahead s = t @ beyond \<Longrightarrow> behind s (length t) s' \<Longrightarrow> take (sc_pos s' - sc_pos s) (drop (sc_pos s) (sc_text s')) = t"
  by (simp add: ahead_def behind_def)

section \<open>Hexadecimal digits\<close>

lemma wp_iterate_Suc:
  "wp (iterate (Suc n) body v) Q s \<longleftrightarrow> wp (body v) (\<lambda>r s'. case r of Inl v' \<Rightarrow> wp (iterate n body v') Q s' | Inr x \<Rightarrow> Q x s') s"
  by (auto simp: wp_def seq_def ret_def split: sum.splits)

lemma scanHexDigits_reads:
  assumes "ahead s = ds @ beyond" and "\<forall>c \<in> set ds. IsHexDigit (rune c)"
    and after: "\<And>s'. behind s (length ds) s' \<Longrightarrow> Q (map lower_hex ds) s'"
  shows "wp (scanHexDigits (length ds) False False) Q s"
proof -
  define body :: "string \<times> bool \<times> bool \<Rightarrow> ((string \<times> bool \<times> bool) + (string \<times> bool)) scanning" where
    "body = (\<lambda>(sb, allowSeparator, isPreviousTokenSeparator).
            if length sb < length ds \<or> False then
              seq (gets current_char) (\<lambda>ch.
                case ch of
                  None \<Rightarrow> leave (sb, isPreviousTokenSeparator)
                | Some c \<Rightarrow>
                    if IsHexDigit (rune c) then
                      seq (advance 1) (\<lambda>_. again (sb @ [lower_hex c], False, False))
                    else if False \<and> c = CHR ''_'' then
                      seq (digit_separator 0 allowSeparator isPreviousTokenSeparator) (\<lambda>(allow, previous).
                      seq (advance 1) (\<lambda>_. again (sb, allow, previous)))
                    else leave (sb, isPreviousTokenSeparator))
            else leave (sb, isPreviousTokenSeparator))"
  have loop: "wp (iterate n body (sb, False, False)) Q' s1"
    if "ahead s1 = rest @ beyond" "\<forall>c \<in> set rest. IsHexDigit (rune c)" "length sb + length rest = length ds"
      "length rest < n" "\<And>s'. behind s1 (length rest) s' \<Longrightarrow> Q' (sb @ map lower_hex rest, False) s'"
    for n sb rest s1 Q'
    using that
  proof (induction rest arbitrary: n sb s1)
    case Nil
    then obtain m where "n = Suc m" by (cases n) auto
    with Nil show ?case by (auto simp: wp_iterate_Suc body_def behind_def)
  next
    case (Cons c rest)
    then obtain m where m: "n = Suc m" by (cases n) auto
    have c: "current_char s1 = Some c" "ahead (s1\<lparr>sc_pos := Suc (sc_pos s1)\<rparr>) = rest @ beyond"
      using ahead_char [of s1 c "rest @ beyond"] Cons.prems(1) by auto
    have "wp (iterate m body (sb @ [lower_hex c], False, False)) Q' (s1\<lparr>sc_pos := Suc (sc_pos s1)\<rparr>)"
      using Cons.prems c(2) m by (intro Cons.IH) (auto simp: behind_def)
    with c(1) m Cons.prems(2,3) show ?case by (simp add: wp_iterate_Suc body_def)
  qed
  have "length ds < Suc (length (sc_text s))"
    using arg_cong [OF assms(1), of length] by (simp add: ahead_def)
  with assms show ?thesis
    unfolding scanHexDigits_def scan_loop_def wp_seq wp_gets body_def [symmetric]
    by (intro loop [of s ds]) (auto simp: trailing_separator_def)
qed

definition four_digits :: "nat \<Rightarrow> string" where
  "four_digits n = map upper_hex_digit [n div 4096, n div 256 mod 16, n div 16 mod 16, n mod 16]"

lemma upper_hex_step: "16 \<le> n \<Longrightarrow> upper_hex n = upper_hex (n div 16) @ [upper_hex_digit (n mod 16)]"
  "n < 16 \<Longrightarrow> upper_hex n = [upper_hex_digit n]"
  by (simp_all add: upper_hex.simps [of n])

lemma digit_table: "map upper_hex_digit [0..<16] = ''0123456789ABCDEF''"
  by (simp add: upper_hex_digit_def upt_rec char_of_def bit_numeral_rec bit_Suc_0_iff)

lemma digit_values: "map (\<lambda>c. digit_in (lower_hex c)) ''0123456789ABCDEF'' = map int [0..<16]"
  by (simp add: digit_in_def lower_hex_def less_eq_char_def char_of_def Let_def bit_Suc_0_iff upt_rec)

lemma hex_digit_value:
  assumes "d < 16"
  shows "IsHexDigit (rune (upper_hex_digit d))" and "digit_in (lower_hex (upper_hex_digit d)) = int d"
proof -
  have d: "upper_hex_digit d = ''0123456789ABCDEF'' ! d"
    using arg_cong [OF digit_table, of "\<lambda>l. l ! d"] assms by simp
  have "list_all (\<lambda>c. IsHexDigit (rune c)) ''0123456789ABCDEF''" by (simp add: IsHexDigit_def)
  then show "IsHexDigit (rune (upper_hex_digit d))"
    unfolding d list_all_length using assms by simp
  have "digit_in (lower_hex (''0123456789ABCDEF'' ! d)) = map (\<lambda>c. digit_in (lower_hex c)) ''0123456789ABCDEF'' ! d"
    by (rule nth_map [symmetric]) (use assms in simp)
  also have "\<dots> = int d" unfolding digit_values using assms by simp
  finally show "digit_in (lower_hex (upper_hex_digit d)) = int d" unfolding d .
qed
lemma div_16: "n div 16 div 16 = n div 256" "n div 256 div 16 = n div 4096" for n :: nat
  by (simp_all add: div_mult2_eq [symmetric])

lemma utf16_escape_digits:
  assumes "n < 65536"
  shows "encodeUtf16EscapeSequence n = [backslash, CHR ''u''] @ four_digits n"
proof -
  have zero: "upper_hex_digit 0 = CHR ''0''" using arg_cong [OF digit_table, of hd] by (simp add: upt_rec)
  have "replicate (4 - length (upper_hex n)) CHR ''0'' @ upper_hex n = four_digits n"
  proof -
    consider "n < 16" | "16 \<le> n" "n < 256" | "256 \<le> n" "n < 4096" | "4096 \<le> n" by linarith
    then show ?thesis
    proof cases
      case 1
      then have "upper_hex n = [upper_hex_digit n]" by (rule upper_hex_step)
      with 1 zero show ?thesis by (simp add: four_digits_def numeral_3_eq_3)
    next
      case 2
      then have "upper_hex n = [upper_hex_digit (n div 16), upper_hex_digit (n mod 16)]"
        using upper_hex_step(1) [of n] upper_hex_step(2) [of "n div 16"] by simp
      with 2 zero show ?thesis by (simp add: four_digits_def numeral_2_eq_2)
    next
      case 3
      then have "upper_hex n = [upper_hex_digit (n div 256), upper_hex_digit (n div 16 mod 16), upper_hex_digit (n mod 16)]"
        using upper_hex_step(1) [of n] upper_hex_step(1) [of "n div 16"] upper_hex_step(2) [of "n div 256"]
        by (simp add: div_16)
      with 3 zero show ?thesis by (simp add: four_digits_def)
    next
      case 4
      then have "upper_hex n = four_digits n"
        using upper_hex_step(1) [of n] upper_hex_step(1) [of "n div 16"] upper_hex_step(1) [of "n div 256"]
          upper_hex_step(2) [of "n div 4096"] assms
        by (simp add: div_16 four_digits_def)
      then show ?thesis by (simp add: four_digits_def)
    qed
  qed
  then show ?thesis by (simp add: encodeUtf16EscapeSequence_def Let_def)
qed

lemma four_digits_value:
  assumes "n < 65536"
  shows "parse_int32 16 (map lower_hex (four_digits n)) = int n" and "\<forall>c \<in> set (four_digits n). IsHexDigit (rune c)"
    and "length (four_digits n) = 4" and "hd (four_digits n) \<noteq> CHR ''{''"
proof -
  have small: "n div 4096 < 16" using assms by simp
  have "n = 16 * (16 * (16 * (n div 4096) + n div 256 mod 16) + n div 16 mod 16) + n mod 16" (is "_ = ?n")
    using mult_div_mod_eq [of 16 n] mult_div_mod_eq [of 16 "n div 16"] mult_div_mod_eq [of 16 "n div 256"]
    unfolding div_16 by simp
  moreover have "value_in 16 (map lower_hex (four_digits n)) = int ?n"
    using small by (simp only: value_in_def four_digits_def list.map foldl.simps hex_digit_value mod_less_divisor
        of_nat_add of_nat_mult of_nat_numeral zero_less_numeral mult_zero_right add_0)
  ultimately have "value_in 16 (map lower_hex (four_digits n)) = int n" by (simp only:)
  with assms show "parse_int32 16 (map lower_hex (four_digits n)) = int n" by (simp add: parse_int32_def)
  show hex: "\<forall>c \<in> set (four_digits n). IsHexDigit (rune c)" using small by (simp add: four_digits_def hex_digit_value)
  show "length (four_digits n) = 4" by (simp add: four_digits_def)
  have "\<not> IsHexDigit (rune CHR ''{'')" by (simp add: IsHexDigit_def)
  with hex show "hd (four_digits n) \<noteq> CHR ''{''" by (auto simp: four_digits_def)
qed

lemma scanUnicodeEscape_reads:
  assumes "ahead s = [backslash, CHR ''u''] @ four_digits n @ beyond" and "n < 65536"
    and after: "\<And>s'. behind s 6 s' \<Longrightarrow> Q (Some n) s'"
  shows "wp (scanUnicodeEscape emit) Q s"
proof -
  let ?s = "s\<lparr>sc_pos := sc_pos s + 2\<rparr>"
  note digits = four_digits_value [OF assms(2)]
  have at: "ahead ?s = four_digits n @ beyond" using assms(1) behind_ahead [OF behind_moved(1), of s 2] by simp
  have "four_digits n \<noteq> []" using digits(3) by auto
  with at digits(4) have brace: "charAt ?s 0 \<noteq> Some CHR ''{''"
    using ahead_char(1) [of ?s "hd (four_digits n)" "tl (four_digits n) @ beyond"]
    by (cases "four_digits n") (auto simp: current_char_def)
  have "wp (scanHexDigits (length (four_digits n)) False False) R (?s\<lparr>sc_tokenFlags := f\<rparr>)"
    if "\<And>s'. behind s 6 s' \<Longrightarrow> R (map lower_hex (four_digits n)) s'" for R f
    using at digits(2,3) that by (intro scanHexDigits_reads [of _ _ beyond]) (auto simp: ahead_def behind_def)
  moreover have "nat (parse_int32 16 (map lower_hex (four_digits n))) = n" using digits(1) by simp
  ultimately show ?thesis
    using brace digits(3) \<open>four_digits n \<noteq> []\<close> after
    by (simp add: scanUnicodeEscape_def escape_digits_def add_flags_def Let_def)
qed

section \<open>Escape sequences\<close>

unbundle bit_operations_syntax

abbreviation string_flags :: EscapeSequenceScanningFlags where
  "string_flags \<equiv> EscapeSequenceScanningFlagsString OR EscapeSequenceScanningFlagsReportErrors"

text \<open>The text \<open>t\<close>, with \<open>beyond\<close> behind it, is an escape sequence for \<open>v\<close>, about which there is no complaint.\<close>

definition escapes :: "string \<Rightarrow> string \<Rightarrow> string \<Rightarrow> bool" where
  "escapes t v beyond =
     (\<forall>s Q. ahead s = t @ beyond \<longrightarrow> (\<forall>s'. behind s (length t) s' \<longrightarrow> Q v s') \<longrightarrow> wp (scanEscapeSequence string_flags) Q s)"

lemma escapesI:
  assumes "t = backslash # c # ds"
    and "\<And>s Q. ahead s = t @ beyond \<Longrightarrow> (\<And>s'. behind s (length t) s' \<Longrightarrow> Q v s') \<Longrightarrow>
      wp (escape_behind string_flags (sc_pos s) c) Q (s\<lparr>sc_pos := sc_pos s + 2\<rparr>)"
  shows "escapes t v beyond"
  unfolding escapes_def
proof (intro allI impI)
  fix s Q
  assume at: "ahead s = t @ beyond" and Q: "\<forall>s'. behind s (length t) s' \<longrightarrow> Q v s'"
  have "ahead (s\<lparr>sc_pos := Suc (sc_pos s)\<rparr>) = c # ds @ beyond"
    using ahead_char(3) at assms(1) by fastforce
  note ahead_char(1) [OF this]
  with assms(2) [OF at] Q show "wp (scanEscapeSequence string_flags) Q s"
    by (simp add: scanEscapeSequence_def)
qed

lemma string_flags_simps:
  "\<not> has_flag string_flags EscapeSequenceScanningFlagsAnyUnicodeMode"
  "\<not> has_flag string_flags EscapeSequenceScanningFlagsRegularExpression"
  by code_simp+

lemma simple_escapes:
  "escapes [backslash, CHR ''t''] [TAB] beyond" "escapes [backslash, CHR ''v''] [VT] beyond"
  "escapes [backslash, CHR ''f''] [FF] beyond" "escapes [backslash, CHR ''b''] [CHR 0x08] beyond"
  "escapes [backslash, CHR ''r''] [CR] beyond" "escapes [backslash, CHR ''n''] [LF] beyond"
  "escapes [backslash, backslash] [backslash] beyond" "escapes [backslash, quote_mark] [quote_mark] beyond"
  "escapes [backslash, apostrophe] [apostrophe] beyond"
  by (rule escapesI [OF refl],
      simp add: escape_behind_def other_escape_def string_flags_simps EncodeRune_ascii behind_def
        char_of_def bit_numeral_rec bit_Suc_0_iff)+

lemma unicode_escapes:
  assumes "n < 65536"
  shows "escapes (encodeUtf16EscapeSequence n) (EncodeRune n) beyond"
  unfolding utf16_escape_digits [OF assms] append.simps
proof (rule escapesI [OF refl])
  fix s Q
  assume at: "ahead s = (backslash # CHR ''u'' # four_digits n) @ beyond"
    and after: "\<And>s'. behind s (length (backslash # CHR ''u'' # four_digits n)) s' \<Longrightarrow> Q (EncodeRune n) s'"
  have "wp (scanUnicodeEscape emit) (\<lambda>codePoint. wp (case codePoint of
         None \<Rightarrow> seq (gets sc_pos) (\<lambda>pos. text_slice (sc_pos s) pos) | Some r \<Rightarrow> ret (EncodeRune r)) Q) s" for emit
    by (rule scanUnicodeEscape_reads [OF _ assms, of s beyond])
      (use at after four_digits_value(3) [OF assms] in \<open>simp_all add: numeral_eq_Suc\<close>)
  then show "wp (escape_behind string_flags (sc_pos s) CHR ''u'') Q (s\<lparr>sc_pos := sc_pos s + 2\<rparr>)"
    by (simp add: escape_behind_def unicode_escape_def)
qed

lemma zero_escapes:
  assumes "beyond = [] \<or> \<not> IsDigit (rune (hd beyond))"
  shows "escapes [backslash, CHR ''0''] [CHR 0x00] beyond"
proof (rule escapesI [OF refl])
  fix s Q
  assume at: "ahead s = [backslash, CHR ''0''] @ beyond" and after: "\<And>s'. behind s (length [backslash, CHR ''0'']) s' \<Longrightarrow> Q [CHR 0x00] s'"
  let ?s = "s\<lparr>sc_pos := sc_pos s + 2\<rparr>"
  have "ahead ?s = beyond" using at behind_ahead [OF behind_moved(1), of s 2] by simp
  with assms have "\<not> in_class IsDigit (current_char ?s)"
    using ahead_char(1) [of ?s "hd beyond" "tl beyond"]
    by (cases beyond) (auto simp: in_class_def current_char_def charAt_def ahead_def)
  then show "wp (escape_behind string_flags (sc_pos s) CHR ''0'') Q ?s"
    using after by (simp add: escape_behind_def behind_def)
qed

lemma hex_zero_escapes: "escapes (backslash # ''x00'') [CHR 0x00] beyond"
proof (rule escapesI [OF refl])
  fix s Q
  assume at: "ahead s = (backslash # ''x00'') @ beyond" and after: "\<And>s'. behind s (length (backslash # ''x00'')) s' \<Longrightarrow> Q [CHR 0x00] s'"
  have char: "current_char (s\<lparr>sc_pos := sc_pos s + k\<rparr>) = Some (ahead s ! k)" if "k < 4" for k
    using ahead_nth [of k s] that at by simp
  have len: "sc_pos s + 3 < length (sc_text s)" using ahead_nth(2) [of 3 s] at by simp
  define n where "n = length (sc_text s) - 3"
  have n: "length (sc_text s) = Suc (Suc (Suc n))" using len by (simp add: n_def)
  have "drop (sc_pos s + 2) (sc_text s) = ''00'' @ beyond"
    using at behind_ahead [OF behind_moved(1), of s 2] by (simp add: ahead_def)
  moreover have "parse_int32 16 ''00'' = 0" by (simp add: parse_int32_def value_in_def digit_in_def)
  ultimately show "wp (escape_behind string_flags (sc_pos s) CHR ''x'') Q (s\<lparr>sc_pos := sc_pos s + 2\<rparr>)"
    using char [of 2] char [of "Suc (Suc (Suc 0))"] len after at
    by (simp add: escape_behind_def hex_escape_def scan_loop_def n wp_iterate_Suc in_class_def IsHexDigit_def
        add_flags_def EncodeRune_ascii behind_def char_of_def)
qed

section \<open>The pieces of the escaped text\<close>

text \<open>The flags with which non-ASCII text is kept, and quotes that delimit a string.\<close>

definition keeps_text :: "QuoteChar \<Rightarrow> getLiteralTextFlags \<Rightarrow> bool" where
  "keeps_text quoteChar flags =
     (quoteChar \<in> {QuoteCharSingleQuote, QuoteCharDoubleQuote} \<and>
      has_flag flags getLiteralTextFlagsNeverAsciiEscape \<and> \<not> has_flag flags getLiteralTextFlagsJsxAttributeEscape)"

lemmas quote_values = QuoteCharSingleQuote_def QuoteCharDoubleQuote_def QuoteCharBacktick_def

lemma keeps_quote: "keeps_text q flags \<Longrightarrow> q = 34 \<or> q = 39"
  by (auto simp: keeps_text_def QuoteCharSingleQuote_def QuoteCharDoubleQuote_def)

lemma escaped_runes:
  assumes "keeps_text q flags" and "must_escape r q flags i ch"
  shows "ch \<in> {92, q, 0x2028, 0x2029, 0x85, 13, 10} \<or> ch < 31"
  using assms keeps_quote [OF assms(1)]
  by (auto simp: must_escape_def keeps_text_def QuoteCharBacktick_def split: if_splits)

lemma table_escapes:
  "escapes (backslash # ''u2028'') (EncodeRune 0x2028) beyond"
  "escapes (backslash # ''u2029'') (EncodeRune 0x2029) beyond"
  "escapes (backslash # ''u0085'') (EncodeRune 0x85) beyond"
proof -
  have "encodeUtf16EscapeSequence 0x2028 = backslash # ''u2028''" "encodeUtf16EscapeSequence 0x2029 = backslash # ''u2029''"
    "encodeUtf16EscapeSequence 0x85 = backslash # ''u0085''"
    by (simp_all add: utf16_escape_digits four_digits_def upper_hex_digit_def char_of_def bit_numeral_rec bit_Suc_0_iff)
  then show "escapes (backslash # ''u2028'') (EncodeRune 0x2028) beyond"
    "escapes (backslash # ''u2029'') (EncodeRune 0x2029) beyond" "escapes (backslash # ''u0085'') (EncodeRune 0x85) beyond"
    using unicode_escapes [of "0x2028" beyond] unicode_escapes [of "0x2029" beyond] unicode_escapes [of "0x85" beyond] by simp_all
qed

lemma rune_escapes:
  assumes keeps: "keeps_text q flags" and must: "must_escape r q flags 0 ch"
    and t: "escape_at r q flags 0 ch w = (t, w')"
    and digit: "ch = 0 \<Longrightarrow> beyond = [] \<or> \<not> IsDigit (rune (hd beyond)) \<or> 1 < length r \<and> IsDigit (rune (r ! 1))"
  shows "w' = w" and "escapes t (EncodeRune ch) beyond"
proof -
  note q = keeps_quote [OF keeps] escaped_runes [OF keeps must]
  then have e: "escape_rune r q 0 ch w = (t, w')"
    using keeps t by (simp add: keeps_text_def escape_at_def)
  have "ch \<le> 0xffff" "q \<noteq> QuoteCharBacktick" using q by (auto simp: QuoteCharBacktick_def)
  with e show "w' = w" by (auto simp: escape_rune_def split: if_splits)
  consider "ch = 0" | "ch \<in> {92, q, 0x2028, 0x2029, 0x85, 13, 10}" | "0 < ch" "ch < 31" using q(2) by auto
  then show "escapes t (EncodeRune ch) beyond"
  proof cases
    case 1
    with e digit zero_escapes [of beyond] hex_zero_escapes [of beyond] show ?thesis
      by (auto simp: escape_rune_def EncodeRune_ascii char_of_def split: if_splits)
  next
    case 2
    with e q \<open>q \<noteq> QuoteCharBacktick\<close> show ?thesis
      by (auto simp: escape_rune_def escapedCharsMap_def EncodeRune_ascii char_of_def bit_numeral_rec bit_Suc_0_iff
          intro: simple_escapes table_escapes)
  next
    case 3
    show ?thesis
    proof (cases "ch \<in> {8, 9, 10, 11, 12, 13}")
      case True
      with e \<open>q \<noteq> QuoteCharBacktick\<close> show ?thesis
        by (auto simp: escape_rune_def escapedCharsMap_def EncodeRune_ascii char_of_def bit_numeral_rec bit_Suc_0_iff
            intro: simple_escapes)
    next
      case False
      with 3 e \<open>q \<noteq> QuoteCharBacktick\<close> have "t = encodeUtf16EscapeSequence ch"
        by (auto simp: escape_rune_def escapedCharsMap_def split: if_splits)
      with 3 unicode_escapes show ?thesis by simp
    qed
  qed
qed

text \<open>A byte that the scanner takes as it is.\<close>

definition plain :: "QuoteChar \<Rightarrow> char \<Rightarrow> bool" where
  "plain q c = (rune c \<noteq> q \<and> c \<notin> {backslash, LF, CR})"

lemma unescaped_plain:
  assumes keeps: "keeps_text q flags" and d: "DecodeRuneInString r = (ch, w)" and "r \<noteq> []"
    and "\<not> must_escape r q flags 0 ch" and "c \<in> set (take w r)"
  shows "plain q c"
proof (cases "ch < 128")
  case True
  note small = decode_small [OF d True]
  with assms(5) have "rune c = ch" by (cases r) auto
  with assms(4) keeps show ?thesis
    by (auto simp: plain_def must_escape_def keeps_text_def quote_values split: if_splits)
next
  case False
  obtain k where k: "k < w" "c = r ! k" "k < length r"
    using assms(5) by (auto simp: in_set_conv_nth)
  have "128 \<le> rune c"
  proof (cases k)
    case 0
    with k have "r = c # tl r" by (cases r) auto
    with d False show ?thesis using decode_ascii [of c "tl r"] by (metis fst_conv not_less)
  next
    case (Suc j)
    with d k show ?thesis using decode_cont [of k r] by simp
  qed
  moreover have "rune LF = 10" "rune CR = 13" "rune backslash = 92" by simp_all
  ultimately show ?thesis using keeps_quote [OF keeps] by (auto simp: plain_def)
qed

text \<open>The escaped text of what is not empty starts with a byte that is taken as it is, or with an escape sequence.\<close>

lemma escaped_unescaped:
  assumes "DecodeRuneInString r = (ch, w)" and "r \<noteq> []" and "\<not> must_escape r q flags 0 ch"
  shows "escaped q flags r = take w r @ escaped q flags (drop w r)"
  using assms by (subst escaped.simps) simp

lemma escaped_must:
  assumes "DecodeRuneInString r = (ch, w)" and "r \<noteq> []" and "must_escape r q flags 0 ch"
    and "escape_at r q flags 0 ch w = (t, w')"
  shows "escaped q flags r = t @ escaped q flags (drop w' r)"
  using assms by (subst escaped.simps) simp

lemma escape_backslash:
  assumes "keeps_text q flags" and "must_escape r q flags 0 ch" and "escape_at r q flags 0 ch w = (t, w')"
  shows "t \<noteq> [] \<and> hd t = backslash"
  using escaped_runes [OF assms(1,2)] assms(1,3) keeps_quote [OF assms(1)]
  by (auto simp: escape_at_def escape_rune_def keeps_text_def escapedCharsMap_def encodeUtf16EscapeSequence_def
      QuoteCharBacktick_def Let_def split: if_splits)

lemma escaped_first:
  assumes "keeps_text q flags" and "r \<noteq> []"
  shows "escaped q flags r \<noteq> [] \<and> (hd (escaped q flags r) = backslash \<or> hd (escaped q flags r) = hd r)"
proof -
  obtain ch w where d: "DecodeRuneInString r = (ch, w)" by fastforce
  obtain t w' where t: "escape_at r q flags 0 ch w = (t, w')" by fastforce
  have "1 \<le> w" using decode_width(1) [OF assms(2)] d by simp
  then have "take w r \<noteq> []" "hd (take w r) = hd r" using assms(2) by auto
  then show ?thesis
    using escape_backslash [OF assms(1) _ t] escaped_must [OF d assms(2) _ t] escaped_unescaped [OF d assms(2)]
    by (cases "must_escape r q flags 0 ch") (simp_all add: hd_append)
qed

lemma escaped_piece:
  assumes keeps: "keeps_text q flags" and "r \<noteq> []" and d: "DecodeRuneInString r = (ch, w)"
    and must: "must_escape r q flags 0 ch"
  obtains t where "escaped q flags r = t @ escaped q flags (drop w r)" and "t \<noteq> []" and "hd t = backslash"
    and "escapes t (take w r) (escaped q flags (drop w r) @ char_of q # beyond)"
proof -
  obtain t w' where t: "escape_at r q flags 0 ch w = (t, w')" by fastforce
  have ch: "ch \<noteq> RuneError" using escaped_runes [OF keeps must] keeps_quote [OF keeps] by auto
  let ?b = "escaped q flags (drop w r) @ char_of q # beyond"
  have "?b = [] \<or> \<not> IsDigit (rune (hd ?b)) \<or> 1 < length r \<and> IsDigit (rune (r ! 1))" if "ch = 0"
  proof (cases "drop w r = []")
    case True
    then show ?thesis using keeps_quote [OF keeps] by (auto simp: IsDigit_def)
  next
    case False
    have "w = 1" using decode_small(3) [OF d] that by simp
    with False have "hd (drop w r) = r ! 1" "1 < length r" by (simp_all add: hd_drop_conv_nth)
    moreover have "\<not> IsDigit (rune backslash)" by (simp add: IsDigit_def)
    ultimately show ?thesis using escaped_first [OF keeps False] by (auto simp: hd_append)
  qed
  note e = rune_escapes [OF keeps must t this]
  have "take w r = EncodeRune ch" using encode_decoded [OF d assms(2)] ch by simp
  with e that escaped_must [OF d assms(2) must t] escape_backslash [OF keeps must t] show ?thesis by simp
qed

section \<open>Scanning the escaped text\<close>

definition between :: "string \<Rightarrow> nat \<Rightarrow> nat \<Rightarrow> string" where
  "between t lo hi = take (hi - lo) (drop lo t)"

lemma between_more: "lo \<le> hi \<Longrightarrow> between t lo (hi + n) = between t lo hi @ take n (drop hi t)"
  using take_add [of "hi - lo" n "drop lo t"] by (simp add: between_def add.commute)

lemma between_same [simp]: "between t p p = []"
  by (simp add: between_def)

lemma plain_normal:
  assumes keeps: "keeps_text q flags" and "\<forall>c \<in> set raw. plain q c"
  obtains raw' r' where "raw @ escaped q flags r = raw' @ escaped q flags r'" and "raw @ r = raw' @ r'"
    and "\<forall>c \<in> set raw'. plain q c"
    and "raw' \<noteq> [] \<or> r' = [] \<or> must_escape r' q flags 0 (fst (DecodeRuneInString r'))"
proof (cases "raw \<noteq> [] \<or> r = [] \<or> must_escape r q flags 0 (fst (DecodeRuneInString r))")
  case True
  with assms that [of raw r] show ?thesis by blast
next
  case False
  obtain ch w where d: "DecodeRuneInString r = (ch, w)" by fastforce
  with False have un: "raw = []" "r \<noteq> []" "\<not> must_escape r q flags 0 ch" by auto
  moreover have "take w r \<noteq> []" using decode_width(1) [OF un(2)] d un(2) by auto
  ultimately show ?thesis
    using that [of "take w r" "drop w r"] escaped_unescaped [OF d un(2,3)] unescaped_plain [OF keeps d un(2,3)] by auto
qed

text \<open>
  In a round of \<open>scanString\<close>, \<open>raw\<close> is what is left of a piece that is taken as it is and \<open>r\<close> the text whose
  escaped form follows.
\<close>

definition string_round :: "QuoteChar \<Rightarrow> getLiteralTextFlags \<Rightarrow> string \<Rightarrow> string \<Rightarrow> Scanner \<Rightarrow> string \<times> nat \<Rightarrow> Scanner \<Rightarrow> bool" where
  "string_round q flags src beyond s v s1 =
     (case v of (sb, start) \<Rightarrow>
        sc_text s1 = sc_text s \<and> sc_errors s1 = sc_errors s \<and> start \<le> sc_pos s1 \<and>
        (\<exists>raw r. ahead s1 = raw @ escaped q flags r @ char_of q # beyond \<and> (\<forall>c \<in> set raw. plain q c) \<and>
           sb @ between (sc_text s) start (sc_pos s1) @ raw @ r = src))"

lemma string_round_normal:
  assumes "keeps_text q flags" and "string_round q flags src beyond s (sb, start) s1"
  obtains (plain) c raw r where "ahead s1 = c # raw @ escaped q flags r @ char_of q # beyond" and "plain q c"
      and "\<forall>c \<in> set raw. plain q c" and "sb @ between (sc_text s) start (sc_pos s1) @ c # raw @ r = src"
  | (close) "ahead s1 = char_of q # beyond" and "sb @ between (sc_text s) start (sc_pos s1) = src"
  | (escape) r where "ahead s1 = escaped q flags r @ char_of q # beyond" and "r \<noteq> []"
      and "must_escape r q flags 0 (fst (DecodeRuneInString r))"
      and "sb @ between (sc_text s) start (sc_pos s1) @ r = src"
proof -
  obtain raw r where inv: "ahead s1 = raw @ escaped q flags r @ char_of q # beyond" "\<forall>c \<in> set raw. plain q c"
      "sb @ between (sc_text s) start (sc_pos s1) @ raw @ r = src"
    using assms(2) by (auto simp: string_round_def)
  obtain raw' r' where n: "raw @ escaped q flags r = raw' @ escaped q flags r'" "raw @ r = raw' @ r'"
      "\<forall>c \<in> set raw'. plain q c" "raw' \<noteq> [] \<or> r' = [] \<or> must_escape r' q flags 0 (fst (DecodeRuneInString r'))"
    by (rule plain_normal [OF assms(1) inv(2)])
  have at: "ahead s1 = raw' @ escaped q flags r' @ char_of q # beyond" using inv(1) n(1) by (metis append.assoc)
  have src: "sb @ between (sc_text s) start (sc_pos s1) @ raw' @ r' = src" using inv(3) n(2) by simp
  show ?thesis
  proof (cases raw')
    case (Cons c raw'')
    with at src n(3) plain show ?thesis by auto
  next
    case Nil
    with at src n(4) close escape show ?thesis by (cases "r' = []") auto
  qed
qed

lemma scanString_reads:
  assumes keeps: "keeps_text q flags" and at: "ahead s = char_of q # escaped q flags src @ char_of q # beyond"
    and after: "\<And>s'. behind s (length (escaped q flags src) + 2) s' \<Longrightarrow> Q src s'"
  shows "wp (scanString False) Q s"
proof -
  let ?s = "s\<lparr>sc_pos := sc_pos s + 1\<rparr>"
  let ?I = "string_round q flags src beyond s"
  note q = keeps_quote [OF keeps]
  note first = ahead_char [OF at]
  have rune_q: "rune (char_of q :: char) = q" using q by auto
  have end_pos: "sc_pos s1 = sc_pos s + 1 + length (escaped q flags src)"
    if "ahead s1 = char_of q # beyond" "sc_text s1 = sc_text s" for s1
  proof -
    have "length (sc_text s) - sc_pos s1 = Suc (length beyond)" "sc_pos s1 < length (sc_text s)"
      using arg_cong [OF that(1), of length] ahead_char(2) [OF that(1)] that(2) by (simp_all add: ahead_def)
    moreover have "length (sc_text s) - sc_pos s = 2 + length (escaped q flags src) + length beyond"
      using arg_cong [OF at, of length] by (simp add: ahead_def)
    ultimately show ?thesis by linarith
  qed
  have start: "?I ([], sc_pos ?s) ?s"
    unfolding string_round_def prod.case using first(3)
    by (intro conjI exI [where x = "[]"] exI [where x = src]) simp_all
  have round: "wp (case v of (sb, start) \<Rightarrow>
         seq (gets current_char) (\<lambda>ch.
         seq (gets sc_pos) (\<lambda>pos.
           let unterminated =
             seq (text_slice start pos) (\<lambda>part.
             seq (add_flags TokenFlagsUnterminated) (\<lambda>_.
             seq (report ''Unterminated_string_literal'') (\<lambda>_. leave (sb @ part))))
           in
           if ch = None then unterminated
           else if ch = Some (char_of q) then
             seq (text_slice start pos) (\<lambda>part. seq (advance 1) (\<lambda>_. leave (sb @ part)))
           else if ch = Some backslash \<and> \<not> False then
             seq (text_slice start pos) (\<lambda>part.
             seq (scanEscapeSequence string_flags) (\<lambda>escaped.
             seq (gets sc_pos) (\<lambda>pos'. again (sb @ part @ escaped, pos'))))
           else if (ch = Some LF \<or> ch = Some CR) \<and> \<not> False then unterminated
           else seq (advance 1) (\<lambda>_. again (sb, start)))))
       (round_ok ?I remaining Q (remaining s1)) s1" (is "wp (?body v) _ _")
    if "?I v s1" for v s1
  proof -
    obtain sb start where v: "v = (sb, start)" by fastforce
    have same: "sc_text s1 = sc_text s" "sc_errors s1 = sc_errors s" "start \<le> sc_pos s1" using that v by (auto simp: string_round_def)
    from keeps that [unfolded v] show ?thesis
    proof (cases rule: string_round_normal)
      case (plain c raw r)
      note c = ahead_char [OF plain(1)]
      have "c \<noteq> char_of q" "c \<noteq> backslash" "c \<noteq> LF" "c \<noteq> CR" using plain(2) rune_q by (auto simp: plain_def)
      moreover have "?I v (s1\<lparr>sc_pos := Suc (sc_pos s1)\<rparr>)"
      proof -
        have "take 1 (drop (sc_pos s1) (sc_text s)) = [c]" using plain(1) same(1) by (simp add: ahead_def)
        then have "sb @ between (sc_text s) start (Suc (sc_pos s1)) @ raw @ r = src"
          using plain(4) between_more [OF same(3), of "sc_text s" 1] by simp
        with plain(3) c(3) same show ?thesis unfolding string_round_def v by auto
      qed
      ultimately show ?thesis using c same(1) by (simp add: v remaining_def)
    next
      case close
      have "behind s (length (escaped q flags src) + 2) (s1\<lparr>sc_pos := Suc (sc_pos s1)\<rparr>)"
        using end_pos [OF close(1) same(1)] same by (simp add: behind_def)
      with after close(2) ahead_char [OF close(1)] same show ?thesis
        by (simp add: v between_def)
    next
      case (escape r)
      obtain ch w where d: "DecodeRuneInString r = (ch, w)" by fastforce
      obtain t where t: "escaped q flags r = t @ escaped q flags (drop w r)" "t \<noteq> []" "hd t = backslash"
          "escapes t (take w r) (escaped q flags (drop w r) @ char_of q # beyond)"
        using escaped_piece [OF keeps escape(2) d] escape(3) d by auto
      let ?b = "escaped q flags (drop w r) @ char_of q # beyond"
      have at1: "ahead s1 = t @ ?b" using escape(1) t(1) by simp
      with t(2,3) have c: "current_char s1 = Some backslash" "sc_pos s1 < length (sc_text s1)"
        using ahead_char [of s1 backslash "tl t @ ?b"] by (cases t; simp)+
      have "backslash \<noteq> char_of q" using q by (auto simp: char_of_def bit_numeral_rec bit_Suc_0_iff)
      moreover have "wp (scanEscapeSequence string_flags) (\<lambda>v s2. ?I (sb @ between (sc_text s) start (sc_pos s1) @ v, sc_pos s2) s2 \<and>
          remaining s2 < remaining s1) s1"
      proof -
        have "?I (sb @ between (sc_text s) start (sc_pos s1) @ take w r, sc_pos s2) s2 \<and> remaining s2 < remaining s1"
          if b: "behind s1 (length t) s2" for s2
        proof -
          have "ahead s2 = ?b" using behind_ahead [OF b] at1 by simp
          then have "?I (sb @ between (sc_text s) start (sc_pos s1) @ take w r, sc_pos s2) s2"
            unfolding string_round_def prod.case using b same escape(4)
            by (intro conjI exI [where x = "[]"] exI [where x = "drop w r"]) (simp_all add: behind_def)
          moreover from t(2) have "0 < length t" by simp
          then have "remaining s2 < remaining s1" using b c(2) by (simp add: behind_def remaining_def diff_less_mono2)
          ultimately show ?thesis ..
        qed
        with t(4) at1 show ?thesis by (simp add: escapes_def)
      qed
      ultimately show ?thesis using c same by (simp add: v between_def) (erule wp_conseq, simp)
    qed
  qed
  have "remaining ?s < Suc (length (sc_text ?s))" by (simp add: remaining_def)
  from wp_iterate [of ?I ?body remaining Q, OF round start this] show ?thesis
    by (simp only: scanString_def scan_loop_def wp_seq wp_gets wp_writes first(1))
qed

section \<open>Printing and scanning a string literal\<close>

lemma fresh_scanner:
  "sc_text (SetText t (defaultScanner f)) = t" "sc_pos (SetText t (defaultScanner f)) = 0"
  "sc_errors (SetText t (defaultScanner f)) = []"
  by (simp_all add: SetText_def with_settings_def zero_state_def ScannerState.defs Scanner.defs defaultScanner_def)

lemma scan_string_token:
  assumes "keeps_text q flags" and at: "ahead s = char_of q # escaped q flags src @ char_of q # beyond"
    and "sc_pos s = 0"
  shows "wp Scan (\<lambda>k s'. k = KindStringLiteral \<and> sc_tokenValue s' = src \<and>
    sc_pos s' = length (escaped q flags src) + 2 \<and> sc_errors s' = sc_errors s) s"
proof -
  let ?s = "s\<lparr>sc_fullStartPos := sc_pos s, sc_tokenFlags := TokenFlagsNone, sc_tokenStart := sc_pos s\<rparr>"
  have at': "ahead ?s = char_of q # escaped q flags src @ char_of q # beyond" using at by (simp add: ahead_def)
  have arm: "scan_arm (char_of q) = seq (scanString False) (\<lambda>v. seq (set_value v) (\<lambda>_. finish KindStringLiteral))"
  proof -
    have "char_of q = quote_mark \<or> char_of q = apostrophe"
      using keeps_quote [OF assms(1)] by (auto simp: char_of_def bit_numeral_rec bit_Suc_0_iff)
    then show ?thesis by (elim disjE) (simp_all add: scan_arm_def)
  qed
  have "wp (scanString False) (\<lambda>v s'. wp (seq (set_value v) (\<lambda>_. finish KindStringLiteral))
      (\<lambda>r s'. \<exists>u. r = Inr u \<and> sc_token s' = KindStringLiteral \<and> sc_tokenValue s' = src \<and>
        sc_pos s' = length (escaped q flags src) + 2 \<and> sc_errors s' = sc_errors s) s') ?s"
    by (rule scanString_reads [OF assms(1) at']) (use assms(3) in \<open>simp add: finish_def behind_def\<close>)
  then have "wp scan_round (\<lambda>r s'. \<exists>u. r = Inr u \<and> sc_token s' = KindStringLiteral \<and> sc_tokenValue s' = src \<and>
        sc_pos s' = length (escaped q flags src) + 2 \<and> sc_errors s' = sc_errors s)
      (s\<lparr>sc_fullStartPos := sc_pos s, sc_tokenFlags := TokenFlagsNone\<rparr>)"
    using ahead_char(1) [OF at'] by (simp add: scan_round_def arm) (erule wp_conseq, simp add: finish_def)
  then show ?thesis
    unfolding Scan_def scan_loop_def wp_seq wp_modify wp_gets wp_iterate_Suc by (rule wp_conseq) auto
qed

text \<open>C4. What the printer writes for a string literal the scanner reads back: when the text of the literal cannot
  be copied from the source and non-ASCII text is kept, the text that \<open>getLiteralText\<close> gives is one string literal
  token whatever follows it, scanned without a complaint, and the value of the token is the text of the node, byte
  by byte, also where this is no valid UTF-8.\<close>

theorem string_literal_round_trip:
  assumes "ll_Kind node = KindStringLiteral" and "sourceFile = None \<or> \<not> canUseOriginalText node flags"
    and "has_flag flags getLiteralTextFlagsNeverAsciiEscape" and "\<not> has_flag flags getLiteralTextFlagsJsxAttributeEscape"
  shows "\<exists>t s'. getLiteralText node sourceFile flags = Inr t \<and>
    Scan (SetText (t @ beyond) (defaultScanner numberText)) = Inr (KindStringLiteral, s') \<and>
    sc_tokenValue s' = ll_Text node \<and> sc_pos s' = length t \<and> sc_errors s' = []"
proof -
  define q where "q = (if has_flag (ll_TokenFlags node) TokenFlagsSingleQuote then QuoteCharSingleQuote else QuoteCharDoubleQuote)"
  have keeps: "keeps_text q flags" using assms(3,4) by (simp add: keeps_text_def q_def)
  have "EncodeRune q = [char_of q]" using keeps_quote [OF keeps] by (auto simp: EncodeRune_ascii)
  then have t: "string_literal_text node flags = char_of q # escaped q flags (ll_Text node) @ [char_of q]" (is "_ = ?t")
    by (simp add: string_literal_text_def q_def escapeStringWorker_escaped)
  have get: "getLiteralText node sourceFile flags = Inr ?t"
    using assms(1,2) t by (auto simp: getLiteralText_def canonical_text_def split: option.splits)
  have "wp Scan (\<lambda>k s'. k = KindStringLiteral \<and> sc_tokenValue s' = ll_Text node \<and>
      sc_pos s' = length (escaped q flags (ll_Text node)) + 2 \<and> sc_errors s' = [])
    (SetText (?t @ beyond) (defaultScanner numberText))"
    using scan_string_token [OF keeps, of "SetText (?t @ beyond) (defaultScanner numberText)" "ll_Text node" beyond]
    by (simp add: fresh_scanner ahead_def)
  then show ?thesis using get by (elim wpE) auto
qed

theorem string_literal_round_trip_witness:
  "\<exists>t s'. getLiteralText \<lparr>ll_Kind = KindStringLiteral, ll_Loc = UndefinedTextRange, ll_hasParent = True,
      ll_Text = [CHR 0x00, CHR ''7'', quote_mark, LF, CHR 0xC3], ll_RawText = [], ll_TokenFlags = 0\<rparr>
      (Some ''x'') getLiteralTextFlagsNeverAsciiEscape = Inr t \<and>
    Scan (SetText (t @ '';'') (defaultScanner id)) = Inr (KindStringLiteral, s') \<and>
    sc_tokenValue s' = [CHR 0x00, CHR ''7'', quote_mark, LF, CHR 0xC3] \<and> sc_pos s' = length t \<and> sc_errors s' = []"
proof -
  have flags: "has_flag getLiteralTextFlagsNeverAsciiEscape getLiteralTextFlagsNeverAsciiEscape"
    "\<not> has_flag getLiteralTextFlagsNeverAsciiEscape getLiteralTextFlagsJsxAttributeEscape"
    by code_simp+
  show ?thesis
    using string_literal_round_trip [where node = "\<lparr>ll_Kind = KindStringLiteral, ll_Loc = UndefinedTextRange,
      ll_hasParent = True, ll_Text = [CHR 0x00, CHR ''7'', quote_mark, LF, CHR 0xC3], ll_RawText = [],
      ll_TokenFlags = 0\<rparr>" and flags = getLiteralTextFlagsNeverAsciiEscape and sourceFile = "Some ''x''", OF _ _ flags]
    by (simp add: canUseOriginalText_def NodeIsSynthesized_def PositionIsSynthesized_def UndefinedTextRange_def)
qed

text \<open>
  Where non-ASCII text is escaped this fails: a rune beyond 16 bits is written as a pair of surrogates, and the
  scanner reads every surrogate as the replacement character.
\<close>

lemma surrogates_lost: "55296 \<le> n \<Longrightarrow> n \<le> 57343 \<Longrightarrow> escapes (encodeUtf16EscapeSequence n) (EncodeRune RuneError) beyond"
  using unicode_escapes [of n beyond] by (simp add: EncodeRune_def encode_bytes_def valid_rune_def)

end
