(* ===== verification/Printer_Writer.thy ===== *)
theory Printer_Writer
  imports Core_Text Ls_Converters
begin

text \<open>
  The writers the printer sends its text to: \<open>internal/printer/textwriter.go\<close>, which indents lines and keeps
  count of them, and \<open>internal/printer/singlelinestringwriter.go\<close>, which puts everything on one line. The builder
  is the text written so far; the fields of the text writer are those of the code, with a prefix.
\<close>

section \<open>The text writer\<close>

record textWriter =
  tw_newLine :: string
  tw_builder :: string
  tw_lastWritten :: string
  tw_indent :: int
  tw_lineStart :: bool
  tw_lineCount :: nat
  tw_linePos :: nat
  tw_hasTrailingCommentState :: bool

definition tw_Clear :: "textWriter \<Rightarrow> textWriter" where
  "tw_Clear w =
     \<lparr>tw_newLine = tw_newLine w, tw_builder = [], tw_lastWritten = [], tw_indent = 0, tw_lineStart = True,
      tw_lineCount = 0, tw_linePos = 0, tw_hasTrailingCommentState = False\<rparr>"

definition NewTextWriter :: "string \<Rightarrow> textWriter" where
  "NewTextWriter newLine =
     tw_Clear
       \<lparr>tw_newLine = newLine, tw_builder = [], tw_lastWritten = [], tw_indent = 0, tw_lineStart = False,
        tw_lineCount = 0, tw_linePos = 0, tw_hasTrailingCommentState = False\<rparr>"

definition tw_DecreaseIndent :: "textWriter \<Rightarrow> textWriter" where
  "tw_DecreaseIndent w = w\<lparr>tw_indent := tw_indent w - 1\<rparr>"

definition tw_IncreaseIndent :: "textWriter \<Rightarrow> textWriter" where
  "tw_IncreaseIndent w = w\<lparr>tw_indent := tw_indent w + 1\<rparr>"

definition tw_GetTextPos :: "textWriter \<Rightarrow> nat" where
  "tw_GetTextPos w = length (tw_builder w)"

definition tw_GetColumn :: "textWriter \<Rightarrow> int" where
  "tw_GetColumn w = (if tw_lineStart w then tw_indent w * 4 else int (length (tw_builder w)) - int (tw_linePos w))"

definition has_trailing_whitespace :: "string \<Rightarrow> string \<Rightarrow> bool" where
  "has_trailing_whitespace builder lastWritten =
     (if builder = [] then False
      else
        (case DecodeLastRuneInString lastWritten of (ch, width) \<Rightarrow>
           if ch = RuneError then False else IsWhiteSpaceLike ch))"

definition tw_HasTrailingWhitespace :: "textWriter \<Rightarrow> bool" where
  "tw_HasTrailingWhitespace w = has_trailing_whitespace (tw_builder w) (tw_lastWritten w)"

definition updateLineCountAndPosFor :: "string \<Rightarrow> textWriter \<Rightarrow> textWriter" where
  "updateLineCountAndPosFor s w =
     (let count = length (ComputeLineStarts s);
          lastLineStart = last (ComputeLineStarts s)
      in if count > 1 then
           (let curLen = length (tw_builder w);
                linePos = curLen - length s + lastLineStart
            in w\<lparr>tw_lineCount := tw_lineCount w + (count - 1), tw_linePos := linePos, tw_lineStart := (linePos = curLen)\<rparr>)
         else w\<lparr>tw_lineStart := False\<rparr>)"

definition tw_RawWrite :: "string \<Rightarrow> textWriter \<Rightarrow> textWriter" where
  "tw_RawWrite s w =
     (if s \<noteq> [] then
        (updateLineCountAndPosFor s (w\<lparr>tw_builder := tw_builder w @ s, tw_lastWritten := s\<rparr>))
          \<lparr>tw_hasTrailingCommentState := False\<rparr>
      else w)"

text \<open>\<open>strings.Repeat\<close> panics on a negative count.\<close>

definition getIndentString :: "int \<Rightarrow> string go" where
  "getIndentString indent =
     (if indent < 0 then Inl (Panicked ''strings: negative Repeat count'')
      else Inr (concat (replicate (nat indent) ''    '')))"

definition tw_writeText :: "string \<Rightarrow> textWriter \<Rightarrow> textWriter go" where
  "tw_writeText s w =
     (if s \<noteq> [] then
        go_bind (if tw_lineStart w
                 then go_bind (getIndentString (tw_indent w)) (\<lambda>indent.
                        Inr (w\<lparr>tw_builder := tw_builder w @ indent, tw_lineStart := False\<rparr>))
                 else Inr w) (\<lambda>w1.
          Inr (updateLineCountAndPosFor s (w1\<lparr>tw_builder := tw_builder w1 @ s, tw_lastWritten := s\<rparr>)))
      else Inr w)"

definition tw_Write :: "string \<Rightarrow> textWriter \<Rightarrow> textWriter go" where
  "tw_Write s w = tw_writeText s (if s \<noteq> [] then w\<lparr>tw_hasTrailingCommentState := False\<rparr> else w)"

definition tw_WriteComment :: "string \<Rightarrow> textWriter \<Rightarrow> textWriter go" where
  "tw_WriteComment s w = tw_writeText s (if s \<noteq> [] then w\<lparr>tw_hasTrailingCommentState := True\<rparr> else w)"

definition tw_WriteKeyword where "tw_WriteKeyword = tw_Write"
definition tw_WriteLiteral where "tw_WriteLiteral = tw_Write"
definition tw_WriteOperator where "tw_WriteOperator = tw_Write"
definition tw_WriteParameter where "tw_WriteParameter = tw_Write"
definition tw_WriteProperty where "tw_WriteProperty = tw_Write"
definition tw_WritePunctuation where "tw_WritePunctuation = tw_Write"
definition tw_WriteSpace where "tw_WriteSpace = tw_Write"
definition tw_WriteStringLiteral where "tw_WriteStringLiteral = tw_Write"
definition tw_WriteSymbol where "tw_WriteSymbol s symbol = tw_Write s"
definition tw_WriteTrailingSemicolon where "tw_WriteTrailingSemicolon = tw_Write"

definition writeLineRaw :: "textWriter \<Rightarrow> textWriter" where
  "writeLineRaw w =
     (let builder = tw_builder w @ tw_newLine w in
      w\<lparr>tw_builder := builder, tw_lastWritten := tw_newLine w, tw_lineCount := tw_lineCount w + 1,
        tw_linePos := length builder, tw_lineStart := True, tw_hasTrailingCommentState := False\<rparr>)"

definition tw_WriteLine :: "textWriter \<Rightarrow> textWriter" where
  "tw_WriteLine w = (if \<not> tw_lineStart w then writeLineRaw w else w)"

definition tw_WriteLineForce :: "bool \<Rightarrow> textWriter \<Rightarrow> textWriter" where
  "tw_WriteLineForce force w = (if \<not> tw_lineStart w \<or> force then writeLineRaw w else w)"

section \<open>The single-line writer\<close>

record singleLineStringWriter =
  sl_builder :: string
  sl_lastWritten :: string

definition sl_Clear :: "singleLineStringWriter \<Rightarrow> singleLineStringWriter" where
  "sl_Clear w = w\<lparr>sl_lastWritten := [], sl_builder := []\<rparr>"

definition sl_Write :: "string \<Rightarrow> singleLineStringWriter \<Rightarrow> singleLineStringWriter" where
  "sl_Write s w = w\<lparr>sl_lastWritten := s, sl_builder := sl_builder w @ s\<rparr>"

definition sl_WriteLine :: "singleLineStringWriter \<Rightarrow> singleLineStringWriter" where
  "sl_WriteLine w = w\<lparr>sl_lastWritten := '' '', sl_builder := sl_builder w @ '' ''\<rparr>"

definition sl_WriteLineForce :: "bool \<Rightarrow> singleLineStringWriter \<Rightarrow> singleLineStringWriter" where
  "sl_WriteLineForce force w = w\<lparr>sl_lastWritten := '' '', sl_builder := sl_builder w @ '' ''\<rparr>"

definition sl_GetTextPos :: "singleLineStringWriter \<Rightarrow> nat" where
  "sl_GetTextPos w = length (sl_builder w)"

definition sl_HasTrailingWhitespace :: "singleLineStringWriter \<Rightarrow> bool" where
  "sl_HasTrailingWhitespace w = has_trailing_whitespace (sl_builder w) (sl_lastWritten w)"

section \<open>Calls\<close>

text \<open>A call of one of the methods that change the writer; the ten kinds of text are written alike.\<close>

datatype writer_call =
  CallWrite string | CallRawWrite string | CallComment string | CallLine | CallLineForce bool
| CallIncreaseIndent | CallDecreaseIndent | CallClear

fun tw_call :: "writer_call \<Rightarrow> textWriter \<Rightarrow> textWriter go" where
  "tw_call (CallWrite s) w = tw_Write s w"
| "tw_call (CallRawWrite s) w = Inr (tw_RawWrite s w)"
| "tw_call (CallComment s) w = tw_WriteComment s w"
| "tw_call CallLine w = Inr (tw_WriteLine w)"
| "tw_call (CallLineForce force) w = Inr (tw_WriteLineForce force w)"
| "tw_call CallIncreaseIndent w = Inr (tw_IncreaseIndent w)"
| "tw_call CallDecreaseIndent w = Inr (tw_DecreaseIndent w)"
| "tw_call CallClear w = Inr (tw_Clear w)"

fun sl_call :: "writer_call \<Rightarrow> singleLineStringWriter \<Rightarrow> singleLineStringWriter go" where
  "sl_call (CallWrite s) w = Inr (sl_Write s w)"
| "sl_call (CallRawWrite s) w = Inr (sl_Write s w)"
| "sl_call (CallComment s) w = Inr (sl_Write s w)"
| "sl_call CallLine w = Inr (sl_WriteLine w)"
| "sl_call (CallLineForce force) w = Inr (sl_WriteLineForce force w)"
| "sl_call CallIncreaseIndent w = Inr w"
| "sl_call CallDecreaseIndent w = Inr w"
| "sl_call CallClear w = Inr (sl_Clear w)"

fun call_text :: "writer_call \<Rightarrow> string" where
  "call_text (CallWrite s) = s"
| "call_text (CallRawWrite s) = s"
| "call_text (CallComment s) = s"
| "call_text _ = []"

section \<open>The lines of two texts put together\<close>

text \<open>A carriage return at the end of one text and a line feed at the start of the next make one line break.\<close>

definition split_break :: "string \<Rightarrow> string \<Rightarrow> bool" where
  "split_break a b = (a \<noteq> [] \<and> last a = CR \<and> b \<noteq> [] \<and> hd b = LF)"

lemma scan_step_shift: "p < length b \<Longrightarrow> scan_step (a @ b) (length a + p) = scan_step b p"
proof -
  have "(a @ b) ! (length a + p) = b ! p" "(a @ b) ! (length a + p + 1) = b ! (p + 1)"
    "drop (length a + p) (a @ b) = drop p b" "length a + p + 1 < length (a @ b) \<longleftrightarrow> p + 1 < length b"
    by (simp_all add: nth_append)
  then show ?thesis by (simp only: scan_step_def)
qed

lemma line_starts_shift:
  "p \<le> length b \<Longrightarrow> line_starts_loop (a @ b) (length a + p) x = x # map ((+) (length a)) (tl (line_starts_loop b p y))"
proof (induction arbitrary: x y rule: line_starts_induct)
  case (finish p)
  then show ?case by (simp add: line_starts_loop_end)
next
  case (step p)
  obtain w brk where sc: "scan_step b p = (w, brk)" by force
  then have next_start: "line_starts_loop b (p + w) (p + w) = (p + w) # tl (line_starts_loop b (p + w) (p + w))"
    using line_starts_loop_sorted [of "p + w" b "p + w"] scan_step_width [OF step.hyps] by (cases "line_starts_loop b (p + w) (p + w)") auto
  have "scan_step (a @ b) (length a + p) = (w, brk)" using step.hyps sc by (simp add: scan_step_shift)
  then show ?case
    using step.hyps sc step.IH [of _ "p + w"] step.IH [of x y] next_start
    by (cases brk) (simp_all add: line_starts_loop_step add.assoc flip: list.map(2))
qed

lemma valid_step:
  assumes "valid_utf8 (drop pos a)" and "pos < length a"
  shows "valid_utf8 (drop (pos + fst (scan_step a pos)) a)"
    and "\<not> split_break a b \<or> pos + 1 < length a \<Longrightarrow> scan_step (a @ b) pos = scan_step a pos"
    and "a \<noteq> [] \<Longrightarrow> last a = CR \<Longrightarrow> pos + 1 < length a \<Longrightarrow> pos + fst (scan_step a pos) < length a"
proof -
  obtain r n where d: "DecodeRuneInString (drop pos a) = (r, n)" "(r, n) \<noteq> (RuneError, 1)" "valid_utf8 (drop n (drop pos a))"
    using assms by (auto elim: valid_utf8E)
  have ascii: "of_char (a ! pos) < (128::nat) \<Longrightarrow> n = 1"
    using d(1) decode_ascii [of "a ! pos" "drop (Suc pos) a"] assms(2) by (simp add: Cons_nth_drop_Suc)
  have two: "valid_utf8 (drop (pos + 2) a)" if "pos + 1 < length a" "a ! (pos + 1) = LF"
    using valid_utf8_drop [OF assms(1), of 1] that by (simp add: add.commute)
  show "valid_utf8 (drop (pos + fst (scan_step a pos)) a)"
    using d ascii two by (auto simp: scan_step_def Let_def add.commute)
  have "DecodeRuneInString (drop pos (a @ b)) = (r, n)"
    using decode_append [of "drop pos a" b] d assms(2) by simp
  moreover have "last a = a ! pos" if "\<not> pos + 1 < length a"
    using that assms(2) by (subst last_conv_nth) (auto simp: not_less le_Suc_eq)
  ultimately show "scan_step (a @ b) pos = scan_step a pos" if "\<not> split_break a b \<or> pos + 1 < length a"
    using that d assms(2)
    by (cases "pos + 1 < length a"; cases b) (auto simp: scan_step_def Let_def nth_append split_break_def less_Suc_eq)
  show "pos + fst (scan_step a pos) < length a" if cr: "a \<noteq> []" "last a = CR" "pos + 1 < length a"
  proof (rule ccontr)
    assume "\<not> pos + fst (scan_step a pos) < length a"
    then have e: "pos + fst (scan_step a pos) = length a" using scan_step_width [OF assms(2)] by simp
    have l: "a ! (length a - 1) = CR" using cr by (simp add: last_conv_nth)
    show False
    proof (cases "of_char (a ! pos) < (128::nat)")
      case True
      moreover have "a ! Suc pos = CR" if "Suc (Suc pos) = length a" using l by (simp flip: that)
      ultimately show False using e cr(3) by (auto simp: scan_step_def Let_def split: if_splits)
    next
      case False
      with e d(1) have n: "pos + n = length a" by (simp add: scan_step_def)
      with cr(3) d(1) have "(128::nat) \<le> of_char (drop pos a ! (n - 1))" by (intro decode_cont) simp_all
      moreover have "drop pos a ! (n - 1) = a ! (length a - 1)" using n cr(3) by simp
      ultimately show False using l by simp
    qed
  qed
qed

lemma line_starts_loop_Nil [simp]: "line_starts_loop a pos x \<noteq> []" if "pos \<le> length a" "x \<le> pos" for pos x
  using line_starts_loop_sorted [OF that] by simp

lemma line_starts_append_loop:
  assumes "pos \<le> length a" and "x \<le> pos" and "valid_utf8 (drop pos a)" and "\<not> split_break a b"
  shows "line_starts_loop (a @ b) pos x =
    butlast (line_starts_loop a pos x) @ line_starts_loop (a @ b) (length a) (last (line_starts_loop a pos x))"
  using assms
proof (induction arbitrary: x rule: line_starts_induct)
  case (finish pos)
  then show ?case by (simp add: line_starts_loop_end)
next
  case (step pos)
  obtain w brk where sc: "scan_step a pos = (w, brk)" by force
  note v = valid_step(1,2) [OF step.prems(2) step.hyps, unfolded sc, simplified]
  have "pos + w \<le> length a" using scan_step_width [OF step.hyps] sc by simp
  with v step sc show ?case
    by (cases brk) (simp_all add: line_starts_loop_step)
qed

lemma line_starts_split_loop:
  assumes "pos \<le> length a" and "x \<le> pos" and "valid_utf8 (drop pos a)" and "split_break a b" and "pos < length a"
  shows "line_starts_loop (a @ b) pos x =
    butlast (line_starts_loop a pos x) @ line_starts_loop (a @ b) (length a + 1) (length a + 1)"
  using assms
proof (induction arbitrary: x rule: line_starts_induct)
  case (step pos)
  have cr: "a \<noteq> []" "last a = CR" "b \<noteq> []" "hd b = LF" using step.prems(3) by (auto simp: split_break_def)
  show ?case
  proof (cases "pos + 1 < length a")
    case True
    obtain w brk where sc: "scan_step a pos = (w, brk)" by force
    note v = valid_step [OF step.prems(2) step.hyps, unfolded sc, simplified]
    have "pos + w < length a" using v(3) cr True by simp
    with v(1,2) True step sc show ?thesis
      by (cases brk) (simp_all add: line_starts_loop_step [of pos])
  next
    case False
    with step.hyps have pos: "length a = pos + 1" by simp
    then have here: "a ! pos = CR" using cr(1,2) by (simp add: last_conv_nth)
    have "scan_step a pos = (1, True)" using pos here by (simp add: scan_step_def)
    moreover have "scan_step (a @ b) pos = (2, True)"
      using pos here cr(3,4) by (cases b) (simp_all add: scan_step_def nth_append)
    ultimately show ?thesis
      using pos step.hyps cr(3) by (simp add: line_starts_loop_step line_starts_loop_end)
  qed
qed simp

lemma ComputeLineStarts_append:
  assumes "valid_utf8 a"
  shows "ComputeLineStarts (a @ b) =
    (if split_break a b then butlast (ComputeLineStarts a) else ComputeLineStarts a) @
      map ((+) (length a)) (tl (ComputeLineStarts b))"
proof (cases "split_break a b")
  case False
  have "line_starts_loop (a @ b) (length a) x = x # map ((+) (length a)) (tl (ComputeLineStarts b))" for x
    using line_starts_shift [of 0 b a x 0] by (simp add: ComputeLineStarts_def)
  then show ?thesis
    using line_starts_append_loop [of 0 a 0 b] False assms by (simp add: ComputeLineStarts_def)
next
  case True
  then obtain b' where b: "b = LF # b'" and a: "a \<noteq> []" by (cases b) (auto simp: split_break_def)
  let ?tl = "line_starts_loop b 1 1"
  have "ComputeLineStarts b = 0 # ?tl"
    by (simp add: ComputeLineStarts_def b line_starts_loop_step [of 0] scan_step_def)
  moreover have "?tl = 1 # tl ?tl" using line_starts_loop_sorted [of 1 b 1] b by (cases ?tl) auto
  moreover have "line_starts_loop (a @ b) (length a + 1) (length a + 1) = (length a + 1) # map ((+) (length a)) (tl ?tl)"
    using line_starts_shift [of 1 b a "length a + 1" 1] b by simp
  ultimately have "line_starts_loop (a @ b) (length a + 1) (length a + 1) = map ((+) (length a)) (tl (ComputeLineStarts b))"
    by (metis list.sel(3) list.simps(9))
  then show ?thesis
    using line_starts_split_loop [of 0 a 0 b] True assms a by (simp add: ComputeLineStarts_def)
qed

lemma valid_utf8_append: "valid_utf8 a \<Longrightarrow> valid_utf8 b \<Longrightarrow> valid_utf8 (a @ b)"
proof (induction rule: valid_utf8.induct)
  case (valid_rune s r n)
  have d: "DecodeRuneInString (s @ b) = (r, n)" using decode_append [of s b] valid_rune.hyps by simp
  have "n \<le> length s" using decode_width(2) [OF valid_rune.hyps(1)] valid_rune.hyps(2) by simp
  then show ?case
    using valid_rune valid_utf8.valid_rune [OF _ d] by simp
qed simp

lemma valid_utf8_ascii: "\<forall>c \<in> set s. of_char c < (128::nat) \<Longrightarrow> valid_utf8 s"
proof (induction s)
  case (Cons c s)
  have "DecodeRuneInString (c # s) = (of_char c, 1)" using Cons.prems by (simp add: decode_ascii)
  then show ?case by (rule valid_utf8.valid_rune [rotated]) (use Cons in auto)
qed (rule valid_empty)

lemma line_starts_no_break:
  assumes "\<forall>c \<in> set s. c = CHR '' ''"
  shows "ComputeLineStarts s = [0]"
proof -
  have "pos \<le> length s \<Longrightarrow> line_starts_loop s pos 0 = [0]" for pos
  proof (induction rule: line_starts_induct)
    case (step pos)
    then have "s ! pos = CHR '' ''" using assms by simp
    then have "scan_step s pos = (1, False)" by (simp add: scan_step_def)
    with step show ?case by (simp add: line_starts_loop_step)
  qed (simp add: line_starts_loop_end)
  then show ?thesis by (simp add: ComputeLineStarts_def)
qed

lemma line_starts_first: "ComputeLineStarts s = 0 # tl (ComputeLineStarts s)"
  using ComputeLineStarts_sorted [of s] by (cases "ComputeLineStarts s") auto

lemma line_starts_after_break: "b \<noteq> [] \<Longrightarrow> hd b = LF \<Longrightarrow> tl (ComputeLineStarts b) \<noteq> []"
  by (cases b) (simp_all add: ComputeLineStarts_def line_starts_loop_step [of 0] scan_step_def)

lemma last_line_start: "last (ComputeLineStarts s) \<le> length s"
  using ComputeLineStarts_sorted [of s] last_in_set [of "ComputeLineStarts s"] by blast

lemma line_starts_appended:
  assumes "valid_utf8 a"
  shows "tl (ComputeLineStarts b) \<noteq> [] \<Longrightarrow> last (ComputeLineStarts (a @ b)) = length a + last (ComputeLineStarts b)"
    and "tl (ComputeLineStarts b) = [] \<Longrightarrow> ComputeLineStarts (a @ b) = ComputeLineStarts a"
    and "length (ComputeLineStarts (a @ b)) \<le> length (ComputeLineStarts a) + length (tl (ComputeLineStarts b))"
    and "\<not> split_break a b \<Longrightarrow>
      length (ComputeLineStarts (a @ b)) = length (ComputeLineStarts a) + length (tl (ComputeLineStarts b))"
proof -
  show "last (ComputeLineStarts (a @ b)) = length a + last (ComputeLineStarts b)" if "tl (ComputeLineStarts b) \<noteq> []"
    using that line_starts_first [of b] by (simp add: ComputeLineStarts_append [OF assms] last_map last_tl)
  show "ComputeLineStarts (a @ b) = ComputeLineStarts a" if "tl (ComputeLineStarts b) = []"
    using that line_starts_after_break [of b] by (auto simp: ComputeLineStarts_append [OF assms] split_break_def)
qed (simp_all add: ComputeLineStarts_append [OF assms])

section \<open>The position in the text\<close>

text \<open>
  The writer is in step with its text: the line position is the start of the text's last line, it is at the start
  of a line when nothing has been written to that line, and it has counted at least the lines there are. The
  count is exact when no break is split between two texts; it is enough that no text ends in a carriage return.
\<close>

definition in_step :: "textWriter \<Rightarrow> bool" where
  "in_step w =
     (valid_utf8 (tw_builder w) \<and> tw_linePos w = last (ComputeLineStarts (tw_builder w)) \<and>
      (tw_lineStart w \<longleftrightarrow> tw_linePos w = length (tw_builder w)) \<and>
      length (ComputeLineStarts (tw_builder w)) \<le> tw_lineCount w + 1)"

definition exact :: "textWriter \<Rightarrow> bool" where
  "exact w =
     ((tw_builder w = [] \<or> last (tw_builder w) \<noteq> CR) \<and>
      length (ComputeLineStarts (tw_builder w)) = tw_lineCount w + 1)"

lemma update_in_step:
  assumes "valid_utf8 a" and "valid_utf8 s" and "s \<noteq> []" and "tw_builder w = a @ s"
    and "tw_linePos w = last (ComputeLineStarts a)" and "length (ComputeLineStarts a) \<le> tw_lineCount w + 1"
  shows "in_step (updateLineCountAndPosFor s w)"
    and "last s \<noteq> CR \<Longrightarrow> a = [] \<or> last a \<noteq> CR \<Longrightarrow> length (ComputeLineStarts a) = tw_lineCount w + 1 \<Longrightarrow>
      exact (updateLineCountAndPosFor s w)"
proof -
  note app = line_starts_appended [OF assms(1), of s]
  let ?tl = "tl (ComputeLineStarts s)"
  have split: "\<not> split_break a s" if "a = [] \<or> last a \<noteq> CR" using that by (auto simp: split_break_def)
  have len: "length (ComputeLineStarts s) = Suc (length ?tl)"
    using ComputeLineStarts_sorted [of s] by (cases "ComputeLineStarts s") auto
  have valid: "valid_utf8 (a @ s)" using valid_utf8_append [OF assms(1,2)] .
  have "in_step (updateLineCountAndPosFor s w) \<and>
    (last s \<noteq> CR \<and> (a = [] \<or> last a \<noteq> CR) \<and> length (ComputeLineStarts a) = tw_lineCount w + 1 \<longrightarrow>
      exact (updateLineCountAndPosFor s w))"
  proof (cases "?tl = []")
    case True
    have "last (ComputeLineStarts a) < length (a @ s)" using last_line_start [of a] assms(3) by (cases s) auto
    moreover have "updateLineCountAndPosFor s w = w\<lparr>tw_lineStart := False\<rparr>"
      using len True by (simp add: updateLineCountAndPosFor_def)
    ultimately show ?thesis
      using valid assms(3-6) app(2) [OF True] by (simp add: in_step_def exact_def)
  next
    case False
    then have more: "1 < length (ComputeLineStarts s)" by (metis len One_nat_def Suc_less_eq length_greater_0_conv)
    have "updateLineCountAndPosFor s w =
        w\<lparr>tw_lineCount := tw_lineCount w + length ?tl, tw_linePos := length a + last (ComputeLineStarts s),
          tw_lineStart := (last (ComputeLineStarts s) = length s)\<rparr>"
      using more assms(4) by (simp add: updateLineCountAndPosFor_def Let_def)
    then show ?thesis
      using valid assms(3-6) app(1) [OF False] app(3) app(4) [OF split] by (simp add: in_step_def exact_def)
  qed
  then show "in_step (updateLineCountAndPosFor s w)"
    and "last s \<noteq> CR \<Longrightarrow> a = [] \<or> last a \<noteq> CR \<Longrightarrow> length (ComputeLineStarts a) = tw_lineCount w + 1 \<Longrightarrow>
      exact (updateLineCountAndPosFor s w)" by blast+
qed

definition line_breaking :: "textWriter \<Rightarrow> bool" where
  "line_breaking w = (tw_newLine w \<in> {[LF], [CR, LF]})"

definition clean :: "string \<Rightarrow> bool" where
  "clean s = (s = [] \<or> last s \<noteq> CR)"

text \<open>What every call keeps.\<close>

definition kept_in_step :: "bool \<Rightarrow> textWriter \<Rightarrow> textWriter \<Rightarrow> bool" where
  "kept_in_step clean_text w w' =
     (line_breaking w \<and> in_step w \<longrightarrow> line_breaking w' \<and> in_step w' \<and> (clean_text \<and> exact w \<longrightarrow> exact w'))"

lemma kept_in_step_unchanged:
  "tw_newLine w' = tw_newLine w \<Longrightarrow> tw_builder w' = tw_builder w \<Longrightarrow> tw_linePos w' = tw_linePos w \<Longrightarrow>
   tw_lineStart w' = tw_lineStart w \<Longrightarrow> tw_lineCount w' = tw_lineCount w \<Longrightarrow> kept_in_step b w w'"
  by (simp add: kept_in_step_def line_breaking_def in_step_def exact_def)

lemma newLine_starts: "ComputeLineStarts [LF] = [0, 1]" "ComputeLineStarts [CR, LF] = [0, 2]"
  by (simp_all add: ComputeLineStarts_def line_starts_loop_step scan_step_def line_starts_loop_end)

lemma writeLineRaw_in_step: "kept_in_step b w (writeLineRaw w)"
proof -
  let ?a = "tw_builder w" and ?n = "tw_newLine w"
  have "line_breaking (writeLineRaw w) \<and> in_step (writeLineRaw w) \<and> (exact w \<longrightarrow> exact (writeLineRaw w))"
    if "line_breaking w" "in_step w"
  proof -
    have valid: "valid_utf8 ?a" "valid_utf8 ?n"
      by (use that(2) in \<open>simp add: in_step_def\<close>, rule valid_utf8_ascii, use that(1) in \<open>auto simp: line_breaking_def\<close>)
    have n: "length (tl (ComputeLineStarts ?n)) = 1" "last (ComputeLineStarts ?n) = length ?n" "last ?n \<noteq> CR" "?n \<noteq> []"
      using that(1) newLine_starts by (auto simp: line_breaking_def)
    have "tl (ComputeLineStarts ?n) \<noteq> []" using that(1) newLine_starts by (auto simp: line_breaking_def)
    note app = line_starts_appended [OF valid(1), of ?n] line_starts_appended(1) [OF valid(1) this]
    have "\<not> split_break ?a ?n" if "?a = [] \<or> last ?a \<noteq> CR" using that by (auto simp: split_break_def)
    with app n that valid_utf8_append [OF valid] show ?thesis
      by (auto simp: writeLineRaw_def Let_def line_breaking_def in_step_def exact_def)
  qed
  then show ?thesis by (simp add: kept_in_step_def)
qed

lemma RawWrite_in_step:
  assumes "valid_utf8 s"
  shows "kept_in_step (clean s) w (tw_RawWrite s w)"
proof (cases "s = []")
  case False
  let ?w = "w\<lparr>tw_builder := tw_builder w @ s, tw_lastWritten := s\<rparr>"
  have same: "tw_newLine (updateLineCountAndPosFor s v) = tw_newLine v" for v
    by (simp add: updateLineCountAndPosFor_def Let_def)
  have "in_step (updateLineCountAndPosFor s ?w) \<and> (clean s \<and> exact w \<longrightarrow> exact (updateLineCountAndPosFor s ?w))"
    if "in_step w"
    using that False assms update_in_step [of "tw_builder w" s ?w] by (auto simp: in_step_def exact_def clean_def)
  with False show ?thesis
    by (simp add: tw_RawWrite_def kept_in_step_def line_breaking_def same) (simp add: in_step_def exact_def)
qed (simp add: tw_RawWrite_def kept_in_step_unchanged)

lemma writeText_in_step:
  assumes "valid_utf8 s" and "tw_writeText s w = Inr w'"
  shows "kept_in_step (clean s) w w'"
proof (cases "s = []")
  case False
  then obtain w1 where w1: "(if tw_lineStart w
                 then go_bind (getIndentString (tw_indent w)) (\<lambda>indent.
                        Inr (w\<lparr>tw_builder := tw_builder w @ indent, tw_lineStart := False\<rparr>))
                 else Inr w) = Inr w1"
      and w': "w' = updateLineCountAndPosFor s (w1\<lparr>tw_builder := tw_builder w1 @ s, tw_lastWritten := s\<rparr>)"
    using assms(2) by (auto simp: tw_writeText_def elim!: go_bind_InrD)
  obtain spaces where sp: "tw_builder w1 = tw_builder w @ spaces" "\<forall>c \<in> set spaces. c = CHR '' ''"
      and same: "tw_linePos w1 = tw_linePos w" "tw_lineCount w1 = tw_lineCount w" "tw_newLine w1 = tw_newLine w"
    using w1 that [of "[]"] that [of "concat (replicate (nat (tw_indent w)) ''    '')"]
    by (auto simp: getIndentString_def split: if_splits)
  have "line_breaking w' = line_breaking w"
    by (simp add: w' line_breaking_def updateLineCountAndPosFor_def Let_def same)
  moreover have "in_step w' \<and> (clean s \<and> exact w \<longrightarrow> exact w')" if "in_step w"
  proof -
    have "tl (ComputeLineStarts spaces) = []" using line_starts_no_break [OF sp(2)] by simp
    then have ls: "ComputeLineStarts (tw_builder w1) = ComputeLineStarts (tw_builder w)"
      unfolding sp(1) using that by (intro line_starts_appended(2)) (simp_all add: in_step_def)
    have "valid_utf8 spaces" by (intro valid_utf8_ascii ballI) (drule bspec [OF sp(2)], simp)
    with that have valid: "valid_utf8 (tw_builder w1)" unfolding sp(1) by (intro valid_utf8_append) (simp_all add: in_step_def)
    have ends: "tw_builder w1 = [] \<or> last (tw_builder w1) \<noteq> CR" if "exact w"
    proof (cases "spaces = []")
      case True
      with that sp(1) show ?thesis by (simp add: exact_def)
    next
      case False
      with sp(2) have "last spaces = CHR '' ''" using last_in_set by blast
      with False sp(1) show ?thesis by simp
    qed
    let ?v = "w1\<lparr>tw_builder := tw_builder w1 @ s, tw_lastWritten := s\<rparr>"
    have "in_step w'"
      unfolding w' using that same
      by (intro update_in_step(1) [OF valid assms(1) False]) (simp_all add: ls in_step_def)
    moreover have "exact w'" if "clean s" "exact w"
      unfolding w' using that \<open>in_step w\<close> same False ends
      by (intro update_in_step(2) [OF valid assms(1) False]) (simp_all add: ls in_step_def exact_def clean_def)
    ultimately show ?thesis by blast
  qed
  ultimately show ?thesis by (simp add: kept_in_step_def)
qed (use assms in \<open>simp add: tw_writeText_def kept_in_step_unchanged\<close>)

lemma kept_in_step_trans: "kept_in_step b w w1 \<Longrightarrow> kept_in_step b w1 w2 \<Longrightarrow> kept_in_step b w w2"
  by (auto simp: kept_in_step_def)

lemma call_in_step:
  assumes "valid_utf8 (call_text c)" and "tw_call c w = Inr w'"
  shows "kept_in_step (clean (call_text c)) w w'"
proof (cases c)
  case (CallWrite s)
  let ?w = "if s \<noteq> [] then w\<lparr>tw_hasTrailingCommentState := False\<rparr> else w"
  have "kept_in_step (clean s) w ?w" by (rule kept_in_step_unchanged) auto
  moreover have "kept_in_step (clean s) ?w w'"
    using assms CallWrite by (intro writeText_in_step) (simp_all only: tw_call.simps tw_Write_def call_text.simps)
  ultimately show ?thesis unfolding CallWrite call_text.simps by (rule kept_in_step_trans)
next
  case (CallComment s)
  let ?w = "if s \<noteq> [] then w\<lparr>tw_hasTrailingCommentState := True\<rparr> else w"
  have "kept_in_step (clean s) w ?w" by (rule kept_in_step_unchanged) auto
  moreover have "kept_in_step (clean s) ?w w'"
    using assms CallComment by (intro writeText_in_step) (simp_all only: tw_call.simps tw_WriteComment_def call_text.simps)
  ultimately show ?thesis unfolding CallComment call_text.simps by (rule kept_in_step_trans)
next
  case (CallRawWrite s)
  with assms RawWrite_in_step [of s w] show ?thesis by simp
next
  case CallLine
  with assms show ?thesis by (auto simp: tw_WriteLine_def writeLineRaw_in_step kept_in_step_unchanged)
next
  case (CallLineForce f)
  with assms show ?thesis by (auto simp: tw_WriteLineForce_def writeLineRaw_in_step kept_in_step_unchanged)
next
  case CallIncreaseIndent
  with assms show ?thesis by (auto simp: tw_IncreaseIndent_def kept_in_step_unchanged)
next
  case CallDecreaseIndent
  with assms show ?thesis by (auto simp: tw_DecreaseIndent_def kept_in_step_unchanged)
next
  case CallClear
  have "ComputeLineStarts [] = [0]" by (simp add: ComputeLineStarts_def line_starts_loop_end)
  with CallClear assms show ?thesis
    by (auto simp: tw_Clear_def kept_in_step_def line_breaking_def in_step_def exact_def valid_empty)
qed

section \<open>The writers as one interface\<close>

fun run_calls :: "(writer_call \<Rightarrow> 'w \<Rightarrow> 'w go) \<Rightarrow> writer_call list \<Rightarrow> 'w \<Rightarrow> 'w go" where
  "run_calls call [] w = Inr w"
| "run_calls call (c # cs) w = go_bind (call c w) (run_calls call cs)"

text \<open>What the printer relies on: a call other than \<open>Clear\<close> adds to the text, and its own text comes last.\<close>

locale text_writer =
  fixes call :: "writer_call \<Rightarrow> 'w \<Rightarrow> 'w go" and written :: "'w \<Rightarrow> string"
  assumes call_adds: "call c w = Inr w' \<Longrightarrow> c \<noteq> CallClear \<Longrightarrow> \<exists>p. written w' = written w @ p @ call_text c"
begin

lemma calls_add:
  "run_calls call cs w = Inr w' \<Longrightarrow> CallClear \<notin> set cs \<Longrightarrow>
   \<exists>p. written w' = written w @ p \<and> subseq (concat (map call_text cs)) p"
proof (induction cs arbitrary: w)
  case (Cons c cs)
  then obtain w1 where w1: "call c w = Inr w1" "run_calls call cs w1 = Inr w'" by (auto elim: go_bind_InrD)
  obtain p where p: "written w1 = written w @ p @ call_text c" using call_adds [OF w1(1)] Cons.prems(2) by auto
  obtain p' where p': "written w' = written w1 @ p'" "subseq (concat (map call_text cs)) p'"
    using Cons.IH [OF w1(2)] Cons.prems(2) by auto
  have "subseq (call_text c @ concat (map call_text cs)) ((p @ call_text c) @ p')"
    using p'(2) by (intro list_emb_append_mono list_emb_append2 subseq_order.refl)
  with p p'(1) show ?case by auto
qed simp

end

lemma tw_writeText_adds: "tw_writeText s w = Inr w' \<Longrightarrow> \<exists>p. tw_builder w' = tw_builder w @ p @ s"
  by (auto simp: tw_writeText_def getIndentString_def updateLineCountAndPosFor_def Let_def split: if_splits)

interpretation tw: text_writer tw_call tw_builder
proof (unfold_locales, goal_cases)
  case (1 c w w')
  then show ?case
    by (cases c) (auto simp: tw_Write_def tw_WriteComment_def tw_RawWrite_def tw_WriteLine_def tw_WriteLineForce_def
        writeLineRaw_def Let_def tw_IncreaseIndent_def tw_DecreaseIndent_def updateLineCountAndPosFor_def
        dest!: tw_writeText_adds split: if_splits)
qed

interpretation sl: text_writer sl_call sl_builder
proof (unfold_locales, goal_cases)
  case (1 c w w')
  then show ?case by (cases c) (auto simp: sl_Write_def sl_WriteLine_def sl_WriteLineForce_def)
qed

section \<open>Sequences of calls\<close>

lemma run_calls_in_step:
  assumes "run_calls tw_call cs w = Inr w'" and "\<forall>c \<in> set cs. valid_utf8 (call_text c)"
  shows "kept_in_step (\<forall>c \<in> set cs. clean (call_text c)) w w'"
  using assms
proof (induction cs arbitrary: w)
  case (Cons c cs)
  then obtain w1 where w1: "tw_call c w = Inr w1" "run_calls tw_call cs w1 = Inr w'" by (auto elim: go_bind_InrD)
  have "kept_in_step (clean (call_text c)) w w1" using Cons.prems(2) by (intro call_in_step [OF _ w1(1)]) simp
  moreover have "kept_in_step (\<forall>c \<in> set cs. clean (call_text c)) w1 w'" using Cons.IH [OF w1(2)] Cons.prems(2) by simp
  ultimately show ?case by (auto simp: kept_in_step_def)
qed (simp add: kept_in_step_unchanged)

text \<open>The calls never lower the indentation below none, and then no call panics.\<close>

fun indents :: "int \<Rightarrow> writer_call list \<Rightarrow> bool" where
  "indents n [] = True"
| "indents n (CallIncreaseIndent # cs) = indents (n + 1) cs"
| "indents n (CallDecreaseIndent # cs) = (0 < n \<and> indents (n - 1) cs)"
| "indents n (CallClear # cs) = indents 0 cs"
| "indents n (_ # cs) = indents n cs"

lemma writeText_returns:
  "0 \<le> tw_indent w \<Longrightarrow> \<exists>w'. tw_writeText s w = Inr w' \<and> tw_indent w' = tw_indent w"
  by (auto simp: tw_writeText_def getIndentString_def updateLineCountAndPosFor_def Let_def)

lemma Write_returns:
  assumes "0 \<le> tw_indent w"
  obtains w' where "tw_Write s w = Inr w'" and "tw_indent w' = tw_indent w"
  using assms writeText_returns [of w s] writeText_returns [of "w\<lparr>tw_hasTrailingCommentState := False\<rparr>" s]
  by (cases "s = []") (auto simp: tw_Write_def)

lemma WriteComment_returns:
  assumes "0 \<le> tw_indent w"
  obtains w' where "tw_WriteComment s w = Inr w'" and "tw_indent w' = tw_indent w"
  using assms writeText_returns [of w s] writeText_returns [of "w\<lparr>tw_hasTrailingCommentState := True\<rparr>" s]
  by (cases "s = []") (auto simp: tw_WriteComment_def)

lemma run_calls_returns:
  "indents n cs \<Longrightarrow> n = tw_indent w \<Longrightarrow> 0 \<le> n \<Longrightarrow> \<exists>w'. run_calls tw_call cs w = Inr w'"
proof (induction cs arbitrary: n w)
  case (Cons c cs)
  have later: "\<exists>w'. go_bind m (run_calls tw_call cs) = Inr w'"
    if "m = Inr w1" and "indents (tw_indent w1) cs" and "0 \<le> tw_indent w1" for m w1
    using Cons.IH [OF that(2) refl that(3)] that(1) by simp
  show ?case
  proof (cases c)
    case (CallWrite s)
    obtain w1 where "tw_Write s w = Inr w1" "tw_indent w1 = tw_indent w" using Write_returns Cons.prems by metis
    with CallWrite Cons.prems later show ?thesis by simp
  next
    case (CallComment s)
    obtain w1 where "tw_WriteComment s w = Inr w1" "tw_indent w1 = tw_indent w" using WriteComment_returns Cons.prems by metis
    with CallComment Cons.prems later show ?thesis by simp
  qed (use Cons in \<open>simp_all add: tw_RawWrite_def updateLineCountAndPosFor_def Let_def tw_WriteLine_def
      tw_WriteLineForce_def writeLineRaw_def tw_IncreaseIndent_def tw_DecreaseIndent_def tw_Clear_def\<close>)
qed simp

text \<open>C14. The text writer is in step with what it has written: after any calls that never lower the indentation
  below none, with texts in UTF-8, none has panicked, the line position is the start of the last line of the text,
  the writer is at the start of a line when that line is still empty, the text of every call is there in order, and
  the writer has counted at least the lines of the text, exactly so when no text ends in a carriage return.\<close>

theorem text_writer_in_step:
  assumes "nl \<in> {[LF], [CR, LF]}" and "indents 0 cs" and "\<forall>c \<in> set cs. valid_utf8 (call_text c) \<and> c \<noteq> CallClear"
  shows "\<exists>w. run_calls tw_call cs (NewTextWriter nl) = Inr w \<and>
    tw_linePos w = last (ComputeLineStarts (tw_builder w)) \<and>
    tw_lineStart w = (tw_linePos w = length (tw_builder w)) \<and>
    subseq (concat (map call_text cs)) (tw_builder w) \<and>
    length (ComputeLineStarts (tw_builder w)) \<le> tw_lineCount w + 1 \<and>
    ((\<forall>c \<in> set cs. call_text c = [] \<or> last (call_text c) \<noteq> CR) \<longrightarrow>
      length (ComputeLineStarts (tw_builder w)) = tw_lineCount w + 1)"
proof -
  let ?w = "NewTextWriter nl"
  have "tw_indent ?w = 0" by (simp add: NewTextWriter_def tw_Clear_def)
  then obtain w where w: "run_calls tw_call cs ?w = Inr w" using run_calls_returns [OF assms(2), of ?w] by auto
  have "ComputeLineStarts [] = [0]" by (simp add: ComputeLineStarts_def line_starts_loop_end)
  then have "line_breaking ?w" "in_step ?w" "exact ?w"
    using assms(1) by (auto simp: NewTextWriter_def tw_Clear_def line_breaking_def in_step_def exact_def valid_empty)
  then have "in_step w" "(\<forall>c \<in> set cs. clean (call_text c)) \<Longrightarrow> exact w"
    using run_calls_in_step [OF w] assms(3) by (simp_all add: kept_in_step_def)
  moreover have "tw_builder ?w = []" by (simp add: NewTextWriter_def tw_Clear_def)
  then have "subseq (concat (map call_text cs)) (tw_builder w)" using tw.calls_add [OF w] assms(3) by auto
  ultimately show ?thesis using w by (auto simp: in_step_def exact_def clean_def)
qed

theorem text_writer_in_step_witness:
  "\<exists>w. run_calls tw_call [CallWrite ''if {'', CallIncreaseIndent, CallLine, CallComment ''/*x'', CallDecreaseIndent]
      (NewTextWriter [CR, LF]) = Inr w \<and>
    tw_linePos w = last (ComputeLineStarts (tw_builder w)) \<and>
    length (ComputeLineStarts (tw_builder w)) = tw_lineCount w + 1"
  using text_writer_in_step [where nl = "[CR, LF]" and
      cs = "[CallWrite ''if {'', CallIncreaseIndent, CallLine, CallComment ''/*x'', CallDecreaseIndent]"]
  by (auto simp: valid_utf8_ascii valid_empty)

lemma single_line_keeps_text:
  "run_calls sl_call cs w = Inr w' \<Longrightarrow> CallClear \<notin> set cs \<Longrightarrow>
   \<exists>p. sl_builder w' = sl_builder w @ p \<and> subseq (concat (map call_text cs)) p"
  by (rule sl.calls_add)

end
