(* ===== verification/Spec2Isabelle.thy ===== *)
theory Spec2Isabelle
  imports
    Collections Core_Slices Core_Text Core_Pattern Stringutil
    Tspath_Props Tspath_Ext
    Sourcemap_Roundtrip
    Semver_Range_Text
    Lsp_Framing Ls_Uris Sourcemap_Lines Core_Options
    Module_Cycle
    Scanner_Rescan Scanner_Props
    Printer_Roundtrip Printer_Writer
begin

text \<open>
  A model of the foundations of the TypeScript compiler in Go: the packages under \<open>src/internal\<close> whose
  behaviour is that of functions on texts, paths, tables and small states, and on which the later phases
  (parser, binder, checker, emitter, language server) are built.

  How the parts interact. A program's files are found by \<open>module\<close> (module resolution), which works on the
  paths of \<open>tspath\<close>, matches the patterns of \<open>core\<close> and the version ranges of \<open>semver\<close>, and reads the
  descriptions of \<open>packagejson\<close>. Their texts are cut into tokens by \<open>scanner\<close>, which the parser drives token
  by token and asks to read a token again where the grammar needs it; positions in them become lines by
  \<open>core\<close> and \<open>ls\<close>, and the emitter, which writes through \<open>printer\<close>, records them with \<open>sourcemap\<close>. The
  language server frames its messages with \<open>lsp\<close>, and its URIs are file names again by \<open>ls\<close>.

  Conventions. A Go string is the list of its bytes (an Isabelle \<open>string\<close>). A panic is the left side of a
  sum (\<open>go_panic\<close> in \<open>Prelude\<close>): an index or a slice out of range, an explicit panic, a stack without end, a
  loop without end. An error that the code returns is a value of its result. A \<open>nil\<close> that the code tests for
  is \<open>None\<close>. An integer that can overflow is a word (versions: 32 bits, source map numbers and slice ends: 64
  bits) or carries the bound in the hypotheses of its properties (texts shorter than \<open>2 ^ 31\<close> bytes where
  positions are 32-bit, lengths below \<open>2 ^ 63\<close>); an \<open>int\<close> that serves as an offset into a text is a natural
  number where the code has established that it is not negative. Sets of flags are words. Stateful code is an
  \<open>action\<close> (\<open>Actions\<close>): a function from a state to a panic or a result with the next state; a pointer
  receiver is the state. Code that is not in the repository is an argument: the file system and the other
  methods of a host, the JSON decoder, the URL parser, the sort of the library, the letter case of
  characters outside ASCII, the text of a JavaScript number, the largest allocation of the platform. A Go map
  whose elements the code visits is a list in the order of one possible visit.

  Theories, by layer.
  \<^item> \<open>Prelude\<close>, \<open>Flags\<close>, \<open>Go_Strings\<close>, \<open>Strconv\<close>, \<open>Utf8\<close>, \<open>Regexp\<close>: panics, checked slices, and what the
    code uses of Go's library: \<open>strings\<close>, \<open>strconv\<close>, \<open>unicode/utf8\<close>, and \<open>regexp\<close> by its matching rules.
  \<^item> \<open>Actions\<close>: the combinators of stateful code with three ways of reasoning: what every step keeps (locale
    \<open>kept\<close>), simulation between two states (\<open>refines\<close>), running within the stack; \<open>Actions_Wp\<close>: total
    correctness with one rule per combinator and one for loops.
  \<^item> \<open>Compare\<close>: three-way comparisons, the contract \<open>comparison\<close> and its clients (sorting, searching,
    lexicographic order), interpreted on strings, numbers, versions and pre-release identifiers.
  \<^item> \<open>Collections\<close>: \<open>collections/ordered_map.go\<close>, \<open>ordered_set.go\<close>, \<open>core/multimap.go\<close>, \<open>set.go\<close>,
    \<open>stack.go\<close>. The ordered map is a record of its key order and its table, refined to association lists
    (locale \<open>insertion_ordered\<close>); the multi-map is refined to a bag of values per key.
  \<^item> \<open>Core_Slices\<close>, \<open>Core_Text\<close>, \<open>Core_Pattern\<close>, \<open>Core_Options\<close>: \<open>core/core.go\<close>, \<open>binarysearch.go\<close>,
    \<open>text.go\<close>, \<open>tristate.go\<close>, \<open>pattern.go\<close>, \<open>compileroptions.go\<close>.
  \<^item> \<open>Stringutil\<close>: \<open>stringutil/util.go\<close> and \<open>compare.go\<close>.
  \<^item> \<open>Tspath\<close>, \<open>Tspath_Normalize\<close>, \<open>Tspath_Compare\<close>, \<open>Tspath_Ext\<close>: \<open>tspath/path.go\<close> and
    \<open>extension.go\<close>. \<open>Tspath_Scan\<close> and \<open>Tspath_Agree\<close> prove that the one-pass normalization computes what
    splitting, reducing and joining do; \<open>Tspath_Props\<close> the properties of the other operations.
  \<^item> \<open>Sourcemap_Vlq\<close>, \<open>Sourcemap_Decoder\<close>, \<open>Sourcemap_Generator\<close>, \<open>Sourcemap_Lines\<close>: \<open>sourcemap\<close>. The
    generator is a record with the code's fields. \<open>Sourcemap_Text\<close> relates a list of mappings to its text,
    \<open>Sourcemap_Commit\<close> one commit to the text it appends, and \<open>Sourcemap_Roundtrip\<close> states the abstract
    machine a generator implements, the simulation, and the properties.
  \<^item> \<open>Semver_Version\<close>, \<open>Semver_Precedence\<close>, \<open>Semver_Text\<close>: \<open>semver/version.go\<close>; \<open>Semver_Range\<close>,
    \<open>Semver_Range_Props\<close>, \<open>Semver_Range_Text\<close>: \<open>version_range.go\<close>. The regular expressions are transcribed;
    parsing, precedence, the ranges as sets of versions, and the round trips through their texts.
  \<^item> \<open>Lsp_Framing\<close>: \<open>lsp/lsproto/baseproto.go\<close>. \<open>Ls_Converters\<close>, \<open>Ls_Uris\<close>: \<open>ls/converters.go\<close>,
    \<open>linemap.go\<close>, \<open>types.go\<close>.
  \<^item> \<open>Packagejson\<close>: \<open>packagejson\<close>. \<open>Module_Util\<close>, \<open>Module_State\<close>, \<open>Module_Load\<close>, \<open>Module_Node\<close>:
    \<open>module/util.go\<close>, \<open>types.go\<close>, \<open>resolver.go\<close>; the resolver's fields are a record, the resolution state
    and the cache are the state of the actions. \<open>Module_Sound\<close>: what every operation keeps, so that a resolved
    file exists; \<open>Module_View\<close>, \<open>Module_Cache\<close>: the contract \<open>resolver_view\<close> of a relation on states that the
    resolution respects, interpreted twice, so that the cache is transparent; \<open>Module_Stack\<close>,
    \<open>Module_Cycle\<close>: which resolutions end, and one that does not; \<open>Module_Props\<close>: the entry points. A
    resolution that starts another one takes the bound \<open>depth\<close> on the nesting; without an import map 1 is
    enough and every larger bound gives the same answer.
  \<^item> \<open>Ast_Kinds\<close>, \<open>Jsnum_Bigint\<close>: token kinds, flags and tables (\<open>ast/kind.go\<close>, \<open>tokenflags.go\<close>, the tables
    of \<open>scanner.go\<close>), big integer literals. \<open>Scanner_Unicode\<close>, \<open>Scanner_Trivia\<close>: the characters of
    identifiers and what lies between tokens, on bare texts. \<open>Scanner_State\<close>: the records of the scanner.
    \<open>Scanner_Literals\<close>, \<open>Scanner_Strings\<close>, \<open>Scanner_Scan\<close>, \<open>Scanner_Rescan\<close>: its methods. A loop of the
    scanner runs at most once more than the text has bytes, since each round moves on; more would be the panic
    \<open>Diverges\<close>, which \<open>Scanner_Wp\<close>, \<open>Scanner_Wp_Strings\<close> and \<open>Scanner_Wp_Scan\<close> exclude method by method, and
    \<open>Scanner_Props\<close> for \<open>Scan\<close>: it always returns, and its tokens cover the text. \<open>Scanner_Lines\<close>: the
    lines of a source text, for the scanner and the printer.
  \<^item> \<open>Printer_Escape\<close>, \<open>Printer_Text\<close>: \<open>printer/utilities.go\<close>, the texts of literals, names and comments; of a
    node the functions read the fields of the record \<open>LiteralLikeNode\<close>. \<open>Printer_Roundtrip\<close>: the scanner reads
    a printed string literal back, piece by piece. \<open>Printer_Writer\<close>: \<open>printer/textwriter.go\<close> and
    \<open>singlelinestringwriter.go\<close>, with the contract \<open>text_writer\<close> that both meet, and the invariant that the
    writer's position is that of the text it has written.

  Not modelled, and why. The syntax tree and what works on it (parser, binder, checker, transformers, the
  printer of nodes, node builder, most of the language service, the functions of the scanner on nodes) would
  need the generated node types and their pointers as a store, which no property stated here needs; the
  checker alone is a third of the code. Floating-point numbers (\<open>jsnum\<close>) have no counterpart in the library.
  The file system, processes, caches of projects, watchers and the server loop are input and output or
  concurrency without logic of their own. Generated tables (diagnostic messages, stringers, protocol types)
  and the test harness are left out.
\<close>

end
